(* ===== verification/Prelude.thy ===== *)
theory Prelude
  imports "HOL-Library.Word" "HOL-Library.State_Monad"
begin

text \<open>
  Shared vocabulary of the development: machine words, wire bytes, C strings, and the generic
  lemmas on them that the component theories use.

  A byte is a \<^typ>\<open>char\<close> (both are eight bits wide), so that a received byte sequence and
  a \<open>std::string\<close> are the same type and the code's casts between them need no conversion. The
  32-bit quantities of the protocol (\<open>uint32_t\<close>, \<open>int\<close>, enum values) are
  \<open>32 word\<close>; an \<open>int\<close> is read with \<^const>\<open>sint\<close> where the code compares it as a
  signed number.
\<close>

section \<open>Collections of simplification rules\<close>

named_theorems codec \<open>reading back what was written\<close>
named_theorems chan \<open>effects of the channel operations on the fields of a channel\<close>
named_theorems sched \<open>effects of the scheduler operations on the scheduler state\<close>

section \<open>Types\<close>

type_synonym u32 = "32 word"
type_synonym u64 = "64 word"
type_synonym bytes = "char list"
type_synonym environments = "(string \<times> string) list"

abbreviation NUL :: char where
  "NUL \<equiv> CHR 0x00"

section \<open>Integers on the wire\<close>

text \<open>
  \<open>htonl\<close>/\<open>ntohl\<close> on the four bytes of a \<open>uint32_t\<close> (most significant byte
  first), and the least-significant-byte-first form that the version handshake uses.
\<close>

definition be32 :: "u32 \<Rightarrow> bytes" where
  "be32 w = map (\<lambda>k. char_of (unat w div 256 ^ k)) [3, 2, 1, 0]"

definition le32 :: "u32 \<Rightarrow> bytes" where
  "le32 w = map (\<lambda>k. char_of (unat w div 256 ^ k)) [0, 1, 2, 3]"

fun of_bytes_be :: "bytes \<Rightarrow> nat" where
  "of_bytes_be [] = 0"
| "of_bytes_be (b # bs) = of_char b * 256 ^ length bs + of_bytes_be bs"

definition un_be32 :: "bytes \<Rightarrow> u32" where
  "un_be32 bs = of_nat (of_bytes_be (take 4 bs))"

definition un_le32 :: "bytes \<Rightarrow> u32" where
  "un_le32 bs = of_nat (of_bytes_be (rev (take 4 bs)))"

lemma length_be32 [simp]: "length (be32 w) = 4"
  by (simp add: be32_def)

lemma length_le32 [simp]: "length (le32 w) = 4"
  by (simp add: le32_def)

lemma be32_not_Nil [simp]: "be32 w \<noteq> []"
  by (simp add: be32_def)

lemma base256_digits:
  fixes n :: nat
  shows "n div 16777216 * 16777216 + (n div 65536 mod 256 * 65536 + (n div 256 mod 256 * 256 + n mod 256)) = n"
proof -
  define q1 q2 q3 where "q1 = n div 256" and "q2 = q1 div 256" and "q3 = q2 div 256"
  have eqs: "n div 65536 = q2" "n div 16777216 = q3"
    by (simp_all add: q1_def q2_def q3_def div_mult2_eq [symmetric])
  have "n = q1 * 256 + n mod 256" "q1 = q2 * 256 + q1 mod 256" "q2 = q3 * 256 + q2 mod 256"
    by (simp_all add: q1_def q2_def q3_def)
  then show ?thesis
    unfolding eqs q1_def [symmetric] by linarith
qed

lemma unat_u32_less: "unat (w :: u32) < 2 ^ 32"
  using unsigned_less [of w, where ?'a = nat] by simp

lemma u32_top_byte: "unat (w :: u32) div 16777216 mod 256 = unat w div 16777216"
proof -
  have "unat w div 16777216 < 256"
    using unat_u32_less [of w] by (simp add: less_mult_imp_div_less)
  then show ?thesis
    by simp
qed

lemma of_bytes_be_be32: "of_bytes_be (be32 w) = unat w"
  using base256_digits [of "unat w"] by (simp add: be32_def add.assoc u32_top_byte)

lemma of_bytes_be_le32: "of_bytes_be (rev (le32 w)) = unat w"
  using base256_digits [of "unat w"] by (simp add: le32_def add.assoc u32_top_byte)

lemma un_be32_be32 [simp]: "un_be32 (be32 w @ bs) = w"
  by (simp add: un_be32_def of_bytes_be_be32)

lemma un_le32_le32 [simp]: "un_le32 (le32 w @ bs) = w"
  by (simp add: un_le32_def of_bytes_be_le32)

lemma take_be32 [simp]: "take 4 (be32 w @ bs) = be32 w"
  and drop_be32 [simp]: "drop 4 (be32 w @ bs) = bs"
  and take_le32 [simp]: "take 4 (le32 w @ bs) = le32 w"
  and drop_le32 [simp]: "drop 4 (le32 w @ bs) = bs"
  by simp_all

section \<open>Words and naturals\<close>

lemma unat_of_nat_u32: "n < 2 ^ 32 \<Longrightarrow> unat (of_nat n :: u32) = n"
  by (simp add: unat_of_nat take_bit_nat_eq_self_iff)

section \<open>Numbers\<close>

text \<open>Decimal numbers.\<close>

fun show_nat :: "nat \<Rightarrow> string" where
  "show_nat n = (if n < 10 then [char_of (48 + n)] else show_nat (n div 10) @ [char_of (48 + n mod 10)])"

declare show_nat.simps [simp del]

text \<open>\<open>%d\<close> and \<open>%u\<close>.\<close>

definition show_int :: "int \<Rightarrow> string" where
  "show_int i = (if i < 0 then CHR ''-'' # show_nat (nat (- i)) else show_nat (nat i))"

definition show_u32 :: "u32 \<Rightarrow> string" where
  "show_u32 w = show_nat (unat w)"

text \<open>\<open>atoi\<close>: blanks, a sign, and the digits that follow.\<close>

definition is_digit :: "char \<Rightarrow> bool" where
  "is_digit c \<longleftrightarrow> 48 \<le> (of_char c :: nat) \<and> (of_char c :: nat) \<le> 57"

definition digits_value :: "string \<Rightarrow> nat" where
  "digits_value s = foldl (\<lambda>n c. 10 * n + (of_char c - 48)) 0 (takeWhile is_digit s)"

definition atoi :: "string \<Rightarrow> int" where
  "atoi s =
     (let t = dropWhile (\<lambda>c. c = CHR '' '' \<or> 9 \<le> (of_char c :: nat) \<and> (of_char c :: nat) \<le> 13) s
      in case t of
           [] \<Rightarrow> 0
         | c # r \<Rightarrow> if c = CHR ''-'' then - int (digits_value r) else if c = CHR ''+'' then int (digits_value r) else int (digits_value t))"

text \<open>The value of a \<open>char\<close>, which is signed.\<close>

definition schar :: "char \<Rightarrow> int" where
  "schar c = (let n = int (of_char c) in if n < 128 then n else n - 256)"

text \<open>Division of signed numbers, which truncates.\<close>

definition cdiv :: "int \<Rightarrow> int \<Rightarrow> int" where
  "cdiv a b = sgn a * sgn b * (\<bar>a\<bar> div \<bar>b\<bar>)"

section \<open>Strings\<close>

text \<open>
  \<open>s = buf\<close> reads a C string: the bytes before the first NUL. A string that survives the
  wire has no NUL inside and a length that, with its terminator, fits a \<open>uint32_t\<close>.
\<close>

definition wf_str :: "string \<Rightarrow> bool" where
  "wf_str s \<longleftrightarrow> NUL \<notin> set s \<and> length s + 1 < 2 ^ 32"

lemma takeWhile_NUL: "NUL \<notin> set s \<Longrightarrow> takeWhile (\<lambda>c. c \<noteq> NUL) (s @ NUL # r) = s"
  by (induction s) auto

text \<open>Lower case in the C locale.\<close>

definition tolower :: "char \<Rightarrow> char" where
  "tolower c = (let n = of_char c :: nat in if 65 \<le> n \<and> n \<le> 90 then char_of (n + 32) else c)"

text \<open>\<open>strcasecmp(s, t) == 0\<close>\<close>

definition strcasecmp_eq :: "string \<Rightarrow> string \<Rightarrow> bool" where
  "strcasecmp_eq s t \<longleftrightarrow> map tolower s = map tolower t"

section \<open>Lists\<close>

lemma prefix_split:
  assumes "a @ b = x @ y" and "length x \<le> length a"
  shows "take (length x) a = x" and "drop (length x) a @ b = y" and "a = x @ drop (length x) a"
proof -
  have "take (length x) (a @ b) = x" "drop (length x) (a @ b) = y"
    using assms(1) by simp_all
  with assms(2) show t: "take (length x) a = x" and "drop (length x) a @ b = y"
    by simp_all
  from t show "a = x @ drop (length x) a"
    by (metis append_take_drop_id)
qed

lemma find_SomeD: "find P xs = Some x \<Longrightarrow> x \<in> set xs \<and> P x"
  by (induction xs) (auto split: if_splits)

lemma remove1_append_distinct:
  "x \<notin> set ys \<Longrightarrow> remove1 x (ys @ x # zs) = ys @ zs"
  by (simp add: remove1_append)

end
