(* ===== verification/Channel.thy ===== *)
theory Channel
  imports Prelude
begin

text \<open>
  The byte-level half of \<open>MsgChannel\<close> (\<open>services/comm.h\<close>, \<open>services/comm.cpp\<close>):
  the input and output buffers, the connection states, the version handshake, the framing of
  messages, and the primitive readers and writers \<open>operator>>\<close> and \<open>operator<<\<close>.

  The record \<open>chan\<close> has the fields of the class. \<open>inofs\<close> is the length of
  \<open>inbuf\<close> (the model keeps the received bytes only; \<open>inbuflen\<close> is the size of the
  allocation behind them). The answers of the system calls are fields too: \<open>k_rd\<close> holds what
  successive \<open>read()\<close> calls return, \<open>k_snd\<close> what successive \<open>send()\<close> calls
  return, \<open>k_poll\<close> what successive \<open>poll()\<close> calls return, and \<open>k_out\<close>
  collects the bytes handed to the kernel. An exhausted \<open>k_rd\<close> is a socket with nothing to
  read, an exhausted \<open>k_snd\<close> a socket that takes everything, an exhausted
  \<open>k_pollin\<close> or \<open>k_pollout\<close> a timeout. \<open>overread\<close> records that a string read ran past the received bytes.
\<close>

section \<open>State\<close>

datatype instate = NEED_PROTO | NEED_LEN | FILL_BUF | HAS_MSG | ERROR

text \<open>A \<open>read()\<close> of no bytes is end of file.\<close>

datatype rd_res = RData bytes | RIntr | RAgain | RErr

datatype snd_res = SSent nat | SIntr | SAgain | SErr

datatype poll_res = PReady | PIntr | PFail

record chan =
  protocol :: int
  maximum_remote_protocol :: int
  msgbuf :: bytes
  msgbuflen :: nat
  msgofs :: nat
  msgtogo :: nat
  inbuf :: bytes
  inbuflen :: nat
  intogo :: nat
  instate :: instate
  inmsglen :: u32
  eof :: bool
  text_based :: bool
  slow_network :: bool
  overread :: bool
  k_rd :: "rd_res list"
  k_snd :: "snd_res list"
  k_pollin :: "poll_res list"
  k_pollout :: "poll_res list"
  k_out :: bytes

definition PROTOCOL_VERSION :: u32 where
  "PROTOCOL_VERSION = 45"

definition MIN_PROTOCOL_VERSION :: u32 where
  "MIN_PROTOCOL_VERSION = 21"

definition MAX_MSG_SIZE :: nat where
  "MAX_MSG_SIZE = 1 * 1024 * 1024"

definition MAX_SLOW_WRITE_SIZE :: nat where
  "MAX_SLOW_WRITE_SIZE = 10 * 1024"

text \<open>\<open>MAX_SCHEDULER_PONG\<close>, \<open>MAX_SCHEDULER_PING\<close> and \<open>MAX_BUSY_INSTALLING\<close>.\<close>

definition MAX_SCHEDULER_PONG :: "bool \<Rightarrow> int" where
  "MAX_SCHEDULER_PONG slow = (if \<not> slow then 3 else 300)"

definition MAX_SCHEDULER_PING :: "bool \<Rightarrow> int" where
  "MAX_SCHEDULER_PING slow = 12 * MAX_SCHEDULER_PONG slow"

definition MAX_BUSY_INSTALLING :: "bool \<Rightarrow> int" where
  "MAX_BUSY_INSTALLING slow = (if \<not> slow then 120 else 10 * 60 * 60)"

definition get_max_write_size :: "chan \<Rightarrow> nat" where
  "get_max_write_size c = (if slow_network c then MAX_SLOW_WRITE_SIZE else MAX_MSG_SIZE)"

abbreviation inofs :: "chan \<Rightarrow> nat" where
  "inofs c \<equiv> length (inbuf c)"

text \<open>\<open>(x + 127) & ~127\<close>: buffers grow to a multiple of 128.\<close>

definition round128 :: "nat \<Rightarrow> nat" where
  "round128 x = (x + 127) div 128 * 128"

definition has_msg :: "chan \<Rightarrow> bool" where
  "has_msg c \<longleftrightarrow> eof c \<or> instate c = HAS_MSG"

definition at_eof :: "chan \<Rightarrow> bool" where
  "at_eof c \<longleftrightarrow> instate c \<noteq> HAS_MSG \<and> eof c"

section \<open>Output\<close>

definition chop_output :: "chan \<Rightarrow> chan" where
  "chop_output c =
     (if msgofs c > 8192 \<or> msgtogo c \<le> 16
      then c\<lparr>msgbuf := take (msgtogo c) (drop (msgofs c) (msgbuf c)), msgofs := 0\<rparr>
      else c)"

text \<open>The data is copied to \<open>msgbuf + msgtogo\<close>, whatever \<open>msgofs\<close> is.\<close>

definition writefull :: "bytes \<Rightarrow> chan \<Rightarrow> chan" where
  "writefull b c =
     (let c1 = (if msgtogo c + length b \<ge> msgbuflen c
                then c\<lparr>msgbuflen := round128 (msgtogo c + length b)\<rparr> else c)
      in c1\<lparr>msgbuf := take (msgtogo c) (msgbuf c) @ b @ drop (msgtogo c + length b) (msgbuf c),
            msgtogo := msgtogo c + length b\<rparr>)"

fun poll_wait :: "poll_res list \<Rightarrow> bool \<times> poll_res list" where
  "poll_wait [] = (False, [])"
| "poll_wait (PIntr # ps) = poll_wait ps"
| "poll_wait (PReady # ps) = (True, ps)"
| "poll_wait (PFail # ps) = (False, ps)"

text \<open>
  The \<open>while (msgtogo)\<close> loop of \<open>flush_writebuf\<close>: the bytes sent, the bytes left, whether
  there was an error, and the unused answers of the kernel.
\<close>

fun flush_loop :: "bool \<Rightarrow> nat \<Rightarrow> snd_res list \<Rightarrow> poll_res list \<Rightarrow> bytes \<Rightarrow>
    bytes \<times> bytes \<times> bool \<times> snd_res list \<times> poll_res list" where
  "flush_loop blocking mx ss ps [] = ([], [], False, ss, ps)"
| "flush_loop blocking mx [] ps (b # bs) = (b # bs, [], False, [], ps)"
| "flush_loop blocking mx (SIntr # ss) ps (b # bs) = flush_loop blocking mx ss ps (b # bs)"
| "flush_loop blocking mx (SErr # ss) ps (b # bs) = ([], b # bs, True, ss, ps)"
| "flush_loop blocking mx (SAgain # ss) ps (b # bs) =
     (if blocking
      then (case poll_wait ps of
              (True, ps') \<Rightarrow> flush_loop blocking mx ss ps' (b # bs)
            | (False, ps') \<Rightarrow> ([], b # bs, True, ss, ps'))
      else ([], b # bs, True, ss, ps))"
| "flush_loop blocking mx (SSent n # ss) ps (b # bs) =
     (let k = min n (min (length (b # bs)) mx)
      in if k = 0 then ([], b # bs, True, ss, ps)
         else (case flush_loop blocking mx ss ps (drop k (b # bs)) of
                 (sent, left, err, ss', ps') \<Rightarrow> (take k (b # bs) @ sent, left, err, ss', ps')))"

text \<open>
  \<open>set_error\<close> reads a last message from the peer, so it is mutually recursive with
  \<open>get_msg\<close>; the flag \<open>set_error_recursion\<close> cuts the recursion at depth one. The
  operations below take the \<open>set_error\<close> of their level as the argument \<open>se\<close>.
\<close>

type_synonym set_error_fn = "bool \<Rightarrow> chan \<Rightarrow> chan"

definition pending :: "chan \<Rightarrow> bytes" where
  "pending c = take (msgtogo c) (drop (msgofs c) (msgbuf c))"

definition flush_writebuf :: "set_error_fn \<Rightarrow> bool \<Rightarrow> chan \<Rightarrow> bool \<times> chan" where
  "flush_writebuf se blocking c =
     (case flush_loop blocking (get_max_write_size c) (k_snd c) (k_pollout c) (pending c) of
        (sent, left, err, ss, ps) \<Rightarrow>
          (let c1 = chop_output (c\<lparr>msgtogo := length left, msgofs := msgofs c + length sent,
                                   k_snd := ss, k_pollout := ps, k_out := k_out c @ sent\<rparr>)
           in if err then (False, se False c1) else (True, c1)))"

section \<open>Primitive readers\<close>

text \<open>\<open>operator>>\<close>: on missing data the result is 0 or the empty string.\<close>

definition get_u32 :: "(chan, u32) state" where
  "get_u32 = State (\<lambda>c.
     if inofs c \<ge> intogo c + 4
     then (un_be32 (drop (intogo c) (inbuf c)), c\<lparr>intogo := intogo c + 4\<rparr>)
     else (0, c))"

definition get_string :: "(chan, string) state" where
  "get_string = do {
     len \<leftarrow> get_u32;
     State (\<lambda>c.
       let r = drop (intogo c) (inbuf c)
       in if len = 0 \<or> unat len > length r then ('''', c)
          else (takeWhile (\<lambda>b. b \<noteq> NUL) r,
                c\<lparr>intogo := intogo c + unat len, overread := overread c \<or> NUL \<notin> set r\<rparr>))
   }"

text \<open>The two shapes of counted loop: with and without the check for the end of the input.\<close>

primrec get_many :: "(chan, 'a) state \<Rightarrow> nat \<Rightarrow> (chan, 'a list) state" where
  "get_many g 0 = State_Monad.return []"
| "get_many g (Suc n) = do { x \<leftarrow> g; xs \<leftarrow> get_many g n; State_Monad.return (x # xs) }"

primrec get_many_until_end :: "(chan, 'a) state \<Rightarrow> nat \<Rightarrow> (chan, 'a list) state" where
  "get_many_until_end g 0 = State_Monad.return []"
| "get_many_until_end g (Suc n) = do {
     x \<leftarrow> g;
     at_end \<leftarrow> State (\<lambda>c. (inofs c = intogo c, c));
     if at_end then State_Monad.return [x]
     else do { xs \<leftarrow> get_many_until_end g n; State_Monad.return (x # xs) }
   }"

definition get_string_list :: "(chan, string list) state" where
  "get_string_list = do { len \<leftarrow> get_u32; get_many_until_end get_string (unat len) }"

definition IS_PROTOCOL_VERSION :: "int \<Rightarrow> (chan, bool) state" where
  "IS_PROTOCOL_VERSION v = State (\<lambda>c. (protocol c \<ge> v, c))"

text \<open>\<open>if (IS_PROTOCOL_VERSION(v, c)) *c >> x;\<close> with \<open>d\<close> the value \<open>x\<close> keeps otherwise.\<close>

definition if_proto :: "int \<Rightarrow> (chan, 'a) state \<Rightarrow> 'a \<Rightarrow> (chan, 'a) state" where
  "if_proto v g d = do { b \<leftarrow> IS_PROTOCOL_VERSION v; if b then g else State_Monad.return d }"

definition get_pair :: "(chan, 'a) state \<Rightarrow> (chan, 'b) state \<Rightarrow> (chan, 'a \<times> 'b) state" where
  "get_pair g h = do { a \<leftarrow> g; b \<leftarrow> h; State_Monad.return (a, b) }"

definition get_environment :: "(chan, string \<times> string) state" where
  "get_environment = get_pair get_string get_string"

definition read_environments :: "(chan, environments) state" where
  "read_environments = do { count \<leftarrow> get_u32; get_many get_environment (unat count) }"

text \<open>
  \<open>read_line\<close>, for text connections. \<open>char\<close> is signed: a byte of 128 or more is
  negative and counts as less than a blank.
\<close>

definition below_blank :: "char \<Rightarrow> bool" where
  "below_blank b \<longleftrightarrow> (of_char b :: nat) < 32 \<or> (of_char b :: nat) \<ge> 128"

definition read_line :: "(chan, string) state" where
  "read_line = State (\<lambda>c.
     if \<not> text_based c \<or> inofs c < intogo c then ('''', c)
     else let r = drop (intogo c) (inbuf c); n = unat (inmsglen c)
          in (take n r,
              c\<lparr>intogo := intogo c + n + length (takeWhile below_blank (drop n r))\<rparr>))"

section \<open>Primitive writers\<close>

text \<open>
  The bytes each \<open>operator<<\<close> passes to \<open>writefull\<close>. \<open>write_line\<close> looks at
  the last character of the line; of an empty line there is none (\<open>None\<close>).
\<close>

definition put_u32 :: "u32 \<Rightarrow> bytes" where
  "put_u32 i = be32 i"

text \<open>\<open>if (IS_PROTOCOL_VERSION(v, c)) *c << x;\<close> on a channel of protocol \<open>p\<close>.\<close>

definition put_if :: "int \<Rightarrow> int \<Rightarrow> bytes \<Rightarrow> bytes" where
  "put_if v p b = (if p \<ge> v then b else [])"

definition put_string :: "string \<Rightarrow> bytes" where
  "put_string s = put_u32 (of_nat (1 + length s)) @ s @ [NUL]"

definition put_string_list :: "string list \<Rightarrow> bytes" where
  "put_string_list l = put_u32 (of_nat (length l)) @ concat (map put_string l)"

definition put_environment :: "string \<times> string \<Rightarrow> bytes" where
  "put_environment e = put_string (fst e) @ put_string (snd e)"

definition write_environments :: "environments \<Rightarrow> bytes" where
  "write_environments envs = put_u32 (of_nat (length envs)) @ concat (map put_environment envs)"

definition write_line :: "string \<Rightarrow> bytes option" where
  "write_line line =
     (if line = [] then None
      else Some (if last line \<noteq> CHR 0x0A then line @ [CHR 0x0A] else line))"

section \<open>Input: framing and handshake\<close>

definition chop_input :: "chan \<Rightarrow> chan" where
  "chop_input c =
     (if intogo c > 8192 \<or> inofs c - intogo c \<le> 16
      then c\<lparr>inbuf := drop (intogo c) (inbuf c), intogo := 0\<rparr>
      else c)"

text \<open>
  The loop of the \<open>NEED_PROTO\<close> case. Each round consumes four bytes and the loop runs while
  four bytes are left, so it is a recursion on the number of complete groups of four. The first
  result is \<open>False\<close> where the code returns \<open>false\<close>.
\<close>

primrec proto_loop :: "set_error_fn \<Rightarrow> nat \<Rightarrow> chan \<Rightarrow> bool \<times> chan" where
  "proto_loop se 0 c = (True, c)"
| "proto_loop se (Suc n) c =
     (if protocol c = 0 then (False, c)
      else
        let remote_prot = un_le32 (drop (intogo c) (inbuf c));
            c1 = c\<lparr>intogo := intogo c + 4\<rparr>
        in if protocol c = -1 then
             (if remote_prot < MIN_PROTOCOL_VERSION \<or> remote_prot > 2 ^ 20
              then (False, se False (c1\<lparr>protocol := 0\<rparr>))
              else
                let v = (if remote_prot > PROTOCOL_VERSION then PROTOCOL_VERSION else remote_prot)
                in case flush_writebuf se True
                          (writefull (le32 v)
                             (c1\<lparr>protocol := 0, maximum_remote_protocol := uint remote_prot\<rparr>)) of
                     (False, c2) \<Rightarrow> (False, se False c2)
                   | (True, c2) \<Rightarrow> proto_loop se n (c2\<lparr>protocol := -1 - uint v\<rparr>))
           else if protocol c < -1 then
             (let p = - (protocol c + 1)
              in if sint remote_prot \<noteq> p
                 then (False, se False (c1\<lparr>protocol := 0\<rparr>))
                 else (True, c1\<lparr>protocol := p, instate := NEED_LEN\<rparr>))
           else (False, se False c1))"

text \<open>The \<open>FILL_BUF\<close> and \<open>NEED_LEN\<close> cases, in the order the code falls through them.\<close>

definition update_fill :: "chan \<Rightarrow> chan" where
  "update_fill c = (if inofs c - intogo c \<ge> unat (inmsglen c) then c\<lparr>instate := HAS_MSG\<rparr> else c)"

text \<open>
  On a text connection the loop that is to skip leading white space has the condition
  \<open>inofs < intogo\<close>, which never holds; the second loop stops at the first byte below a blank.
\<close>

definition update_len :: "chan \<Rightarrow> chan" where
  "update_len c =
     (if text_based c then
        let r = drop (intogo c) (inbuf c); n = length (takeWhile (\<lambda>b. \<not> below_blank b) r)
        in if n < length r then c\<lparr>inmsglen := of_nat n, instate := HAS_MSG\<rparr>
           else c\<lparr>inmsglen := of_nat n\<rparr>
      else if inofs c - intogo c \<ge> 4 then
        (case run_state get_u32 c of
           (len, c1) \<Rightarrow>
             let c2 = c1\<lparr>inmsglen := len\<rparr>;
                 c3 = (if inbuflen c2 - intogo c2 < unat len
                       then c2\<lparr>inbuflen := round128 (unat len + intogo c2)\<rparr> else c2)
             in update_fill (c3\<lparr>instate := FILL_BUF\<rparr>))
      else c)"

definition update_state :: "set_error_fn \<Rightarrow> chan \<Rightarrow> bool \<times> chan" where
  "update_state se c =
     (case instate c of
        NEED_PROTO \<Rightarrow>
          (case proto_loop se ((inofs c - intogo c) div 4) c of
             (False, c1) \<Rightarrow> (False, c1)
           | (True, c1) \<Rightarrow> (True, if instate c1 \<noteq> NEED_LEN then c1 else update_len c1))
      | NEED_LEN \<Rightarrow> (True, update_len c)
      | FILL_BUF \<Rightarrow> (True, update_fill c)
      | HAS_MSG \<Rightarrow> (True, c)
      | ERROR \<Rightarrow> (False, c))"

text \<open>The loop of \<open>read_a_bit\<close> around \<open>read()\<close>: data, end of file, error, answers left.\<close>

fun read_loop :: "nat \<Rightarrow> rd_res list \<Rightarrow> bytes \<times> bool \<times> bool \<times> rd_res list" where
  "read_loop count [] = ([], False, False, [])"
| "read_loop count (RIntr # rs) = read_loop count rs"
| "read_loop count (RAgain # rs) = ([], False, False, rs)"
| "read_loop count (RErr # rs) = ([], False, True, rs)"
| "read_loop count (RData bs # rs) =
     (if bs = [] then ([], True, False, rs)
      else (take count bs, False, False,
            if length bs \<le> count then rs else RData (drop count bs) # rs))"

definition read_a_bit :: "set_error_fn \<Rightarrow> chan \<Rightarrow> bool \<times> chan" where
  "read_a_bit se c =
     (let c1 = chop_input c;
          c2 = (if inbuflen c1 - inofs c1 < 128
                then c1\<lparr>inbuflen := round128 (inbuflen c1 + 128)\<rparr> else c1);
          count = inbuflen c2 - inofs c2
      in case (if eof c2 then ([], True, False, k_rd c2) else read_loop count (k_rd c2)) of
           (bs, at_end, err, rs) \<Rightarrow>
             (case update_state se (c2\<lparr>inbuf := inbuf c2 @ bs, eof := at_end, k_rd := rs\<rparr>) of
                (ok, c3) \<Rightarrow>
                  if err \<or> \<not> ok then (False, se (instate c3 = NEED_PROTO) c3) else (True, c3)))"

fun wait_msg_loop :: "set_error_fn \<Rightarrow> poll_res list \<Rightarrow> chan \<Rightarrow> bool \<times> chan" where
  "wait_msg_loop se [] c = (has_msg c, c)"
| "wait_msg_loop se (p # ps) c =
     (if has_msg c then (True, c)
      else let c1 = c\<lparr>k_pollin := ps\<rparr>
           in case p of
                PIntr \<Rightarrow> wait_msg_loop se ps c1
              | PFail \<Rightarrow> (False, c1)
              | PReady \<Rightarrow>
                  (case read_a_bit se c1 of
                     (False, c2) \<Rightarrow> (False, se False c2)
                   | (True, c2) \<Rightarrow> wait_msg_loop se ps c2))"

definition wait_for_msg :: "set_error_fn \<Rightarrow> int \<Rightarrow> chan \<Rightarrow> bool \<times> chan" where
  "wait_for_msg se timeout c =
     (if instate c = ERROR then (False, c)
      else if has_msg c then (True, c)
      else case read_a_bit se c of
             (False, c1) \<Rightarrow> (False, se False c1)
           | (True, c1) \<Rightarrow>
               if timeout \<le> 0 then (has_msg c1, c1) else wait_msg_loop se (k_pollin c1) c1)"

fun wait_proto_loop :: "set_error_fn \<Rightarrow> poll_res list \<Rightarrow> chan \<Rightarrow> bool \<times> chan" where
  "wait_proto_loop se [] c = (if instate c = NEED_PROTO then (False, se False c) else (True, c))"
| "wait_proto_loop se (p # ps) c =
     (if instate c \<noteq> NEED_PROTO then (True, c)
      else let c1 = c\<lparr>k_pollin := ps\<rparr>
           in case p of
                PIntr \<Rightarrow> wait_proto_loop se ps c1
              | PFail \<Rightarrow> (False, se False c1)
              | PReady \<Rightarrow>
                  (case read_a_bit se c1 of
                     (ok, c2) \<Rightarrow> if \<not> ok \<or> eof c2 then (False, c2) else wait_proto_loop se ps c2))"

definition wait_for_protocol :: "set_error_fn \<Rightarrow> chan \<Rightarrow> bool \<times> chan" where
  "wait_for_protocol se c =
     (if protocol c = 0 \<or> instate c = ERROR then (False, c)
      else wait_proto_loop se (k_pollin c) c)"

section \<open>Compressed data\<close>

text \<open>
  The compression libraries are parameters, as are the contents of memory that the code reads
  before it writes it, and the platform name that \<open>uname()\<close> gives. \<open>ZSTD_compress\<close> and
  \<open>lzo1x_1_compress\<close> return the compressed bytes or fail; the decompressors get the size of the
  output buffer first.
\<close>

record libs =
  ZSTD_compress :: "bytes \<Rightarrow> bytes option"
  ZSTD_decompress :: "nat \<Rightarrow> bytes \<Rightarrow> bytes option"
  lzo1x_1_compress :: "bytes \<Rightarrow> bytes option"
  lzo1x_decompress :: "nat \<Rightarrow> bytes \<Rightarrow> bytes option"
  uninit_byte :: char
  uninit_word :: u32
  uninit_bool :: bool
  determine_platform :: string

abbreviation (input) C_LZO :: u32 where "C_LZO \<equiv> 0"
abbreviation (input) C_ZSTD :: u32 where "C_ZSTD \<equiv> 1"

text \<open>
  The decompression step: the buffer (\<open>None\<close> for a null pointer) and its length. With zstd the
  length is the announced one, whatever the library wrote.
\<close>

definition decompress :: "libs \<Rightarrow> u32 \<Rightarrow> nat \<Rightarrow> bytes \<Rightarrow> bytes option \<times> nat" where
  "decompress L proto uclen data =
     (if proto = C_ZSTD \<and> uclen \<noteq> 0 \<and> data \<noteq> [] then
        (case ZSTD_decompress L uclen data of
           None \<Rightarrow> (None, 0)
         | Some d \<Rightarrow> (Some (d @ replicate (uclen - length d) (uninit_byte L)), uclen))
      else if proto = C_LZO \<and> uclen \<noteq> 0 \<and> data \<noteq> [] then
        (case lzo1x_decompress L uclen data of
           None \<Rightarrow> (None, 0)
         | Some d \<Rightarrow> (Some d, length d))
      else (Some (replicate uclen (uninit_byte L)), uclen))"

definition readcompressed :: "libs \<Rightarrow> set_error_fn \<Rightarrow> (chan, bytes option \<times> nat \<times> nat) state" where
  "readcompressed L se = do {
     ul \<leftarrow> get_u32;
     cl \<leftarrow> get_u32;
     v40 \<leftarrow> IS_PROTOCOL_VERSION 40;
     proto \<leftarrow> (if v40 then get_u32 else State_Monad.return C_LZO);
     State (\<lambda>c.
       let r = drop (intogo c) (inbuf c)
       in if v40 \<and> proto \<noteq> C_LZO \<and> proto \<noteq> C_ZSTD then ((None, 0, unat cl), se False c)
          else if unat ul > MAX_MSG_SIZE \<or> unat cl > inofs c - intogo c
                  \<or> (ul \<noteq> 0 \<and> cl = 0) \<or> inofs c < intogo c + unat cl
               then ((None, 0, unat cl), se False c)
          else (case decompress L proto (unat ul) (take (unat cl) r) of
                  (buf, n) \<Rightarrow> ((buf, n, unat cl), c\<lparr>intogo := intogo c + unat cl\<rparr>)))
   }"

text \<open>
  The bytes \<open>writecompressed\<close> appends. When lzo fails the payload is empty. When zstd fails,
  the code first sets \<open>out_len\<close> to 0 and then to the error code itself, and advances the write
  position by it: the write position is outside the buffer (\<open>None\<close>).
\<close>

definition writecompressed :: "libs \<Rightarrow> int \<Rightarrow> bytes \<Rightarrow> bytes option" where
  "writecompressed L p in_buf =
     (let proto = (if p \<ge> 40 then C_ZSTD else C_LZO);
          out = (if proto = C_LZO
                 then Some (case lzo1x_1_compress L in_buf of None \<Rightarrow> [] | Some d \<Rightarrow> d)
                 else ZSTD_compress L in_buf)
      in map_option (\<lambda>d. put_u32 (of_nat (length in_buf)) @ put_u32 (of_nat (length d))
                          @ (if p \<ge> 40 then put_u32 proto else []) @ d) out)"

section \<open>Reading back what was written\<close>

text \<open>A channel whose consumed input is \<open>pre\<close> and whose remaining input is \<open>r\<close>.\<close>

definition at_input :: "bytes \<Rightarrow> bytes \<Rightarrow> chan \<Rightarrow> chan" where
  "at_input pre r c = c\<lparr>inbuf := pre @ r, intogo := length pre\<rparr>"

lemma at_input_simps [simp]:
  "inbuf (at_input pre r c) = pre @ r"
  "intogo (at_input pre r c) = length pre"
  "protocol (at_input pre r c) = protocol c"
  "instate (at_input pre r c) = instate c"
  "inmsglen (at_input pre r c) = inmsglen c"
  "text_based (at_input pre r c) = text_based c"
  "inbuflen (at_input pre r c) = inbuflen c"
  "eof (at_input pre r c) = eof c"
  "k_rd (at_input pre r c) = k_rd c"
  "overread (at_input pre r c) = overread c"
  by (simp_all add: at_input_def)

lemma at_input_intro:
  assumes "inbuf c = pre @ r" and "intogo c = length pre"
  shows "c = at_input pre r c"
  using assms by (simp add: at_input_def)

lemma length_put_u32 [simp]: "length (put_u32 w) = 4"
  by (simp add: put_u32_def)

lemma get_u32_put [codec]:
  "run_state get_u32 (at_input pre (put_u32 w @ r) c) = (w, at_input (pre @ put_u32 w) r c)"
  by (simp add: get_u32_def at_input_def put_u32_def)

lemma is_protocol [codec]:
  "run_state (IS_PROTOCOL_VERSION v) (at_input pre r c) = (protocol c \<ge> v, at_input pre r c)"
  by (simp add: IS_PROTOCOL_VERSION_def)

text \<open>
  The contract of a writer and the reader for the same type: whatever was read before and whatever
  follows, the reader returns the value written and stops right behind it. The loops over items are
  correct for every such pair.
\<close>

locale codec =
  fixes put :: "'a \<Rightarrow> bytes"
    and get :: "(chan, 'a) state"
    and ok :: "'a \<Rightarrow> bool"
  assumes get_put: "ok x \<Longrightarrow> run_state get (at_input pre (put x @ r) c) = (x, at_input (pre @ put x) r c)"
    and put_nonempty: "put x \<noteq> []"
begin

lemma many:
  assumes "\<forall>x\<in>set xs. ok x"
  shows "run_state (get_many get (length xs)) (at_input pre (concat (map put xs) @ r) c)
         = (xs, at_input (pre @ concat (map put xs)) r c)"
  using assms by (induction xs arbitrary: pre) (simp_all add: get_put)

lemma many_until_end:
  assumes "\<forall>x\<in>set xs. ok x"
  shows "run_state (get_many_until_end get (length xs)) (at_input pre (concat (map put xs) @ r) c)
         = (xs, at_input (pre @ concat (map put xs)) r c)"
  using assms
proof (induction xs arbitrary: pre)
  case (Cons x xs)
  then have IH: "run_state (get_many_until_end get (length xs)) (at_input (pre @ put x) (concat (map put xs) @ r) c)
      = (xs, at_input (pre @ put x @ concat (map put xs)) r c)" and "ok x"
    by simp_all
  show ?case
  proof (cases "xs = []")
    case True
    with \<open>ok x\<close> show ?thesis
      by (simp add: get_put)
  next
    case False
    then have "concat (map put xs) \<noteq> []"
      by (cases xs) (simp_all add: put_nonempty)
    with IH \<open>ok x\<close> show ?thesis
      by (simp add: get_put del: concat_eq_Nil_conv)
  qed
qed simp

lemma if_proto_put:
  assumes "v \<le> protocol c \<Longrightarrow> ok x"
  shows "run_state (if_proto v get d) (at_input pre (put_if v (protocol c) (put x) @ r) c)
         = (if v \<le> protocol c then x else d, at_input (pre @ put_if v (protocol c) (put x)) r c)"
  using assms get_put by (simp add: if_proto_def put_if_def is_protocol)

lemma counted:
  assumes "\<forall>x\<in>set xs. ok x" and "length xs < 2 ^ 32"
  shows "run_state (do { n \<leftarrow> get_u32; get_many get (unat n) })
           (at_input pre (put_u32 (of_nat (length xs)) @ concat (map put xs) @ r) c)
         = (xs, at_input (pre @ put_u32 (of_nat (length xs)) @ concat (map put xs)) r c)"
  using many [OF assms(1)] assms(2) by (simp add: get_u32_put unat_of_nat_u32)

lemma counted_until_end:
  assumes "\<forall>x\<in>set xs. ok x" and "length xs < 2 ^ 32"
  shows "run_state (do { n \<leftarrow> get_u32; get_many_until_end get (unat n) })
           (at_input pre (put_u32 (of_nat (length xs)) @ concat (map put xs) @ r) c)
         = (xs, at_input (pre @ put_u32 (of_nat (length xs)) @ concat (map put xs)) r c)"
  using many_until_end [OF assms(1)] assms(2) by (simp add: get_u32_put unat_of_nat_u32)

end

lemma wf_str_len: "wf_str s \<Longrightarrow> unat (of_nat (Suc (length s)) :: u32) = Suc (length s)"
  by (simp only: wf_str_def unat_of_nat_u32 Suc_eq_plus1)

lemma get_string_put:
  assumes "wf_str s"
  shows "run_state get_string (at_input pre (put_string s @ r) c) = (s, at_input (pre @ put_string s) r c)"
proof -
  have "(of_nat (Suc (length s)) :: u32) \<noteq> 0"
    using wf_str_len [OF assms] by (metis Zero_not_Suc unat_0)
  moreover have "NUL \<notin> set s"
    using assms by (simp add: wf_str_def)
  ultimately show ?thesis
    using wf_str_len [OF assms]
    by (simp add: get_string_def put_string_def get_u32_put Let_def takeWhile_NUL)
       (simp add: at_input_def)
qed

text \<open>Two values written one after the other.\<close>

locale codec_pair = A: codec putA getA okA + B: codec putB getB okB
  for putA :: "'a \<Rightarrow> bytes" and getA okA and putB :: "'b \<Rightarrow> bytes" and getB okB
begin

lemma get_put_pair:
  assumes "okA (fst x) \<and> okB (snd x)"
  shows "run_state (get_pair getA getB) (at_input pre ((putA (fst x) @ putB (snd x)) @ r) c)
         = (x, at_input (pre @ putA (fst x) @ putB (snd x)) r c)"
  using assms by (simp add: get_pair_def A.get_put B.get_put)

end

sublocale codec_pair \<subseteq> pair: codec "\<lambda>x. putA (fst x) @ putB (snd x)" "get_pair getA getB" "\<lambda>x. okA (fst x) \<and> okB (snd x)"
  by unfold_locales (simp_all only: get_put_pair append_is_Nil_conv A.put_nonempty simp_thms not_False_eq_True)

interpretation word: codec put_u32 get_u32 "\<lambda>_. True"
  by unfold_locales (simp add: get_u32_put, simp add: put_u32_def)

interpretation str: codec put_string get_string wf_str
  by unfold_locales (simp_all add: get_string_put, simp add: put_string_def)

interpretation str_str: codec_pair put_string get_string wf_str put_string get_string wf_str ..

interpretation str_word: codec_pair put_string get_string wf_str put_u32 get_u32 "\<lambda>_. True" ..

definition wf_env :: "string \<times> string \<Rightarrow> bool" where
  "wf_env e \<longleftrightarrow> wf_str (fst e) \<and> wf_str (snd e)"

interpretation env: codec put_environment get_environment wf_env
  unfolding put_environment_def get_environment_def wf_env_def by (fact str_str.pair.codec_axioms)

definition wf_strs :: "string list \<Rightarrow> bool" where
  "wf_strs l \<longleftrightarrow> (\<forall>s\<in>set l. wf_str s) \<and> length l < 2 ^ 32"

definition wf_envs :: "environments \<Rightarrow> bool" where
  "wf_envs l \<longleftrightarrow> (\<forall>e\<in>set l. wf_env e) \<and> length l < 2 ^ 32"

interpretation strs: codec put_string_list get_string_list wf_strs
  by unfold_locales
    (use str.counted_until_end in \<open>simp_all add: wf_strs_def get_string_list_def put_string_list_def word.put_nonempty\<close>)

interpretation envs: codec write_environments read_environments wf_envs
  by unfold_locales
    (use env.counted in \<open>simp_all add: wf_envs_def read_environments_def write_environments_def word.put_nonempty\<close>)

interpretation str_strs: codec_pair put_string get_string wf_str put_string_list get_string_list wf_strs ..

lemmas codec_simps = codec str.get_put strs.get_put envs.get_put
  word.if_proto_put [simplified] str.if_proto_put strs.if_proto_put
  str_str.pair.if_proto_put [where x = "(a, b)" for a b, unfolded fst_conv snd_conv]
  str_word.pair.if_proto_put [where x = "(a, b)" for a b, unfolded fst_conv snd_conv]
  str_strs.pair.if_proto_put [where x = "(a, b)" for a b, unfolded fst_conv snd_conv]

end
