(* ===== verification/CompileJob.thy ===== *)
theory CompileJob
  imports Channel
begin

unbundle bit_operations_syntax

text \<open>
  \<open>CompileJob\<close> and its argument list (\<open>services/job.h\<close>, \<open>services/job.cpp\<close>):
  the description of one compilation that the client builds, sends to a compile server, and that the
  compile server runs. The language is kept as the number that travels on the wire, since a newer
  peer may send one this version does not know.
\<close>

section \<open>Data\<close>

datatype argument_type = Arg_Local | Arg_Remote | Arg_Rest

type_synonym arguments_list = "(string \<times> argument_type) list"

definition append_arg :: "arguments_list \<Rightarrow> string \<Rightarrow> argument_type \<Rightarrow> arguments_list" where
  "append_arg l s t = l @ [(s, t)]"

abbreviation (input) Lang_C :: u32 where "Lang_C \<equiv> 0"
abbreviation (input) Lang_CXX :: u32 where "Lang_CXX \<equiv> 1"
abbreviation (input) Lang_OBJC :: u32 where "Lang_OBJC \<equiv> 2"
abbreviation (input) Lang_OBJCXX :: u32 where "Lang_OBJCXX \<equiv> 3"
abbreviation (input) Lang_Custom :: u32 where "Lang_Custom \<equiv> 4"

abbreviation (input) Flag_None :: u32 where "Flag_None \<equiv> 0"
abbreviation (input) Flag_g :: u32 where "Flag_g \<equiv> 0x1"
abbreviation (input) Flag_g3 :: u32 where "Flag_g3 \<equiv> 0x2"
abbreviation (input) Flag_O :: u32 where "Flag_O \<equiv> 0x4"
abbreviation (input) Flag_O2 :: u32 where "Flag_O2 \<equiv> 0x8"
abbreviation (input) Flag_Ol2 :: u32 where "Flag_Ol2 \<equiv> 0x10"

record compile_job =
  m_id :: u32
  m_language :: u32
  m_compiler_pathname :: string
  m_compiler_name :: string
  m_environment_version :: string
  m_flags :: arguments_list
  m_input_file :: string
  m_output_file :: string
  m_working_directory :: string
  m_target_platform :: string
  m_dwarf_fission :: bool
  m_block_rewrite_includes :: bool

text \<open>The constructor leaves the language uninitialised.\<close>

definition CompileJob_new :: "libs \<Rightarrow> compile_job" where
  "CompileJob_new L = \<lparr>m_id = 0, m_language = uninit_word L, m_compiler_pathname = '''',
     m_compiler_name = '''', m_environment_version = '''', m_flags = [], m_input_file = '''',
     m_output_file = '''', m_working_directory = '''', m_target_platform = determine_platform L,
     m_dwarf_fission = False, m_block_rewrite_includes = False\<rparr>"

section \<open>Selecting arguments\<close>

definition job_flags :: "compile_job \<Rightarrow> argument_type \<Rightarrow> string list" where
  "job_flags j t = map fst (filter (\<lambda>f. snd f = t) (m_flags j))"

definition localFlags :: "compile_job \<Rightarrow> string list" where
  "localFlags j = job_flags j Arg_Local"

definition remoteFlags :: "compile_job \<Rightarrow> string list" where
  "remoteFlags j = job_flags j Arg_Remote"

definition restFlags :: "compile_job \<Rightarrow> string list" where
  "restFlags j = job_flags j Arg_Rest"

definition nonLocalFlags :: "compile_job \<Rightarrow> string list" where
  "nonLocalFlags j = map fst (filter (\<lambda>f. snd f \<noteq> Arg_Local) (m_flags j))"

definition allFlags :: "compile_job \<Rightarrow> string list" where
  "allFlags j = map fst (m_flags j)"

definition appendFlag :: "string \<Rightarrow> argument_type \<Rightarrow> compile_job \<Rightarrow> compile_job" where
  "appendFlag arg t j = j\<lparr>m_flags := append_arg (m_flags j) arg t\<rparr>"

text \<open>\<open>updater\<close> is the virtual \<open>FlagsUpdater::operator()\<close>.\<close>

definition updateFlags :: "(string \<Rightarrow> argument_type \<Rightarrow> string) \<Rightarrow> compile_job \<Rightarrow> compile_job" where
  "updateFlags updater j = j\<lparr>m_flags := map (\<lambda>(a, t). (updater a t, t)) (m_flags j)\<rparr>"

section \<open>Classifying arguments\<close>

text \<open>The updates of \<open>result\<close>: a debug level, or an optimisation level, replaces the one before.\<close>

definition set_debug :: "u32 \<Rightarrow> u32 \<Rightarrow> u32 \<Rightarrow> u32" where
  "set_debug old new result = (result AND NOT old) OR new"

definition clear_opt :: "u32 \<Rightarrow> u32" where
  "clear_opt result = result AND NOT (Flag_O OR Flag_O2 OR Flag_Ol2)"

definition set_opt :: "u32 \<Rightarrow> u32 \<Rightarrow> u32" where
  "set_opt new result = clear_opt result OR new"

text \<open>
  One round of the loop of \<open>argumentFlags\<close>. \<open>arg.at(0)\<close> throws
  \<open>std::out_of_range\<close> on an empty argument (\<open>None\<close>).
\<close>

definition argument_flag :: "u32 \<Rightarrow> string \<Rightarrow> u32 option" where
  "argument_flag result arg =
     (case arg of
        [] \<Rightarrow> None
      | c # rest \<Rightarrow>
          if c \<noteq> CHR ''-'' \<or> rest = [] then Some result
          else if hd rest = CHR ''g'' then
            (if length arg > 2 \<and> arg ! 2 = CHR ''3''
             then Some (set_debug Flag_g Flag_g3 result)
             else Some (set_debug Flag_g3 Flag_g result))
          else if hd rest = CHR ''O'' then
            (if length arg = 2 then Some (set_opt Flag_O result)
             else if arg ! 2 = CHR ''2'' then Some (set_opt Flag_O2 result)
             else if arg ! 2 = CHR ''1'' then Some (set_opt Flag_O result)
             else if arg ! 2 \<noteq> CHR ''0'' then Some (set_opt Flag_Ol2 result)
             else Some (clear_opt result))
          else Some result)"

fun argument_flags_loop :: "u32 \<Rightarrow> string list \<Rightarrow> u32 option" where
  "argument_flags_loop result [] = Some result"
| "argument_flags_loop result (arg # args) =
     (case argument_flag result arg of None \<Rightarrow> None | Some r \<Rightarrow> argument_flags_loop r args)"

definition argumentFlags :: "compile_job \<Rightarrow> u32 option" where
  "argumentFlags j = argument_flags_loop Flag_None (allFlags j)"

section \<open>Properties\<close>

text \<open>What the classification promises: at most one debug level, at most one optimisation level.\<close>

definition exclusive_flags :: "u32 \<Rightarrow> bool" where
  "exclusive_flags w \<longleftrightarrow>
     \<not> (bit w 0 \<and> bit w 1) \<and> \<not> (bit w 2 \<and> bit w 3) \<and> \<not> (bit w 2 \<and> bit w 4) \<and> \<not> (bit w 3 \<and> bit w 4)"

lemma exclusive_flags_updates:
  assumes "exclusive_flags w"
  shows "exclusive_flags (set_debug Flag_g Flag_g3 w)" "exclusive_flags (set_debug Flag_g3 Flag_g w)"
    "exclusive_flags (clear_opt w)" "exclusive_flags (set_opt Flag_O w)"
    "exclusive_flags (set_opt Flag_O2 w)" "exclusive_flags (set_opt Flag_Ol2 w)"
  using assms
  by (simp_all add: exclusive_flags_def set_debug_def clear_opt_def set_opt_def
      bit_or_iff bit_and_iff bit_not_iff)

lemma argument_flag_exclusive:
  assumes "exclusive_flags w" and "argument_flag w arg = Some w'"
  shows "exclusive_flags w'"
  using assms exclusive_flags_updates [OF assms(1)]
  by (auto simp: argument_flag_def split: list.split_asm if_split_asm)

lemma argument_flags_loop_exclusive:
  "exclusive_flags w \<Longrightarrow> argument_flags_loop w args = Some w' \<Longrightarrow> exclusive_flags w'"
  by (induction args arbitrary: w) (auto split: option.splits dest: argument_flag_exclusive)

lemma argument_flags_loop_total:
  "(\<exists>w'. argument_flags_loop w args = Some w') \<longleftrightarrow> [] \<notin> set args"
proof (induction args arbitrary: w)
  case (Cons a args)
  have "argument_flag w a = None \<longleftrightarrow> a = []"
    by (auto simp: argument_flag_def Let_def split: list.splits)
  with Cons.IH show ?case
    by (auto split: option.splits)
qed simp

text \<open>
  C38. The scheduler bases its size estimates on \<open>argumentFlags\<close>: it is defined exactly when no
  argument is empty, and then names at most one debug level and at most one optimisation level.
\<close>

theorem argumentFlags_spec:
  "case argumentFlags j of
     None \<Rightarrow> [] \<in> set (allFlags j)
   | Some w \<Rightarrow> [] \<notin> set (allFlags j) \<and> exclusive_flags w"
proof (cases "argumentFlags j")
  case None
  then show ?thesis
    using argument_flags_loop_total [of Flag_None "allFlags j"] by (auto simp: argumentFlags_def)
next
  case (Some w)
  have "exclusive_flags Flag_None"
    by (simp add: exclusive_flags_def)
  with Some have "exclusive_flags w"
    unfolding argumentFlags_def by (rule argument_flags_loop_exclusive [rotated])
  moreover have "[] \<notin> set (allFlags j)"
    using argument_flags_loop_total [of Flag_None "allFlags j"] Some by (auto simp: argumentFlags_def)
  ultimately show ?thesis
    using Some by simp
qed

end
