(* ===== verification/Messages.thy ===== *)
theory Messages
  imports CompileJob
begin

text \<open>
  The messages of the protocol (\<open>services/comm.h\<close>, \<open>services/comm.cpp\<close>): for each message
  class a record with the members of the class, \<open>X_fill\<close> for \<open>X::fill_from_channel\<close> (it
  takes the object as its constructor left it and returns the filled object) and \<open>X_send\<close> for the
  bytes \<open>X::send_to_channel\<close> appends after the message type on a channel of protocol \<open>p\<close>.
  Members of C++ type \<open>int\<close> are kept as 32-bit words. The last part puts the classes together:
  the type \<open>msg\<close>, the numbers of the message types, and the two dispatchers.
\<close>

section \<open>Helpers\<close>

definition bool32 :: "bool \<Rightarrow> u32" where
  "bool32 b = (if b then 1 else 0)"

lemma bool32_eq_0 [simp]: "bool32 b = 0 \<longleftrightarrow> \<not> b"
  by (simp add: bool32_def)

text \<open>\<open>max\<close> of two signed 32-bit values.\<close>

definition smax32 :: "u32 \<Rightarrow> u32 \<Rightarrow> u32" where
  "smax32 a b = (if sint a < sint b then b else a)"

text \<open>\<open>std::string::rfind\<close>, with \<open>None\<close> for \<open>npos\<close>.\<close>

definition rfind :: "char \<Rightarrow> string \<Rightarrow> nat option \<Rightarrow> nat option" where
  "rfind ch s pos =
     (let n = (case pos of None \<Rightarrow> length s | Some p \<Rightarrow> min (Suc p) (length s));
          is = filter (\<lambda>i. s ! i = ch) [0..<n]
      in if is = [] then None else Some (last is))"

text \<open>
  The search position \<open>ofs - 1\<close> is \<open>npos\<close> when \<open>ofs\<close> is 0: the search starts again at
  the end. \<open>substr(npos + 1)\<close> is the whole string.
\<close>

definition shorten_step :: "string \<Rightarrow> nat option \<Rightarrow> nat option" where
  "shorten_step s ofs =
     (case ofs of
        None \<Rightarrow> None
      | Some n \<Rightarrow> rfind CHR ''/'' s (if n = 0 then None else Some (n - 1)))"

definition shorten_filename :: "string \<Rightarrow> string" where
  "shorten_filename s =
     (case shorten_step s (shorten_step s (rfind CHR ''/'' s None)) of
        None \<Rightarrow> s
      | Some n \<Rightarrow> drop (Suc n) s)"

lemma wf_str_shorten: "wf_str s \<Longrightarrow> wf_str (shorten_filename s)"
  by (auto simp: wf_str_def shorten_filename_def split: option.splits dest: in_set_dropD)

section \<open>Requests for a compile server\<close>

record get_cs_msg =
  gcs_versions :: environments
  gcs_filename :: string
  gcs_lang :: u32
  gcs_count :: u32
  gcs_target :: string
  gcs_arg_flags :: u32
  gcs_client_id :: u32
  gcs_preferred_host :: string
  gcs_minimal_host_version :: u32
  gcs_required_features :: u32
  gcs_client_count :: u32
  gcs_niceness :: u32

definition GetCSMsg_new :: "libs \<Rightarrow> get_cs_msg" where
  "GetCSMsg_new L = \<lparr>gcs_versions = [], gcs_filename = '''', gcs_lang = uninit_word L, gcs_count = 1,
     gcs_target = '''', gcs_arg_flags = 0, gcs_client_id = 0, gcs_preferred_host = '''',
     gcs_minimal_host_version = uninit_word L, gcs_required_features = uninit_word L,
     gcs_client_count = 0, gcs_niceness = 0\<rparr>"

text \<open>
  The constructor with arguments. It ends with an assertion on the niceness, which a build with
  assertions turns into an abort (\<open>None\<close>).
\<close>

definition NODE_FEATURE_ENV_XZ :: u32 where "NODE_FEATURE_ENV_XZ = 1"
definition NODE_FEATURE_ENV_ZSTD :: u32 where "NODE_FEATURE_ENV_ZSTD = 2"

definition GetCSMsg_make :: "bool \<Rightarrow> environments \<Rightarrow> string \<Rightarrow> u32 \<Rightarrow> u32 \<Rightarrow> string \<Rightarrow> u32 \<Rightarrow> string \<Rightarrow>
    u32 \<Rightarrow> u32 \<Rightarrow> u32 \<Rightarrow> u32 \<Rightarrow> get_cs_msg option" where
  "GetCSMsg_make asserts envs f lang count target arg_flags host mhv features niceness client_count =
     (if asserts \<and> \<not> (0 \<le> sint niceness \<and> sint niceness \<le> 20) then None
      else Some \<lparr>gcs_versions = envs, gcs_filename = f, gcs_lang = lang, gcs_count = count,
        gcs_target = target, gcs_arg_flags = arg_flags, gcs_client_id = 0, gcs_preferred_host = host,
        gcs_minimal_host_version =
          (if features AND (NODE_FEATURE_ENV_XZ OR NODE_FEATURE_ENV_ZSTD) \<noteq> 0
           then smax32 mhv 42 else mhv),
        gcs_required_features = features, gcs_client_count = client_count, gcs_niceness = niceness\<rparr>)"

definition GetCSMsg_fill :: "get_cs_msg \<Rightarrow> (chan, get_cs_msg) state" where
  "GetCSMsg_fill m = do {
     versions \<leftarrow> read_environments;
     filename \<leftarrow> get_string;
     lang \<leftarrow> get_u32;
     count \<leftarrow> get_u32;
     target \<leftarrow> get_string;
     arg_flags \<leftarrow> get_u32;
     client_id \<leftarrow> get_u32;
     preferred_host \<leftarrow> if_proto 22 get_string '''';
     ign \<leftarrow> if_proto 31 get_u32 0;
     let mhv = (if ign \<noteq> 0 then 31 else 0);
     version \<leftarrow> if_proto 34 get_u32 mhv;
     let mhv' = smax32 mhv version;
     client_count \<leftarrow> if_proto 39 get_u32 (gcs_client_count m);
     required_features \<leftarrow> if_proto 42 get_u32 0;
     niceness \<leftarrow> if_proto 43 get_u32 0;
     State_Monad.return (m\<lparr>gcs_versions := versions, gcs_filename := filename, gcs_lang := lang,
       gcs_count := count, gcs_target := target, gcs_arg_flags := arg_flags,
       gcs_client_id := client_id, gcs_preferred_host := preferred_host,
       gcs_minimal_host_version := mhv', gcs_client_count := client_count,
       gcs_required_features := required_features, gcs_niceness := niceness\<rparr>)
   }"

definition GetCSMsg_send :: "int \<Rightarrow> get_cs_msg \<Rightarrow> bytes" where
  "GetCSMsg_send p m =
     write_environments (gcs_versions m) @ put_string (shorten_filename (gcs_filename m))
     @ put_u32 (gcs_lang m) @ put_u32 (gcs_count m) @ put_string (gcs_target m)
     @ put_u32 (gcs_arg_flags m) @ put_u32 (gcs_client_id m)
     @ put_if 22 p (put_string (gcs_preferred_host m))
     @ put_if 31 p (put_u32 (if sint (gcs_minimal_host_version m) \<ge> 31 then 1 else 0))
     @ put_if 34 p (put_u32 (gcs_minimal_host_version m))
     @ put_if 39 p (put_u32 (gcs_client_count m))
     @ put_if 42 p (put_u32 (gcs_required_features m))
     @ put_if 43 p (put_u32 (gcs_niceness m))"

record use_cs_msg =
  ucs_job_id :: u32
  ucs_hostname :: string
  ucs_port :: u32
  ucs_host_platform :: string
  ucs_got_env :: u32
  ucs_client_id :: u32
  ucs_matched_job_id :: u32

definition UseCSMsg_fill :: "(chan, use_cs_msg) state" where
  "UseCSMsg_fill = do {
     job_id \<leftarrow> get_u32;
     port \<leftarrow> get_u32;
     hostname \<leftarrow> get_string;
     host_platform \<leftarrow> get_string;
     got_env \<leftarrow> get_u32;
     client_id \<leftarrow> get_u32;
     matched_job_id \<leftarrow> if_proto 28 get_u32 0;
     State_Monad.return \<lparr>ucs_job_id = job_id, ucs_hostname = hostname, ucs_port = port,
       ucs_host_platform = host_platform, ucs_got_env = got_env, ucs_client_id = client_id,
       ucs_matched_job_id = matched_job_id\<rparr>
   }"

definition UseCSMsg_send :: "int \<Rightarrow> use_cs_msg \<Rightarrow> bytes" where
  "UseCSMsg_send p m =
     put_u32 (ucs_job_id m) @ put_u32 (ucs_port m) @ put_string (ucs_hostname m)
     @ put_string (ucs_host_platform m) @ put_u32 (ucs_got_env m) @ put_u32 (ucs_client_id m)
     @ put_if 28 p (put_u32 (ucs_matched_job_id m))"

record no_cs_msg =
  ncs_job_id :: u32
  ncs_client_id :: u32

definition NoCSMsg_fill :: "(chan, no_cs_msg) state" where
  "NoCSMsg_fill = do {
     job_id \<leftarrow> get_u32;
     client_id \<leftarrow> get_u32;
     State_Monad.return \<lparr>ncs_job_id = job_id, ncs_client_id = client_id\<rparr>
   }"

definition NoCSMsg_send :: "no_cs_msg \<Rightarrow> bytes" where
  "NoCSMsg_send m = put_u32 (ncs_job_id m) @ put_u32 (ncs_client_id m)"

section \<open>Compilation\<close>

definition occurs :: "string \<Rightarrow> string \<Rightarrow> bool" where
  "occurs pat s \<longleftrightarrow> list_ex (\<lambda>n. take (length pat) (drop n s) = pat) [0..<Suc (length s)]"

definition is_clang_like :: "string \<Rightarrow> bool" where
  "is_clang_like name \<longleftrightarrow> occurs ''clang'' name \<or> occurs ''icx'' name \<or> occurs ''icpx'' name
     \<or> occurs ''dpcpp'' name"

definition remote_compiler_name :: "compile_job \<Rightarrow> string" where
  "remote_compiler_name job =
     (if is_clang_like (m_compiler_name job) then ''clang''
      else if m_language job = Lang_CXX then ''g++'' else ''gcc'')"

definition with_type :: "argument_type \<Rightarrow> string list \<Rightarrow> arguments_list" where
  "with_type t l = map (\<lambda>a. (a, t)) l"

definition CompileFileMsg_fill :: "compile_job \<Rightarrow> (chan, compile_job) state" where
  "CompileFileMsg_fill job = do {
     lang \<leftarrow> get_u32;
     id \<leftarrow> get_u32;
     v41 \<leftarrow> IS_PROTOCOL_VERSION 41;
     l \<leftarrow> (if v41 then do {
              largs \<leftarrow> get_string_list;
              State_Monad.return (with_type Arg_Remote largs)
            } else do {
              l1 \<leftarrow> get_string_list;
              l2 \<leftarrow> get_string_list;
              State_Monad.return (with_type Arg_Remote l1 @ with_type Arg_Rest l2)
            });
     version \<leftarrow> get_string;
     target \<leftarrow> get_string;
     compilerName \<leftarrow> if_proto 30 get_string (m_compiler_name job);
     files \<leftarrow> if_proto 34 (get_pair get_string get_string) (m_input_file job, m_working_directory job);
     out \<leftarrow> if_proto 35 (get_pair get_string get_u32) (m_output_file job, bool32 (m_dwarf_fission job));
     State_Monad.return (job\<lparr>m_language := lang, m_id := id, m_flags := l,
       m_environment_version := version, m_target_platform := target,
       m_compiler_name := compilerName, m_input_file := fst files,
       m_working_directory := snd files, m_output_file := fst out,
       m_dwarf_fission := (snd out \<noteq> 0)\<rparr>)
   }"

definition CompileFileMsg_send :: "int \<Rightarrow> compile_job \<Rightarrow> bytes" where
  "CompileFileMsg_send p job =
     put_u32 (m_language job) @ put_u32 (m_id job)
     @ (if p \<ge> 41 then put_string_list (nonLocalFlags job)
        else put_string_list
               (if \<not> p \<ge> 30 \<and> is_clang_like (m_compiler_name job)
                then ''clang'' # remoteFlags job else remoteFlags job)
             @ put_string_list (restFlags job))
     @ put_string (m_environment_version job) @ put_string (m_target_platform job)
     @ put_if 30 p (put_string (remote_compiler_name job))
     @ put_if 34 p (put_string (m_input_file job) @ put_string (m_working_directory job))
     @ put_if 35 p (put_string (m_output_file job) @ put_u32 (bool32 (m_dwarf_fission job)))"

text \<open>A null \<open>buffer\<close> is \<open>None\<close>.\<close>

record file_chunk_msg =
  fc_buffer :: "bytes option"
  fc_len :: nat
  fc_compressed :: nat

definition FileChunkMsg_fill :: "libs \<Rightarrow> set_error_fn \<Rightarrow> (chan, file_chunk_msg) state" where
  "FileChunkMsg_fill L se = do {
     r \<leftarrow> readcompressed L se;
     State_Monad.return \<lparr>fc_buffer = fst r, fc_len = fst (snd r), fc_compressed = snd (snd r)\<rparr>
   }"

text \<open>The sender passes \<open>len\<close> bytes of its buffer.\<close>

definition FileChunkMsg_send :: "libs \<Rightarrow> int \<Rightarrow> file_chunk_msg \<Rightarrow> bytes option" where
  "FileChunkMsg_send L p m =
     (case fc_buffer m of
        None \<Rightarrow> (if fc_len m = 0 then writecompressed L p [] else None)
      | Some b \<Rightarrow> (if fc_len m \<le> length b then writecompressed L p (take (fc_len m) b) else None))"

record compile_result_msg =
  cr_status :: u32
  cr_out :: string
  cr_err :: string
  cr_was_out_of_memory :: bool
  cr_have_dwo_file :: bool

definition CompileResultMsg_new :: compile_result_msg where
  "CompileResultMsg_new = \<lparr>cr_status = 0, cr_out = '''', cr_err = '''',
     cr_was_out_of_memory = False, cr_have_dwo_file = False\<rparr>"

definition CompileResultMsg_fill :: "compile_result_msg \<Rightarrow> (chan, compile_result_msg) state" where
  "CompileResultMsg_fill m = do {
     err \<leftarrow> get_string;
     out \<leftarrow> get_string;
     status \<leftarrow> get_u32;
     was \<leftarrow> get_u32;
     dwo \<leftarrow> if_proto 35 get_u32 (bool32 (cr_have_dwo_file m));
     State_Monad.return (m\<lparr>cr_err := err, cr_out := out, cr_status := status,
       cr_was_out_of_memory := (was \<noteq> 0), cr_have_dwo_file := (dwo \<noteq> 0)\<rparr>)
   }"

definition CompileResultMsg_send :: "int \<Rightarrow> compile_result_msg \<Rightarrow> bytes" where
  "CompileResultMsg_send p m =
     put_string (cr_err m) @ put_string (cr_out m) @ put_u32 (cr_status m)
     @ put_u32 (bool32 (cr_was_out_of_memory m))
     @ put_if 35 p (put_u32 (bool32 (cr_have_dwo_file m)))"

section \<open>Job bookkeeping\<close>

record job_begin_msg =
  jb_job_id :: u32
  jb_stime :: u32
  jb_client_count :: u32

definition JobBeginMsg_fill :: "(chan, job_begin_msg) state" where
  "JobBeginMsg_fill = do {
     job_id \<leftarrow> get_u32;
     stime \<leftarrow> get_u32;
     client_count \<leftarrow> if_proto 39 get_u32 0;
     State_Monad.return \<lparr>jb_job_id = job_id, jb_stime = stime, jb_client_count = client_count\<rparr>
   }"

definition JobBeginMsg_send :: "int \<Rightarrow> job_begin_msg \<Rightarrow> bytes" where
  "JobBeginMsg_send p m =
     put_u32 (jb_job_id m) @ put_u32 (jb_stime m) @ put_if 39 p (put_u32 (jb_client_count m))"

record job_local_begin_msg =
  jlb_outfile :: string
  jlb_stime :: u32
  jlb_id :: u32
  jlb_fulljob :: bool
  jlb_niceness :: u32

text \<open>The default constructor: no full job, niceness 0 (the other members are always read).\<close>

definition JobLocalBeginMsg_fill :: "(chan, job_local_begin_msg) state" where
  "JobLocalBeginMsg_fill = do {
     stime \<leftarrow> get_u32;
     outfile \<leftarrow> get_string;
     id \<leftarrow> get_u32;
     full \<leftarrow> if_proto 44 get_u32 (bool32 False);
     niceness \<leftarrow> if_proto 45 get_u32 0;
     State_Monad.return \<lparr>jlb_outfile = outfile, jlb_stime = stime, jlb_id = id,
       jlb_fulljob = (full \<noteq> 0), jlb_niceness = niceness\<rparr>
   }"

definition JobLocalBeginMsg_send :: "int \<Rightarrow> job_local_begin_msg \<Rightarrow> bytes" where
  "JobLocalBeginMsg_send p m =
     put_u32 (jlb_stime m) @ put_string (jlb_outfile m) @ put_u32 (jlb_id m)
     @ put_if 44 p (put_u32 (bool32 (jlb_fulljob m)))
     @ put_if 45 p (put_u32 (jlb_niceness m))"

definition JobLocalDoneMsg_fill :: "(chan, u32) state" where
  "JobLocalDoneMsg_fill = get_u32"

definition JobLocalDoneMsg_send :: "u32 \<Rightarrow> bytes" where
  "JobLocalDoneMsg_send job_id = put_u32 job_id"

record job_done_msg =
  jd_real_msec :: u32
  jd_user_msec :: u32
  jd_sys_msec :: u32
  jd_pfaults :: u32
  jd_exitcode :: u32
  jd_flags :: u32
  jd_in_compressed :: u32
  jd_in_uncompressed :: u32
  jd_out_compressed :: u32
  jd_out_uncompressed :: u32
  jd_job_id :: u32
  jd_client_count :: u32

abbreviation (input) FROM_SERVER :: u32 where "FROM_SERVER \<equiv> 0"
abbreviation (input) FROM_SUBMITTER :: u32 where "FROM_SUBMITTER \<equiv> 1"
abbreviation (input) UnknownJobId :: u32 where "UnknownJobId \<equiv> 2"

definition JobDoneMsg_make :: "u32 \<Rightarrow> u32 \<Rightarrow> u32 \<Rightarrow> u32 \<Rightarrow> job_done_msg" where
  "JobDoneMsg_make jobid exit flags client_count = \<lparr>jd_real_msec = 0, jd_user_msec = 0, jd_sys_msec = 0,
     jd_pfaults = 0, jd_exitcode = exit, jd_flags = flags, jd_in_compressed = 0,
     jd_in_uncompressed = 0, jd_out_compressed = 0, jd_out_uncompressed = 0, jd_job_id = jobid,
     jd_client_count = client_count\<rparr>"

definition JobDoneMsg_new :: job_done_msg where
  "JobDoneMsg_new = JobDoneMsg_make 0 (-1) FROM_SERVER 0"

definition is_from_server :: "job_done_msg \<Rightarrow> bool" where
  "is_from_server m \<longleftrightarrow> jd_flags m AND FROM_SUBMITTER = 0"

definition set_from :: "u32 \<Rightarrow> job_done_msg \<Rightarrow> job_done_msg" where
  "set_from from m = m\<lparr>jd_flags := jd_flags m OR from\<rparr>"

definition set_unknown_job_client_id :: "u32 \<Rightarrow> job_done_msg \<Rightarrow> job_done_msg" where
  "set_unknown_job_client_id clientId m =
     m\<lparr>jd_flags := jd_flags m OR UnknownJobId, jd_job_id := clientId\<rparr>"

definition unknown_job_client_id :: "job_done_msg \<Rightarrow> u32" where
  "unknown_job_client_id m = (if jd_flags m AND UnknownJobId \<noteq> 0 then jd_job_id m else 0)"

definition set_job_id :: "u32 \<Rightarrow> job_done_msg \<Rightarrow> job_done_msg" where
  "set_job_id jobId m = m\<lparr>jd_job_id := jobId, jd_flags := jd_flags m AND NOT UnknownJobId\<rparr>"

definition JobDoneMsg_fill :: "job_done_msg \<Rightarrow> (chan, job_done_msg) state" where
  "JobDoneMsg_fill m = do {
     job_id \<leftarrow> get_u32;
     exitcode \<leftarrow> get_u32;
     real_msec \<leftarrow> get_u32;
     user_msec \<leftarrow> get_u32;
     sys_msec \<leftarrow> get_u32;
     pfaults \<leftarrow> get_u32;
     in_compressed \<leftarrow> get_u32;
     in_uncompressed \<leftarrow> get_u32;
     out_compressed \<leftarrow> get_u32;
     out_uncompressed \<leftarrow> get_u32;
     flags \<leftarrow> get_u32;
     v39 \<leftarrow> IS_PROTOCOL_VERSION 39;
     client_count \<leftarrow> if_proto 39 get_u32 (jd_client_count m);
     State_Monad.return (m\<lparr>jd_job_id := job_id, jd_exitcode := exitcode, jd_real_msec := real_msec,
       jd_user_msec := user_msec, jd_sys_msec := sys_msec, jd_pfaults := pfaults,
       jd_in_compressed := in_compressed, jd_in_uncompressed := in_uncompressed,
       jd_out_compressed := out_compressed, jd_out_uncompressed := out_uncompressed,
       jd_flags := (if \<not> v39 \<and> exitcode = 200 then flags OR UnknownJobId else flags),
       jd_client_count := client_count\<rparr>)
   }"

definition JobDoneMsg_send :: "int \<Rightarrow> job_done_msg \<Rightarrow> bytes" where
  "JobDoneMsg_send p m =
     put_u32 (jd_job_id m)
     @ put_u32 (if \<not> p \<ge> 39 \<and> jd_flags m AND UnknownJobId \<noteq> 0 then 200 else jd_exitcode m)
     @ put_u32 (jd_real_msec m) @ put_u32 (jd_user_msec m) @ put_u32 (jd_sys_msec m)
     @ put_u32 (jd_pfaults m) @ put_u32 (jd_in_compressed m) @ put_u32 (jd_in_uncompressed m)
     @ put_u32 (jd_out_compressed m) @ put_u32 (jd_out_uncompressed m) @ put_u32 (jd_flags m)
     @ put_if 39 p (put_u32 (jd_client_count m))"

section \<open>Daemons and the scheduler\<close>

record login_msg =
  lg_port :: u32
  lg_envs :: environments
  lg_max_kids :: u32
  lg_noremote :: bool
  lg_chroot_possible :: bool
  lg_nodename :: string
  lg_host_platform :: string
  lg_supported_features :: u32

definition LoginMsg_fill :: "(chan, login_msg) state" where
  "LoginMsg_fill = do {
     port \<leftarrow> get_u32;
     max_kids \<leftarrow> get_u32;
     envs \<leftarrow> read_environments;
     nodename \<leftarrow> get_string;
     host_platform \<leftarrow> get_string;
     net_chroot_possible \<leftarrow> get_u32;
     net_noremote \<leftarrow> if_proto 26 get_u32 0;
     supported_features \<leftarrow> if_proto 42 get_u32 0;
     State_Monad.return \<lparr>lg_port = port, lg_envs = envs, lg_max_kids = max_kids,
       lg_noremote = (net_noremote \<noteq> 0), lg_chroot_possible = (net_chroot_possible \<noteq> 0),
       lg_nodename = nodename, lg_host_platform = host_platform,
       lg_supported_features = supported_features\<rparr>
   }"

definition LoginMsg_send :: "int \<Rightarrow> login_msg \<Rightarrow> bytes" where
  "LoginMsg_send p m =
     put_u32 (lg_port m) @ put_u32 (lg_max_kids m) @ write_environments (lg_envs m)
     @ put_string (lg_nodename m) @ put_string (lg_host_platform m)
     @ put_u32 (bool32 (lg_chroot_possible m))
     @ put_if 26 p (put_u32 (bool32 (lg_noremote m)))
     @ put_if 42 p (put_u32 (lg_supported_features m))"

record conf_cs_msg =
  cf_max_scheduler_pong :: u32
  cf_max_scheduler_ping :: u32

definition ConfCSMsg_fill :: "(chan, conf_cs_msg) state" where
  "ConfCSMsg_fill = do {
     pong \<leftarrow> get_u32;
     ping \<leftarrow> get_u32;
     bench_source \<leftarrow> get_string;
     State_Monad.return \<lparr>cf_max_scheduler_pong = pong, cf_max_scheduler_ping = ping\<rparr>
   }"

definition ConfCSMsg_send :: "conf_cs_msg \<Rightarrow> bytes" where
  "ConfCSMsg_send m =
     put_u32 (cf_max_scheduler_pong m) @ put_u32 (cf_max_scheduler_ping m) @ put_string ''''"

text \<open>\<open>client_count\<close> is a member of the class and is neither written nor read.\<close>

record stats_msg =
  st_load :: u32
  st_loadAvg1 :: u32
  st_loadAvg5 :: u32
  st_loadAvg10 :: u32
  st_freeMem :: u32
  st_client_count :: u32

definition StatsMsg_fill :: "(chan, stats_msg) state" where
  "StatsMsg_fill = do {
     load \<leftarrow> get_u32;
     loadAvg1 \<leftarrow> get_u32;
     loadAvg5 \<leftarrow> get_u32;
     loadAvg10 \<leftarrow> get_u32;
     freeMem \<leftarrow> get_u32;
     State_Monad.return \<lparr>st_load = load, st_loadAvg1 = loadAvg1, st_loadAvg5 = loadAvg5,
       st_loadAvg10 = loadAvg10, st_freeMem = freeMem, st_client_count = 0\<rparr>
   }"

definition StatsMsg_send :: "stats_msg \<Rightarrow> bytes" where
  "StatsMsg_send m =
     put_u32 (st_load m) @ put_u32 (st_loadAvg1 m) @ put_u32 (st_loadAvg5 m)
     @ put_u32 (st_loadAvg10 m) @ put_u32 (st_freeMem m)"

section \<open>Environments\<close>

record get_native_env_msg =
  gne_compiler :: string
  gne_extrafiles :: "string list"
  gne_compression :: string

definition GetNativeEnvMsg_fill :: "(chan, get_native_env_msg) state" where
  "GetNativeEnvMsg_fill = do {
     ce \<leftarrow> if_proto 32 (get_pair get_string get_string_list) ('''', []);
     compression \<leftarrow> if_proto 42 get_string '''';
     State_Monad.return \<lparr>gne_compiler = fst ce, gne_extrafiles = snd ce,
       gne_compression = compression\<rparr>
   }"

definition GetNativeEnvMsg_send :: "int \<Rightarrow> get_native_env_msg \<Rightarrow> bytes" where
  "GetNativeEnvMsg_send p m =
     put_if 32 p (put_string (gne_compiler m) @ put_string_list (gne_extrafiles m))
     @ put_if 42 p (put_string (gne_compression m))"

definition UseNativeEnvMsg_fill :: "(chan, string) state" where
  "UseNativeEnvMsg_fill = get_string"

definition UseNativeEnvMsg_send :: "string \<Rightarrow> bytes" where
  "UseNativeEnvMsg_send nativeVersion = put_string nativeVersion"

record env_transfer_msg =
  et_name :: string
  et_target :: string

definition EnvTransferMsg_fill :: "(chan, env_transfer_msg) state" where
  "EnvTransferMsg_fill = do {
     name \<leftarrow> get_string;
     target \<leftarrow> get_string;
     State_Monad.return \<lparr>et_name = name, et_target = target\<rparr>
   }"

definition EnvTransferMsg_send :: "env_transfer_msg \<Rightarrow> bytes" where
  "EnvTransferMsg_send m = put_string (et_name m) @ put_string (et_target m)"

record verify_env_msg =
  ve_environment :: string
  ve_target :: string

definition VerifyEnvMsg_fill :: "(chan, verify_env_msg) state" where
  "VerifyEnvMsg_fill = do {
     environment \<leftarrow> get_string;
     target \<leftarrow> get_string;
     State_Monad.return \<lparr>ve_environment = environment, ve_target = target\<rparr>
   }"

definition VerifyEnvMsg_send :: "verify_env_msg \<Rightarrow> bytes" where
  "VerifyEnvMsg_send m = put_string (ve_environment m) @ put_string (ve_target m)"

definition VerifyEnvResultMsg_fill :: "(chan, bool) state" where
  "VerifyEnvResultMsg_fill = do { read_ok \<leftarrow> get_u32; State_Monad.return (read_ok \<noteq> 0) }"

definition VerifyEnvResultMsg_send :: "bool \<Rightarrow> bytes" where
  "VerifyEnvResultMsg_send ok = put_u32 (bool32 ok)"

record blacklist_host_env_msg =
  bl_environment :: string
  bl_target :: string
  bl_hostname :: string

definition BlacklistHostEnvMsg_fill :: "(chan, blacklist_host_env_msg) state" where
  "BlacklistHostEnvMsg_fill = do {
     environment \<leftarrow> get_string;
     target \<leftarrow> get_string;
     hostname \<leftarrow> get_string;
     State_Monad.return \<lparr>bl_environment = environment, bl_target = target, bl_hostname = hostname\<rparr>
   }"

definition BlacklistHostEnvMsg_send :: "blacklist_host_env_msg \<Rightarrow> bytes" where
  "BlacklistHostEnvMsg_send m =
     put_string (bl_environment m) @ put_string (bl_target m) @ put_string (bl_hostname m)"

section \<open>Monitors\<close>

record mon_get_cs_msg =
  mgc_get_cs :: get_cs_msg
  mgc_job_id :: u32
  mgc_clientid :: u32

definition MonGetCSMsg_new :: "libs \<Rightarrow> mon_get_cs_msg" where
  "MonGetCSMsg_new L = \<lparr>mgc_get_cs = GetCSMsg_new L, mgc_job_id = 0, mgc_clientid = 0\<rparr>"

text \<open>
  \<open>MonGetCSMsg(jobid, hostid, m)\<close> passes \<open>false, m->client_count, m->niceness\<close> to
  parameters named \<open>_minimal_host_version, _required_features, _niceness\<close>.
\<close>

definition MonGetCSMsg_make :: "bool \<Rightarrow> u32 \<Rightarrow> u32 \<Rightarrow> get_cs_msg \<Rightarrow> mon_get_cs_msg option" where
  "MonGetCSMsg_make asserts jobid hostid m =
     (case GetCSMsg_make asserts [] (gcs_filename m) (gcs_lang m) 1 (gcs_target m) 0 '''' 0
             (gcs_client_count m) (gcs_niceness m) 0 of
        None \<Rightarrow> None
      | Some g \<Rightarrow> Some \<lparr>mgc_get_cs = g, mgc_job_id = jobid, mgc_clientid = hostid\<rparr>)"

definition MonGetCSMsg_fill :: "mon_get_cs_msg \<Rightarrow> (chan, mon_get_cs_msg) state" where
  "MonGetCSMsg_fill m = do {
     v29 \<leftarrow> IS_PROTOCOL_VERSION 29;
     g \<leftarrow> (if v29 then do {
              filename \<leftarrow> get_string;
              lang \<leftarrow> get_u32;
              State_Monad.return ((mgc_get_cs m)\<lparr>gcs_filename := filename, gcs_lang := lang\<rparr>)
            } else GetCSMsg_fill (mgc_get_cs m));
     job_id \<leftarrow> get_u32;
     clientid \<leftarrow> get_u32;
     State_Monad.return (m\<lparr>mgc_get_cs := g, mgc_job_id := job_id, mgc_clientid := clientid\<rparr>)
   }"

definition MonGetCSMsg_send :: "int \<Rightarrow> mon_get_cs_msg \<Rightarrow> bytes" where
  "MonGetCSMsg_send p m =
     (if p \<ge> 29 then put_string (shorten_filename (gcs_filename (mgc_get_cs m)))
                      @ put_u32 (gcs_lang (mgc_get_cs m))
      else GetCSMsg_send p (mgc_get_cs m))
     @ put_u32 (mgc_job_id m) @ put_u32 (mgc_clientid m)"

record mon_job_begin_msg =
  mjb_job_id :: u32
  mjb_stime :: u32
  mjb_hostid :: u32

definition MonJobBeginMsg_fill :: "(chan, mon_job_begin_msg) state" where
  "MonJobBeginMsg_fill = do {
     job_id \<leftarrow> get_u32;
     stime \<leftarrow> get_u32;
     hostid \<leftarrow> get_u32;
     State_Monad.return \<lparr>mjb_job_id = job_id, mjb_stime = stime, mjb_hostid = hostid\<rparr>
   }"

definition MonJobBeginMsg_send :: "mon_job_begin_msg \<Rightarrow> bytes" where
  "MonJobBeginMsg_send m = put_u32 (mjb_job_id m) @ put_u32 (mjb_stime m) @ put_u32 (mjb_hostid m)"

record mon_local_job_begin_msg =
  mlj_job_id :: u32
  mlj_stime :: u32
  mlj_hostid :: u32
  mlj_file :: string

definition MonLocalJobBeginMsg_fill :: "(chan, mon_local_job_begin_msg) state" where
  "MonLocalJobBeginMsg_fill = do {
     hostid \<leftarrow> get_u32;
     job_id \<leftarrow> get_u32;
     stime \<leftarrow> get_u32;
     file \<leftarrow> get_string;
     State_Monad.return \<lparr>mlj_job_id = job_id, mlj_stime = stime, mlj_hostid = hostid, mlj_file = file\<rparr>
   }"

definition MonLocalJobBeginMsg_send :: "mon_local_job_begin_msg \<Rightarrow> bytes" where
  "MonLocalJobBeginMsg_send m =
     put_u32 (mlj_hostid m) @ put_u32 (mlj_job_id m) @ put_u32 (mlj_stime m)
     @ put_string (shorten_filename (mlj_file m))"

record mon_stats_msg =
  ms_hostid :: u32
  ms_statmsg :: string

definition MonStatsMsg_fill :: "(chan, mon_stats_msg) state" where
  "MonStatsMsg_fill = do {
     hostid \<leftarrow> get_u32;
     statmsg \<leftarrow> get_string;
     State_Monad.return \<lparr>ms_hostid = hostid, ms_statmsg = statmsg\<rparr>
   }"

definition MonStatsMsg_send :: "mon_stats_msg \<Rightarrow> bytes" where
  "MonStatsMsg_send m = put_u32 (ms_hostid m) @ put_string (ms_statmsg m)"

definition StatusTextMsg_fill :: "(chan, string) state" where
  "StatusTextMsg_fill = get_string"

definition StatusTextMsg_send :: "string \<Rightarrow> bytes" where
  "StatusTextMsg_send text = put_string text"

section \<open>All messages\<close>

datatype msg =
    PingMsg
  | EndMsg
  | GetCSMsg get_cs_msg
  | UseCSMsg use_cs_msg
  | NoCSMsg no_cs_msg
  | GetNativeEnvMsg get_native_env_msg
  | UseNativeEnvMsg string
  | CompileFileMsg compile_job
  | FileChunkMsg file_chunk_msg
  | CompileResultMsg compile_result_msg
  | JobBeginMsg job_begin_msg
  | JobDoneMsg job_done_msg
  | JobLocalBeginMsg job_local_begin_msg
  | JobLocalDoneMsg u32
  | LoginMsg login_msg
  | ConfCSMsg conf_cs_msg
  | StatsMsg stats_msg
  | EnvTransferMsg env_transfer_msg
  | GetInternalStatus
  | MonLoginMsg
  | MonGetCSMsg mon_get_cs_msg
  | MonJobBeginMsg mon_job_begin_msg
  | MonJobDoneMsg job_done_msg
  | MonLocalJobBeginMsg mon_local_job_begin_msg
  | MonStatsMsg mon_stats_msg
  | TextMsg string
  | StatusTextMsg string
  | VerifyEnvMsg verify_env_msg
  | VerifyEnvResultMsg bool
  | BlacklistHostEnvMsg blacklist_host_env_msg

text \<open>\<open>enum MsgType\<close> starts at \<open>'A'\<close>; the numbers are what travels.\<close>

fun msg_type :: "msg \<Rightarrow> u32" where
  "msg_type PingMsg = 66"
| "msg_type EndMsg = 67"
| "msg_type (GetNativeEnvMsg _) = 69"
| "msg_type (UseNativeEnvMsg _) = 70"
| "msg_type (GetCSMsg _) = 71"
| "msg_type (UseCSMsg _) = 72"
| "msg_type (CompileFileMsg _) = 73"
| "msg_type (FileChunkMsg _) = 74"
| "msg_type (CompileResultMsg _) = 75"
| "msg_type (JobBeginMsg _) = 76"
| "msg_type (JobDoneMsg _) = 77"
| "msg_type (JobLocalBeginMsg _) = 78"
| "msg_type (JobLocalDoneMsg _) = 79"
| "msg_type (LoginMsg _) = 80"
| "msg_type (StatsMsg _) = 81"
| "msg_type MonLoginMsg = 82"
| "msg_type (MonGetCSMsg _) = 83"
| "msg_type (MonJobBeginMsg _) = 84"
| "msg_type (MonJobDoneMsg _) = 85"
| "msg_type (MonLocalJobBeginMsg _) = 86"
| "msg_type (MonStatsMsg _) = 87"
| "msg_type (EnvTransferMsg _) = 88"
| "msg_type (TextMsg _) = 89"
| "msg_type (StatusTextMsg _) = 90"
| "msg_type GetInternalStatus = 91"
| "msg_type (ConfCSMsg _) = 92"
| "msg_type (VerifyEnvMsg _) = 93"
| "msg_type (VerifyEnvResultMsg _) = 94"
| "msg_type (BlacklistHostEnvMsg _) = 95"
| "msg_type (NoCSMsg _) = 96"

text \<open>
  \<open>m.send_to_channel(c)\<close>: the type (on a binary channel) and the members; \<open>TextMsg\<close>
  overrides this and writes its line only.
\<close>

definition send_body :: "libs \<Rightarrow> int \<Rightarrow> msg \<Rightarrow> bytes option" where
  "send_body L p m =
     (case m of
        PingMsg \<Rightarrow> Some []
      | EndMsg \<Rightarrow> Some []
      | GetCSMsg x \<Rightarrow> Some (GetCSMsg_send p x)
      | UseCSMsg x \<Rightarrow> Some (UseCSMsg_send p x)
      | NoCSMsg x \<Rightarrow> Some (NoCSMsg_send x)
      | GetNativeEnvMsg x \<Rightarrow> Some (GetNativeEnvMsg_send p x)
      | UseNativeEnvMsg x \<Rightarrow> Some (UseNativeEnvMsg_send x)
      | CompileFileMsg x \<Rightarrow> Some (CompileFileMsg_send p x)
      | FileChunkMsg x \<Rightarrow> FileChunkMsg_send L p x
      | CompileResultMsg x \<Rightarrow> Some (CompileResultMsg_send p x)
      | JobBeginMsg x \<Rightarrow> Some (JobBeginMsg_send p x)
      | JobDoneMsg x \<Rightarrow> Some (JobDoneMsg_send p x)
      | JobLocalBeginMsg x \<Rightarrow> Some (JobLocalBeginMsg_send p x)
      | JobLocalDoneMsg x \<Rightarrow> Some (JobLocalDoneMsg_send x)
      | LoginMsg x \<Rightarrow> Some (LoginMsg_send p x)
      | ConfCSMsg x \<Rightarrow> Some (ConfCSMsg_send x)
      | StatsMsg x \<Rightarrow> Some (StatsMsg_send x)
      | EnvTransferMsg x \<Rightarrow> Some (EnvTransferMsg_send x)
      | GetInternalStatus \<Rightarrow> Some []
      | MonLoginMsg \<Rightarrow> Some []
      | MonGetCSMsg x \<Rightarrow> Some (MonGetCSMsg_send p x)
      | MonJobBeginMsg x \<Rightarrow> Some (MonJobBeginMsg_send x)
      | MonJobDoneMsg x \<Rightarrow> Some (JobDoneMsg_send p x)
      | MonLocalJobBeginMsg x \<Rightarrow> Some (MonLocalJobBeginMsg_send x)
      | MonStatsMsg x \<Rightarrow> Some (MonStatsMsg_send x)
      | TextMsg x \<Rightarrow> write_line x
      | StatusTextMsg x \<Rightarrow> Some (StatusTextMsg_send x)
      | VerifyEnvMsg x \<Rightarrow> Some (VerifyEnvMsg_send x)
      | VerifyEnvResultMsg x \<Rightarrow> Some (VerifyEnvResultMsg_send x)
      | BlacklistHostEnvMsg x \<Rightarrow> Some (BlacklistHostEnvMsg_send x))"

definition is_TextMsg :: "msg \<Rightarrow> bool" where
  "is_TextMsg m \<longleftrightarrow> (case m of TextMsg _ \<Rightarrow> True | _ \<Rightarrow> False)"

definition send_to_channel :: "libs \<Rightarrow> bool \<Rightarrow> int \<Rightarrow> msg \<Rightarrow> bytes option" where
  "send_to_channel L text p m =
     map_option (\<lambda>b. (if text \<or> is_TextMsg m then [] else put_u32 (msg_type m)) @ b) (send_body L p m)"

text \<open>
  The \<open>switch\<close> of \<open>get_msg\<close> with the \<open>fill_from_channel\<close> of the object it creates;
  \<open>None\<close> where the \<open>switch\<close> creates no object.
\<close>

definition fill_msg :: "libs \<Rightarrow> set_error_fn \<Rightarrow> u32 \<Rightarrow> (chan, msg) state option" where
  "fill_msg L se t =
     (let ret = State_Monad.return in
      if t = 66 then Some (ret PingMsg)
      else if t = 67 then Some (ret EndMsg)
      else if t = 71 then Some (do { x \<leftarrow> GetCSMsg_fill (GetCSMsg_new L); ret (GetCSMsg x) })
      else if t = 72 then Some (do { x \<leftarrow> UseCSMsg_fill; ret (UseCSMsg x) })
      else if t = 96 then Some (do { x \<leftarrow> NoCSMsg_fill; ret (NoCSMsg x) })
      else if t = 73 then Some (do { x \<leftarrow> CompileFileMsg_fill (CompileJob_new L); ret (CompileFileMsg x) })
      else if t = 74 then Some (do { x \<leftarrow> FileChunkMsg_fill L se; ret (FileChunkMsg x) })
      else if t = 75 then Some (do { x \<leftarrow> CompileResultMsg_fill CompileResultMsg_new; ret (CompileResultMsg x) })
      else if t = 76 then Some (do { x \<leftarrow> JobBeginMsg_fill; ret (JobBeginMsg x) })
      else if t = 77 then Some (do { x \<leftarrow> JobDoneMsg_fill JobDoneMsg_new; ret (JobDoneMsg x) })
      else if t = 80 then Some (do { x \<leftarrow> LoginMsg_fill; ret (LoginMsg x) })
      else if t = 81 then Some (do { x \<leftarrow> StatsMsg_fill; ret (StatsMsg x) })
      else if t = 69 then Some (do { x \<leftarrow> GetNativeEnvMsg_fill; ret (GetNativeEnvMsg x) })
      else if t = 70 then Some (do { x \<leftarrow> UseNativeEnvMsg_fill; ret (UseNativeEnvMsg x) })
      else if t = 82 then Some (ret MonLoginMsg)
      else if t = 83 then Some (do { x \<leftarrow> MonGetCSMsg_fill (MonGetCSMsg_new L); ret (MonGetCSMsg x) })
      else if t = 84 then Some (do { x \<leftarrow> MonJobBeginMsg_fill; ret (MonJobBeginMsg x) })
      else if t = 85 then Some (do { x \<leftarrow> JobDoneMsg_fill JobDoneMsg_new; ret (MonJobDoneMsg x) })
      else if t = 87 then Some (do { x \<leftarrow> MonStatsMsg_fill; ret (MonStatsMsg x) })
      else if t = 78 then Some (do { x \<leftarrow> JobLocalBeginMsg_fill; ret (JobLocalBeginMsg x) })
      else if t = 79 then Some (do { x \<leftarrow> JobLocalDoneMsg_fill; ret (JobLocalDoneMsg x) })
      else if t = 86 then Some (do { x \<leftarrow> MonLocalJobBeginMsg_fill; ret (MonLocalJobBeginMsg x) })
      else if t = 88 then Some (do { x \<leftarrow> EnvTransferMsg_fill; ret (EnvTransferMsg x) })
      else if t = 89 then Some (do { x \<leftarrow> read_line; ret (TextMsg x) })
      else if t = 91 then Some (ret GetInternalStatus)
      else if t = 90 then Some (do { x \<leftarrow> StatusTextMsg_fill; ret (StatusTextMsg x) })
      else if t = 92 then Some (do { x \<leftarrow> ConfCSMsg_fill; ret (ConfCSMsg x) })
      else if t = 93 then Some (do { x \<leftarrow> VerifyEnvMsg_fill; ret (VerifyEnvMsg x) })
      else if t = 94 then Some (do { x \<leftarrow> VerifyEnvResultMsg_fill; ret (VerifyEnvResultMsg x) })
      else if t = 95 then Some (do { x \<leftarrow> BlacklistHostEnvMsg_fill; ret (BlacklistHostEnvMsg x) })
      else None)"

end
