(* ===== verification/Codec.thy ===== *)
theory Codec
  imports Messages
begin

unbundle bit_operations_syntax

text \<open>
  What a receiver gets for each message, and the proof that it does. \<open>normal\<close> gives the received
  form of a message on a channel of protocol \<open>p\<close>: the fields that the negotiated version does not
  carry have their default, file names are shortened, and (before version 41) compiler arguments are
  regrouped. The main lemma \<open>fill_send\<close> says that reading any well-formed message from the bytes its
  sender wrote gives its normal form and consumes exactly those bytes.
\<close>

section \<open>What arrives\<close>

definition GetCSMsg_normal :: "int \<Rightarrow> get_cs_msg \<Rightarrow> get_cs_msg" where
  "GetCSMsg_normal p m = m\<lparr>
     gcs_filename := shorten_filename (gcs_filename m),
     gcs_preferred_host := (if p \<ge> 22 then gcs_preferred_host m else ''''),
     gcs_minimal_host_version :=
       (let v = gcs_minimal_host_version m; floor = (if p \<ge> 31 \<and> sint v \<ge> 31 then 31 else 0)
        in if p \<ge> 34 then smax32 floor v else floor),
     gcs_client_count := (if p \<ge> 39 then gcs_client_count m else 0),
     gcs_required_features := (if p \<ge> 42 then gcs_required_features m else 0),
     gcs_niceness := (if p \<ge> 43 then gcs_niceness m else 0)\<rparr>"

definition JobDoneMsg_normal :: "int \<Rightarrow> job_done_msg \<Rightarrow> job_done_msg" where
  "JobDoneMsg_normal p m =
     (let exit = (if p < 39 \<and> jd_flags m AND UnknownJobId \<noteq> 0 then 200 else jd_exitcode m)
      in m\<lparr>jd_exitcode := exit,
           jd_flags := (if p < 39 \<and> exit = 200 then jd_flags m OR UnknownJobId else jd_flags m),
           jd_client_count := (if p \<ge> 39 then jd_client_count m else 0)\<rparr>)"

definition CompileFileMsg_normal :: "int \<Rightarrow> compile_job \<Rightarrow> compile_job" where
  "CompileFileMsg_normal p job = job\<lparr>
     m_compiler_pathname := '''',
     m_flags := (if p \<ge> 41 then with_type Arg_Remote (nonLocalFlags job)
                 else with_type Arg_Remote
                        (if p < 30 \<and> is_clang_like (m_compiler_name job)
                         then ''clang'' # remoteFlags job else remoteFlags job)
                      @ with_type Arg_Rest (restFlags job)),
     m_compiler_name := (if p \<ge> 30 then remote_compiler_name job else ''''),
     m_input_file := (if p \<ge> 34 then m_input_file job else ''''),
     m_working_directory := (if p \<ge> 34 then m_working_directory job else ''''),
     m_output_file := (if p \<ge> 35 then m_output_file job else ''''),
     m_dwarf_fission := (p \<ge> 35 \<and> m_dwarf_fission job),
     m_block_rewrite_includes := False\<rparr>"

definition MonGetCSMsg_normal :: "libs \<Rightarrow> int \<Rightarrow> mon_get_cs_msg \<Rightarrow> mon_get_cs_msg" where
  "MonGetCSMsg_normal L p m = m\<lparr>mgc_get_cs :=
     (if p \<ge> 29 then (GetCSMsg_new L)\<lparr>gcs_filename := shorten_filename (gcs_filename (mgc_get_cs m)),
                                     gcs_lang := gcs_lang (mgc_get_cs m)\<rparr>
      else GetCSMsg_normal p (mgc_get_cs m))\<rparr>"

definition compressed_size :: "libs \<Rightarrow> int \<Rightarrow> bytes \<Rightarrow> nat" where
  "compressed_size L p d =
     (case (if p \<ge> 40 then ZSTD_compress L d else lzo1x_1_compress L d) of None \<Rightarrow> 0 | Some e \<Rightarrow> length e)"

fun normal :: "libs \<Rightarrow> int \<Rightarrow> msg \<Rightarrow> msg" where
  "normal L p (GetCSMsg x) = GetCSMsg (GetCSMsg_normal p x)"
| "normal L p (UseCSMsg x) =
     UseCSMsg (x\<lparr>ucs_matched_job_id := (if p \<ge> 28 then ucs_matched_job_id x else 0)\<rparr>)"
| "normal L p (GetNativeEnvMsg x) = GetNativeEnvMsg
     \<lparr>gne_compiler = (if p \<ge> 32 then gne_compiler x else ''''),
      gne_extrafiles = (if p \<ge> 32 then gne_extrafiles x else []),
      gne_compression = (if p \<ge> 42 then gne_compression x else '''')\<rparr>"
| "normal L p (CompileFileMsg x) = CompileFileMsg (CompileFileMsg_normal p x)"
| "normal L p (FileChunkMsg x) = FileChunkMsg (x\<lparr>fc_compressed :=
     (case fc_buffer x of None \<Rightarrow> 0 | Some d \<Rightarrow> compressed_size L p d)\<rparr>)"
| "normal L p (CompileResultMsg x) =
     CompileResultMsg (x\<lparr>cr_have_dwo_file := (p \<ge> 35 \<and> cr_have_dwo_file x)\<rparr>)"
| "normal L p (JobBeginMsg x) =
     JobBeginMsg (x\<lparr>jb_client_count := (if p \<ge> 39 then jb_client_count x else 0)\<rparr>)"
| "normal L p (JobDoneMsg x) = JobDoneMsg (JobDoneMsg_normal p x)"
| "normal L p (MonJobDoneMsg x) = MonJobDoneMsg (JobDoneMsg_normal p x)"
| "normal L p (JobLocalBeginMsg x) =
     JobLocalBeginMsg (x\<lparr>jlb_fulljob := (p \<ge> 44 \<and> jlb_fulljob x),
                         jlb_niceness := (if p \<ge> 45 then jlb_niceness x else 0)\<rparr>)"
| "normal L p (LoginMsg x) =
     LoginMsg (x\<lparr>lg_noremote := (p \<ge> 26 \<and> lg_noremote x),
                 lg_supported_features := (if p \<ge> 42 then lg_supported_features x else 0)\<rparr>)"
| "normal L p (StatsMsg x) = StatsMsg (x\<lparr>st_client_count := 0\<rparr>)"
| "normal L p (MonGetCSMsg x) = MonGetCSMsg (MonGetCSMsg_normal L p x)"
| "normal L p (MonLocalJobBeginMsg x) =
     MonLocalJobBeginMsg (x\<lparr>mlj_file := shorten_filename (mlj_file x)\<rparr>)"
| "normal L p m = m"

section \<open>Messages that fit the wire format\<close>

definition wf_get_cs :: "get_cs_msg \<Rightarrow> bool" where
  "wf_get_cs m \<longleftrightarrow> wf_envs (gcs_versions m) \<and> wf_str (gcs_filename m) \<and> wf_str (gcs_target m)
     \<and> wf_str (gcs_preferred_host m)"

definition wf_job :: "compile_job \<Rightarrow> bool" where
  "wf_job j \<longleftrightarrow> (\<forall>s\<in>set (allFlags j). wf_str s) \<and> length (m_flags j) + 1 < 2 ^ 32
     \<and> wf_str (m_environment_version j) \<and> wf_str (m_target_platform j) \<and> wf_str (m_input_file j)
     \<and> wf_str (m_working_directory j) \<and> wf_str (m_output_file j)"

definition wf_chunk :: "file_chunk_msg \<Rightarrow> bool" where
  "wf_chunk m \<longleftrightarrow> (case fc_buffer m of None \<Rightarrow> False
     | Some b \<Rightarrow> fc_len m = length b \<and> length b \<le> MAX_MSG_SIZE)"

text \<open>A text line has no place on a binary channel, so \<open>TextMsg\<close> is not among them.\<close>

fun wf_msg :: "msg \<Rightarrow> bool" where
  "wf_msg (GetCSMsg x) = wf_get_cs x"
| "wf_msg (UseCSMsg x) = (wf_str (ucs_hostname x) \<and> wf_str (ucs_host_platform x))"
| "wf_msg (GetNativeEnvMsg x) =
     (wf_str (gne_compiler x) \<and> wf_strs (gne_extrafiles x) \<and> wf_str (gne_compression x))"
| "wf_msg (UseNativeEnvMsg x) = wf_str x"
| "wf_msg (CompileFileMsg x) = wf_job x"
| "wf_msg (FileChunkMsg x) = wf_chunk x"
| "wf_msg (CompileResultMsg x) = (wf_str (cr_err x) \<and> wf_str (cr_out x))"
| "wf_msg (JobLocalBeginMsg x) = wf_str (jlb_outfile x)"
| "wf_msg (LoginMsg x) = (wf_envs (lg_envs x) \<and> wf_str (lg_nodename x) \<and> wf_str (lg_host_platform x))"
| "wf_msg (EnvTransferMsg x) = (wf_str (et_name x) \<and> wf_str (et_target x))"
| "wf_msg (VerifyEnvMsg x) = (wf_str (ve_environment x) \<and> wf_str (ve_target x))"
| "wf_msg (BlacklistHostEnvMsg x) =
     (wf_str (bl_environment x) \<and> wf_str (bl_target x) \<and> wf_str (bl_hostname x))"
| "wf_msg (MonGetCSMsg x) = wf_get_cs (mgc_get_cs x)"
| "wf_msg (MonLocalJobBeginMsg x) = wf_str (mlj_file x)"
| "wf_msg (MonStatsMsg x) = wf_str (ms_statmsg x)"
| "wf_msg (StatusTextMsg x) = wf_str x"
| "wf_msg (TextMsg x) = False"
| "wf_msg m = True"

text \<open>
  What the code relies on from zstd and lzo: compressing a chunk succeeds, and decompressing the
  result into a buffer of the original size gives the chunk back.
\<close>

definition inverts :: "(bytes \<Rightarrow> bytes option) \<Rightarrow> (nat \<Rightarrow> bytes \<Rightarrow> bytes option) \<Rightarrow> bool" where
  "inverts pack unpack \<longleftrightarrow>
     (\<forall>d. length d \<le> MAX_MSG_SIZE \<longrightarrow>
        (\<exists>e. pack d = Some e \<and> e \<noteq> [] \<and> length e < 2 ^ 32 \<and> unpack (length d) e = Some d))"

definition compression_ok :: "libs \<Rightarrow> bool" where
  "compression_ok L \<longleftrightarrow> inverts (ZSTD_compress L) (ZSTD_decompress L)
     \<and> inverts (lzo1x_1_compress L) (lzo1x_decompress L)"

section \<open>Each message arrives as its normal form\<close>

lemma GetCSMsg_roundtrip:
  assumes "wf_get_cs m" and "gcs_client_count m0 = 0"
  shows "run_state (GetCSMsg_fill m0) (at_input pre (GetCSMsg_send (protocol c) m @ r) c)
         = (GetCSMsg_normal (protocol c) m, at_input (pre @ GetCSMsg_send (protocol c) m) r c)"
  using assms
  by (simp add: GetCSMsg_fill_def GetCSMsg_send_def GetCSMsg_normal_def codec_simps wf_get_cs_def
      wf_str_shorten Let_def smax32_def)

lemma UseCSMsg_roundtrip:
  assumes "wf_str (ucs_hostname m)" "wf_str (ucs_host_platform m)"
  shows "run_state UseCSMsg_fill (at_input pre (UseCSMsg_send (protocol c) m @ r) c)
         = (m\<lparr>ucs_matched_job_id := (if protocol c \<ge> 28 then ucs_matched_job_id m else 0)\<rparr>,
            at_input (pre @ UseCSMsg_send (protocol c) m) r c)"
  using assms by (simp add: UseCSMsg_fill_def UseCSMsg_send_def codec_simps)

lemma wf_strs_sub:
  assumes "wf_job j" and "set l \<subseteq> set (allFlags j)" and "length l \<le> length (m_flags j)"
  shows "wf_strs l" and "wf_strs (''clang'' # l)"
  using assms by (auto simp: wf_job_def wf_strs_def wf_str_def)

lemma wf_job_flags:
  assumes "wf_job j"
  shows "wf_strs (nonLocalFlags j)" "wf_strs (remoteFlags j)" "wf_strs (restFlags j)"
    "wf_strs (''clang'' # remoteFlags j)"
proof -
  have "set (nonLocalFlags j) \<subseteq> set (allFlags j)" "set (remoteFlags j) \<subseteq> set (allFlags j)"
    "set (restFlags j) \<subseteq> set (allFlags j)"
    by (auto simp: nonLocalFlags_def remoteFlags_def restFlags_def job_flags_def allFlags_def)
  moreover have "length (nonLocalFlags j) \<le> length (m_flags j)"
    "length (remoteFlags j) \<le> length (m_flags j)" "length (restFlags j) \<le> length (m_flags j)"
    by (simp_all add: nonLocalFlags_def remoteFlags_def restFlags_def job_flags_def)
  ultimately show "wf_strs (nonLocalFlags j)" "wf_strs (remoteFlags j)" "wf_strs (restFlags j)"
    "wf_strs (''clang'' # remoteFlags j)"
    using wf_strs_sub [OF assms] by blast+
qed

lemma wf_str_compiler_name: "wf_str (remote_compiler_name j)"
  by (simp add: remote_compiler_name_def wf_str_def)

lemma CompileFileMsg_roundtrip:
  assumes "wf_job m"
  shows "run_state (CompileFileMsg_fill (CompileJob_new L)) (at_input pre (CompileFileMsg_send (protocol c) m @ r) c)
         = (CompileFileMsg_normal (protocol c) m, at_input (pre @ CompileFileMsg_send (protocol c) m) r c)"
proof -
  note wf = wf_job_flags [OF assms] wf_str_compiler_name [of m] assms [unfolded wf_job_def]
  show ?thesis
  proof (cases "protocol c \<ge> 41")
    case True
    with wf show ?thesis
      by (simp add: CompileFileMsg_fill_def CompileFileMsg_send_def CompileFileMsg_normal_def
          CompileJob_new_def codec_simps)
  next
    case False
    with wf show ?thesis
      by (simp add: CompileFileMsg_fill_def CompileFileMsg_send_def CompileFileMsg_normal_def
          CompileJob_new_def codec_simps not_le)
  qed
qed

lemma JobDoneMsg_roundtrip:
  "run_state (JobDoneMsg_fill JobDoneMsg_new) (at_input pre (JobDoneMsg_send (protocol c) m @ r) c)
   = (JobDoneMsg_normal (protocol c) m, at_input (pre @ JobDoneMsg_send (protocol c) m) r c)"
  by (simp add: JobDoneMsg_fill_def JobDoneMsg_send_def JobDoneMsg_normal_def codec_simps
      JobDoneMsg_new_def JobDoneMsg_make_def Let_def not_le)

lemma MonGetCSMsg_roundtrip:
  assumes "wf_get_cs (mgc_get_cs m)"
  shows "run_state (MonGetCSMsg_fill (MonGetCSMsg_new L)) (at_input pre (MonGetCSMsg_send (protocol c) m @ r) c)
         = (MonGetCSMsg_normal L (protocol c) m, at_input (pre @ MonGetCSMsg_send (protocol c) m) r c)"
proof (cases "protocol c \<ge> 29")
  case True
  with assms show ?thesis
    by (simp add: MonGetCSMsg_fill_def MonGetCSMsg_send_def MonGetCSMsg_normal_def MonGetCSMsg_new_def
        codec_simps wf_get_cs_def wf_str_shorten)
next
  case False
  have "gcs_client_count (GetCSMsg_new L) = 0"
    by (simp add: GetCSMsg_new_def)
  with False assms show ?thesis
    by (simp add: MonGetCSMsg_fill_def MonGetCSMsg_send_def MonGetCSMsg_normal_def MonGetCSMsg_new_def
        GetCSMsg_roundtrip codec_simps)
qed

lemma CompileResultMsg_roundtrip:
  assumes "wf_str (cr_err m)" "wf_str (cr_out m)"
  shows "run_state (CompileResultMsg_fill CompileResultMsg_new) (at_input pre (CompileResultMsg_send (protocol c) m @ r) c)
         = (m\<lparr>cr_have_dwo_file := (protocol c \<ge> 35 \<and> cr_have_dwo_file m)\<rparr>,
            at_input (pre @ CompileResultMsg_send (protocol c) m) r c)"
  using assms by (simp add: CompileResultMsg_fill_def CompileResultMsg_send_def CompileResultMsg_new_def codec_simps)

lemma JobLocalBeginMsg_roundtrip:
  assumes "wf_str (jlb_outfile m)"
  shows "run_state JobLocalBeginMsg_fill (at_input pre (JobLocalBeginMsg_send (protocol c) m @ r) c)
         = (m\<lparr>jlb_fulljob := (protocol c \<ge> 44 \<and> jlb_fulljob m),
              jlb_niceness := (if protocol c \<ge> 45 then jlb_niceness m else 0)\<rparr>,
            at_input (pre @ JobLocalBeginMsg_send (protocol c) m) r c)"
  using assms by (simp add: JobLocalBeginMsg_fill_def JobLocalBeginMsg_send_def codec_simps)

lemma LoginMsg_roundtrip:
  assumes "wf_envs (lg_envs m)" "wf_str (lg_nodename m)" "wf_str (lg_host_platform m)"
  shows "run_state LoginMsg_fill (at_input pre (LoginMsg_send (protocol c) m @ r) c)
         = (m\<lparr>lg_noremote := (protocol c \<ge> 26 \<and> lg_noremote m),
              lg_supported_features := (if protocol c \<ge> 42 then lg_supported_features m else 0)\<rparr>,
            at_input (pre @ LoginMsg_send (protocol c) m) r c)"
  using assms by (simp add: LoginMsg_fill_def LoginMsg_send_def codec_simps)

lemma GetNativeEnvMsg_roundtrip:
  assumes "wf_str (gne_compiler m)" "wf_strs (gne_extrafiles m)" "wf_str (gne_compression m)"
  shows "run_state GetNativeEnvMsg_fill (at_input pre (GetNativeEnvMsg_send (protocol c) m @ r) c)
         = (\<lparr>gne_compiler = (if protocol c \<ge> 32 then gne_compiler m else ''''),
             gne_extrafiles = (if protocol c \<ge> 32 then gne_extrafiles m else []),
             gne_compression = (if protocol c \<ge> 42 then gne_compression m else '''')\<rparr>,
            at_input (pre @ GetNativeEnvMsg_send (protocol c) m) r c)"
  using assms by (simp add: GetNativeEnvMsg_fill_def GetNativeEnvMsg_send_def codec_simps)

lemma simple_roundtrips:
  "run_state NoCSMsg_fill (at_input pre (NoCSMsg_send m1 @ r) c) = (m1, at_input (pre @ NoCSMsg_send m1) r c)"
  "run_state JobBeginMsg_fill (at_input pre (JobBeginMsg_send (protocol c) m2 @ r) c)
     = (m2\<lparr>jb_client_count := (if protocol c \<ge> 39 then jb_client_count m2 else 0)\<rparr>,
        at_input (pre @ JobBeginMsg_send (protocol c) m2) r c)"
  "run_state JobLocalDoneMsg_fill (at_input pre (JobLocalDoneMsg_send m3 @ r) c)
     = (m3, at_input (pre @ JobLocalDoneMsg_send m3) r c)"
  "run_state StatsMsg_fill (at_input pre (StatsMsg_send m4 @ r) c)
     = (m4\<lparr>st_client_count := 0\<rparr>, at_input (pre @ StatsMsg_send m4) r c)"
  "run_state MonJobBeginMsg_fill (at_input pre (MonJobBeginMsg_send m5 @ r) c)
     = (m5, at_input (pre @ MonJobBeginMsg_send m5) r c)"
  "run_state VerifyEnvResultMsg_fill (at_input pre (VerifyEnvResultMsg_send m6 @ r) c)
     = (m6, at_input (pre @ VerifyEnvResultMsg_send m6) r c)"
  by (simp_all add: codec_simps NoCSMsg_fill_def NoCSMsg_send_def JobBeginMsg_fill_def JobBeginMsg_send_def
      JobLocalDoneMsg_fill_def JobLocalDoneMsg_send_def StatsMsg_fill_def StatsMsg_send_def
      MonJobBeginMsg_fill_def MonJobBeginMsg_send_def VerifyEnvResultMsg_fill_def VerifyEnvResultMsg_send_def)

lemma wf_str_Nil [simp]: "wf_str ''''"
  by (simp add: wf_str_def)

lemma string_roundtrips:
  "run_state ConfCSMsg_fill (at_input pre (ConfCSMsg_send m1 @ r) c) = (m1, at_input (pre @ ConfCSMsg_send m1) r c)"
  "wf_str s \<Longrightarrow> run_state UseNativeEnvMsg_fill (at_input pre (UseNativeEnvMsg_send s @ r) c)
     = (s, at_input (pre @ UseNativeEnvMsg_send s) r c)"
  "wf_str s \<Longrightarrow> run_state StatusTextMsg_fill (at_input pre (StatusTextMsg_send s @ r) c)
     = (s, at_input (pre @ StatusTextMsg_send s) r c)"
  "wf_str (et_name m2) \<Longrightarrow> wf_str (et_target m2) \<Longrightarrow>
     run_state EnvTransferMsg_fill (at_input pre (EnvTransferMsg_send m2 @ r) c)
     = (m2, at_input (pre @ EnvTransferMsg_send m2) r c)"
  "wf_str (ve_environment m3) \<Longrightarrow> wf_str (ve_target m3) \<Longrightarrow>
     run_state VerifyEnvMsg_fill (at_input pre (VerifyEnvMsg_send m3 @ r) c)
     = (m3, at_input (pre @ VerifyEnvMsg_send m3) r c)"
  "wf_str (bl_environment m4) \<Longrightarrow> wf_str (bl_target m4) \<Longrightarrow> wf_str (bl_hostname m4) \<Longrightarrow>
     run_state BlacklistHostEnvMsg_fill (at_input pre (BlacklistHostEnvMsg_send m4 @ r) c)
     = (m4, at_input (pre @ BlacklistHostEnvMsg_send m4) r c)"
  "wf_str (mlj_file m5) \<Longrightarrow>
     run_state MonLocalJobBeginMsg_fill (at_input pre (MonLocalJobBeginMsg_send m5 @ r) c)
     = (m5\<lparr>mlj_file := shorten_filename (mlj_file m5)\<rparr>, at_input (pre @ MonLocalJobBeginMsg_send m5) r c)"
  "wf_str (ms_statmsg m6) \<Longrightarrow>
     run_state MonStatsMsg_fill (at_input pre (MonStatsMsg_send m6 @ r) c)
     = (m6, at_input (pre @ MonStatsMsg_send m6) r c)"
  by (simp_all add: codec_simps ConfCSMsg_fill_def ConfCSMsg_send_def UseNativeEnvMsg_fill_def
      UseNativeEnvMsg_send_def StatusTextMsg_fill_def StatusTextMsg_send_def EnvTransferMsg_fill_def
      EnvTransferMsg_send_def VerifyEnvMsg_fill_def VerifyEnvMsg_send_def BlacklistHostEnvMsg_fill_def
      BlacklistHostEnvMsg_send_def MonLocalJobBeginMsg_fill_def MonLocalJobBeginMsg_send_def
      MonStatsMsg_fill_def MonStatsMsg_send_def wf_str_shorten)

lemma inverts_obtain:
  assumes "inverts pack unpack" and "length d \<le> MAX_MSG_SIZE"
  obtains e where "pack d = Some e" "e \<noteq> []" "length e < 2 ^ 32" "unpack (length d) e = Some d"
  using assms by (auto simp: inverts_def)

lemma MAX_MSG_SIZE_u32: "n \<le> MAX_MSG_SIZE \<Longrightarrow> n < 2 ^ 32"
  by (simp add: MAX_MSG_SIZE_def)

text \<open>The announced sizes, the compression protocol and the payload are read back by \<open>readcompressed\<close>.\<close>

lemma readcompressed_put:
  assumes "length d \<le> MAX_MSG_SIZE" and "e \<noteq> []" and "length e < 2 ^ 32"
    and "decompress L (if protocol c \<ge> 40 then C_ZSTD else C_LZO) (length d) e = (Some d, length d)"
  shows "run_state (readcompressed L se)
           (at_input pre (put_u32 (of_nat (length d)) @ put_u32 (of_nat (length e))
              @ put_if 40 (protocol c) (put_u32 C_ZSTD) @ e @ r) c)
         = ((Some d, length d, length e),
            at_input (pre @ put_u32 (of_nat (length d)) @ put_u32 (of_nat (length e))
              @ put_if 40 (protocol c) (put_u32 C_ZSTD) @ e) r c)"
proof -
  have ul: "unat (of_nat (length d) :: u32) = length d"
    using MAX_MSG_SIZE_u32 [OF assms(1)] by (rule unat_of_nat_u32)
  have cl: "unat (of_nat (length e) :: u32) = length e"
    using assms(3) by (rule unat_of_nat_u32)
  have "(of_nat (length e) :: u32) \<noteq> 0"
    using cl assms(2) by (metis length_0_conv unat_0)
  then show ?thesis
    using assms ul cl
    by (cases "protocol c \<ge> 40")
      (simp_all add: readcompressed_def put_if_def codec_simps Let_def, simp_all add: at_input_def)
qed

lemma FileChunkMsg_roundtrip:
  assumes "wf_chunk m" and "compression_ok L"
  shows "\<exists>b. FileChunkMsg_send L (protocol c) m = Some b \<and>
           run_state (FileChunkMsg_fill L se) (at_input pre (b @ r) c)
           = (m\<lparr>fc_compressed := (case fc_buffer m of None \<Rightarrow> 0 | Some d \<Rightarrow> compressed_size L (protocol c) d)\<rparr>,
              at_input (pre @ b) r c)"
proof -
  from assms(1) obtain d where d: "fc_buffer m = Some d" "fc_len m = length d" "length d \<le> MAX_MSG_SIZE"
    by (auto simp: wf_chunk_def split: option.splits)
  define pack where "pack = (if protocol c \<ge> 40 then ZSTD_compress L else lzo1x_1_compress L)"
  define unpack where "unpack = (if protocol c \<ge> 40 then ZSTD_decompress L else lzo1x_decompress L)"
  have "inverts pack unpack"
    using assms(2) by (simp add: compression_ok_def pack_def unpack_def)
  then obtain e where e: "pack d = Some e" "e \<noteq> []" "length e < 2 ^ 32" "unpack (length d) e = Some d"
    using d(3) by (rule inverts_obtain)
  have dec: "decompress L (if protocol c \<ge> 40 then C_ZSTD else C_LZO) (length d) e = (Some d, length d)"
    using e(2,4) by (auto simp: decompress_def unpack_def split: if_splits)
  let ?b = "put_u32 (of_nat (length d)) @ put_u32 (of_nat (length e)) @ put_if 40 (protocol c) (put_u32 C_ZSTD) @ e"
  have "FileChunkMsg_send L (protocol c) m = Some ?b"
    using d e(1) by (simp add: FileChunkMsg_send_def writecompressed_def pack_def put_if_def Let_def split: if_splits)
  moreover have "compressed_size L (protocol c) d = length e"
    using e(1) by (simp add: compressed_size_def pack_def split: if_splits)
  ultimately show ?thesis
    using readcompressed_put [OF d(3) e(2,3) dec, of se pre r] d by (simp add: FileChunkMsg_fill_def)
qed

lemmas roundtrips = UseCSMsg_roundtrip CompileFileMsg_roundtrip JobDoneMsg_roundtrip MonGetCSMsg_roundtrip
  CompileResultMsg_roundtrip JobLocalBeginMsg_roundtrip LoginMsg_roundtrip GetNativeEnvMsg_roundtrip
  simple_roundtrips string_roundtrips

lemma GetCSMsg_roundtrip_new:
  "wf_get_cs m \<Longrightarrow>
   run_state (GetCSMsg_fill (GetCSMsg_new L)) (at_input pre (GetCSMsg_send (protocol c) m @ r) c)
     = (GetCSMsg_normal (protocol c) m, at_input (pre @ GetCSMsg_send (protocol c) m) r c)"
  by (rule GetCSMsg_roundtrip) (simp_all add: GetCSMsg_new_def)

text \<open>Every message class at once: the sender's bytes are read as the normal form of the message.\<close>

lemma fill_send:
  assumes "wf_msg m" and "compression_ok L"
  obtains b g where "send_body L (protocol c) m = Some b"
    and "fill_msg L se (msg_type m) = Some g"
    and "\<And>pre r. run_state g (at_input pre (b @ r) c) = (normal L (protocol c) m, at_input (pre @ b) r c)"
proof (cases m)
  case (FileChunkMsg x)
  with assms obtain b where b: "FileChunkMsg_send L (protocol c) x = Some b"
    using FileChunkMsg_roundtrip [of x L c se "[]" "[]"] by auto
  with FileChunkMsg assms have
    "run_state (FileChunkMsg_fill L se) (at_input pre (b @ r) c)
     = (x\<lparr>fc_compressed := (case fc_buffer x of None \<Rightarrow> 0 | Some d \<Rightarrow> compressed_size L (protocol c) d)\<rparr>,
        at_input (pre @ b) r c)" for pre r
    using FileChunkMsg_roundtrip [of x L c se pre r] by auto
  with b FileChunkMsg show ?thesis
    by (intro that [of b "do { y \<leftarrow> FileChunkMsg_fill L se; State_Monad.return (FileChunkMsg y) }"])
      (simp_all add: send_body_def fill_msg_def Let_def)
qed (use assms in \<open>auto intro!: that simp: send_body_def fill_msg_def Let_def roundtrips GetCSMsg_roundtrip_new\<close>)

section \<open>Properties\<close>

text \<open>
  C35. Every message survives the wire at every protocol version: reading the bytes that the
  sender of a well-formed message writes gives the message's normal form for that version, consumes exactly
  these bytes and leaves whatever follows them.
\<close>

theorem message_roundtrip:
  assumes "wf_msg m" and "compression_ok L"
  shows "\<exists>b g. send_body L (protocol c) m = Some b \<and> fill_msg L se (msg_type m) = Some g \<and>
    (\<forall>pre r. run_state g (at_input pre (b @ r) c) = (normal L (protocol c) m, at_input (pre @ b) r c))"
  by (rule fill_send [OF assms, of c se]) blast

definition demo_libs :: libs where
  "demo_libs = \<lparr>ZSTD_compress = (\<lambda>d. Some (CHR ''z'' # d)), ZSTD_decompress = (\<lambda>n e. Some (tl e)),
     lzo1x_1_compress = (\<lambda>d. Some (CHR ''l'' # d)), lzo1x_decompress = (\<lambda>n e. Some (tl e)),
     uninit_byte = CHR ''?'', uninit_word = 77, uninit_bool = True, determine_platform = ''x86_64''\<rparr>"

lemma demo_libs_ok: "compression_ok demo_libs"
  by (simp add: compression_ok_def inverts_def demo_libs_def MAX_MSG_SIZE_def)

theorem message_roundtrip_witness:
  "\<forall>c. \<exists>b g. send_body demo_libs 32 (GetNativeEnvMsg \<lparr>gne_compiler = ''gcc'', gne_extrafiles = [''a'', ''b''], gne_compression = ''xz''\<rparr>) = Some b
     \<and> fill_msg demo_libs (\<lambda>_ c. c) 69 = Some g \<and>
     fst (run_state g (at_input [] b (c\<lparr>protocol := 32\<rparr>))) = GetNativeEnvMsg \<lparr>gne_compiler = ''gcc'', gne_extrafiles = [''a'', ''b''], gne_compression = ''''\<rparr>"
proof (intro allI)
  fix c :: chan
  let ?c = "c\<lparr>protocol := 32\<rparr>" and ?m = "GetNativeEnvMsg \<lparr>gne_compiler = ''gcc'', gne_extrafiles = [''a'', ''b''], gne_compression = ''xz''\<rparr>"
  have "wf_msg ?m"
    by (simp add: wf_str_def wf_strs_def)
  from message_roundtrip [OF this demo_libs_ok, of ?c "\<lambda>_ c. c"] obtain b g where
    bg: "send_body demo_libs (protocol ?c) ?m = Some b" "fill_msg demo_libs (\<lambda>_ c. c) (msg_type ?m) = Some g"
      "run_state g (at_input [] (b @ []) ?c) = (normal demo_libs (protocol ?c) ?m, at_input ([] @ b) [] ?c)"
    by blast
  then show "\<exists>b g. send_body demo_libs 32 ?m = Some b \<and> fill_msg demo_libs (\<lambda>_ c. c) 69 = Some g \<and>
     fst (run_state g (at_input [] b ?c)) = GetNativeEnvMsg \<lparr>gne_compiler = ''gcc'', gne_extrafiles = [''a'', ''b''], gne_compression = ''''\<rparr>"
    by (intro exI [of _ b] exI [of _ g]) simp
qed

end
