(* ===== verification/Transport.thy ===== *)
theory Transport
  imports Codec
begin

text \<open>
  Whole messages on a channel (\<open>services/comm.cpp\<close>): \<open>get_msg\<close>, \<open>send_msg\<close>,
  \<open>set_error\<close> and the constructor of \<open>MsgChannel\<close>.

  \<open>set_error\<close> and \<open>get_msg\<close> call each other; the member \<open>set_error_recursion\<close>
  stops the recursion. \<open>set_error_inner\<close> is \<open>set_error\<close> while that flag is set, and
  \<open>get_msg_with\<close> is \<open>get_msg\<close> over the \<open>set_error\<close> of the level above.
\<close>

section \<open>Receiving a message\<close>

definition M_UNKNOWN :: u32 where "M_UNKNOWN = 65"
definition M_TEXT :: u32 where "M_TEXT = 89"

definition get_msg_with :: "libs \<Rightarrow> set_error_fn \<Rightarrow> int \<Rightarrow> bool \<Rightarrow> chan \<Rightarrow> msg option \<times> chan" where
  "get_msg_with L se timeout eofAllowed c =
     (case wait_for_msg se timeout c of
        (False, c1) \<Rightarrow> (None, c1)
      | (True, c1) \<Rightarrow>
          if at_eof c1 then (None, if eofAllowed then c1 else se False c1)
          else if \<not> has_msg c1 then (None, se False c1)
          else
            (case (if text_based c1 then (M_TEXT, c1) else run_state get_u32 c1) of
               (t, c2) \<Rightarrow>
                 if t = M_UNKNOWN then (None, se False c2)
                 else
                   (case fill_msg L se t of
                      None \<Rightarrow> (None, se False c2)
                    | Some fill \<Rightarrow>
                        (case run_state fill c2 of
                           (m, c3) \<Rightarrow>
                             if \<not> text_based c3 \<and> int (intogo c3) - int (intogo c1) \<noteq> uint (inmsglen c3)
                             then (None, se False c3)
                             else (Some m, snd (update_state se (c3\<lparr>instate := NEED_LEN\<rparr>)))))))"

definition set_error_inner :: set_error_fn where
  "set_error_inner silent c =
     (if instate c = ERROR then c else c\<lparr>instate := ERROR, eof := True\<rparr>)"

definition set_error :: "libs \<Rightarrow> set_error_fn" where
  "set_error L silent c =
     (if instate c = ERROR then c
      else (if silent then c else snd (get_msg_with L set_error_inner 2 True c))
             \<lparr>instate := ERROR, eof := True\<rparr>)"

definition get_msg :: "libs \<Rightarrow> int \<Rightarrow> bool \<Rightarrow> chan \<Rightarrow> msg option \<times> chan" where
  "get_msg L = get_msg_with L (set_error L)"

section \<open>Sending a message\<close>

definition patch :: "nat \<Rightarrow> bytes \<Rightarrow> bytes \<Rightarrow> bytes" where
  "patch n w buf = take n buf @ w @ drop (n + length w) buf"

text \<open>
  The flags are \<open>blocking\<close> (\<open>SendBlocking\<close>) and \<open>bulk\<close> (\<open>SendBulkOnly\<close>).
  \<open>None\<close> is the undefined behaviour of the message's own writer.
\<close>

definition send_msg :: "libs \<Rightarrow> bool \<Rightarrow> bool \<Rightarrow> msg \<Rightarrow> chan \<Rightarrow> (bool \<times> chan) option" where
  "send_msg L blocking bulk m c =
     (if instate c = ERROR then Some (False, c)
      else
        (case (if instate c = NEED_PROTO then wait_for_protocol (set_error L) c else (True, c)) of
           (False, c0) \<Rightarrow> Some (False, c0)
         | (True, c0) \<Rightarrow>
             (let c1 = chop_output c0
              in case send_to_channel L (text_based c1) (protocol c1) m of
                   None \<Rightarrow> None
                 | Some b \<Rightarrow>
                     (let c2 = (if text_based c1 then writefull b c1
                                else
                                  let c' = writefull b (writefull (put_u32 0) c1);
                                      out_len = msgtogo c' - msgtogo c1 - 4
                                  in c'\<lparr>msgbuf := patch (msgtogo c1) (be32 (of_nat out_len)) (msgbuf c')\<rparr>)
                      in if bulk \<and> msgtogo c2 < 4096 then Some (True, c2)
                         else Some (flush_writebuf (set_error L) blocking c2)))))"

section \<open>A new channel\<close>

text \<open>
  The members after the constructor's initialisation; \<open>rd\<close>, \<open>snd\<close>, \<open>pin\<close>, \<open>pout\<close>
  are what the kernel will answer. The socket options and the peer's name are not modelled.
\<close>

definition chan_init :: "bool \<Rightarrow> bool \<Rightarrow> rd_res list \<Rightarrow> snd_res list \<Rightarrow> poll_res list \<Rightarrow> poll_res list \<Rightarrow> chan" where
  "chan_init text slow rd snds pin pout = \<lparr>protocol = -1, maximum_remote_protocol = -1,
     msgbuf = [], msgbuflen = 128, msgofs = 0, msgtogo = 0, inbuf = [], inbuflen = 128, intogo = 0,
     instate = NEED_PROTO, inmsglen = 0, eof = False, text_based = text, slow_network = slow,
     overread = False, k_rd = rd, k_snd = snds, k_pollin = pin, k_pollout = pout, k_out = []\<rparr>"

definition MsgChannel_new :: "libs \<Rightarrow> bool \<Rightarrow> bool \<Rightarrow> rd_res list \<Rightarrow> snd_res list \<Rightarrow> poll_res list \<Rightarrow>
    poll_res list \<Rightarrow> chan" where
  "MsgChannel_new L text slow rd snds pin pout =
     (let c = chan_init text slow rd snds pin pout
      in if text then c\<lparr>instate := NEED_LEN, protocol := uint PROTOCOL_VERSION\<rparr>
         else (case flush_writebuf (set_error L) True (writefull (le32 PROTOCOL_VERSION) c) of
                 (True, c1) \<Rightarrow> c1
               | (False, c1) \<Rightarrow> set_error L False (c1\<lparr>protocol := 0\<rparr>)))"

section \<open>The error state is final\<close>

lemma set_error_state [chan]: "instate (set_error L s c) = ERROR" "instate (set_error_inner s c) = ERROR"
  by (simp_all add: set_error_def set_error_inner_def)

lemma get_msg_ERROR: "instate c = ERROR \<Longrightarrow> get_msg L timeout ea c = (None, c)"
  by (simp add: get_msg_def get_msg_with_def wait_for_msg_def)

lemma send_msg_ERROR: "instate c = ERROR \<Longrightarrow> send_msg L blocking bulk m c = Some (False, c)"
  by (simp add: send_msg_def)

section \<open>Frames\<close>

text \<open>The bytes of a message on the wire: its length, then its type and members.\<close>

definition body :: "libs \<Rightarrow> int \<Rightarrow> msg \<Rightarrow> bytes" where
  "body L p m = (case send_to_channel L False p m of None \<Rightarrow> [] | Some b \<Rightarrow> b)"

definition frame :: "libs \<Rightarrow> int \<Rightarrow> msg \<Rightarrow> bytes" where
  "frame L p m = be32 (of_nat (length (body L p m))) @ body L p m"

definition wire :: "libs \<Rightarrow> int \<Rightarrow> msg list \<Rightarrow> bytes" where
  "wire L p ms = concat (map (frame L p) ms)"

text \<open>A message that can be sent: well-formed, and its length fits the 32-bit header.\<close>

definition sendable :: "libs \<Rightarrow> int \<Rightarrow> msg \<Rightarrow> bool" where
  "sendable L p m \<longleftrightarrow> wf_msg m \<and> length (body L p m) < 2 ^ 32"

lemma wire_simps [simp]: "wire L p [] = []" "wire L p (m # ms) = frame L p m @ wire L p ms"
  by (simp_all add: wire_def)

lemma wf_msg_not_text: "wf_msg m \<Longrightarrow> \<not> is_TextMsg m"
  by (cases m) (simp_all add: is_TextMsg_def)

text \<open>The body of a sendable message is read as its normal form.\<close>

lemma fill_body:
  assumes "wf_msg m" and "compression_ok L" and "protocol c = p"
  obtains b g where "send_to_channel L False p m = Some (body L p m)" and "body L p m = put_u32 (msg_type m) @ b"
    and "fill_msg L se (msg_type m) = Some g"
    and "\<And>pre r. run_state g (at_input pre (b @ r) c) = (normal L p m, at_input (pre @ b) r c)"
proof -
  obtain b g where bg: "send_body L p m = Some b" "fill_msg L se (msg_type m) = Some g"
      "\<And>pre r. run_state g (at_input pre (b @ r) c) = (normal L p m, at_input (pre @ b) r c)"
    using fill_send [OF assms(1,2), of c se] assms(3) by auto
  moreover have "send_to_channel L False p m = Some (put_u32 (msg_type m) @ b)"
    using bg(1) wf_msg_not_text [OF assms(1)] by (simp add: send_to_channel_def)
  ultimately show ?thesis
    by (intro that [of b g]) (simp_all add: body_def)
qed

lemma msg_type_not_UNKNOWN: "msg_type m \<noteq> M_UNKNOWN"
  by (cases m) (simp_all add: M_UNKNOWN_def)

section \<open>Bounds of the input buffer\<close>

text \<open>
  The read position is within the received bytes, which are within the allocation. On a text
  connection a complete line is within the received bytes as well.
\<close>

definition in_bounds :: "chan \<Rightarrow> bool" where
  "in_bounds c \<longleftrightarrow> intogo c \<le> inofs c \<and> inofs c \<le> inbuflen c"

definition input_ok :: "chan \<Rightarrow> bool" where
  "input_ok c \<longleftrightarrow> in_bounds c \<and>
     (text_based c \<longrightarrow> instate c = HAS_MSG \<longrightarrow> intogo c + unat (inmsglen c) \<le> inofs c)"

lemma round128_ge: "x \<le> round128 x"
  by (simp add: round128_def)

section \<open>Reassembly of messages from arbitrary reads\<close>

definition avail :: "chan \<Rightarrow> bytes" where
  "avail c = drop (intogo c) (inbuf c)"

text \<open>
  The channel \<open>c\<close> has received and not yet delivered a prefix of the stream of \<open>ms\<close>, and
  \<open>rest\<close> is still to come. \<open>stream\<close> is the state before \<open>update_state\<close>,
  \<open>in_sync\<close> the state after it.
\<close>

definition stream :: "libs \<Rightarrow> int \<Rightarrow> chan \<Rightarrow> bytes \<Rightarrow> msg list \<Rightarrow> bool" where
  "stream L p c rest ms \<longleftrightarrow>
     \<not> text_based c \<and> protocol c = p \<and> in_bounds c \<and>
     (case instate c of
        NEED_LEN \<Rightarrow> avail c @ rest = wire L p ms
      | FILL_BUF \<Rightarrow> (\<exists>m ms'. ms = m # ms' \<and> inmsglen c = of_nat (length (body L p m)) \<and>
          avail c @ rest = body L p m @ wire L p ms')
      | HAS_MSG \<Rightarrow> (\<exists>m ms'. ms = m # ms' \<and> inmsglen c = of_nat (length (body L p m)) \<and>
          avail c @ rest = body L p m @ wire L p ms' \<and> length (body L p m) \<le> length (avail c))
      | _ \<Rightarrow> False)"

definition in_sync :: "libs \<Rightarrow> int \<Rightarrow> chan \<Rightarrow> bytes \<Rightarrow> msg list \<Rightarrow> bool" where
  "in_sync L p c rest ms \<longleftrightarrow> stream L p c rest ms \<and>
     (instate c = NEED_LEN \<longrightarrow> length (avail c) < 4) \<and>
     (instate c = FILL_BUF \<longrightarrow> length (avail c) < unat (inmsglen c))"

lemma update_fill_sync:
  assumes "stream L p c rest ms" and "instate c = FILL_BUF" and "\<forall>m\<in>set ms. sendable L p m"
  shows "in_sync L p (update_fill c) rest ms"
proof -
  from assms obtain m ms' where m: "ms = m # ms'" "inmsglen c = of_nat (length (body L p m))"
      "avail c @ rest = body L p m @ wire L p ms'"
    by (auto simp: stream_def)
  have len: "unat (inmsglen c) = length (body L p m)"
    using m assms(3) by (simp add: sendable_def unat_of_nat_u32)
  have "length (avail c) = inofs c - intogo c"
    by (simp add: avail_def)
  with assms m len show ?thesis
    by (auto simp: update_fill_def in_sync_def stream_def avail_def in_bounds_def)
qed

text \<open>Reading the header: with four bytes there, the next message's length is read.\<close>

lemma header_read:
  assumes "avail c @ rest = wire L p ms" and "4 \<le> length (avail c)" and "intogo c \<le> inofs c"
  obtains m ms' where "ms = m # ms'"
    and "run_state get_u32 c = (of_nat (length (body L p m)), c\<lparr>intogo := intogo c + 4\<rparr>)"
    and "drop 4 (avail c) @ rest = body L p m @ wire L p ms'"
proof (cases ms)
  case Nil
  with assms show ?thesis by (simp add: avail_def)
next
  case (Cons m ms')
  let ?h = "be32 (of_nat (length (body L p m)))"
  have split: "avail c @ rest = ?h @ body L p m @ wire L p ms'"
    using assms(1) Cons by (simp add: frame_def)
  have room: "intogo c + 4 \<le> inofs c"
    using assms(2,3) by (simp add: avail_def)
  have "length ?h \<le> length (avail c)"
    using assms(2) by simp
  note parts = prefix_split [OF split this]
  have d: "drop 4 (avail c) @ rest = body L p m @ wire L p ms'"
    using parts(2) by simp
  have "avail c = ?h @ drop 4 (avail c)"
    using parts(3) by simp
  then have "un_be32 (avail c) = of_nat (length (body L p m))"
    by (metis un_be32_be32)
  then have "run_state get_u32 c = (of_nat (length (body L p m)), c\<lparr>intogo := intogo c + 4\<rparr>)"
    using room by (simp add: get_u32_def avail_def)
  with Cons d show ?thesis
    by (intro that)
qed

lemma update_len_sync:
  assumes "stream L p c rest ms" and "instate c = NEED_LEN" and ok: "\<forall>m\<in>set ms. sendable L p m"
  shows "in_sync L p (update_len c) rest ms"
proof (cases "4 \<le> inofs c - intogo c")
  case False
  with assms show ?thesis
    by (auto simp: update_len_def in_sync_def stream_def avail_def)
next
  case True
  have s: "avail c @ rest = wire L p ms" "intogo c \<le> inofs c" "\<not> text_based c"
    using assms by (auto simp: stream_def in_bounds_def)
  obtain m ms' where m: "ms = m # ms'"
      "run_state get_u32 c = (of_nat (length (body L p m)), c\<lparr>intogo := intogo c + 4\<rparr>)"
      "drop 4 (avail c) @ rest = body L p m @ wire L p ms'"
    using header_read [OF s(1) _ s(2)] True by (auto simp: avail_def)
  have room: "intogo c + 4 \<le> inofs c" "inofs c \<le> inbuflen c"
    using True assms(1) by (auto simp: stream_def in_bounds_def)
  let ?c = "\<lambda>n. c\<lparr>intogo := intogo c + 4, inmsglen := of_nat (length (body L p m)), inbuflen := n, instate := FILL_BUF\<rparr>"
  have "stream L p (?c n) rest ms" if "inbuflen c \<le> n" for n
    using assms(1) m room s that by (auto simp: stream_def avail_def in_bounds_def add.commute)
  then have step: "in_sync L p (update_fill (?c n)) rest ms" if "inbuflen c \<le> n" for n
    using ok that by (intro update_fill_sync) auto
  show ?thesis
  proof (cases "inbuflen c - (intogo c + 4) < unat (of_nat (length (body L p m)) :: u32)")
    case grow: True
    then have "inbuflen c \<le> round128 (unat (of_nat (length (body L p m)) :: u32) + (intogo c + 4))"
      using round128_ge room by (meson le_trans less_diff_conv2 nat_less_le not_le)
    with step grow show ?thesis
      using True s(3) m(2) by (simp add: update_len_def Let_def)
  next
    case False
    with step [of "inbuflen c"] show ?thesis
      using True s(3) m(2) by (simp add: update_len_def Let_def)
  qed
qed

lemma update_state_sync:
  assumes "stream L p c rest ms" and ok: "\<forall>m\<in>set ms. sendable L p m"
  obtains c' where "update_state se c = (True, c')" and "in_sync L p c' rest ms"
proof -
  have "in_sync L p (snd (update_state se c)) rest ms \<and> fst (update_state se c)"
  proof (cases "instate c")
    case NEED_LEN
    then show ?thesis
      using update_len_sync [OF assms(1) _ ok] by (simp add: update_state_def)
  next
    case FILL_BUF
    then show ?thesis
      using update_fill_sync [OF assms(1) _ ok] by (simp add: update_state_def)
  next
    case HAS_MSG
    with assms(1) show ?thesis
      by (simp add: update_state_def in_sync_def)
  qed (use assms(1) in \<open>auto simp: stream_def\<close>)
  then show ?thesis
    using that by (metis prod.collapse)
qed

lemma chop_input_avail [chan]:
  "avail (chop_input c) = avail c" "intogo c \<le> inofs c \<Longrightarrow> intogo (chop_input c) \<le> inofs (chop_input c)"
  "instate (chop_input c) = instate c" "text_based (chop_input c) = text_based c"
  "protocol (chop_input c) = protocol c" "inmsglen (chop_input c) = inmsglen c"
  "eof (chop_input c) = eof c" "k_rd (chop_input c) = k_rd c"
  by (simp_all add: chop_input_def avail_def)

lemma chop_input_bounds: "in_bounds c \<Longrightarrow> in_bounds (chop_input c)"
  by (auto simp: chop_input_def in_bounds_def)

lemma stream_append:
  assumes "stream L p c (bs @ rest) ms" and "inofs c + length bs \<le> inbuflen c"
  shows "stream L p (c\<lparr>inbuf := inbuf c @ bs, eof := e, k_rd := k\<rparr>) rest ms"
  using assms unfolding stream_def avail_def in_bounds_def by (cases "instate c") auto

lemma stream_chop: "stream L p c rest ms \<Longrightarrow> stream L p (chop_input c) rest ms"
  unfolding stream_def by (simp add: chan chop_input_bounds cong: instate.case_cong)

text \<open>One \<open>read_a_bit\<close>: it takes at most the room in the buffer and leaves the rest to the kernel.\<close>

definition chunks_of :: "rd_res list \<Rightarrow> bytes list \<Rightarrow> bool" where
  "chunks_of rs bss \<longleftrightarrow> rs = map RData bss \<and> [] \<notin> set bss"

lemma read_loop_chunks:
  assumes "chunks_of rs bss" and "0 < n"
  obtains bs bss' where "read_loop n rs = (bs, False, False, map RData bss')" and "[] \<notin> set bss'"
    and "concat bss = bs @ concat bss'" and "bss \<noteq> [] \<Longrightarrow> bs \<noteq> []"
proof (cases bss)
  case Nil
  with assms show ?thesis
    by (intro that [of "[]" "[]"]) (simp_all add: chunks_of_def)
next
  case (Cons b bs)
  show ?thesis
  proof (cases "length b \<le> n")
    case True
    with assms Cons show ?thesis
      by (intro that [of b bs]) (auto simp: chunks_of_def)
  next
    case False
    with assms Cons show ?thesis
      by (intro that [of "take n b" "drop n b # bs"]) (auto simp: chunks_of_def append_assoc [symmetric])
  qed
qed

text \<open>A channel in step with its peer: what the kernel still holds is what is still to come.\<close>

definition conn :: "libs \<Rightarrow> int \<Rightarrow> chan \<Rightarrow> msg list \<Rightarrow> bool" where
  "conn L p c ms \<longleftrightarrow> \<not> eof c \<and> (\<exists>bss. chunks_of (k_rd c) bss \<and> in_sync L p c (concat bss) ms)"

definition to_come :: "chan \<Rightarrow> nat" where
  "to_come c = length (concat (map (\<lambda>r. case r of RData bs \<Rightarrow> bs | _ \<Rightarrow> []) (k_rd c)))"

lemma to_come_chunks [simp]: "(\<lambda>r. case r of RData bs \<Rightarrow> bs | _ \<Rightarrow> []) \<circ> RData = (\<lambda>bs. bs)"
  by (simp add: fun_eq_iff)

lemma update_fill_k_rd [simp]: "k_rd (update_fill c) = k_rd c" "eof (update_fill c) = eof c"
  by (simp_all add: update_fill_def)

lemma get_u32_k_rd [simp]: "k_rd (snd (run_state get_u32 c)) = k_rd c" "eof (snd (run_state get_u32 c)) = eof c"
  by (simp_all add: get_u32_def)

lemma update_len_k_rd [simp]: "k_rd (update_len c) = k_rd c" "eof (update_len c) = eof c"
  by (simp_all add: update_len_def Let_def get_u32_def)

lemma update_state_k_rd:
  assumes "instate c \<noteq> NEED_PROTO" and "update_state se c = (True, c')"
  shows "k_rd c' = k_rd c \<and> eof c' = eof c"
  using assms by (cases "instate c") (auto simp: update_state_def)

definition make_room :: "chan \<Rightarrow> chan" where
  "make_room c = (if inbuflen c - inofs c < 128 then c\<lparr>inbuflen := round128 (inbuflen c + 128)\<rparr> else c)"

lemma make_room:
  assumes "stream L p c rest ms"
  shows "stream L p (make_room c) rest ms" and "inofs (make_room c) + 128 \<le> inbuflen (make_room c)"
    and "k_rd (make_room c) = k_rd c" and "eof (make_room c) = eof c" and "instate (make_room c) = instate c"
proof -
  have "inofs c \<le> inbuflen c" "inbuflen c + 128 \<le> round128 (inbuflen c + 128)"
    using assms round128_ge by (simp_all add: stream_def in_bounds_def)
  with assms show "stream L p (make_room c) rest ms" and "inofs (make_room c) + 128 \<le> inbuflen (make_room c)"
    and "k_rd (make_room c) = k_rd c" and "eof (make_room c) = eof c" and "instate (make_room c) = instate c"
    by (auto simp: make_room_def stream_def in_bounds_def avail_def cong: instate.case_cong)
qed

lemma read_a_bit_conn:
  assumes "conn L p c ms" and ok: "\<forall>m\<in>set ms. sendable L p m"
  obtains c' where "read_a_bit se c = (True, c')" and "conn L p c' ms"
    and "to_come c' < to_come c \<or> (k_rd c = [] \<and> k_rd c' = [])"
proof -
  from assms(1) obtain bss where c: "\<not> eof c" "chunks_of (k_rd c) bss" "stream L p c (concat bss) ms"
    by (auto simp: conn_def in_sync_def)
  define c2 where "c2 = make_room (chop_input c)"
  note room = make_room [OF stream_chop [OF c(3)], folded c2_def]
  have k: "chunks_of (k_rd c2) bss" "\<not> eof c2"
    using room c by (simp_all add: chan)
  obtain bs bss' where r: "read_loop (inbuflen c2 - inofs c2) (k_rd c2) = (bs, False, False, map RData bss')"
      "[] \<notin> set bss'" "concat bss = bs @ concat bss'" "bss \<noteq> [] \<Longrightarrow> bs \<noteq> []"
    using read_loop_chunks [OF k(1), of "inbuflen c2 - inofs c2"] room(2) by auto
  have "length bs \<le> inbuflen c2 - inofs c2"
    using r(1) k(1) by (cases bss) (auto simp: chunks_of_def split: if_splits)
  then have "stream L p (c2\<lparr>inbuf := inbuf c2 @ bs, eof := False, k_rd := map RData bss'\<rparr>) (concat bss') ms"
    using room(1,2) r(3) by (intro stream_append) auto
  then obtain c' where u: "update_state se (c2\<lparr>inbuf := inbuf c2 @ bs, eof := False, k_rd := map RData bss'\<rparr>) = (True, c')"
      "in_sync L p c' (concat bss') ms"
    using update_state_sync [OF _ ok] by blast
  have "instate c2 \<noteq> NEED_PROTO"
    using room(1) by (auto simp: stream_def)
  then have k': "k_rd c' = map RData bss'" "\<not> eof c'"
    using update_state_k_rd [OF _ u(1)] by simp_all
  have "read_a_bit se c = (True, c')"
    using u(1) r(1) k(2) by (simp add: read_a_bit_def Let_def c2_def make_room_def)
  moreover have "conn L p c' ms"
    using u(2) k' r(2) by (auto simp: conn_def chunks_of_def)
  moreover have "to_come c' < to_come c \<or> (k_rd c = [] \<and> k_rd c' = [])"
    using k' c(2) r(3,4) r(1) k room(3) by (cases bss) (auto simp: to_come_def chunks_of_def chan)
  ultimately show ?thesis
    by (rule that)
qed

text \<open>A complete message is delivered, and the channel is in step with the rest.\<close>

lemma get_msg_conn:
  assumes "conn L p c (m # ms)" and "instate c = HAS_MSG"
    and ok: "\<forall>x\<in>set (m # ms). sendable L p x" and L: "compression_ok L"
  obtains c' where "get_msg L timeout ea c = (Some (normal L p m), c')" and "conn L p c' ms" and "k_rd c' = k_rd c"
proof -
  let ?b = "body L p m"
  obtain bss where c: "\<not> eof c" "chunks_of (k_rd c) bss" "stream L p c (concat bss) (m # ms)"
    using assms(1) by (auto simp: conn_def in_sync_def)
  have s: "\<not> text_based c" "protocol c = p" "in_bounds c" "inmsglen c = of_nat (length ?b)"
      "avail c @ concat bss = ?b @ wire L p ms" "length ?b \<le> length (avail c)"
    using c(3) assms(2) by (auto simp: stream_def)
  define pre where "pre = take (intogo c) (inbuf c)"
  define r where "r = drop (length ?b) (avail c)"
  have split: "avail c = ?b @ r" "r @ concat bss = wire L p ms"
    using prefix_split [OF s(5,6)] by (simp_all add: r_def)
  have whole: "inbuf c = pre @ ?b @ r" "intogo c = length pre"
    using s(3) split(1) by (simp_all add: pre_def avail_def in_bounds_def flip: split(1))
  note at = at_input_intro [OF whole]
  have wf: "wf_msg m" "length ?b < 2 ^ 32"
    using ok by (auto simp: sendable_def)
  obtain b g where bg: "?b = put_u32 (msg_type m) @ b" "fill_msg L (set_error L) (msg_type m) = Some g"
      "\<And>pre r. run_state g (at_input pre (b @ r) c) = (normal L p m, at_input (pre @ b) r c)"
    using fill_body [OF wf(1) L s(2)] by metis
  let ?c = "at_input (pre @ ?b) r c"
  have "run_state get_u32 c = (msg_type m, at_input (pre @ put_u32 (msg_type m)) (b @ r) c)"
    by (subst at) (simp add: bg(1) get_u32_put)
  moreover have "stream L p (?c\<lparr>instate := NEED_LEN\<rparr>) (concat bss) ms"
    using s split whole by (simp add: stream_def avail_def in_bounds_def at_input_def)
  then obtain c' where u: "update_state (set_error L) (?c\<lparr>instate := NEED_LEN\<rparr>) = (True, c')" "in_sync L p c' (concat bss) ms"
    using update_state_sync ok by (metis list.set_intros(2))
  moreover have "int (intogo ?c) - int (intogo c) = uint (inmsglen ?c)"
    using s(4) wf(2) whole by (simp add: uint_nat unat_of_nat_u32)
  ultimately have "get_msg L timeout ea c = (Some (normal L p m), c')"
    using assms(2) c(1) s(1) bg(2) bg(3) msg_type_not_UNKNOWN [of m]
    by (simp add: get_msg_def get_msg_with_def wait_for_msg_def has_msg_def at_eof_def bg(1))
  moreover have "k_rd c' = k_rd c \<and> eof c' = eof c"
    using update_state_k_rd [OF _ u(1)] by simp
  ultimately show ?thesis
    using that u(2) c by (auto simp: conn_def)
qed

text \<open>
  \<open>n\<close> calls of \<open>get_msg\<close> without waiting, as the servers' main loops make them, and
  the messages they return.
\<close>

primrec poll_msgs :: "libs \<Rightarrow> nat \<Rightarrow> chan \<Rightarrow> msg list \<times> chan" where
  "poll_msgs L 0 c = ([], c)"
| "poll_msgs L (Suc n) c =
     (case get_msg L 0 True c of
        (None, c1) \<Rightarrow> poll_msgs L n c1
      | (Some m, c1) \<Rightarrow> (case poll_msgs L n c1 of (ms, c2) \<Rightarrow> (m # ms, c2)))"

lemma conn_drained:
  assumes "conn L p c (m # ms)" and "k_rd c = []" and ok: "\<forall>x\<in>set (m # ms). sendable L p x"
  shows "instate c = HAS_MSG"
proof -
  have "in_sync L p c [] (m # ms)" "unat (of_nat (length (body L p m)) :: u32) = length (body L p m)"
    using assms by (auto simp: conn_def chunks_of_def sendable_def unat_of_nat_u32)
  then show ?thesis
    by (cases "instate c") (auto simp: in_sync_def stream_def frame_def)
qed

lemma get_msg_step:
  assumes "conn L p c ms" and ok: "\<forall>x\<in>set ms. sendable L p x" and L: "compression_ok L"
  obtains (msg) m ms' c' where "ms = m # ms'" and "get_msg L 0 True c = (Some (normal L p m), c')"
      and "conn L p c' ms'" and "to_come c' \<le> to_come c"
    | (none) c' where "get_msg L 0 True c = (None, c')" and "conn L p c' ms"
      and "to_come c' < to_come c \<or> (ms = [] \<and> k_rd c' = [])"
proof -
  have has: "instate c' = HAS_MSG \<Longrightarrow> conn L p c' ms \<Longrightarrow> ms \<noteq> []" for c'
    by (auto simp: conn_def in_sync_def stream_def)
  show ?thesis
  proof (cases "instate c = HAS_MSG")
    case True
    then obtain m ms' where m: "ms = m # ms'"
      using has assms(1) by (cases ms) auto
    obtain c' where c': "get_msg L 0 True c = (Some (normal L p m), c')" "conn L p c' ms'" "k_rd c' = k_rd c"
      using get_msg_conn [OF assms(1) [unfolded m] True ok [unfolded m] L] by blast
    from c'(3) have "to_come c' \<le> to_come c"
      unfolding to_come_def by (simp only: order_refl)
    then show ?thesis
      by (rule msg [OF m c'(1,2)])
  next
    case False
    obtain c' where r: "read_a_bit (set_error L) c = (True, c')" "conn L p c' ms"
        "to_come c' < to_come c \<or> (k_rd c = [] \<and> k_rd c' = [])"
      using read_a_bit_conn [OF assms(1) ok] by blast
    have e: "instate c \<noteq> ERROR" "\<not> eof c" "\<not> eof c'"
      using assms(1) r(2) by (auto simp: conn_def in_sync_def stream_def)
    show ?thesis
    proof (cases "instate c' = HAS_MSG")
      case has': True
      then obtain m ms' where m: "ms = m # ms'"
        using has r(2) by (cases ms) auto
      obtain c'' where "get_msg L 0 True c' = (Some (normal L p m), c'')" "conn L p c'' ms'" "k_rd c'' = k_rd c'"
        using get_msg_conn [OF r(2) [unfolded m] has' ok [unfolded m] L] by blast
      moreover have "get_msg L 0 True c = get_msg L 0 True c'"
        using r(1) False e has' by (simp add: get_msg_def get_msg_with_def wait_for_msg_def has_msg_def)
      moreover from calculation(3) have "to_come c'' = to_come c'"
        by (simp only: to_come_def)
      ultimately show ?thesis
        using m r(3) by (intro msg) (auto simp: to_come_def)
    next
      case none': False
      have "get_msg L 0 True c = (None, c')"
        using r(1) False e none' by (simp add: get_msg_def get_msg_with_def wait_for_msg_def has_msg_def)
      moreover have "ms = []" if "k_rd c = []"
        using conn_drained [of L p c] that assms(1) ok False by (cases ms) auto
      ultimately show ?thesis
        using r(2,3) by (intro none) auto
    qed
  qed
qed

lemma poll_msgs_conn:
  assumes "conn L p c ms" and "\<forall>m\<in>set ms. sendable L p m" and "compression_ok L" and "length ms + to_come c \<le> n"
  shows "fst (poll_msgs L n c) = map (normal L p) ms"
  using assms
proof (induction n arbitrary: c ms)
  case (Suc n)
  from get_msg_step [OF Suc.prems(1-3)] show ?case
  proof cases
    case (1 m ms' c')
    then show ?thesis
      using Suc.IH [OF 1(3) _ Suc.prems(3)] Suc.prems(2,4) by (simp split: prod.splits) force
  next
    case (2 c')
    then have "length ms + to_come c' \<le> n"
      using Suc.prems(4) by (auto simp: to_come_def)
    with 2 Suc.IH [OF 2(2) Suc.prems(2,3)] show ?thesis
      by simp
  qed
qed simp

text \<open>A channel that has just finished the handshake: no input yet.\<close>

definition fresh :: "int \<Rightarrow> chan \<Rightarrow> bool" where
  "fresh p c \<longleftrightarrow> instate c = NEED_LEN \<and> protocol c = p \<and> \<not> text_based c \<and> \<not> eof c \<and> inofs c = intogo c \<and>
     in_bounds c"

lemma fresh_conn:
  assumes "fresh p c" and "k_rd c = map RData bss" and "[] \<notin> set bss" and "concat bss = wire L p ms"
  shows "conn L p c ms"
  using assms by (auto simp: fresh_def conn_def chunks_of_def in_sync_def stream_def avail_def)

text \<open>
  C36. Messages are reassembled whatever the segmentation: if the stream of any list of sendable
  messages arrives in any non-empty pieces, calls of \<open>get_msg\<close> deliver exactly these
  messages (as the receiver knows them at the agreed protocol version), in order, each once, and
  enough calls deliver all of them.
\<close>

theorem reassembly:
  assumes "fresh p c" and "k_rd c = map RData bss" and "[] \<notin> set bss" and "concat bss = wire L p ms"
    and "\<forall>m\<in>set ms. sendable L p m" and "compression_ok L" and "length ms + length (wire L p ms) \<le> n"
  shows "fst (poll_msgs L n c) = map (normal L p) ms"
  using poll_msgs_conn [OF fresh_conn [OF assms(1-4)] assms(5,6)] assms(2,4,7)
  by (simp add: to_come_def)

text \<open>Libraries for the concrete examples: compression that only adds a mark.\<close>

definition demo_chan :: "int \<Rightarrow> bytes list \<Rightarrow> chan" where
  "demo_chan p bss = (chan_init False False (map RData bss) [] [] [])\<lparr>instate := NEED_LEN, protocol := p\<rparr>"

lemma demo_chan_fresh: "fresh p (demo_chan p bss)" "k_rd (demo_chan p bss) = map RData bss"
  by (simp_all add: fresh_def demo_chan_def chan_init_def in_bounds_def)

theorem reassembly_witness:
  "fst (poll_msgs demo_libs 40
     (demo_chan 45 [be32 4 @ be32 66 @ [NUL], [NUL], [NUL, CHR 0x0A] @ be32 70 @ [NUL, NUL], [NUL, CHR 0x02, CHR ''c'', NUL]]))
   = [PingMsg, UseNativeEnvMsg ''c'']"
proof -
  let ?bss = "[be32 4 @ be32 66 @ [NUL], [NUL], [NUL, CHR 0x0A] @ be32 70 @ [NUL, NUL], [NUL, CHR 0x02, CHR ''c'', NUL]]"
  let ?ms = "[PingMsg, UseNativeEnvMsg ''c'']"
  have w: "concat ?bss = wire demo_libs 45 ?ms"
    by (simp add: frame_def body_def send_to_channel_def send_body_def is_TextMsg_def be32_def put_u32_def put_string_def UseNativeEnvMsg_send_def)
      (simp add: char_of_def bit_Suc_0_iff)
  have s: "\<forall>m\<in>set ?ms. sendable demo_libs 45 m"
    by (simp add: sendable_def body_def send_to_channel_def send_body_def is_TextMsg_def put_string_def UseNativeEnvMsg_send_def wf_str_def)
  have n: "length ?ms + length (wire demo_libs 45 ?ms) \<le> 40"
    unfolding w [symmetric] by simp
  show ?thesis
    using reassembly [OF demo_chan_fresh(1) demo_chan_fresh(2) _ w s demo_libs_ok n] by simp
qed

end
