(* ===== verification/Bounds.thy ===== *)
theory Bounds
  imports Transport
begin

text \<open>
  What holds of a channel whatever its peer sends (\<open>services/comm.cpp\<close>): the read position
  stays within the received bytes and these within their allocation, and past the handshake
  receiving never writes to the socket.

  \<open>set_error\<close> is a parameter of the input operations. The locale \<open>guarded\<close> states what they
  need from it; it is interpreted on both levels of \<open>set_error\<close>.
\<close>

section \<open>The invariant\<close>

text \<open>
  \<open>safe tb None\<close> is the buffer invariant, \<open>tb\<close> telling text connections from binary
  ones; \<open>safe tb (Some b)\<close> is that of a channel past the handshake that has sent \<open>b\<close>.
\<close>

definition safe :: "bool \<Rightarrow> bytes option \<Rightarrow> chan \<Rightarrow> bool" where
  "safe tb out c \<longleftrightarrow> text_based c = tb \<and> input_ok c \<and>
     (case out of None \<Rightarrow> True | Some b \<Rightarrow> instate c \<noteq> NEED_PROTO \<and> k_out c = b)"

definition keeps :: "(chan \<Rightarrow> bool) \<Rightarrow> (chan, 'a) state \<Rightarrow> bool" where
  "keeps P g \<longleftrightarrow> (\<forall>c. P c \<longrightarrow> P (snd (run_state g c)))"

named_theorems keeps_rules \<open>readers that keep an invariant\<close>

lemma keeps_return [keeps_rules]: "keeps P (State_Monad.return x)"
  by (simp add: keeps_def)

lemma keeps_bind [keeps_rules]:
  assumes "keeps P g" and "\<And>x. keeps P (h x)"
  shows "keeps P (State_Monad.bind g h)"
  using assms by (auto simp: keeps_def split: prod.splits)

lemma keeps_if [keeps_rules]: "keeps P g \<Longrightarrow> keeps P h \<Longrightarrow> keeps P (if b then g else h)"
  by simp

lemma keeps_is_protocol [keeps_rules]: "keeps P (IS_PROTOCOL_VERSION v)"
  by (simp add: keeps_def IS_PROTOCOL_VERSION_def)

lemma keeps_at_end [keeps_rules]: "keeps P (State (\<lambda>c. (f c, c)))"
  by (simp add: keeps_def)

lemma keeps_if_proto [keeps_rules]: "keeps P g \<Longrightarrow> keeps P (if_proto v g d)"
  unfolding if_proto_def by (intro keeps_rules)

lemma keeps_pair [keeps_rules]: "keeps P g \<Longrightarrow> keeps P h \<Longrightarrow> keeps P (get_pair g h)"
  unfolding get_pair_def by (intro keeps_rules)

lemma keeps_many [keeps_rules]: "keeps P g \<Longrightarrow> keeps P (get_many g n)"
  by (induction n) (simp_all add: keeps_rules)

lemma keeps_many_until_end [keeps_rules]: "keeps P g \<Longrightarrow> keeps P (get_many_until_end g n)"
  by (induction n) (simp_all add: keeps_rules)

section \<open>The output side leaves the input alone\<close>

lemma read_loop_count: "read_loop n rs = (bs, e, err, rs') \<Longrightarrow> length bs \<le> n"
  by (induction n rs rule: read_loop.induct) (auto split: if_splits)

lemma writefull_input [chan]:
  "inbuf (writefull b c) = inbuf c" "intogo (writefull b c) = intogo c" "instate (writefull b c) = instate c"
  "inbuflen (writefull b c) = inbuflen c" "text_based (writefull b c) = text_based c" "inmsglen (writefull b c) = inmsglen c"
  "protocol (writefull b c) = protocol c" "k_out (writefull b c) = k_out c"
  by (simp_all add: writefull_def Let_def)

lemma chop_output_input [chan]:
  "inbuf (chop_output c) = inbuf c" "intogo (chop_output c) = intogo c" "instate (chop_output c) = instate c"
  "inbuflen (chop_output c) = inbuflen c" "text_based (chop_output c) = text_based c" "inmsglen (chop_output c) = inmsglen c"
  "protocol (chop_output c) = protocol c" "k_out (chop_output c) = k_out c"
  by (simp_all add: chop_output_def)

lemma flush_ok_input:
  assumes "flush_writebuf se blk c = (True, c')"
  shows "inbuf c' = inbuf c" "intogo c' = intogo c" "instate c' = instate c" "inbuflen c' = inbuflen c"
    "text_based c' = text_based c" "inmsglen c' = inmsglen c" "protocol c' = protocol c"
  using assms by (auto simp: flush_writebuf_def Let_def chan split: prod.splits if_splits)

section \<open>Readers\<close>

text \<open>Binary connections.\<close>

locale guarded_binary =
  fixes out :: "bytes option" and se :: set_error_fn
  assumes se_safe: "safe False out c \<Longrightarrow> safe False out (se silent c)"
begin

lemma advance:
  assumes "safe False out c" and "intogo c + n \<le> inofs c"
  shows "safe False out (c\<lparr>intogo := intogo c + n\<rparr>)" and "safe False out (c\<lparr>intogo := intogo c + n, overread := b\<rparr>)"
  using assms by (auto simp: safe_def input_ok_def in_bounds_def split: option.splits)

lemma safe_bounds: "safe False out c \<Longrightarrow> intogo c \<le> inofs c"
  by (simp add: safe_def input_ok_def in_bounds_def)

lemma get_u32 [keeps_rules]: "keeps (safe False out) get_u32"
  unfolding keeps_def get_u32_def using advance by auto

lemma get_string [keeps_rules]: "keeps (safe False out) get_string"
  unfolding get_string_def
  by (intro keeps_rules) (auto simp: keeps_def Let_def intro!: advance dest: safe_bounds)

lemma readcompressed [keeps_rules]: "keeps (safe False out) (readcompressed L se)"
  unfolding readcompressed_def
  by (intro keeps_rules)
    (auto simp: keeps_def Let_def se_safe split: prod.splits intro!: advance)

lemma read_line [keeps_rules]: "keeps (safe False out) read_line"
  by (auto simp: keeps_def read_line_def safe_def)

lemma fill_msg_keeps:
  assumes "fill_msg L se t = Some g"
  shows "keeps (safe False out) g"
  using assms
  by (auto simp: fill_msg_def Let_def GetCSMsg_fill_def UseCSMsg_fill_def NoCSMsg_fill_def
      CompileFileMsg_fill_def FileChunkMsg_fill_def CompileResultMsg_fill_def JobBeginMsg_fill_def
      JobDoneMsg_fill_def LoginMsg_fill_def StatsMsg_fill_def GetNativeEnvMsg_fill_def
      UseNativeEnvMsg_fill_def MonGetCSMsg_fill_def MonJobBeginMsg_fill_def MonStatsMsg_fill_def
      JobLocalBeginMsg_fill_def JobLocalDoneMsg_fill_def MonLocalJobBeginMsg_fill_def
      EnvTransferMsg_fill_def StatusTextMsg_fill_def ConfCSMsg_fill_def VerifyEnvMsg_fill_def
      VerifyEnvResultMsg_fill_def BlacklistHostEnvMsg_fill_def read_environments_def get_environment_def
      get_string_list_def
      split: if_split_asm intro!: keeps_rules)

end

text \<open>Connections of either kind.\<close>

locale guarded =
  fixes tb :: bool and out :: "bytes option" and se :: set_error_fn
  assumes se_safe: "safe tb out c \<Longrightarrow> safe tb out (se silent c)"
begin

lemma binary: "\<not> tb \<Longrightarrow> guarded_binary out se"
  using se_safe by unfold_locales simp

lemma safe_bounds: "safe tb out c \<Longrightarrow> intogo c \<le> inofs c"
  by (simp add: safe_def input_ok_def in_bounds_def)

text \<open>The line of a text connection: \<open>read_line\<close> stays within the received bytes.\<close>

lemma read_line_text:
  assumes "safe tb out c" and "tb" and "instate c = HAS_MSG"
  shows "safe tb out ((snd (run_state read_line c))\<lparr>instate := NEED_LEN\<rparr>)"
proof -
  have n: "intogo c + unat (inmsglen c) \<le> inofs c"
    using assms by (simp add: safe_def input_ok_def)
  have "length (takeWhile below_blank (drop (unat (inmsglen c)) (drop (intogo c) (inbuf c))))
      \<le> inofs c - intogo c - unat (inmsglen c)"
    using length_takeWhile_le by (metis length_drop)
  with assms n show ?thesis
    by (auto simp: safe_def input_ok_def in_bounds_def read_line_def Let_def split: option.splits)
qed

section \<open>Framing\<close>

lemma update_fill_safe: "safe tb out c \<Longrightarrow> safe tb out (update_fill c)"
  by (auto simp: safe_def input_ok_def in_bounds_def update_fill_def split: option.splits)

lemma update_len_safe:
  assumes "safe tb out c" and "instate c = NEED_LEN"
  shows "safe tb out (update_len c)"
proof (cases tb)
  case True
  let ?r = "drop (intogo c) (inbuf c)"
  let ?n = "length (takeWhile (\<lambda>b. \<not> below_blank b) ?r)"
  have "?n \<le> length ?r" "unat (of_nat ?n :: u32) \<le> ?n"
    by (simp_all only: length_takeWhile_le unat_of_nat take_bit_nat_eq mod_less_eq_dividend)
  then have "intogo c + unat (of_nat ?n :: u32) \<le> inofs c"
    using safe_bounds [OF assms(1)] by simp
  with assms True show ?thesis
    by (auto simp: update_len_def Let_def safe_def input_ok_def in_bounds_def split: option.splits)
next
  case False
  then have t: "\<not> text_based c"
    using assms(1) by (simp add: safe_def)
  show ?thesis
  proof (cases "inofs c - intogo c \<ge> 4")
    case True
    obtain len c1 where g: "run_state get_u32 c = (len, c1)"
      by fastforce
    have s: "safe tb out c1"
      using guarded_binary.get_u32 [OF binary [OF False]] assms(1) g False by (auto simp: keeps_def dest: spec [of _ c])
    have "safe tb out (c1\<lparr>inmsglen := len, inbuflen := round128 (unat len + intogo c1), instate := FILL_BUF\<rparr>)"
      if "inbuflen c1 - intogo c1 < unat len"
    proof -
      have "inbuflen c1 \<le> round128 (unat len + intogo c1)"
        using that round128_ge [of "unat len + intogo c1"] by linarith
      with s False show ?thesis
        by (auto simp: safe_def input_ok_def in_bounds_def split: option.splits)
    qed
    moreover have "safe tb out (c1\<lparr>inmsglen := len, instate := FILL_BUF\<rparr>)"
      using s False by (auto simp: safe_def input_ok_def in_bounds_def split: option.splits)
    ultimately show ?thesis
      using True t g by (auto simp: update_len_def Let_def intro!: update_fill_safe)
  next
    case False
    with t assms(1) show ?thesis
      by (simp add: update_len_def)
  qed
qed

section \<open>Handshake and reading\<close>

lemma flush_safe:
  assumes "safe tb None c" and "out = None"
  shows "safe tb None (snd (flush_writebuf se blk c))"
  using assms se_safe
  by (auto simp: flush_writebuf_def Let_def safe_def input_ok_def in_bounds_def chan split: prod.splits)

lemma proto_loop_safe:
  assumes "safe tb None c" and "instate c = NEED_PROTO" and out: "out = None" and "intogo c + 4 * n \<le> inofs c"
  shows "safe tb None (snd (proto_loop se n c))"
  using assms(1,2,4)
proof (induction n arbitrary: c)
  case (Suc n)
  let ?r = "un_le32 (drop (intogo c) (inbuf c))"
  have moved: "safe tb None (c\<lparr>intogo := intogo c + 4, protocol := p\<rparr>)" "safe tb None (c\<lparr>intogo := intogo c + 4\<rparr>)"
      "safe tb None (c\<lparr>intogo := intogo c + 4, protocol := p, instate := NEED_LEN\<rparr>)" for p
    using Suc.prems by (auto simp: safe_def input_ok_def in_bounds_def)
  note se' = se_safe [unfolded out]
  let ?w = "\<lambda>v. writefull (le32 v) (c\<lparr>intogo := intogo c + 4, protocol := 0, maximum_remote_protocol := uint ?r\<rparr>)"
  have w: "safe tb None (?w v)" for v
    using Suc.prems by (auto simp: safe_def input_ok_def in_bounds_def chan)
  have ok: "safe tb None (snd (proto_loop se n (c2\<lparr>protocol := p\<rparr>)))" if "flush_writebuf se True (?w v) = (True, c2)" for v c2 p
    using flush_ok_input [OF that] Suc.prems
    by (intro Suc.IH) (auto simp: safe_def input_ok_def in_bounds_def chan)
  have bad: "safe tb None (se False c2)" if "flush_writebuf se True (?w v) = (False, c2)" for v c2
    using flush_safe [OF w out, of True v] that by (auto intro: se')
  show ?case
    using Suc.prems moved ok bad se' by (auto simp: Let_def split: prod.splits bool.splits)
qed simp

lemma update_state_safe: "safe tb out c \<Longrightarrow> safe tb out (snd (update_state se c))"
proof (cases "instate c = NEED_PROTO")
  case True
  assume c: "safe tb out c"
  then have out: "out = None"
    using True by (cases out) (simp_all add: safe_def)
  then have "safe tb out (snd (proto_loop se ((inofs c - intogo c) div 4) c))"
    using c True proto_loop_safe [of c "(inofs c - intogo c) div 4"] safe_bounds [OF c] by simp
  then show ?thesis
    using True by (auto simp: update_state_def update_len_safe split: prod.splits bool.splits)
next
  case False
  assume "safe tb out c"
  with False show ?thesis
    by (cases "instate c") (simp_all add: update_state_def update_len_safe update_fill_safe)
qed

lemma received_safe:
  assumes "safe tb out c" and "inofs c + length bs \<le> inbuflen c"
  shows "safe tb out (c\<lparr>inbuf := inbuf c @ bs, eof := e, k_rd := k\<rparr>)"
  using assms by (auto simp: safe_def input_ok_def in_bounds_def split: option.splits)

lemma chop_room_safe:
  assumes "safe tb out c"
  shows "safe tb out (make_room (chop_input c))" and "inofs (make_room (chop_input c)) \<le> inbuflen (make_room (chop_input c))"
proof -
  have "safe tb out (chop_input c)"
    using assms chop_input_bounds [of c]
    by (auto simp: safe_def input_ok_def chop_input_def in_bounds_def split: option.splits)
  moreover have "inbuflen (chop_input c) \<le> round128 (inbuflen (chop_input c) + 128)"
    using round128_ge [of "inbuflen (chop_input c) + 128"] by simp
  ultimately show "safe tb out (make_room (chop_input c))" and "inofs (make_room (chop_input c)) \<le> inbuflen (make_room (chop_input c))"
    by (auto simp: safe_def input_ok_def in_bounds_def make_room_def split: option.splits)
qed

lemma read_a_bit_safe:
  assumes "safe tb out c"
  shows "safe tb out (snd (read_a_bit se c))"
proof -
  define c2 where "c2 = make_room (chop_input c)"
  note c2 = chop_room_safe [OF assms, folded c2_def]
  obtain bs e err rs where r: "(if eof c2 then ([], True, False, k_rd c2) else read_loop (inbuflen c2 - inofs c2) (k_rd c2))
      = (bs, e, err, rs)"
    by (metis prod_cases4)
  then have "length bs \<le> inbuflen c2 - inofs c2"
    by (auto split: if_splits dest: read_loop_count)
  then have "safe tb out (snd (update_state se (c2\<lparr>inbuf := inbuf c2 @ bs, eof := e, k_rd := rs\<rparr>)))"
    using c2 by (intro update_state_safe received_safe) auto
  moreover have "read_a_bit se c = (case update_state se (c2\<lparr>inbuf := inbuf c2 @ bs, eof := e, k_rd := rs\<rparr>) of
      (ok, c3) \<Rightarrow> if err \<or> \<not> ok then (False, se (instate c3 = NEED_PROTO) c3) else (True, c3))"
    using r unfolding read_a_bit_def Let_def c2_def make_room_def by simp
  ultimately show ?thesis
    using se_safe by (auto split: prod.splits)
qed

lemma polled_safe: "safe tb out (c\<lparr>k_pollin := ps\<rparr>) = safe tb out c"
  by (simp add: safe_def input_ok_def in_bounds_def split: option.splits)

lemma wait_msg_loop_safe: "safe tb out c \<Longrightarrow> safe tb out (snd (wait_msg_loop se ps c))"
proof (induction ps arbitrary: c)
  case (Cons p ps)
  then have "safe tb out (snd (read_a_bit se (c\<lparr>k_pollin := ps\<rparr>)))"
    by (intro read_a_bit_safe) (simp add: polled_safe)
  with Cons show ?case
    using se_safe by (auto simp: Let_def polled_safe split: poll_res.splits prod.splits bool.splits)
qed simp

lemma wait_for_msg_safe: "safe tb out c \<Longrightarrow> safe tb out (snd (wait_for_msg se timeout c))"
  using read_a_bit_safe [of c] se_safe wait_msg_loop_safe
  by (auto simp: wait_for_msg_def split: prod.splits bool.splits)

lemma get_msg_with_safe:
  assumes "safe tb out c"
  shows "safe tb out (snd (get_msg_with L se timeout ea c))"
proof -
  obtain b c1 where w: "wait_for_msg se timeout c = (b, c1)"
    by fastforce
  then have c1: "safe tb out c1"
    using wait_for_msg_safe [OF assms, of timeout] by simp
  show ?thesis
  proof (cases "b \<and> \<not> at_eof c1 \<and> has_msg c1")
    case False
    with w c1 show ?thesis
      using se_safe by (auto simp: get_msg_with_def split: bool.splits)
  next
    case True
    then have H: "instate c1 = HAS_MSG"
      by (auto simp: at_eof_def has_msg_def)
    show ?thesis
    proof (cases tb)
      case tx: True
      then have "text_based c1"
        using c1 by (simp add: safe_def)
      moreover from this have "text_based (snd (run_state read_line c1))"
        by (simp add: read_line_def Let_def)
      ultimately show ?thesis
        using w True read_line_text [OF c1 tx H]
        by (auto simp: get_msg_with_def M_TEXT_def M_UNKNOWN_def fill_msg_def
            intro!: update_state_safe split: prod.splits)
    next
      case binary: False
      obtain t c2 where g: "run_state get_u32 c1 = (t, c2)"
        by fastforce
      have bc: "\<not> text_based c1"
        using c1 binary by (simp add: safe_def)
      have c2: "safe tb out c2"
        using guarded_binary.get_u32 [OF guarded.binary, OF guarded_axioms binary] c1 binary g
        by (auto simp: keeps_def dest: spec [of _ c1])
      show ?thesis
      proof (cases "t = M_UNKNOWN \<or> fill_msg L se t = None")
        case True
        then show ?thesis
          using w \<open>b \<and> \<not> at_eof c1 \<and> has_msg c1\<close> bc g c2 se_safe
          by (auto simp: get_msg_with_def)
      next
        case False
        then obtain fill where f: "t \<noteq> M_UNKNOWN" "fill_msg L se t = Some fill"
          by auto
        obtain m c3 where m: "run_state fill c2 = (m, c3)"
          by fastforce
        have c3: "safe tb out c3"
          using guarded_binary.fill_msg_keeps [OF guarded.binary f(2), OF guarded_axioms binary] c2 binary m
          by (auto simp: keeps_def dest: spec [of _ c2])
        then have "safe tb out (c3\<lparr>instate := NEED_LEN\<rparr>)"
          by (auto simp: safe_def input_ok_def in_bounds_def split: option.splits)
        then show ?thesis
          using w \<open>b \<and> \<not> at_eof c1 \<and> has_msg c1\<close> bc g f m c3 se_safe
          by (auto simp: get_msg_with_def intro: update_state_safe)
      qed
    qed
  qed
qed

lemma wait_proto_loop_safe: "safe tb out c \<Longrightarrow> safe tb out (snd (wait_proto_loop se ps c))"
proof (induction ps arbitrary: c)
  case (Cons p ps)
  then have "safe tb out (snd (read_a_bit se (c\<lparr>k_pollin := ps\<rparr>)))"
    by (intro read_a_bit_safe) (simp add: polled_safe)
  with Cons show ?case
    using se_safe by (auto simp: Let_def polled_safe split: poll_res.splits prod.splits bool.splits)
qed (simp add: se_safe)

end

section \<open>Both levels of \<open>set_error\<close>\<close>

lemma error_safe: "safe tb out c \<Longrightarrow> safe tb out (c\<lparr>instate := ERROR, eof := True\<rparr>)"
  by (auto simp: safe_def input_ok_def in_bounds_def split: option.splits)

interpretation inner: guarded tb out set_error_inner for tb out
  by unfold_locales (simp add: set_error_inner_def error_safe)

interpretation outer: guarded tb out "set_error L" for tb out L
  by unfold_locales (simp add: set_error_def error_safe inner.get_msg_with_safe)

lemma get_msg_safe: "safe tb out c \<Longrightarrow> safe tb out (snd (get_msg L timeout ea c))"
  by (simp add: get_msg_def outer.get_msg_with_safe)

text \<open>
  C19. Whatever bytes a peer sends and however the reads are cut, answered or failing: receiving a
  message keeps the read position within the received bytes and these within the allocated buffer, so that the
  buffer is never overrun by what arrives, and past the handshake it never writes to the socket. This is about where
  the channel stands between two reads of a message, not about each read: that of a string may run past the
  received bytes (\<^const>\<open>overread\<close>).
\<close>

theorem get_msg_in_bounds:
  assumes "input_ok c"
  shows "input_ok (snd (get_msg L timeout ea c)) \<and>
     (instate c \<noteq> NEED_PROTO \<longrightarrow> k_out (snd (get_msg L timeout ea c)) = k_out c)"
  using assms get_msg_safe [of "text_based c" None c L timeout ea]
    get_msg_safe [of "text_based c" "Some (k_out c)" c L timeout ea]
  by (simp add: safe_def)

theorem get_msg_in_bounds_witness:
  "let c = demo_chan 45 [be32 0xFFFFFFFF @ be32 74 @ be32 3, []]
   in input_ok (snd (get_msg demo_libs 1 False c)) \<and> k_out (snd (get_msg demo_libs 1 False c)) = []"
  using get_msg_in_bounds [of "demo_chan 45 [be32 0xFFFFFFFF @ be32 74 @ be32 3, []]" demo_libs 1 False]
  by (simp add: demo_chan_def chan_init_def input_ok_def in_bounds_def)

end
