(* ===== verification/CompileServer.thy ===== *)
theory CompileServer
  imports Transport "HOL-Library.Signed_Division"
begin

unbundle bit_operations_syntax

text \<open>
  The scheduler's data (\<open>scheduler/job.*\<close>, \<open>scheduler/jobstat.*\<close>,
  \<open>scheduler/compileserver.*\<close>): job statistics, jobs, and the compile servers with the tests
  that decide where a job may run.

  A \<open>CompileServer *\<close> is a number, its address; a \<open>Job *\<close> is the id of the job. Member
  functions get the object, the address \<open>this\<close> where the code compares addresses, and, where they
  follow \<open>job->submitter()\<close>, the submitter's object. Getters and setters are the selectors and updates of
  the records. The \<open>int\<close> members hold their values as integers; \<open>unsigned\<close> members are words.
\<close>

section \<open>Job statistics\<close>

record job_stat =
  outputSize :: u64
  compileTimeReal :: u64
  compileTimeUser :: u64
  compileTimeSys :: u64
  js_jobId :: u32

definition JobStat_new :: job_stat where
  "JobStat_new = \<lparr>outputSize = 0, compileTimeReal = 0, compileTimeUser = 0, compileTimeSys = 0, js_jobId = 0\<rparr>"

definition stat_add :: "job_stat \<Rightarrow> job_stat \<Rightarrow> job_stat" where
  "stat_add l r = \<lparr>outputSize = outputSize l + outputSize r, compileTimeReal = compileTimeReal l + compileTimeReal r,
     compileTimeUser = compileTimeUser l + compileTimeUser r, compileTimeSys = compileTimeSys l + compileTimeSys r,
     js_jobId = 0\<rparr>"

definition stat_sub :: "job_stat \<Rightarrow> job_stat \<Rightarrow> job_stat" where
  "stat_sub l r = \<lparr>outputSize = outputSize l - outputSize r, compileTimeReal = compileTimeReal l - compileTimeReal r,
     compileTimeUser = compileTimeUser l - compileTimeUser r, compileTimeSys = compileTimeSys l - compileTimeSys r,
     js_jobId = 0\<rparr>"

text \<open>The divisor is an \<open>int\<close>, converted to the unsigned type of the members.\<close>

definition stat_div :: "job_stat \<Rightarrow> int \<Rightarrow> job_stat" where
  "stat_div l d = \<lparr>outputSize = outputSize l div of_int d, compileTimeReal = compileTimeReal l div of_int d,
     compileTimeUser = compileTimeUser l div of_int d, compileTimeSys = compileTimeSys l div of_int d, js_jobId = 0\<rparr>"

section \<open>Jobs\<close>

type_synonym cs_ptr = nat
type_synonym job_ptr = u32

datatype job_state = PENDING | WAITINGFORCS | COMPILING

record job =
  j_id :: u32
  j_localClientId :: u32
  j_state :: job_state
  j_server :: "cs_ptr option"
  j_submitter :: cs_ptr
  j_environments :: environments
  j_startTime :: int
  j_startOnScheduler :: int
  j_doneTime :: int
  j_targetPlatform :: string
  j_fileName :: string
  j_masterJobFor :: "job_ptr list"
  j_argFlags :: u32
  j_language :: string
  j_preferredHost :: string
  j_minimalHostVersion :: int
  j_requiredFeatures :: u32
  j_niceness :: int

text \<open>The constructor; it also counts the job at its submitter (see \<open>submittedJobsIncrement\<close>).\<close>

definition Job_new :: "u32 \<Rightarrow> cs_ptr \<Rightarrow> job" where
  "Job_new i subm = \<lparr>j_id = i, j_localClientId = 0, j_state = PENDING, j_server = None, j_submitter = subm,
     j_environments = [], j_startTime = 0, j_startOnScheduler = 0, j_doneTime = 0, j_targetPlatform = '''',
     j_fileName = '''', j_masterJobFor = [], j_argFlags = 0, j_language = '''', j_preferredHost = '''',
     j_minimalHostVersion = 0, j_requiredFeatures = 0, j_niceness = 0\<rparr>"

section \<open>Compile servers\<close>

datatype cs_state = CONNECTED | LOGGEDIN

datatype cs_type = UNKNOWN | DAEMON | MONITOR | LINE

record local_job_info =
  lj_id :: int
  lj_fulljob :: bool

text \<open>
  \<open>cs_chan\<close>, \<open>cs_name\<close>, \<open>cs_fd\<close>, \<open>cs_last_talk\<close> are the members of the base class
  \<open>MsgChannel\<close>; \<open>cs_ip\<close> stands for the address that \<open>eq_ip\<close> compares. \<open>cs_blacklist\<close> is
  a map from server addresses whose \<open>operator[]\<close> gives an empty list where there is no entry.
\<close>

record compile_server =
  cs_chan :: chan
  cs_name :: string
  cs_ip :: string
  cs_fd :: int
  cs_last_talk :: int
  cs_remotePort :: u32
  cs_hostId :: u32
  cs_nodeName :: string
  cs_busyInstalling :: int
  cs_hostPlatform :: string
  cs_load :: u32
  cs_maxJobs :: int
  cs_noRemote :: bool
  cs_jobList :: "job_ptr list"
  cs_state :: cs_state
  cs_type :: cs_type
  cs_chrootPossible :: bool
  cs_supportedFeatures :: u32
  cs_clientCount :: int
  cs_submittedJobsCount :: int
  cs_lastPickedId :: u32
  cs_compilerVersions :: environments
  cs_lastCompiledJobs :: "job_stat list"
  cs_lastRequestedJobs :: "job_stat list"
  cs_cumCompiled :: job_stat
  cs_cumRequested :: job_stat
  cs_clientLocalMap :: "(int \<times> local_job_info) list"
  cs_blacklist :: "cs_ptr \<Rightarrow> environments"
  cs_inFd :: int
  cs_inConnAttempt :: nat
  cs_nextConnTime :: int
  cs_lastConnStartTime :: int
  cs_acceptingInConnection :: bool

definition CompileServer_new :: "chan \<Rightarrow> string \<Rightarrow> string \<Rightarrow> int \<Rightarrow> compile_server" where
  "CompileServer_new c name ip fd = \<lparr>cs_chan = c, cs_name = name, cs_ip = ip, cs_fd = fd, cs_last_talk = 0,
     cs_remotePort = 0, cs_hostId = 0, cs_nodeName = '''', cs_busyInstalling = 0, cs_hostPlatform = '''',
     cs_load = 1000, cs_maxJobs = 0, cs_noRemote = False, cs_jobList = [], cs_state = CONNECTED,
     cs_type = UNKNOWN, cs_chrootPossible = False, cs_supportedFeatures = 0, cs_clientCount = 0,
     cs_submittedJobsCount = 0, cs_lastPickedId = 0, cs_compilerVersions = [], cs_lastCompiledJobs = [],
     cs_lastRequestedJobs = [], cs_cumCompiled = JobStat_new, cs_cumRequested = JobStat_new,
     cs_clientLocalMap = [], cs_blacklist = (\<lambda>_. []), cs_inFd = -1, cs_inConnAttempt = 0,
     cs_nextConnTime = 0, cs_lastConnStartTime = 0, cs_acceptingInConnection = True\<rparr>"

abbreviation cs_protocol :: "compile_server \<Rightarrow> int" where
  "cs_protocol c \<equiv> protocol (cs_chan c)"

definition matches :: "compile_server \<Rightarrow> string \<Rightarrow> bool" where
  "matches c nm \<longleftrightarrow> cs_nodeName c = nm \<or> cs_name c = nm"

definition check_remote :: "cs_ptr \<Rightarrow> compile_server \<Rightarrow> job \<Rightarrow> bool" where
  "check_remote this c job \<longleftrightarrow> j_submitter job = this \<or> \<not> cs_noRemote c"

definition platform_map :: "(string \<times> string) list" where
  "platform_map =
     [(''i386'', ''i486''), (''i386'', ''i586''), (''i386'', ''i686''), (''i386'', ''x86_64''),
      (''i486'', ''i586''), (''i486'', ''i686''), (''i486'', ''x86_64''),
      (''i586'', ''i686''), (''i586'', ''x86_64''),
      (''i686'', ''x86_64''),
      (''ppc'', ''ppc64''), (''s390'', ''s390x'')]"

definition platforms_compatible :: "compile_server \<Rightarrow> string \<Rightarrow> bool" where
  "platforms_compatible c target \<longleftrightarrow>
     target = cs_hostPlatform c \<or> (target, cs_hostPlatform c) \<in> set platform_map"

definition blacklisted :: "cs_ptr \<Rightarrow> compile_server \<Rightarrow> string \<times> string \<Rightarrow> bool" where
  "blacklisted this sub env \<longleftrightarrow> env \<in> set (cs_blacklist sub this)"

definition can_install :: "cs_ptr \<Rightarrow> compile_server \<Rightarrow> compile_server \<Rightarrow> job \<Rightarrow> bool \<Rightarrow> string" where
  "can_install this c sub job ignore_installing =
     (if \<not> ignore_installing \<and> cs_busyInstalling c \<noteq> 0 then ''''
      else case find (\<lambda>e. platforms_compatible c (fst e) \<and> \<not> blacklisted this sub e) (j_environments job) of
             None \<Rightarrow> '''' | Some e \<Rightarrow> fst e)"

definition featuresSupported :: "compile_server \<Rightarrow> u32 \<Rightarrow> bool" where
  "featuresSupported c features \<longleftrightarrow> cs_supportedFeatures c AND features = features"

definition currentJobCountRemote :: "compile_server \<Rightarrow> int" where
  "currentJobCountRemote c = int (length (cs_jobList c))"

definition currentJobCountLocal :: "compile_server \<Rightarrow> int" where
  "currentJobCountLocal c =
     sum_list (map (\<lambda>(_, info). if lj_fulljob info then cs_maxJobs c else 1) (cs_clientLocalMap c))"

definition currentJobCount :: "compile_server \<Rightarrow> int" where
  "currentJobCount c = currentJobCountRemote c + currentJobCountLocal c"

definition maxPreloadCount :: "compile_server \<Rightarrow> int" where
  "maxPreloadCount c = 1 + cs_maxJobs c sdiv 4"

definition is_eligible_ever :: "cs_ptr \<Rightarrow> compile_server \<Rightarrow> compile_server \<Rightarrow> job \<Rightarrow> bool" where
  "is_eligible_ever this c sub job \<longleftrightarrow>
     cs_maxJobs c > 0
     \<and> (cs_chrootPossible c \<or> j_submitter job = this)
     \<and> j_minimalHostVersion job \<le> maximum_remote_protocol (cs_chan c)
     \<and> featuresSupported c (j_requiredFeatures job)
     \<and> cs_acceptingInConnection c
     \<and> can_install this c sub job True \<noteq> ''''
     \<and> check_remote this c job"

definition is_eligible_now :: "cs_ptr \<Rightarrow> compile_server \<Rightarrow> compile_server \<Rightarrow> job \<Rightarrow> bool" where
  "is_eligible_now this c sub job \<longleftrightarrow>
     is_eligible_ever this c sub job \<and>
     (let local_jobs_now = currentJobCountLocal c;
          jobs_now = local_jobs_now + currentJobCountRemote c;
          jobs_okay = (jobs_now < cs_maxJobs c
            \<or> (cs_maxJobs c > 0 \<and> jobs_now < cs_maxJobs c + maxPreloadCount c \<and> local_jobs_now < cs_maxJobs c))
      in jobs_okay \<and> cs_load c < 1000 \<and> can_install this c sub job False \<noteq> '''')"

subsection \<open>Members that change the server\<close>

text \<open>\<open>pick_new_id\<close>: the object and the static counter; the assertion that the host has no id yet.\<close>

definition pick_new_id :: "bool \<Rightarrow> u32 \<Rightarrow> compile_server \<Rightarrow> (u32 \<times> compile_server) option" where
  "pick_new_id asserts counter c =
     (if asserts \<and> cs_hostId c \<noteq> 0 then None
      else Some (counter + 1, c\<lparr>cs_hostId := counter + 1\<rparr>))"

definition appendJob :: "job_ptr \<Rightarrow> compile_server \<Rightarrow> compile_server" where
  "appendJob j c = c\<lparr>cs_lastPickedId := j, cs_jobList := cs_jobList c @ [j]\<rparr>"

text \<open>\<open>list::remove\<close> removes every occurrence.\<close>

definition removeJob :: "job_ptr \<Rightarrow> compile_server \<Rightarrow> compile_server" where
  "removeJob j c = c\<lparr>cs_jobList := removeAll j (cs_jobList c)\<rparr>"

definition submittedJobsIncrement :: "compile_server \<Rightarrow> compile_server" where
  "submittedJobsIncrement c = c\<lparr>cs_submittedJobsCount := cs_submittedJobsCount c + 1\<rparr>"

definition submittedJobsDecrement :: "compile_server \<Rightarrow> compile_server" where
  "submittedJobsDecrement c = c\<lparr>cs_submittedJobsCount := cs_submittedJobsCount c - 1\<rparr>"

text \<open>
  \<open>appendCompiledJob\<close>, \<open>setCumCompiled\<close> and \<open>popCompiledJob\<close> in the order in which
  \<open>add_job_stats\<close> calls them: a window of the last \<open>n\<close> jobs and its sum. The same code
  keeps the windows of requested jobs and of all jobs.
\<close>

definition push_stat :: "nat \<Rightarrow> job_stat \<Rightarrow> job_stat list \<times> job_stat \<Rightarrow> job_stat list \<times> job_stat" where
  "push_stat n st w =
     (let l = fst w @ [st]; s = stat_add (snd w) st
      in if length l > n then (tl l, stat_sub s (hd l)) else (l, s))"

definition getClientLocalJobId :: "int \<Rightarrow> compile_server \<Rightarrow> int" where
  "getClientLocalJobId i c = (case map_of (cs_clientLocalMap c) i of None \<Rightarrow> 0 | Some info \<Rightarrow> lj_id info)"

definition insertClientLocalJobId :: "int \<Rightarrow> int \<Rightarrow> bool \<Rightarrow> compile_server \<Rightarrow> compile_server" where
  "insertClientLocalJobId i new_id full c = c\<lparr>cs_clientLocalMap :=
     (i, \<lparr>lj_id = new_id, lj_fulljob = full\<rparr>) # filter (\<lambda>e. fst e \<noteq> i) (cs_clientLocalMap c)\<rparr>"

definition eraseClientLocalJobId :: "int \<Rightarrow> compile_server \<Rightarrow> compile_server" where
  "eraseClientLocalJobId i c = c\<lparr>cs_clientLocalMap := filter (\<lambda>e. fst e \<noteq> i) (cs_clientLocalMap c)\<rparr>"

definition blacklistCompileServer :: "cs_ptr \<Rightarrow> string \<times> string \<Rightarrow> compile_server \<Rightarrow> compile_server" where
  "blacklistCompileServer x env c = c\<lparr>cs_blacklist := (cs_blacklist c)(x := cs_blacklist c x @ [env])\<rparr>"

definition eraseCSFromBlacklist :: "cs_ptr \<Rightarrow> compile_server \<Rightarrow> compile_server" where
  "eraseCSFromBlacklist x c = c\<lparr>cs_blacklist := (cs_blacklist c)(x := [])\<rparr>"

subsection \<open>The test of incoming connections\<close>

definition time_offset_table :: "int list" where
  "time_offset_table = [2, 4, 8, 16, 32, 64, 128, 256, 512, 1024, 2048, 4096]"

text \<open>\<open>sizeof(time_offset_table)\<close>: the size in bytes, with a \<open>time_t\<close> of eight bytes.\<close>

definition table_size :: nat where
  "table_size = 8 * length time_offset_table"

text \<open>\<open>None\<close>: the table is read behind its end.\<close>

definition updateInConnectivity :: "int \<Rightarrow> bool \<Rightarrow> compile_server \<Rightarrow> compile_server option" where
  "updateInConnectivity now acceptingIn c =
     (if acceptingIn then
        Some ((if \<not> cs_acceptingInConnection c
               then c\<lparr>cs_acceptingInConnection := True, cs_inConnAttempt := 0\<rparr> else c)
              \<lparr>cs_nextConnTime := now + 60, cs_inFd := -1\<rparr>)
      else if cs_inConnAttempt c < length time_offset_table then
        Some (c\<lparr>cs_acceptingInConnection := False,
                cs_nextConnTime := now + time_offset_table ! cs_inConnAttempt c,
                cs_inConnAttempt := (if cs_inConnAttempt c < table_size - 1 then cs_inConnAttempt c + 1
                                     else cs_inConnAttempt c),
                cs_inFd := -1\<rparr>)
      else None)"

definition getConnectionTimeout :: "int \<Rightarrow> compile_server \<Rightarrow> int" where
  "getConnectionTimeout now c =
     (let elapsed_time = now - cs_lastConnStartTime c in if elapsed_time < 5 then 5 - elapsed_time else 0)"

text \<open>\<open>sock_ok\<close>: \<open>getsockopt(SO_ERROR)\<close> succeeded and reports no error.\<close>

definition isConnected :: "int \<Rightarrow> bool \<Rightarrow> compile_server \<Rightarrow> bool" where
  "isConnected now sock_ok c \<longleftrightarrow> getConnectionTimeout now c \<noteq> 0 \<and> sock_ok"

definition getConnectionInProgress :: "compile_server \<Rightarrow> bool" where
  "getConnectionInProgress c \<longleftrightarrow> cs_inFd c \<noteq> -1"

definition getNextTimeout :: "int \<Rightarrow> compile_server \<Rightarrow> int" where
  "getNextTimeout now c =
     (if cs_noRemote c then -1
      else if cs_inFd c \<noteq> -1 then getConnectionTimeout now c
      else let until_connect = cs_nextConnTime c - now in if until_connect > 0 then until_connect else 0)"

text \<open>The answer of \<open>connect()\<close>: done at once, in progress, or an error.\<close>

datatype connect_res = ConnDone bool | ConnProgress | ConnError

definition startInConnectionTest :: "int \<Rightarrow> int \<Rightarrow> connect_res \<Rightarrow> compile_server \<Rightarrow> compile_server option" where
  "startInConnectionTest now new_fd r c =
     (if cs_noRemote c \<or> getConnectionInProgress c \<or> cs_nextConnTime c > now then Some c
      else map_option (\<lambda>c'. c'\<lparr>cs_lastConnStartTime := now\<rparr>)
             (let c1 = c\<lparr>cs_inFd := new_fd\<rparr>
              in case r of
                   ConnDone sock_ok \<Rightarrow> updateInConnectivity now (isConnected now sock_ok c1) c1
                 | ConnProgress \<Rightarrow> Some c1
                 | ConnError \<Rightarrow> updateInConnectivity now False c1))"

section \<open>Windows of statistics\<close>

definition stat_sum :: "job_stat list \<Rightarrow> job_stat" where
  "stat_sum l = \<lparr>outputSize = sum_list (map outputSize l), compileTimeReal = sum_list (map compileTimeReal l),
     compileTimeUser = sum_list (map compileTimeUser l), compileTimeSys = sum_list (map compileTimeSys l), js_jobId = 0\<rparr>"

definition window_ok :: "nat \<Rightarrow> job_stat list \<times> job_stat \<Rightarrow> bool" where
  "window_ok n w \<longleftrightarrow> length (fst w) \<le> n \<and> snd w = stat_sum (fst w)"

lemma window_ok_empty: "window_ok n ([], JobStat_new)"
  by (simp add: window_ok_def stat_sum_def JobStat_new_def)

text \<open>
  The window keeps the last \<open>n\<close> jobs and its running total is their sum, modulo the width
  of the counters: the subtraction of the entry that leaves undoes its addition.
\<close>

lemma push_stat_window:
  assumes "window_ok n w"
  shows "window_ok n (push_stat n st w)"
    and "fst (push_stat n st w) = drop (length (fst w) + 1 - n) (fst w @ [st])"
proof -
  obtain l s where w: "w = (l, s)"
    by fastforce
  have l: "length l \<le> n" and s: "s = stat_sum l"
    using assms by (simp_all add: window_ok_def w)
  show "window_ok n (push_stat n st w)"
    using l s by (cases l) (auto simp: window_ok_def push_stat_def w Let_def stat_sum_def stat_add_def stat_sub_def)
  show "fst (push_stat n st w) = drop (length (fst w) + 1 - n) (fst w @ [st])"
  proof (cases "length l = n")
    case True
    then show ?thesis
      by (cases l) (auto simp: push_stat_def w Let_def)
  next
    case False
    with l have "length l < n"
      by simp
    then show ?thesis
      by (simp add: push_stat_def w Let_def)
  qed
qed

section \<open>Eligibility\<close>

lemma can_install_nonempty:
  assumes "can_install this c sub job ign \<noteq> ''''"
  obtains e where "ign \<or> cs_busyInstalling c = 0" and "e \<in> set (j_environments job)"
    and "can_install this c sub job ign = fst e" and "platforms_compatible c (fst e)" and "\<not> blacklisted this sub e"
proof -
  obtain e where e: "find (\<lambda>e. platforms_compatible c (fst e) \<and> \<not> blacklisted this sub e) (j_environments job) = Some e"
      and ok: "ign \<or> cs_busyInstalling c = 0"
    using assms by (auto simp: can_install_def split: if_splits option.splits)
  with find_SomeD [OF e] show ?thesis
    by (intro that [of e]) (auto simp: can_install_def)
qed

lemma is_eligible_now_ever: "is_eligible_now this c sub job \<Longrightarrow> is_eligible_ever this c sub job"
  by (simp add: is_eligible_now_def)

text \<open>
  A server that is eligible has room: with the job assigned it is at most
  \<open>maxPreloadCount\<close> jobs over its slots.
\<close>

lemma is_eligible_now_room:
  assumes "is_eligible_now this c sub job"
  shows "currentJobCount (appendJob j c) \<le> cs_maxJobs c + maxPreloadCount c"
    and "currentJobCount c < cs_maxJobs c + maxPreloadCount c" and "0 < cs_maxJobs c"
proof -
  have m: "0 < cs_maxJobs c"
    using assms by (simp add: is_eligible_now_def is_eligible_ever_def)
  then have "0 < maxPreloadCount c"
    by (simp add: maxPreloadCount_def signed_divide_int_def add_pos_nonneg)
  then show *: "currentJobCount c < cs_maxJobs c + maxPreloadCount c"
    using assms by (auto simp: is_eligible_now_def Let_def currentJobCount_def)
  have "currentJobCount (appendJob j c) = currentJobCount c + 1"
    by (simp add: currentJobCount_def currentJobCountRemote_def currentJobCountLocal_def appendJob_def case_prod_unfold cong: if_cong)
  with * show "currentJobCount (appendJob j c) \<le> cs_maxJobs c + maxPreloadCount c"
    by simp
  show "0 < cs_maxJobs c"
    by (rule m)
qed

text \<open>The platforms form a preorder: what runs on a platform runs on everything above it.\<close>

lemma platform_map_closed:
  "list_all (\<lambda>x. list_all (\<lambda>y. snd x = fst y \<longrightarrow> List.member platform_map (fst x, snd y)) platform_map) platform_map"
  by code_simp

lemma platforms_compatible_trans:
  assumes "platforms_compatible c1 target" and "platforms_compatible c2 (cs_hostPlatform c1)"
  shows "platforms_compatible c2 target"
  using assms platform_map_closed by (fastforce simp: platforms_compatible_def list_all_iff)

section \<open>Back-off of the connection test\<close>

text \<open>\<open>n\<close> failed tests in a row, each at the time the one before asked for.\<close>

primrec failing_tests :: "nat \<Rightarrow> int \<Rightarrow> compile_server \<Rightarrow> compile_server option" where
  "failing_tests 0 now c = Some c"
| "failing_tests (Suc n) now c =
     (case updateInConnectivity now False c of
        None \<Rightarrow> None
      | Some c' \<Rightarrow> failing_tests n (cs_nextConnTime c') c')"

lemma failing_tests_attempt:
  assumes "cs_inConnAttempt c + n \<le> 12"
  shows "\<exists>c'. failing_tests n now c = Some c' \<and> cs_inConnAttempt c' = cs_inConnAttempt c + n"
  using assms
proof (induction n arbitrary: c now)
  case (Suc n)
  then have "cs_inConnAttempt c < 12"
    by simp
  then obtain c' where c': "updateInConnectivity now False c = Some c'" "cs_inConnAttempt c' = cs_inConnAttempt c + 1"
    by (simp add: updateInConnectivity_def time_offset_table_def table_size_def)
  then show ?case
    using Suc.IH [of c' "cs_nextConnTime c'"] Suc.prems by simp
qed simp

lemma failing_tests_add:
  "failing_tests (m + n) now c =
     (case failing_tests m now c of None \<Rightarrow> None | Some c' \<Rightarrow> failing_tests n (if m = 0 then now else cs_nextConnTime c') c')"
proof (induction m arbitrary: c now)
  case (Suc m)
  then show ?case
    by (auto split: option.splits)
qed simp

lemma failing_tests_13:
  assumes "cs_inConnAttempt c = 12"
  shows "failing_tests 1 now c = None"
  using assms by (simp add: updateInConnectivity_def time_offset_table_def table_size_def)

section \<open>Properties\<close>

lemma push_stats_window:
  "window_ok n (fold (push_stat n) sts ([], JobStat_new)) \<and> fst (fold (push_stat n) sts ([], JobStat_new)) = drop (length sts - n) sts"
proof (induction sts rule: rev_induct)
  case (snoc st sts)
  let ?w = "fold (push_stat n) sts ([], JobStat_new)"
  have w: "window_ok n ?w" "fst ?w = drop (length sts - n) sts"
    using snoc.IH by simp_all
  have "fst (push_stat n st ?w) = drop (length sts + 1 - n) (sts @ [st])"
    unfolding push_stat_window(2) [OF w(1)] w(2) by (cases "length sts < n") (simp_all add: Suc_diff_le)
  with push_stat_window(1) [OF w(1), of st] show ?case
    by simp
qed (simp add: window_ok_empty)

text \<open>
  The statistics of a server and of the scheduler are those of the last \<open>n\<close> jobs: after any
  sequence of jobs the window that is kept up incrementally holds the last \<open>n\<close> of them, and
  its running total is the sum over the window, computed anew.
\<close>

theorem stat_window_spec:
  "fold (push_stat n) sts ([], JobStat_new) = (drop (length sts - n) sts, stat_sum (drop (length sts - n) sts))"
  using push_stats_window [of n sts] by (simp add: window_ok_def prod_eq_iff)

text \<open>
  A server that is eligible for a job has room for it: after the assignment it
  has at most \<open>maxPreloadCount\<close> jobs more than slots.
\<close>

theorem eligible_has_room:
  assumes "is_eligible_now this c sub job"
  shows "0 < cs_maxJobs c \<and> currentJobCount (appendJob j c) \<le> cs_maxJobs c + maxPreloadCount c"
  using is_eligible_now_room [OF assms] by simp

theorem eligible_has_room_witness:
  "let c = (CompileServer_new (chan_init False False [] [] [] []) ''a'' ''a'' 3)
             \<lparr>cs_maxJobs := 2, cs_hostPlatform := ''x86_64'', cs_chrootPossible := True, cs_load := 0\<rparr>;
       job = (Job_new 5 1)\<lparr>j_environments := [(''x86_64'', ''gcc'')], j_minimalHostVersion := -1\<rparr>
   in 0 < cs_maxJobs c \<and> currentJobCount (appendJob 5 c) \<le> cs_maxJobs c + maxPreloadCount c"
  unfolding Let_def
  by (rule eligible_has_room [where this = 2 and sub = "CompileServer_new (chan_init False False [] [] [] []) ''b'' ''b'' 4"
        and job = "(Job_new 5 1)\<lparr>j_environments := [(''x86_64'', ''gcc'')], j_minimalHostVersion := -1\<rparr>"])
    (simp add: is_eligible_now_def is_eligible_ever_def can_install_def platforms_compatible_def blacklisted_def
      featuresSupported_def check_remote_def currentJobCountLocal_def currentJobCountRemote_def CompileServer_new_def
      Job_new_def chan_init_def Let_def maxPreloadCount_def)

text \<open>
  The platforms are ordered: code for a platform that the platform of one server can run is
  runnable by every server that can run that server's code.
\<close>

theorem platforms_transitive:
  assumes "platforms_compatible c1 target" and "platforms_compatible c2 (cs_hostPlatform c1)"
  shows "platforms_compatible c2 target"
  using assms by (rule platforms_compatible_trans)

theorem platforms_transitive_witness:
  "let c = CompileServer_new (chan_init False False [] [] [] []) ''a'' ''a'' 3
   in platforms_compatible (c\<lparr>cs_hostPlatform := ''x86_64''\<rparr>) ''i486''"
  unfolding Let_def
  by (rule platforms_transitive [where ?c1.0 = "(CompileServer_new (chan_init False False [] [] [] []) ''a'' ''a'' 3)\<lparr>cs_hostPlatform := ''i686''\<rparr>"])
    (simp_all add: platforms_compatible_def platform_map_def)

text \<open>
  The back-off of the connection test: a server may fail the test twelve times in a row;
  the thirteenth failure reads past the end of the table of waiting times.
\<close>

theorem backoff_limit:
  assumes "cs_inConnAttempt c = 0"
  shows "failing_tests n now c = None \<longleftrightarrow> 12 < n"
proof (cases "n \<le> 12")
  case True
  then show ?thesis
    using failing_tests_attempt [of c n now] assms by auto
next
  case False
  obtain c' where c': "failing_tests 12 now c = Some c'" "cs_inConnAttempt c' = 12"
    using failing_tests_attempt [of c 12 now] assms by auto
  have "failing_tests 13 now c = None"
    using failing_tests_add [of 12 1 now c] c' failing_tests_13 [OF c'(2)] by simp
  moreover have "n = 13 + (n - 13)"
    using False by simp
  ultimately have "failing_tests n now c = None"
    using failing_tests_add [of 13 "n - 13" now c] by simp
  with False show ?thesis
    by simp
qed

theorem backoff_limit_witness:
  "failing_tests 13 100 (CompileServer_new (chan_init False False [] [] [] []) ''a'' ''a'' 3) = None"
  by (subst backoff_limit) (simp_all add: CompileServer_new_def)

end
