(* ===== verification/SchedQueue.thy ===== *)
theory SchedQueue
  imports CompileServer
begin

text \<open>
  The scheduler's queue of job requests (\<open>scheduler/scheduler.cpp\<close>, \<open>JobRequestsGroup\<close> and
  the functions on \<open>job_requests\<close>): groups of requests by submitter and niceness, kept in the order of
  niceness, rotated within one niceness whenever a request is served.

  A \<open>JobRequestsGroup *\<close> is the index of the group in the queue and a \<open>JobRequestPosition\<close> such an
  index with a job; the code never changes the queue while it holds a position.
  \<open>None\<close> is undefined behaviour (\<open>front()\<close> of an empty list, a position that is not in the queue).
\<close>

section \<open>Operations\<close>

record group =
  g_l :: "job_ptr list"
  g_submitter :: cs_ptr
  g_niceness :: int

type_synonym position = "nat \<times> job_ptr"

text \<open>The job's submitter and niceness are passed with the job.\<close>

fun enqueue_job_request :: "cs_ptr \<Rightarrow> int \<Rightarrow> job_ptr \<Rightarrow> group list \<Rightarrow> group list" where
  "enqueue_job_request subm nice job [] = [\<lparr>g_l = [job], g_submitter = subm, g_niceness = nice\<rparr>]"
| "enqueue_job_request subm nice job (g # gs) =
     (if g_submitter g = subm \<and> g_niceness g = nice then g\<lparr>g_l := g_l g @ [job]\<rparr> # gs
      else if g_niceness g > nice then \<lparr>g_l = [job], g_submitter = subm, g_niceness = nice\<rparr> # g # gs
      else g # enqueue_job_request subm nice job gs)"

fun enqueue_job_requests_group :: "group \<Rightarrow> group list \<Rightarrow> group list" where
  "enqueue_job_requests_group grp [] = [grp]"
| "enqueue_job_requests_group grp (g # gs) =
     (if g_niceness g > g_niceness grp then grp # g # gs
      else g # enqueue_job_requests_group grp gs)"

definition get_first_job_request :: "group list \<Rightarrow> position option option" where
  "get_first_job_request q =
     (case q of [] \<Rightarrow> Some None
      | g # _ \<Rightarrow> (case g_l g of [] \<Rightarrow> None | j # _ \<Rightarrow> Some (Some (0, j))))"

definition get_next_job_request :: "group list \<Rightarrow> position \<Rightarrow> position option option" where
  "get_next_job_request q pos =
     (case pos of (i, j) \<Rightarrow>
        if i < length q \<and> j \<in> set (g_l (q ! i)) then
          (case tl (dropWhile (\<lambda>x. x \<noteq> j) (g_l (q ! i))) of
             j' # _ \<Rightarrow> Some (Some (i, j'))
           | [] \<Rightarrow>
               (if Suc i < length q
                then (case g_l (q ! Suc i) of [] \<Rightarrow> None | j' # _ \<Rightarrow> Some (Some (Suc i, j')))
                else Some None))
        else None)"

text \<open>\<open>JobRequestsGroup::remove_job\<close>: the first occurrence is erased.\<close>

definition remove_job :: "job_ptr \<Rightarrow> group \<Rightarrow> bool \<times> group" where
  "remove_job job g = (job \<in> set (g_l g), g\<lparr>g_l := remove1 job (g_l g)\<rparr>)"

definition remove_job_request :: "group list \<Rightarrow> position \<Rightarrow> group list option" where
  "remove_job_request q pos =
     (case pos of (i, j) \<Rightarrow>
        if i < length q then
          (let rest = take i q @ drop (Suc i) q; g = snd (remove_job j (q ! i))
           in Some (if g_l g = [] then rest else enqueue_job_requests_group g rest))
        else None)"

section \<open>Well-formed queues\<close>

definition g_key :: "group \<Rightarrow> cs_ptr \<times> int" where
  "g_key g = (g_submitter g, g_niceness g)"

definition q_ok :: "group list \<Rightarrow> bool" where
  "q_ok q \<longleftrightarrow> sorted (map g_niceness q) \<and> distinct (map g_key q) \<and> (\<forall>g\<in>set q. g_l g \<noteq> [])"

lemma q_ok_Nil [simp]: "q_ok []"
  by (simp add: q_ok_def)

lemma q_ok_Cons:
  "q_ok (g # q) \<longleftrightarrow> q_ok q \<and> g_l g \<noteq> [] \<and> (\<forall>h\<in>set q. g_niceness g \<le> g_niceness h \<and> g_key h \<noteq> g_key g)"
  by (auto simp: q_ok_def image_iff)

lemma enqueue_job_request_set:
  assumes "h \<in> set (enqueue_job_request s n j q)"
  shows "g_key h = (s, n) \<or> h \<in> set q"
  using assms by (induction q) (auto simp: g_key_def split: if_splits)

lemma enqueue_job_request_ok:
  assumes "q_ok q"
  shows "q_ok (enqueue_job_request s n j q)"
  using assms
proof (induction q)
  case (Cons g q)
  show ?case
  proof (cases "g_key g = (s, n) \<or> g_niceness g > n")
    case True
    with Cons.prems show ?thesis
      by (auto simp: q_ok_Cons g_key_def)
  next
    case False
    then have "enqueue_job_request s n j (g # q) = g # enqueue_job_request s n j q"
      by (auto simp: g_key_def)
    moreover have "g_niceness g \<le> g_niceness h \<and> g_key h \<noteq> g_key g" if "h \<in> set (enqueue_job_request s n j q)" for h
      using enqueue_job_request_set [OF that] False Cons.prems by (auto simp: q_ok_Cons g_key_def)
    ultimately show ?thesis
      using Cons by (simp add: q_ok_Cons)
  qed
qed (simp add: q_ok_Cons)

lemma set_enqueue_group [simp]: "set (enqueue_job_requests_group g q) = insert g (set q)"
  by (induction q) auto

lemma enqueue_group_ok:
  assumes "q_ok q" and "g_l g \<noteq> []" and "\<forall>h\<in>set q. g_key h \<noteq> g_key g"
  shows "q_ok (enqueue_job_requests_group g q)"
  using assms by (induction q) (auto simp: q_ok_Cons)

lemma q_ok_remove_index: "q_ok q \<Longrightarrow> i < length q \<Longrightarrow> q_ok (take i q @ drop (Suc i) q)"
proof (induction q arbitrary: i)
  case (Cons g q)
  then show ?case
    by (cases i) (auto simp: q_ok_Cons dest: in_set_takeD in_set_dropD)
qed simp

lemma q_ok_key_index:
  assumes "q_ok q" and "i < length q" and "h \<in> set (take i q @ drop (Suc i) q)"
  shows "g_key h \<noteq> g_key (q ! i)"
proof -
  have "distinct (map g_key q)" "map g_key q = map g_key (take i q) @ g_key (q ! i) # map g_key (drop (Suc i) q)"
    using assms(1) id_take_nth_drop [OF assms(2)] by (simp_all add: q_ok_def) (metis list.simps(9) map_append)
  with assms(3) show ?thesis
    by (metis (no_types, lifting) Un_iff distinct_append distinct.simps(2) disjoint_iff image_eqI list.set_intros(1) list.set_map set_append)
qed

lemma remove_job_request_ok:
  assumes "q_ok q" and "remove_job_request q pos = Some q'"
  shows "q_ok q'"
proof -
  obtain i j where pos: "pos = (i, j)"
    by fastforce
  then have i: "i < length q"
    using assms(2) by (simp add: remove_job_request_def split: if_splits)
  note rest = q_ok_remove_index [OF assms(1) i] q_ok_key_index [OF assms(1) i]
  show ?thesis
    using assms(2) i rest
    by (auto simp: remove_job_request_def pos Let_def remove_job_def g_key_def intro!: enqueue_group_ok split: if_splits)
qed

section \<open>What the queue holds\<close>

text \<open>
  The requests of one submitter at one niceness, in the order of service. This is the abstract
  queue: a FIFO for each pair.
\<close>

definition pend :: "group list \<Rightarrow> cs_ptr \<times> int \<Rightarrow> job_ptr list" where
  "pend q k = concat (map g_l (filter (\<lambda>g. g_key g = k) q))"

text \<open>The submitters that wait at one niceness, in the order in which they are served next.\<close>

definition waiting :: "group list \<Rightarrow> int \<Rightarrow> cs_ptr list" where
  "waiting q n = map g_submitter (filter (\<lambda>g. g_niceness g = n) q)"

lemma pend_Cons: "pend (g # q) k = (if g_key g = k then g_l g @ pend q k else pend q k)"
  by (simp add: pend_def)

lemma pend_append: "pend (a @ b) k = pend a k @ pend b k"
  by (simp add: pend_def)

lemma pend_notin: "(\<forall>g\<in>set q. g_key g \<noteq> k) \<Longrightarrow> pend q k = []"
  by (simp add: pend_def)

lemma pend_enqueue:
  assumes "q_ok q"
  shows "pend (enqueue_job_request s n j q) = (pend q)((s, n) := pend q (s, n) @ [j])"
  using assms
proof (induction q)
  case (Cons g q)
  have tail: "pend q (s, n) = []" if "g_key g = (s, n) \<or> g_niceness g > n"
    using that Cons.prems by (intro pend_notin) (auto simp: q_ok_Cons g_key_def)
  show ?case
  proof (cases "g_key g = (s, n) \<or> g_niceness g > n")
    case True
    with tail show ?thesis
      by (auto simp: fun_eq_iff pend_Cons g_key_def)
  next
    case False
    then have "enqueue_job_request s n j (g # q) = g # enqueue_job_request s n j q"
      by (auto simp: g_key_def)
    with False Cons show ?thesis
      by (auto simp: fun_eq_iff pend_Cons q_ok_Cons)
  qed
qed (simp add: fun_eq_iff pend_def g_key_def)

lemma pend_enqueue_group:
  assumes "\<forall>h\<in>set q. g_key h \<noteq> g_key g"
  shows "pend (enqueue_job_requests_group g q) = (pend q)(g_key g := g_l g)"
  using assms
proof (induction q)
  case (Cons h q)
  then have "pend q (g_key g) = []"
    by (intro pend_notin) simp
  with Cons show ?case
    by (intro ext) (auto simp: pend_Cons)
qed (auto simp: pend_def)

lemma pend_remove_index:
  assumes "q_ok q" and "i < length q"
  shows "pend (take i q @ drop (Suc i) q) = (pend q)(g_key (q ! i) := [])"
proof -
  have "pend q k = pend (take i q) k @ (if g_key (q ! i) = k then g_l (q ! i) else []) @ pend (drop (Suc i) q) k" for k
    by (subst id_take_nth_drop [OF assms(2)]) (simp add: pend_append pend_Cons)
  moreover note pend_append [of "take i q" "drop (Suc i) q"]
  moreover have "pend (take i q @ drop (Suc i) q) (g_key (q ! i)) = []"
    using q_ok_key_index [OF assms] by (intro pend_notin) auto
  ultimately show ?thesis
    by (intro ext) auto
qed

lemma pend_index:
  assumes "q_ok q" and "i < length q"
  shows "pend q (g_key (q ! i)) = g_l (q ! i)"
proof -
  have "pend q (g_key (q ! i)) = pend (take i q) (g_key (q ! i)) @ g_l (q ! i) @ pend (drop (Suc i) q) (g_key (q ! i))"
    by (subst (1) id_take_nth_drop [OF assms(2)]) (simp add: pend_append pend_Cons)
  moreover have "pend (take i q) (g_key (q ! i)) = []" "pend (drop (Suc i) q) (g_key (q ! i)) = []"
    using q_ok_key_index [OF assms] by (auto intro!: pend_notin)
  ultimately show ?thesis
    by simp
qed

lemma pend_remove:
  assumes "q_ok q" and "remove_job_request q (i, j) = Some q'"
  shows "pend q' = (pend q)(g_key (q ! i) := remove1 j (g_l (q ! i)))"
proof -
  have i: "i < length q"
    using assms(2) by (simp add: remove_job_request_def split: if_splits)
  let ?g = "(q ! i)\<lparr>g_l := remove1 j (g_l (q ! i))\<rparr>"
  have "\<forall>h\<in>set (take i q @ drop (Suc i) q). g_key h \<noteq> g_key ?g"
    using q_ok_key_index [OF assms(1) i] by (auto simp: g_key_def)
  note pend_enqueue_group [OF this]
  then show ?thesis
    using assms(2) i pend_remove_index [OF assms(1) i]
    by (auto simp: remove_job_request_def remove_job_def Let_def g_key_def split: if_splits)
qed

section \<open>The contract of the queue\<close>

text \<open>Taking requests from a queue one after the other: key and job of each, and the queue left.\<close>

primrec serve_with :: "('q \<Rightarrow> ((cs_ptr \<times> int) \<times> job_ptr \<times> 'q) option) \<Rightarrow> nat \<Rightarrow> 'q \<Rightarrow>
    ((cs_ptr \<times> int) \<times> job_ptr) list \<times> 'q" where
  "serve_with pop 0 q = ([], q)"
| "serve_with pop (Suc n) q =
     (case pop q of
        None \<Rightarrow> ([], q)
      | Some (k, j, q1) \<Rightarrow> (case serve_with pop n q1 of (xs, q2) \<Rightarrow> ((k, j) # xs, q2)))"

text \<open>
  A queue with priorities that keeps the order of the requests with the same key: \<open>content\<close> is the
  abstract state, a FIFO for every submitter and niceness.
\<close>

locale job_queue =
  fixes ok :: "'q \<Rightarrow> bool"
    and content :: "'q \<Rightarrow> cs_ptr \<times> int \<Rightarrow> job_ptr list"
    and pop :: "'q \<Rightarrow> ((cs_ptr \<times> int) \<times> job_ptr \<times> 'q) option"
  assumes pop_ok: "ok q \<Longrightarrow> pop q = Some (k, j, q') \<Longrightarrow> ok q'"
    and pop_content: "ok q \<Longrightarrow> pop q = Some (k, j, q') \<Longrightarrow> content q = (content q')(k := j # content q' k)"
    and pop_first: "ok q \<Longrightarrow> pop q = Some (k, j, q') \<Longrightarrow> content q k' \<noteq> [] \<Longrightarrow> snd k \<le> snd k'"
    and pop_empty: "ok q \<Longrightarrow> pop q = None \<Longrightarrow> content q k = []"
begin

lemma serve_fifo:
  assumes "ok q"
  shows "map snd (filter (\<lambda>x. fst x = k) (fst (serve_with pop n q))) @ content (snd (serve_with pop n q)) k = content q k"
  using assms
proof (induction n arbitrary: q)
  case (Suc n)
  show ?case
  proof (cases "pop q")
    case (Some x)
    obtain k1 j q1 where x: "pop q = Some (k1, j, q1)"
      using Some by (cases x) auto
    with Suc.IH [OF pop_ok [OF Suc.prems x]] pop_content [OF Suc.prems x] show ?thesis
      by (auto split: prod.splits)
  qed simp
qed simp

lemma content_mono: "ok q \<Longrightarrow> pop q = Some (k, j, q') \<Longrightarrow> content q' k' \<noteq> [] \<Longrightarrow> content q k' \<noteq> []"
  by (frule (1) pop_content) (simp split: if_splits)

lemma serve_nonempty:
  assumes "ok q" and "x \<in> set (fst (serve_with pop n q))"
  shows "content q (fst x) \<noteq> []"
proof -
  have "map snd (filter (\<lambda>y. fst y = fst x) (fst (serve_with pop n q))) \<noteq> []"
    using assms(2) by (auto simp: filter_empty_conv)
  then show ?thesis
    using serve_fifo [OF assms(1), of "fst x" n] by auto
qed

lemma serve_priority: "ok q \<Longrightarrow> sorted (map (\<lambda>x. snd (fst x)) (fst (serve_with pop n q)))"
proof (induction n arbitrary: q)
  case (Suc n)
  show ?case
  proof (cases "pop q")
    case (Some x)
    obtain k1 j q1 where x: "pop q = Some (k1, j, q1)"
      using Some by (cases x) auto
    obtain xs q2 where s: "serve_with pop n q1 = (xs, q2)"
      by fastforce
    have "snd k1 \<le> snd (fst y)" if "y \<in> set xs" for y
    proof -
      have "content q1 (fst y) \<noteq> []"
        using serve_nonempty [OF pop_ok [OF Suc.prems x], of y n] s that by simp
      then show ?thesis
        using pop_first [OF Suc.prems x] content_mono [OF Suc.prems x] by blast
    qed
    with Suc.IH [OF pop_ok [OF Suc.prems x]] x s show ?thesis
      by simp
  qed simp
qed simp

end

definition pop_request :: "group list \<Rightarrow> ((cs_ptr \<times> int) \<times> job_ptr \<times> group list) option" where
  "pop_request q =
     (case get_first_job_request q of
        Some (Some (i, j)) \<Rightarrow> map_option (\<lambda>q'. (g_key (q ! i), j, q')) (remove_job_request q (i, j))
      | _ \<Rightarrow> None)"

lemma get_first_ok:
  assumes "q_ok q"
  shows "get_first_job_request q = Some (case q of [] \<Rightarrow> None | g # _ \<Rightarrow> Some (0, hd (g_l g)))"
  using assms by (cases q) (auto simp: get_first_job_request_def q_ok_Cons split: list.splits)

lemma pop_request_Cons:
  assumes "q_ok (g # q)"
  shows "pop_request (g # q) = Some (g_key g, hd (g_l g),
    (if tl (g_l g) = [] then q else enqueue_job_requests_group (g\<lparr>g_l := tl (g_l g)\<rparr>) q))"
  using assms
  by (cases "g_l g") (auto simp: pop_request_def get_first_ok remove_job_request_def remove_job_def q_ok_Cons Let_def)

lemma pop_request_remove:
  assumes "q_ok q" and "pop_request q = Some (k, j, q')"
  obtains g q0 where "q = g # q0" and "k = g_key g" and "g_l g = j # tl (g_l g)" and "remove_job_request q (0, j) = Some q'"
  using assms
  by (cases q) (auto simp: pop_request_def get_first_ok q_ok_Cons split: option.splits)

interpretation requests: job_queue q_ok pend pop_request
proof
  fix q k j q' k'
  assume ok: "q_ok q" and pop: "pop_request q = Some (k, j, q')"
  then obtain g q0 where q: "q = g # q0" "k = g_key g" "g_l g = j # tl (g_l g)" "remove_job_request q (0, j) = Some q'"
    by (rule pop_request_remove)
  show "q_ok q'"
    using ok q(4) by (rule remove_job_request_ok)
  have "pend q (g_key g) = g_l g"
    using pend_index [OF ok, of 0] q(1) by simp
  moreover have "pend q' = (pend q)(g_key g := tl (g_l g))"
    using pend_remove [OF ok q(4)] q(1,3) by (metis nth_Cons_0 remove1.simps(2))
  ultimately show "pend q = (pend q')(k := j # pend q' k)"
    using q(2,3) by (intro ext) auto
  assume "pend q k' \<noteq> []"
  then obtain h where "h \<in> set q" "g_key h = k'"
    using pend_notin by blast
  then show "snd k \<le> snd k'"
    using ok q(1,2) by (auto simp: q_ok_Cons g_key_def)
next
  fix q k
  assume ok: "q_ok q" and "pop_request q = None"
  then have "q = []"
    by (cases q) (auto simp: pop_request_Cons)
  then show "pend q k = []"
    by (simp add: pend_def)
qed

abbreviation serve :: "nat \<Rightarrow> group list \<Rightarrow> ((cs_ptr \<times> int) \<times> job_ptr) list \<times> group list" where
  "serve \<equiv> serve_with pop_request"

section \<open>Rotation\<close>

lemma waiting_Cons: "waiting (g # q) n = (if g_niceness g = n then g_submitter g # waiting q n else waiting q n)"
  by (simp add: waiting_def)

lemma waiting_none: "(\<forall>g\<in>set q. g_niceness g \<noteq> n) \<Longrightarrow> waiting q n = []"
  by (simp add: waiting_def)

text \<open>A group that is queued again goes behind all groups of its niceness.\<close>

lemma waiting_enqueue_group:
  assumes "sorted (map g_niceness q)"
  shows "waiting (enqueue_job_requests_group g q) n =
    (if g_niceness g = n then waiting q n @ [g_submitter g] else waiting q n)"
  using assms
proof (induction q)
  case (Cons h q)
  have "waiting q (g_niceness g) = []" if "g_niceness g < g_niceness h"
    using that Cons.prems by (intro waiting_none) auto
  with Cons show ?case
    by (auto simp: waiting_Cons)
qed (simp add: waiting_def)

lemma take_enqueue_group:
  assumes "sorted (map g_niceness q)" and "\<forall>h\<in>set q. g_niceness g \<le> g_niceness h" and "k \<le> length (waiting q (g_niceness g))"
  shows "take k (enqueue_job_requests_group g q) = take k q"
  using assms
proof (induction q arbitrary: k)
  case (Cons h q)
  show ?case
  proof (cases "g_niceness g < g_niceness h")
    case True
    then have "waiting (h # q) (g_niceness g) = []"
      using Cons.prems(1) by (intro waiting_none) auto
    with Cons.prems(3) show ?thesis
      by simp
  next
    case False
    with Cons show ?thesis
      by (cases k) (auto simp: waiting_Cons split: if_splits)
  qed
qed (simp add: waiting_def)

lemma serve_round:
  assumes "q_ok q" and "\<forall>g\<in>set q. n \<le> g_niceness g" and "k \<le> length (waiting q n)"
  shows "fst (serve k q) = map (\<lambda>g. (g_key g, hd (g_l g))) (take k q)"
  using assms
proof (induction k arbitrary: q)
  case (Suc k)
  then obtain g q0 where q: "q = g # q0"
    by (cases q) (auto simp: waiting_def)
  have n: "g_niceness g = n"
  proof (rule ccontr)
    assume "g_niceness g \<noteq> n"
    then have "waiting q n = []"
      using Suc.prems(1,2) q by (intro waiting_none) (auto simp: q_ok_Cons)
    with Suc.prems(3) show False
      by simp
  qed
  define q1 where "q1 = (if tl (g_l g) = [] then q0 else enqueue_job_requests_group (g\<lparr>g_l := tl (g_l g)\<rparr>) q0)"
  have q0: "sorted (map g_niceness q0)" "\<forall>h\<in>set q0. n \<le> g_niceness h" "k \<le> length (waiting q0 n)"
    using Suc.prems q n by (auto simp: q_ok_def waiting_Cons)
  then have t: "take k q1 = take k q0"
    using n by (auto simp: q1_def intro!: take_enqueue_group)
  have p: "pop_request q = Some (g_key g, hd (g_l g), q1)"
    using pop_request_Cons Suc.prems(1) q by (simp add: q1_def)
  have "fst (serve k q1) = map (\<lambda>g. (g_key g, hd (g_l g))) (take k q1)"
  proof (rule Suc.IH)
    show "q_ok q1"
      using requests.pop_ok [OF Suc.prems(1) p] .
    show "\<forall>g\<in>set q1. n \<le> g_niceness g"
      using q0(2) n by (auto simp: q1_def)
    show "k \<le> length (waiting q1 n)"
      using q0 n by (auto simp: q1_def waiting_enqueue_group)
  qed
  with p t q show ?case
    by (auto split: prod.splits)
qed simp

lemma take_waiting:
  assumes "sorted (map g_niceness q)" and "\<forall>h\<in>set q. n \<le> g_niceness h" and "k \<le> length (waiting q n)"
  shows "map g_submitter (take k q) = take k (waiting q n)" and "\<forall>g\<in>set (take k q). g_niceness g = n"
proof -
  have "map g_submitter (take k q) = take k (waiting q n) \<and> (\<forall>g\<in>set (take k q). g_niceness g = n)"
    using assms
  proof (induction q arbitrary: k)
    case (Cons h q)
    show ?case
    proof (cases "g_niceness h = n")
      case True
      with Cons show ?thesis
        by (cases k) (auto simp: waiting_Cons)
    next
      case False
      then have "waiting (h # q) n = []"
        using Cons.prems(1,2) by (intro waiting_none) force
      with Cons.prems(3) show ?thesis
        by simp
    qed
  qed (simp add: waiting_def)
  then show "map g_submitter (take k q) = take k (waiting q n)" and "\<forall>g\<in>set (take k q). g_niceness g = n"
    by simp_all
qed

section \<open>Properties\<close>

text \<open>
  C26. Requests are served in the order of their niceness; the requests of one submitter at one
  niceness are served in the order they were made, and each is either served once or still in
  the queue: none is lost and none served twice.
\<close>

theorem queue_order:
  assumes "q_ok q"
  shows "sorted (map (\<lambda>x. snd (fst x)) (fst (serve n q)))
    \<and> (\<forall>k. map snd (filter (\<lambda>x. fst x = k) (fst (serve n q))) @ pend (snd (serve n q)) k = pend q k)"
  using requests.serve_priority [OF assms] requests.serve_fifo [OF assms] by simp

theorem queue_order_witness:
  "let q = [\<lparr>g_l = [1, 2], g_submitter = 7, g_niceness = 0\<rparr>, \<lparr>g_l = [3], g_submitter = 8, g_niceness = 0\<rparr>,
            \<lparr>g_l = [4], g_submitter = 7, g_niceness = 5\<rparr>]
   in sorted (map (\<lambda>x. snd (fst x)) (fst (serve 4 q))) \<and>
      map snd (filter (\<lambda>x. fst x = (7, 0)) (fst (serve 4 q))) @ pend (snd (serve 4 q)) (7, 0) = [1, 2]"
  using queue_order [of "[\<lparr>g_l = [1, 2], g_submitter = 7, g_niceness = 0\<rparr>, \<lparr>g_l = [3], g_submitter = 8, g_niceness = 0\<rparr>,
            \<lparr>g_l = [4], g_submitter = 7, g_niceness = 5\<rparr>]" 4]
  by (simp add: q_ok_def g_key_def pend_def del: serve_with.simps)

text \<open>
  C16. Fairness: when several submitters wait at the best niceness, one round serves one request of
  each of them, its oldest, in the order of the queue.
\<close>

theorem queue_fair:
  assumes "q_ok q" and "\<forall>g\<in>set q. n \<le> g_niceness g" and "k \<le> length (waiting q n)"
  shows "map (\<lambda>x. fst (fst x)) (fst (serve k q)) = take k (waiting q n)
    \<and> (\<forall>x\<in>set (fst (serve k q)). snd x = hd (pend q (fst x)) \<and> snd (fst x) = n)"
proof -
  have srt: "sorted (map g_niceness q)"
    using assms(1) by (simp add: q_ok_def)
  note tw = take_waiting [OF srt assms(2,3)]
  have "pend q (g_key g) = g_l g" if "g \<in> set q" for g
    using that pend_index [OF assms(1)] by (auto simp: in_set_conv_nth)
  then have "\<forall>g\<in>set (take k q). pend q (g_submitter g, n) = g_l g \<and> g_niceness g = n"
    using tw(2) by (metis g_key_def in_set_takeD)
  then show ?thesis
    using serve_round [OF assms] tw(1) by (auto simp: g_key_def o_def)
qed

theorem queue_fair_witness:
  "let q = [\<lparr>g_l = [1, 2], g_submitter = 7, g_niceness = 0\<rparr>, \<lparr>g_l = [3], g_submitter = 8, g_niceness = 0\<rparr>,
            \<lparr>g_l = [4], g_submitter = 7, g_niceness = 5\<rparr>]
   in map (\<lambda>x. fst (fst x)) (fst (serve 2 q)) = [7, 8]"
  using queue_fair [of "[\<lparr>g_l = [1, 2], g_submitter = 7, g_niceness = 0\<rparr>, \<lparr>g_l = [3], g_submitter = 8, g_niceness = 0\<rparr>,
            \<lparr>g_l = [4], g_submitter = 7, g_niceness = 5\<rparr>]" 0 2]
  by (simp add: q_ok_def g_key_def waiting_def)

text \<open>
  Adding a request puts it behind the requests of the same submitter and niceness and
  changes nothing else; the queue stays in order, with one non-empty group for each
  submitter and niceness.
\<close>

theorem enqueue_refines:
  assumes "q_ok q"
  shows "q_ok (enqueue_job_request s n j q) \<and>
    pend (enqueue_job_request s n j q) = (pend q)((s, n) := pend q (s, n) @ [j])"
  using enqueue_job_request_ok [OF assms] pend_enqueue [OF assms] by simp

theorem enqueue_refines_witness:
  "let q = [\<lparr>g_l = [1, 2], g_submitter = 7, g_niceness = 3\<rparr>, \<lparr>g_l = [4], g_submitter = 7, g_niceness = 5\<rparr>]
   in q_ok (enqueue_job_request 9 4 6 q) \<and> pend (enqueue_job_request 9 4 6 q) (9, 4) = [6]"
  using enqueue_refines [of "[\<lparr>g_l = [1, 2], g_submitter = 7, g_niceness = 3\<rparr>, \<lparr>g_l = [4], g_submitter = 7, g_niceness = 5\<rparr>]" 9 4 6]
  by (simp add: q_ok_def g_key_def pend_def)

end
