(* ===== verification/Float32.thy ===== *)
theory Float32
  imports Complex_Main
begin

text \<open>
  The C++ types \<open>float\<close> and \<open>double\<close> as far as the scheduler uses them. A finite value
  is the rational number it stands for; every operation is the exact operation followed by
  rounding to 24 or 53 significant bits, to nearest and ties to even. The exponent is not
  bounded: the scheduler's quotients of 64-bit counters and products with its constant factors
  stay far from overflow and from the subnormal range.

  What the scheduler's comparisons need from rounding is stated as the locale \<open>rounding\<close> and
  discharged for both formats.
\<close>

section \<open>Rounding\<close>

function flog2 :: "int \<Rightarrow> int" where
  "flog2 n = (if n < 2 then 0 else 1 + flog2 (n div 2))"
  by pat_completeness auto

termination
  by (relation "measure nat") auto

declare flog2.simps [simp del]

definition pow2 :: "int \<Rightarrow> rat" where
  "pow2 e = 2 powi e"

text \<open>The exponent of a positive rational: \<open>pow2 e \<le> x < pow2 (e + 1)\<close>.\<close>

definition expo :: "rat \<Rightarrow> int" where
  "expo x = (case quotient_of x of (a, b) \<Rightarrow>
     (let e = flog2 a - flog2 b in if x < pow2 e then e - 1 else e))"

definition half_even :: "rat \<Rightarrow> int" where
  "half_even q = (let f = \<lfloor>q\<rfloor>; d = q - of_int f
     in if d < 1 / 2 then f else if d > 1 / 2 then f + 1 else if even f then f else f + 1)"

definition rnd_pos :: "nat \<Rightarrow> rat \<Rightarrow> rat" where
  "rnd_pos p x = (let u = pow2 (expo x - int p + 1) in of_int (half_even (x / u)) * u)"

definition rnd :: "nat \<Rightarrow> rat \<Rightarrow> rat" where
  "rnd p x = (if x = 0 then 0 else if x < 0 then - rnd_pos p (- x) else rnd_pos p x)"

abbreviation fl32 :: "rat \<Rightarrow> rat" where "fl32 \<equiv> rnd 24"
abbreviation fl64 :: "rat \<Rightarrow> rat" where "fl64 \<equiv> rnd 53"

section \<open>What comparisons rely on\<close>

locale rounding =
  fixes fl :: "rat \<Rightarrow> rat"
  assumes fl_0: "fl 0 = 0"
    and fl_mono: "x \<le> y \<Longrightarrow> fl x \<le> fl y"
    and fl_idem: "fl (fl x) = fl x"
begin

lemma fl_nonneg: "0 \<le> x \<Longrightarrow> 0 \<le> fl x"
  using fl_mono [of 0 x] by (simp add: fl_0)

text \<open>Adding something positive to a representable number never makes it smaller.\<close>

lemma fl_add_ge: "0 \<le> d \<Longrightarrow> fl x \<le> fl (fl x + d)"
  using fl_mono [of "fl x" "fl x + d"] by (simp add: fl_idem)

end

section \<open>Correctness of the rounding\<close>

lemma pow2_pos: "0 < pow2 e"
  by (simp add: pow2_def)

lemma pow2_add: "pow2 (a + b) = pow2 a * pow2 b"
  by (simp add: pow2_def power_int_add)

lemma pow2_mono: "a \<le> b \<Longrightarrow> pow2 a \<le> pow2 b"
  by (simp add: pow2_def power_int_increasing)

lemma pow2_nat: "pow2 (int n) = 2 ^ n"
  by (simp add: pow2_def)

lemma flog2_bounds: "1 \<le> n \<Longrightarrow> 0 \<le> flog2 n \<and> 2 ^ nat (flog2 n) \<le> n \<and> n < 2 * 2 ^ nat (flog2 n)"
proof (induction n rule: flog2.induct)
  case (1 n)
  show ?case
  proof (cases "n < 2")
    case True
    with 1 show ?thesis
      by (simp add: flog2.simps [of n])
  next
    case False
    then have IH: "0 \<le> flog2 (n div 2)" "2 ^ nat (flog2 (n div 2)) \<le> n div 2" "n div 2 < 2 * 2 ^ nat (flog2 (n div 2))"
      using 1 by auto
    have "nat (1 + flog2 (n div 2)) = Suc (nat (flog2 (n div 2)))"
      using IH(1) by (simp only: Suc_nat_eq_nat_zadd1)
    moreover have "2 * t \<le> n \<and> n < 4 * t" if "t \<le> n div 2" "n div 2 < 2 * t" for t :: int
      using that by presburger
    from this [OF IH(2,3)] have "2 * 2 ^ nat (flog2 (n div 2)) \<le> n \<and> n < 4 * 2 ^ nat (flog2 (n div 2))" .
    ultimately show ?thesis
      using IH(1) False by (simp add: flog2.simps [of n])
  qed
qed

lemma expo_bounds:
  assumes "0 < x"
  shows "pow2 (expo x) \<le> x" and "x < pow2 (expo x + 1)"
proof -
  obtain a b where q: "quotient_of x = (a, b)"
    by fastforce
  have x: "x = of_int a / of_int b" and b: "0 < b"
    using q quotient_of_div quotient_of_denom_pos by blast+
  have a: "0 < a"
    using assms x b by (simp add: zero_less_divide_iff)
  define i j where "i = flog2 a" and "j = flog2 b"
  have ia: "pow2 i \<le> of_int a" "of_int a < 2 * pow2 i" and jb: "pow2 j \<le> of_int b" "of_int b < 2 * pow2 j"
  proof -
    have *: "pow2 (flog2 n) \<le> of_int n \<and> of_int n < 2 * pow2 (flog2 n)" if "0 < n" for n
    proof -
      have f: "0 \<le> flog2 n" "2 ^ nat (flog2 n) \<le> n" "n < 2 * 2 ^ nat (flog2 n)"
        using flog2_bounds [of n] that by auto
      have p: "pow2 (flog2 n) = of_int (2 ^ nat (flog2 n))"
        using f(1) pow2_nat [of "nat (flog2 n)"] by simp
      then show ?thesis
        using f(2,3) by (metis of_int_le_iff of_int_less_iff of_int_mult of_int_numeral)
    qed
    show "pow2 i \<le> of_int a" "of_int a < 2 * pow2 i" "pow2 j \<le> of_int b" "of_int b < 2 * pow2 j"
      using *[OF a] *[OF b] by (simp_all add: i_def j_def)
  qed
  have pj: "0 < pow2 j" "pow2 (i - j) * pow2 j = pow2 i" "pow2 (i - j + 1) = 2 * pow2 (i - j)" "2 * pow2 (i - j - 1) = pow2 (i - j)"
    using pow2_pos pow2_add [of "i - j" j] pow2_add [of "i - j" 1] pow2_add [of "i - j - 1" 1] by (simp_all add: pow2_def)
  have up: "x < pow2 (i - j + 1)"
  proof -
    have "x \<le> of_int a / pow2 j"
      using x jb pj(1) a b by (simp add: frac_le)
    also have "\<dots> < 2 * pow2 i / pow2 j"
      using ia pj(1) by (simp add: divide_strict_right_mono)
    also have "\<dots> = pow2 (i - j + 1)"
      using pj by (simp add: field_simps)
    finally show ?thesis .
  qed
  have low: "pow2 (i - j - 1) < x"
  proof -
    have "pow2 (i - j - 1) = pow2 i / (2 * pow2 j)"
      using pj by (simp add: field_simps)
    also have "\<dots> < pow2 i / of_int b"
      using jb pow2_pos [of i] b by (intro divide_strict_left_mono) auto
    also have "\<dots> \<le> x"
      using x ia b by (simp add: divide_right_mono)
    finally show ?thesis .
  qed
  have e: "expo x = (if x < pow2 (i - j) then i - j - 1 else i - j)"
    by (simp add: expo_def q Let_def i_def j_def)
  show "pow2 (expo x) \<le> x"
    using low by (simp add: e not_less)
  show "x < pow2 (expo x + 1)"
    using up by (simp add: e)
qed

lemma expo_unique:
  assumes "pow2 e \<le> x" and "x < pow2 (e + 1)"
  shows "expo x = e"
proof -
  have "0 < x"
    using assms(1) pow2_pos [of e] by linarith
  note b = expo_bounds [OF this]
  have "expo x < e + 1" "e < expo x + 1"
    using b assms pow2_mono [of "e + 1" "expo x"] pow2_mono [of "expo x + 1" e] by (meson leI le_less_trans less_le_not_le order.strict_trans2)+
  then show ?thesis
    by simp
qed

lemma half_even_int [simp]: "half_even (of_int k) = k"
  by (simp add: half_even_def Let_def)

lemma half_even_cases: "half_even q = \<lfloor>q\<rfloor> \<or> half_even q = \<lfloor>q\<rfloor> + 1"
  by (simp add: half_even_def Let_def)

lemma half_even_mono:
  assumes "q \<le> r"
  shows "half_even q \<le> half_even r"
proof (cases "\<lfloor>q\<rfloor> = \<lfloor>r\<rfloor>")
  case True
  with assms show ?thesis
    by (auto simp: half_even_def Let_def)
next
  case False
  then have "\<lfloor>q\<rfloor> + 1 \<le> \<lfloor>r\<rfloor>"
    using floor_mono [OF assms] by simp
  then show ?thesis
    using half_even_cases [of q] half_even_cases [of r] by auto
qed

text \<open>The significand: an integer between \<open>2 ^ (p - 1)\<close> and \<open>2 ^ p\<close>.\<close>

lemma significand_bounds:
  assumes "0 < x" and "p = Suc m"
  shows "2 ^ m \<le> half_even (x / pow2 (expo x - int p + 1))" and "half_even (x / pow2 (expo x - int p + 1)) \<le> 2 ^ p"
proof -
  let ?u = "pow2 (expo x - int p + 1)"
  have u: "0 < ?u" "pow2 (expo x + 1) = 2 ^ p * ?u"
    using pow2_pos pow2_add [of "int p" "expo x - int p + 1"] by (simp_all add: pow2_nat)
  have "x / ?u \<le> of_int (2 ^ p)"
    using expo_bounds(2) [OF assms(1)] u by (simp add: divide_le_eq)
  from half_even_mono [OF this] show "half_even (x / ?u) \<le> 2 ^ p"
    by (simp only: half_even_int)
  have "pow2 (expo x) = 2 ^ m * ?u"
    using assms(2) pow2_add [of "int m" "expo x - int p + 1"] by (simp add: pow2_nat)
  then have "of_int (2 ^ m) \<le> x / ?u"
    using expo_bounds(1) [OF assms(1)] u by (simp add: le_divide_eq)
  from half_even_mono [OF this] show "2 ^ m \<le> half_even (x / ?u)"
    by (simp only: half_even_int)
qed

text \<open>A rounded value lies between the powers of two around the value.\<close>

lemma rnd_pos_bounds:
  assumes "0 < x" and "p = Suc m"
  shows "pow2 (expo x) \<le> rnd_pos p x" and "rnd_pos p x \<le> pow2 (expo x + 1)"
proof -
  let ?u = "pow2 (expo x - int p + 1)"
  have u: "0 \<le> ?u" "pow2 (expo x + 1) = 2 ^ p * ?u"
    using pow2_pos [of "expo x - int p + 1"] pow2_add [of "int p" "expo x - int p + 1"] by (simp_all add: pow2_nat)
  have u': "pow2 (expo x) = 2 ^ m * ?u"
    using pow2_add [of "int m" "expo x - int p + 1"] assms(2) by (simp add: pow2_nat)
  note h = significand_bounds [OF assms]
  have "(2 ^ m :: rat) \<le> of_int (half_even (x / ?u))" "of_int (half_even (x / ?u)) \<le> (2 ^ p :: rat)"
    using h by (metis of_int_le_iff of_int_numeral of_int_power)+
  then show "pow2 (expo x) \<le> rnd_pos p x" and "rnd_pos p x \<le> pow2 (expo x + 1)"
    using u u' by (simp_all add: rnd_pos_def Let_def mult_right_mono)
qed

lemma rnd_pos_mono:
  assumes "0 < x" and "x \<le> y" and "p = Suc m"
  shows "rnd_pos p x \<le> rnd_pos p y"
proof (cases "expo x = expo y")
  case True
  let ?u = "pow2 (expo x - int p + 1)"
  have "half_even (x / ?u) \<le> half_even (y / ?u)"
    using assms(2) pow2_pos [of "expo x - int p + 1"] by (intro half_even_mono divide_right_mono) auto
  then show ?thesis
    using True pow2_pos [of "expo x - int p + 1"] by (simp add: rnd_pos_def Let_def)
next
  case False
  have y: "0 < y"
    using assms(1,2) by simp
  have "\<not> expo y < expo x"
  proof
    assume "expo y < expo x"
    then have "pow2 (expo y + 1) \<le> pow2 (expo x)"
      by (intro pow2_mono) simp
    with expo_bounds(1) [OF assms(1)] expo_bounds(2) [OF y] assms(2) show False
      by linarith
  qed
  with False have "pow2 (expo x + 1) \<le> pow2 (expo y)"
    by (intro pow2_mono) simp
  with rnd_pos_bounds(2) [OF assms(1,3)] rnd_pos_bounds(1) [OF y assms(3)] show ?thesis
    by linarith
qed

lemma rnd_pos_idem:
  assumes "0 < x" and "p = Suc m"
  shows "rnd_pos p (rnd_pos p x) = rnd_pos p x"
proof -
  let ?r = "rnd_pos p x" and ?u = "pow2 (expo x - int p + 1)"
  have u: "0 < ?u"
    by (rule pow2_pos)
  show ?thesis
  proof (cases "?r < pow2 (expo x + 1)")
    case True
    then have "expo ?r = expo x"
      using rnd_pos_bounds(1) [OF assms] by (intro expo_unique)
    moreover have "?r / ?u = of_int (half_even (x / ?u))"
      using u by (simp add: rnd_pos_def Let_def)
    ultimately show ?thesis
      by (simp add: rnd_pos_def [of p ?r] Let_def) (simp add: rnd_pos_def Let_def)
  next
    case False
    then have r: "?r = pow2 (expo x + 1)"
      using rnd_pos_bounds(2) [OF assms] by simp
    have e: "expo (pow2 (expo x + 1)) = expo x + 1"
      using pow2_pos [of "expo x + 1"] pow2_add [of "expo x + 1" 1] by (intro expo_unique) (simp_all add: pow2_def)
    have "pow2 (expo x + 1) = of_int (2 ^ m) * pow2 (expo x + 1 - int p + 1)"
      using assms(2) pow2_add [of "int m" "expo x + 1 - int p + 1"] by (simp add: pow2_nat)
    then have "pow2 (expo x + 1) / pow2 (expo x + 1 - int p + 1) = of_int (2 ^ m)"
      using pow2_pos [of "expo x + 1 - int p + 1"] by (simp add: divide_eq_eq)
    then show ?thesis
      unfolding r rnd_pos_def [of p "pow2 (expo x + 1)"] Let_def e
      using pow2_pos [of "expo x + 1 - int p + 1"] by (simp only: half_even_int) (simp add: field_simps)
  qed
qed

lemma rnd_pos_pos: "0 < x \<Longrightarrow> p = Suc m \<Longrightarrow> 0 < rnd_pos p x"
  using rnd_pos_bounds(1) [of x p m] pow2_pos [of "expo x"] by linarith

lemma rounding_rnd: "p = Suc m \<Longrightarrow> rounding (rnd p)"
proof
  assume p: "p = Suc m"
  show "rnd p 0 = 0"
    by (simp add: rnd_def)
  fix x y :: rat
  show "rnd p (rnd p x) = rnd p x"
    using rnd_pos_pos [OF _ p, of x] rnd_pos_pos [OF _ p, of "- x"] rnd_pos_idem [OF _ p, of x] rnd_pos_idem [OF _ p, of "- x"]
    by (auto simp: rnd_def)
  assume "x \<le> y"
  then show "rnd p x \<le> rnd p y"
    using rnd_pos_pos [OF _ p, of y] rnd_pos_pos [OF _ p, of "- x"] rnd_pos_mono [OF _ _ p, of x y] rnd_pos_mono [OF _ _ p, of "- y" "- x"]
    by (auto simp: rnd_def not_less intro: order.strict_implies_order order_trans)
qed

interpretation f32: rounding fl32
  by (rule rounding_rnd [of _ 23]) simp

interpretation f64: rounding fl64
  by (rule rounding_rnd [of _ 52]) simp

lemma rnd_examples:
  "fl32 (1 / 10) = 13421773 / 134217728" "fl32 16777217 = 16777216" "fl32 16777219 = 16777220" "fl32 (- 3 / 4) = - 3 / 4"
  by code_simp+

end
