(* ===== verification/SchedAlgo.thy ===== *)
theory SchedAlgo
  imports CompileServer Float32
begin

unbundle bit_operations_syntax

text \<open>
  Choosing a server for a job (\<open>scheduler/scheduling_algo.cpp\<close>, and \<open>server_speed\<close>, \<open>envs_match\<close>,
  \<open>filter_ineligible_servers\<close>, \<open>pick_server*\<close> of \<open>scheduler/scheduler.cpp\<close>).

  A list of servers is a list of candidates: addresses with the objects they point to. The
  submitter's object is \<open>sub\<close>, the next value of \<open>random()\<close> is \<open>r\<close>. Values of type \<open>float\<close>
  are rationals, rounded after every operation as C++ does (an operation with a \<open>double\<close> constant is
  rounded as \<open>double\<close> and again when it is stored).
\<close>

type_synonym cand = "cs_ptr \<times> compile_server"

section \<open>Speed of a server\<close>

definition float_u64 :: "u64 \<Rightarrow> rat" where
  "float_u64 w = fl32 (of_int (uint w))"

definition float_int :: "int \<Rightarrow> rat" where
  "float_int i = fl32 (of_int i)"

text \<open>\<open>f *= d\<close> with a \<open>float\<close> \<open>f\<close> and a \<open>double\<close> \<open>d\<close>.\<close>

definition mul_double :: "rat \<Rightarrow> rat \<Rightarrow> rat" where
  "mul_double f d = fl32 (fl64 (f * d))"

definition STATS_UPDATE_WEIGHT :: nat where
  "STATS_UPDATE_WEIGHT = 120"

definition server_speed :: "cs_ptr \<Rightarrow> compile_server \<Rightarrow> job option \<Rightarrow> rat" where
  "server_speed this c job =
     (if cs_lastCompiledJobs c = [] \<or> compileTimeUser (cs_cumCompiled c) = 0 then 0
      else
        let f = fl32 (float_u64 (outputSize (cs_cumCompiled c)) / float_u64 (compileTimeUser (cs_cumCompiled c)));
            f1 = (case job of
                    None \<Rightarrow> f
                  | Some j \<Rightarrow>
                      let f2 = (if j_submitter j = this then
                                  let clientCount = (if cs_clientCount c = 0 then cs_submittedJobsCount c else cs_clientCount c)
                                  in if clientCount > cs_maxJobs c then mul_double f (fl64 (1 / 10))
                                     else if clientCount = cs_maxJobs c then mul_double f (fl64 (8 / 10))
                                     else if clientCount \<le> cs_maxJobs c sdiv 2 then mul_double f (fl64 (11 / 10))
                                     else f
                                else fl32 (f * fl32 (fl32 (of_int (uint (1000 - cs_load c))) / 1000)))
                      in fl32 (f2 * fl32 (1 - fl32 (fl32 (1 / 2 * float_int (currentJobCount c)) / float_int (cs_maxJobs c)))))
        in if length (cs_lastCompiledJobs c) < 7
           then mul_double f1 (- (1 / 2) * of_nat (length (cs_lastCompiledJobs c)) + 9 / 2)
           else f1)"

text \<open>The weight is a \<open>uint8_t\<close>; the difference of the ids is taken modulo \<open>2 ^ 32\<close>.\<close>

definition should_refresh_stats :: "u32 \<Rightarrow> u32 \<Rightarrow> nat \<Rightarrow> nat \<Rightarrow> bool" where
  "should_refresh_stats job_id last_picked_id eligible_count weight \<longleftrightarrow>
     weight \<noteq> 255 \<and>
     (last_picked_id = 0 \<or>
      (let weight_factor = fl32 (fl32 (255 - of_nat weight) / 255)
       in fl32 (of_int (uint (job_id - last_picked_id))) > fl32 (weight_factor * fl32 (of_nat eligible_count))))"

section \<open>Environments\<close>

definition envs_match :: "cs_ptr \<Rightarrow> compile_server \<Rightarrow> job \<Rightarrow> string" where
  "envs_match this c job =
     (if j_submitter job = this then cs_hostPlatform c
      else case find (\<lambda>(it, it2). snd it = snd it2 \<and> platforms_compatible c (fst it2))
             (concat (map (\<lambda>it. map (Pair it) (j_environments job))
                (filter (\<lambda>it. fst it = j_targetPlatform job) (cs_compilerVersions c)))) of
             None \<Rightarrow> '''' | Some (it, it2) \<Rightarrow> fst it2)"

section \<open>Candidates\<close>

definition filter_ineligible_servers :: "cand list \<Rightarrow> compile_server \<Rightarrow> job \<Rightarrow> cand list" where
  "filter_ineligible_servers css sub job =
     filter (\<lambda>(p, c). is_eligible_now p c sub job \<and> can_install p c sub job False \<noteq> ''''
               \<and> (cs_chrootPossible c \<or> p = j_submitter job) \<and> check_remote p c job) css"

definition pick_server_random :: "nat \<Rightarrow> cand list \<Rightarrow> cand option" where
  "pick_server_random r eligible =
     (if eligible = [] then None else Some (eligible ! (r mod length eligible)))"

fun round_robin_loop :: "cand option \<Rightarrow> u32 \<Rightarrow> cand list \<Rightarrow> cand option" where
  "round_robin_loop selected oldest_job [] = selected"
| "round_robin_loop selected oldest_job (x # xs) =
     (if selected = None \<or> cs_lastPickedId (snd x) < oldest_job
      then round_robin_loop (Some x) (cs_lastPickedId (snd x)) xs
      else round_robin_loop selected oldest_job xs)"

definition pick_server_round_robin :: "cand list \<Rightarrow> cand option" where
  "pick_server_round_robin eligible = round_robin_loop None 0 eligible"

definition server_load :: "u32 \<Rightarrow> compile_server \<Rightarrow> rat" where
  "server_load submission_weight c =
     (let jobs = float_int (max 0 (currentJobCount c));
          effective_jobs = (if submission_weight > 0
            then fl32 (jobs + fl32 (float_int (max 0 (cs_submittedJobsCount c)) / float_int (uint submission_weight)))
            else jobs)
      in fl32 (effective_jobs / float_int (cs_maxJobs c)))"

fun min_load_loop :: "u32 \<Rightarrow> rat \<Rightarrow> cand list \<Rightarrow> rat" where
  "min_load_loop w min_load [] = min_load"
| "min_load_loop w min_load (x # xs) =
     (if cs_maxJobs (snd x) \<noteq> 0 \<and> (min_load < 0 \<or> server_load w (snd x) < min_load)
      then min_load_loop w (server_load w (snd x)) xs
      else min_load_loop w min_load xs)"

definition load_epsilon :: rat where
  "load_epsilon = fl32 (1 / 1000000)"

definition pick_server_least_busy :: "u32 \<Rightarrow> cand list \<Rightarrow> cand option" where
  "pick_server_least_busy w eligible =
     (let m = min_load_loop w (- 1) eligible;
          min_load = (if m < 0 then 0 else m)
      in pick_server_round_robin
           (filter (\<lambda>x. cs_maxJobs (snd x) \<noteq> 0 \<and> server_load w (snd x) \<le> fl32 (min_load + load_epsilon)) eligible))"

fun pick_new_loop :: "job \<Rightarrow> cand option \<Rightarrow> cand list \<Rightarrow> cand option" where
  "pick_new_loop job selected [] = selected"
| "pick_new_loop job selected ((p, c) # xs) =
     (if cs_lastCompiledJobs c = [] \<and> currentJobCount c = 0 \<and> cs_maxJobs c \<noteq> 0
         \<and> (selected = None \<or> envs_match p c job \<noteq> '''')
      then pick_new_loop job (Some (p, c)) xs
      else pick_new_loop job selected xs)"

definition pick_server_new :: "job \<Rightarrow> cand list \<Rightarrow> cand option" where
  "pick_server_new job eligible = pick_new_loop job None eligible"

text \<open>
  The loop of \<open>pick_server_fastest\<close> with \<open>best\<close>, \<open>bestui\<close> and \<open>bestpre\<close>; the \<open>break\<close> ends
  it. \<open>n\<close> is the number of all eligible servers.
\<close>

definition faster :: "job \<Rightarrow> cand \<Rightarrow> cand \<Rightarrow> bool" where
  "faster job b x \<longleftrightarrow> cs_lastCompiledJobs (snd b) \<noteq> [] \<and>
     server_speed (fst b) (snd b) (Some job) < server_speed (fst x) (snd x) (Some job)"

fun fastest_loop :: "job \<Rightarrow> nat \<Rightarrow> cand option \<times> cand option \<times> cand option \<Rightarrow> cand list \<Rightarrow>
    cand option \<times> cand option \<times> cand option" where
  "fastest_loop job n bs [] = bs"
| "fastest_loop job n (best, bestui, bestpre) ((p, c) # xs) =
     (if should_refresh_stats (j_id job) (cs_lastPickedId c) n STATS_UPDATE_WEIGHT
      then (Some (p, c), bestui, bestpre)
      else if envs_match p c job \<noteq> '''' then
        (case best of
           None \<Rightarrow> fastest_loop job n (Some (p, c), bestui, bestpre) xs
         | Some b \<Rightarrow>
             if faster job b (p, c)
             then (if currentJobCount c < cs_maxJobs c
                   then fastest_loop job n (Some (p, c), bestui, bestpre) xs
                   else fastest_loop job n (best, bestui, Some (p, c)) xs)
             else fastest_loop job n (best, bestui, bestpre) xs)
      else
        (case bestui of
           None \<Rightarrow> fastest_loop job n (best, Some (p, c), bestpre) xs
         | Some b \<Rightarrow>
             if faster job b (p, c)
             then (if currentJobCount c < cs_maxJobs c
                   then fastest_loop job n (best, Some (p, c), bestpre) xs
                   else fastest_loop job n (best, bestui, Some (p, c)) xs)
             else fastest_loop job n (best, bestui, bestpre) xs))"

definition pick_server_fastest :: "bool \<Rightarrow> nat \<Rightarrow> job \<Rightarrow> cand list \<Rightarrow> cand option" where
  "pick_server_fastest have_stats r job eligible =
     (if \<not> have_stats then pick_server_random r eligible
      else case pick_server_new job eligible of
             Some b \<Rightarrow> Some b
           | None \<Rightarrow>
               (case fastest_loop job (length eligible) (None, None, None) eligible of
                  (Some best, _, _) \<Rightarrow> Some best
                | (None, Some bestui, _) \<Rightarrow> Some bestui
                | (None, None, bestpre) \<Rightarrow> bestpre))"

datatype algorithm = NONE | RANDOM | ROUND_ROBIN | LEAST_BUSY | FASTEST | UNDEFINED

definition pick_server :: "cand list \<Rightarrow> compile_server \<Rightarrow> algorithm \<Rightarrow> u32 \<Rightarrow> bool \<Rightarrow> nat \<Rightarrow> job \<Rightarrow> cand option" where
  "pick_server css sub algo submission_weight have_stats r job =
     (let eligible = filter_ineligible_servers css sub job
      in if j_preferredHost job \<noteq> '''' then
           find (\<lambda>(p, c). matches c (j_preferredHost job) \<and> is_eligible_now p c sub job) css
         else
           (case eligible of
              [] \<Rightarrow> None
            | [x] \<Rightarrow> Some x
            | _ \<Rightarrow>
                (case algo of
                   ROUND_ROBIN \<Rightarrow> pick_server_round_robin eligible
                 | LEAST_BUSY \<Rightarrow> pick_server_least_busy submission_weight eligible
                 | FASTEST \<Rightarrow> pick_server_fastest have_stats r job eligible
                 | _ \<Rightarrow> pick_server_random r eligible)))"

section \<open>Every algorithm picks one of its candidates\<close>

text \<open>The contract of a selection: it picks one of the servers it is given, and picks one when it may.\<close>

locale selection =
  fixes pick :: "cand list \<Rightarrow> cand option"
    and usable :: "cand \<Rightarrow> bool"
  assumes pick_mem: "pick xs = Some x \<Longrightarrow> x \<in> set xs"
    and pick_some: "xs \<noteq> [] \<Longrightarrow> \<forall>x\<in>set xs. usable x \<Longrightarrow> pick xs \<noteq> None"
begin

lemma pick_usable:
  assumes "\<forall>x\<in>set xs. usable x"
  shows "(\<exists>x\<in>set xs. pick xs = Some x) \<longleftrightarrow> xs \<noteq> []"
proof
  assume "xs \<noteq> []"
  then obtain x where "pick xs = Some x"
    using pick_some [OF _ assms] by auto
  with pick_mem show "\<exists>x\<in>set xs. pick xs = Some x"
    by blast
qed auto

end

lemma filter_eligible: "filter_ineligible_servers css sub job = filter (\<lambda>(p, c). is_eligible_now p c sub job) css"
proof -
  have "can_install p c sub job False \<noteq> '''' \<and> (cs_chrootPossible c \<or> p = j_submitter job) \<and> check_remote p c job"
    if "is_eligible_now p c sub job" for p c
    using that by (auto simp: is_eligible_now_def is_eligible_ever_def Let_def)
  then show ?thesis
    unfolding filter_ineligible_servers_def by (intro filter_cong) auto
qed

subsection \<open>Round robin\<close>

lemma round_robin_loop_min:
  "\<exists>x. round_robin_loop (Some y) (cs_lastPickedId (snd y)) xs = Some x \<and> x \<in> insert y (set xs)
     \<and> (\<forall>z\<in>insert y (set xs). cs_lastPickedId (snd x) \<le> cs_lastPickedId (snd z))"
proof (induction xs arbitrary: y)
  case (Cons a xs)
  show ?case
  proof (cases "cs_lastPickedId (snd a) < cs_lastPickedId (snd y)")
    case True
    with Cons.IH [of a] show ?thesis
      by (auto intro: order.trans [OF _ order.strict_implies_order])
  next
    case False
    with Cons.IH [of y] show ?thesis
      by (auto simp: not_less intro: order.trans)
  qed
qed simp

lemma round_robin_pick:
  assumes "xs \<noteq> []"
  shows "\<exists>x\<in>set xs. pick_server_round_robin xs = Some x \<and> (\<forall>z\<in>set xs. cs_lastPickedId (snd x) \<le> cs_lastPickedId (snd z))"
proof -
  obtain y ys where "xs = y # ys"
    using assms by (cases xs) auto
  with round_robin_loop_min [of y ys] show ?thesis
    by (auto simp: pick_server_round_robin_def)
qed

interpretation round_robin: selection pick_server_round_robin "\<lambda>_. True"
proof
  fix xs x
  show "pick_server_round_robin xs = Some x \<Longrightarrow> x \<in> set xs"
    using round_robin_pick [of xs] by (cases "xs = []") (auto simp: pick_server_round_robin_def)
qed (use round_robin_pick in fastforce)

interpretation random_pick: selection "pick_server_random r" "\<lambda>_. True" for r
  by unfold_locales (auto simp: pick_server_random_def split: if_splits dest!: sym [of "_ ! _"])

subsection \<open>Least busy\<close>

lemma float_int_nonneg: "0 \<le> i \<Longrightarrow> 0 \<le> float_int i"
  by (simp add: float_int_def f32.fl_nonneg)

lemma server_load_nonneg: "0 < cs_maxJobs c \<Longrightarrow> 0 \<le> server_load w c"
  by (simp add: server_load_def Let_def float_int_nonneg f32.fl_nonneg)

lemma min_load_loop_min:
  assumes "\<forall>x\<in>set xs. 0 < cs_maxJobs (snd x)" and "0 \<le> m"
  shows "min_load_loop w m xs \<le> m \<and> (\<forall>x\<in>set xs. min_load_loop w m xs \<le> server_load w (snd x))
    \<and> (min_load_loop w m xs = m \<or> (\<exists>x\<in>set xs. min_load_loop w m xs = server_load w (snd x)))"
  using assms
proof (induction xs arbitrary: m)
  case (Cons x xs)
  note IH = Cons.IH [of m] Cons.IH [of "server_load w (snd x)"]
  have "0 \<le> server_load w (snd x)"
    using Cons.prems(1) by (simp add: server_load_nonneg)
  with Cons.prems IH show ?case
    by (cases "server_load w (snd x) < m") (auto intro: order.trans)
qed simp

lemma min_load_pick:
  assumes "\<forall>x\<in>set xs. 0 < cs_maxJobs (snd x)" and "xs \<noteq> []"
  obtains x where "x \<in> set xs" and "min_load_loop w (- 1) xs = server_load w (snd x)"
    and "\<forall>z\<in>set xs. server_load w (snd x) \<le> server_load w (snd z)"
proof -
  obtain y ys where xs: "xs = y # ys"
    using assms(2) by (cases xs) auto
  have "0 \<le> server_load w (snd y)" "cs_maxJobs (snd y) \<noteq> 0"
    using assms(1) xs by (auto simp: server_load_nonneg)
  then have "\<exists>x\<in>set xs. min_load_loop w (- 1) xs = server_load w (snd x) \<and> (\<forall>z\<in>set xs. server_load w (snd x) \<le> server_load w (snd z))"
    using min_load_loop_min [of ys "server_load w (snd y)" w] assms(1) xs by fastforce
  then show ?thesis
    using that by blast
qed

lemma least_busy_pick:
  assumes pos: "\<forall>x\<in>set xs. 0 < cs_maxJobs (snd x)" and "xs \<noteq> []"
  shows "\<exists>x\<in>set xs. pick_server_least_busy w xs = Some x \<and>
    (\<forall>z\<in>set xs. server_load w (snd x) \<le> fl32 (server_load w (snd z) + load_epsilon))"
proof -
  obtain m where m: "m \<in> set xs" "min_load_loop w (- 1) xs = server_load w (snd m)"
      "\<forall>z\<in>set xs. server_load w (snd m) \<le> server_load w (snd z)"
    using min_load_pick [OF assms] by metis
  have m0: "0 \<le> server_load w (snd m)"
    using m(1) pos by (simp add: server_load_nonneg)
  have eps: "0 \<le> load_epsilon"
    by (simp add: load_epsilon_def f32.fl_nonneg)
  let ?l = "filter (\<lambda>x. cs_maxJobs (snd x) \<noteq> 0 \<and> server_load w (snd x) \<le> fl32 (server_load w (snd m) + load_epsilon)) xs"
  have "server_load w (snd m) \<le> fl32 (server_load w (snd m) + load_epsilon)"
    using f32.fl_add_ge [OF eps] by (simp add: server_load_def Let_def)
  then have "m \<in> set ?l"
    using m(1) pos by auto
  then have "?l \<noteq> []"
    by force
  from round_robin_pick [OF this] obtain x where x: "x \<in> set ?l" "pick_server_round_robin ?l = Some x"
    by auto
  have "pick_server_least_busy w xs = Some x"
    using x(2) m(2) m0 by (simp add: pick_server_least_busy_def Let_def)
  moreover have "server_load w (snd x) \<le> fl32 (server_load w (snd z) + load_epsilon)" if "z \<in> set xs" for z
    using x(1) m(3) that f32.fl_mono [of "server_load w (snd m) + load_epsilon" "server_load w (snd z) + load_epsilon"]
    by (auto intro: order.trans)
  ultimately show ?thesis
    using x(1) by auto
qed

interpretation least_busy: selection "pick_server_least_busy w" "\<lambda>x. 0 < cs_maxJobs (snd x)" for w
proof
  fix xs x
  show "pick_server_least_busy w xs = Some x \<Longrightarrow> x \<in> set xs"
    by (auto simp: pick_server_least_busy_def Let_def dest: round_robin.pick_mem)
qed (use least_busy_pick in fastforce)

subsection \<open>Fastest\<close>

lemma pick_new_mem: "pick_new_loop job selected xs = Some x \<Longrightarrow> x \<in> set xs \<or> selected = Some x"
  by (induction job selected xs rule: pick_new_loop.induct) (auto split: if_splits)

lemma fastest_loop_mem:
  assumes "fastest_loop job n (best, bestui, bestpre) xs = (b1, b2, b3)"
  shows "set_option b1 \<union> set_option b2 \<union> set_option b3
    \<subseteq> set xs \<union> set_option best \<union> set_option bestui \<union> set_option bestpre"
  using assms
proof (induction xs arbitrary: best bestui bestpre)
  case (Cons x xs)
  obtain p c where x: "x = (p, c)"
    by fastforce
  show ?case
    using Cons.prems Cons.IH [of "Some x" bestui bestpre] Cons.IH [of best bestui "Some x"] Cons.IH [of best bestui bestpre]
      Cons.IH [of best "Some x" bestpre]
    by (auto simp: x split: if_splits option.splits)
qed auto

text \<open>After the first candidate there is a best server with the environment or one without.\<close>

lemma fastest_loop_some:
  assumes "best \<noteq> None \<or> bestui \<noteq> None" and "fastest_loop job n (best, bestui, bestpre) xs = (b1, b2, b3)"
  shows "b1 \<noteq> None \<or> b2 \<noteq> None"
  using assms
proof (induction xs arbitrary: best bestui bestpre)
  case (Cons x xs)
  obtain p c where x: "x = (p, c)"
    by fastforce
  show ?case
    using Cons.prems Cons.IH [of "Some x" bestui bestpre] Cons.IH [of best bestui "Some x"] Cons.IH [of best bestui bestpre]
      Cons.IH [of best "Some x" bestpre]
    by (auto simp: x split: if_splits option.splits)
qed auto

lemma fastest_loop_first:
  assumes "xs \<noteq> []" and "fastest_loop job n (None, None, None) xs = (b1, b2, b3)"
  shows "b1 \<noteq> None \<or> b2 \<noteq> None"
  using assms fastest_loop_some
  by (cases xs) (auto split: if_splits; blast)+

interpretation fastest: selection "pick_server_fastest have_stats r job" "\<lambda>_. True" for have_stats r job
proof
  fix xs x
  obtain b1 b2 b3 where b: "fastest_loop job (length xs) (None, None, None) xs = (b1, b2, b3)"
    by (metis prod_cases3)
  show "x \<in> set xs" if "pick_server_fastest have_stats r job xs = Some x"
    using that fastest_loop_mem [OF b] b
    by (auto simp: pick_server_fastest_def pick_server_new_def split: if_splits option.splits
        dest: random_pick.pick_mem pick_new_mem)
  show "pick_server_fastest have_stats r job xs \<noteq> None" if "xs \<noteq> []"
    using fastest_loop_first [OF that b] b random_pick.pick_some [OF that]
    by (auto simp: pick_server_fastest_def split: option.splits)
qed

definition installed :: "job \<Rightarrow> cand \<Rightarrow> bool" where
  "installed job x \<longleftrightarrow> envs_match (fst x) (snd x) job \<noteq> ''''"

definition has_slot :: "cand \<Rightarrow> bool" where
  "has_slot x \<longleftrightarrow> currentJobCount (snd x) < cs_maxJobs (snd x)"

definition speed :: "job \<Rightarrow> cand \<Rightarrow> rat" where
  "speed job x = server_speed (fst x) (snd x) (Some job)"

text \<open>Servers with statistics that are recent enough.\<close>

definition measured :: "job \<Rightarrow> nat \<Rightarrow> cand \<Rightarrow> bool" where
  "measured job n x \<longleftrightarrow> cs_lastCompiledJobs (snd x) \<noteq> [] \<and>
     \<not> should_refresh_stats (j_id job) (cs_lastPickedId (snd x)) n STATS_UPDATE_WEIGHT"

lemma fastest_loop_best:
  assumes "\<forall>x\<in>set xs. measured job n x" and "\<forall>b\<in>set_option best. cs_lastCompiledJobs (snd b) \<noteq> []"
    and "fastest_loop job n (best, bestui, bestpre) xs = (b1, b2, b3)"
  shows "(\<forall>z. best = Some z \<or> z \<in> set xs \<and> installed job z \<and> has_slot z \<longrightarrow> (\<exists>x. b1 = Some x \<and> speed job z \<le> speed job x))
    \<and> (\<forall>x. b1 = Some x \<longrightarrow> best = Some x \<or> x \<in> set xs \<and> installed job x)"
  using assms
proof (induction xs arbitrary: best bestui bestpre)
  case (Cons x xs)
  obtain p c where x: "x = (p, c)"
    by fastforce
  have m: "cs_lastCompiledJobs c \<noteq> []" "\<not> should_refresh_stats (j_id job) (cs_lastPickedId c) n STATS_UPDATE_WEIGHT"
    using Cons.prems(1) by (simp_all add: measured_def x)
  have xs: "\<forall>x\<in>set xs. measured job n x"
    using Cons.prems(1) by simp
  show ?case
  proof (cases "installed job x")
    case False
    then obtain ui pre where "fastest_loop job n (best, ui, pre) xs = (b1, b2, b3)"
      using Cons.prems(3) m(2) by (auto simp: x installed_def split: option.splits if_splits)
    from Cons.IH [OF xs Cons.prems(2) this] False show ?thesis
      by auto
  next
    case True
    consider (new) "best = None \<or> (\<exists>b. best = Some b \<and> faster job b x \<and> has_slot x)"
      | (old) b where "best = Some b" "\<not> (faster job b x \<and> has_slot x)"
      by (cases best) auto
    then show ?thesis
    proof cases
      case new
      then have "fastest_loop job n (Some x, bestui, bestpre) xs = (b1, b2, b3)"
        using Cons.prems(3) m(2) True by (auto simp: x installed_def has_slot_def split: option.splits)
      from Cons.IH [OF xs _ this] m(1) new show ?thesis
        by (auto simp: x faster_def speed_def True [unfolded x]) (metis order.strict_trans2 order_less_imp_le)+
    next
      case old
      then obtain pre where f: "fastest_loop job n (best, bestui, pre) xs = (b1, b2, b3)"
        using Cons.prems(3) m(2) True by (auto simp: x installed_def has_slot_def split: option.splits if_splits)
      have "has_slot x \<Longrightarrow> speed job x \<le> speed job b"
        using old Cons.prems(2) by (auto simp: faster_def speed_def)
      moreover note IH = Cons.IH [OF xs Cons.prems(2) f]
      moreover obtain y where "b1 = Some y" "speed job b \<le> speed job y"
        using IH old(1) by blast
      ultimately show ?thesis
        using old(1) by (auto intro: order.trans)
    qed
  qed
qed auto

lemma pick_new_none: "\<forall>x\<in>set xs. cs_lastCompiledJobs (snd x) \<noteq> [] \<Longrightarrow> pick_new_loop job None xs = None"
  by (induction xs) auto

lemma pick_server_cases:
  "case pick_server css sub algo w have_stats r job of
     Some (p, c) \<Rightarrow> (p, c) \<in> set css \<and> is_eligible_now p c sub job
       \<and> (j_preferredHost job \<noteq> '''' \<longrightarrow> matches c (j_preferredHost job))
   | None \<Rightarrow> \<forall>(p, c)\<in>set css. is_eligible_now p c sub job \<longrightarrow>
       j_preferredHost job \<noteq> '''' \<and> \<not> matches c (j_preferredHost job)"
proof (cases "j_preferredHost job = ''''")
  case False
  then show ?thesis
    by (auto simp: pick_server_def Let_def find_None_iff split: option.splits dest!: find_SomeD)
next
  case True
  define E where "E = filter_ineligible_servers css sub job"
  have E: "E = filter (\<lambda>(p, c). is_eligible_now p c sub job) css"
    by (simp add: E_def filter_eligible)
  have pos: "\<forall>x\<in>set E. 0 < cs_maxJobs (snd x)"
    by (auto simp: E is_eligible_now_def is_eligible_ever_def)
  show ?thesis
  proof (cases "E = []")
    case empty: True
    then have "pick_server css sub algo w have_stats r job = None"
      using True by (simp add: pick_server_def Let_def flip: E_def)
    with empty E show ?thesis
      by (auto simp: filter_empty_conv)
  next
    case False
    note picks = round_robin.pick_usable [of E] least_busy.pick_usable [OF pos, of w] fastest.pick_usable [of E have_stats r job]
      random_pick.pick_usable [of E r]
    have "\<exists>x\<in>set E. pick_server css sub algo w have_stats r job = Some x"
    proof (cases E rule: remdups_adj.cases)
      case (3 x y xs)
      then show ?thesis
        using picks True False by (cases algo) (simp_all add: pick_server_def Let_def flip: E_def)
    qed (use True False in \<open>simp_all add: pick_server_def Let_def flip: E_def\<close>)
    then obtain p c where x: "(p, c) \<in> set E" "pick_server css sub algo w have_stats r job = Some (p, c)"
      by auto
    then show ?thesis
      using True E by simp
  qed
qed

text \<open>Whether a server is picked depends on neither the algorithm nor the random number.\<close>

lemma pick_server_None:
  assumes "pick_server css sub algo w h r job = None"
  shows "pick_server css sub algo' w' h' r' job = None"
proof (cases "pick_server css sub algo' w' h' r' job")
  case (Some x)
  then obtain p c where "pick_server css sub algo' w' h' r' job = Some (p, c)"
    by (cases x) auto
  then show ?thesis
    using pick_server_cases [where css = css and sub = sub and algo = algo' and w = w' and have_stats = h' and r = r' and job = job]
      pick_server_cases [where css = css and sub = sub and algo = algo and w = w and have_stats = h and r = r and job = job] assms
    by auto
qed

section \<open>Properties\<close>

text \<open>
  C17. A server picked for a job is one of the connected servers and eligible for the job now, and it
  is the preferred host when the job names one; and a server is picked whenever there is one that
  may be: no algorithm fails while a connected server is eligible.
\<close>

theorem pick_server_correct:
  "case pick_server css sub algo w have_stats r job of
     Some (p, c) \<Rightarrow> (p, c) \<in> set css \<and> is_eligible_now p c sub job
       \<and> (j_preferredHost job \<noteq> '''' \<longrightarrow> matches c (j_preferredHost job))
   | None \<Rightarrow> \<forall>(p, c)\<in>set css. is_eligible_now p c sub job \<longrightarrow>
       j_preferredHost job \<noteq> '''' \<and> \<not> matches c (j_preferredHost job)"
  by (rule pick_server_cases)

text \<open>
  Round robin takes a server whose last job is the oldest.
\<close>

theorem round_robin_oldest:
  assumes "xs \<noteq> []"
  shows "\<exists>x\<in>set xs. pick_server_round_robin xs = Some x \<and> (\<forall>z\<in>set xs. cs_lastPickedId (snd x) \<le> cs_lastPickedId (snd z))"
  using round_robin_pick [OF assms] .

text \<open>
  Least busy takes a server whose load exceeds no other server's by more than the tolerance of the
  comparison.
\<close>

theorem least_busy_least:
  assumes "\<forall>x\<in>set xs. 0 < cs_maxJobs (snd x)" and "xs \<noteq> []"
  shows "\<exists>x\<in>set xs. pick_server_least_busy w xs = Some x \<and>
    (\<forall>z\<in>set xs. server_load w (snd x) \<le> fl32 (server_load w (snd z) + load_epsilon))"
  using least_busy_pick [OF assms] .

text \<open>
  When all candidates have recent statistics and one of them has the environment and a free
  slot, the fastest algorithm takes a server with the environment that is at least as fast for
  this job as every server with the environment and a free slot.
\<close>

theorem fastest_is_fastest:
  assumes "\<forall>x\<in>set xs. measured job (length xs) x" and "y \<in> set xs" and "installed job y" and "has_slot y"
  shows "\<exists>x\<in>set xs. pick_server_fastest True r job xs = Some x \<and> installed job x
    \<and> (\<forall>z\<in>set xs. installed job z \<and> has_slot z \<longrightarrow> speed job z \<le> speed job x)"
proof -
  obtain b1 b2 b3 where b: "fastest_loop job (length xs) (None, None, None) xs = (b1, b2, b3)"
    by (metis prod_cases3)
  note best = fastest_loop_best [OF assms(1) _ b, simplified]
  have "pick_server_new job xs = None"
    using assms(1) by (simp add: pick_server_new_def pick_new_none measured_def)
  moreover obtain x where x: "b1 = Some x" "x \<in> set xs" "installed job x"
    using best assms(2-4) by (metis surj_pair)
  ultimately show ?thesis
    using b best by (auto simp: pick_server_fastest_def)
qed

section \<open>Examples\<close>

definition demo_server :: "int \<Rightarrow> u32 \<Rightarrow> u64 \<Rightarrow> compile_server" where
  "demo_server jobs picked sz = (CompileServer_new ((demo_chan 45 [])\<lparr>maximum_remote_protocol := 45\<rparr>) ''10.0.0.1'' ''10.0.0.1'' 5)
     \<lparr>cs_maxJobs := jobs, cs_load := 100, cs_hostPlatform := ''x86_64'', cs_chrootPossible := True,
      cs_lastPickedId := picked, cs_compilerVersions := [(''x86_64'', ''gcc'')], cs_type := DAEMON, cs_state := LOGGEDIN,
      cs_lastCompiledJobs := [JobStat_new\<lparr>outputSize := sz, compileTimeUser := 1\<rparr>],
      cs_cumCompiled := JobStat_new\<lparr>outputSize := sz, compileTimeUser := 1\<rparr>\<rparr>"

definition demo_job :: job where
  "demo_job = (Job_new 10 1)\<lparr>j_environments := [(''x86_64'', ''gcc'')], j_targetPlatform := ''x86_64''\<rparr>"

lemmas demo_defs = demo_server_def demo_job_def CompileServer_new_def Job_new_def JobStat_new_def demo_chan_def chan_init_def

lemma demo_eligible: "p \<noteq> 1 \<Longrightarrow> 0 < n \<Longrightarrow> is_eligible_now p (demo_server n i k) (demo_server 4 0 1) demo_job"
  by (simp add: is_eligible_now_def is_eligible_ever_def can_install_def platforms_compatible_def blacklisted_def
      featuresSupported_def check_remote_def currentJobCountLocal_def currentJobCountRemote_def demo_defs Let_def)

theorem pick_server_correct_witness:
  "\<exists>x\<in>{(2, demo_server 4 8 5000), (3, demo_server 4 9 9000)}.
     pick_server [(2, demo_server 4 8 5000), (3, demo_server 4 9 9000)] (demo_server 4 0 1) LEAST_BUSY 0 True 0 demo_job = Some x"
proof -
  have "j_preferredHost demo_job = ''''"
    by (simp add: demo_defs)
  then show ?thesis
    using pick_server_correct [where css = "[(2, demo_server 4 8 5000), (3, demo_server 4 9 9000)]" and sub = "demo_server 4 0 1"
        and algo = LEAST_BUSY and w = 0 and have_stats = True and r = 0 and job = demo_job]
      demo_eligible [of 2 4 8 5000]
    by (auto split: option.splits)
qed

theorem round_robin_oldest_witness:
  "\<exists>x\<in>{(2, demo_server 4 8 5000), (3, demo_server 4 7 9000)}.
     pick_server_round_robin [(2, demo_server 4 8 5000), (3, demo_server 4 7 9000)] = Some x \<and> cs_lastPickedId (snd x) \<le> 7"
  using round_robin_oldest [of "[(2, demo_server 4 8 5000), (3, demo_server 4 7 9000)]"]
  by (auto simp: demo_defs)

theorem least_busy_least_witness:
  "\<exists>x\<in>{(2, demo_server 4 8 5000), (3, demo_server 2 7 9000)}.
     pick_server_least_busy 0 [(2, demo_server 4 8 5000), (3, demo_server 2 7 9000)] = Some x"
  using least_busy_least [of "[(2, demo_server 4 8 5000), (3, demo_server 2 7 9000)]" 0]
  by (auto simp: demo_defs)

lemma demo_measured: "measured demo_job (Suc (Suc 0)) (p, demo_server 4 10 k)"
  by (simp add: measured_def should_refresh_stats_def STATS_UPDATE_WEIGHT_def demo_defs Let_def f32.fl_0 f32.fl_nonneg not_less)

lemma demo_installed: "installed demo_job (p, demo_server 4 10 k)" "has_slot (p, demo_server 4 10 k)"
  by (simp_all add: installed_def has_slot_def envs_match_def platforms_compatible_def currentJobCount_def
      currentJobCountLocal_def currentJobCountRemote_def demo_defs)

theorem fastest_is_fastest_witness:
  "\<exists>x\<in>{(2, demo_server 4 10 5000), (3, demo_server 4 10 9000)}.
     pick_server_fastest True 0 demo_job [(2, demo_server 4 10 5000), (3, demo_server 4 10 9000)] = Some x
     \<and> speed demo_job (3, demo_server 4 10 9000) \<le> speed demo_job x"
  using fastest_is_fastest [of "[(2, demo_server 4 10 5000), (3, demo_server 4 10 9000)]" demo_job "(3, demo_server 4 10 9000)" 0]
  by (simp add: demo_measured demo_installed) auto

end
