(* ===== verification/Sending.thy ===== *)
theory Sending
  imports Bounds
begin

text \<open>
  The output side of a channel (\<open>services/comm.cpp\<close>): \<open>send_msg\<close> hands whole frames to the
  kernel in order, whatever the kernel accepts at a time, and the version handshake settles on the
  smaller of the two versions.
\<close>

section \<open>The output buffer\<close>

text \<open>
  Between calls everything in the output buffer is waiting to be sent. (\<open>writefull\<close> appends at
  \<open>msgtogo\<close> and not at \<open>msgofs + msgtogo\<close>, so this is what it relies on.)
\<close>

definition out_ok :: "chan \<Rightarrow> bool" where
  "out_ok c \<longleftrightarrow> msgofs c = 0 \<and> msgtogo c = length (msgbuf c)"

lemma pending_out_ok: "out_ok c \<Longrightarrow> pending c = msgbuf c"
  by (simp add: out_ok_def pending_def)

lemma writefull_out [chan]:
  assumes "out_ok c"
  shows "out_ok (writefull b c)" and "msgbuf (writefull b c) = msgbuf c @ b"
    and "msgtogo (writefull b c) = length (msgbuf c) + length b"
  using assms by (simp_all add: out_ok_def writefull_def Let_def)

lemma chop_output_out: "out_ok c \<Longrightarrow> chop_output c = c"
  by (simp add: out_ok_def chop_output_def)

text \<open>What \<open>flush_loop\<close> sends and what it leaves are together what there was, in order.\<close>

lemma flush_loop_split:
  "flush_loop blocking mx ss ps bs = (sent, left, err, ss', ps') \<Longrightarrow> sent @ left = bs \<and> (err \<longleftrightarrow> left \<noteq> [])"
proof (induction ss arbitrary: ps bs sent)
  case Nil
  then show ?case
    by (cases bs) auto
next
  case (Cons s ss)
  show ?case
  proof (cases bs)
    case bs: (Cons b bs')
    show ?thesis
    proof (cases s)
      case (SSent n)
      define k where "k = min n (min (length bs) mx)"
      show ?thesis
      proof (cases "k = 0")
        case False
        with Cons.prems SSent bs obtain sent' where "sent = take k bs @ sent'"
            "flush_loop blocking mx ss ps (drop k bs) = (sent', left, err, ss', ps')"
          by (auto simp: k_def Let_def split: prod.splits if_splits)
        with Cons.IH [OF this(2)] show ?thesis
          by simp
      qed (use Cons.prems SSent bs in \<open>auto simp: k_def Let_def\<close>)
    qed (use Cons bs in \<open>auto split: if_splits prod.splits bool.splits\<close>)
  qed (use Cons.prems in simp)
qed

lemma set_error_out:
  assumes "input_ok c" and "instate c \<noteq> NEED_PROTO"
  shows "k_out (set_error L s c) = k_out c"
  using assms outer.se_safe [of "text_based c" "Some (k_out c)" c L s] by (simp add: safe_def)

lemma flush_writebuf_out:
  assumes "out_ok c" and "flush_writebuf (set_error L) blocking c = (ok, c')" and "input_ok c" and "instate c \<noteq> NEED_PROTO"
  shows "if ok then k_out c' = k_out c @ msgbuf c \<and> out_ok c' \<and> msgbuf c' = [] \<and> instate c' = instate c
         else instate c' = ERROR \<and> (\<exists>rest. k_out c' @ rest = k_out c @ msgbuf c)"
proof -
  obtain sent left err ss ps where f: "flush_loop blocking (get_max_write_size c) (k_snd c) (k_pollout c) (msgbuf c) = (sent, left, err, ss, ps)"
    by (metis prod_cases5)
  note split = flush_loop_split [OF f]
  let ?c = "chop_output (c\<lparr>msgtogo := length left, msgofs := msgofs c + length sent, k_snd := ss, k_pollout := ps, k_out := k_out c @ sent\<rparr>)"
  have "input_ok ?c" "instate ?c \<noteq> NEED_PROTO"
    using assms(3,4) by (simp_all add: input_ok_def in_bounds_def chan)
  then have "k_out (set_error L False ?c) = k_out c @ sent"
    using set_error_out [of ?c L False] by (simp add: chan)
  moreover have "out_ok ?c \<and> msgbuf ?c = []" if "left = []"
    using that by (simp add: out_ok_def chop_output_def)
  moreover have "k_out c @ msgbuf c = (k_out c @ sent) @ left"
    using split by simp
  ultimately show ?thesis
    using assms(2) f split unfolding flush_writebuf_def pending_out_ok [OF assms(1)]
    by (auto simp: Let_def chan split: if_splits)
qed

section \<open>Sending\<close>

lemma patch_header: "length w = length h \<Longrightarrow> patch (length a) w (a @ h @ b) = a @ w @ b"
  by (simp add: patch_def)

text \<open>\<open>send_msg\<close> appends the frame of the message to the output buffer, then flushes.\<close>

lemma send_msg_appends:
  assumes "out_ok c" and "input_ok c" and "instate c \<in> {NEED_LEN, FILL_BUF, HAS_MSG}" and "\<not> text_based c"
    and "sendable L (protocol c) m" and "compression_ok L"
  obtains c2 where "out_ok c2" and "input_ok c2" and "instate c2 = instate c" and "k_out c2 = k_out c"
    and "msgbuf c2 = msgbuf c @ frame L (protocol c) m" and "protocol c2 = protocol c" and "text_based c2 = text_based c" and "k_snd c2 = k_snd c"
    and "send_msg L blocking bulk m c =
      (if bulk \<and> msgtogo c2 < 4096 then Some (True, c2) else Some (flush_writebuf (set_error L) blocking c2))"
proof -
  let ?b = "body L (protocol c) m"
  have b: "send_to_channel L False (protocol c) m = Some ?b"
    using assms(5) by (metis fill_body [OF _ assms(6) refl] sendable_def)
  define c1 where "c1 = writefull ?b (writefull (put_u32 0) c)"
  define c2 where "c2 = c1\<lparr>msgbuf := patch (msgtogo c) (be32 (of_nat (msgtogo c1 - msgtogo c - 4))) (msgbuf c1)\<rparr>"
  have c1: "out_ok c1" "msgbuf c1 = msgbuf c @ put_u32 0 @ ?b"
    using assms(1) by (simp_all add: c1_def writefull_out)
  have "msgtogo c1 - msgtogo c - 4 = length ?b" "msgtogo c = length (msgbuf c)"
    using c1 assms(1) by (simp_all add: out_ok_def)
  then have buf: "msgbuf c2 = msgbuf c @ frame L (protocol c) m"
    using c1(2) by (simp add: c2_def patch_header frame_def)
  have c2: "out_ok c2" "input_ok c2" "instate c2 = instate c" "k_out c2 = k_out c" "protocol c2 = protocol c"
      "text_based c2 = text_based c"
    using c1 buf assms(2) by (simp_all add: c2_def out_ok_def frame_def c1_def input_ok_def in_bounds_def chan)
  moreover have "k_snd c2 = k_snd c"
    by (simp add: c2_def c1_def writefull_def Let_def)
  moreover have "send_msg L blocking bulk m c =
      (if bulk \<and> msgtogo c2 < 4096 then Some (True, c2) else Some (flush_writebuf (set_error L) blocking c2))"
    using assms(3,4) b chop_output_out [OF assms(1)]
    by (auto simp: send_msg_def Let_def c2_def c1_def)
  ultimately show ?thesis
    using buf by (intro that [of c2])
qed

text \<open>
  Past the handshake \<open>send_msg\<close> either hands to the kernel, or keeps for a later flush,
  exactly the frame of the message, right behind everything sent before; or it fails, the
  channel is in the error state, and what the kernel has got is a prefix of that.
\<close>

theorem send_msg_frames:
  assumes "out_ok c" and "input_ok c" and "instate c \<in> {NEED_LEN, FILL_BUF, HAS_MSG}" and "\<not> text_based c"
    and "sendable L (protocol c) m" and "compression_ok L"
  shows "\<exists>ok c'. send_msg L blocking bulk m c = Some (ok, c') \<and>
    (if ok then out_ok c' \<and> k_out c' @ pending c' = k_out c @ pending c @ frame L (protocol c) m
        \<and> instate c' = instate c \<and> (bulk \<or> pending c' = [])
     else instate c' = ERROR \<and> (\<exists>rest. k_out c' @ rest = k_out c @ pending c @ frame L (protocol c) m))"
proof -
  obtain c2 where c2: "out_ok c2" "input_ok c2" "instate c2 = instate c" "k_out c2 = k_out c"
      "msgbuf c2 = msgbuf c @ frame L (protocol c) m" and send: "send_msg L blocking bulk m c =
      (if bulk \<and> msgtogo c2 < 4096 then Some (True, c2) else Some (flush_writebuf (set_error L) blocking c2))"
    using send_msg_appends [OF assms] by metis
  show ?thesis
  proof (cases "bulk \<and> msgtogo c2 < 4096")
    case True
    with send c2 show ?thesis
      by (intro exI [of _ True] exI [of _ c2]) (simp add: pending_out_ok assms(1))
  next
    case False
    obtain ok c' where f: "flush_writebuf (set_error L) blocking c2 = (ok, c')"
      by fastforce
    from flush_writebuf_out [OF c2(1) f c2(2)] c2 assms(1,3) send False f show ?thesis
      by (auto simp: pending_out_ok split: if_splits)
  qed
qed

text \<open>Messages sent one after the other; \<open>None\<close> when one of them could not be sent.\<close>

primrec send_all :: "libs \<Rightarrow> msg list \<Rightarrow> chan \<Rightarrow> chan option" where
  "send_all L [] c = Some c"
| "send_all L (m # ms) c =
     (case send_msg L True False m c of
        Some (True, c1) \<Rightarrow> send_all L ms c1
      | _ \<Rightarrow> None)"

text \<open>A channel past the handshake with nothing waiting to be sent.\<close>

definition idle_out :: "int \<Rightarrow> chan \<Rightarrow> bool" where
  "idle_out p c \<longleftrightarrow> out_ok c \<and> msgbuf c = [] \<and> input_ok c \<and> instate c \<in> {NEED_LEN, FILL_BUF, HAS_MSG} \<and>
     \<not> text_based c \<and> protocol c = p"

lemma send_msg_flushed:
  assumes "idle_out p c" and "sendable L p m" and "compression_ok L" and "send_msg L True False m c = Some (True, c')"
  shows "idle_out p c'" and "k_out c' = k_out c @ frame L p m"
proof -
  have c: "out_ok c" "input_ok c" "instate c \<in> {NEED_LEN, FILL_BUF, HAS_MSG}" "\<not> text_based c" "sendable L (protocol c) m"
      "msgbuf c = []" "protocol c = p"
    using assms(1,2) by (auto simp: idle_out_def)
  obtain c2 where c2: "out_ok c2" "input_ok c2" "instate c2 = instate c" "k_out c2 = k_out c"
      "msgbuf c2 = frame L p m" "protocol c2 = p" "\<not> text_based c2" and f: "flush_writebuf (set_error L) True c2 = (True, c')"
    using send_msg_appends [OF c(1-5) assms(3), of True False] assms(4) c(4,6,7)
    by (metis append_Nil option.inject)
  have "input_ok c'"
    using flush_ok_input [OF f] c2(2) by (simp add: input_ok_def in_bounds_def)
  moreover have "k_out c' = k_out c @ frame L p m" "out_ok c'" "msgbuf c' = []" "instate c' = instate c"
    using flush_writebuf_out [OF c2(1) f c2(2)] c2 c(3) by auto
  ultimately show "idle_out p c'" and "k_out c' = k_out c @ frame L p m"
    using flush_ok_input [OF f] c2(6,7) c(3) by (auto simp: idle_out_def)
qed

lemma send_all_wire:
  assumes "idle_out p c" and "\<forall>m\<in>set ms. sendable L p m" and "compression_ok L" and "send_all L ms c = Some c'"
  shows "k_out c' = k_out c @ wire L p ms"
  using assms
proof (induction ms arbitrary: c)
  case (Cons m ms)
  then obtain c1 where "send_msg L True False m c = Some (True, c1)" "send_all L ms c1 = Some c'"
    by (auto split: option.splits bool.splits)
  with Cons show ?case
    using send_msg_flushed [of p c L m c1] by simp
qed simp

text \<open>The socket takes everything: a flush sends what is waiting.\<close>

lemma flush_free:
  assumes "out_ok c" and "k_snd c = []"
  shows "\<exists>c'. flush_writebuf se True c = (True, c') \<and> k_out c' = k_out c @ msgbuf c \<and> out_ok c' \<and> msgbuf c' = [] \<and> k_snd c' = []
    \<and> maximum_remote_protocol c' = maximum_remote_protocol c"
  using assms
  by (cases "msgbuf c") (simp_all add: flush_writebuf_def pending_out_ok Let_def chop_output_def out_ok_def)

lemma send_all_free:
  assumes "idle_out p c" and "\<forall>m\<in>set ms. sendable L p m" and "compression_ok L" and "k_snd c = []"
  shows "\<exists>c'. send_all L ms c = Some c'"
  using assms
proof (induction ms arbitrary: c)
  case (Cons m ms)
  then have c: "out_ok c" "input_ok c" "instate c \<in> {NEED_LEN, FILL_BUF, HAS_MSG}" "\<not> text_based c" "sendable L (protocol c) m"
    by (auto simp: idle_out_def)
  obtain c2 where c2: "out_ok c2" "k_snd c2 = []" "send_msg L True False m c = Some (flush_writebuf (set_error L) True c2)"
    using send_msg_appends [OF c Cons.prems(3), of True False] Cons.prems(4) by metis
  obtain c1 where c1: "send_msg L True False m c = Some (True, c1)" "k_snd c1 = []"
    using flush_free [OF c2(1,2), of "set_error L"] c2(3) by auto
  then have "idle_out p c1"
    using send_msg_flushed(1) [of p c L m c1] Cons.prems by auto
  with Cons c1 show ?case
    by simp
qed simp

text \<open>
  C1. The protocol from end to end: if a list of messages has been sent on one channel, whatever
  pieces the kernel accepted, and the bytes arrive at a channel that agreed on the same protocol
  version, cut into any non-empty pieces, then \<open>get_msg\<close> on that channel delivers exactly
  these messages, in order and each once, with the fields that the version carries.
\<close>

theorem end_to_end:
  assumes "idle_out p a" and "\<forall>m\<in>set ms. sendable L p m" and "compression_ok L" and "send_all L ms a = Some a'"
    and "fresh p b" and "k_rd b = map RData bss" and "[] \<notin> set bss"
    and "concat bss = drop (length (k_out a)) (k_out a')" and "length ms + length (concat bss) \<le> n"
  shows "fst (poll_msgs L n b) = map (normal L p) ms"
proof -
  have w: "concat bss = wire L p ms"
    using send_all_wire [OF assms(1-4)] assms(8) by simp
  then show ?thesis
    using poll_msgs_conn [OF fresh_conn [OF assms(5-7) w] assms(2,3)] assms(6,9)
    by (simp add: to_come_def)
qed

lemma demo_idle: "idle_out p (demo_chan p bss)"
  by (simp add: idle_out_def out_ok_def demo_chan_def chan_init_def input_ok_def in_bounds_def)

theorem end_to_end_witness:
  "\<exists>a'. send_all demo_libs [PingMsg, EndMsg] (demo_chan 45 []) = Some a' \<and>
     fst (poll_msgs demo_libs 40 (demo_chan 45 [k_out a'])) = [PingMsg, EndMsg]"
proof -
  let ?ms = "[PingMsg, EndMsg]"
  have s: "\<forall>m\<in>set ?ms. sendable demo_libs 45 m"
    by (simp add: sendable_def body_def send_to_channel_def send_body_def is_TextMsg_def)
  have k: "k_snd (demo_chan 45 []) = []" "k_out (demo_chan 45 []) = []"
    by (simp_all add: demo_chan_def chan_init_def)
  obtain a' where a': "send_all demo_libs ?ms (demo_chan 45 []) = Some a'"
    using send_all_free [OF demo_idle s demo_libs_ok k(1)] by auto
  have "length (k_out a') = 16" "k_out a' \<noteq> []"
    using send_all_wire [OF demo_idle s demo_libs_ok a'] k(2)
    by (simp_all add: frame_def body_def send_to_channel_def send_body_def is_TextMsg_def)
  then show ?thesis
    using end_to_end [OF demo_idle s demo_libs_ok a' demo_chan_fresh, of "[k_out a']" 40] a' k(2) by simp
qed

theorem send_msg_frames_witness:
  "\<exists>ok c'. send_msg demo_libs False False EndMsg ((demo_chan 40 [])\<lparr>k_snd := [SSent 3, SIntr, SAgain]\<rparr>) = Some (ok, c') \<and>
     (if ok then k_out c' = frame demo_libs 40 EndMsg
      else instate c' = ERROR \<and> (\<exists>rest. k_out c' @ rest = frame demo_libs 40 EndMsg))"
proof -
  let ?c = "(demo_chan 40 [])\<lparr>k_snd := [SSent 3, SIntr, SAgain]\<rparr>"
  have c: "out_ok ?c" "input_ok ?c" "instate ?c \<in> {NEED_LEN, FILL_BUF, HAS_MSG}" "\<not> text_based ?c" "sendable demo_libs (protocol ?c) EndMsg"
    by (simp_all add: out_ok_def demo_chan_def chan_init_def input_ok_def in_bounds_def sendable_def
        body_def send_to_channel_def send_body_def is_TextMsg_def)
  have k: "k_out ?c = []" "pending ?c = []" "protocol ?c = 40"
    by (simp_all add: demo_chan_def chan_init_def pending_def)
  obtain ok c' where s: "send_msg demo_libs False False EndMsg ?c = Some (ok, c')"
      "if ok then k_out c' @ pending c' = frame demo_libs 40 EndMsg \<and> pending c' = []
       else instate c' = ERROR \<and> (\<exists>rest. k_out c' @ rest = frame demo_libs 40 EndMsg)"
    using send_msg_frames [OF c demo_libs_ok, of False False, unfolded k append_Nil] by metis
  then show ?thesis
    by (intro exI [of _ ok] exI [of _ c']) (auto split: if_splits)
qed

section \<open>The handshake\<close>

definition agreed :: "u32 \<Rightarrow> u32" where
  "agreed v = (if v > PROTOCOL_VERSION then PROTOCOL_VERSION else v)"

definition acceptable :: "u32 \<Rightarrow> bool" where
  "acceptable v \<longleftrightarrow> MIN_PROTOCOL_VERSION \<le> v \<and> v \<le> 2 ^ 20"

lemma agreed_sint: "sint (agreed v) = uint (agreed v)"
proof -
  have "agreed v \<le> 45"
    by (simp add: agreed_def PROTOCOL_VERSION_def not_less)
  then have "uint (agreed v) \<le> 45"
    by (simp add: word_le_def)
  moreover have "0 \<le> uint (agreed v)"
    by simp
  ultimately have "- 2147483648 \<le> uint (agreed v) \<and> uint (agreed v) < 2147483648"
    by linarith
  then show ?thesis
    by (simp add: sint_uint signed_take_bit_int_eq_self)
qed

lemma update_len_fields [chan]:
  "protocol (update_len c) = protocol c" "maximum_remote_protocol (update_len c) = maximum_remote_protocol c"
  "k_out (update_len c) = k_out c"
  "instate c = NEED_LEN \<Longrightarrow> instate (update_len c) \<in> {NEED_LEN, FILL_BUF, HAS_MSG}"
  by (auto simp: update_len_def update_fill_def get_u32_def Let_def)

text \<open>One round for each of the two words the peer sends.\<close>

lemma proto_loop_first:
  assumes "protocol c = -1" and "avail c = le32 v @ r" and "out_ok c" and "k_snd c = []" and "acceptable v"
  obtains c' where "proto_loop se (Suc n) c = proto_loop se n c'" and "avail c' = r" and "intogo c' = intogo c + 4"
    and "inbuf c' = inbuf c" and "instate c' = instate c" and "text_based c' = text_based c" and "protocol c' = -1 - uint (agreed v)"
    and "maximum_remote_protocol c' = uint v" and "k_out c' = k_out c @ msgbuf c @ le32 (agreed v)"
proof -
  let ?c = "c\<lparr>intogo := intogo c + 4, protocol := 0, maximum_remote_protocol := uint v\<rparr>"
  let ?w = "writefull (le32 (agreed v)) ?c"
  have v: "un_le32 (drop (intogo c) (inbuf c)) = v"
    using assms(2) by (simp add: avail_def)
  have "out_ok ?c"
    using assms(3) by (simp add: out_ok_def)
  note o = this writefull_out(1) [OF this]
  from o have k: "k_snd ?w = []" "msgbuf ?w = msgbuf c @ le32 (agreed v)"
    using assms(4) by (simp_all add: writefull_def Let_def out_ok_def)
  obtain c2 where f: "flush_writebuf se True ?w = (True, c2)" "k_out c2 = k_out c @ msgbuf c @ le32 (agreed v)"
      "maximum_remote_protocol c2 = uint v"
    using flush_free [OF o(2) k(1), of se] k(2) by (auto simp: chan writefull_def Let_def)
  have i: "inbuf c2 = inbuf c" "intogo c2 = intogo c + 4" "instate c2 = instate c" "text_based c2 = text_based c"
    using flush_ok_input [OF f(1)] by (simp_all add: chan)
  have "drop 4 (avail c) = r"
    using assms(2) by simp
  then have "avail (c2\<lparr>protocol := -1 - uint (agreed v)\<rparr>) = r"
    using i by (simp add: avail_def add.commute)
  moreover have "proto_loop se (Suc n) c = proto_loop se n (c2\<lparr>protocol := -1 - uint (agreed v)\<rparr>)"
    using assms(1) f(1) v not_less [of v MIN_PROTOCOL_VERSION] not_less [of "2 ^ 20" v] assms(5)
    by (simp add: Let_def acceptable_def agreed_def del: not_less)
  ultimately show ?thesis
    using f i by (intro that [of "c2\<lparr>protocol := -1 - uint (agreed v)\<rparr>"]) simp_all
qed

lemma proto_loop_second:
  assumes "protocol c = -1 - uint (agreed v)" and "avail c = le32 w @ r" and "acceptable v"
  shows "proto_loop se (Suc n) c =
    (if w = agreed v then (True, c\<lparr>intogo := intogo c + 4, protocol := uint w, instate := NEED_LEN\<rparr>)
     else (False, se False (c\<lparr>intogo := intogo c + 4, protocol := 0\<rparr>)))"
proof -
  have "21 \<le> agreed v"
    using assms(3) by (simp add: acceptable_def agreed_def MIN_PROTOCOL_VERSION_def PROTOCOL_VERSION_def)
  then have "21 \<le> uint (agreed v)"
    by (simp add: word_le_def)
  moreover have "sint w = uint (agreed v) \<longleftrightarrow> w = agreed v"
    using agreed_sint [of v] by (metis signed_word_eqI)
  moreover have "un_le32 (drop (intogo c) (inbuf c)) = w"
    using assms(2) by (simp add: avail_def)
  ultimately show ?thesis
    using assms(1) by (auto simp: Let_def)
qed

text \<open>
  C20. The version handshake: from the peer's version \<open>v\<close> and its answer \<open>w\<close> the channel
  comes up exactly when \<open>v\<close> is in the accepted range and the answer is the smaller of the two
  versions; it then speaks that version, has answered with it, remembers the peer's own version, and
  has consumed the eight bytes of the handshake and nothing of the messages behind them. In every
  other case the channel ends in the error state.
\<close>

theorem handshake:
  assumes "instate c = NEED_PROTO" and "protocol c = -1" and "\<not> text_based c" and "in_bounds c"
    and "avail c = le32 v @ le32 w @ r" and "out_ok c" and "k_snd c = []"
  shows "case update_state (set_error L) c of (ok, c') \<Rightarrow>
     if MIN_PROTOCOL_VERSION \<le> v \<and> v \<le> 2 ^ 20 \<and> w = min v PROTOCOL_VERSION
     then ok \<and> protocol c' = uint w \<and> maximum_remote_protocol c' = uint v
       \<and> k_out c' = k_out c @ msgbuf c @ le32 w \<and> instate c' \<in> {NEED_LEN, FILL_BUF, HAS_MSG}
       \<and> (length r < 4 \<longrightarrow> instate c' = NEED_LEN \<and> avail c' = r)
     else \<not> ok \<and> instate c' = ERROR"
proof -
  have "inofs c - intogo c = 8 + length r"
    using arg_cong [OF assms(5), of length] by (simp add: avail_def)
  then have n: "(inofs c - intogo c) div 4 = Suc (Suc (length r div 4))"
    by simp
  have ag: "min v PROTOCOL_VERSION = agreed v"
    by (auto simp: agreed_def min_def)
  show ?thesis
  proof (cases "acceptable v")
    case False
    have "un_le32 (drop (intogo c) (inbuf c)) = v"
      using assms(5) by (simp add: avail_def)
    with False show ?thesis
      using assms(1,2) n by (auto simp: update_state_def Let_def acceptable_def not_le set_error_state split: prod.splits)
  next
    case True
    obtain c' where c': "proto_loop (set_error L) (Suc (Suc (length r div 4))) c = proto_loop (set_error L) (Suc (length r div 4)) c'"
        "avail c' = le32 w @ r" "intogo c' = intogo c + 4" "inbuf c' = inbuf c" "instate c' = instate c" "text_based c' = text_based c"
        "protocol c' = -1 - uint (agreed v)" "maximum_remote_protocol c' = uint v" "k_out c' = k_out c @ msgbuf c @ le32 (agreed v)"
      using proto_loop_first [OF assms(2,5,6,7) True] by metis
    show ?thesis
    proof (cases "w = agreed v")
      case w: False
      then show ?thesis
        using assms(1) n c'(1) proto_loop_second [OF c'(7,2) True]
        by (auto simp: update_state_def ag set_error_state split: prod.splits)
    next
      case w: True
      let ?d = "c'\<lparr>intogo := intogo c' + 4, protocol := uint w, instate := NEED_LEN\<rparr>"
      have "drop 4 (avail c') = r"
        using c'(2) by simp
      then have "avail ?d = r"
        by (simp add: avail_def add.commute)
      then have "length r < 4 \<Longrightarrow> update_len ?d = ?d"
        using assms(3) c'(6) by (auto simp: update_len_def avail_def)
      then show ?thesis
        using assms(1) n c' w True proto_loop_second [OF c'(7,2) True] \<open>avail ?d = r\<close> update_len_fields [of ?d]
        by (auto simp: update_state_def ag acceptable_def split: prod.splits)
    qed
  qed
qed

theorem handshake_witness:
  "case update_state (set_error demo_libs) ((chan_init False False [] [] [] [])\<lparr>inbuf := le32 60 @ le32 45 @ ''ab''\<rparr>) of
     (ok, c') \<Rightarrow> ok \<and> protocol c' = 45 \<and> maximum_remote_protocol c' = 60 \<and> k_out c' = le32 45 \<and> avail c' = ''ab''"
  using handshake [of "(chan_init False False [] [] [] [])\<lparr>inbuf := le32 60 @ le32 45 @ ''ab''\<rparr>" 60 45 "''ab''" demo_libs]
  by (simp add: chan_init_def in_bounds_def avail_def out_ok_def MIN_PROTOCOL_VERSION_def PROTOCOL_VERSION_def split: prod.splits)

end
