(* ===== verification/SchedState.thy ===== *)
theory SchedState
  imports SchedQueue SchedAlgo Sending
begin

unbundle bit_operations_syntax

text \<open>
  The state of the scheduler (the static variables of \<open>scheduler/scheduler.cpp\<close>) and the operations the
  message handlers share: sending on a connection, notifying the monitors, creating and deleting
  jobs, and \<open>handle_end\<close>, which removes a peer and everything that depends on it.

  \<open>heap\<close> maps the address of every live \<open>CompileServer\<close> to the object. \<open>jobs\<close> is the
  \<open>std::map\<close> from ids to jobs, in the order of the ids; a \<open>Job *\<close> is dangling when its id is not
  there. \<open>None\<close> as the result of an operation is undefined behaviour (a deleted or null object is
  used) or, with \<open>asserts\<close>, a failed assertion. \<open>clock\<close> is the time, the same for
  the whole of one handler; \<open>randoms\<close> and \<open>connects\<close> are the values that \<open>random()\<close> and
  \<open>socket()\<close>/\<open>connect()\<close> will return; \<open>VERSION\<close> is the macro of the build.
\<close>

section \<open>State\<close>

record sched =
  heap :: "cs_ptr \<Rightarrow> compile_server option"
  fd2cs :: "int \<Rightarrow> cs_ptr option"
  css :: "cs_ptr list"
  monitors :: "cs_ptr list"
  controls :: "cs_ptr list"
  block_css :: "string list"
  new_job_id :: u32
  jobs :: "(job_ptr \<times> job) list"
  job_requests :: "group list"
  all_job_stats :: "job_stat list"
  cum_job_stats :: job_stat
  hostIdCounter :: u32
  starttime :: int
  clock :: int
  randoms :: "nat list"
  connects :: "(int \<times> connect_res) list"
  slow_net :: bool
  asserts :: bool
  sc_libs :: libs
  VERSION :: string

definition sched_init :: "libs \<Rightarrow> string \<Rightarrow> bool \<Rightarrow> int \<Rightarrow> sched" where
  "sched_init L version dbg t = \<lparr>heap = (\<lambda>_. None), fd2cs = (\<lambda>_. None), css = [], monitors = [], controls = [], block_css = [],
     new_job_id = 0, jobs = [], job_requests = [], all_job_stats = [], cum_job_stats = JobStat_new,
     hostIdCounter = 0, starttime = t, clock = t, randoms = [], connects = [], slow_net = False, asserts = dbg,
     sc_libs = L, VERSION = version\<rparr>"

section \<open>Objects\<close>

definition upd :: "cs_ptr \<Rightarrow> (compile_server \<Rightarrow> compile_server) \<Rightarrow> sched \<Rightarrow> sched option" where
  "upd p f s = (case heap s p of None \<Rightarrow> None | Some c \<Rightarrow> Some (s\<lparr>heap := (heap s)(p \<mapsto> f c)\<rparr>))"

definition job_at :: "sched \<Rightarrow> job_ptr \<Rightarrow> job option" where
  "job_at s j = map_of (jobs s) j"

text \<open>\<open>jobs[id] = job\<close> of a \<open>std::map\<close>, ordered by key.\<close>

fun jobs_insert :: "job_ptr \<Rightarrow> job \<Rightarrow> (job_ptr \<times> job) list \<Rightarrow> (job_ptr \<times> job) list" where
  "jobs_insert j x [] = [(j, x)]"
| "jobs_insert j x ((k, y) # m) =
     (if j < k then (j, x) # (k, y) # m else if j = k then (j, x) # m else (k, y) # jobs_insert j x m)"

definition jobs_erase :: "job_ptr \<Rightarrow> (job_ptr \<times> job) list \<Rightarrow> (job_ptr \<times> job) list" where
  "jobs_erase j m = filter (\<lambda>e. fst e \<noteq> j) m"

text \<open>An update of a job through a pointer.\<close>

definition upd_job :: "job_ptr \<Rightarrow> (job \<Rightarrow> job) \<Rightarrow> sched \<Rightarrow> sched option" where
  "upd_job j f s = (case job_at s j of None \<Rightarrow> None
     | Some x \<Rightarrow> Some (s\<lparr>jobs := map (\<lambda>e. if fst e = j then (j, f (snd e)) else e) (jobs s)\<rparr>))"

text \<open>\<open>jobs.erase(id); delete job;\<close> with the destructor of \<open>Job\<close>.\<close>

definition delete_job :: "job_ptr \<Rightarrow> sched \<Rightarrow> sched option" where
  "delete_job j s = do {
     job \<leftarrow> job_at s j;
     upd (j_submitter job) submittedJobsDecrement (s\<lparr>jobs := jobs_erase j (jobs s)\<rparr>)
   }"

section \<open>Sending\<close>

definition send_to :: "bool \<Rightarrow> cs_ptr \<Rightarrow> msg \<Rightarrow> sched \<Rightarrow> (bool \<times> sched) option" where
  "send_to blocking p m s = do {
     c \<leftarrow> heap s p;
     (ok, ch) \<leftarrow> send_msg (sc_libs s) blocking False m (cs_chan c);
     Some (ok, s\<lparr>heap := (heap s)(p \<mapsto> c\<lparr>cs_chan := ch\<rparr>)\<rparr>)
   }"

text \<open>The end of \<open>handle_end\<close>: \<open>fd2cs.erase(toremove->fd); delete toremove;\<close>\<close>

definition delete_cs :: "cs_ptr \<Rightarrow> sched \<Rightarrow> sched option" where
  "delete_cs p s = do {
     c \<leftarrow> heap s p;
     Some (s\<lparr>fd2cs := (fd2cs s)(cs_fd c := None), heap := (heap s)(p := None)\<rparr>)
   }"

text \<open>
  \<open>handle_end\<close> for a monitor. It is also what \<open>notify_monitors\<close> does with a monitor that
  cannot be written to; nothing but monitors is in that list.
\<close>

definition end_monitor :: "cs_ptr \<Rightarrow> sched \<Rightarrow> sched option" where
  "end_monitor p s =
     (if asserts s \<and> p \<notin> set (monitors s) then None
      else delete_cs p (s\<lparr>monitors := removeAll p (monitors s)\<rparr>))"

primrec notify_loop :: "msg \<Rightarrow> cs_ptr list \<Rightarrow> sched \<Rightarrow> sched option" where
  "notify_loop m [] s = Some s"
| "notify_loop m (p # ps) s = do {
     (ok, s1) \<leftarrow> send_to False p m s;
     s2 \<leftarrow> (if ok then Some s1 else end_monitor p s1);
     notify_loop m ps s2
   }"

definition notify_monitors :: "msg \<Rightarrow> sched \<Rightarrow> sched option" where
  "notify_monitors m s = notify_loop m (monitors s) s"

section \<open>The end of a connection\<close>

definition mon_job_done :: "job_ptr \<Rightarrow> msg" where
  "mon_job_done j = MonJobDoneMsg (JobDoneMsg_make j 255 FROM_SERVER 0)"

definition reset_installing :: "cs_ptr option \<Rightarrow> sched \<Rightarrow> sched option" where
  "reset_installing server s = (case server of None \<Rightarrow> Some s
     | Some x \<Rightarrow> upd x (\<lambda>c. c\<lparr>cs_busyInstalling := 0\<rparr>) s)"

text \<open>The queued jobs of the daemon.\<close>

primrec end_group_jobs :: "job_ptr list \<Rightarrow> sched \<Rightarrow> sched option" where
  "end_group_jobs [] s = Some s"
| "end_group_jobs (j # js) s = do {
     job \<leftarrow> job_at s j;
     s1 \<leftarrow> notify_monitors (mon_job_done j) s;
     s2 \<leftarrow> reset_installing (j_server job) s1;
     s3 \<leftarrow> delete_job j s2;
     end_group_jobs js s3
   }"

primrec end_groups :: "cs_ptr \<Rightarrow> group list \<Rightarrow> sched \<Rightarrow> sched option" where
  "end_groups p [] s = Some s"
| "end_groups p (g # gs) s =
     (if g_submitter g = p then do {
        s1 \<leftarrow> end_group_jobs (g_l g) s;
        end_groups p gs s1
      } else end_groups p gs s)"

text \<open>The other jobs submitted by the daemon or assigned to it.\<close>

primrec end_jobs :: "cs_ptr \<Rightarrow> (job_ptr \<times> job) list \<Rightarrow> sched \<Rightarrow> sched option" where
  "end_jobs p [] s = Some s"
| "end_jobs p (e # es) s =
     (case e of (j, job) \<Rightarrow>
        if j_server job = Some p \<or> j_submitter job = p then do {
          s1 \<leftarrow> notify_monitors (mon_job_done j) s;
          s2 \<leftarrow> (case j_server job of
                   Some x \<Rightarrow> if x \<noteq> p then upd x (removeJob j) s1 else Some s1
                 | None \<Rightarrow> Some s1);
          s3 \<leftarrow> reset_installing (j_server job) s2;
          s4 \<leftarrow> delete_job j s3;
          end_jobs p es s4
        } else end_jobs p es s)"

primrec erase_blacklists :: "cs_ptr \<Rightarrow> cs_ptr list \<Rightarrow> sched \<Rightarrow> sched option" where
  "erase_blacklists p [] s = Some s"
| "erase_blacklists p (x # xs) s = do {
     s1 \<leftarrow> upd x (eraseCSFromBlacklist p) s;
     erase_blacklists p xs s1
   }"

definition end_daemon :: "cs_ptr \<Rightarrow> sched \<Rightarrow> sched option" where
  "end_daemon p s = do {
     c \<leftarrow> heap s p;
     s1 \<leftarrow> notify_monitors (MonStatsMsg \<lparr>ms_hostid = cs_hostId c, ms_statmsg = ''State:Offline'' @ [CHR 0x0A]\<rparr>) s;
     let s2 = s1\<lparr>css := removeAll p (css s1)\<rparr>;
     s3 \<leftarrow> end_groups p (job_requests s2) s2;
     let s4 = s3\<lparr>job_requests := filter (\<lambda>g. g_submitter g \<noteq> p) (job_requests s3)\<rparr>;
     s5 \<leftarrow> end_jobs p (jobs s4) s4;
     erase_blacklists p (css s5) s5
   }"

definition handle_end :: "cs_ptr \<Rightarrow> sched \<Rightarrow> sched option" where
  "handle_end p s = do {
     c \<leftarrow> heap s p;
     case cs_type c of
       MONITOR \<Rightarrow> end_monitor p s
     | DAEMON \<Rightarrow> do { s1 \<leftarrow> end_daemon p s; delete_cs p s1 }
     | LINE \<Rightarrow> do {
         (ok, s1) \<leftarrow> send_to True p (TextMsg ''200 Good Bye!'') s;
         delete_cs p (s1\<lparr>controls := removeAll p (controls s1)\<rparr>)
       }
     | UNKNOWN \<Rightarrow> delete_cs p s
   }"

end
