(* ===== verification/SchedText.thy ===== *)
theory SchedText
  imports SchedState
begin

unbundle bit_operations_syntax

text \<open>
  The texts the scheduler produces and reads (\<open>scheduler/scheduler.cpp\<close>): \<open>snprintf\<close> as far as it is
  used, the statistics for the monitors, \<open>dump_job\<close>, and \<open>split_string\<close> for the commands of a
  control connection.
\<close>

section \<open>Formatting\<close>

text \<open>\<open>%.nf\<close>: the exact value, rounded to \<open>n\<close> decimals, ties to even.\<close>

definition pad_left :: "nat \<Rightarrow> string \<Rightarrow> string" where
  "pad_left n s = replicate (n - length s) (CHR ''0'') @ s"

definition show_fixed :: "nat \<Rightarrow> rat \<Rightarrow> string" where
  "show_fixed n x =
     (let m = nat (half_even (\<bar>x\<bar> * 10 ^ n))
      in (if x < 0 then ''-'' else '''') @ show_nat (m div 10 ^ n) @ ''.'' @ pad_left n (show_nat (m mod 10 ^ n)))"

text \<open>\<open>%s\<close> stops at a NUL; a buffer of 1000 bytes keeps 999 characters.\<close>

definition c_str :: "string \<Rightarrow> string" where
  "c_str s = takeWhile (\<lambda>b. b \<noteq> NUL) s"

definition snprintf1000 :: "string \<Rightarrow> string" where
  "snprintf1000 s = take 999 s"

abbreviation newline :: string where
  "newline \<equiv> [CHR 0x0A]"

definition supported_features_to_string :: "u32 \<Rightarrow> string" where
  "supported_features_to_string features =
     (let ret = (if features AND NODE_FEATURE_ENV_XZ \<noteq> 0 then '' env_xz'' else '''')
                @ (if features AND NODE_FEATURE_ENV_ZSTD \<noteq> 0 then '' env_zstd'' else '''')
      in if ret = '''' then ''--'' else tl ret)"

section \<open>Statistics for the monitors\<close>

definition monitor_stats_text :: "cs_ptr \<Rightarrow> compile_server \<Rightarrow> stats_msg option \<Rightarrow> string" where
  "monitor_stats_text p c m =
     concat (map (\<lambda>l. snprintf1000 (l @ newline))
       ([''Name:'' @ c_str (cs_nodeName c), ''IP:'' @ c_str (cs_name c), ''MaxJobs:'' @ show_int (cs_maxJobs c),
         ''NoRemote:'' @ (if cs_noRemote c then ''true'' else ''false''), ''Platform:'' @ c_str (cs_hostPlatform c),
         ''Version:'' @ show_int (maximum_remote_protocol (cs_chan c)),
         ''Features:'' @ supported_features_to_string (cs_supportedFeatures c),
         ''Speed:'' @ show_fixed 6 (server_speed p c None)]
        @ (case m of
             None \<Rightarrow> [''Load:'' @ show_u32 (cs_load c)]
           | Some x \<Rightarrow> [''Load:'' @ show_int (sint (st_load x)), ''LoadAvg1:'' @ show_u32 (st_loadAvg1 x),
               ''LoadAvg5:'' @ show_u32 (st_loadAvg5 x), ''LoadAvg10:'' @ show_u32 (st_loadAvg10 x),
               ''FreeMem:'' @ show_u32 (st_freeMem x)])))"

definition handle_monitor_stats :: "cs_ptr \<Rightarrow> stats_msg option \<Rightarrow> sched \<Rightarrow> sched option" where
  "handle_monitor_stats p m s =
     (if monitors s = [] then Some s
      else do {
        c \<leftarrow> heap s p;
        notify_monitors (MonStatsMsg \<lparr>ms_hostid = cs_hostId c, ms_statmsg = monitor_stats_text p c m\<rparr>) s
      })"

section \<open>Control connections\<close>

definition dump_job :: "job_ptr \<Rightarrow> sched \<Rightarrow> string option" where
  "dump_job j s = do {
     job \<leftarrow> job_at s j;
     sub \<leftarrow> heap s (j_submitter job);
     on \<leftarrow> (case j_server job of None \<Rightarrow> Some ''<unknown>'' | Some x \<Rightarrow> map_option cs_nodeName (heap s x));
     Some (snprintf1000 (show_u32 (j_id job) @ '' ''
       @ (case j_state job of PENDING \<Rightarrow> ''PEND'' | WAITINGFORCS \<Rightarrow> ''WAIT'' | COMPILING \<Rightarrow> ''COMP'')
       @ '' sub:'' @ c_str (cs_nodeName sub) @ '' on:'' @ c_str on @ '' '') @ j_fileName job)
   }"

function split_string :: "char set \<Rightarrow> string \<Rightarrow> string list" where
  "split_string sep s =
     (let r = dropWhile (\<lambda>b. b \<in> sep) s
      in if r = [] then [] else takeWhile (\<lambda>b. b \<notin> sep) r # split_string sep (dropWhile (\<lambda>b. b \<notin> sep) r))"
  by pat_completeness auto

termination
proof (relation "measure (\<lambda>(sep, s). length s)", simp)
  fix sep :: "char set" and s r :: string
  assume r: "r = dropWhile (\<lambda>b. b \<in> sep) s" and "r \<noteq> []"
  then obtain b bs where bs: "r = b # bs" "b \<notin> sep"
    by (metis hd_dropWhile list.exhaust list.sel(1))
  have "length (dropWhile (\<lambda>b. b \<notin> sep) r) < length r"
    using bs by (simp add: le_imp_less_Suc length_dropWhile_le)
  also have "\<dots> \<le> length s"
    unfolding r by (rule length_dropWhile_le)
  finally show "((sep, dropWhile (\<lambda>b. b \<notin> sep) r), (sep, s)) \<in> measure (\<lambda>(sep, s). length s)"
    by simp
qed

declare split_string.simps [simp del]

definition blanks :: "char set" where
  "blanks = {CHR '' '', CHR 0x09, CHR 0x0A}"

section \<open>Properties of the texts\<close>

text \<open>The words that \<open>split_string\<close> returns are not empty and contain no separator.\<close>

lemma split_string_words: "w \<in> set (split_string sep s) \<Longrightarrow> w \<noteq> [] \<and> set w \<inter> sep = {}"
proof (induction sep s rule: split_string.induct)
  case (1 sep s)
  let ?r = "dropWhile (\<lambda>b. b \<in> sep) s"
  show ?case
  proof (cases "?r = []")
    case True
    with "1.prems" show ?thesis
      by (simp add: split_string.simps [of sep s])
  next
    case False
    then obtain b bs where "?r = b # bs" "b \<notin> sep"
      by (metis hd_dropWhile list.exhaust list.sel(1))
    then have "takeWhile (\<lambda>b. b \<notin> sep) ?r \<noteq> []"
      by simp
    moreover have "set (takeWhile (\<lambda>b. b \<notin> sep) ?r) \<inter> sep = {}"
      by (auto dest: set_takeWhileD)
    moreover have "split_string sep s = takeWhile (\<lambda>b. b \<notin> sep) ?r # split_string sep (dropWhile (\<lambda>b. b \<notin> sep) ?r)"
      using False by (subst split_string.simps) (simp only: Let_def if_False)
    then have "w = takeWhile (\<lambda>b. b \<notin> sep) ?r \<or> w \<in> set (split_string sep (dropWhile (\<lambda>b. b \<notin> sep) ?r))"
      using "1.prems" by (simp only: set_simps insert_iff)
    ultimately show ?thesis
      using "1.IH" [OF refl False] by (elim disjE) (simp_all only: simp_thms)
  qed
qed

end
