(* ===== verification/Scheduler.thy ===== *)
theory Scheduler
  imports SchedText CompileJob
begin

unbundle bit_operations_syntax

text \<open>
  The message handlers and the periodic work of the scheduler (\<open>scheduler/scheduler.cpp\<close>). A handler
  takes the address of the connection and the message and returns its result with the new
  state; \<open>None\<close> is undefined behaviour or a failed assertion, as in \<open>SchedState\<close>.
\<close>

section \<open>Requests\<close>

definition create_new_job :: "cs_ptr \<Rightarrow> sched \<Rightarrow> (job_ptr \<times> sched) option" where
  "create_new_job submitter s =
     (let i = new_job_id s + 1
      in if asserts s \<and> job_at s i \<noteq> None then None
         else map_option (Pair i)
           (upd submitter submittedJobsIncrement
              (s\<lparr>new_job_id := i, jobs := jobs_insert i (Job_new i submitter) (jobs s)\<rparr>)))"

definition language_name :: "u32 \<Rightarrow> string" where
  "language_name lang =
     (if lang = Lang_C then ''C'' else if lang = Lang_CXX then ''C++'' else if lang = Lang_OBJC then ''ObjC''
      else if lang = Lang_OBJCXX then ''ObjC++'' else if lang = Lang_Custom then ''<custom>'' else ''???'')"

definition clamp_niceness :: "u32 \<Rightarrow> int" where
  "clamp_niceness n = max 0 (min 20 (sint n))"

definition fill_job :: "get_cs_msg \<Rightarrow> job \<Rightarrow> job" where
  "fill_job m job = job\<lparr>j_environments := gcs_versions m, j_targetPlatform := gcs_target m, j_argFlags := gcs_arg_flags m,
     j_language := language_name (gcs_lang m), j_fileName := gcs_filename m, j_localClientId := gcs_client_id m,
     j_preferredHost := gcs_preferred_host m, j_minimalHostVersion := sint (gcs_minimal_host_version m),
     j_requiredFeatures := gcs_required_features m, j_niceness := clamp_niceness (gcs_niceness m)\<rparr>"

primrec cs_request_loop :: "cs_ptr \<Rightarrow> get_cs_msg \<Rightarrow> nat \<Rightarrow> job_ptr option \<Rightarrow> sched \<Rightarrow> sched option" where
  "cs_request_loop p m 0 master s = Some s"
| "cs_request_loop p m (Suc n) master s = do {
     (j, s1) \<leftarrow> create_new_job p s;
     s2 \<leftarrow> upd_job j (fill_job m) s1;
     let s3 = s2\<lparr>job_requests := enqueue_job_request p (clamp_niceness (gcs_niceness m)) j (job_requests s2)\<rparr>;
     c \<leftarrow> heap s3 p;
     mon \<leftarrow> MonGetCSMsg_make (asserts s3) j (cs_hostId c) m;
     s4 \<leftarrow> notify_monitors (MonGetCSMsg mon) s3;
     s5 \<leftarrow> (case master of None \<Rightarrow> Some s4
              | Some mj \<Rightarrow> upd_job mj (\<lambda>job. job\<lparr>j_masterJobFor := j_masterJobFor job @ [j]\<rparr>) s4);
     cs_request_loop p m n (case master of None \<Rightarrow> Some j | Some mj \<Rightarrow> Some mj) s5
   }"

definition handle_cs_request :: "cs_ptr \<Rightarrow> get_cs_msg \<Rightarrow> sched \<Rightarrow> (bool \<times> sched) option" where
  "handle_cs_request p m s = do {
     s1 \<leftarrow> upd p (\<lambda>c. c\<lparr>cs_clientCount := sint (gcs_client_count m)\<rparr>) s;
     s2 \<leftarrow> cs_request_loop p m (unat (gcs_count m)) None s1;
     Some (True, s2)
   }"

definition handle_local_job :: "cs_ptr \<Rightarrow> job_local_begin_msg \<Rightarrow> sched \<Rightarrow> (bool \<times> sched) option" where
  "handle_local_job p m s = do {
     let i = new_job_id s + 1;
     s1 \<leftarrow> upd p (insertClientLocalJobId (sint (jlb_id m)) (sint i) (jlb_fulljob m)) (s\<lparr>new_job_id := i\<rparr>);
     c \<leftarrow> heap s1 p;
     s2 \<leftarrow> notify_monitors (MonLocalJobBeginMsg
             \<lparr>mlj_job_id = i, mlj_stime = jlb_stime m, mlj_hostid = cs_hostId c, mlj_file = jlb_outfile m\<rparr>) s1;
     Some (True, s2)
   }"

definition handle_local_job_done :: "cs_ptr \<Rightarrow> u32 \<Rightarrow> sched \<Rightarrow> (bool \<times> sched) option" where
  "handle_local_job_done p job_id s = do {
     c \<leftarrow> heap s p;
     s1 \<leftarrow> notify_monitors (JobLocalDoneMsg (of_int (getClientLocalJobId (sint job_id) c))) s;
     s2 \<leftarrow> upd p (eraseClientLocalJobId (sint job_id)) s1;
     Some (True, s2)
   }"

section \<open>Assigning a request\<close>

primrec deref_all :: "cs_ptr list \<Rightarrow> sched \<Rightarrow> cand list option" where
  "deref_all [] s = Some []"
| "deref_all (p # ps) s = do {
     c \<leftarrow> heap s p;
     cs \<leftarrow> deref_all ps s;
     Some ((p, c) # cs)
   }"

text \<open>
  The loop of \<open>empty_queue\<close>. As in the code the job stays that of the first position while the
  position advances. The outcome is the position and the server to use, or \<open>None\<close> to wait. The fuel
  is the number of queued requests and one more; each round moves to the next request.
\<close>

primrec search_loop :: "nat \<Rightarrow> algorithm \<Rightarrow> u32 \<Rightarrow> cand list \<Rightarrow> job \<Rightarrow> position \<Rightarrow> sched \<Rightarrow>
    ((position \<times> cs_ptr) option \<times> sched) option" where
  "search_loop 0 algo w cs job pos s = None"
| "search_loop (Suc n) algo w cs job pos s = do {
     sub \<leftarrow> heap s (j_submitter job);
     let r = (case randoms s of [] \<Rightarrow> 0 | x # _ \<Rightarrow> x);
     let s1 = s\<lparr>randoms := tl (randoms s)\<rparr>;
     case pick_server cs sub algo w (all_job_stats s \<noteq> []) r job of
       Some (p, _) \<Rightarrow> Some (Some (pos, p), s1)
     | None \<Rightarrow>
         if currentJobCount sub < cs_maxJobs sub \<and> j_preferredHost job = ''''
            \<and> can_install (j_submitter job) sub sub job False \<noteq> ''''
         then Some (Some (pos, j_submitter job), s1)
         else do {
           next \<leftarrow> get_next_job_request (job_requests s) pos;
           case next of
             Some pos' \<Rightarrow> search_loop n algo w cs job pos' s1
           | None \<Rightarrow> do {
               first \<leftarrow> get_first_job_request (job_requests s);
               pos0 \<leftarrow> first;
               job0 \<leftarrow> job_at s (snd pos0);
               sub0 \<leftarrow> heap s (j_submitter job0);
               if list_ex (\<lambda>(p, c). (j_preferredHost job0 = '''' \<or> matches c (j_preferredHost job0))
                    \<and> is_eligible_ever p c sub0 job0) cs
               then Some (None, s1)
               else Some (Some (pos0, j_submitter job0), s1)
             }
         }
   }"

text \<open>
  \<open>matched_job_id\<close>: the nested loops look at the first 17 entries of both lists and stop at the
  first requested job with an id that is among the compiled ones; an id of 0 counts as no match.
\<close>

definition matched_job_id :: "job_stat list \<Rightarrow> job_stat list \<Rightarrow> u32" where
  "matched_job_id requested compiled =
     (case find (\<lambda>l. js_jobId l \<noteq> 0 \<and> js_jobId l \<in> set (map js_jobId (take 17 compiled))) (take 17 requested) of
        None \<Rightarrow> 0 | Some l \<Rightarrow> js_jobId l)"

primrec restrict_envs :: "string \<times> string \<Rightarrow> job_ptr list \<Rightarrow> sched \<Rightarrow> sched option" where
  "restrict_envs e [] s = Some s"
| "restrict_envs e (j # js) s = do {
     s1 \<leftarrow> upd_job j (\<lambda>job. job\<lparr>j_environments := [e]\<rparr>) s;
     restrict_envs e js s1
   }"

text \<open>The rest of \<open>empty_queue\<close>: the request at \<open>pos\<close> leaves the queue and \<open>job\<close> goes to \<open>use_cs\<close>.\<close>

definition assign_job :: "position \<Rightarrow> job_ptr \<Rightarrow> cs_ptr \<Rightarrow> sched \<Rightarrow> (bool \<times> sched) option" where
  "assign_job pos j use_cs s = do {
     q \<leftarrow> remove_job_request (job_requests s) pos;
     s1 \<leftarrow> upd_job j (\<lambda>job. job\<lparr>j_state := WAITINGFORCS, j_server := Some use_cs\<rparr>) (s\<lparr>job_requests := q\<rparr>);
     job \<leftarrow> job_at s1 j;
     c \<leftarrow> heap s1 use_cs;
     sub \<leftarrow> heap s1 (j_submitter job);
     let gotit = (envs_match use_cs c job \<noteq> '''');
     let host_platform = (if gotit then envs_match use_cs c job else can_install use_cs c sub job False);
     let matched = matched_job_id (cs_lastRequestedJobs sub) (cs_lastCompiledJobs c);
     let m = (if cs_protocol sub \<ge> 37 \<and> use_cs = j_submitter job
              then NoCSMsg \<lparr>ncs_job_id = j_id job, ncs_client_id = j_localClientId job\<rparr>
              else UseCSMsg \<lparr>ucs_job_id = j_id job, ucs_hostname = cs_name c, ucs_port = cs_remotePort c,
                     ucs_host_platform = host_platform, ucs_got_env = bool32 gotit,
                     ucs_client_id = j_localClientId job, ucs_matched_job_id = matched\<rparr>);
     (ok, s2) \<leftarrow> send_to True (j_submitter job) m s1;
     if \<not> ok then do { s3 \<leftarrow> handle_end (j_submitter job) s2; Some (True, s3) }
     else do {
       s3 \<leftarrow> upd use_cs (\<lambda>c. (appendJob j c)\<lparr>cs_busyInstalling := (if gotit then cs_busyInstalling c else clock s)\<rparr>) s2;
       s4 \<leftarrow> (case find (\<lambda>e. fst e = cs_hostPlatform c) (if j_masterJobFor job = [] then [] else j_environments job) of
                Some e \<Rightarrow> if snd e \<noteq> '''' then restrict_envs e (j_masterJobFor job) s3 else Some s3
              | None \<Rightarrow> Some s3);
       Some (True, s4)
     }
   }"

definition queue_length :: "group list \<Rightarrow> nat" where
  "queue_length q = sum_list (map (\<lambda>g. length (g_l g)) q)"

definition empty_queue :: "algorithm \<Rightarrow> u32 \<Rightarrow> sched \<Rightarrow> (bool \<times> sched) option" where
  "empty_queue algo w s = do {
     first \<leftarrow> get_first_job_request (job_requests s);
     case first of
       None \<Rightarrow> Some (False, s)
     | Some pos \<Rightarrow>
         if asserts s \<and> css s = [] then None
         else do {
           cs \<leftarrow> deref_all (css s) s;
           job \<leftarrow> job_at s (snd pos);
           (found, s1) \<leftarrow> search_loop (Suc (queue_length (job_requests s))) algo w cs job pos s;
           case found of
             None \<Rightarrow> Some (False, s1)
           | Some (pos', use_cs) \<Rightarrow> assign_job pos' (snd pos) use_cs s1
         }
   }"

section \<open>Logging in\<close>

definition conf_msg :: "bool \<Rightarrow> msg" where
  "conf_msg slow = ConfCSMsg \<lparr>cf_max_scheduler_pong = of_int (MAX_SCHEDULER_PONG slow),
     cf_max_scheduler_ping = of_int (MAX_SCHEDULER_PING slow)\<rparr>"

text \<open>\<open>if (IS_PROTOCOL_VERSION(24, cs)) cs->send_msg(ConfCSMsg());\<close>, whatever comes of it.\<close>

definition send_conf :: "cs_ptr \<Rightarrow> sched \<Rightarrow> sched option" where
  "send_conf p s = do {
     c \<leftarrow> heap s p;
     if cs_protocol c \<ge> 24 then map_option snd (send_to True p (conf_msg (slow_net s)) s) else Some s
   }"

definition login_fields :: "login_msg \<Rightarrow> compile_server \<Rightarrow> compile_server" where
  "login_fields m c = c\<lparr>cs_remotePort := lg_port m, cs_compilerVersions := lg_envs m, cs_maxJobs := sint (lg_max_kids m),
     cs_noRemote := lg_noremote m, cs_nodeName := (if lg_nodename m \<noteq> '''' then lg_nodename m else cs_name c),
     cs_hostPlatform := lg_host_platform m, cs_chrootPossible := lg_chroot_possible m,
     cs_supportedFeatures := lg_supported_features m\<rparr>"

text \<open>Connections with the same address and name are stale and are ended.\<close>

primrec end_stale :: "string \<Rightarrow> string \<Rightarrow> cs_ptr list \<Rightarrow> sched \<Rightarrow> sched option" where
  "end_stale ip node [] s = Some s"
| "end_stale ip node (x # xs) s = do {
     old \<leftarrow> heap s x;
     s1 \<leftarrow> (if cs_ip old = ip \<and> cs_nodeName old = node then handle_end x s else Some s);
     end_stale ip node xs s1
   }"

definition handle_login :: "cs_ptr \<Rightarrow> login_msg \<Rightarrow> sched \<Rightarrow> (bool \<times> sched) option" where
  "handle_login p m s = do {
     c0 \<leftarrow> heap s p;
     (counter, c) \<leftarrow> pick_new_id (asserts s) (hostIdCounter s) (login_fields m c0);
     let s1 = s\<lparr>heap := (heap s)(p \<mapsto> c), hostIdCounter := counter\<rparr>;
     if list_ex (matches c) (block_css s1) then Some (False, s1)
     else do {
       s2 \<leftarrow> handle_monitor_stats p None s1;
       s3 \<leftarrow> end_stale (cs_ip c) (cs_nodeName c) (css s2) s2;
       s4 \<leftarrow> send_conf p (s3\<lparr>css := css s3 @ [p]\<rparr>);
       Some (True, s4)
     }
   }"

definition handle_relogin :: "cs_ptr \<Rightarrow> login_msg \<Rightarrow> sched \<Rightarrow> (bool \<times> sched) option" where
  "handle_relogin p m s = do {
     s1 \<leftarrow> upd p (\<lambda>c. c\<lparr>cs_compilerVersions := lg_envs m, cs_busyInstalling := 0\<rparr>) s;
     s2 \<leftarrow> send_conf p s1;
     Some (False, s2)
   }"

primrec stats_all :: "cs_ptr list \<Rightarrow> sched \<Rightarrow> sched option" where
  "stats_all [] s = Some s"
| "stats_all (x # xs) s = do {
     s1 \<leftarrow> handle_monitor_stats x None s;
     stats_all xs s1
   }"

text \<open>The new monitor is in the list while the statistics go out, and is used after that.\<close>

definition handle_mon_login :: "cs_ptr \<Rightarrow> sched \<Rightarrow> (bool \<times> sched) option" where
  "handle_mon_login p s = do {
     s1 \<leftarrow> stats_all (css s) (s\<lparr>monitors := monitors s @ [p]\<rparr>);
     c \<leftarrow> heap s1 p;
     Some (True, s1\<lparr>fd2cs := (fd2cs s1)(cs_fd c := None)\<rparr>)
   }"

section \<open>Jobs that run\<close>

definition handle_job_begin :: "cs_ptr \<Rightarrow> job_begin_msg \<Rightarrow> sched \<Rightarrow> (bool \<times> sched) option" where
  "handle_job_begin p m s =
     (case job_at s (jb_job_id m) of
        None \<Rightarrow> Some (False, s)
      | Some job \<Rightarrow>
          if j_server job \<noteq> Some p then Some (False, s)
          else do {
            s1 \<leftarrow> upd p (\<lambda>c. c\<lparr>cs_clientCount := sint (jb_client_count m)\<rparr>) s;
            s2 \<leftarrow> upd_job (jb_job_id m) (\<lambda>job. job\<lparr>j_state := COMPILING, j_startTime := uint (jb_stime m),
                    j_startOnScheduler := clock s\<rparr>) s1;
            c \<leftarrow> heap s2 p;
            s3 \<leftarrow> notify_monitors (MonJobBeginMsg
                    \<lparr>mjb_job_id = jb_job_id m, mjb_stime = jb_stime m, mjb_hostid = cs_hostId c\<rparr>) s2;
            Some (True, s3)
          })"

subsection \<open>Statistics\<close>

text \<open>The size of the output as if compiled without debug information and optimisation.\<close>

definition scaled_size :: "u32 \<Rightarrow> u64 \<Rightarrow> u64" where
  "scaled_size flags sz =
     (let s1 = (if flags AND Flag_g \<noteq> 0 then sz * 10 div 36
                else if flags AND Flag_g3 \<noteq> 0 then sz * 10 div 45 else sz)
      in if flags AND Flag_O \<noteq> 0 \<or> flags AND Flag_O2 \<noteq> 0 \<or> flags AND Flag_Ol2 \<noteq> 0
         then s1 * 58 div 35 else s1)"

text \<open>
  A job may not change the speed by more than a fifth. With no user time the quotient is infinite and
  the first branch is taken.
\<close>

definition smoothed_size :: "rat \<Rightarrow> u64 \<Rightarrow> u64 \<Rightarrow> u64" where
  "smoothed_size cur_speed sz t =
     (let this_speed = fl32 (float_u64 sz / float_u64 t); f12 = fl64 (12 / 10); td = fl64 (of_int (uint t))
      in if t = 0 \<or> fl64 (this_speed / f12) > cur_speed then of_int \<lfloor>fl64 (fl64 (cur_speed * f12) * td)\<rfloor>
         else if fl64 (this_speed * f12) < cur_speed then of_int \<lfloor>fl64 (fl64 (cur_speed / f12) * td)\<rfloor>
         else sz)"

definition push_compiled :: "job_stat \<Rightarrow> compile_server \<Rightarrow> compile_server" where
  "push_compiled st c = (case push_stat 200 st (cs_lastCompiledJobs c, cs_cumCompiled c) of
     (l, cum) \<Rightarrow> c\<lparr>cs_lastCompiledJobs := l, cs_cumCompiled := cum\<rparr>)"

definition push_requested :: "job_stat \<Rightarrow> compile_server \<Rightarrow> compile_server" where
  "push_requested st c = (case push_stat 200 st (cs_lastRequestedJobs c, cs_cumRequested c) of
     (l, cum) \<Rightarrow> c\<lparr>cs_lastRequestedJobs := l, cs_cumRequested := cum\<rparr>)"

definition add_job_stats :: "job \<Rightarrow> job_done_msg \<Rightarrow> sched \<Rightarrow> sched option" where
  "add_job_stats job m s =
     (if jd_out_uncompressed m < 4096 \<or> jd_exitcode m \<noteq> 0 then Some s
      else do {
        server \<leftarrow> j_server job;
        c \<leftarrow> heap s server;
        let sz = scaled_size (j_argFlags job) (ucast (jd_out_uncompressed m));
        let sz' = (if length (cs_lastCompiledJobs c) \<ge> 7
                   then smoothed_size (server_speed server c None) sz (ucast (jd_user_msec m)) else sz);
        let st = \<lparr>outputSize = sz', compileTimeReal = ucast (jd_real_msec m),
                  compileTimeUser = ucast (jd_user_msec m), compileTimeSys = ucast (jd_sys_msec m),
                  js_jobId = j_id job\<rparr>;
        s1 \<leftarrow> upd server (push_compiled st) s;
        s2 \<leftarrow> upd (j_submitter job) (push_requested st) s1;
        let w = push_stat 2000 st (all_job_stats s2, cum_job_stats s2);
        Some (s2\<lparr>all_job_stats := fst w, cum_job_stats := snd w\<rparr>)
      })"

subsection \<open>The end of a job\<close>

text \<open>
  The clean-up of the queue for a request that was cancelled: in every group of the daemon the
  first occurrence is erased; when a group becomes empty it is erased and the loop ends.
\<close>

fun cancel_request :: "cs_ptr \<Rightarrow> job_ptr \<Rightarrow> group list \<Rightarrow> group list" where
  "cancel_request p j [] = []"
| "cancel_request p j (g # gs) =
     (if g_submitter g = p
      then (if remove1 j (g_l g) = [] then gs else g\<lparr>g_l := remove1 j (g_l g)\<rparr> # cancel_request p j gs)
      else g # cancel_request p j gs)"

definition waits_for :: "cs_ptr \<Rightarrow> u32 \<Rightarrow> job \<Rightarrow> bool" where
  "waits_for p clientId job \<longleftrightarrow> j_server job = None \<and> j_submitter job = p \<and> j_localClientId job = clientId"

text \<open>The loop over all jobs; it does not stop at a match, and the last match is the result.\<close>

fun find_by_client :: "cs_ptr \<Rightarrow> u32 \<Rightarrow> (job_ptr \<times> job) list \<Rightarrow> job_ptr option \<Rightarrow> group list \<Rightarrow> job_ptr option \<times> group list" where
  "find_by_client p clientId [] found q = (found, q)"
| "find_by_client p clientId ((j, job) # js) found q =
     (if waits_for p clientId job then find_by_client p clientId js (Some j) (cancel_request p j q)
      else find_by_client p clientId js found q)"

definition handle_job_done :: "cs_ptr \<Rightarrow> job_done_msg \<Rightarrow> sched \<Rightarrow> (bool \<times> sched) option" where
  "handle_job_done p m s =
     (let clientId = unknown_job_client_id m;
          (found, q) = (if clientId \<noteq> 0 then find_by_client p clientId (jobs s) None (job_requests s)
                        else (if job_at s (jd_job_id m) \<noteq> None then Some (jd_job_id m) else None, job_requests s));
          s0 = s\<lparr>job_requests := q\<rparr>
      in case found of
           None \<Rightarrow> Some (False, s0)
         | Some j \<Rightarrow> do {
             let m' = (if clientId \<noteq> 0 then set_job_id j m else m);
             job \<leftarrow> job_at s0 j;
             if is_from_server m' \<and> j_server job \<noteq> Some p then do {
               server \<leftarrow> j_server job;
               c \<leftarrow> heap s0 server;
               s1 \<leftarrow> handle_end p s0;
               Some (False, s1)
             } else if \<not> is_from_server m' \<and> j_submitter job \<noteq> p then do {
               c \<leftarrow> heap s0 (j_submitter job);
               s1 \<leftarrow> handle_end p s0;
               Some (False, s1)
             } else do {
               s1 \<leftarrow> upd p (\<lambda>c. c\<lparr>cs_clientCount := sint (jd_client_count m')\<rparr>) s0;
               s2 \<leftarrow> (case j_server job of
                        Some x \<Rightarrow> upd x (removeJob j) s1
                      | None \<Rightarrow> if jd_exitcode m' = 0 then None else Some s1);
               s3 \<leftarrow> add_job_stats job m' s2;
               s4 \<leftarrow> notify_monitors (MonJobDoneMsg m') s3;
               s5 \<leftarrow> delete_job j s4;
               Some (True, s5)
             }
           })"

section \<open>Reports of a daemon\<close>

definition alive :: "int \<Rightarrow> compile_server \<Rightarrow> compile_server" where
  "alive now c = c\<lparr>cs_last_talk := now, cs_maxJobs := (if cs_maxJobs c < 0 then cs_maxJobs c * -1 else cs_maxJobs c)\<rparr>"

definition handle_ping :: "cs_ptr \<Rightarrow> sched \<Rightarrow> (bool \<times> sched) option" where
  "handle_ping p s = map_option (Pair True) (upd p (alive (clock s)) s)"

definition handle_stats :: "cs_ptr \<Rightarrow> stats_msg \<Rightarrow> sched \<Rightarrow> (bool \<times> sched) option" where
  "handle_stats p m s = do {
     c \<leftarrow> heap s p;
     s1 \<leftarrow> (if cs_protocol c < 25 then upd p (alive (clock s)) s else Some s);
     if p \<in> set (css s1) then do {
       s2 \<leftarrow> upd p (\<lambda>c. c\<lparr>cs_load := st_load m, cs_clientCount := sint (st_client_count m)\<rparr>) s1;
       s3 \<leftarrow> handle_monitor_stats p (Some m) s2;
       Some (True, s3)
     } else Some (False, s1)
   }"

primrec blacklist_loop :: "cs_ptr \<Rightarrow> blacklist_host_env_msg \<Rightarrow> cs_ptr list \<Rightarrow> sched \<Rightarrow> sched option" where
  "blacklist_loop p m [] s = Some s"
| "blacklist_loop p m (x # xs) s = do {
     c \<leftarrow> heap s x;
     s1 \<leftarrow> (if cs_name c = bl_hostname m then upd p (blacklistCompileServer x (bl_target m, bl_environment m)) s else Some s);
     blacklist_loop p m xs s1
   }"

definition handle_blacklist_host_env :: "cs_ptr \<Rightarrow> blacklist_host_env_msg \<Rightarrow> sched \<Rightarrow> (bool \<times> sched) option" where
  "handle_blacklist_host_env p m s = map_option (Pair True) (blacklist_loop p m (css s) s)"

section \<open>Control connections\<close>

definition control_banner :: "sched \<Rightarrow> string" where
  "control_banner s = ''200-ICECC '' @ VERSION s @ '': '' @ show_int (clock s - starttime s) @ ''s uptime, ''
     @ show_nat (length (css s)) @ '' hosts, '' @ show_nat (length (jobs s)) @ '' jobs in queue (''
     @ show_u32 (new_job_id s) @ '' total).'' @ newline @ ''200 Use 'help' for help and 'quit' to quit.'' @ newline"

definition handle_control_login :: "cs_ptr \<Rightarrow> sched \<Rightarrow> (bool \<times> sched) option" where
  "handle_control_login p s = do {
     s1 \<leftarrow> upd p (\<lambda>c. c\<lparr>cs_type := LINE, cs_last_talk := clock s, cs_state := LOGGEDIN\<rparr>) s;
     if asserts s1 \<and> p \<in> set (controls s1) then None
     else (let s2 = s1\<lparr>controls := controls s1 @ [p]\<rparr> in send_to True p (TextMsg (control_banner s2)) s2)
   }"

text \<open>Sends the lines in order and stops at the first that cannot be sent.\<close>

primrec send_lines :: "cs_ptr \<Rightarrow> string list \<Rightarrow> sched \<Rightarrow> (bool \<times> sched) option" where
  "send_lines p [] s = Some (True, s)"
| "send_lines p (l # ls) s = do {
     (ok, s1) \<leftarrow> send_to True p (TextMsg l) s;
     if ok then send_lines p ls s1 else Some (False, s1)
   }"

text \<open>One line for each job, as \<open>listcs\<close> and \<open>listjobs\<close> send them.\<close>

primrec send_jobs :: "string \<Rightarrow> cs_ptr \<Rightarrow> job_ptr list \<Rightarrow> sched \<Rightarrow> (bool \<times> sched) option" where
  "send_jobs indent p [] s = Some (True, s)"
| "send_jobs indent p (j # js) s = do {
     l \<leftarrow> dump_job j s;
     (ok, s1) \<leftarrow> send_to True p (TextMsg (indent @ l)) s;
     if ok then send_jobs indent p js s1 else Some (False, s1)
   }"

definition cs_line :: "cs_ptr \<Rightarrow> compile_server \<Rightarrow> int \<Rightarrow> string" where
  "cs_line p c now =
     '' '' @ cs_nodeName c @ snprintf1000 ('' ('' @ c_str (cs_name c) @ '':'' @ show_u32 (cs_remotePort c) @ '') '')
     @ ''['' @ cs_hostPlatform c @ ''] speed=''
     @ snprintf1000 (show_fixed 2 (server_speed p c None) @ '' jobs='' @ show_int (currentJobCount c) @ ''/''
         @ show_int (cs_maxJobs c) @ '' load='' @ show_u32 (cs_load c))
     @ (if cs_busyInstalling c \<noteq> 0
        then snprintf1000 ('' busy installing since '' @ show_int (now - cs_busyInstalling c) @ '' s'') else '''')"

primrec list_cs :: "cs_ptr \<Rightarrow> cs_ptr list \<Rightarrow> sched \<Rightarrow> (bool \<times> sched) option" where
  "list_cs p [] s = Some (True, s)"
| "list_cs p (x # xs) s = do {
     c \<leftarrow> heap s x;
     (ok, s1) \<leftarrow> send_to True p (TextMsg (cs_line x c (clock s))) s;
     if \<not> ok then Some (False, s1)
     else do {
       (ok, s2) \<leftarrow> send_jobs ''   '' p (cs_jobList c) s1;
       if ok then list_cs p xs s2 else Some (False, s2)
     }
   }"

text \<open>\<open>removecs\<close> and \<open>blockcs\<close>: the first server with the name is removed, if the reply could be sent.\<close>

primrec find_cs :: "string \<Rightarrow> cs_ptr list \<Rightarrow> sched \<Rightarrow> cs_ptr option option" where
  "find_cs nm [] s = Some None"
| "find_cs nm (x # xs) s = do {
     c \<leftarrow> heap s x;
     if matches c nm then Some (Some x) else find_cs nm xs s
   }"

primrec remove_hosts :: "bool \<Rightarrow> cs_ptr \<Rightarrow> string list \<Rightarrow> sched \<Rightarrow> sched option" where
  "remove_hosts block p [] s = Some s"
| "remove_hosts block p (nm # nms) s = do {
     let s0 = (if block then s\<lparr>block_css := block_css s @ [nm]\<rparr> else s);
     x \<leftarrow> find_cs nm (css s0) s0;
     s2 \<leftarrow> (case x of
              None \<Rightarrow> Some s0
            | Some y \<Rightarrow> do {
                (ok, s1) \<leftarrow> send_to True p (TextMsg (''removing host '' @ nm)) s0;
                if ok then handle_end y s1 else Some s1
              });
     remove_hosts block p nms s2
   }"

text \<open>\<open>internals\<close>: each daemon is asked for its status and its answer is awaited.\<close>

definition ask_internals :: "cs_ptr \<Rightarrow> sched \<Rightarrow> (msg option \<times> sched) option" where
  "ask_internals x s = do {
     (ok, s1) \<leftarrow> send_to True x GetInternalStatus s;
     if ok then do {
       c \<leftarrow> heap s1 x;
       (case get_msg (sc_libs s1) 10 False (cs_chan c) of
          (m, ch) \<Rightarrow> Some (m, s1\<lparr>heap := (heap s1)(x \<mapsto> c\<lparr>cs_chan := ch\<rparr>)\<rparr>))
     } else Some (None, s1)
   }"

primrec internals_loop :: "cs_ptr \<Rightarrow> string list \<Rightarrow> cs_ptr list \<Rightarrow> sched \<Rightarrow> (bool \<times> sched) option" where
  "internals_loop p names [] s = Some (True, s)"
| "internals_loop p names (x # xs) s = do {
     c \<leftarrow> heap s x;
     if names \<noteq> [] \<and> \<not> list_ex (matches c) names then internals_loop p names xs s
     else do {
       (m, s1) \<leftarrow> ask_internals x s;
       (ok, s2) \<leftarrow> send_to True p (TextMsg (case m of
                     Some (StatusTextMsg t) \<Rightarrow> t
                   | _ \<Rightarrow> cs_nodeName c @ '' not reporting'' @ newline)) s1;
       if ok then internals_loop p names xs s2 else Some (False, s2)
     }
   }"

text \<open>\<open>unblockcs\<close>: of every name the first entry is erased.\<close>

definition unblock :: "string list \<Rightarrow> string list \<Rightarrow> string list" where
  "unblock names blocked = fold remove1 names blocked"

definition done_line :: "cs_ptr \<Rightarrow> (bool \<times> sched) option \<Rightarrow> (bool \<times> sched) option" where
  "done_line p r = do {
     (ok, s) \<leftarrow> r;
     if ok then send_to True p (TextMsg ''200 done'') s else Some (False, s)
   }"

definition help_text :: string where
  "help_text = ''listcs'' @ newline @ ''listblocks'' @ newline @ ''listjobs'' @ newline @ ''removecs'' @ newline
     @ ''blockcs'' @ newline @ ''unblockcs'' @ newline @ ''internals'' @ newline @ ''help'' @ newline @ ''quit''"

definition handle_line :: "cs_ptr \<Rightarrow> string \<Rightarrow> sched \<Rightarrow> (bool \<times> sched) option" where
  "handle_line p t s0 = do {
     let l = split_string blanks t;
     s \<leftarrow> upd p (\<lambda>c. c\<lparr>cs_last_talk := clock s0\<rparr>) s0;
     let cmd = (case l of [] \<Rightarrow> '''' | w # _ \<Rightarrow> map tolower w);
     let args = tl l;
     if cmd = ''listcs'' then done_line p (list_cs p (css s) s)
     else if cmd = ''listblocks'' then done_line p (send_lines p (map (\<lambda>b. ''   '' @ b) (block_css s)) s)
     else if cmd = ''listjobs'' then done_line p (send_jobs '' '' p (map fst (jobs s)) s)
     else if cmd = ''quit'' \<or> cmd = ''exit'' then map_option (Pair False) (handle_end p s)
     else if cmd = ''removecs'' \<or> cmd = ''blockcs'' then
       (if args = [] then done_line p (send_lines p [''401 Sure. But which hosts?''] s)
        else done_line p (map_option (Pair True) (remove_hosts (cmd = ''blockcs'') p args s)))
     else if cmd = ''unblockcs'' then
       (if args = [] then done_line p (send_lines p [''401 Sure. But which host?''] s)
        else done_line p (Some (True, s\<lparr>block_css := unblock args (block_css s)\<rparr>)))
     else if cmd = ''internals'' then done_line p (internals_loop p args (css s) s)
     else if cmd = ''help'' then done_line p (send_lines p [help_text] s)
     else done_line p (send_lines p [''Invalid command '' @ [CHR 0x27] @ t @ [CHR 0x27]] s)
   }"

section \<open>Messages\<close>

definition try_login :: "cs_ptr \<Rightarrow> msg \<Rightarrow> sched \<Rightarrow> (bool \<times> sched) option" where
  "try_login p m s = do {
     (ret, s1) \<leftarrow> (case m of
                     LoginMsg x \<Rightarrow> do { s1 \<leftarrow> upd p (\<lambda>c. c\<lparr>cs_type := DAEMON\<rparr>) s; handle_login p x s1 }
                   | MonLoginMsg \<Rightarrow> do { s1 \<leftarrow> upd p (\<lambda>c. c\<lparr>cs_type := MONITOR\<rparr>) s; handle_mon_login p s1 }
                   | _ \<Rightarrow> Some (False, s));
     s2 \<leftarrow> (if ret then upd p (\<lambda>c. c\<lparr>cs_state := LOGGEDIN\<rparr>) s1 else handle_end p s1);
     Some (ret, s2)
   }"

text \<open>The \<open>switch\<close> of \<open>handle_activity\<close> for a connection that has logged in.\<close>

definition dispatch :: "cs_ptr \<Rightarrow> msg \<Rightarrow> sched \<Rightarrow> (bool \<times> sched) option" where
  "dispatch p m s =
     (case m of
        JobBeginMsg x \<Rightarrow> handle_job_begin p x s
      | JobDoneMsg x \<Rightarrow> handle_job_done p x s
      | PingMsg \<Rightarrow> handle_ping p s
      | StatsMsg x \<Rightarrow> handle_stats p x s
      | EndMsg \<Rightarrow> map_option (Pair False) (handle_end p s)
      | JobLocalBeginMsg x \<Rightarrow> handle_local_job p x s
      | JobLocalDoneMsg x \<Rightarrow> handle_local_job_done p x s
      | LoginMsg x \<Rightarrow> handle_relogin p x s
      | TextMsg t \<Rightarrow> handle_line p t s
      | GetCSMsg x \<Rightarrow> handle_cs_request p x s
      | BlacklistHostEnvMsg x \<Rightarrow> handle_blacklist_host_env p x s
      | _ \<Rightarrow> map_option (Pair False) (handle_end p s))"

definition handle_activity :: "cs_ptr \<Rightarrow> sched \<Rightarrow> (bool \<times> sched) option" where
  "handle_activity p s = do {
     c \<leftarrow> heap s p;
     case get_msg (sc_libs s) 0 True (cs_chan c) of
       (m, ch) \<Rightarrow>
         (let s1 = s\<lparr>heap := (heap s)(p \<mapsto> c\<lparr>cs_chan := ch\<rparr>)\<rparr>
          in case m of
               None \<Rightarrow> map_option (Pair False) (handle_end p s1)
             | Some x \<Rightarrow> if cs_state c = CONNECTED then try_login p x s1 else dispatch p x s1)
   }"

section \<open>Periodic work\<close>

primrec prune_controls :: "cs_ptr list \<Rightarrow> int \<Rightarrow> sched \<Rightarrow> (int \<times> sched) option" where
  "prune_controls [] min_time s = Some (min_time, s)"
| "prune_controls (p # ps) min_time s = do {
     c \<leftarrow> heap s p;
     let ping = MAX_SCHEDULER_PING (slow_net s);
     if clock s - cs_last_talk c \<ge> ping then do { s1 \<leftarrow> handle_end p s; prune_controls ps min_time s1 }
     else prune_controls ps (min min_time (ping - clock s + cs_last_talk c)) s
   }"

definition conn_test :: "cs_ptr \<Rightarrow> sched \<Rightarrow> sched option" where
  "conn_test p s = do {
     c \<leftarrow> heap s p;
     let r = (case connects s of [] \<Rightarrow> (3, ConnProgress) | x # _ \<Rightarrow> x);
     c1 \<leftarrow> startInConnectionTest (clock s) (fst r) (snd r) c;
     Some (s\<lparr>heap := (heap s)(p \<mapsto> c1), connects := tl (connects s)\<rparr>)
   }"

text \<open>One round of the loop over the servers: the new minimum and the state.\<close>

definition prune_server :: "cs_ptr \<Rightarrow> int \<Rightarrow> sched \<Rightarrow> (int \<times> sched) option" where
  "prune_server p min_time s = do {
     s1 \<leftarrow> conn_test p s;
     c \<leftarrow> heap s1 p;
     let now = clock s1;
     let ping = MAX_SCHEDULER_PING (slow_net s1);
     let pong = MAX_SCHEDULER_PONG (slow_net s1);
     let t = getNextTimeout now c;
     let m1 = (if t \<noteq> -1 then min min_time t else min_time);
     if cs_busyInstalling c \<noteq> 0 \<and> now - cs_busyInstalling c \<ge> MAX_BUSY_INSTALLING (slow_net s1)
     then map_option (Pair m1) (handle_end p s1)
     else if cs_protocol c \<ge> 27 then Some (m1, s1)
     else if now - cs_last_talk c \<ge> ping then
       (if cs_maxJobs c \<ge> 0 then do {
          s2 \<leftarrow> upd p (\<lambda>c. c\<lparr>cs_maxJobs := cs_maxJobs c * -1\<rparr>) s1;
          (ok, s3) \<leftarrow> send_to True p PingMsg s2;
          if ok then do {
            s4 \<leftarrow> upd p (\<lambda>c. c\<lparr>cs_last_talk := now - ping + 2 * pong\<rparr>) s3;
            Some (min m1 (2 * pong), s4)
          } else map_option (Pair m1) (handle_end p s3)
        } else map_option (Pair m1) (handle_end p s1))
     else Some (min m1 (ping - now + cs_last_talk c), s1)
   }"

primrec prune_css :: "cs_ptr list \<Rightarrow> int \<Rightarrow> sched \<Rightarrow> (int \<times> sched) option" where
  "prune_css [] min_time s = Some (min_time, s)"
| "prune_css (p # ps) min_time s = do {
     (m, s1) \<leftarrow> prune_server p min_time s;
     prune_css ps m s1
   }"

definition prune_servers :: "sched \<Rightarrow> (int \<times> sched) option" where
  "prune_servers s = do {
     (m, s1) \<leftarrow> prune_controls (controls s) (MAX_SCHEDULER_PING (slow_net s)) s;
     prune_css (css s1) m s1
   }"

end
