(* ===== verification/SchedInv.thy ===== *)
theory SchedInv
  imports Scheduler
begin

text \<open>
  The invariant of the scheduler's state and what it gives: as long as it holds the handlers never
  touch a deleted object, and they keep it. The invariant contains the consistency checks that
  \<open>pick_server\<close> makes in a debug build.
\<close>

section \<open>The invariant\<close>

text \<open>Every list holds live connections of its kind.\<close>

definition live :: "sched \<Rightarrow> cs_type \<Rightarrow> cs_ptr \<Rightarrow> bool" where
  "live s t p \<longleftrightarrow> (\<exists>c. heap s p = Some c \<and> cs_type c = t)"

definition lists_ok :: "sched \<Rightarrow> bool" where
  "lists_ok s \<longleftrightarrow> distinct (css s) \<and> distinct (monitors s) \<and> distinct (controls s) \<and>
     (\<forall>p\<in>set (css s). live s DAEMON p) \<and> (\<forall>p\<in>set (monitors s). live s MONITOR p) \<and>
     (\<forall>p\<in>set (controls s). live s LINE p)"

text \<open>
  While a daemon is being removed, or a job being deleted, part of this does not hold: \<open>E\<close> are the daemons on
  their way out and \<open>K\<close> the jobs that are no longer in the list of their server. Every job is under its
  own id, has a connected submitter, and a connected server once it has been assigned.
\<close>

definition job_ok :: "cs_ptr set \<Rightarrow> job_ptr \<Rightarrow> job \<Rightarrow> bool" where
  "job_ok D j job \<longleftrightarrow> j_id job = j \<and> j_submitter job \<in> D \<and>
     (case j_server job of None \<Rightarrow> j_state job = PENDING | Some x \<Rightarrow> x \<in> D \<and> j_state job \<noteq> PENDING)"

text \<open>A server's list holds exactly the jobs assigned to it; its counter counts the jobs it submitted.\<close>

definition assigned :: "(job_ptr \<Rightarrow> job option) \<Rightarrow> cs_ptr \<Rightarrow> job_ptr set" where
  "assigned M p = {j. \<exists>job. M j = Some job \<and> j_server job = Some p}"

definition submitted :: "(job_ptr \<Rightarrow> job option) \<Rightarrow> cs_ptr \<Rightarrow> job_ptr set" where
  "submitted M p = {j. \<exists>job. M j = Some job \<and> j_submitter job = p}"

definition server_ok :: "cs_ptr set \<Rightarrow> job_ptr set \<Rightarrow> (job_ptr \<Rightarrow> job option) \<Rightarrow> cs_ptr \<Rightarrow> compile_server \<Rightarrow> bool" where
  "server_ok E K M p c \<longleftrightarrow>
     (p \<notin> E \<longrightarrow> set (cs_jobList c) = assigned M p - K \<and> distinct (cs_jobList c))
     \<and> cs_submittedJobsCount c = int (card (submitted M p))"

definition base_ok :: "cs_ptr set \<Rightarrow> job_ptr set \<Rightarrow> sched \<Rightarrow> bool" where
  "base_ok E K s \<longleftrightarrow> lists_ok s \<and> (\<forall>p\<in>E. live s DAEMON p) \<and> sorted_wrt (<) (map fst (jobs s)) \<and>
     (\<forall>j job. job_at s j = Some job \<longrightarrow> job_ok (set (css s) \<union> E) j job) \<and>
     (\<forall>p c. heap s p = Some c \<longrightarrow> server_ok E K (job_at s) p c)"

text \<open>
  Every queued request is a pending job with the submitter and niceness of its group. The other jobs of
  a request for several servers (\<open>masterJobFor\<close> of its first job) are queued behind the first one and
  have the same client id.
\<close>

definition entry_ok :: "(job_ptr \<Rightarrow> job option) \<Rightarrow> group \<Rightarrow> job_ptr \<Rightarrow> bool" where
  "entry_ok M g j \<longleftrightarrow> (case M j of None \<Rightarrow> False
     | Some job \<Rightarrow> j_submitter job = g_submitter g \<and> j_niceness job = g_niceness g \<and> j_server job = None)"

fun slaves_ok :: "(job_ptr \<Rightarrow> job option) \<Rightarrow> job_ptr list \<Rightarrow> bool" where
  "slaves_ok M [] = True"
| "slaves_ok M (j # l) = ((\<forall>job. M j = Some job \<longrightarrow> (\<forall>k\<in>set (j_masterJobFor job).
     k \<in> set l \<and> (\<exists>x. M k = Some x \<and> j_localClientId x = j_localClientId job))) \<and> slaves_ok M l)"

definition queue_ok :: "group list \<Rightarrow> (job_ptr \<Rightarrow> job option) \<Rightarrow> bool" where
  "queue_ok q M \<longleftrightarrow> q_ok q \<and> distinct (concat (map g_l q)) \<and>
     (\<forall>g\<in>set q. (\<forall>j\<in>set (g_l g). entry_ok M g j) \<and> slaves_ok M (g_l g))"

definition consistent :: "sched \<Rightarrow> bool" where
  "consistent s \<longleftrightarrow> base_ok {} {} s \<and> queue_ok (job_requests s) (job_at s)"

section \<open>Jobs and the map of jobs\<close>

lemma job_at_iff: "sorted_wrt (<) (map fst (jobs s)) \<Longrightarrow> job_at s j = Some job \<longleftrightarrow> (j, job) \<in> set (jobs s)"
  by (simp add: job_at_def map_of_eq_Some_iff strict_sorted_iff)

lemma finite_submitted: "finite (submitted (job_at s) p)"
  by (rule finite_subset [OF _ finite_dom_map_of [of "jobs s"]]) (auto simp: submitted_def job_at_def)

lemma job_at_erase: "job_at (s\<lparr>jobs := jobs_erase j (jobs s)\<rparr>) = (job_at s)(j := None)"
proof -
  have "map_of (jobs_erase j m) = (map_of m)(j := None)" for m
    by (induction m) (auto simp: jobs_erase_def fun_eq_iff)
  then show ?thesis
    by (simp add: job_at_def fun_eq_iff)
qed

lemma sorted_erase: "sorted_wrt (<) (map fst m) \<Longrightarrow> sorted_wrt (<) (map fst (jobs_erase j m))"
  by (induction m) (auto simp: jobs_erase_def)

lemma jobs_insert_set: "fst ` set (jobs_insert j x m) = insert j (fst ` set m)"
  by (induction j x m rule: jobs_insert.induct) auto

lemma jobs_insert_props:
  assumes "sorted_wrt (<) (map fst m)"
  shows "map_of (jobs_insert j x m) = (map_of m)(j \<mapsto> x)" and "sorted_wrt (<) (map fst (jobs_insert j x m))"
proof -
  have "map_of (jobs_insert j x m) = (map_of m)(j \<mapsto> x) \<and> sorted_wrt (<) (map fst (jobs_insert j x m))"
    using assms
  proof (induction j x m rule: jobs_insert.induct)
    case (2 j x k y m)
    have "\<forall>a\<in>fst ` set (jobs_insert j x m). k < a" if "k < j"
      using "2.prems" that by (simp add: jobs_insert_set)
    with 2 show ?case
      by (auto simp: fun_eq_iff)
  qed simp
  then show "map_of (jobs_insert j x m) = (map_of m)(j \<mapsto> x)" and "sorted_wrt (<) (map fst (jobs_insert j x m))"
    by simp_all
qed

lemma upd_job_at:
  assumes "job_at s j = Some x"
  obtains s' where "upd_job j f s = Some s'" and "job_at s' = (job_at s)(j \<mapsto> f x)"
    and "s' = s\<lparr>jobs := jobs s'\<rparr>" and "map fst (jobs s') = map fst (jobs s)"
proof -
  let ?m = "map (\<lambda>e. if fst e = j then (j, f (snd e)) else e) (jobs s)"
  have "map_of (map (\<lambda>e. if fst e = j then (j, f (snd e)) else e) m) = (map_of m)(j := map_option f (map_of m j))" for m
    by (induction m) (auto simp: fun_eq_iff)
  then show ?thesis
    using assms by (intro that [of "s\<lparr>jobs := ?m\<rparr>"]) (auto simp: upd_job_def job_at_def)
qed

section \<open>Sending keeps the invariant\<close>

text \<open>
  Sending and notifying change nothing but the channels, except that monitors may disappear.
\<close>

definition same_or_gone :: "cs_ptr set \<Rightarrow> (cs_ptr \<Rightarrow> compile_server option) \<Rightarrow> (cs_ptr \<Rightarrow> compile_server option) \<Rightarrow> bool" where
  "same_or_gone G h h' \<longleftrightarrow> (\<forall>p. if p \<in> G then h' p = None
     else case h p of None \<Rightarrow> h' p = None | Some c \<Rightarrow> \<exists>ch. h' p = Some (c\<lparr>cs_chan := ch\<rparr>))"

definition talk :: "sched \<Rightarrow> sched \<Rightarrow> bool" where
  "talk s s' \<longleftrightarrow> s' = s\<lparr>heap := heap s', fd2cs := fd2cs s', monitors := monitors s'\<rparr> \<and>
     (\<exists>G \<subseteq> set (monitors s). monitors s' = filter (\<lambda>p. p \<notin> G) (monitors s) \<and> same_or_gone G (heap s) (heap s'))"

lemma chan_self: "\<exists>ch. c = c\<lparr>cs_chan := ch\<rparr>" for c :: compile_server
  by (rule exI [of _ "cs_chan c"]) simp

lemma same_or_gone_refl: "same_or_gone {} h h"
  and same_or_gone_upd: "h p = Some c \<Longrightarrow> same_or_gone {} h (h(p \<mapsto> c\<lparr>cs_chan := ch\<rparr>))"
  and same_or_gone_del: "same_or_gone {p} h (h(p := None))"
  by (auto simp: same_or_gone_def chan_self split: option.splits)

lemma same_or_gone_trans:
  assumes "same_or_gone G h1 h2" and "same_or_gone H h2 h3"
  shows "same_or_gone (G \<union> H) h1 h3"
  unfolding same_or_gone_def
proof
  fix p
  show "if p \<in> G \<union> H then h3 p = None
     else case h1 p of None \<Rightarrow> h3 p = None | Some c \<Rightarrow> \<exists>ch. h3 p = Some (c\<lparr>cs_chan := ch\<rparr>)"
    using assms [unfolded same_or_gone_def, THEN spec, of p] by (auto split: if_splits option.splits)
qed

lemma talk_refl: "talk s s"
  unfolding talk_def using same_or_gone_refl by (intro conjI exI [of _ "{}"]) auto

lemma talk_trans:
  assumes "talk s1 s2" and "talk s2 s3"
  shows "talk s1 s3"
proof -
  obtain G where e: "s2 = s1\<lparr>heap := heap s2, fd2cs := fd2cs s2, monitors := monitors s2\<rparr>" and G: "G \<subseteq> set (monitors s1)"
      "monitors s2 = filter (\<lambda>p. p \<notin> G) (monitors s1)" "same_or_gone G (heap s1) (heap s2)"
    using assms(1) by (auto simp: talk_def)
  obtain H where e': "s3 = s2\<lparr>heap := heap s3, fd2cs := fd2cs s3, monitors := monitors s3\<rparr>" and H: "H \<subseteq> set (monitors s2)"
      "monitors s3 = filter (\<lambda>p. p \<notin> H) (monitors s2)" "same_or_gone H (heap s2) (heap s3)"
    using assms(2) by (auto simp: talk_def)
  have "s3 = s1\<lparr>heap := heap s3, fd2cs := fd2cs s3, monitors := monitors s3\<rparr>"
    by (subst e', subst e) simp
  moreover have "monitors s3 = filter (\<lambda>p. p \<notin> G \<union> H) (monitors s1)"
    using G(2) H(2) by (simp add: conj_commute)
  moreover have "G \<union> H \<subseteq> set (monitors s1)"
    using G(1,2) H(1) by auto
  ultimately show ?thesis
    unfolding talk_def using same_or_gone_trans [OF G(3) H(3)] by blast
qed

lemma talk_fields:
  assumes "talk s s'"
  shows "css s' = css s" "controls s' = controls s" "jobs s' = jobs s" "job_requests s' = job_requests s"
    "new_job_id s' = new_job_id s" "asserts s' = asserts s" "sc_libs s' = sc_libs s" "clock s' = clock s"
    "all_job_stats s' = all_job_stats s" "cum_job_stats s' = cum_job_stats s" "job_at s' j = job_at s j"
    "block_css s' = block_css s" "hostIdCounter s' = hostIdCounter s" "slow_net s' = slow_net s"
proof -
  have e: "s' = s\<lparr>heap := heap s', fd2cs := fd2cs s', monitors := monitors s'\<rparr>"
    using assms by (simp add: talk_def)
  show "css s' = css s" "controls s' = controls s" "jobs s' = jobs s" "job_requests s' = job_requests s"
    "new_job_id s' = new_job_id s" "asserts s' = asserts s" "sc_libs s' = sc_libs s" "clock s' = clock s"
    "all_job_stats s' = all_job_stats s" "cum_job_stats s' = cum_job_stats s" "job_at s' j = job_at s j"
    "block_css s' = block_css s" "hostIdCounter s' = hostIdCounter s" "slow_net s' = slow_net s"
    by (subst e, simp add: job_at_def)+
qed

lemma talk_heap_back:
  assumes "talk s s'" and "heap s' p = Some c'"
  obtains c ch where "heap s p = Some c" and "c' = c\<lparr>cs_chan := ch\<rparr>"
proof -
  obtain G where "same_or_gone G (heap s) (heap s')"
    using assms(1) by (auto simp: talk_def)
  from this [unfolded same_or_gone_def, THEN spec, of p] assms(2) show ?thesis
    using that by (cases "heap s p") (auto split: if_splits)
qed

lemma talk_heap:
  assumes "talk s s'" and "heap s p = Some c" and "p \<notin> set (monitors s) \<or> p \<in> set (monitors s')"
  obtains ch where "heap s' p = Some (c\<lparr>cs_chan := ch\<rparr>)"
proof -
  obtain G where G: "G \<subseteq> set (monitors s)" "monitors s' = filter (\<lambda>p. p \<notin> G) (monitors s)" "same_or_gone G (heap s) (heap s')"
    using assms(1) by (auto simp: talk_def)
  then have "p \<notin> G"
    using assms(3) by auto
  with G(3) assms(2) show ?thesis
    using that by (auto simp: same_or_gone_def dest!: spec [of _ p])
qed

lemma talk_monitors: "talk s s' \<Longrightarrow> set (monitors s') \<subseteq> set (monitors s) \<and> (distinct (monitors s) \<longrightarrow> distinct (monitors s'))"
  by (auto simp: talk_def)

lemma not_monitor: "lists_ok s \<Longrightarrow> live s t p \<Longrightarrow> t \<noteq> MONITOR \<Longrightarrow> p \<notin> set (monitors s)"
  by (auto simp: lists_ok_def live_def)

text \<open>
  A step that leaves the lists and the jobs alone, and of every connection its kind, its counter of
  submitted jobs and its list of jobs; monitors may disappear.
\<close>

definition core_same :: "sched \<Rightarrow> sched \<Rightarrow> bool" where
  "core_same s s' \<longleftrightarrow> css s' = css s \<and> controls s' = controls s \<and> jobs s' = jobs s \<and> job_requests s' = job_requests s \<and>
     new_job_id s' = new_job_id s \<and> asserts s' = asserts s \<and> set (monitors s') \<subseteq> set (monitors s) \<and>
     (distinct (monitors s) \<longrightarrow> distinct (monitors s')) \<and>
     (\<forall>p c. heap s p = Some c \<and> (p \<notin> set (monitors s) \<or> p \<in> set (monitors s')) \<longrightarrow> heap s' p \<noteq> None) \<and>
     (\<forall>p c'. heap s' p = Some c' \<longrightarrow> (\<exists>c. heap s p = Some c \<and> cs_type c' = cs_type c \<and>
        cs_submittedJobsCount c' = cs_submittedJobsCount c \<and> cs_jobList c' = cs_jobList c))"

lemma core_same_fields:
  assumes "core_same s s'"
  shows "css s' = css s" "controls s' = controls s" "jobs s' = jobs s" "job_requests s' = job_requests s"
    "new_job_id s' = new_job_id s" "asserts s' = asserts s" "job_at s' = job_at s"
  using assms by (simp_all add: core_same_def job_at_def fun_eq_iff)

lemma core_same_refl: "core_same s s"
  by (auto simp: core_same_def)

lemma core_same_forw: "core_same s s' \<Longrightarrow> heap s p = Some c \<Longrightarrow> p \<notin> set (monitors s) \<or> p \<in> set (monitors s') \<Longrightarrow> \<exists>c'. heap s' p = Some c'"
  unfolding core_same_def by (metis not_None_eq)

lemma core_same_back:
  assumes "core_same s s'" and "heap s' p = Some c'"
  obtains c where "heap s p = Some c" "cs_type c' = cs_type c" "cs_submittedJobsCount c' = cs_submittedJobsCount c" "cs_jobList c' = cs_jobList c"
  using assms unfolding core_same_def by metis

lemma core_same_monitors: "core_same s s' \<Longrightarrow> set (monitors s') \<subseteq> set (monitors s)"
  and core_same_distinct: "core_same s s' \<Longrightarrow> distinct (monitors s) \<Longrightarrow> distinct (monitors s')"
  by (simp_all add: core_same_def)

lemma core_sameI:
  assumes "css s' = css s" "controls s' = controls s" "jobs s' = jobs s" "job_requests s' = job_requests s"
    "new_job_id s' = new_job_id s" "asserts s' = asserts s" "set (monitors s') \<subseteq> set (monitors s)"
    "distinct (monitors s) \<Longrightarrow> distinct (monitors s')"
    "\<And>p c. heap s p = Some c \<Longrightarrow> p \<notin> set (monitors s) \<or> p \<in> set (monitors s') \<Longrightarrow> heap s' p \<noteq> None"
    "\<And>p c'. heap s' p = Some c' \<Longrightarrow> \<exists>c. heap s p = Some c \<and> cs_type c' = cs_type c \<and>
        cs_submittedJobsCount c' = cs_submittedJobsCount c \<and> cs_jobList c' = cs_jobList c"
  shows "core_same s s'"
  unfolding core_same_def using assms by blast

lemma core_same_trans:
  assumes "core_same s1 s2" and "core_same s2 s3"
  shows "core_same s1 s3"
proof (rule core_sameI)
  show "set (monitors s3) \<subseteq> set (monitors s1)"
    using assms [THEN core_same_monitors] by blast
  show "distinct (monitors s3)" if "distinct (monitors s1)"
    using assms that core_same_distinct by blast
  fix p
  show "heap s3 p \<noteq> None" if c: "heap s1 p = Some c" and "p \<notin> set (monitors s1) \<or> p \<in> set (monitors s3)" for c
  proof -
    have m: "p \<notin> set (monitors s1) \<or> p \<in> set (monitors s2)" "p \<notin> set (monitors s2) \<or> p \<in> set (monitors s3)"
      using that(2) assms [THEN core_same_monitors] by blast+
    obtain c2 where "heap s2 p = Some c2"
      using core_same_forw [OF assms(1) c m(1)] by blast
    then show ?thesis
      using core_same_forw [OF assms(2) _ m(2)] by blast
  qed
  show "\<exists>c. heap s1 p = Some c \<and> cs_type c' = cs_type c \<and>
        cs_submittedJobsCount c' = cs_submittedJobsCount c \<and> cs_jobList c' = cs_jobList c" if "heap s3 p = Some c'" for c'
    using core_same_back [OF assms(2) that] core_same_back [OF assms(1)] by metis
qed (simp_all add: core_same_fields [OF assms(1)] core_same_fields [OF assms(2)])

lemma talk_core:
  assumes "talk s s'"
  shows "core_same s s'"
proof (rule core_sameI)
  fix p c'
  assume c': "heap s' p = Some c'"
  obtain c ch where "heap s p = Some c" "c' = c\<lparr>cs_chan := ch\<rparr>"
    using talk_heap_back [OF assms c'] .
  then show "\<exists>c. heap s p = Some c \<and> cs_type c' = cs_type c \<and>
        cs_submittedJobsCount c' = cs_submittedJobsCount c \<and> cs_jobList c' = cs_jobList c"
    by simp
next
  fix p c
  assume "heap s p = Some c" "p \<notin> set (monitors s) \<or> p \<in> set (monitors s')"
  then show "heap s' p \<noteq> None"
    using talk_heap [OF assms] by blast
qed (use talk_fields [OF assms] talk_monitors [OF assms] in simp_all)

lemma core_same_live:
  assumes "core_same s s'" and "live s t p" and "p \<notin> set (monitors s) \<or> p \<in> set (monitors s')"
  shows "live s' t p"
proof -
  obtain c where c: "heap s p = Some c" "cs_type c = t"
    using assms(2) by (auto simp: live_def)
  then obtain c' where c': "heap s' p = Some c'"
    using assms(1,3) by (auto simp: core_same_def)
  with c assms(1) show ?thesis
    by (fastforce simp: core_same_def live_def)
qed

lemma core_same_lists:
  assumes "core_same s s'" and "lists_ok s"
  shows "lists_ok s'"
proof -
  have "live s' t p" if "live s t p" "t \<noteq> MONITOR" for t p
    using core_same_live [OF assms(1) that(1)] not_monitor [OF assms(2) that] by simp
  moreover have "live s' MONITOR p" if "p \<in> set (monitors s')" for p
    using core_same_live [OF assms(1), of MONITOR p] that assms by (auto simp: core_same_def lists_ok_def)
  ultimately show ?thesis
    using assms by (simp add: lists_ok_def core_same_def)
qed

lemma core_same_base:
  assumes "core_same s s'" and "base_ok E K s"
  shows "base_ok E K s'"
proof -
  have l: "lists_ok s"
    using assms(2) by (simp add: base_ok_def)
  have "live s' DAEMON p" if "p \<in> E" for p
    using core_same_live [OF assms(1)] not_monitor [OF l, of DAEMON] that assms(2) by (simp add: base_ok_def)
  moreover have "server_ok E K (job_at s) p c'" if c': "heap s' p = Some c'" for p c'
  proof -
    obtain c where "heap s p = Some c" "cs_submittedJobsCount c' = cs_submittedJobsCount c" "cs_jobList c' = cs_jobList c"
      using core_same_back [OF assms(1) c'] by metis
    with assms(2) show ?thesis
      by (simp add: base_ok_def server_ok_def)
  qed
  ultimately show ?thesis
    using assms(2) core_same_lists [OF assms(1) l] by (simp add: base_ok_def core_same_fields [OF assms(1)])
qed

lemma core_same_inv: "core_same s s' \<Longrightarrow> consistent s \<Longrightarrow> consistent s'"
  by (simp add: consistent_def core_same_base core_same_fields)

text \<open>Updates of a connection that do not concern the invariant.\<close>

definition neutral :: "(compile_server \<Rightarrow> compile_server) \<Rightarrow> bool" where
  "neutral f \<longleftrightarrow> (\<forall>c. cs_type (f c) = cs_type c \<and> cs_submittedJobsCount (f c) = cs_submittedJobsCount c \<and>
     cs_jobList (f c) = cs_jobList c)"

lemma upd_core:
  assumes "heap s p = Some c" and "neutral f"
  obtains s' where "upd p f s = Some s'" and "core_same s s'" and "s' = s\<lparr>heap := (heap s)(p \<mapsto> f c)\<rparr>"
  using assms by (intro that [of "s\<lparr>heap := (heap s)(p \<mapsto> f c)\<rparr>"]) (auto simp: upd_def core_same_def neutral_def)

text \<open>Messages whose writer cannot fail.\<close>

definition plain :: "msg \<Rightarrow> bool" where
  "plain m \<longleftrightarrow> (case m of FileChunkMsg _ \<Rightarrow> False | TextMsg t \<Rightarrow> t \<noteq> '''' | _ \<Rightarrow> True)"

lemma plain_send: "plain m \<Longrightarrow> \<exists>b. send_to_channel L tb p m = Some b"
  by (cases m) (simp_all add: plain_def send_to_channel_def send_body_def write_line_def)

lemma send_msg_plain:
  assumes "plain m"
  shows "\<exists>ok ch. send_msg L blocking bulk m c = Some (ok, ch)"
proof -
  obtain w c0 where w: "(if instate c = NEED_PROTO then wait_for_protocol (set_error L) c else (True, c)) = (w, c0)"
    by fastforce
  obtain b where b: "send_to_channel L (text_based (chop_output c0)) (protocol (chop_output c0)) m = Some b"
    using plain_send [OF assms] by blast
  have "send_msg L blocking bulk m c \<noteq> None"
    unfolding send_msg_def Let_def w by (cases w) (simp_all add: b, blast+)
  then show ?thesis
    by auto
qed

lemma send_to_talk:
  assumes "heap s p = Some c" and "plain m"
  obtains ok s' where "send_to blocking p m s = Some (ok, s')" and "talk s s'" and "monitors s' = monitors s"
proof -
  obtain ok ch where r: "send_msg (sc_libs s) blocking False m (cs_chan c) = Some (ok, ch)"
    using send_msg_plain [OF assms(2)] by blast
  let ?s = "s\<lparr>heap := (heap s)(p \<mapsto> c\<lparr>cs_chan := ch\<rparr>)\<rparr>"
  have "same_or_gone {} (heap s) (heap ?s)"
    using same_or_gone_upd [of "heap s", OF assms(1)] by simp
  then have "talk s ?s"
    unfolding talk_def by (intro conjI exI [of _ "{}"]) auto
  then show ?thesis
    using r assms(1) by (intro that [of ok ?s]) (simp_all add: send_to_def)
qed

lemma end_monitor_talk:
  assumes "lists_ok s" and "p \<in> set (monitors s)"
  obtains s' where "end_monitor p s = Some s'" and "talk s s'" and "monitors s' = removeAll p (monitors s)"
proof -
  obtain c where c: "heap s p = Some c"
    using assms by (auto simp: lists_ok_def live_def)
  let ?s = "s\<lparr>monitors := removeAll p (monitors s), fd2cs := (fd2cs s)(cs_fd c := None), heap := (heap s)(p := None)\<rparr>"
  have "same_or_gone {p} (heap s) (heap ?s)"
    using same_or_gone_del by simp
  moreover have "removeAll p (monitors s) = filter (\<lambda>x. x \<notin> {p}) (monitors s)"
    by (simp add: removeAll_filter_not_eq) metis
  ultimately have "talk s ?s"
    unfolding talk_def using assms(2) by (intro conjI exI [of _ "{p}"]) auto
  then show ?thesis
    using c assms(2) by (intro that [of ?s]) (simp_all add: end_monitor_def delete_cs_def)
qed

lemma notify_loop_talk:
  assumes "lists_ok s" and "set ps \<subseteq> set (monitors s)" and "distinct ps" and "plain m"
  shows "\<exists>s'. notify_loop m ps s = Some s' \<and> talk s s'"
  using assms
proof (induction ps arbitrary: s)
  case (Cons p ps)
  obtain c where c: "heap s p = Some c"
    using Cons.prems by (auto simp: lists_ok_def live_def)
  obtain ok s1 where s1: "send_to False p m s = Some (ok, s1)" "talk s s1" "monitors s1 = monitors s"
    using send_to_talk [OF c Cons.prems(4)] by metis
  have l1: "lists_ok s1"
    using core_same_lists [OF talk_core [OF s1(2)] Cons.prems(1)] .
  obtain s2 where s2: "(if ok then Some s1 else end_monitor p s1) = Some s2" "talk s1 s2" "set ps \<subseteq> set (monitors s2)"
  proof (cases ok)
    case True
    then show ?thesis
      using that [of s1] talk_refl Cons.prems(2) s1(3) by auto
  next
    case False
    obtain s2 where "end_monitor p s1 = Some s2" "talk s1 s2" "monitors s2 = removeAll p (monitors s1)"
      using end_monitor_talk [OF l1, of p] Cons.prems(2) s1(3) by auto
    with False Cons.prems(2,3) s1(3) show ?thesis
      by (intro that [of s2]) auto
  qed
  obtain s3 where s3: "notify_loop m ps s2 = Some s3" "talk s2 s3"
    using Cons.IH [OF core_same_lists [OF talk_core [OF s2(2)] l1] s2(3)] Cons.prems(3,4) by auto
  have "talk s s3"
    using talk_trans [OF talk_trans [OF s1(2) s2(2)] s3(2)] .
  with s1(1) s2(1) s3(1) show ?case
    by simp
qed (auto simp: talk_refl)

lemma notify_talk:
  assumes "lists_ok s" and "plain m"
  obtains s' where "notify_monitors m s = Some s'" and "talk s s'"
  using notify_loop_talk [OF assms(1) _ _ assms(2), of "monitors s"] assms(1)
  by (auto simp: notify_monitors_def lists_ok_def)

end
