(* ===== verification/SchedEnd.thy ===== *)
theory SchedEnd
  imports SchedInv
begin

text \<open>
  The end of a connection: \<open>handle_end\<close> in every state that satisfies the invariant removes the
  connection and all that depends on it, and leaves the invariant intact.
\<close>

section \<open>Deleting one job\<close>

text \<open>What the steps of \<open>handle_end\<close> leave alone. Monitors may disappear on the way.\<close>

definition keep :: "sched \<Rightarrow> sched \<Rightarrow> bool" where
  "keep s s' \<longleftrightarrow> css s' = css s \<and> controls s' = controls s \<and> job_requests s' = job_requests s \<and>
     new_job_id s' = new_job_id s \<and> asserts s' = asserts s \<and> set (monitors s') \<subseteq> set (monitors s) \<and>
     (\<forall>p t. live s t p \<and> t \<noteq> MONITOR \<longrightarrow> live s' t p)"

lemma keep_fields:
  assumes "keep s s'"
  shows "css s' = css s" "controls s' = controls s" "job_requests s' = job_requests s"
    "new_job_id s' = new_job_id s" "asserts s' = asserts s" "set (monitors s') \<subseteq> set (monitors s)"
  using assms by (simp_all add: keep_def)

lemma keep_refl: "keep s s"
  by (simp add: keep_def)

lemma keep_trans: "keep s1 s2 \<Longrightarrow> keep s2 s3 \<Longrightarrow> keep s1 s3"
  by (auto simp: keep_def)

lemma keep_live: "keep s s' \<Longrightarrow> live s t p \<Longrightarrow> t \<noteq> MONITOR \<Longrightarrow> live s' t p"
  by (auto simp: keep_def)

lemma core_keep:
  assumes "core_same s s'" and "lists_ok s"
  shows "keep s s'"
  unfolding keep_def using core_same_live [OF assms(1)] not_monitor [OF assms(2)]
  by (auto simp: core_same_fields [OF assms(1)] dest: core_same_monitors [OF assms(1), THEN subsetD])

lemma job_at_eq: "jobs s' = jobs s \<Longrightarrow> job_at s' = job_at s"
  by (simp add: job_at_def fun_eq_iff)

lemma job_at_upd [simp]: "job_at (s\<lparr>heap := h\<rparr>) = job_at s" "job_at (s\<lparr>css := l\<rparr>) = job_at s"
    "job_at (s\<lparr>job_requests := q\<rparr>) = job_at s" "job_at (s\<lparr>fd2cs := d\<rparr>) = job_at s" "job_at (s\<lparr>controls := l\<rparr>) = job_at s"
  by (simp_all add: job_at_def fun_eq_iff)

lemma base_lists: "base_ok E K s \<Longrightarrow> lists_ok s"
  by (simp add: base_ok_def)

lemma base_daemon:
  assumes "base_ok E K s" and "p \<in> set (css s) \<union> E"
  obtains c where "heap s p = Some c" and "cs_type c = DAEMON"
  using assms by (auto simp: base_ok_def lists_ok_def live_def)

lemma base_heap: "base_ok E K s \<Longrightarrow> p \<in> set (css s) \<union> E \<Longrightarrow> heap s p \<noteq> None"
  by (erule (1) base_daemon) simp

lemma base_job:
  assumes "base_ok E K s" and "job_at s j = Some job"
  shows "j_id job = j" and "j_submitter job \<in> set (css s) \<union> E" and "j_server job = Some x \<Longrightarrow> x \<in> set (css s) \<union> E"
  using assms by (auto simp: base_ok_def job_ok_def split: option.splits)

text \<open>An update of one connection that keeps its kind.\<close>

lemma lists_ok_upd:
  assumes "lists_ok s" and "heap s x = Some c" and "cs_type c' = cs_type c"
  shows "lists_ok (s\<lparr>heap := (heap s)(x \<mapsto> c')\<rparr>)"
  using assms by (auto simp: lists_ok_def live_def)

lemma keep_upd:
  assumes "heap s x = Some c" and "cs_type c' = cs_type c"
  shows "keep s (s\<lparr>heap := (heap s)(x \<mapsto> c')\<rparr>)"
  using assms by (auto simp: keep_def live_def)

lemma base_upd:
  assumes "base_ok E K s" and "heap s x = Some c" and "cs_type c' = cs_type c"
    and "server_ok E L (job_at s) x c'"
    and "\<And>p c. p \<noteq> x \<Longrightarrow> server_ok E K (job_at s) p c \<Longrightarrow> server_ok E L (job_at s) p c"
  shows "base_ok E L (s\<lparr>heap := (heap s)(x \<mapsto> c')\<rparr>)"
  using assms lists_ok_upd [OF base_lists [OF assms(1)] assms(2,3)]
  by (auto simp: base_ok_def live_def)

lemma remove_job_base:
  assumes "base_ok E K s" and "job_at s j = Some job" and "j_server job = Some x"
  obtains s' where "upd x (removeJob j) s = Some s'" and "base_ok E (insert j K) s'" and "keep s s'" and "jobs s' = jobs s"
proof -
  obtain c where c: "heap s x = Some c"
    using base_daemon [OF assms(1)] base_job(3) [OF assms] by metis
  let ?s = "s\<lparr>heap := (heap s)(x \<mapsto> removeJob j c)\<rparr>"
  have "server_ok E K (job_at s) x c"
    using assms(1) c by (simp add: base_ok_def)
  then have "base_ok E (insert j K) ?s"
    using assms(2,3) by (intro base_upd [OF assms(1) c]) (auto simp: server_ok_def assigned_def removeJob_def distinct_removeAll)
  then show ?thesis
    using c by (intro that [of ?s] keep_upd) (auto simp: upd_def removeJob_def)
qed

lemma forget_job_base:
  assumes "base_ok E K s" and "job_at s j = Some job" and "case j_server job of None \<Rightarrow> True | Some x \<Rightarrow> x \<in> E"
  shows "base_ok E (insert j K) s"
  using assms by (auto simp: base_ok_def server_ok_def assigned_def split: option.splits)

lemma base_K:
  assumes "base_ok E K s" and "L \<subseteq> K" and "\<forall>j\<in>K - L. job_at s j = None"
  shows "base_ok E L s"
proof -
  have "assigned (job_at s) p - K = assigned (job_at s) p - L" for p
    using assms(2,3) by (auto simp: assigned_def)
  with assms(1) show ?thesis
    by (simp add: base_ok_def server_ok_def)
qed

lemma delete_job_base:
  assumes "base_ok E (insert j K) s" and "job_at s j = Some job"
  obtains s' where "delete_job j s = Some s'" and "base_ok E K s'" and "keep s s'" and "jobs s' = jobs_erase j (jobs s)"
proof -
  let ?x = "j_submitter job"
  obtain c where c: "heap s ?x = Some c" "cs_type c = DAEMON"
    using base_daemon [OF assms(1)] base_job(2) [OF assms] by metis
  let ?s = "s\<lparr>jobs := jobs_erase j (jobs s), heap := (heap s)(?x \<mapsto> submittedJobsDecrement c)\<rparr>"
  have M: "job_at ?s = (job_at s)(j := None)"
    using job_at_erase [of j s] by (simp add: job_at_def fun_eq_iff)
  have l: "lists_ok ?s"
    using lists_ok_upd [OF base_lists [OF assms(1)] c(1), of "submittedJobsDecrement c"]
    by (simp add: lists_ok_def live_def submittedJobsDecrement_def)
  have sub: "submitted (job_at ?s) p = submitted (job_at s) p - {j}" and asg: "assigned (job_at ?s) p - K = assigned (job_at s) p - insert j K" for p
    unfolding M using assms(2) by (auto simp: submitted_def assigned_def)
  have n: "card (submitted (job_at ?s) p) = (if p = ?x then card (submitted (job_at s) p) - 1 else card (submitted (job_at s) p))" for p
    unfolding sub using assms(2) finite_submitted [of s p] by (auto simp: submitted_def card_Diff_singleton_if)
  have pos: "0 < card (submitted (job_at s) ?x)"
    using assms(2) finite_submitted [of s ?x] by (auto simp: card_gt_0_iff submitted_def)
  have "server_ok E K (job_at ?s) p d" if "heap ?s p = Some d" for p d
    using assms(1) that c(1) pos unfolding server_ok_def asg n
    by (auto simp: base_ok_def server_ok_def submittedJobsDecrement_def split: if_splits)
  then have "base_ok E K ?s"
    using assms(1) l c(1) unfolding base_ok_def M
    by (auto simp: live_def sorted_erase submittedJobsDecrement_def)
  moreover have "keep s ?s"
    using c(1) by (auto simp: keep_def live_def submittedJobsDecrement_def)
  ultimately show ?thesis
    using c(1) assms(2) by (intro that [of ?s]) (simp_all add: delete_job_def upd_def)
qed

section \<open>The jobs of a daemon that leaves\<close>

text \<open>The body of the loops of \<open>handle_end\<close>.\<close>

definition retire :: "cs_ptr \<Rightarrow> job_ptr \<Rightarrow> job \<Rightarrow> sched \<Rightarrow> sched option" where
  "retire p j job s = do {
     s1 \<leftarrow> notify_monitors (mon_job_done j) s;
     s2 \<leftarrow> (case j_server job of
              Some x \<Rightarrow> if x \<noteq> p then upd x (removeJob j) s1 else Some s1
            | None \<Rightarrow> Some s1);
     s3 \<leftarrow> reset_installing (j_server job) s2;
     delete_job j s3
   }"

lemma plain_simps [simp]: "plain (mon_job_done j)" "plain (MonStatsMsg x)" "plain (MonGetCSMsg y)" "plain (MonJobBeginMsg z)"
    "plain (MonJobDoneMsg d)" "plain (MonLocalJobBeginMsg l)" "plain (JobLocalDoneMsg k)" "plain (UseCSMsg u)" "plain (NoCSMsg n)"
    "plain (ConfCSMsg f)" "plain PingMsg" "plain GetInternalStatus"
  by (simp_all add: plain_def mon_job_done_def)

lemma reset_installing_core:
  assumes "case x of None \<Rightarrow> True | Some y \<Rightarrow> heap s y \<noteq> None"
  obtains s' where "reset_installing x s = Some s'" and "core_same s s'"
proof (cases x)
  case (Some y)
  then obtain c where "heap s y = Some c"
    using assms by auto
  moreover have "neutral (\<lambda>c. c\<lparr>cs_busyInstalling := 0\<rparr>)"
    by (simp add: neutral_def)
  ultimately show ?thesis
    using upd_core [of s y c "\<lambda>c. c\<lparr>cs_busyInstalling := 0\<rparr>"] that Some by (auto simp: reset_installing_def)
qed (simp add: reset_installing_def that core_same_refl)

lemma retire_base:
  assumes "base_ok {p} K s" and "job_at s j = Some job"
  obtains s' where "retire p j job s = Some s'" and "base_ok {p} K s'" and "keep s s'" and "jobs s' = jobs_erase j (jobs s)"
proof -
  obtain s1 where s1: "notify_monitors (mon_job_done j) s = Some s1" "talk s s1"
    using notify_talk [OF base_lists [OF assms(1)] plain_simps(1)] .
  note c1 = talk_core [OF s1(2)]
  have b1: "base_ok {p} K s1" and j1: "job_at s1 j = Some job"
    using core_same_base [OF c1 assms(1)] assms(2) by (simp_all add: core_same_fields [OF c1])
  obtain s2 where s2: "(case j_server job of Some x \<Rightarrow> if x \<noteq> p then upd x (removeJob j) s1 else Some s1 | None \<Rightarrow> Some s1) = Some s2"
      and b2: "base_ok {p} (insert j K) s2" and f2: "keep s1 s2" and j2: "jobs s2 = jobs s1"
  proof (cases "case j_server job of None \<Rightarrow> True | Some x \<Rightarrow> x \<in> {p}")
    case True
    then show ?thesis
      using forget_job_base [OF b1 j1 True] keep_refl by (intro that [of s1]) (auto split: option.splits)
  next
    case False
    then obtain x where x: "j_server job = Some x" "x \<noteq> p"
      by (auto split: option.splits)
    obtain s2 where "upd x (removeJob j) s1 = Some s2" "base_ok {p} (insert j K) s2" "keep s1 s2" "jobs s2 = jobs s1"
      using remove_job_base [OF b1 j1 x(1)] .
    with x show ?thesis
      by (intro that [of s2]) simp_all
  qed
  have j2': "job_at s2 j = Some job"
    using j1 job_at_eq [OF j2] by simp
  have "case j_server job of None \<Rightarrow> True | Some y \<Rightarrow> heap s2 y \<noteq> None"
    using base_job(3) [OF b2 j2', THEN base_heap [OF b2]] by (simp split: option.splits)
  then obtain s3 where s3: "reset_installing (j_server job) s2 = Some s3" "core_same s2 s3"
    by (rule reset_installing_core)
  have b3: "base_ok {p} (insert j K) s3" and j3: "job_at s3 j = Some job"
    using core_same_base [OF s3(2) b2] j2' by (simp_all add: core_same_fields [OF s3(2)])
  obtain s4 where s4: "delete_job j s3 = Some s4" "base_ok {p} K s4" "keep s3 s4" "jobs s4 = jobs_erase j (jobs s3)"
    using delete_job_base [OF b3 j3] .
  have "keep s s4"
    using keep_trans [OF keep_trans [OF core_keep [OF c1 base_lists [OF assms(1)]] f2]
      keep_trans [OF core_keep [OF s3(2) base_lists [OF b2]] s4(3)]] .
  moreover have "jobs s4 = jobs_erase j (jobs s)"
    using s4(4) j2 by (simp add: core_same_fields [OF s3(2)] core_same_fields [OF c1])
  ultimately show ?thesis
    using s1(1) s2 s3(1) s4(1,2) by (intro that [of s4]) (simp_all add: retire_def)
qed

text \<open>A list of jobs is retired one after the other.\<close>

primrec retire_all :: "cs_ptr \<Rightarrow> (job_ptr \<times> job) list \<Rightarrow> sched \<Rightarrow> sched option" where
  "retire_all p [] s = Some s"
| "retire_all p (e # es) s = do { s1 \<leftarrow> retire p (fst e) (snd e) s; retire_all p es s1 }"

lemma retire_all_base:
  assumes "base_ok {p} K s" and "\<forall>e\<in>set es. job_at s (fst e) = Some (snd e)" and "distinct (map fst es)"
  shows "\<exists>s'. retire_all p es s = Some s' \<and> base_ok {p} K s' \<and> keep s s' \<and>
    jobs s' = filter (\<lambda>e. fst e \<notin> fst ` set es) (jobs s)"
  using assms
proof (induction es arbitrary: s)
  case (Cons e es)
  obtain s1 where s1: "retire p (fst e) (snd e) s = Some s1" "base_ok {p} K s1" "keep s s1" "jobs s1 = jobs_erase (fst e) (jobs s)"
    using retire_base [OF Cons.prems(1), of "fst e" "snd e"] Cons.prems(2) by auto
  have "job_at s1 = (job_at s)(fst e := None)"
    using job_at_erase [of "fst e" s] s1(4) by (simp add: job_at_def fun_eq_iff)
  then have "\<forall>x\<in>set es. job_at s1 (fst x) = Some (snd x)"
    using Cons.prems(2,3) by (auto simp: image_iff)
  then obtain s2 where s2: "retire_all p es s1 = Some s2" "base_ok {p} K s2" "keep s1 s2"
      "jobs s2 = filter (\<lambda>x. fst x \<notin> fst ` set es) (jobs s1)"
    using Cons.IH [OF s1(2)] Cons.prems(3) by auto
  moreover have "jobs s2 = filter (\<lambda>x. fst x \<notin> fst ` set (e # es)) (jobs s)"
    using s2(4) s1(4) by (auto simp: jobs_erase_def intro: filter_cong)
  ultimately show ?case
    using s1(1) keep_trans [OF s1(3) s2(3)] by auto
qed (auto simp: keep_refl)

lemma retire_all_append: "retire_all p (a @ b) s = do { s1 \<leftarrow> retire_all p a s; retire_all p b s1 }"
  by (induction a arbitrary: s) auto

lemma end_jobs_retire:
  "end_jobs p es = retire_all p (filter (\<lambda>e. j_server (snd e) = Some p \<or> j_submitter (snd e) = p) es)"
proof (induction es)
  case (Cons e es)
  show ?case
    by (rule ext, cases e) (auto simp: Cons.IH retire_def split: option.splits)
qed (simp add: fun_eq_iff)

text \<open>The jobs in the queue have no server, so that the loop over them does the same.\<close>

lemma job_at_gone:
  assumes "jobs s' = filter (\<lambda>e. fst e \<notin> A) (jobs s)"
  shows "job_at s' j = (if j \<in> A then None else job_at s j)"
proof -
  have "map_of (filter (\<lambda>e. fst e \<notin> A) m) j = (if j \<in> A then None else map_of m j)" for m :: "(job_ptr \<times> job) list"
    by (induction m) auto
  with assms show ?thesis
    by (simp add: job_at_def)
qed

lemma end_group_jobs_base:
  assumes "base_ok {p} K s" and "\<forall>j\<in>set js. \<exists>job. job_at s j = Some job \<and> j_server job = None" and "distinct js"
  shows "\<exists>s'. end_group_jobs js s = Some s' \<and> base_ok {p} K s' \<and> keep s s' \<and>
    jobs s' = filter (\<lambda>e. fst e \<notin> set js) (jobs s)"
  using assms
proof (induction js arbitrary: s)
  case (Cons j js)
  obtain job where j: "job_at s j = Some job" "j_server job = None"
    using Cons.prems(2) by auto
  obtain s1 where s1: "retire p j job s = Some s1" "base_ok {p} K s1" "keep s s1" "jobs s1 = jobs_erase j (jobs s)"
    using retire_base [OF Cons.prems(1) j(1)] .
  have "job_at s1 k = (if k \<in> {j} then None else job_at s k)" for k
    using s1(4) by (intro job_at_gone) (simp add: jobs_erase_def)
  then have "\<forall>k\<in>set js. \<exists>job. job_at s1 k = Some job \<and> j_server job = None"
    using Cons.prems(2,3) by auto
  then obtain s2 where s2: "end_group_jobs js s1 = Some s2" "base_ok {p} K s2" "keep s1 s2"
      "jobs s2 = filter (\<lambda>e. fst e \<notin> set js) (jobs s1)"
    using Cons.IH [OF s1(2)] Cons.prems(3) by auto
  have "end_group_jobs (j # js) s = do { s1 \<leftarrow> retire p j job s; end_group_jobs js s1 }"
    using j by (simp add: retire_def)
  moreover have "jobs s2 = filter (\<lambda>e. fst e \<notin> set (j # js)) (jobs s)"
    using s2(4) s1(4) by (auto simp: jobs_erase_def intro: filter_cong)
  ultimately show ?case
    using s1(1) s2(1,2) keep_trans [OF s1(3) s2(3)] by simp
qed (auto simp: keep_refl)

definition queued_by :: "cs_ptr \<Rightarrow> group list \<Rightarrow> job_ptr list" where
  "queued_by p q = concat (map g_l (filter (\<lambda>g. g_submitter g = p) q))"

lemma end_group_jobs_append: "end_group_jobs (a @ b) s = do { s1 \<leftarrow> end_group_jobs a s; end_group_jobs b s1 }"
  by (induction a arbitrary: s) (auto intro!: Option.bind_cong)

lemma end_groups_jobs: "end_groups p q s = end_group_jobs (queued_by p q) s"
proof (induction q arbitrary: s)
  case (Cons g q)
  then show ?case
    by (auto simp: queued_by_def end_group_jobs_append intro!: Option.bind_cong)
qed (simp add: queued_by_def)

lemma distinct_queued_by: "distinct (concat (map g_l q)) \<Longrightarrow> distinct (queued_by p q)"
  by (induction q) (auto simp: queued_by_def)

lemma queued_by_entry:
  assumes "queue_ok q M" and "j \<in> set (queued_by p q)"
  shows "\<exists>job. M j = Some job \<and> j_server job = None \<and> j_submitter job = p"
  using assms by (fastforce simp: queue_ok_def queued_by_def entry_ok_def split: option.splits)

lemma erase_blacklists_core:
  assumes "\<forall>x\<in>set xs. heap s x \<noteq> None"
  shows "\<exists>s'. erase_blacklists p xs s = Some s' \<and> core_same s s' \<and>
    (\<forall>x c. heap s' x = Some c \<and> (x \<in> set xs \<or> (\<forall>c0. heap s x = Some c0 \<longrightarrow> cs_blacklist c0 p = [])) \<longrightarrow> cs_blacklist c p = [])"
  using assms
proof (induction xs arbitrary: s)
  case (Cons x xs)
  obtain c where c: "heap s x = Some c"
    using Cons.prems by auto
  have "neutral (eraseCSFromBlacklist p)"
    by (simp add: neutral_def eraseCSFromBlacklist_def)
  then obtain s1 where s1: "upd x (eraseCSFromBlacklist p) s = Some s1" "core_same s s1"
      "s1 = s\<lparr>heap := (heap s)(x \<mapsto> eraseCSFromBlacklist p c)\<rparr>"
    by (rule upd_core [OF c])
  have "\<forall>y\<in>set xs. heap s1 y \<noteq> None"
    using Cons.prems s1(3) by simp
  from Cons.IH [OF this] obtain s2 where s2: "erase_blacklists p xs s1 = Some s2" "core_same s1 s2"
    and b: "\<And>y d. heap s2 y = Some d \<Longrightarrow> y \<in> set xs \<or> (\<forall>c0. heap s1 y = Some c0 \<longrightarrow> cs_blacklist c0 p = []) \<Longrightarrow> cs_blacklist d p = []"
    by blast
  have "cs_blacklist d p = []" if "heap s2 y = Some d" "y \<in> set (x # xs) \<or> (\<forall>c0. heap s y = Some c0 \<longrightarrow> cs_blacklist c0 p = [])" for y d
    using b [OF that(1)] that(2) s1(3) by (auto simp: eraseCSFromBlacklist_def split: if_splits)
  then show ?case
    using s1(1) s2(1) core_same_trans [OF s1(2) s2(2)] by auto
qed (auto simp: core_same_refl)

section \<open>The end of a connection\<close>

definition involves :: "cs_ptr \<Rightarrow> job \<Rightarrow> bool" where
  "involves p job \<longleftrightarrow> j_server job = Some p \<or> j_submitter job = p"

definition without_cs :: "cs_ptr \<Rightarrow> sched \<Rightarrow> sched \<Rightarrow> bool" where
  "without_cs p s s' \<longleftrightarrow> css s' = removeAll p (css s) \<and> jobs s' = filter (\<lambda>e. \<not> involves p (snd e)) (jobs s) \<and>
     job_requests s' = filter (\<lambda>g. g_submitter g \<noteq> p) (job_requests s) \<and>
     (\<forall>x\<in>set (css s'). \<forall>c. heap s' x = Some c \<longrightarrow> cs_blacklist c p = [])"

text \<open>What does not concern the connection that ends.\<close>

definition others_same :: "cs_ptr \<Rightarrow> sched \<Rightarrow> sched \<Rightarrow> bool" where
  "others_same p s s' \<longleftrightarrow> new_job_id s' = new_job_id s \<and> asserts s' = asserts s \<and>
     controls s' = removeAll p (controls s) \<and> set (monitors s') \<subseteq> set (monitors s) \<and>
     (\<forall>q t. q \<noteq> p \<and> live s t q \<and> t \<noteq> MONITOR \<longrightarrow> live s' t q)"

lemma base_leaving:
  assumes "base_ok {} K s" and "live s DAEMON p"
  shows "base_ok {p} K (s\<lparr>css := removeAll p (css s)\<rparr>)"
proof -
  have "lists_ok (s\<lparr>css := removeAll p (css s)\<rparr>)"
    using base_lists [OF assms(1)] by (auto simp: lists_ok_def live_def distinct_removeAll)
  moreover have "job_ok (set (css s)) j job \<Longrightarrow> job_ok (set (css s) - {p} \<union> {p}) j job" for j job
    by (auto simp: job_ok_def split: option.splits)
  ultimately show ?thesis
    using assms by (auto simp: base_ok_def server_ok_def live_def)
qed

lemma base_queue: "base_ok E K (s\<lparr>job_requests := q\<rparr>) = base_ok E K s"
  by (simp add: base_ok_def lists_ok_def live_def)

lemma filter_keys:
  assumes "distinct (map fst m)"
  shows "filter (\<lambda>e. fst e \<notin> fst ` set (filter P m)) m = filter (\<lambda>e. \<not> P e) m"
proof (rule filter_cong [OF refl])
  fix e
  assume e: "e \<in> set m"
  have "x = e" if "x \<in> set m" "fst x = fst e" for x
    using that e eq_key_imp_eq_value [OF assms, of "fst e" "snd x" "snd e"] by (metis prod.collapse)
  with e show "fst e \<notin> fst ` set (filter P m) \<longleftrightarrow> \<not> P e"
    by auto
qed

lemma end_daemon_base:
  assumes "base_ok {} K s" and "queue_ok (job_requests s) (job_at s)" and "live s DAEMON p"
  obtains s' where "end_daemon p s = Some s'" and "base_ok {p} K s'" and "without_cs p s s'"
    and "new_job_id s' = new_job_id s" and "asserts s' = asserts s" and "controls s' = controls s"
    and "set (monitors s') \<subseteq> set (monitors s)" and "\<forall>q t. live s t q \<and> t \<noteq> MONITOR \<longrightarrow> live s' t q"
proof -
  obtain c where c: "heap s p = Some c"
    using assms(3) by (auto simp: live_def)
  let ?m = "MonStatsMsg \<lparr>ms_hostid = cs_hostId c, ms_statmsg = ''State:Offline'' @ [CHR 0x0A]\<rparr>"
  obtain s1 where s1: "notify_monitors ?m s = Some s1" "talk s s1"
    using notify_talk [OF base_lists [OF assms(1)] plain_simps(2)] .
  note core1 = talk_core [OF s1(2)]
  note f1 = core_same_fields [OF core1] and k1 = core_keep [OF core1 base_lists [OF assms(1)]]
  let ?s2 = "s1\<lparr>css := removeAll p (css s1)\<rparr>" and ?Q = "set (queued_by p (job_requests s))"
  have b2: "base_ok {p} K ?s2"
    using base_leaving [OF core_same_base [OF core1 assms(1)] keep_live [OF k1 assms(3)]] by simp
  have "\<forall>j\<in>?Q. \<exists>job. job_at ?s2 j = Some job \<and> j_server job = None" "distinct (queued_by p (job_requests s))"
    using queued_by_entry [OF assms(2)] distinct_queued_by assms(2) by (auto simp: f1 queue_ok_def) blast
  from end_group_jobs_base [OF b2 this]
  obtain s3 where s3: "end_groups p (job_requests ?s2) ?s2 = Some s3" "base_ok {p} K s3" "keep ?s2 s3"
      "jobs s3 = filter (\<lambda>e. fst e \<notin> ?Q) (jobs s)"
    by (auto simp: end_groups_jobs f1)
  let ?s4 = "s3\<lparr>job_requests := filter (\<lambda>g. g_submitter g \<noteq> p) (job_requests s3)\<rparr>"
  have b4: "base_ok {p} K ?s4"
    using s3(2) by (simp add: base_queue)
  have srt: "distinct (map fst (jobs s))" "distinct (map fst (jobs s3))"
    using assms(1) s3(2) by (auto simp: base_ok_def strict_sorted_iff)
  have "\<forall>e\<in>set (filter (\<lambda>e. involves p (snd e)) (jobs s3)). job_at ?s4 (fst e) = Some (snd e)"
    using srt(2) by (auto simp: job_at_def)
  from retire_all_base [OF b4 this]
  obtain s5 where s5: "end_jobs p (jobs ?s4) ?s4 = Some s5" "base_ok {p} K s5" "keep ?s4 s5"
      "jobs s5 = filter (\<lambda>e. fst e \<notin> fst ` set (filter (\<lambda>e. involves p (snd e)) (jobs s3))) (jobs s3)"
    using srt(2) by (auto simp: end_jobs_retire involves_def distinct_map_filter)
  have "involves p (snd e)" if "e \<in> set (jobs s)" "fst e \<in> ?Q" for e
    using queued_by_entry [OF assms(2) that(2)] map_of_is_SomeI [OF srt(1), of "fst e" "snd e"] that(1)
    by (auto simp: job_at_def involves_def)
  then have j5: "jobs s5 = filter (\<lambda>e. \<not> involves p (snd e)) (jobs s)"
    using s5(4) [unfolded filter_keys [OF srt(2)]] s3(4) by (auto intro!: filter_cong)
  have "\<forall>x\<in>set (css s5). heap s5 x \<noteq> None"
    using base_heap [OF s5(2)] by simp
  from erase_blacklists_core [OF this, of p]
  obtain s6 where s6: "erase_blacklists p (css s5) s5 = Some s6" "core_same s5 s6"
      "\<forall>x\<in>set (css s5). \<forall>c. heap s6 x = Some c \<longrightarrow> cs_blacklist c p = []"
    by blast
  note f6 = core_same_fields [OF s6(2)] and k6 = core_keep [OF s6(2) base_lists [OF s5(2)]]
  note kf = keep_fields [OF s3(3)] keep_fields [OF s5(3)]
  have "end_daemon p s = Some s6"
    using c s1(1) s3(1) s5(1) s6(1) by (simp add: end_daemon_def)
  moreover have "without_cs p s s6"
    using s6(3) j5 kf by (simp add: without_cs_def f6 f1)
  moreover have "set (monitors s6) \<subseteq> set (monitors s)"
    using kf keep_fields(6) [OF k6] keep_fields(6) [OF k1] by auto
  moreover have "live s6 t q" if "live s t q" "t \<noteq> MONITOR" for q t
    using keep_live [OF s3(3)] keep_live [OF s5(3)] keep_live [OF k6] keep_live [OF k1 that] that(2)
    by (simp add: live_def)
  ultimately show ?thesis
    using that core_same_base [OF s6(2) s5(2)] kf by (simp add: f6 f1)
qed

text \<open>What the queue's part of the invariant reads of a job.\<close>

definition qview :: "job \<Rightarrow> cs_ptr \<times> int \<times> cs_ptr option \<times> u32 \<times> job_ptr list" where
  "qview job = (j_submitter job, j_niceness job, j_server job, j_localClientId job, j_masterJobFor job)"

lemma slaves_ok_cong:
  assumes "\<forall>j\<in>set l. map_option qview (M' j) = map_option qview (M j)" and "slaves_ok M l"
  shows "slaves_ok M' l"
  using assms
proof (induction l)
  case (Cons j l)
  have "k \<in> set l \<and> (\<exists>x. M' k = Some x \<and> j_localClientId x = j_localClientId job)"
    if job: "M' j = Some job" and k: "k \<in> set (j_masterJobFor job)" for job k
  proof -
    obtain y where y: "M j = Some y" "qview y = qview job"
      using Cons.prems(1) job by (auto simp: map_option_case split: option.splits)
    then obtain x where x: "k \<in> set l" "M k = Some x" "j_localClientId x = j_localClientId job"
      using Cons.prems(2) k by (auto simp: qview_def)
    then obtain z where "M' k = Some z" "qview z = qview x"
      using Cons.prems(1) by (auto simp: map_option_case split: option.splits)
    with x show ?thesis
      by (simp add: qview_def)
  qed
  with Cons show ?case
    by simp
qed simp

lemma entry_ok_cong: "map_option qview (M' j) = map_option qview (M j) \<Longrightarrow> entry_ok M g j \<Longrightarrow> entry_ok M' g j"
  by (auto simp: entry_ok_def qview_def split: option.splits)

lemma queue_ok_cong:
  assumes "queue_ok q M" and "\<forall>j\<in>set (concat (map g_l q)). map_option qview (M' j) = map_option qview (M j)"
  shows "queue_ok q M'"
  using assms unfolding queue_ok_def by (auto intro!: slaves_ok_cong [of _ M' M] entry_ok_cong [of M' _ M])

lemma q_ok_filter: "q_ok q \<Longrightarrow> q_ok (filter P q)"
  by (induction q) (auto simp: q_ok_Cons)

lemma distinct_filter_groups: "distinct (concat (map g_l q)) \<Longrightarrow> distinct (concat (map g_l (filter P q)))"
  by (induction q) auto

lemma queue_without:
  assumes "queue_ok q M" and "\<And>j job. M j = Some job \<Longrightarrow> \<not> involves p job \<Longrightarrow> M' j = Some job"
  shows "queue_ok (filter (\<lambda>g. g_submitter g \<noteq> p) q) M'"
proof (rule queue_ok_cong)
  show "queue_ok (filter (\<lambda>g. g_submitter g \<noteq> p) q) M"
    using assms(1) by (simp add: queue_ok_def q_ok_filter distinct_filter_groups)
  show "\<forall>j\<in>set (concat (map g_l (filter (\<lambda>g. g_submitter g \<noteq> p) q))). map_option qview (M' j) = map_option qview (M j)"
    using assms by (fastforce simp: queue_ok_def entry_ok_def involves_def split: option.splits)
qed

lemma delete_leaving:
  assumes "base_ok {p} K s" and "heap s p = Some c" and "cs_type c = DAEMON" and "p \<notin> set (css s)"
    and "\<forall>j job. job_at s j = Some job \<longrightarrow> \<not> involves p job" and "\<forall>j\<in>K. job_at s j = None"
  shows "base_ok {} {} (s\<lparr>fd2cs := d, heap := (heap s)(p := None)\<rparr>)"
proof -
  let ?s = "s\<lparr>fd2cs := d, heap := (heap s)(p := None)\<rparr>"
  have b: "base_ok {p} {} s"
    using base_K [OF assms(1)] assms(6) by simp
  then have "lists_ok ?s"
    using assms(2-4) by (auto simp: base_ok_def lists_ok_def live_def)
  moreover have "job_ok (set (css s)) j job" if "job_at s j = Some job" for j job
  proof -
    have "job_ok (set (css s) \<union> {p}) j job" "\<not> involves p job"
      using b that assms(5) by (auto simp: base_ok_def)
    then show ?thesis
      by (auto simp: job_ok_def involves_def split: option.splits)
  qed
  moreover have "server_ok {} {} (job_at s) q x" if "heap s q = Some x" "q \<noteq> p" for q x
    using b that by (auto simp: base_ok_def server_ok_def)
  ultimately show ?thesis
    using b by (auto simp: base_ok_def)
qed

lemma handle_end_daemon:
  assumes "base_ok {} K s" and "queue_ok (job_requests s) (job_at s)" and "heap s p = Some c" and "cs_type c = DAEMON"
    and "K \<subseteq> submitted (job_at s) p"
  obtains s' where "handle_end p s = Some s'" and "consistent s'" and "without_cs p s s'" and "others_same p s s'" and "heap s' p = None"
proof -
  have lv: "live s DAEMON p"
    using assms(3,4) by (simp add: live_def)
  obtain s1 where s1: "end_daemon p s = Some s1" "base_ok {p} K s1" "without_cs p s s1"
      "new_job_id s1 = new_job_id s" "asserts s1 = asserts s" "controls s1 = controls s"
      "set (monitors s1) \<subseteq> set (monitors s)" "\<forall>q t. live s t q \<and> t \<noteq> MONITOR \<longrightarrow> live s1 t q"
    using end_daemon_base [OF assms(1,2) lv] .
  obtain c1 where c1: "heap s1 p = Some c1" "cs_type c1 = DAEMON"
    using s1(8) lv by (auto simp: live_def)
  let ?s = "s1\<lparr>fd2cs := (fd2cs s1)(cs_fd c1 := None), heap := (heap s1)(p := None)\<rparr>"
  have srt: "sorted_wrt (<) (map fst (jobs s))" "sorted_wrt (<) (map fst (jobs s1))"
    using assms(1) s1(2) by (simp_all add: base_ok_def)
  have M: "job_at s1 j = Some job \<longleftrightarrow> job_at s j = Some job \<and> \<not> involves p job" for j job
    using s1(3) by (auto simp: job_at_iff [OF srt(1)] job_at_iff [OF srt(2)] without_cs_def)
  have K: "job_at s1 j = None" if "j \<in> K" for j
  proof (rule ccontr)
    assume "job_at s1 j \<noteq> None"
    then obtain job where "job_at s1 j = Some job"
      by auto
    with that assms(5) M show False
      by (auto simp: submitted_def involves_def)
  qed
  have "base_ok {} {} ?s"
    using s1(3) M K by (intro delete_leaving [OF s1(2) c1]) (auto simp: without_cs_def)
  moreover have "queue_ok (job_requests ?s) (job_at ?s)"
    using queue_without [OF assms(2), of p "job_at s1"] s1(3) M by (simp add: without_cs_def)
  moreover have "without_cs p s ?s"
    using s1(3) by (auto simp: without_cs_def)
  moreover have "p \<notin> set (controls s)"
    using base_lists [OF assms(1)] assms(3,4) by (auto simp: lists_ok_def live_def)
  then have "others_same p s ?s"
    using s1(4-8) by (auto simp: others_same_def live_def)
  ultimately show ?thesis
    using s1(1) c1(1) assms(3,4) by (intro that [of ?s]) (simp_all add: handle_end_def delete_cs_def consistent_def)
qed

text \<open>Connections that are not daemons have no jobs.\<close>

definition dropped :: "cs_ptr \<Rightarrow> (int \<Rightarrow> cs_ptr option) \<Rightarrow> sched \<Rightarrow> sched" where
  "dropped p d s = s\<lparr>monitors := removeAll p (monitors s), controls := removeAll p (controls s), fd2cs := d,
     heap := (heap s)(p := None)\<rparr>"

definition jobs_same :: "sched \<Rightarrow> sched \<Rightarrow> bool" where
  "jobs_same s s' \<longleftrightarrow> css s' = css s \<and> jobs s' = jobs s \<and> job_requests s' = job_requests s"

lemma dropped_base:
  assumes "base_ok {} {} s" and "heap s p = Some c" and "cs_type c \<noteq> DAEMON"
  shows "base_ok {} {} (dropped p d s)"
proof -
  have "lists_ok (dropped p d s)"
    using base_lists [OF assms(1)] assms(2,3) by (auto simp: lists_ok_def live_def distinct_removeAll dropped_def)
  moreover have "job_at (dropped p d s) = job_at s"
    by (rule job_at_eq) (simp add: dropped_def)
  ultimately show ?thesis
    using assms(1) by (auto simp: base_ok_def dropped_def split: if_splits)
qed

lemma dropped_inv:
  assumes "consistent s" and "heap s p = Some c" and "cs_type c \<noteq> DAEMON" and "talk s x" and "monitors x = monitors s"
  shows "consistent (dropped p d x) \<and> jobs_same s (dropped p d x) \<and> others_same p s (dropped p d x) \<and> heap (dropped p d x) p = None"
proof -
  note core = talk_core [OF assms(4)]
  have b: "base_ok {} {} s"
    using assms(1) by (simp add: consistent_def)
  obtain ch where ch: "heap x p = Some (c\<lparr>cs_chan := ch\<rparr>)"
    using talk_heap [OF assms(4,2)] assms(5) by metis
  have "base_ok {} {} (dropped p d x)"
    using dropped_base [OF core_same_base [OF core b] ch] assms(3) by simp
  moreover have "job_at (dropped p d x) = job_at s"
    by (rule job_at_eq) (simp add: dropped_def core_same_fields [OF core])
  moreover have "live (dropped p d x) t q" if "q \<noteq> p" "live s t q" "t \<noteq> MONITOR" for q t
    using keep_live [OF core_keep [OF core base_lists [OF b]] that(2,3)] that(1) by (simp add: live_def dropped_def)
  ultimately show ?thesis
    using assms(1,5) by (auto simp: consistent_def jobs_same_def others_same_def dropped_def core_same_fields [OF core])
qed

lemma handle_end_peer:
  assumes "consistent s" and "heap s p = Some c" and "cs_type c \<noteq> DAEMON" and "\<not> asserts s"
  obtains s' where "handle_end p s = Some s'" and "consistent s'" and "jobs_same s s'" and "others_same p s s'" and "heap s' p = None"
proof -
  have l: "lists_ok s"
    using assms(1) base_lists by (auto simp: consistent_def)
  note drop = dropped_inv [OF assms(1-3)]
  have c: "removeAll p (controls s) = controls s" if "cs_type c \<noteq> LINE"
    using l assms(2) that by (intro removeAll_id) (auto simp: lists_ok_def live_def)
  have m: "removeAll p (monitors s) = monitors s" if "cs_type c \<noteq> MONITOR"
    using l assms(2) that by (intro removeAll_id) (auto simp: lists_ok_def live_def)
  consider "cs_type c = MONITOR" | "cs_type c = UNKNOWN" | "cs_type c = LINE"
    using assms(3) by (cases "cs_type c") auto
  then show thesis
  proof cases
    case 1
    then have "handle_end p s = Some (dropped p ((fd2cs s)(cs_fd c := None)) s)"
      using assms(2,4) c by (simp add: handle_end_def end_monitor_def delete_cs_def dropped_def)
    then show thesis
      using drop [OF talk_refl] that by blast
  next
    case 2
    then have "handle_end p s = Some (dropped p ((fd2cs s)(cs_fd c := None)) s)"
      using assms(2) c m by (simp add: handle_end_def delete_cs_def dropped_def)
    then show thesis
      using drop [OF talk_refl] that by blast
  next
    case 3
    obtain ok x where x: "send_to True p (TextMsg ''200 Good Bye!'') s = Some (ok, x)" "talk s x" "monitors x = monitors s"
      using send_to_talk [OF assms(2), of "TextMsg ''200 Good Bye!''"] by (auto simp: plain_def)
    obtain ch where ch: "heap x p = Some (c\<lparr>cs_chan := ch\<rparr>)"
      using talk_heap [OF x(2) assms(2)] x(3) by metis
    have "handle_end p s = Some (dropped p ((fd2cs x)(cs_fd c := None)) x)"
      using assms(2) x 3 m ch by (simp add: handle_end_def delete_cs_def dropped_def)
    then show thesis
      using drop [OF x(2,3)] that by blast
  qed
qed

lemma handle_end_inv:
  assumes "consistent s" and "heap s p = Some c" and "\<not> asserts s"
  obtains s' where "handle_end p s = Some s'" and "consistent s'" and "others_same p s s'" and "heap s' p = None"
    and "css s' = removeAll p (css s)"
proof (cases "cs_type c = DAEMON")
  case True
  obtain s' where "handle_end p s = Some s'" "consistent s'" "without_cs p s s'" "others_same p s s'" "heap s' p = None"
    using handle_end_daemon [of "{}" s p c] assms(1,2) True by (auto simp: consistent_def)
  then show thesis
    using that by (simp add: without_cs_def)
next
  case False
  obtain s' where "handle_end p s = Some s'" "consistent s'" "jobs_same s s'" "others_same p s s'" "heap s' p = None"
    using handle_end_peer [OF assms(1,2) False assms(3)] .
  moreover have "removeAll p (css s) = css s"
    using assms(1,2) False by (intro removeAll_id) (auto simp: consistent_def base_ok_def lists_ok_def live_def)
  ultimately show thesis
    using that by (simp add: jobs_same_def)
qed

section \<open>Properties\<close>

text \<open>Two daemons: one has submitted two jobs, of which the other compiles the first.\<close>

definition demo_sched :: sched where
  "demo_sched = (sched_init demo_libs ''1.4'' False 100)
     \<lparr>heap := [1 \<mapsto> (demo_server 4 0 1)\<lparr>cs_submittedJobsCount := 2\<rparr>, 2 \<mapsto> (demo_server 4 5 1)\<lparr>cs_jobList := [5]\<rparr>],
      css := [1, 2], new_job_id := 6,
      jobs := [(5, (Job_new 5 1)\<lparr>j_server := Some 2, j_state := COMPILING\<rparr>), (6, (Job_new 6 1)\<lparr>j_localClientId := 7\<rparr>)],
      job_requests := [\<lparr>g_l = [6], g_submitter = 1, g_niceness = 0\<rparr>]\<rparr>"

lemma demo_job_at:
  "job_at demo_sched j = (if j = 5 then Some ((Job_new 5 1)\<lparr>j_server := Some 2, j_state := COMPILING\<rparr>)
     else if j = 6 then Some ((Job_new 6 1)\<lparr>j_localClientId := 7\<rparr>) else None)"
  by (simp add: demo_sched_def job_at_def)

lemma demo_fields:
  "css demo_sched = [1, 2]" "monitors demo_sched = []" "controls demo_sched = []"
  "job_requests demo_sched = [\<lparr>g_l = [6], g_submitter = 1, g_niceness = 0\<rparr>]"
  "heap demo_sched p = (if p = 2 then Some ((demo_server 4 5 1)\<lparr>cs_jobList := [5]\<rparr>)
     else if p = 1 then Some ((demo_server 4 0 1)\<lparr>cs_submittedJobsCount := 2\<rparr>) else None)"
  by (simp_all add: demo_sched_def sched_init_def)

lemma demo_server_fields:
  "cs_type (demo_server n i k) = DAEMON" "cs_jobList (demo_server n i k) = []" "cs_submittedJobsCount (demo_server n i k) = 0"
  by (simp_all add: demo_server_def CompileServer_new_def)

lemma demo_sched_inv: "consistent demo_sched"
proof -
  have a: "assigned (job_at demo_sched) p = (if p = 2 then {5} else {})" for p
    by (auto simp: assigned_def demo_job_at Job_new_def split: if_splits)
  have b: "submitted (job_at demo_sched) p = (if p = 1 then {5, 6} else {})" for p
    by (auto simp: submitted_def demo_job_at Job_new_def split: if_splits)
  have "lists_ok demo_sched"
    by (simp add: lists_ok_def live_def demo_fields demo_server_fields)
  moreover have "job_ok (set (css demo_sched)) j job" if "job_at demo_sched j = Some job" for j job
    using that by (auto simp: demo_job_at job_ok_def demo_fields Job_new_def split: if_splits)
  moreover have "server_ok {} {} (job_at demo_sched) p c" if "heap demo_sched p = Some c" for p c
    using that unfolding server_ok_def a b demo_fields by (auto simp: demo_server_fields split: if_splits)
  moreover have "sorted_wrt (<) (map fst (jobs demo_sched))"
    by (simp add: demo_sched_def)
  moreover have "queue_ok (job_requests demo_sched) (job_at demo_sched)"
    unfolding demo_fields by (simp add: queue_ok_def q_ok_def entry_ok_def demo_job_at Job_new_def)
  ultimately show ?thesis
    by (simp add: consistent_def base_ok_def)
qed

end
