(* ===== verification/SchedSteps.thy ===== *)
theory SchedSteps
  imports SchedEnd
begin

text \<open>
  The message handlers keep the invariant of the scheduler's state and use no deleted object, one
  group of lemmas for each handler.
\<close>

section \<open>Handlers that do not touch jobs\<close>

lemma inv_base: "consistent s \<Longrightarrow> base_ok {} {} s"
  and inv_lists: "consistent s \<Longrightarrow> lists_ok s"
  and inv_queue: "consistent s \<Longrightarrow> queue_ok (job_requests s) (job_at s)"
  by (simp_all add: consistent_def base_ok_def)

lemma inv_css: "consistent s \<Longrightarrow> p \<in> set (css s) \<Longrightarrow> \<exists>c. heap s p = Some c \<and> cs_type c = DAEMON"
  by (auto simp: consistent_def base_ok_def lists_ok_def live_def)

lemma core_heap:
  assumes "core_same s s'" and "consistent s" and "heap s p = Some c" and "cs_type c \<noteq> MONITOR"
  obtains c' where "heap s' p = Some c'" and "cs_type c' = cs_type c"
proof -
  have "p \<notin> set (monitors s)"
    using not_monitor [OF inv_lists [OF assms(2)], of "cs_type c" p] assms(3,4) by (auto simp: live_def)
  then obtain c' where c': "heap s' p = Some c'"
    using core_same_forw [OF assms(1,3)] by blast
  obtain d where "heap s p = Some d" "cs_type c' = cs_type d"
    using core_same_back [OF assms(1) c'] by metis
  with c' assms(3) show ?thesis
    by (intro that [of c']) simp_all
qed

text \<open>Values that no part of the invariant mentions.\<close>

lemma inv_misc [simp]:
  "consistent (s\<lparr>randoms := r\<rparr>) = consistent s" "consistent (s\<lparr>clock := t\<rparr>) = consistent s" "consistent (s\<lparr>block_css := b\<rparr>) = consistent s"
  "consistent (s\<lparr>new_job_id := i\<rparr>) = consistent s" "consistent (s\<lparr>all_job_stats := l, cum_job_stats := c\<rparr>) = consistent s"
  "consistent (s\<lparr>hostIdCounter := h\<rparr>) = consistent s" "consistent (s\<lparr>connects := k\<rparr>) = consistent s" "consistent (s\<lparr>fd2cs := d\<rparr>) = consistent s"
  by (simp_all add: consistent_def base_ok_def lists_ok_def live_def job_at_def [abs_def])

lemma neutrals [simp]:
  "neutral (\<lambda>c. c\<lparr>cs_clientCount := n\<rparr>)" "neutral (insertClientLocalJobId i j b)" "neutral (eraseClientLocalJobId i)"
  "neutral (alive t)" "neutral (\<lambda>c. c\<lparr>cs_load := l, cs_clientCount := n\<rparr>)" "neutral (blacklistCompileServer x e)"
  "neutral (\<lambda>c. c\<lparr>cs_compilerVersions := v, cs_busyInstalling := t\<rparr>)" "neutral (push_compiled st)" "neutral (push_requested st)"
  "neutral (\<lambda>c. c\<lparr>cs_last_talk := t\<rparr>)" "neutral (\<lambda>c. c\<lparr>cs_maxJobs := cs_maxJobs c * k\<rparr>)" "neutral (\<lambda>c. c\<lparr>cs_state := z\<rparr>)"
  by (simp_all add: neutral_def insertClientLocalJobId_def eraseClientLocalJobId_def alive_def blacklistCompileServer_def
      push_compiled_def push_requested_def case_prod_unfold)

lemma upd_inv:
  assumes "consistent s" and "heap s p = Some c" and "neutral f"
  obtains s' where "upd p f s = Some s'" and "consistent s'" and "core_same s s'" and "heap s' p = Some (f c)"
proof -
  obtain s' where "upd p f s = Some s'" "core_same s s'" "s' = s\<lparr>heap := (heap s)(p \<mapsto> f c)\<rparr>"
    using upd_core [OF assms(2,3)] .
  then show ?thesis
    using core_same_inv [OF _ assms(1)] by (intro that [of s']) simp_all
qed

lemma notify_inv:
  assumes "consistent s" and "plain m"
  obtains s' where "notify_monitors m s = Some s'" and "consistent s'" and "core_same s s'"
proof -
  obtain s' where "notify_monitors m s = Some s'" "talk s s'"
    using notify_talk [OF inv_lists [OF assms(1)] assms(2)] .
  then show ?thesis
    using that talk_core core_same_inv [OF _ assms(1)] by blast
qed

lemma send_inv:
  assumes "consistent s" and "heap s p = Some c" and "plain m"
  obtains ok s' where "send_to b p m s = Some (ok, s')" and "consistent s'" and "core_same s s'"
proof -
  obtain ok s' where "send_to b p m s = Some (ok, s')" "talk s s'"
    using send_to_talk [OF assms(2,3)] by metis
  then show ?thesis
    using that talk_core core_same_inv [OF _ assms(1)] by blast
qed

lemma handle_ping_inv:
  assumes "consistent s" and "p \<in> set (css s)"
  shows "\<exists>s'. handle_ping p s = Some (True, s') \<and> consistent s' \<and> core_same s s'"
proof -
  obtain c where "heap s p = Some c"
    using inv_css [OF assms] by blast
  then obtain s' where "upd p (alive (clock s)) s = Some s'" "consistent s'" "core_same s s'"
    using upd_inv [OF assms(1) _ neutrals(4)] by metis
  then show ?thesis
    by (simp add: handle_ping_def)
qed

lemma handle_monitor_stats_inv:
  assumes "consistent s" and "heap s p = Some c"
  obtains s' where "handle_monitor_stats p m s = Some s'" and "consistent s'" and "core_same s s'"
proof (cases "monitors s = []")
  case True
  then show ?thesis
    using that [of s] assms(1) core_same_refl by (simp add: handle_monitor_stats_def)
next
  case False
  show ?thesis
    by (rule notify_inv [OF assms(1) plain_simps(2)], rule that) (use False assms(2) in \<open>simp_all add: handle_monitor_stats_def\<close>)
qed

lemma handle_stats_inv:
  assumes "consistent s" and "p \<in> set (css s)"
  shows "\<exists>s'. handle_stats p m s = Some (True, s') \<and> consistent s' \<and> core_same s s'"
proof -
  obtain c where c: "heap s p = Some c"
    using inv_css [OF assms] by blast
  obtain s1 c1 where s1: "(if cs_protocol c < 25 then upd p (alive (clock s)) s else Some s) = Some s1" "consistent s1" "core_same s s1" "heap s1 p = Some c1"
  proof (cases "cs_protocol c < 25")
    case True
    show thesis
      by (rule upd_inv [OF assms(1) c neutrals(4)], rule that) (use True in auto)
  qed (use that [of s] assms(1) c core_same_refl in auto)
  obtain s2 where s2: "upd p (\<lambda>c. c\<lparr>cs_load := st_load m, cs_clientCount := sint (st_client_count m)\<rparr>) s1 = Some s2" "consistent s2" "core_same s1 s2"
      "heap s2 p = Some (c1\<lparr>cs_load := st_load m, cs_clientCount := sint (st_client_count m)\<rparr>)"
    using upd_inv [OF s1(2,4) neutrals(5)] .
  obtain s3 where s3: "handle_monitor_stats p (Some m) s2 = Some s3" "consistent s3" "core_same s2 s3"
    using handle_monitor_stats_inv [OF s2(2,4)] .
  have "handle_stats p m s = Some (True, s3)"
    using c s1 s2(1) s3(1) assms(2) by (simp add: handle_stats_def core_same_fields [OF s1(3)])
  then show ?thesis
    using s3(2) core_same_trans [OF core_same_trans [OF s1(3) s2(3)] s3(3)] by blast
qed

lemma handle_local_job_inv:
  assumes "consistent s" and "p \<in> set (css s)"
  shows "\<exists>s'. handle_local_job p m s = Some (True, s') \<and> consistent s'"
proof -
  let ?i = "new_job_id s + 1" and ?s = "s\<lparr>new_job_id := new_job_id s + 1\<rparr>"
  obtain c where c: "heap ?s p = Some c"
    using inv_css [OF assms] by auto
  have i: "consistent ?s"
    using assms(1) by simp
  obtain s1 where s1: "upd p (insertClientLocalJobId (sint (jlb_id m)) (sint ?i) (jlb_fulljob m)) ?s = Some s1" "consistent s1"
      "heap s1 p = Some (insertClientLocalJobId (sint (jlb_id m)) (sint ?i) (jlb_fulljob m) c)"
    using upd_inv [OF i c neutrals(2)] by metis
  obtain s2 where "notify_monitors (MonLocalJobBeginMsg
        \<lparr>mlj_job_id = ?i, mlj_stime = jlb_stime m, mlj_hostid = cs_hostId (insertClientLocalJobId (sint (jlb_id m)) (sint ?i) (jlb_fulljob m) c),
         mlj_file = jlb_outfile m\<rparr>) s1 = Some s2" "consistent s2"
    using notify_inv [OF s1(2) plain_simps(6)] by metis
  then show ?thesis
    using s1(1,3) by (simp add: handle_local_job_def Let_def)
qed

lemma handle_local_job_done_inv:
  assumes "consistent s" and "p \<in> set (css s)"
  shows "\<exists>s'. handle_local_job_done p i s = Some (True, s') \<and> consistent s'"
proof -
  obtain c where c: "heap s p = Some c" "cs_type c = DAEMON"
    using inv_css [OF assms] by blast
  obtain s1 where s1: "notify_monitors (JobLocalDoneMsg (of_int (getClientLocalJobId (sint i) c))) s = Some s1" "consistent s1" "core_same s s1"
    using notify_inv [OF assms(1) plain_simps(7)] .
  obtain c1 where c1: "heap s1 p = Some c1"
    using core_heap [OF s1(3) assms(1) c(1)] c(2) by auto
  obtain s2 where "upd p (eraseClientLocalJobId (sint i)) s1 = Some s2" "consistent s2"
    using upd_inv [OF s1(2) c1 neutrals(3)] by metis
  then show ?thesis
    using c(1) s1(1) by (simp add: handle_local_job_done_def)
qed

lemma send_conf_inv:
  assumes "consistent s" and "heap s p = Some c"
  obtains s' where "send_conf p s = Some s'" and "consistent s'" and "core_same s s'"
proof (cases "cs_protocol c \<ge> 24")
  case True
  obtain ok s' where "send_to True p (conf_msg (slow_net s)) s = Some (ok, s')" "consistent s'" "core_same s s'"
    using send_inv [OF assms, of "conf_msg (slow_net s)" True] by (auto simp: conf_msg_def)
  then show ?thesis
    using that True assms(2) by (simp add: send_conf_def)
qed (use that [of s] assms core_same_refl in \<open>simp add: send_conf_def\<close>)

lemma handle_relogin_inv:
  assumes "consistent s" and "p \<in> set (css s)"
  shows "\<exists>s'. handle_relogin p m s = Some (False, s') \<and> consistent s'"
proof -
  obtain c where c: "heap s p = Some c"
    using inv_css [OF assms] by blast
  obtain s1 where s1: "upd p (\<lambda>c. c\<lparr>cs_compilerVersions := lg_envs m, cs_busyInstalling := 0\<rparr>) s = Some s1" "consistent s1"
      "heap s1 p = Some (c\<lparr>cs_compilerVersions := lg_envs m, cs_busyInstalling := 0\<rparr>)"
    using upd_inv [OF assms(1) c neutrals(7)] by metis
  obtain s2 where "send_conf p s1 = Some s2" "consistent s2"
    using send_conf_inv [OF s1(2,3)] by metis
  then show ?thesis
    using s1(1) by (simp add: handle_relogin_def)
qed

lemma blacklist_loop_inv:
  assumes "consistent s" and "p \<in> set (css s)" and "set xs \<subseteq> set (css s)"
  shows "\<exists>s'. blacklist_loop p m xs s = Some s' \<and> consistent s'"
  using assms
proof (induction xs arbitrary: s)
  case (Cons x xs)
  obtain c d where c: "heap s x = Some c" and d: "heap s p = Some d"
    using inv_css [OF Cons.prems(1)] Cons.prems(2,3) by (metis list.set_intros(1) subsetD)
  obtain s1 where s1: "(if cs_name c = bl_hostname m then upd p (blacklistCompileServer x (bl_target m, bl_environment m)) s else Some s) = Some s1"
      "consistent s1" "core_same s s1"
  proof (cases "cs_name c = bl_hostname m")
    case True
    show thesis
      by (rule upd_inv [OF Cons.prems(1) d neutrals(6)], rule that) (use True in auto)
  qed (use that [of s] Cons.prems(1) core_same_refl in auto)
  then show ?case
    using Cons.IH [OF s1(2)] Cons.prems(2,3) c by (simp add: core_same_fields [OF s1(3)])
qed simp

lemma handle_blacklist_inv:
  assumes "consistent s" and "p \<in> set (css s)"
  shows "\<exists>s'. handle_blacklist_host_env p m s = Some (True, s') \<and> consistent s'"
  using blacklist_loop_inv [OF assms, of "css s" m] by (auto simp: handle_blacklist_host_env_def)

section \<open>Requests\<close>

text \<open>A new job of a connected daemon.\<close>

lemma new_job_base:
  assumes "base_ok {} {} s" and "p \<in> set (css s)" and "job_at s i = None"
    and "j_id x = i" and "j_submitter x = p" and "j_server x = None" and "j_state x = PENDING"
    and "heap s p = Some c" and "s' = s\<lparr>jobs := jobs s', new_job_id := n, heap := (heap s)(p \<mapsto> submittedJobsIncrement c)\<rparr>"
    and "job_at s' = (job_at s)(i \<mapsto> x)" and "sorted_wrt (<) (map fst (jobs s'))"
  shows "base_ok {} {} s'"
proof -
  have f: "css s' = css s" "monitors s' = monitors s" "controls s' = controls s" "heap s' = (heap s)(p \<mapsto> submittedJobsIncrement c)"
    by (subst assms(9), simp)+
  have "lists_ok s'"
    using lists_ok_upd [OF base_lists [OF assms(1)] assms(8), of "submittedJobsIncrement c"]
    by (simp add: lists_ok_def live_def f submittedJobsIncrement_def)
  moreover have "job_ok (set (css s)) j job" if "job_at s' j = Some job" for j job
    using that assms(1-7) by (auto simp: assms(10) base_ok_def job_ok_def split: if_splits)
  moreover have "server_ok {} {} (job_at s') q d" if "heap s' q = Some d" for q d
  proof -
    have "assigned (job_at s') q = assigned (job_at s) q"
      using assms(3,6) by (auto simp: assigned_def assms(10))
    moreover have "submitted (job_at s') q = (if q = p then insert i (submitted (job_at s) q) else submitted (job_at s) q)"
      using assms(3,5) by (auto simp: submitted_def assms(10))
    moreover have "i \<notin> submitted (job_at s) q"
      using assms(3) by (simp add: submitted_def)
    ultimately show ?thesis
      using that assms(1,8) finite_submitted [of s q]
      by (auto simp: base_ok_def server_ok_def f submittedJobsIncrement_def split: if_splits)
  qed
  ultimately show ?thesis
    using assms(11) by (simp add: base_ok_def f)
qed

subsection \<open>The queue\<close>

lemma enqueue_set: "set (concat (map g_l (enqueue_job_request p n i q))) = insert i (set (concat (map g_l q)))"
  by (induction q) auto

lemma enqueue_distinct:
  assumes "distinct (concat (map g_l q))" and "i \<notin> set (concat (map g_l q))"
  shows "distinct (concat (map g_l (enqueue_job_request p n i q)))"
  using assms
proof (induction q)
  case (Cons g q)
  then show ?case
    using enqueue_set [of p n i q] by auto
qed simp

lemma enqueue_groups:
  assumes "q_ok q" and "h \<in> set (enqueue_job_request p n i q)"
  shows "h \<in> set q \<or> (\<exists>g\<in>set q. g_key g = (p, n) \<and> h = g\<lparr>g_l := g_l g @ [i]\<rparr>) \<or> h = \<lparr>g_l = [i], g_submitter = p, g_niceness = n\<rparr>"
  using assms by (induction q) (auto simp: q_ok_Cons g_key_def split: if_splits)

lemma enqueue_group:
  assumes "q_ok q" and "g \<in> set q" and "g_key g = (p, n)"
  shows "g\<lparr>g_l := g_l g @ [i]\<rparr> \<in> set (enqueue_job_request p n i q)"
  using assms
proof (induction q)
  case (Cons h q)
  have "g \<noteq> h \<Longrightarrow> g_niceness h \<le> n \<and> g_key h \<noteq> (p, n)"
    using Cons.prems by (auto simp: q_ok_Cons g_key_def)
  with Cons show ?case
    by (cases "g = h") (auto simp: q_ok_Cons g_key_def)
qed simp

lemma slaves_ok_new:
  assumes "slaves_ok M l" and "i \<notin> set l"
  shows "slaves_ok (M(i \<mapsto> x)) l"
  by (rule slaves_ok_cong [OF _ assms(1)]) (use assms(2) in auto)

lemma slaves_ok_snoc:
  assumes "slaves_ok M l" and "M i = None \<or> j_masterJobFor (the (M i)) = []"
  shows "slaves_ok M (l @ [i])"
  using assms by (induction l) auto

lemma queue_enqueue:
  assumes "queue_ok q M" and "M i = None" and "j_submitter x = p" and "j_niceness x = n" and "j_server x = None" and "j_masterJobFor x = []"
  shows "queue_ok (enqueue_job_request p n i q) (M(i \<mapsto> x))"
proof -
  have q: "q_ok q"
    using assms(1) by (simp add: queue_ok_def)
  have i: "i \<notin> set (g_l g)" if "g \<in> set q" for g
    using that assms(1,2) by (fastforce simp: queue_ok_def entry_ok_def)
  have old: "(\<forall>j\<in>set (g_l g). entry_ok (M(i \<mapsto> x)) g j) \<and> slaves_ok (M(i \<mapsto> x)) (g_l g)" if "g \<in> set q" for g
  proof -
    have "slaves_ok M (g_l g)" "\<forall>j\<in>set (g_l g). entry_ok M g j"
      using that assms(1) by (simp_all add: queue_ok_def)
    moreover have "entry_ok (M(i \<mapsto> x)) g j = entry_ok M g j" if "j \<in> set (g_l g)" for j
      using that i [OF \<open>g \<in> set q\<close>] by (auto simp: entry_ok_def)
    ultimately show ?thesis
      using slaves_ok_new [OF _ i [OF that]] by simp
  qed
  have "(\<forall>j\<in>set (g_l h). entry_ok (M(i \<mapsto> x)) h j) \<and> slaves_ok (M(i \<mapsto> x)) (g_l h)"
    if "h \<in> set (enqueue_job_request p n i q)" for h
    using enqueue_groups [OF q that]
  proof (elim disjE bexE conjE)
    fix g
    assume g: "g \<in> set q" "g_key g = (p, n)" "h = g\<lparr>g_l := g_l g @ [i]\<rparr>"
    have "slaves_ok (M(i \<mapsto> x)) (g_l g @ [i])"
      using old [OF g(1)] assms(6) by (intro slaves_ok_snoc) simp_all
    moreover have "entry_ok (M(i \<mapsto> x)) h j = entry_ok (M(i \<mapsto> x)) g j" for j
      by (simp add: g(3) entry_ok_def cong: option.case_cong)
    moreover have "entry_ok (M(i \<mapsto> x)) g i"
      using g(2) assms(3-5) by (simp add: entry_ok_def g_key_def)
    ultimately show ?thesis
      using old [OF g(1)] g(3) by simp
  next
    assume h: "h = \<lparr>g_l = [i], g_submitter = p, g_niceness = n\<rparr>"
    then show ?thesis
      using assms(3-6) by (simp add: entry_ok_def)
  qed (use old in blast)
  moreover have "i \<notin> set (concat (map g_l q))"
    using i by auto
  ultimately show ?thesis
    using enqueue_job_request_ok [OF q] assms(1) enqueue_distinct [of q i p n] by (simp add: queue_ok_def)
qed

lemma slaves_ok_master:
  assumes "slaves_ok M (a @ mj # b)" and "distinct (a @ mj # b)" and "M mj = Some y" and "j \<in> set b" and "M j = Some x"
    and "j_localClientId x = j_localClientId y"
  shows "slaves_ok (M(mj \<mapsto> y\<lparr>j_masterJobFor := j_masterJobFor y @ [j]\<rparr>)) (a @ mj # b)" (is "slaves_ok ?M _")
  using assms(1,2)
proof (induction a)
  case Nil
  have "slaves_ok ?M b"
    by (rule slaves_ok_new) (use Nil in auto)
  moreover have "k \<in> set b \<and> (\<exists>z. ?M k = Some z \<and> j_localClientId z = j_localClientId y)" if "k \<in> set (j_masterJobFor y @ [j])" for k
    using that Nil assms(3-6) by auto
  ultimately show ?case
    by (simp del: fun_upd_apply add: fun_upd_same)
next
  case (Cons i a)
  have i: "?M i = M i"
    using Cons.prems(2) by auto
  have "\<exists>z. ?M k = Some z \<and> j_localClientId z = w" if "\<exists>z. M k = Some z \<and> j_localClientId z = w" for k w
    using that assms(3) by (cases "k = mj") auto
  with Cons.prems(1) have "\<forall>job. M i = Some job \<longrightarrow> (\<forall>k\<in>set (j_masterJobFor job). k \<in> set (a @ mj # b) \<and>
      (\<exists>z. ?M k = Some z \<and> j_localClientId z = j_localClientId job))"
    by (simp del: fun_upd_apply)
  moreover have "slaves_ok ?M (a @ mj # b)"
    using Cons by (simp del: fun_upd_apply)
  ultimately show ?case
    unfolding append_Cons slaves_ok.simps i by blast
qed

lemma queue_master:
  assumes "queue_ok q M" and "g \<in> set q" and "g_l g = l @ [j]" and "mj \<in> set l" and "M mj = Some y" and "M j = Some x"
    and "j_localClientId x = j_localClientId y"
  shows "queue_ok q (M(mj \<mapsto> y\<lparr>j_masterJobFor := j_masterJobFor y @ [j]\<rparr>))"
proof -
  let ?M = "M(mj \<mapsto> y\<lparr>j_masterJobFor := j_masterJobFor y @ [j]\<rparr>)"
  have d: "distinct (concat (map g_l q))"
    using assms(1) by (simp add: queue_ok_def)
  have "slaves_ok ?M (g_l h)" if h: "h \<in> set q" for h
  proof (cases "mj \<in> set (g_l h)")
    case True
    have "g = h"
    proof (rule ccontr)
      assume "g \<noteq> h"
      then have "set (g_l g) \<inter> set (g_l h) = {}"
        using d assms(2) h by (induction q) auto
      with True assms(3,4) show False
        by auto
    qed
    obtain a b where l: "l = a @ mj # b"
      using assms(4) by (meson split_list)
    have "distinct (g_l g)"
      using d assms(2) by (induction q) auto
    moreover have "slaves_ok M (g_l g)"
      using assms(1,2) by (simp add: queue_ok_def)
    ultimately show ?thesis
      using slaves_ok_master [of M a mj "b @ [j]" y j x] l assms(3,5-7) \<open>g = h\<close> by simp
  next
    case False
    then show ?thesis
      using assms(1) h slaves_ok_new [of M "g_l h" mj] by (simp add: queue_ok_def del: fun_upd_apply)
  qed
  moreover have "entry_ok ?M h k" if "h \<in> set q" "k \<in> set (g_l h)" for h k
    using assms(1,5) that by (auto simp: queue_ok_def entry_ok_def split: option.splits)
  ultimately show ?thesis
    using assms(1) by (simp add: queue_ok_def del: fun_upd_apply)
qed

subsection \<open>The handler\<close>

text \<open>One round of the loop, up to the list of the master job.\<close>

definition add_request :: "cs_ptr \<Rightarrow> get_cs_msg \<Rightarrow> sched \<Rightarrow> (job_ptr \<times> sched) option" where
  "add_request p m s = do {
     (j, s1) \<leftarrow> create_new_job p s;
     s2 \<leftarrow> upd_job j (fill_job m) s1;
     let s3 = s2\<lparr>job_requests := enqueue_job_request p (clamp_niceness (gcs_niceness m)) j (job_requests s2)\<rparr>;
     c \<leftarrow> heap s3 p;
     mon \<leftarrow> MonGetCSMsg_make (asserts s3) j (cs_hostId c) m;
     s4 \<leftarrow> notify_monitors (MonGetCSMsg mon) s3;
     Some (j, s4)
   }"

lemma cs_request_loop_Suc:
  "cs_request_loop p m (Suc n) master s = do {
     (j, s4) \<leftarrow> add_request p m s;
     s5 \<leftarrow> (case master of None \<Rightarrow> Some s4
              | Some mj \<Rightarrow> upd_job mj (\<lambda>job. job\<lparr>j_masterJobFor := j_masterJobFor job @ [j]\<rparr>) s4);
     cs_request_loop p m n (case master of None \<Rightarrow> Some j | Some mj \<Rightarrow> Some mj) s5
   }"
  by (cases master) (simp_all add: add_request_def Let_def case_prod_unfold)

lemma fill_job_fields:
  "j_id (fill_job m x) = j_id x" "j_submitter (fill_job m x) = j_submitter x" "j_server (fill_job m x) = j_server x"
  "j_state (fill_job m x) = j_state x" "j_masterJobFor (fill_job m x) = j_masterJobFor x"
  "j_niceness (fill_job m x) = clamp_niceness (gcs_niceness m)" "j_localClientId (fill_job m x) = gcs_client_id m"
  by (simp_all add: fill_job_def)

lemma Job_new_fields:
  "j_id (Job_new i p) = i" "j_submitter (Job_new i p) = p" "j_server (Job_new i p) = None"
  "j_state (Job_new i p) = PENDING" "j_masterJobFor (Job_new i p) = []"
  by (simp_all add: Job_new_def)

lemma MonGetCSMsg_make_total: "\<exists>x. MonGetCSMsg_make False j h m = Some x"
  by (simp add: MonGetCSMsg_make_def GetCSMsg_make_def)

lemma add_request_inv:
  assumes "consistent s" and "p \<in> set (css s)" and "\<not> asserts s" and "job_at s (new_job_id s + 1) = None"
  obtains s' where "add_request p m s = Some (new_job_id s + 1, s')" and "consistent s'"
    and "css s' = css s" and "asserts s' = asserts s" and "new_job_id s' = new_job_id s + 1"
    and "job_at s' = (job_at s)(new_job_id s + 1 \<mapsto> fill_job m (Job_new (new_job_id s + 1) p))"
    and "job_requests s' = enqueue_job_request p (clamp_niceness (gcs_niceness m)) (new_job_id s + 1) (job_requests s)"
proof -
  let ?i = "new_job_id s + 1"
  let ?x = "fill_job m (Job_new ?i p)"
  obtain c where c: "heap s p = Some c"
    using inv_css [OF assms(1,2)] by blast
  define s1 where "s1 = s\<lparr>new_job_id := ?i, jobs := jobs_insert ?i (Job_new ?i p) (jobs s), heap := (heap s)(p \<mapsto> submittedJobsIncrement c)\<rparr>"
  have srt: "sorted_wrt (<) (map fst (jobs s))"
    using assms(1) by (simp add: consistent_def base_ok_def)
  have c1: "create_new_job p s = Some (?i, s1)"
    using assms(3) c by (simp add: create_new_job_def upd_def s1_def Let_def)
  have m1: "job_at s1 = (job_at s)(?i \<mapsto> Job_new ?i p)"
    using jobs_insert_props(1) [OF srt] by (simp add: s1_def job_at_def fun_eq_iff)
  have "job_at s1 ?i = Some (Job_new ?i p)"
    by (simp add: m1)
  then obtain s2 where s2: "upd_job ?i (fill_job m) s1 = Some s2" "job_at s2 = (job_at s1)(?i \<mapsto> ?x)"
      "s2 = s1\<lparr>jobs := jobs s2\<rparr>" "map fst (jobs s2) = map fst (jobs s1)"
    by (rule upd_job_at)
  have m2: "job_at s2 = (job_at s)(?i \<mapsto> ?x)"
    using s2(2) m1 by simp
  have e2: "s2 = s\<lparr>jobs := jobs s2, new_job_id := ?i, heap := (heap s)(p \<mapsto> submittedJobsIncrement c)\<rparr>"
    by (subst s2(3)) (simp add: s1_def)
  have srt2: "sorted_wrt (<) (map fst (jobs s2))"
    unfolding s2(4) using jobs_insert_props(2) [OF srt] by (simp add: s1_def)
  have b2: "base_ok {} {} s2"
    by (rule new_job_base [OF inv_base [OF assms(1)] assms(2,4) _ _ _ _ c e2 m2 srt2]) (simp_all add: fill_job_fields Job_new_fields)
  have f2: "css s2 = css s" "asserts s2 = asserts s" "new_job_id s2 = ?i" "job_requests s2 = job_requests s" "heap s2 = (heap s)(p \<mapsto> submittedJobsIncrement c)"
    by (subst e2, simp)+
  let ?s3 = "s2\<lparr>job_requests := enqueue_job_request p (clamp_niceness (gcs_niceness m)) ?i (job_requests s2)\<rparr>"
  have "queue_ok (job_requests ?s3) (job_at ?s3)"
    using queue_enqueue [OF inv_queue [OF assms(1)] assms(4), of ?x p "clamp_niceness (gcs_niceness m)"]
    by (simp add: f2 m2 fill_job_fields Job_new_fields)
  then have i3: "consistent ?s3"
    using b2 by (simp add: consistent_def base_queue)
  obtain mon where mon: "MonGetCSMsg_make False ?i (cs_hostId (submittedJobsIncrement c)) m = Some mon"
    using MonGetCSMsg_make_total by blast
  obtain s4 where s4: "notify_monitors (MonGetCSMsg mon) ?s3 = Some s4" "consistent s4" "core_same ?s3 s4"
    using notify_inv [OF i3 plain_simps(3)] .
  have "add_request p m s = Some (?i, s4)"
    using c1 s2(1) s4(1) mon assms(3) by (simp add: add_request_def Let_def f2)
  then show ?thesis
    using s4(2) by (intro that [of s4]) (simp_all add: core_same_fields [OF s4(3)] f2 m2)
qed

definition fresh_ids :: "nat \<Rightarrow> sched \<Rightarrow> bool" where
  "fresh_ids n s \<longleftrightarrow> (\<forall>k\<in>{1..n}. job_at s (new_job_id s + of_nat k) = None)"

lemma fresh_ids_next:
  assumes "fresh_ids (Suc n) s" and "Suc n < 2 ^ 32" and "new_job_id s' = new_job_id s + 1"
    and "\<And>k. k \<noteq> new_job_id s + 1 \<Longrightarrow> job_at s k = None \<Longrightarrow> job_at s' k = None"
  shows "fresh_ids n s'"
  unfolding fresh_ids_def
proof
  fix k
  assume k: "k \<in> {1..n}"
  have "(of_nat k :: u32) \<noteq> 0"
  proof
    assume "(of_nat k :: u32) = 0"
    then have "k mod 2 ^ 32 = 0"
      using unat_of_nat [of k, where 'a = 32] by simp
    with k assms(2) show False
      by simp
  qed
  then have "new_job_id s + of_nat (Suc k) \<noteq> new_job_id s + 1"
    by (simp add: add.assoc)
  moreover have "job_at s (new_job_id s + of_nat (Suc k)) = None"
    using assms(1) k unfolding fresh_ids_def by (auto simp del: of_nat_Suc)
  ultimately have "job_at s' (new_job_id s + of_nat (Suc k)) = None"
    using assms(4) by blast
  then show "job_at s' (new_job_id s' + of_nat k) = None"
    by (simp add: assms(3) add.assoc)
qed

text \<open>The first job of the request is still queued and takes the others as its slaves.\<close>

definition master_ok :: "cs_ptr \<Rightarrow> get_cs_msg \<Rightarrow> job_ptr option \<Rightarrow> sched \<Rightarrow> bool" where
  "master_ok p m master s \<longleftrightarrow> (case master of None \<Rightarrow> True
     | Some mj \<Rightarrow> (\<exists>g\<in>set (job_requests s). g_key g = (p, clamp_niceness (gcs_niceness m)) \<and> mj \<in> set (g_l g)) \<and>
         (\<exists>y. job_at s mj = Some y \<and> j_localClientId y = gcs_client_id m))"

lemma upd_job_base:
  assumes "base_ok E K s" and "job_at s j = Some x" and "upd_job j f s = Some s'" and "s' = s\<lparr>jobs := jobs s'\<rparr>"
    and "job_at s' = (job_at s)(j \<mapsto> f x)" and "map fst (jobs s') = map fst (jobs s)"
    and "j_id (f x) = j_id x" and "j_submitter (f x) = j_submitter x" and "j_server (f x) = j_server x"
    and "(j_state (f x) = PENDING) = (j_state x = PENDING)"
  shows "base_ok E K s'"
proof -
  have f: "css s' = css s" "monitors s' = monitors s" "controls s' = controls s" "heap s' = heap s"
    by (subst assms(4), simp)+
  have "assigned (job_at s') p = assigned (job_at s) p" "submitted (job_at s') p = submitted (job_at s) p" for p
    using assms(2,8,9) by (auto simp: assms(5) assigned_def submitted_def)
  moreover have "job_ok D j x \<Longrightarrow> job_ok D j (f x)" for D
    using assms(7-10) by (auto simp: job_ok_def split: option.splits)
  then have "job_ok D i job" if "job_at s' i = Some job" "\<forall>i job. job_at s i = Some job \<longrightarrow> job_ok D i job" for D i job
    using that assms(2) by (auto simp: assms(5) split: if_splits)
  ultimately show ?thesis
    using assms(1) by (auto simp: base_ok_def lists_ok_def live_def f assms(6) server_ok_def)
qed

lemma add_slave_inv:
  assumes "consistent s" and "g \<in> set (job_requests s)" and "g_l g = l @ [j]" and "mj \<in> set l"
    and "job_at s mj = Some y" and "job_at s j = Some x" and "j_localClientId x = j_localClientId y"
  obtains s' where "upd_job mj (\<lambda>job. job\<lparr>j_masterJobFor := j_masterJobFor job @ [j]\<rparr>) s = Some s'" and "consistent s'"
    and "s' = s\<lparr>jobs := jobs s'\<rparr>" and "job_at s' = (job_at s)(mj \<mapsto> y\<lparr>j_masterJobFor := j_masterJobFor y @ [j]\<rparr>)"
proof -
  obtain s' where s': "upd_job mj (\<lambda>job. job\<lparr>j_masterJobFor := j_masterJobFor job @ [j]\<rparr>) s = Some s'"
      "job_at s' = (job_at s)(mj \<mapsto> y\<lparr>j_masterJobFor := j_masterJobFor y @ [j]\<rparr>)"
      "s' = s\<lparr>jobs := jobs s'\<rparr>" "map fst (jobs s') = map fst (jobs s)"
    using upd_job_at [OF assms(5)] .
  have "base_ok {} {} s'"
    by (rule upd_job_base [OF inv_base [OF assms(1)] assms(5) s'(1,3,2,4)]) simp_all
  moreover have "job_requests s' = job_requests s"
    by (subst s'(3)) simp
  ultimately have "consistent s'"
    using queue_master [OF inv_queue [OF assms(1)] assms(2-7)] by (simp add: consistent_def s'(2))
  then show ?thesis
    using that s'(1-3) by blast
qed

lemma cs_request_loop_inv:
  assumes "consistent s" and "p \<in> set (css s)" and "\<not> asserts s" and "fresh_ids n s" and "n < 2 ^ 32" and "master_ok p m master s"
  shows "\<exists>s'. cs_request_loop p m n master s = Some s' \<and> consistent s' \<and> css s' = css s \<and>
    pend (job_requests s') = (pend (job_requests s))((p, clamp_niceness (gcs_niceness m)) :=
      pend (job_requests s) (p, clamp_niceness (gcs_niceness m)) @ map (\<lambda>k. new_job_id s + of_nat k) [1..<Suc n])"
  using assms
proof (induction n arbitrary: s master)
  case (Suc n)
  let ?n = "clamp_niceness (gcs_niceness m)" and ?i = "new_job_id s + 1"
  let ?x = "fill_job m (Job_new ?i p)"
  have "job_at s ?i = None"
    using Suc.prems(4) unfolding fresh_ids_def by (auto dest: bspec [of _ _ 1])
  then obtain s4 where s4: "add_request p m s = Some (?i, s4)" "consistent s4" "css s4 = css s" "asserts s4 = asserts s" "new_job_id s4 = ?i"
      "job_at s4 = (job_at s)(?i \<mapsto> ?x)" "job_requests s4 = enqueue_job_request p ?n ?i (job_requests s)"
    using add_request_inv [OF Suc.prems(1-3)] by blast
  have q: "q_ok (job_requests s)"
    using inv_queue [OF Suc.prems(1)] by (simp add: queue_ok_def)
  obtain s5 where s5: "(case master of None \<Rightarrow> Some s4
        | Some mj \<Rightarrow> upd_job mj (\<lambda>job. job\<lparr>j_masterJobFor := j_masterJobFor job @ [?i]\<rparr>) s4) = Some s5" "consistent s5"
      "s5 = s4\<lparr>jobs := jobs s5\<rparr>" "master_ok p m (case master of None \<Rightarrow> Some ?i | Some mj \<Rightarrow> Some mj) s5"
      "\<And>k. job_at s5 k = None \<longleftrightarrow> job_at s4 k = None"
  proof (cases master)
    case None
    have "\<exists>g\<in>set (job_requests s4). g_key g = (p, ?n) \<and> ?i \<in> set (g_l g)"
    proof (cases "\<exists>g\<in>set (job_requests s). g_key g = (p, ?n)")
      case True
      then obtain g where g: "g \<in> set (job_requests s)" "g_key g = (p, ?n)"
        by blast
      from enqueue_group [OF q this, of ?i] g(2) show ?thesis
        by (intro bexI [of _ "g\<lparr>g_l := g_l g @ [?i]\<rparr>"]) (simp_all add: s4(7) g_key_def)
    next
      case False
      have "?i \<in> set (concat (map g_l (job_requests s4)))"
        by (simp only: s4(7) enqueue_set insert_iff simp_thms)
      then obtain h where h: "h \<in> set (job_requests s4)" "?i \<in> set (g_l h)"
        by auto
      moreover have "h \<notin> set (job_requests s)"
        using h(2) inv_queue [OF Suc.prems(1)] \<open>job_at s ?i = None\<close> by (fastforce simp: queue_ok_def entry_ok_def)
      ultimately have "g_key h = (p, ?n)"
        using enqueue_groups [OF q, of h p ?n ?i] False by (auto simp: s4(7) g_key_def)
      with h show ?thesis
        by blast
    qed
    then show thesis
      using None s4(2) by (intro that [of s4]) (simp_all add: master_ok_def s4(6) fill_job_fields)
  next
    case (Some mj)
    obtain g y where g: "g \<in> set (job_requests s)" "g_key g = (p, ?n)" "mj \<in> set (g_l g)" and y: "job_at s mj = Some y" "j_localClientId y = gcs_client_id m"
      using Suc.prems(6) Some by (auto simp: master_ok_def)
    let ?g = "g\<lparr>g_l := g_l g @ [?i]\<rparr>"
    have g4: "?g \<in> set (job_requests s4)"
      using enqueue_group [OF q g(1,2)] by (simp add: s4(7))
    have "mj \<noteq> ?i"
      using y(1) \<open>job_at s ?i = None\<close> by auto
    then have at: "job_at s4 mj = Some y" "job_at s4 ?i = Some ?x" "j_localClientId ?x = j_localClientId y"
      using y by (simp_all add: s4(6) fill_job_fields)
    obtain s5 where s5: "upd_job mj (\<lambda>job. job\<lparr>j_masterJobFor := j_masterJobFor job @ [?i]\<rparr>) s4 = Some s5" "consistent s5"
        "s5 = s4\<lparr>jobs := jobs s5\<rparr>" "job_at s5 = (job_at s4)(mj \<mapsto> y\<lparr>j_masterJobFor := j_masterJobFor y @ [?i]\<rparr>)"
      using add_slave_inv [OF s4(2) g4 _ g(3) at] by auto
    have "job_requests s5 = job_requests s4"
      by (subst s5(3)) simp
    then have "master_ok p m (Some mj) s5"
      using g4 g(2,3) y(2) s5(4) by (auto simp: master_ok_def g_key_def intro!: bexI [of _ ?g])
    with Some s5 at(1) show thesis
      by (intro that [of s5]) auto
  qed
  have f5: "css s5 = css s" "asserts s5 = asserts s" "new_job_id s5 = ?i" "job_requests s5 = enqueue_job_request p ?n ?i (job_requests s)"
    by (subst s5(3), simp add: s4)+
  have "fresh_ids n s5"
    by (rule fresh_ids_next [OF Suc.prems(4,5) f5(3)]) (simp add: s5(5) s4(6))
  moreover have "p \<in> set (css s5)" "\<not> asserts s5" "n < 2 ^ 32"
    using Suc.prems(2,3,5) by (simp_all add: f5)
  ultimately obtain s6 where s6: "cs_request_loop p m n (case master of None \<Rightarrow> Some ?i | Some mj \<Rightarrow> Some mj) s5 = Some s6" "consistent s6" "css s6 = css s5"
      "pend (job_requests s6) = (pend (job_requests s5))((p, ?n) := pend (job_requests s5) (p, ?n) @ map (\<lambda>k. new_job_id s5 + of_nat k) [1..<Suc n])"
    using Suc.IH [OF s5(2) _ _ _ _ s5(4)] by blast
  have "map (\<lambda>k. new_job_id s + of_nat k) [1..<Suc (Suc n)] = ?i # map (\<lambda>k. new_job_id s5 + of_nat k) [1..<Suc n]"
    by (subst upt_rec) (simp add: f5 map_Suc_upt [symmetric] add.assoc del: upt_Suc)
  then have "pend (job_requests s6) = (pend (job_requests s))((p, ?n) := pend (job_requests s) (p, ?n) @ map (\<lambda>k. new_job_id s + of_nat k) [1..<Suc (Suc n)])"
    using s6(4) pend_enqueue [OF q, of p ?n ?i] by (simp add: f5 fun_eq_iff del: upt_Suc)
  moreover have "cs_request_loop p m (Suc n) master s = Some s6"
    using s4(1) s5(1) s6(1) by (simp add: cs_request_loop_Suc del: cs_request_loop.simps)
  moreover have "css s6 = css s"
    using s6(3) f5(1) by simp
  ultimately show ?case
    using s6(2) by (intro exI [of _ s6] conjI)
qed (simp add: fun_upd_idem)

end
