(* ===== verification/SchedRun.thy ===== *)
theory SchedRun
  imports SchedSteps
begin

text \<open>
  The scheduler at work: assigning the queued requests, running and finished jobs, logins; and
  the reachable states.
\<close>

section \<open>Assigning a request\<close>

subsection \<open>The position in the queue\<close>

definition valid_pos :: "group list \<Rightarrow> position \<Rightarrow> bool" where
  "valid_pos q pos \<longleftrightarrow> fst pos < length q \<and> snd pos \<in> set (g_l (q ! fst pos))"

definition rank :: "group list \<Rightarrow> position \<Rightarrow> nat" where
  "rank q pos = queue_length (take (fst pos) q) + length (takeWhile (\<lambda>x. x \<noteq> snd pos) (g_l (q ! fst pos)))"

lemma queue_length_simps [simp]: "queue_length [] = 0" "queue_length (g # q) = length (g_l g) + queue_length q"
    "queue_length (a @ b) = queue_length a + queue_length b"
  by (simp_all add: queue_length_def)

lemma takeWhile_less: "j \<in> set l \<Longrightarrow> length (takeWhile (\<lambda>x. x \<noteq> j) l) < length l"
  by (induction l) auto

lemma distinct_group: "distinct (concat (map g_l q)) \<Longrightarrow> g \<in> set q \<Longrightarrow> distinct (g_l g)"
  by (induction q) auto

lemma rank_less:
  assumes "valid_pos q pos"
  shows "rank q pos < queue_length q"
proof -
  have i: "fst pos < length q" and j: "snd pos \<in> set (g_l (q ! fst pos))"
    using assms by (simp_all add: valid_pos_def)
  have "length (takeWhile (\<lambda>x. x \<noteq> snd pos) (g_l (q ! fst pos))) < length (g_l (q ! fst pos))"
    by (rule takeWhile_less [OF j])
  moreover have "queue_length q = queue_length (take (fst pos) q) + length (g_l (q ! fst pos)) + queue_length (drop (Suc (fst pos)) q)"
    by (subst id_take_nth_drop [OF i]) simp
  ultimately show ?thesis
    by (simp add: rank_def)
qed

lemma takeWhile_next:
  assumes "distinct l" and "j \<in> set l" and "tl (dropWhile (\<lambda>x. x \<noteq> j) l) = j' # r"
  shows "j' \<in> set l" and "length (takeWhile (\<lambda>x. x \<noteq> j') l) = Suc (length (takeWhile (\<lambda>x. x \<noteq> j) l))"
proof -
  obtain a b where l: "l = a @ j # b" "j \<notin> set a"
    using split_list_first [OF assms(2)] by blast
  have d: "dropWhile (\<lambda>x. x \<noteq> j) l = j # b" "takeWhile (\<lambda>x. x \<noteq> j) l = a"
    using l by (auto simp: dropWhile_append takeWhile_append)
  then have b: "b = j' # r"
    using assms(3) by simp
  then show "j' \<in> set l"
    by (simp add: l(1))
  have "j' \<notin> set (a @ [j])"
    using assms(1) b by (auto simp: l(1))
  then have "takeWhile (\<lambda>x. x \<noteq> j') l = a @ [j]"
    using l(1) b by (auto simp: takeWhile_append)
  with d(2) show "length (takeWhile (\<lambda>x. x \<noteq> j') l) = Suc (length (takeWhile (\<lambda>x. x \<noteq> j) l))"
    by simp
qed

lemma get_next_ok:
  assumes "q_ok q" and "distinct (concat (map g_l q))" and "valid_pos q pos"
  shows "\<exists>n. get_next_job_request q pos = Some n \<and> (\<forall>pos'. n = Some pos' \<longrightarrow> valid_pos q pos' \<and> rank q pos < rank q pos')"
proof -
  obtain i j where pos: "pos = (i, j)"
    by fastforce
  have i: "i < length q" and j: "j \<in> set (g_l (q ! i))"
    using assms(3) by (simp_all add: valid_pos_def pos)
  have d: "distinct (g_l (q ! i))"
    using distinct_group [OF assms(2)] i by simp
  show ?thesis
  proof (cases "tl (dropWhile (\<lambda>x. x \<noteq> j) (g_l (q ! i)))")
    case (Cons j' r)
    with takeWhile_next [OF d j Cons] i j show ?thesis
      by (simp add: get_next_job_request_def pos valid_pos_def rank_def)
  next
    case Nil
    show ?thesis
    proof (cases "Suc i < length q")
      case True
      then have "q ! Suc i \<in> set q"
        by simp
      then obtain j' r where n: "g_l (q ! Suc i) = j' # r"
        using assms(1) by (cases "g_l (q ! Suc i)") (auto simp: q_ok_def)
      have "length (takeWhile (\<lambda>x. x \<noteq> j) (g_l (q ! i))) < length (g_l (q ! i))"
        by (rule takeWhile_less [OF j])
      then have "rank q (i, j) < rank q (Suc i, j')"
        by (simp add: rank_def take_Suc_conv_app_nth [OF i] n)
      with True Nil i j n show ?thesis
        by (simp add: get_next_job_request_def pos valid_pos_def)
    qed (use Nil i j in \<open>simp add: get_next_job_request_def pos\<close>)
  qed
qed

subsection \<open>The search\<close>

definition local_slot :: "compile_server \<Rightarrow> job \<Rightarrow> bool" where
  "local_slot sub job \<longleftrightarrow> currentJobCount sub < cs_maxJobs sub \<and> j_preferredHost job = ''''
     \<and> can_install (j_submitter job) sub sub job False \<noteq> ''''"

text \<open>A server that could ever take the job.\<close>

definition ever_possible :: "cand list \<Rightarrow> compile_server \<Rightarrow> job \<Rightarrow> bool" where
  "ever_possible cs sub job \<longleftrightarrow> list_ex (\<lambda>(p, c). (j_preferredHost job = '''' \<or> matches c (j_preferredHost job))
     \<and> is_eligible_ever p c sub job) cs"

text \<open>
  When neither a server nor the submitter takes the first job the loop goes through the whole queue
  with this job and comes back to it.
\<close>

lemma search_stuck:
  assumes "\<And>w h r. pick_server cs sub algo w h r job = None" and "\<not> local_slot sub job"
    and "heap s (j_submitter job) = Some sub" and "q_ok (job_requests s)" and "distinct (concat (map g_l (job_requests s)))"
    and "get_first_job_request (job_requests s) = Some (Some (i0, j0))" and "job_at s j0 = Some job"
    and "valid_pos (job_requests s) pos" and "queue_length (job_requests s) < n + rank (job_requests s) pos"
  shows "\<exists>rs. search_loop n algo w cs job pos s =
    Some (if ever_possible cs sub job then None else Some ((i0, j0), j_submitter job), s\<lparr>randoms := rs\<rparr>)"
  using assms(3-9)
proof (induction n arbitrary: pos s)
  case 0
  then show ?case
    using rank_less [OF "0.prems"(6)] by simp
next
  case (Suc n)
  let ?q = "job_requests s" and ?s = "s\<lparr>randoms := tl (randoms s)\<rparr>"
  obtain nx where nx: "get_next_job_request ?q pos = Some nx" "\<forall>pos'. nx = Some pos' \<longrightarrow> valid_pos ?q pos' \<and> rank ?q pos < rank ?q pos'"
    using get_next_ok [OF Suc.prems(2,3,6)] by blast
  have at: "job_at ?s = job_at s"
    by (rule job_at_eq) simp
  show ?case
  proof (cases nx)
    case None
    then have "search_loop (Suc n) algo w cs job pos s =
        Some (if ever_possible cs sub job then None else Some ((i0, j0), j_submitter job), ?s)"
      using Suc.prems(1,4,5) nx(1) assms(1,2) by (auto simp: Let_def local_slot_def ever_possible_def)
    then show ?thesis
      by blast
  next
    case (Some pos')
    have "\<exists>rs. search_loop n algo w cs job pos' ?s =
        Some (if ever_possible cs sub job then None else Some ((i0, j0), j_submitter job), ?s\<lparr>randoms := rs\<rparr>)"
      by (rule Suc.IH) (use Suc.prems nx(2) Some in \<open>auto simp: at\<close>)
    moreover have "search_loop (Suc n) algo w cs job pos s = search_loop n algo w cs job pos' ?s"
      using Suc.prems(1) nx(1) Some assms(1,2) by (auto simp: Let_def local_slot_def)
    ultimately show ?thesis
      by simp
  qed
qed

lemma deref_all_ok:
  assumes "\<forall>p\<in>set ps. heap s p \<noteq> None"
  shows "deref_all ps s = Some (map (\<lambda>p. (p, the (heap s p))) ps)"
  using assms by (induction ps) auto

text \<open>The search always ends with the first request: it is assigned, or all requests wait.\<close>

lemma search_first:
  assumes "consistent s" and "job_requests s = g # q" and "job_at s (hd (g_l g)) = Some job" and "heap s (j_submitter job) = Some sub"
    and "cs = map (\<lambda>p. (p, the (heap s p))) (css s)"
  shows "\<exists>found rs. search_loop (Suc (queue_length (job_requests s))) algo w cs job (0, hd (g_l g)) s = Some (found, s\<lparr>randoms := rs\<rparr>) \<and>
    (\<forall>pos x. found = Some (pos, x) \<longrightarrow> pos = (0, hd (g_l g)) \<and> x \<in> set (css s)) \<and>
    (found = None \<longleftrightarrow> (\<forall>w h r. pick_server cs sub algo w h r job = None) \<and> \<not> local_slot sub job \<and> ever_possible cs sub job)"
proof -
  let ?j = "hd (g_l g)" and ?r = "case randoms s of [] \<Rightarrow> 0 | x # _ \<Rightarrow> x"
  have q: "queue_ok (g # q) (job_at s)"
    using inv_queue [OF assms(1)] assms(2) by simp
  then have ne: "g_l g \<noteq> []" and qok: "q_ok (g # q)" and d: "distinct (concat (map g_l (g # q)))"
    by (auto simp: queue_ok_def q_ok_Cons)
  have sub: "j_submitter job \<in> set (css s)"
    using base_job(2) [OF inv_base [OF assms(1)] assms(3)] by simp
  show ?thesis
  proof (cases "pick_server cs sub algo w (all_job_stats s \<noteq> []) ?r job")
    case (Some x)
    obtain p c where x: "x = (p, c)"
      by fastforce
    have "(p, c) \<in> set cs"
      using pick_server_cases [where css = cs and sub = sub and algo = algo and w = w and have_stats = "all_job_stats s \<noteq> []" and r = ?r and job = job]
        Some x by simp
    then have "p \<in> set (css s)"
      by (auto simp: assms(5))
    moreover have "\<not> (\<forall>w h r. pick_server cs sub algo w h r job = None)"
      using Some by (metis option.discI)
    ultimately show ?thesis
      using Some x assms(4) by (intro exI [of _ "Some ((0, ?j), p)"] exI [of _ "tl (randoms s)"]) (simp add: Let_def)
  next
    case None
    then have none: "pick_server cs sub algo w h r job = None" for w h r
      by (rule pick_server_None)
    show ?thesis
    proof (cases "local_slot sub job")
      case True
      with None assms(4) sub show ?thesis
        by (intro exI [of _ "Some ((0, ?j), j_submitter job)"] exI [of _ "tl (randoms s)"]) (simp add: Let_def local_slot_def)
    next
      case False
      have v: "valid_pos (job_requests s) (0, ?j)"
        using ne by (simp add: valid_pos_def assms(2))
      have f: "get_first_job_request (job_requests s) = Some (Some (0, ?j))"
        using get_first_ok [OF qok] by (simp add: assms(2))
      have "\<exists>rs. search_loop (Suc (queue_length (job_requests s))) algo w cs job (0, ?j) s =
          Some (if ever_possible cs sub job then None else Some ((0, ?j), j_submitter job), s\<lparr>randoms := rs\<rparr>)"
        by (rule search_stuck [OF none False assms(4) _ _ f assms(3) v]) (use qok d assms(2) in auto)
      then show ?thesis
        using none False sub by (auto split: if_splits)
    qed
  qed
qed

subsection \<open>The assignment\<close>

lemma enqueue_group_distinct:
  "distinct (concat (map g_l (enqueue_job_requests_group h r))) = distinct (g_l h @ concat (map g_l r))"
  by (induction r) auto

lemma queue_pop:
  assumes "queue_ok (g # q) M" and "g_l g = j # l" and "remove_job_request (g # q) (0, j) = Some q'"
  shows "queue_ok q' M" and "j \<notin> set (concat (map g_l q'))"
proof -
  let ?t = "g\<lparr>g_l := l\<rparr>"
  have ok: "q_ok (g # q)" and d: "distinct (j # l @ concat (map g_l q))"
    using assms(1,2) by (auto simp: queue_ok_def)
  have q': "q' = (if l = [] then q else enqueue_job_requests_group ?t q)"
    using assms(3) by (simp add: remove_job_request_def remove_job_def assms(2) split: if_splits)
  have e: "entry_ok M ?t k = entry_ok M g k" for k
    by (simp add: entry_ok_def cong: option.case_cong)
  show "j \<notin> set (concat (map g_l q'))"
    using d by (auto simp: q')
  have "distinct (concat (map g_l q'))"
    using d by (simp add: q' enqueue_group_distinct)
  moreover have "slaves_ok M l" "\<forall>k\<in>set l. entry_ok M ?t k" "\<forall>h\<in>set q. (\<forall>j\<in>set (g_l h). entry_ok M h j) \<and> slaves_ok M (g_l h)"
    using assms(1,2) by (simp_all add: queue_ok_def e)
  then have "\<forall>h\<in>set q'. (\<forall>j\<in>set (g_l h). entry_ok M h j) \<and> slaves_ok M (g_l h)"
    by (simp add: q')
  ultimately show "queue_ok q' M"
    using remove_job_request_ok [OF ok assms(3)] by (simp add: queue_ok_def)
qed

lemma assign_base:
  assumes "base_ok {} {} s" and "job_at s j = Some x" and "j_server x = None" and "p \<in> set (css s)"
    and "s' = s\<lparr>jobs := jobs s'\<rparr>" and "map fst (jobs s') = map fst (jobs s)"
    and "job_at s' = (job_at s)(j \<mapsto> x\<lparr>j_state := WAITINGFORCS, j_server := Some p\<rparr>)"
  shows "base_ok {} {j} s'"
proof -
  have f: "css s' = css s" "monitors s' = monitors s" "controls s' = controls s" "heap s' = heap s"
    by (subst assms(5), simp)+
  have a: "assigned (job_at s') q - {j} = assigned (job_at s) q" and b: "submitted (job_at s') q = submitted (job_at s) q" for q
    using assms(2,3) by (auto simp: assms(7) assigned_def submitted_def)
  have "job_ok (set (css s)) k job" if "job_at s' k = Some job" for k job
    using that assms(1,2,4) by (auto simp: assms(7) base_ok_def job_ok_def split: if_splits)
  then show ?thesis
    using assms(1) unfolding base_ok_def server_ok_def a b f assms(6) lists_ok_def live_def by auto
qed

lemma upd_job_inv:
  assumes "consistent s" and "job_at s j = Some x" and "qview (f x) = qview x" and "j_id (f x) = j_id x"
    and "(j_state (f x) = PENDING) = (j_state x = PENDING)"
  obtains s' where "upd_job j f s = Some s'" and "consistent s'" and "s' = s\<lparr>jobs := jobs s'\<rparr>" and "job_at s' = (job_at s)(j \<mapsto> f x)"
proof -
  obtain s' where s': "upd_job j f s = Some s'" "job_at s' = (job_at s)(j \<mapsto> f x)" "s' = s\<lparr>jobs := jobs s'\<rparr>" "map fst (jobs s') = map fst (jobs s)"
    using upd_job_at [OF assms(2)] .
  have "base_ok {} {} s'"
    by (rule upd_job_base [OF inv_base [OF assms(1)] assms(2) s'(1,3,2,4)]) (use assms(3-5) in \<open>simp_all add: qview_def\<close>)
  moreover have "job_requests s' = job_requests s"
    by (subst s'(3)) simp
  moreover have "queue_ok (job_requests s) (job_at s')"
    by (rule queue_ok_cong [OF inv_queue [OF assms(1)]]) (use assms(2,3) in \<open>simp add: s'(2)\<close>)
  ultimately show ?thesis
    using s' by (intro that [of s']) (simp_all add: consistent_def)
qed

lemma restrict_envs_inv:
  assumes "consistent s" and "\<forall>k\<in>set ks. job_at s k \<noteq> None"
  shows "\<exists>s'. restrict_envs e ks s = Some s' \<and> consistent s' \<and> s' = s\<lparr>jobs := jobs s'\<rparr> \<and>
    (\<forall>j. map_option (\<lambda>x. x\<lparr>j_environments := []\<rparr>) (job_at s' j) = map_option (\<lambda>x. x\<lparr>j_environments := []\<rparr>) (job_at s j))"
  using assms
proof (induction ks arbitrary: s)
  case (Cons k ks)
  obtain x where x: "job_at s k = Some x"
    using Cons.prems(2) by auto
  obtain s1 where s1: "upd_job k (\<lambda>job. job\<lparr>j_environments := [e]\<rparr>) s = Some s1" "consistent s1" "s1 = s\<lparr>jobs := jobs s1\<rparr>"
      "job_at s1 = (job_at s)(k \<mapsto> x\<lparr>j_environments := [e]\<rparr>)"
    by (rule upd_job_inv [OF Cons.prems(1) x, of "\<lambda>job. job\<lparr>j_environments := [e]\<rparr>"]) (simp_all add: qview_def)
  have "\<forall>k\<in>set ks. job_at s1 k \<noteq> None"
    using Cons.prems(2) by (simp add: s1(4))
  from Cons.IH [OF s1(2) this] obtain s2 where s2: "restrict_envs e ks s1 = Some s2" "consistent s2" "s2 = s1\<lparr>jobs := jobs s2\<rparr>"
      "\<forall>j. map_option (\<lambda>x. x\<lparr>j_environments := []\<rparr>) (job_at s2 j) = map_option (\<lambda>x. x\<lparr>j_environments := []\<rparr>) (job_at s1 j)"
    by blast
  have "s2 = s\<lparr>jobs := jobs s2\<rparr>"
    by (subst s2(3), subst s1(3)) simp
  with s1(1) s2(1,2,4) x show ?case
    by (simp add: s1(4))
qed simp

text \<open>The server takes the job into its list.\<close>

lemma append_job_base:
  assumes "base_ok {} {j} s" and "job_at s j = Some x" and "j_server x = Some p" and "heap s p = Some c"
    and "cs_type (f c) = cs_type c" and "cs_jobList (f c) = cs_jobList c @ [j]" and "cs_submittedJobsCount (f c) = cs_submittedJobsCount c"
  obtains s' where "upd p f s = Some s'" and "base_ok {} {} s'" and "s' = s\<lparr>heap := (heap s)(p \<mapsto> f c)\<rparr>"
proof -
  have c: "server_ok {} {j} (job_at s) p c"
    using assms(1,4) by (simp add: base_ok_def)
  have "server_ok {} {} (job_at s) q d" if "q \<noteq> p" "server_ok {} {j} (job_at s) q d" for q d
  proof -
    have "j \<notin> assigned (job_at s) q"
      using that(1) assms(2,3) by (simp add: assigned_def)
    with that(2) show ?thesis
      by (simp add: server_ok_def)
  qed
  moreover have "server_ok {} {} (job_at s) p (f c)"
    using c assms(2,3,6,7) by (auto simp: server_ok_def assigned_def)
  ultimately have "base_ok {} {} (s\<lparr>heap := (heap s)(p \<mapsto> f c)\<rparr>)"
    using base_upd [OF assms(1,4,5)] by blast
  then show ?thesis
    using assms(4) by (intro that) (simp_all add: upd_def)
qed

definition served :: "job_ptr \<Rightarrow> cs_ptr \<Rightarrow> group list \<Rightarrow> sched \<Rightarrow> sched \<Rightarrow> bool" where
  "served j x q' s s' \<longleftrightarrow> css s' = css s \<and> job_requests s' = q' \<and>
     (\<exists>job. job_at s' j = Some job \<and> j_server job = Some x \<and> j_state job = WAITINGFORCS) \<and>
     (\<exists>c. heap s' x = Some c \<and> j \<in> set (cs_jobList c))"

text \<open>
  The answer to the submitter \<open>sub\<close> of a job for the server \<open>p\<close> (object \<open>c\<close>), and what comes of it: the job is
  assigned when the answer could be written to the channel of the submitter, which is removed when it could not.
\<close>

definition cs_answer :: "cs_ptr \<Rightarrow> compile_server \<Rightarrow> compile_server \<Rightarrow> job \<Rightarrow> msg" where
  "cs_answer p c sub x =
     (let gotit = (envs_match p c x \<noteq> '''')
      in if cs_protocol sub \<ge> 37 \<and> p = j_submitter x
         then NoCSMsg \<lparr>ncs_job_id = j_id x, ncs_client_id = j_localClientId x\<rparr>
         else UseCSMsg \<lparr>ucs_job_id = j_id x, ucs_hostname = cs_name c, ucs_port = cs_remotePort c,
             ucs_host_platform = (if gotit then envs_match p c x else can_install p c sub x False), ucs_got_env = bool32 gotit,
             ucs_client_id = j_localClientId x, ucs_matched_job_id = matched_job_id (cs_lastRequestedJobs sub) (cs_lastCompiledJobs c)\<rparr>)"

definition answered :: "job_ptr \<Rightarrow> job \<Rightarrow> cs_ptr \<Rightarrow> group list \<Rightarrow> sched \<Rightarrow> sched \<Rightarrow> bool" where
  "answered j x p q' s s' \<longleftrightarrow>
     (\<exists>c sub ok ch. heap s p = Some c \<and> heap s (j_submitter x) = Some sub
        \<and> send_msg (sc_libs s) True False (cs_answer p c sub x) (cs_chan sub) = Some (ok, ch)
        \<and> (if ok then served j p q' s s' \<and> map_option cs_chan (heap s' (j_submitter x)) = Some ch
           else css s' = removeAll (j_submitter x) (css s) \<and> heap s' (j_submitter x) = None))"

lemma answered_cases:
  assumes "answered j x p q' s s'"
  obtains "served j p q' s s'" | "css s' = removeAll (j_submitter x) (css s)"
  using assms by (auto simp: answered_def split: if_splits)

lemma assign_job_inv:
  assumes "consistent s" and "job_requests s = g # q" and "g_l g = j # l" and "job_at s j = Some x" and "p \<in> set (css s)"
    and "remove_job_request (g # q) (0, j) = Some q'"
  shows "\<exists>s'. assign_job (0, j) j p s = Some (True, s') \<and> consistent s' \<and> asserts s' = asserts s \<and> answered j x p q' s s'"
proof -
  let ?x = "x\<lparr>j_state := WAITINGFORCS, j_server := Some p\<rparr>" and ?s = "s\<lparr>job_requests := q'\<rparr>"
  have q: "queue_ok (g # q) (job_at s)"
    using inv_queue [OF assms(1)] assms(2) by simp
  have qg: "entry_ok (job_at s) g j" "slaves_ok (job_at s) (j # l)"
    using q assms(3) by (auto simp: queue_ok_def)
  then have x: "j_server x = None"
    using assms(4) by (simp add: entry_ok_def)
  obtain s1 where s1: "upd_job j (\<lambda>job. job\<lparr>j_state := WAITINGFORCS, j_server := Some p\<rparr>) ?s = Some s1"
      "job_at s1 = (job_at ?s)(j \<mapsto> ?x)" "s1 = ?s\<lparr>jobs := jobs s1\<rparr>" "map fst (jobs s1) = map fst (jobs ?s)"
    using upd_job_at [of ?s j x] assms(4) by auto
  have f1: "css s1 = css s" "job_requests s1 = q'" "heap s1 = heap s" "asserts s1 = asserts s" "sc_libs s1 = sc_libs s"
    by (subst s1(3), simp)+
  have b1: "base_ok {} {j} s1"
    by (rule assign_base [of ?s j x]) (use inv_base [OF assms(1)] assms(4,5) x s1 in \<open>simp_all add: base_queue\<close>)
  have q1: "queue_ok q' (job_at s1)"
    by (rule queue_ok_cong [OF queue_pop(1) [OF q assms(3,6)]]) (use queue_pop(2) [OF q assms(3,6)] in \<open>auto simp: s1(2)\<close>)
  have at1: "job_at s1 j = Some ?x"
    by (simp add: s1(2))
  have subm: "j_submitter x \<in> set (css s)"
    using base_job(2) [OF inv_base [OF assms(1)] assms(4)] by simp
  obtain c sub where c: "heap s1 p = Some c" and sub: "heap s1 (j_submitter x) = Some sub" "cs_type sub = DAEMON"
    using inv_css [OF assms(1) assms(5)] inv_css [OF assms(1) subm] f1(3) by auto
  define gotit where "gotit = (envs_match p c ?x \<noteq> '''')"
  define m where "m = (if cs_protocol sub \<ge> 37 \<and> p = j_submitter x
      then NoCSMsg \<lparr>ncs_job_id = j_id x, ncs_client_id = j_localClientId x\<rparr>
      else UseCSMsg \<lparr>ucs_job_id = j_id x, ucs_hostname = cs_name c, ucs_port = cs_remotePort c,
             ucs_host_platform = (if gotit then envs_match p c ?x else can_install p c sub ?x False), ucs_got_env = bool32 gotit,
             ucs_client_id = j_localClientId x, ucs_matched_job_id = matched_job_id (cs_lastRequestedJobs sub) (cs_lastCompiledJobs c)\<rparr>)"
  have pm: "plain m"
    by (simp add: m_def)
  then obtain ok s2 where s2: "send_to True (j_submitter x) m s1 = Some (ok, s2)" "talk s1 s2"
    using send_to_talk [OF sub(1)] by metis
  have "envs_match p c ?x = envs_match p c x" "can_install p c sub ?x False = can_install p c sub x False"
    by (simp_all add: envs_match_def can_install_def)
  then have m: "m = cs_answer p c sub x"
    by (simp add: m_def cs_answer_def gotit_def Let_def)
  obtain ch where sent: "send_msg (sc_libs s) True False m (cs_chan sub) = Some (ok, ch)" "heap s2 (j_submitter x) = Some (sub\<lparr>cs_chan := ch\<rparr>)"
    using s2(1) sub(1) f1 by (auto simp: send_to_def split: bind_splits)
  note core2 = talk_core [OF s2(2)]
  note f2 = core_same_fields [OF core2]
  have b2: "base_ok {} {j} s2" and q2: "queue_ok (job_requests s2) (job_at s2)"
    using core_same_base [OF core2 b1] q1 by (simp_all add: f2 f1)
  show ?thesis
  proof (cases ok)
    case False
    obtain d where d: "heap s2 (j_submitter x) = Some d" "cs_type d = DAEMON"
      using base_daemon [OF b2, of "j_submitter x"] subm by (auto simp: f2 f1)
    have "{j} \<subseteq> submitted (job_at s2) (j_submitter x)"
      by (simp add: submitted_def f2 at1)
    then obtain s3 where s3: "handle_end (j_submitter x) s2 = Some s3" "consistent s3" "without_cs (j_submitter x) s2 s3" "others_same (j_submitter x) s2 s3"
        "heap s3 (j_submitter x) = None"
      using handle_end_daemon [OF b2 q2 d] by metis
    have "assign_job (0, j) j p s = Some (True, s3)"
      using assms(2,6) s1(1) at1 c sub(1) s2(1) s3(1) False
      by (simp add: assign_job_def Let_def m_def gotit_def cong: if_cong)
    moreover have "answered j x p q' s s3"
      unfolding answered_def using c sub(1) sent(1) s3(3,5) False by (auto simp: without_cs_def f2 f1 m)
    ultimately show ?thesis
      using s3(2,4) by (auto simp: others_same_def f2 f1)
  next
    case True
    let ?f = "\<lambda>c. (appendJob j c)\<lparr>cs_busyInstalling := (if gotit then cs_busyInstalling c else clock s)\<rparr>"
    obtain d where d: "heap s2 p = Some d"
      using base_daemon [OF b2, of p] assms(5) by (auto simp: f2 f1)
    have at2: "job_at s2 j = Some ?x"
      using at1 by (simp add: f2)
    obtain s3 where s3: "upd p ?f s2 = Some s3" "base_ok {} {} s3" "s3 = s2\<lparr>heap := (heap s2)(p \<mapsto> ?f d)\<rparr>"
      by (rule append_job_base [OF b2 at2 _ d, of ?f]) (simp_all add: appendJob_def)
    have f3: "css s3 = css s" "job_requests s3 = q'" "job_at s3 = job_at s1" "heap s3 p = Some (?f d)" "asserts s3 = asserts s"
      by (simp_all add: s3(3) f2 f1)
    have i3: "consistent s3"
      using s3(2) q1 by (simp add: consistent_def f3)
    have "\<forall>k\<in>set (j_masterJobFor x). job_at s3 k \<noteq> None"
      using qg(2) assms(4) by (auto simp: f3 s1(2))
    note restrict = restrict_envs_inv [OF i3 this]
    obtain s4 where
      s4: "(case find (\<lambda>e. fst e = cs_hostPlatform c) (if j_masterJobFor x = [] then [] else j_environments x) of
              Some e \<Rightarrow> if snd e \<noteq> '''' then restrict_envs e (j_masterJobFor x) s3 else Some s3
            | None \<Rightarrow> Some s3) = Some s4" "consistent s4" "s4 = s3\<lparr>jobs := jobs s4\<rparr>"
        "map_option (\<lambda>x. x\<lparr>j_environments := []\<rparr>) (job_at s4 j) = Some (?x\<lparr>j_environments := []\<rparr>)"
    proof (cases "find (\<lambda>e. fst e = cs_hostPlatform c) (if j_masterJobFor x = [] then [] else j_environments x)")
      case (Some e)
      show thesis
      proof (cases "snd e = ''''")
        case False
        obtain s4 where "restrict_envs e (j_masterJobFor x) s3 = Some s4" "consistent s4" "s4 = s3\<lparr>jobs := jobs s4\<rparr>"
            "map_option (\<lambda>x. x\<lparr>j_environments := []\<rparr>) (job_at s4 j) = map_option (\<lambda>x. x\<lparr>j_environments := []\<rparr>) (job_at s3 j)"
          using restrict [of e] by blast
        with Some False at1 show thesis
          by (intro that [of s4]) (simp_all add: f3)
      qed (use Some i3 at1 in \<open>intro that [of s3], simp_all add: f3\<close>)
    qed (use i3 at1 in \<open>intro that [of s3], simp_all add: f3\<close>)
    have f4: "css s4 = css s" "job_requests s4 = q'" "heap s4 p = Some (?f d)" "asserts s4 = asserts s"
      by (subst s4(3), simp add: f3)+
    obtain y where y: "job_at s4 j = Some y" "y\<lparr>j_environments := []\<rparr> = ?x\<lparr>j_environments := []\<rparr>"
      using s4(4) by auto
    have "j_server y = Some p" "j_state y = WAITINGFORCS"
      using arg_cong [OF y(2), of j_server] arg_cong [OF y(2), of j_state] by simp_all
    then have "served j p q' s s4"
      using y(1) f4 by (simp add: served_def appendJob_def)
    moreover have "assign_job (0, j) j p s = Some (True, s4)"
      using assms(2,6) s1(1) at1 c sub(1) s2(1) s3(1) s4(1) True
      by (simp add: assign_job_def Let_def m_def gotit_def cong: if_cong option.case_cong)
    moreover have "map_option cs_chan (heap s4 (j_submitter x)) = Some ch"
      using sent(2) d by (subst s4(3)) (auto simp: s3(3) appendJob_def)
    then have "answered j x p q' s s4"
      unfolding answered_def using c sub(1) sent(1) \<open>served j p q' s s4\<close> True by (auto simp: f1 m)
    ultimately show ?thesis
      using s4(2) f4(4) by blast
  qed
qed

subsection \<open>Serving the queue\<close>

text \<open>When the first request has to wait: no server takes it now, nor its submitter, and one may later.\<close>

definition blocked :: "sched \<Rightarrow> compile_server \<Rightarrow> job \<Rightarrow> bool" where
  "blocked s sub job \<longleftrightarrow>
     (\<forall>p\<in>set (css s). is_eligible_now p (the (heap s p)) sub job \<longrightarrow> j_preferredHost job \<noteq> '''' \<and> \<not> matches (the (heap s p)) (j_preferredHost job))
     \<and> \<not> local_slot sub job \<and> ever_possible (map (\<lambda>p. (p, the (heap s p))) (css s)) sub job"

lemma pick_none_iff:
  "(\<forall>w h r. pick_server cs sub algo w h r job = None) \<longleftrightarrow>
     (\<forall>(p, c)\<in>set cs. is_eligible_now p c sub job \<longrightarrow> j_preferredHost job \<noteq> '''' \<and> \<not> matches c (j_preferredHost job))" (is "?l = ?r")
proof
  assume ?l
  then have "pick_server cs sub algo 0 True 0 job = None"
    by blast
  then show ?r
    using pick_server_cases [where css = cs and sub = sub and algo = algo and w = 0 and have_stats = True and r = 0 and job = job] by simp
next
  assume r: ?r
  show ?l
  proof (intro allI)
    fix w h x
    show "pick_server cs sub algo w h x job = None"
      using pick_server_cases [where css = cs and sub = sub and algo = algo and w = w and have_stats = h and r = x and job = job] r
      by (cases "pick_server cs sub algo w h x job") auto
  qed
qed

lemma empty_queue_inv:
  assumes "consistent s" and "\<not> asserts s" and "job_requests s = g # q"
  shows "\<exists>r s'. empty_queue algo w s = Some (r, s') \<and> consistent s' \<and> asserts s' = asserts s \<and>
    (if r then \<exists>x q' job. pop_request (job_requests s) = Some (g_key g, hd (g_l g), q') \<and> x \<in> set (css s)
               \<and> job_at s (hd (g_l g)) = Some job \<and> j_submitter job = g_submitter g \<and> answered (hd (g_l g)) job x q' s s'
     else (\<exists>rs. s' = s\<lparr>randoms := rs\<rparr>)) \<and>
    (\<exists>job sub. job_at s (hd (g_l g)) = Some job \<and> heap s (j_submitter job) = Some sub \<and> r = (\<not> blocked s sub job))"
proof -
  have q: "queue_ok (g # q) (job_at s)"
    using inv_queue [OF assms(1)] assms(3) by simp
  then have ok: "q_ok (g # q)" and "g_l g \<noteq> []"
    by (auto simp: queue_ok_def q_ok_Cons)
  then obtain j l where l: "g_l g = j # l"
    by (cases "g_l g") auto
  obtain job where job: "job_at s j = Some job" "j_submitter job = g_submitter g"
    using q l by (auto simp: queue_ok_def entry_ok_def split: option.splits)
  have subm: "j_submitter job \<in> set (css s)"
    using base_job(2) [OF inv_base [OF assms(1)] job(1)] by simp
  obtain sub where sub: "heap s (j_submitter job) = Some sub"
    using inv_css [OF assms(1) subm] by blast
  define cs where "cs = map (\<lambda>p. (p, the (heap s p))) (css s)"
  have first: "get_first_job_request (job_requests s) = Some (Some (0, j))"
    using get_first_ok [OF ok] l by (simp add: assms(3))
  have cs: "deref_all (css s) s = Some cs"
    unfolding cs_def using base_heap [OF inv_base [OF assms(1)]] by (intro deref_all_ok) simp
  obtain found rs where fd: "search_loop (Suc (queue_length (job_requests s))) algo w cs job (0, j) s = Some (found, s\<lparr>randoms := rs\<rparr>)"
      "\<forall>pos x. found = Some (pos, x) \<longrightarrow> pos = (0, j) \<and> x \<in> set (css s)"
      "found = None \<longleftrightarrow> (\<forall>w h r. pick_server cs sub algo w h r job = None) \<and> \<not> local_slot sub job \<and> ever_possible cs sub job"
    using search_first [OF assms(1,3) _ sub cs_def, unfolded l list.sel, OF job(1), of algo w] by blast
  have e: "empty_queue algo w s = (case found of None \<Rightarrow> Some (False, s\<lparr>randoms := rs\<rparr>)
      | Some (pos', use_cs) \<Rightarrow> assign_job pos' j use_cs (s\<lparr>randoms := rs\<rparr>))"
    using first assms(2) cs job(1) fd(1)
    by (simp add: empty_queue_def del: search_loop.simps cong: option.case_cong)
  have b: "found = None \<longleftrightarrow> blocked s sub job"
    unfolding fd(3) pick_none_iff blocked_def cs_def by auto
  show ?thesis
  proof (cases found)
    case None
    with e assms(1) b job(1) sub l show ?thesis
      by auto
  next
    case (Some z)
    then obtain p where z: "found = Some ((0, j), p)" "p \<in> set (css s)"
      using fd(2) by (cases z) auto
    let ?s = "s\<lparr>randoms := rs\<rparr>"
    obtain q' where q': "remove_job_request (g # q) (0, j) = Some q'"
      by (simp add: remove_job_request_def Let_def)
    then have pop: "pop_request (job_requests s) = Some (g_key g, j, q')"
      using first by (simp add: pop_request_def assms(3))
    have "consistent ?s" "job_requests ?s = g # q" "job_at ?s j = Some job" "p \<in> set (css ?s)"
      using assms(1,3) job(1) z(2) by (simp_all add: job_at_eq [of ?s s])
    from assign_job_inv [OF this(1,2) l this(3,4) q']
    obtain s' where s': "assign_job (0, j) j p ?s = Some (True, s')" "consistent s'"
        "answered j job p q' ?s s'" "asserts s' = asserts s"
      by auto
    then have "empty_queue algo w s = Some (True, s')"
      using e z(1) by simp
    moreover have "answered j job p q' s s'"
      using s'(3) by (simp add: answered_def served_def cong: if_cong)
    ultimately show ?thesis
      unfolding l list.sel using s'(2,4) pop z b job sub by (intro exI [of _ True] exI [of _ s']) auto
  qed
qed

section \<open>Running jobs\<close>

lemma handle_job_begin_inv:
  assumes "consistent s" and "p \<in> set (css s)"
  shows "\<exists>r s'. handle_job_begin p m s = Some (r, s') \<and> consistent s'"
proof (cases "\<exists>job. job_at s (jb_job_id m) = Some job \<and> j_server job = Some p")
  case False
  then have "handle_job_begin p m s = Some (False, s)"
    by (auto simp: handle_job_begin_def split: option.splits)
  with assms(1) show ?thesis
    by blast
next
  case True
  let ?j = "jb_job_id m"
  let ?f = "\<lambda>job. job\<lparr>j_state := COMPILING, j_startTime := uint (jb_stime m), j_startOnScheduler := clock s\<rparr>"
  obtain job where job: "job_at s ?j = Some job" "j_server job = Some p"
    using True by blast
  obtain c where c: "heap s p = Some c"
    using inv_css [OF assms] by blast
  obtain s1 where s1: "upd p (\<lambda>c. c\<lparr>cs_clientCount := sint (jb_client_count m)\<rparr>) s = Some s1" "consistent s1" "core_same s s1"
      "heap s1 p = Some (c\<lparr>cs_clientCount := sint (jb_client_count m)\<rparr>)"
    using upd_inv [OF assms(1) c neutrals(1)] .
  have j1: "job_at s1 ?j = Some job"
    using job(1) by (simp add: core_same_fields [OF s1(3)])
  have "j_state job \<noteq> PENDING"
    using inv_base [OF assms(1)] job by (auto simp: base_ok_def job_ok_def split: option.splits)
  then obtain s2 where s2: "upd_job ?j ?f s1 = Some s2" "consistent s2" "s2 = s1\<lparr>jobs := jobs s2\<rparr>"
    using upd_job_inv [OF s1(2) j1, of ?f] by (auto simp: qview_def)
  have h2: "heap s2 p = heap s1 p"
    by (subst s2(3)) simp
  obtain s3 where "notify_monitors (MonJobBeginMsg \<lparr>mjb_job_id = ?j, mjb_stime = jb_stime m, mjb_hostid = cs_hostId c\<rparr>) s2 = Some s3" "consistent s3"
    using notify_inv [OF s2(2) plain_simps(4)] by metis
  then have "handle_job_begin p m s = Some (True, s3)"
    using job s1(1,4) s2(1) h2 by (simp add: handle_job_begin_def)
  with \<open>consistent s3\<close> show ?thesis
    by blast
qed

section \<open>Finished jobs\<close>

lemma core_stats: "core_same s (s\<lparr>all_job_stats := l, cum_job_stats := t\<rparr>)"
  by (rule core_sameI) auto

lemma add_job_stats_core:
  assumes "j_server job \<noteq> None \<or> jd_exitcode m \<noteq> 0" and "\<And>x. j_server job = Some x \<Longrightarrow> heap s x \<noteq> None" and "heap s (j_submitter job) \<noteq> None"
  shows "\<exists>s'. add_job_stats job m s = Some s' \<and> core_same s s'"
proof (cases "jd_out_uncompressed m < 4096 \<or> jd_exitcode m \<noteq> 0")
  case True
  then show ?thesis
    using core_same_refl by (simp add: add_job_stats_def)
next
  case False
  then obtain x c d where x: "j_server job = Some x" "heap s x = Some c" "heap s (j_submitter job) = Some d"
    using assms by auto
  let ?sz = "scaled_size (j_argFlags job) (ucast (jd_out_uncompressed m))"
  define st where "st = \<lparr>outputSize = (if length (cs_lastCompiledJobs c) \<ge> 7 then smoothed_size (server_speed x c None) ?sz (ucast (jd_user_msec m)) else ?sz),
    compileTimeReal = ucast (jd_real_msec m), compileTimeUser = ucast (jd_user_msec m), compileTimeSys = ucast (jd_sys_msec m), js_jobId = j_id job\<rparr>"
  obtain s1 where s1: "upd x (push_compiled st) s = Some s1" "core_same s s1" "s1 = s\<lparr>heap := (heap s)(x \<mapsto> push_compiled st c)\<rparr>"
    using upd_core [OF x(2) neutrals(8)] .
  obtain d' where "heap s1 (j_submitter job) = Some d'"
    using x(3) by (cases "j_submitter job = x") (auto simp: s1(3))
  then obtain s2 where s2: "upd (j_submitter job) (push_requested st) s1 = Some s2" "core_same s1 s2"
    using upd_core [OF _ neutrals(9)] by metis
  let ?w = "push_stat 2000 st (all_job_stats s2, cum_job_stats s2)"
  have "add_job_stats job m s = Some (s2\<lparr>all_job_stats := fst ?w, cum_job_stats := snd ?w\<rparr>)"
    using False x s1(1) s2(1) by (simp add: add_job_stats_def Let_def st_def)
  then show ?thesis
    using core_same_trans [OF core_same_trans [OF s1(2) s2(2)] core_stats] by blast
qed

subsection \<open>The queue without the cancelled requests\<close>

definition drop_jobs :: "job_ptr set \<Rightarrow> group list \<Rightarrow> group list" where
  "drop_jobs A q = filter (\<lambda>g. g_l g \<noteq> []) (map (\<lambda>g. g\<lparr>g_l := filter (\<lambda>j. j \<notin> A) (g_l g)\<rparr>) q)"

lemma drop_jobs_simps [simp]:
  "drop_jobs A [] = []"
  "drop_jobs A (g # q) = (if filter (\<lambda>j. j \<notin> A) (g_l g) = [] then drop_jobs A q
     else g\<lparr>g_l := filter (\<lambda>j. j \<notin> A) (g_l g)\<rparr> # drop_jobs A q)"
  by (simp_all add: drop_jobs_def)

lemma drop_jobs_id:
  assumes "\<forall>g\<in>set q. g_l g \<noteq> [] \<and> set (g_l g) \<inter> A = {}"
  shows "drop_jobs A q = q"
  using assms
proof (induction q)
  case (Cons g q)
  then have "filter (\<lambda>j. j \<notin> A) (g_l g) = g_l g"
    by (auto simp: filter_id_conv)
  with Cons show ?case
    by auto
qed simp

lemma drop_jobs_drop_jobs: "drop_jobs A (drop_jobs B q) = drop_jobs (B \<union> A) q"
proof (induction q)
  case (Cons g q)
  have "filter (\<lambda>j. j \<notin> A) (filter (\<lambda>j. j \<notin> B) (g_l g)) = filter (\<lambda>j. j \<notin> B \<union> A) (g_l g)"
    by (simp add: conj_commute)
  with Cons show ?case
    by (cases "filter (\<lambda>j. j \<notin> B) (g_l g) = []") (simp_all del: filter_filter add: filter_empty_conv)
qed simp

lemma drop_jobs_set: "h \<in> set (drop_jobs A q) \<longleftrightarrow> (\<exists>g\<in>set q. h = g\<lparr>g_l := filter (\<lambda>j. j \<notin> A) (g_l g)\<rparr> \<and> g_l h \<noteq> [])"
  by (auto simp: drop_jobs_def)

lemma drop_jobs_concat: "concat (map g_l (drop_jobs A q)) = filter (\<lambda>j. j \<notin> A) (concat (map g_l q))"
  by (induction q) auto

lemma drop_jobs_q_ok: "q_ok q \<Longrightarrow> q_ok (drop_jobs A q)"
proof (induction q)
  case (Cons g q)
  have "g_niceness g \<le> g_niceness h \<and> g_key h \<noteq> g_key g" if "h \<in> set (drop_jobs A q)" for h
    using that Cons.prems by (auto simp: drop_jobs_set q_ok_Cons g_key_def)
  with Cons show ?case
    by (auto simp: q_ok_Cons g_key_def)
qed simp

lemma cancel_request_drop:
  assumes "q_ok q" and "distinct (concat (map g_l q))" and "\<forall>g\<in>set q. j \<in> set (g_l g) \<longrightarrow> g_submitter g = p"
  shows "cancel_request p j q = drop_jobs {j} q"
  using assms
proof (induction q)
  case (Cons g q)
  have IH: "cancel_request p j q = drop_jobs {j} q"
    using Cons by (simp add: q_ok_Cons)
  have r: "remove1 j (g_l g) = filter (\<lambda>x. x \<notin> {j}) (g_l g)"
    using Cons.prems(2) by (simp add: distinct_remove1_removeAll removeAll_filter_not_eq) metis
  show ?case
  proof (cases "j \<in> set (g_l g)")
    case True
    then have "drop_jobs {j} q = q"
      using Cons.prems by (intro drop_jobs_id) (auto simp: q_ok_def)
    with True Cons.prems(3) IH r show ?thesis
      by auto
  next
    case False
    then have "filter (\<lambda>x. x \<notin> {j}) (g_l g) = g_l g"
      by (auto simp: filter_id_conv)
    with Cons.prems(1) IH r show ?thesis
      by (auto simp: q_ok_Cons)
  qed
qed simp

definition waiting_for :: "cs_ptr \<Rightarrow> u32 \<Rightarrow> (job_ptr \<times> job) list \<Rightarrow> job_ptr set" where
  "waiting_for p cl js = {j. \<exists>job. (j, job) \<in> set js \<and> waits_for p cl job}"

lemma waiting_for_Cons: "waiting_for p cl ((j, job) # js) = (if waits_for p cl job then {j} else {}) \<union> waiting_for p cl js"
  by (auto simp: waiting_for_def)

lemma find_by_client_fst:
  "if waiting_for p cl js = {} then fst (find_by_client p cl js found q) = found
   else \<exists>j\<in>waiting_for p cl js. fst (find_by_client p cl js found q) = Some j"
proof (induction js arbitrary: found q)
  case (Cons e js)
  obtain j job where e: "e = (j, job)"
    by fastforce
  show ?case
  proof (cases "waits_for p cl job")
    case True
    with Cons.IH [of "Some j" "cancel_request p j q"] show ?thesis
      by (cases "waiting_for p cl js = {}") (simp_all add: e waiting_for_Cons)
  next
    case False
    with Cons.IH [of found q] show ?thesis
      by (simp add: e waiting_for_Cons)
  qed
qed (simp add: waiting_for_def)

lemma find_by_client_snd:
  assumes "q_ok q" and "distinct (concat (map g_l q))"
    and "\<forall>j\<in>waiting_for p cl js. \<forall>g\<in>set q. j \<in> set (g_l g) \<longrightarrow> g_submitter g = p"
  shows "snd (find_by_client p cl js found q) = drop_jobs (waiting_for p cl js) q"
  using assms
proof (induction js arbitrary: found q)
  case Nil
  then have "drop_jobs {} q = q"
    by (intro drop_jobs_id) (auto simp: q_ok_def)
  then show ?case
    by (simp add: waiting_for_def)
next
  case (Cons e js)
  obtain j job where e: "e = (j, job)"
    by fastforce
  show ?case
  proof (cases "waits_for p cl job")
    case False
    with Cons show ?thesis
      by (simp add: e waiting_for_Cons)
  next
    case True
    have c: "cancel_request p j q = drop_jobs {j} q"
      by (rule cancel_request_drop) (use Cons.prems e True in \<open>auto simp: waiting_for_Cons\<close>)
    have "snd (find_by_client p cl js (Some j) (drop_jobs {j} q)) = drop_jobs (waiting_for p cl js) (drop_jobs {j} q)"
    proof (rule Cons.IH)
      have "\<forall>k\<in>waiting_for p cl js. \<forall>g\<in>set q. k \<in> set (g_l g) \<longrightarrow> g_submitter g = p"
        using Cons.prems(3) unfolding e waiting_for_Cons by blast
      then show "\<forall>k\<in>waiting_for p cl js. \<forall>g\<in>set (drop_jobs {j} q). k \<in> set (g_l g) \<longrightarrow> g_submitter g = p"
        by (auto simp: drop_jobs_set)
    qed (use Cons.prems drop_jobs_q_ok in \<open>simp_all add: drop_jobs_concat\<close>)
    then show ?thesis
      using True by (simp add: e c drop_jobs_drop_jobs waiting_for_Cons)
  qed
qed

text \<open>The jobs of one request are cancelled together.\<close>

lemma slaves_ok_filter:
  assumes "slaves_ok M l" and "\<forall>j\<in>set l. \<forall>k\<in>set l. (\<exists>x y. M j = Some x \<and> M k = Some y \<and> j_localClientId y = j_localClientId x) \<longrightarrow> (j \<in> A \<longleftrightarrow> k \<in> A)"
  shows "slaves_ok M (filter (\<lambda>j. j \<notin> A) l)"
  using assms
proof (induction l)
  case (Cons j l)
  have "slaves_ok M (filter (\<lambda>j. j \<notin> A) l)"
    using Cons by simp
  moreover have "k \<in> set (filter (\<lambda>j. j \<notin> A) l) \<and> (\<exists>x. M k = Some x \<and> j_localClientId x = j_localClientId job)"
    if j: "j \<notin> A" and job: "M j = Some job" and k: "k \<in> set (j_masterJobFor job)" for job k
  proof -
    obtain y where "k \<in> set l" "M k = Some y" "j_localClientId y = j_localClientId job"
      using Cons.prems(1) job k by auto
    with Cons.prems(2) j job show ?thesis
      by auto
  qed
  ultimately show ?case
    by simp
qed simp

lemma queue_drop:
  assumes "queue_ok q M" and "A = {j. \<exists>job. M j = Some job \<and> waits_for p cl job}"
  shows "queue_ok (drop_jobs A q) M"
proof -
  have e: "(\<forall>j\<in>set (g_l g). entry_ok M g j) \<and> slaves_ok M (g_l g)" if "g \<in> set q" for g
    using assms(1) that by (simp add: queue_ok_def)
  have "slaves_ok M (filter (\<lambda>j. j \<notin> A) (g_l g))" if "g \<in> set q" for g
  proof (rule slaves_ok_filter)
    show "slaves_ok M (g_l g)"
      using e [OF that] by simp
    have "j_server x = None \<and> j_submitter x = g_submitter g" if "j \<in> set (g_l g)" "M j = Some x" for j x
      using e [OF \<open>g \<in> set q\<close>] that by (auto simp: entry_ok_def)
    then show "\<forall>j\<in>set (g_l g). \<forall>k\<in>set (g_l g).
        (\<exists>x y. M j = Some x \<and> M k = Some y \<and> j_localClientId y = j_localClientId x) \<longrightarrow> (j \<in> A \<longleftrightarrow> k \<in> A)"
      by (auto simp: assms(2) waits_for_def)
  qed
  moreover have "entry_ok M (g\<lparr>g_l := l\<rparr>) j = entry_ok M g j" for g l j
    by (simp add: entry_ok_def cong: option.case_cong)
  ultimately show ?thesis
    using assms(1) e drop_jobs_q_ok by (auto simp: queue_ok_def drop_jobs_concat drop_jobs_set)
qed

subsection \<open>The handler\<close>

text \<open>What follows the checks of \<open>handle_job_done\<close>.\<close>

definition finish_job :: "cs_ptr \<Rightarrow> job_ptr \<Rightarrow> job \<Rightarrow> job_done_msg \<Rightarrow> sched \<Rightarrow> (bool \<times> sched) option" where
  "finish_job p j job m s0 = do {
     s1 \<leftarrow> upd p (\<lambda>c. c\<lparr>cs_clientCount := sint (jd_client_count m)\<rparr>) s0;
     s2 \<leftarrow> (case j_server job of
              Some x \<Rightarrow> upd x (removeJob j) s1
            | None \<Rightarrow> if jd_exitcode m = 0 then None else Some s1);
     s3 \<leftarrow> add_job_stats job m s2;
     s4 \<leftarrow> notify_monitors (MonJobDoneMsg m) s3;
     s5 \<leftarrow> delete_job j s4;
     Some (True, s5)
   }"

lemma finish_job_inv:
  assumes "consistent s" and "p \<in> set (css s)" and "job_at s j = Some job" and "j \<notin> set (concat (map g_l (job_requests s)))"
    and "j_server job \<noteq> None \<or> jd_exitcode m \<noteq> 0"
  shows "\<exists>s'. finish_job p j job m s = Some (True, s') \<and> consistent s' \<and> css s' = css s \<and> jobs s' = jobs_erase j (jobs s) \<and>
    job_requests s' = job_requests s"
proof -
  obtain c where c: "heap s p = Some c"
    using inv_css [OF assms(1,2)] by blast
  obtain s1 where s1: "upd p (\<lambda>c. c\<lparr>cs_clientCount := sint (jd_client_count m)\<rparr>) s = Some s1" "consistent s1" "core_same s s1"
    using upd_inv [OF assms(1) c neutrals(1)] by metis
  note f1 = core_same_fields [OF s1(3)]
  have b1: "base_ok {} {} s1" and j1: "job_at s1 j = Some job"
    using inv_base [OF s1(2)] assms(3) by (simp_all add: f1)
  obtain s2 where s2: "(case j_server job of Some x \<Rightarrow> upd x (removeJob j) s1
        | None \<Rightarrow> if jd_exitcode m = 0 then None else Some s1) = Some s2" "base_ok {} {j} s2" "keep s1 s2" "jobs s2 = jobs s1"
  proof (cases "j_server job")
    case None
    then show thesis
      using forget_job_base [OF b1 j1] keep_refl assms(5) by (intro that [of s1]) auto
  next
    case (Some x)
    obtain s2 where "upd x (removeJob j) s1 = Some s2" "base_ok {} {j} s2" "keep s1 s2" "jobs s2 = jobs s1"
      using remove_job_base [OF b1 j1 Some] by metis
    with Some show thesis
      by (intro that [of s2]) simp_all
  qed
  have j2: "job_at s2 j = Some job"
    using j1 job_at_eq [OF s2(4)] by simp
  have "heap s2 x \<noteq> None" if "j_server job = Some x" for x
    using base_heap [OF s2(2) base_job(3) [OF s2(2) j2 that]] .
  then obtain s3 where s3: "add_job_stats job m s2 = Some s3" "core_same s2 s3"
    using add_job_stats_core [OF assms(5), of s2] base_heap [OF s2(2) base_job(2) [OF s2(2) j2]] by blast
  have b3: "base_ok {} {j} s3"
    using core_same_base [OF s3(2) s2(2)] .
  obtain s4 where s4: "notify_monitors (MonJobDoneMsg m) s3 = Some s4" "talk s3 s4"
    using notify_talk [OF base_lists [OF b3] plain_simps(5)] .
  note core4 = talk_core [OF s4(2)]
  note f4 = core_same_fields [OF core4] core_same_fields [OF s3(2)]
  have "job_at s4 j = Some job"
    using j2 by (simp add: f4)
  then obtain s5 where s5: "delete_job j s4 = Some s5" "base_ok {} {} s5" "keep s4 s5" "jobs s5 = jobs_erase j (jobs s4)"
    using delete_job_base [of "{}" j "{}" s4 job] core_same_base [OF core4 b3] by auto
  have e5: "css s5 = css s" "jobs s5 = jobs_erase j (jobs s)" "job_requests s5 = job_requests s"
    using keep_fields [OF s5(3)] keep_fields [OF s2(3)] s5(4) s2(4) by (simp_all add: f4 f1)
  have "job_at s5 = (job_at s)(j := None)"
    using job_at_erase [of j s] e5(2) by (simp add: job_at_def fun_eq_iff)
  then have "queue_ok (job_requests s5) (job_at s5)"
    using queue_ok_cong [OF inv_queue [OF assms(1)], of "(job_at s)(j := None)"] assms(4) by (auto simp: e5)
  then have "consistent s5"
    using s5(2) by (simp add: consistent_def)
  moreover have "finish_job p j job m s = Some (True, s5)"
    using s1(1) s2(1) s3(1) s4(1) s5(1) by (simp add: finish_job_def cong: option.case_cong)
  ultimately show ?thesis
    using e5 by blast
qed

text \<open>
  The messages that the daemons send: with the id of the client for a request that was cancelled, and with
  the id of the job for one that has been assigned.
\<close>

definition done_ok :: "job_done_msg \<Rightarrow> sched \<Rightarrow> bool" where
  "done_ok m s \<longleftrightarrow> (if unknown_job_client_id m \<noteq> 0 then \<not> is_from_server m \<and> jd_exitcode m \<noteq> 0
     else \<forall>job. job_at s (jd_job_id m) = Some job \<longrightarrow> j_server job \<noteq> None)"

lemma not_queued:
  assumes "consistent s" and "job_at s j = Some job" and "j_server job \<noteq> None"
  shows "j \<notin> set (concat (map g_l (job_requests s)))"
  using inv_queue [OF assms(1)] assms(2,3) by (fastforce simp: queue_ok_def entry_ok_def)

lemma handle_job_done_known:
  assumes "consistent s" and "p \<in> set (css s)" and "\<not> asserts s" and "unknown_job_client_id m = 0" and "done_ok m s"
  shows "\<exists>r s'. handle_job_done p m s = Some (r, s') \<and> consistent s'"
proof (cases "job_at s (jd_job_id m)")
  case None
  then have "handle_job_done p m s = Some (False, s)"
    using assms(4) by (simp add: handle_job_done_def)
  with assms(1) show ?thesis
    by blast
next
  case (Some job)
  let ?j = "jd_job_id m"
  obtain x where x: "j_server job = Some x"
    using assms(4,5) Some by (auto simp: done_ok_def)
  obtain c d e where h: "heap s x = Some c" "heap s (j_submitter job) = Some d" "heap s p = Some e"
    using inv_css [OF assms(1)] base_job [OF inv_base [OF assms(1)] Some] x assms(2) by (metis Un_empty_right)
  obtain s1 where s1: "handle_end p s = Some s1" "consistent s1"
    using handle_end_inv [OF assms(1) h(3) assms(3)] by metis
  obtain s2 where s2: "finish_job p ?j job m s = Some (True, s2)" "consistent s2"
    using finish_job_inv [OF assms(1,2) Some not_queued [OF assms(1) Some], of m] x by auto
  have "handle_job_done p m s = (if is_from_server m \<and> j_server job \<noteq> Some p \<or> \<not> is_from_server m \<and> j_submitter job \<noteq> p
      then Some (False, s1) else Some (True, s2))"
    using assms(4) Some x h s1(1) s2(1) by (auto simp: handle_job_done_def finish_job_def)
  with s1(2) s2(2) show ?thesis
    by auto
qed

lemma is_from_server_set_job_id: "is_from_server (set_job_id j m) = is_from_server m"
proof -
  have "NOT (2 :: u32) AND 1 = 1"
    by code_simp
  then show ?thesis
    by (simp add: is_from_server_def set_job_id_def and.assoc)
qed

lemma handle_job_done_cancelled:
  assumes "consistent s" and "p \<in> set (css s)" and "unknown_job_client_id m \<noteq> 0" and "done_ok m s"
  shows "\<exists>r s'. handle_job_done p m s = Some (r, s') \<and> consistent s' \<and> css s' = css s \<and>
    job_requests s' = drop_jobs (waiting_for p (unknown_job_client_id m) (jobs s)) (job_requests s)"
proof -
  let ?cl = "unknown_job_client_id m" and ?q = "job_requests s"
  let ?A = "waiting_for p ?cl (jobs s)"
  let ?s = "s\<lparr>job_requests := drop_jobs ?A ?q\<rparr>"
  have srt: "sorted_wrt (<) (map fst (jobs s))"
    using inv_base [OF assms(1)] by (simp add: base_ok_def)
  have A: "?A = {j. \<exists>job. job_at s j = Some job \<and> waits_for p ?cl job}"
    by (simp add: waiting_for_def job_at_iff [OF srt])
  have q: "queue_ok ?q (job_at s)"
    by (rule inv_queue [OF assms(1)])
  have "\<forall>j\<in>?A. \<forall>g\<in>set ?q. j \<in> set (g_l g) \<longrightarrow> g_submitter g = p"
    using q unfolding A by (fastforce simp: queue_ok_def entry_ok_def waits_for_def)
  then have snd: "snd (find_by_client p ?cl (jobs s) None ?q) = drop_jobs ?A ?q"
    using q by (intro find_by_client_snd) (auto simp: queue_ok_def)
  have i: "consistent ?s"
    using inv_base [OF assms(1)] queue_drop [OF q A] by (simp add: consistent_def base_queue)
  show ?thesis
  proof (cases "?A = {}")
    case True
    then have "find_by_client p ?cl (jobs s) None ?q = (None, drop_jobs ?A ?q)"
      using find_by_client_fst [of p ?cl "jobs s" None ?q] snd by (simp add: prod_eq_iff)
    then have "handle_job_done p m s = Some (False, ?s)"
      using assms(3) by (simp add: handle_job_done_def)
    with i show ?thesis
      by auto
  next
    case False
    then obtain j where j: "j \<in> ?A" "find_by_client p ?cl (jobs s) None ?q = (Some j, drop_jobs ?A ?q)"
      using find_by_client_fst [of p ?cl "jobs s" None ?q] snd by (auto simp: prod_eq_iff)
    obtain job where job: "job_at s j = Some job" "waits_for p ?cl job"
      using j(1) unfolding A by blast
    have "j \<notin> set (concat (map g_l (job_requests ?s)))"
      using j(1) by (simp add: drop_jobs_concat)
    moreover have "jd_exitcode (set_job_id j m) \<noteq> 0" "\<not> is_from_server m"
      using assms(3,4) by (simp_all add: done_ok_def set_job_id_def)
    ultimately obtain s' where s': "finish_job p j job (set_job_id j m) ?s = Some (True, s')" "consistent s'" "css s' = css s"
        "job_requests s' = drop_jobs ?A ?q"
      using finish_job_inv [OF i, of p j job "set_job_id j m"] assms(2) job(1) by auto
    have "handle_job_done p m s = Some (True, s')"
      using assms(3) j(2) job \<open>\<not> is_from_server m\<close> s'(1)
      by (simp add: handle_job_done_def finish_job_def waits_for_def is_from_server_set_job_id)
    with s' show ?thesis
      by blast
  qed
qed

lemma handle_job_done_inv:
  assumes "consistent s" and "p \<in> set (css s)" and "\<not> asserts s" and "done_ok m s"
  shows "\<exists>r s'. handle_job_done p m s = Some (r, s') \<and> consistent s'"
  using handle_job_done_known [OF assms(1-3) _ assms(4)] handle_job_done_cancelled [OF assms(1,2) _ assms(4)] by blast

end
