(* ===== verification/SchedReach.thy ===== *)
theory SchedReach
  imports SchedRun
begin

text \<open>
  Logins, the dispatch of messages, the periodic work, and the states the scheduler can reach: all of them
  are consistent, and in a consistent state no handler uses a deleted object.
\<close>

section \<open>Logins\<close>

lemma unknown_upd:
  assumes "consistent s" and "heap s p = Some c" and "cs_type c = UNKNOWN" and "cs_jobList c' = cs_jobList c"
    and "cs_submittedJobsCount c' = cs_submittedJobsCount c"
  shows "consistent (s\<lparr>heap := (heap s)(p \<mapsto> c')\<rparr>)"
proof -
  have "lists_ok (s\<lparr>heap := (heap s)(p \<mapsto> c')\<rparr>)"
    using inv_lists [OF assms(1)] assms(2,3) by (auto simp: lists_ok_def live_def)
  with assms show ?thesis
    by (auto simp: consistent_def base_ok_def server_ok_def)
qed

text \<open>A daemon that is not yet among the servers has no jobs.\<close>

definition outside :: "cs_ptr \<Rightarrow> sched \<Rightarrow> bool" where
  "outside p s \<longleftrightarrow> p \<notin> set (css s) \<and> live s DAEMON p"

lemma outside_core: "core_same s s' \<Longrightarrow> consistent s \<Longrightarrow> outside p s \<Longrightarrow> outside p s'"
  using keep_live [OF core_keep] inv_lists by (fastforce simp: outside_def core_same_fields)

lemma end_stale_inv:
  assumes "consistent s" and "\<not> asserts s" and "outside p s" and "set xs \<subseteq> set (css s)" and "distinct xs"
  shows "\<exists>s'. end_stale ip node xs s = Some s' \<and> consistent s' \<and> outside p s' \<and> \<not> asserts s'"
  using assms
proof (induction xs arbitrary: s)
  case (Cons x xs)
  obtain old where old: "heap s x = Some old"
    using inv_css [OF Cons.prems(1)] Cons.prems(4) by auto
  show ?case
  proof (cases "cs_ip old = ip \<and> cs_nodeName old = node")
    case True
    obtain s1 where s1: "handle_end x s = Some s1" "consistent s1" "others_same x s s1" "css s1 = removeAll x (css s)"
      using handle_end_inv [OF Cons.prems(1) old Cons.prems(2)] by metis
    have "p \<noteq> x"
      using Cons.prems(3,4) by (auto simp: outside_def)
    then have "outside p s1" "\<not> asserts s1" "set xs \<subseteq> set (css s1)"
      using s1(3,4) Cons.prems by (auto simp: outside_def others_same_def)
    with Cons.IH [OF s1(2)] Cons.prems(5) True old s1(1) show ?thesis
      by auto
  next
    case False
    with Cons old show ?thesis
      by auto
  qed
qed simp

lemma join_css:
  assumes "consistent s" and "outside p s"
  shows "consistent (s\<lparr>css := css s @ [p]\<rparr>)"
proof -
  have "lists_ok (s\<lparr>css := css s @ [p]\<rparr>)"
    using inv_lists [OF assms(1)] assms(2) by (auto simp: lists_ok_def live_def outside_def)
  moreover have "job_ok D j job \<Longrightarrow> job_ok (insert p D) j job" for D j job
    by (auto simp: job_ok_def split: option.splits)
  ultimately show ?thesis
    using assms(1) by (auto simp: consistent_def base_ok_def)
qed

lemma try_login_daemon:
  assumes "consistent s" and "\<not> asserts s" and "heap s p = Some c" and "cs_type c = UNKNOWN"
  shows "\<exists>r s'. try_login p (LoginMsg m) s = Some (r, s') \<and> consistent s' \<and> \<not> asserts s'"
proof -
  let ?c1 = "(login_fields m (c\<lparr>cs_type := DAEMON\<rparr>))\<lparr>cs_hostId := hostIdCounter s + 1\<rparr>"
  let ?s1 = "s\<lparr>heap := (heap s)(p \<mapsto> ?c1), hostIdCounter := hostIdCounter s + 1\<rparr>"
  have up: "upd p (\<lambda>c. c\<lparr>cs_type := DAEMON\<rparr>) s = Some (s\<lparr>heap := (heap s)(p \<mapsto> c\<lparr>cs_type := DAEMON\<rparr>)\<rparr>)"
    using assms(3) by (simp add: upd_def)
  have "consistent (s\<lparr>heap := (heap s)(p \<mapsto> ?c1)\<rparr>)"
    by (rule unknown_upd [OF assms(1,3,4)]) (simp_all add: login_fields_def)
  then have i1: "consistent ?s1"
    by (simp only: inv_misc(6) simp_thms)
  have "p \<notin> set (css s)"
    using inv_css [OF assms(1), of p] assms(3,4) by auto
  then have o1: "outside p ?s1"
    by (simp add: outside_def live_def login_fields_def)
  show ?thesis
  proof (cases "list_ex (matches ?c1) (block_css s)")
    case True
    then have "handle_login p m (s\<lparr>heap := (heap s)(p \<mapsto> c\<lparr>cs_type := DAEMON\<rparr>)\<rparr>) = Some (False, ?s1)"
      using assms(2) by (simp add: handle_login_def pick_new_id_def)
    moreover obtain s2 where "handle_end p ?s1 = Some s2" "consistent s2" "others_same p ?s1 s2"
      using handle_end_inv [OF i1, of p ?c1] assms(2) by auto
    ultimately show ?thesis
      using up assms(2) by (auto simp: try_login_def others_same_def)
  next
    case False
    obtain s2 where s2: "handle_monitor_stats p None ?s1 = Some s2" "consistent s2" "core_same ?s1 s2"
      using handle_monitor_stats_inv [OF i1, of p ?c1] by auto
    have "outside p s2" "\<not> asserts s2" "distinct (css s2)"
      using outside_core [OF s2(3) i1 o1] assms(2) inv_lists [OF s2(2)] by (simp_all add: core_same_fields [OF s2(3)] lists_ok_def)
    then obtain s3 where s3: "end_stale (cs_ip ?c1) (cs_nodeName ?c1) (css s2) s2 = Some s3" "consistent s3" "outside p s3" "\<not> asserts s3"
      using end_stale_inv [OF s2(2)] by blast
    let ?s3 = "s3\<lparr>css := css s3 @ [p]\<rparr>"
    have i3: "consistent ?s3"
      using join_css [OF s3(2,3)] .
    obtain c3 where c3: "heap ?s3 p = Some c3" "cs_type c3 = DAEMON"
      using s3(3) by (auto simp: outside_def live_def)
    obtain s4 where s4: "send_conf p ?s3 = Some s4" "consistent s4" "core_same ?s3 s4"
      using send_conf_inv [OF i3 c3(1)] .
    obtain c4 where "heap s4 p = Some c4"
      using core_heap [OF s4(3) i3 c3(1)] c3(2) by auto
    then obtain s5 where s5: "upd p (\<lambda>c. c\<lparr>cs_state := LOGGEDIN\<rparr>) s4 = Some s5" "consistent s5" "core_same s4 s5"
      using upd_inv [OF s4(2) _ neutrals(12)] by metis
    have "handle_login p m (s\<lparr>heap := (heap s)(p \<mapsto> c\<lparr>cs_type := DAEMON\<rparr>)\<rparr>) = Some (True, s4)"
      using assms(2) False s2(1) s3(1) s4(1) by (simp add: handle_login_def pick_new_id_def)
    then have "try_login p (LoginMsg m) s = Some (True, s5)"
      using up s5(1) by (simp add: try_login_def)
    then show ?thesis
      using s5(2) s3(4) by (auto simp: core_same_fields [OF s5(3)] core_same_fields [OF s4(3)])
  qed
qed

lemma stats_all_inv:
  assumes "consistent s" and "set xs \<subseteq> set (css s)"
  shows "\<exists>s'. stats_all xs s = Some s' \<and> consistent s' \<and> core_same s s'"
  using assms
proof (induction xs arbitrary: s)
  case (Cons x xs)
  obtain c where c: "heap s x = Some c"
    using inv_css [OF Cons.prems(1)] Cons.prems(2) by auto
  obtain s1 where s1: "handle_monitor_stats x None s = Some s1" "consistent s1" "core_same s s1"
    using handle_monitor_stats_inv [OF Cons.prems(1) c] .
  with Cons.IH [OF s1(2)] Cons.prems(2) show ?case
    by (auto simp: core_same_fields [OF s1(3)] intro: core_same_trans)
qed (simp add: core_same_refl)

lemma join_monitors:
  assumes "consistent s" and "live s MONITOR p" and "p \<notin> set (monitors s)"
  shows "consistent (s\<lparr>monitors := monitors s @ [p]\<rparr>)"
proof -
  have "lists_ok (s\<lparr>monitors := monitors s @ [p]\<rparr>)"
    using inv_lists [OF assms(1)] assms(2,3) by (auto simp: lists_ok_def live_def)
  with assms(1) show ?thesis
    by (auto simp: consistent_def base_ok_def job_at_def [abs_def])
qed

text \<open>A monitor that logs in.\<close>

lemma try_login_monitor:
  assumes "consistent s" and "heap s p = Some c" and "cs_type c = UNKNOWN" and "try_login p MonLoginMsg s = Some (r, s')"
  shows "consistent s'"
proof -
  let ?c = "c\<lparr>cs_type := MONITOR\<rparr>"
  let ?s = "s\<lparr>heap := (heap s)(p \<mapsto> ?c)\<rparr>"
  have up: "upd p (\<lambda>c. c\<lparr>cs_type := MONITOR\<rparr>) s = Some ?s"
    using assms(2) by (simp add: upd_def)
  have i: "consistent ?s"
    by (rule unknown_upd [OF assms(1-3)]) simp_all
  have "p \<notin> set (monitors ?s)"
    using inv_lists [OF assms(1)] assms(2,3) by (auto simp: lists_ok_def live_def)
  then have i1: "consistent (?s\<lparr>monitors := monitors ?s @ [p]\<rparr>)"
    by (intro join_monitors [OF i]) (simp_all add: live_def)
  obtain s1 where s1: "stats_all (css ?s) (?s\<lparr>monitors := monitors ?s @ [p]\<rparr>) = Some s1" "consistent s1"
    using stats_all_inv [OF i1, of "css ?s"] by auto
  from assms(4) up s1(1) obtain d where d: "heap s1 p = Some d"
      "upd p (\<lambda>c. c\<lparr>cs_state := LOGGEDIN\<rparr>) (s1\<lparr>fd2cs := (fd2cs s1)(cs_fd d := None)\<rparr>) = Some s'"
    by (auto simp: try_login_def handle_mon_login_def bind_eq_Some_conv)
  then have "upd p (\<lambda>c. c\<lparr>cs_state := LOGGEDIN\<rparr>) (s1\<lparr>fd2cs := (fd2cs s1)(cs_fd d := None)\<rparr>) = Some s'" "heap (s1\<lparr>fd2cs := (fd2cs s1)(cs_fd d := None)\<rparr>) p = Some d" "consistent (s1\<lparr>fd2cs := (fd2cs s1)(cs_fd d := None)\<rparr>)"
    using s1(2) by simp_all
  then obtain s2 where "upd p (\<lambda>c. c\<lparr>cs_state := LOGGEDIN\<rparr>) (s1\<lparr>fd2cs := (fd2cs s1)(cs_fd d := None)\<rparr>) = Some s2" "consistent s2"
    using upd_inv [of "s1\<lparr>fd2cs := (fd2cs s1)(cs_fd d := None)\<rparr>" p d, OF _ _ neutrals(12)] by blast
  then show ?thesis
    using d(2) by simp
qed

lemma try_login_inv:
  assumes "consistent s" and "\<not> asserts s" and "heap s p = Some c" and "cs_type c = UNKNOWN" and "try_login p m s = Some (r, s')"
  shows "consistent s'"
proof -
  consider x where "m = LoginMsg x" | "m = MonLoginMsg" | "(case m of LoginMsg x \<Rightarrow> False | MonLoginMsg \<Rightarrow> False | _ \<Rightarrow> True)"
    by (cases m) auto
  then show ?thesis
  proof cases
    case 1
    then show ?thesis
      using try_login_daemon [OF assms(1-4), of x] assms(5) by auto
  next
    case 2
    then show ?thesis
      using try_login_monitor [OF assms(1,3,4)] assms(5) by simp
  next
    case 3
    then have "handle_end p s = Some s'"
      using assms(5) by (auto simp: try_login_def bind_eq_Some_conv split: msg.splits)
    then show ?thesis
      using handle_end_inv [OF assms(1,3,2)] by (metis option.inject)
  qed
qed

section \<open>Messages of a daemon\<close>

lemma handle_cs_request_inv:
  assumes "consistent s" and "p \<in> set (css s)" and "\<not> asserts s" and "fresh_ids (unat (gcs_count m)) s"
  shows "\<exists>s'. handle_cs_request p m s = Some (True, s') \<and> consistent s' \<and> css s' = css s \<and>
    pend (job_requests s') = (pend (job_requests s))((p, clamp_niceness (gcs_niceness m)) :=
      pend (job_requests s) (p, clamp_niceness (gcs_niceness m)) @ map (\<lambda>k. new_job_id s + of_nat k) [1..<Suc (unat (gcs_count m))])"
proof -
  obtain c where "heap s p = Some c"
    using inv_css [OF assms(1,2)] by blast
  then obtain s1 where s1: "upd p (\<lambda>c. c\<lparr>cs_clientCount := sint (gcs_client_count m)\<rparr>) s = Some s1" "consistent s1" "core_same s s1"
    using upd_inv [OF assms(1) _ neutrals(1)] by metis
  note f = core_same_fields [OF s1(3)]
  have "unat (gcs_count m) < 2 ^ 32"
    using unsigned_less [of "gcs_count m", where ?'a = nat] by simp
  then obtain s2 where "cs_request_loop p m (unat (gcs_count m)) None s1 = Some s2" "consistent s2" "css s2 = css s1"
      "pend (job_requests s2) = (pend (job_requests s1))((p, clamp_niceness (gcs_niceness m)) :=
         pend (job_requests s1) (p, clamp_niceness (gcs_niceness m)) @ map (\<lambda>k. new_job_id s1 + of_nat k) [1..<Suc (unat (gcs_count m))])"
    using cs_request_loop_inv [OF s1(2), of p "unat (gcs_count m)" m None] assms(2-4) by (auto simp: f fresh_ids_def master_ok_def)
  then show ?thesis
    using s1(1) by (simp add: handle_cs_request_def f del: upt_Suc)
qed

text \<open>
  What a daemon must not send: the result of a job that has not been assigned to a server, a request for so
  many jobs that ids are reused, and lines of text, which are for control connections.
\<close>

definition daemon_msg :: "msg \<Rightarrow> sched \<Rightarrow> bool" where
  "daemon_msg m s \<longleftrightarrow> (case m of JobDoneMsg x \<Rightarrow> done_ok x s | GetCSMsg x \<Rightarrow> fresh_ids (unat (gcs_count x)) s | TextMsg _ \<Rightarrow> False | _ \<Rightarrow> True)"

lemma ended:
  assumes "consistent s" and "p \<in> set (css s)" and "\<not> asserts s"
  shows "\<exists>s'. handle_end p s = Some s' \<and> consistent s'"
  using inv_css [OF assms(1,2)] handle_end_inv [OF assms(1) _ assms(3)] by metis

lemma dispatch_inv:
  assumes "consistent s" and "p \<in> set (css s)" and "\<not> asserts s" and "daemon_msg m s"
  shows "\<exists>r s'. dispatch p m s = Some (r, s') \<and> consistent s'"
proof (cases m)
  case (JobBeginMsg x)
  then show ?thesis
    using handle_job_begin_inv [OF assms(1,2)] by (simp add: dispatch_def)
next
  case (JobDoneMsg x)
  then show ?thesis
    using handle_job_done_inv [OF assms(1-3)] assms(4) by (simp add: dispatch_def daemon_msg_def)
next
  case PingMsg
  then show ?thesis
    using handle_ping_inv [OF assms(1,2)] by (auto simp: dispatch_def)
next
  case (StatsMsg x)
  then show ?thesis
    using handle_stats_inv [OF assms(1,2), of x] by (auto simp: dispatch_def)
next
  case (JobLocalBeginMsg x)
  then show ?thesis
    using handle_local_job_inv [OF assms(1,2), of x] by (auto simp: dispatch_def)
next
  case (JobLocalDoneMsg x)
  then show ?thesis
    using handle_local_job_done_inv [OF assms(1,2), of x] by (auto simp: dispatch_def)
next
  case (LoginMsg x)
  then show ?thesis
    using handle_relogin_inv [OF assms(1,2), of x] by (auto simp: dispatch_def)
next
  case (GetCSMsg x)
  then show ?thesis
    using handle_cs_request_inv [OF assms(1-3)] assms(4) by (fastforce simp: dispatch_def daemon_msg_def)
next
  case (BlacklistHostEnvMsg x)
  then show ?thesis
    using handle_blacklist_inv [OF assms(1,2), of x] by (auto simp: dispatch_def)
next
  case (TextMsg x)
  then show ?thesis
    using assms(4) by (simp add: daemon_msg_def)
qed (use ended [OF assms(1-3)] in \<open>auto simp: dispatch_def\<close>)

section \<open>Control connections\<close>

lemma inv_job:
  assumes "consistent s" and "job_at s j = Some job"
  shows "j_submitter job \<in> set (css s)" and "j_server job = Some x \<Longrightarrow> x \<in> set (css s)"
  using assms by (auto simp: consistent_def base_ok_def job_ok_def split: option.splits)

lemma inv_jobList:
  assumes "consistent s" and "heap s p = Some c" and "j \<in> set (cs_jobList c)"
  shows "job_at s j \<noteq> None"
  using assms by (fastforce simp: consistent_def base_ok_def server_ok_def assigned_def)

lemma dump_job_total:
  assumes "consistent s" and "job_at s j \<noteq> None"
  shows "\<exists>l. dump_job j s = Some l"
proof -
  obtain job where job: "job_at s j = Some job"
    using assms(2) by blast
  obtain sub where "heap s (j_submitter job) = Some sub"
    using inv_css [OF assms(1) inv_job(1) [OF assms(1) job]] by blast
  moreover have "\<exists>c. heap s x = Some c" if "j_server job = Some x" for x
    using inv_css [OF assms(1) inv_job(2) [OF assms(1) job that]] by blast
  ultimately show ?thesis
    using job by (cases "j_server job") (auto simp: dump_job_def)
qed

text \<open>Where the operations on a control connection leave the scheduler.\<close>

definition talked :: "cs_ptr \<Rightarrow> sched \<Rightarrow> (bool \<times> sched) option \<Rightarrow> bool" where
  "talked p s r \<longleftrightarrow> (\<exists>ok s'. r = Some (ok, s') \<and> consistent s' \<and> core_same s s' \<and> live s' LINE p)"

lemma talkedI:
  assumes "r = Some (ok, s')" and "consistent s'" and "core_same s s'" and "live s' LINE p"
  shows "talked p s r"
  using assms by (auto simp: talked_def)

lemma talkedE:
  assumes "talked p s r"
  obtains ok s' where "r = Some (ok, s')" and "consistent s'" and "core_same s s'" and "live s' LINE p"
  using assms by (auto simp: talked_def)

lemma talked_trans: "core_same s s' \<Longrightarrow> talked p s' r \<Longrightarrow> talked p s r"
  by (auto simp: talked_def intro: core_same_trans)

lemma line_text:
  assumes "consistent s" and "live s LINE p" and "t \<noteq> ''''"
  shows "talked p s (send_to b p (TextMsg t) s)"
proof -
  obtain c where c: "heap s p = Some c" "cs_type c = LINE"
    using assms(2) by (auto simp: live_def)
  obtain ok s' where s': "send_to b p (TextMsg t) s = Some (ok, s')" "consistent s'" "core_same s s'"
    using send_inv [OF assms(1) c(1), of "TextMsg t" b] assms(3) by (auto simp: plain_def)
  moreover have "live s' LINE p"
    using core_heap [OF s'(3) assms(1) c(1)] c(2) by (auto simp: live_def)
  ultimately show ?thesis
    by (rule talkedI)
qed

lemma send_lines_inv:
  assumes "consistent s" and "live s LINE p" and "'''' \<notin> set ls"
  shows "talked p s (send_lines p ls s)"
  using assms
proof (induction ls arbitrary: s)
  case (Cons l ls)
  obtain ok s1 where s1: "send_to True p (TextMsg l) s = Some (ok, s1)" "consistent s1" "core_same s s1" "live s1 LINE p"
    using line_text [OF Cons.prems(1,2), of l True] Cons.prems(3) by (auto elim: talkedE)
  then show ?case
    using Cons.IH [OF s1(2,4)] Cons.prems(3) by (cases ok) (auto intro: talked_trans talkedI)
qed (auto intro: talkedI core_same_refl)

lemma send_jobs_inv:
  assumes "consistent s" and "live s LINE p" and "\<forall>j\<in>set js. job_at s j \<noteq> None" and "indent \<noteq> ''''"
  shows "talked p s (send_jobs indent p js s)"
  using assms
proof (induction js arbitrary: s)
  case (Cons j js)
  obtain l where l: "dump_job j s = Some l"
    using dump_job_total [OF Cons.prems(1), of j] Cons.prems(3) by auto
  obtain ok s1 where s1: "send_to True p (TextMsg (indent @ l)) s = Some (ok, s1)" "consistent s1" "core_same s s1" "live s1 LINE p"
    using line_text [OF Cons.prems(1,2), of "indent @ l" True] Cons.prems(4) by (auto elim: talkedE)
  then show ?case
    using l Cons.IH [OF s1(2,4)] Cons.prems(3,4)
    by (cases ok) (auto simp: core_same_fields [OF s1(3)] intro: talked_trans talkedI)
qed (auto intro: talkedI core_same_refl)

lemma list_cs_inv:
  assumes "consistent s" and "live s LINE p" and "set xs \<subseteq> set (css s)"
  shows "talked p s (list_cs p xs s)"
  using assms
proof (induction xs arbitrary: s)
  case (Cons x xs)
  obtain c where c: "heap s x = Some c"
    using inv_css [OF Cons.prems(1)] Cons.prems(3) by auto
  obtain ok s1 where s1: "send_to True p (TextMsg (cs_line x c (clock s))) s = Some (ok, s1)" "consistent s1" "core_same s s1" "live s1 LINE p"
    using line_text [OF Cons.prems(1,2), of "cs_line x c (clock s)" True] by (auto simp: cs_line_def elim: talkedE)
  have "\<forall>j\<in>set (cs_jobList c). job_at s1 j \<noteq> None"
    using inv_jobList [OF Cons.prems(1) c] by (simp add: core_same_fields [OF s1(3)])
  then obtain ok2 s2 where s2: "send_jobs ''   '' p (cs_jobList c) s1 = Some (ok2, s2)" "consistent s2" "core_same s1 s2" "live s2 LINE p"
    using send_jobs_inv [OF s1(2,4), of "cs_jobList c" "''   ''"] by (auto elim: talkedE)
  have "core_same s s2"
    using core_same_trans [OF s1(3) s2(3)] .
  moreover have "talked p s2 (list_cs p xs s2)"
    using Cons.IH [OF s2(2,4)] Cons.prems(3) by (simp add: core_same_fields [OF s1(3)] core_same_fields [OF s2(3)])
  ultimately show ?case
    using c s1 s2(1,2,4) by (cases ok; cases ok2) (auto intro: talked_trans talkedI)
qed (auto intro: talkedI core_same_refl)

lemma find_cs_inv:
  assumes "consistent s" and "set xs \<subseteq> set (css s)"
  shows "\<exists>r. find_cs nm xs s = Some r \<and> (\<forall>x. r = Some x \<longrightarrow> x \<in> set xs)"
  using assms(2)
proof (induction xs)
  case (Cons x xs)
  obtain c where "heap s x = Some c"
    using inv_css [OF assms(1)] Cons.prems by auto
  then show ?case
    using Cons by auto
qed simp

text \<open>A command on a control connection leaves a consistent state in which the connection is still there.\<close>

definition line_kept :: "cs_ptr \<Rightarrow> sched \<Rightarrow> bool" where
  "line_kept p s \<longleftrightarrow> consistent s \<and> live s LINE p \<and> \<not> asserts s"

definition remove_host :: "cs_ptr \<Rightarrow> string \<Rightarrow> sched \<Rightarrow> sched option" where
  "remove_host p nm s = do {
      x \<leftarrow> find_cs nm (css s) s;
      (case x of
         None \<Rightarrow> Some s
       | Some y \<Rightarrow> do {
           (ok, s1) \<leftarrow> send_to True p (TextMsg (''removing host '' @ nm)) s;
           if ok then handle_end y s1 else Some s1
         })
    }"

lemma remove_hosts_Cons: "remove_hosts b p (nm # nms) s =
    (remove_host p nm (if b then s\<lparr>block_css := block_css s @ [nm]\<rparr> else s)) \<bind> remove_hosts b p nms"
  by (simp add: remove_host_def Let_def)

lemma remove_host_inv:
  assumes "line_kept p s"
  shows "\<exists>s'. remove_host p nm s = Some s' \<and> line_kept p s'"
proof -
  have i: "consistent s" "live s LINE p" "\<not> asserts s"
    using assms by (simp_all add: line_kept_def)
  obtain r where r: "find_cs nm (css s) s = Some r" "\<And>x. r = Some x \<Longrightarrow> x \<in> set (css s)"
    using find_cs_inv [OF i(1), of "css s" nm] by auto
  show ?thesis
  proof (cases r)
    case None
    then show ?thesis
      using assms r(1) by (simp add: remove_host_def)
  next
    case (Some y)
    obtain ok s1 where s1: "send_to True p (TextMsg (''removing host '' @ nm)) s = Some (ok, s1)" "consistent s1" "core_same s s1" "live s1 LINE p"
      using line_text [OF i(1,2), of "''removing host '' @ nm" True] by (auto elim: talkedE)
    obtain c where c: "heap s1 y = Some c" "cs_type c = DAEMON"
      using inv_css [OF s1(2), of y] r(2) [OF Some] by (auto simp: core_same_fields [OF s1(3)])
    have "p \<noteq> y"
      using c s1(4) by (auto simp: live_def)
    moreover obtain s2 where "handle_end y s1 = Some s2" "consistent s2" "others_same y s1 s2"
      using handle_end_inv [OF s1(2) c(1)] i(3) by (auto simp: core_same_fields [OF s1(3)])
    ultimately show ?thesis
      using Some r(1) s1 i(3) by (cases ok) (auto simp: remove_host_def line_kept_def others_same_def core_same_fields [OF s1(3)])
  qed
qed

lemma remove_hosts_inv: "line_kept p s \<Longrightarrow> \<exists>s'. remove_hosts b p nms s = Some s' \<and> line_kept p s'"
proof (induction nms arbitrary: s)
  case (Cons nm nms)
  let ?s = "if b then s\<lparr>block_css := block_css s @ [nm]\<rparr> else s"
  have "line_kept p ?s"
    using Cons.prems by (simp add: line_kept_def live_def)
  then show ?case
    using remove_host_inv [of p ?s nm] Cons.IH by (fastforce simp only: remove_hosts_Cons bind.bind_lunit)
qed simp

definition done_fine :: "(bool \<times> sched) option \<Rightarrow> bool" where
  "done_fine r \<longleftrightarrow> (\<exists>ok s'. r = Some (ok, s') \<and> consistent s')"

lemma done_fine_if: "done_fine r \<Longrightarrow> done_fine r' \<Longrightarrow> done_fine (if b then r else r')"
  by simp

lemma done_line_inv:
  assumes "\<exists>ok s'. r = Some (ok, s') \<and> line_kept p s'"
  shows "done_fine (done_line p r)"
proof -
  obtain ok s1 where r: "r = Some (ok, s1)" "consistent s1" "live s1 LINE p"
    using assms by (auto simp: line_kept_def)
  then show ?thesis
    using line_text [OF r(2,3), of "''200 done''" True] by (cases ok) (auto simp: done_line_def done_fine_def elim: talkedE)
qed

lemma talked_kept: "talked p s r \<Longrightarrow> \<not> asserts s \<Longrightarrow> \<exists>ok s'. r = Some (ok, s') \<and> line_kept p s'"
  by (auto simp: talked_def line_kept_def core_same_fields)

lemmas line_done = done_line_inv [OF talked_kept]

lemma handle_line_inv:
  assumes "consistent s" and "live s LINE p" and "\<not> asserts s" and "case split_string blanks t of [] \<Rightarrow> True | w # _ \<Rightarrow> map tolower w \<noteq> ''internals''"
  shows "\<exists>ok s'. handle_line p t s = Some (ok, s') \<and> consistent s'"
proof -
  let ?cmd = "case split_string blanks t of [] \<Rightarrow> '''' | w # _ \<Rightarrow> map tolower w" and ?args = "tl (split_string blanks t)"
  obtain c where c: "heap s p = Some c" "cs_type c = LINE"
    using assms(2) by (auto simp: live_def)
  obtain s1 where s1: "upd p (\<lambda>c. c\<lparr>cs_last_talk := clock s\<rparr>) s = Some s1" "consistent s1" "core_same s s1"
      "heap s1 p = Some (c\<lparr>cs_last_talk := clock s\<rparr>)"
    using upd_inv [OF assms(1) c(1) neutrals(10)] .
  have l: "live s1 LINE p" and a: "\<not> asserts s1"
    using s1(4) c(2) assms(3) by (simp_all add: live_def core_same_fields [OF s1(3)])
  have kept: "line_kept p s1"
    using s1(2) l a by (simp add: line_kept_def)
  have js: "\<forall>j\<in>set (map fst (jobs s1)). job_at s1 j \<noteq> None"
    by (auto simp: job_at_def map_of_eq_None_iff)
  have "?cmd \<noteq> ''internals''"
    using assms(4) by (cases "split_string blanks t") simp_all
  then have eq: "handle_line p t s = (
     if ?cmd = ''listcs'' then done_line p (list_cs p (css s1) s1)
     else if ?cmd = ''listblocks'' then done_line p (send_lines p (map (\<lambda>b. ''   '' @ b) (block_css s1)) s1)
     else if ?cmd = ''listjobs'' then done_line p (send_jobs '' '' p (map fst (jobs s1)) s1)
     else if ?cmd = ''quit'' \<or> ?cmd = ''exit'' then map_option (Pair False) (handle_end p s1)
     else if ?cmd = ''removecs'' \<or> ?cmd = ''blockcs'' then
       (if ?args = [] then done_line p (send_lines p [''401 Sure. But which hosts?''] s1)
        else done_line p (map_option (Pair True) (remove_hosts (?cmd = ''blockcs'') p ?args s1)))
     else if ?cmd = ''unblockcs'' then
       (if ?args = [] then done_line p (send_lines p [''401 Sure. But which host?''] s1)
        else done_line p (Some (True, s1\<lparr>block_css := unblock ?args (block_css s1)\<rparr>)))
     else if ?cmd = ''help'' then done_line p (send_lines p [help_text] s1)
     else done_line p (send_lines p [''Invalid command '' @ [CHR 0x27] @ t @ [CHR 0x27]] s1))"
    unfolding handle_line_def Let_def s1(1) by (simp only: bind.bind_lunit if_False simp_thms)
  have texts: "done_fine (done_line p (send_lines p ls s1))" if "'''' \<notin> set ls" for ls
    by (rule line_done [OF send_lines_inv [OF s1(2) l that] a])
  have hosts: "done_fine (done_line p (map_option (Pair True) (remove_hosts b p nms s1)))" for b nms
    by (rule done_line_inv) (use remove_hosts_inv [OF kept, of b nms] in auto)
  have unblocked: "done_fine (done_line p (Some (True, s1\<lparr>block_css := b\<rparr>)))" for b
    by (rule done_line_inv) (use kept in \<open>auto simp: line_kept_def live_def\<close>)
  have quits: "done_fine (map_option (Pair False) (handle_end p s1))"
    unfolding done_fine_def using handle_end_inv [OF s1(2,4) a] by (metis option.simps(9))
  have "done_fine (handle_line p t s)"
    unfolding eq
    by (intro done_fine_if texts hosts unblocked quits line_done [OF list_cs_inv [OF s1(2) l subset_refl] a]
        line_done [OF send_jobs_inv [OF s1(2) l js] a]) (auto simp: help_text_def)
  then show ?thesis
    by (simp add: done_fine_def)
qed

section \<open>One message\<close>

text \<open>Reading from the connection changes nothing but the channel.\<close>

lemma chan_inv:
  assumes "consistent s" and "heap s p = Some c"
  shows "consistent (s\<lparr>heap := (heap s)(p \<mapsto> c\<lparr>cs_chan := ch\<rparr>)\<rparr>)"
    and "core_same s (s\<lparr>heap := (heap s)(p \<mapsto> c\<lparr>cs_chan := ch\<rparr>)\<rparr>)"
proof -
  have "neutral (\<lambda>c. c\<lparr>cs_chan := ch\<rparr>)"
    by (simp add: neutral_def)
  from upd_inv [OF assms this] show "consistent (s\<lparr>heap := (heap s)(p \<mapsto> c\<lparr>cs_chan := ch\<rparr>)\<rparr>)"
    and "core_same s (s\<lparr>heap := (heap s)(p \<mapsto> c\<lparr>cs_chan := ch\<rparr>)\<rparr>)"
    using assms(2) by (simp_all add: upd_def)
qed

definition next_msg :: "cs_ptr \<Rightarrow> sched \<Rightarrow> msg option" where
  "next_msg p s = (case heap s p of None \<Rightarrow> None | Some c \<Rightarrow> fst (get_msg (sc_libs s) 0 True (cs_chan c)))"

lemma daemon_msg_heap: "daemon_msg m (s\<lparr>heap := h\<rparr>) = daemon_msg m s"
  by (cases m) (simp_all add: daemon_msg_def done_ok_def fresh_ids_def)

lemma handle_activity_daemon:
  assumes "consistent s" and "p \<in> set (css s)" and "\<not> asserts s" and "heap s p = Some c" and "cs_state c = LOGGEDIN"
    and "\<And>m. next_msg p s = Some m \<Longrightarrow> daemon_msg m s"
  shows "\<exists>r s'. handle_activity p s = Some (r, s') \<and> consistent s'"
proof -
  obtain x ch where g: "get_msg (sc_libs s) 0 True (cs_chan c) = (x, ch)"
    by fastforce
  let ?s = "s\<lparr>heap := (heap s)(p \<mapsto> c\<lparr>cs_chan := ch\<rparr>)\<rparr>"
  have i: "consistent ?s"
    using chan_inv(1) [OF assms(1,4)] .
  show ?thesis
  proof (cases x)
    case None
    then show ?thesis
      using g assms(2-4) ended [OF i, of p] by (auto simp: handle_activity_def)
  next
    case (Some m)
    then have "daemon_msg m ?s"
      using assms(4,6) g by (simp add: next_msg_def daemon_msg_heap)
    then show ?thesis
      using g assms(2-5) Some dispatch_inv [OF i, of p m] by (simp add: handle_activity_def)
  qed
qed

section \<open>New connections\<close>

text \<open>Whoever is not a connected server has submitted no job and runs none.\<close>

lemma no_jobs:
  assumes "consistent s" and "p \<notin> set (css s)"
  shows "assigned (job_at s) p = {}" and "submitted (job_at s) p = {}"
  using inv_job [OF assms(1)] assms(2) by (auto simp: assigned_def submitted_def)

text \<open>The branch of \<open>main\<close> for a connection that speaks the protocol.\<close>

definition accept_cs :: "cs_ptr \<Rightarrow> chan \<Rightarrow> string \<Rightarrow> string \<Rightarrow> int \<Rightarrow> sched \<Rightarrow> sched" where
  "accept_cs p ch name ip fd s =
     s\<lparr>heap := (heap s)(p \<mapsto> (CompileServer_new ch name ip fd)\<lparr>cs_last_talk := clock s\<rparr>), fd2cs := (fd2cs s)(fd \<mapsto> p)\<rparr>"

lemma accept_cs_inv:
  assumes "consistent s" and "heap s p = None"
  shows "consistent (accept_cs p ch name ip fd s)"
proof -
  let ?c = "(CompileServer_new ch name ip fd)\<lparr>cs_last_talk := clock s\<rparr>"
  have out: "p \<notin> set (css s)" "p \<notin> set (monitors s)" "p \<notin> set (controls s)"
    using inv_lists [OF assms(1)] assms(2) by (auto simp: lists_ok_def live_def)
  have "lists_ok (accept_cs p ch name ip fd s)"
    using inv_lists [OF assms(1)] out by (auto simp: accept_cs_def lists_ok_def live_def)
  moreover have "server_ok {} {} (job_at s) p ?c"
    using no_jobs [OF assms(1) out(1)] by (simp add: server_ok_def CompileServer_new_def)
  ultimately show ?thesis
    using assms(1) by (auto simp: consistent_def base_ok_def accept_cs_def job_at_def [abs_def])
qed

lemma control_login_inv:
  assumes "consistent s" and "heap s p = Some c" and "cs_type c = UNKNOWN" and "\<not> asserts s"
  shows "\<exists>r s'. handle_control_login p s = Some (r, s') \<and> consistent s'"
proof -
  let ?c = "c\<lparr>cs_type := LINE, cs_last_talk := clock s, cs_state := LOGGEDIN\<rparr>"
  let ?s = "s\<lparr>heap := (heap s)(p \<mapsto> ?c)\<rparr>"
  have i: "consistent ?s"
    by (rule unknown_upd [OF assms(1-3)]) simp_all
  have "p \<notin> set (controls s)"
    using inv_lists [OF assms(1)] assms(2,3) by (auto simp: lists_ok_def live_def)
  then have "lists_ok (?s\<lparr>controls := controls ?s @ [p]\<rparr>)"
    using inv_lists [OF i] by (auto simp: lists_ok_def live_def)
  then have "consistent (?s\<lparr>controls := controls ?s @ [p]\<rparr>)"
    using i by (auto simp: consistent_def base_ok_def job_at_def [abs_def])
  from line_text [OF this, of p "control_banner (?s\<lparr>controls := controls ?s @ [p]\<rparr>)" True] show ?thesis
    using assms(2,4) by (auto simp: handle_control_login_def upd_def live_def control_banner_def elim: talkedE)
qed

section \<open>Periodic work\<close>

lemma set_cs_inv:
  assumes "consistent s" and "heap s p = Some c" and "cs_type c' = cs_type c" and "cs_submittedJobsCount c' = cs_submittedJobsCount c"
    and "cs_jobList c' = cs_jobList c"
  shows "consistent (s\<lparr>heap := (heap s)(p \<mapsto> c')\<rparr>)" and "core_same s (s\<lparr>heap := (heap s)(p \<mapsto> c')\<rparr>)"
proof -
  have "neutral (\<lambda>x. if x = c then c' else x)"
    using assms(3-5) by (simp add: neutral_def)
  from upd_inv [OF assms(1,2) this] show "consistent (s\<lparr>heap := (heap s)(p \<mapsto> c')\<rparr>)" "core_same s (s\<lparr>heap := (heap s)(p \<mapsto> c')\<rparr>)"
    using assms(2) by (simp_all add: upd_def)
qed

lemma startInConnectionTest_fields:
  assumes "startInConnectionTest now fd r c = Some c'"
  shows "cs_type c' = cs_type c" and "cs_submittedJobsCount c' = cs_submittedJobsCount c" and "cs_jobList c' = cs_jobList c"
    and "cs_state c' = cs_state c"
  using assms
  by (auto simp: startInConnectionTest_def updateInConnectivity_def Let_def split: if_splits connect_res.splits option.splits)

lemma conn_test_inv:
  assumes "consistent s" and "conn_test p s = Some s'"
  shows "consistent s'" and "core_same s s'"
proof -
  let ?r = "case connects s of [] \<Rightarrow> (3, ConnProgress) | x # _ \<Rightarrow> x"
  obtain c c' where c: "heap s p = Some c" "startInConnectionTest (clock s) (fst ?r) (snd ?r) c = Some c'"
      "s' = s\<lparr>heap := (heap s)(p \<mapsto> c'), connects := tl (connects s)\<rparr>"
    using assms(2) by (auto simp: conn_test_def Let_def bind_eq_Some_conv)
  note k = set_cs_inv [OF assms(1) c(1) startInConnectionTest_fields(1-3) [OF c(2)]]
  show "consistent s'"
    using k(1) unfolding c(3) by simp
  show "core_same s s'"
    using k(2) unfolding c(3) by (simp add: core_same_def)
qed

text \<open>What pruning one connection leaves.\<close>

definition pruned :: "cs_ptr \<Rightarrow> sched \<Rightarrow> sched \<Rightarrow> bool" where
  "pruned p s s' \<longleftrightarrow> consistent s' \<and> \<not> asserts s' \<and> set (css s) - {p} \<subseteq> set (css s')"

lemma pruned_core: "core_same s s' \<Longrightarrow> consistent s' \<Longrightarrow> \<not> asserts s \<Longrightarrow> pruned p s s'"
  by (auto simp: pruned_def core_same_fields)

lemma pruned_end:
  assumes "core_same s s1" and "consistent s1" and "\<not> asserts s" and "handle_end p s1 = Some s'"
  shows "pruned p s s'"
proof -
  obtain c where "heap s1 p = Some c"
    using assms(4) by (auto simp: handle_end_def bind_eq_Some_conv)
  moreover have "\<not> asserts s1"
    using assms(3) by (simp add: core_same_fields [OF assms(1)])
  ultimately obtain s2 where "handle_end p s1 = Some s2" "consistent s2" "others_same p s1 s2" "css s2 = removeAll p (css s1)"
    using handle_end_inv [OF assms(2)] by metis
  then show ?thesis
    using assms(3,4) by (simp add: pruned_def others_same_def core_same_fields [OF assms(1)])
qed

lemma prune_server_inv:
  assumes "consistent s" and "\<not> asserts s" and "prune_server p min_time s = Some (t, s')"
  shows "pruned p s s'"
proof -
  obtain s1 c where s1: "conn_test p s = Some s1" and c: "heap s1 p = Some c"
    using assms(3) by (auto simp: prune_server_def bind_eq_Some_conv)
  note i1 = conn_test_inv [OF assms(1) s1]
  obtain s2 where s2: "upd p (\<lambda>c. c\<lparr>cs_maxJobs := cs_maxJobs c * -1\<rparr>) s1 = Some s2" "consistent s2" "core_same s1 s2"
      "heap s2 p = Some (c\<lparr>cs_maxJobs := cs_maxJobs c * -1\<rparr>)"
    using upd_inv [OF i1(1) c neutrals(11)] .
  obtain ok s3 where s3: "send_to True p PingMsg s2 = Some (ok, s3)" "consistent s3" "core_same s2 s3"
    using send_inv [OF s2(2,4), of PingMsg True] by (auto simp: plain_def)
  have c3: "core_same s s3"
    using core_same_trans [OF core_same_trans [OF i1(2) s2(3)] s3(3)] .
  have last: "pruned p s s4" if up: "upd p (\<lambda>c. c\<lparr>cs_last_talk := x\<rparr>) s3 = Some s4" for s4 x
  proof -
    obtain d where "heap s3 p = Some d"
      using up by (cases "heap s3 p") (simp_all add: upd_def)
    from upd_inv [OF s3(2) this neutrals(10)] show ?thesis
      using up c3 assms(2) by (metis core_same_trans option.inject pruned_core)
  qed
  show ?thesis
    using assms(3) s1 c s2(1) s3(1) pruned_end [OF i1(2,1) assms(2)] pruned_end [OF c3 s3(2) assms(2)] pruned_core [OF i1(2,1) assms(2)] last
    by (simp add: prune_server_def Let_def bind_eq_Some_conv split: if_splits) (auto simp: bind_eq_Some_conv split: if_splits)
qed

lemma prune_css_inv:
  assumes "consistent s" and "\<not> asserts s" and "prune_css ps min_time s = Some (t, s')"
  shows "consistent s' \<and> \<not> asserts s'"
  using assms
proof (induction ps arbitrary: s min_time)
  case (Cons p ps)
  obtain t1 s1 where s1: "prune_server p min_time s = Some (t1, s1)" "prune_css ps t1 s1 = Some (t, s')"
    using Cons.prems(3) by (auto simp: bind_eq_Some_conv)
  have "pruned p s s1"
    using prune_server_inv [OF Cons.prems(1,2) s1(1)] .
  with Cons.IH [OF _ _ s1(2)] show ?case
    by (simp add: pruned_def)
qed simp

lemma prune_controls_inv:
  assumes "consistent s" and "\<not> asserts s" and "prune_controls ps min_time s = Some (t, s')"
  shows "consistent s' \<and> \<not> asserts s'"
  using assms
proof (induction ps arbitrary: s min_time)
  case (Cons p ps)
  obtain c where c: "heap s p = Some c"
    using Cons.prems(3) by (auto simp: bind_eq_Some_conv)
  obtain s1 where s1: "handle_end p s = Some s1" "consistent s1" "others_same p s s1"
    using handle_end_inv [OF Cons.prems(1) c Cons.prems(2)] by metis
  show ?case
  proof (cases "clock s - cs_last_talk c \<ge> MAX_SCHEDULER_PING (slow_net s)")
    case True
    then have "prune_controls ps min_time s1 = Some (t, s')"
      using Cons.prems(3) c s1(1) by (simp add: Let_def)
    then show ?thesis
      using Cons.IH [OF s1(2)] s1(3) Cons.prems(2) by (simp add: others_same_def)
  next
    case False
    then show ?thesis
      using Cons.prems c Cons.IH [OF Cons.prems(1,2)] by (simp add: Let_def)
  qed
qed simp

lemma prune_servers_inv:
  assumes "consistent s" and "\<not> asserts s" and "prune_servers s = Some (t, s')"
  shows "consistent s' \<and> \<not> asserts s'"
proof -
  obtain t1 s1 where s1: "prune_controls (controls s) (MAX_SCHEDULER_PING (slow_net s)) s = Some (t1, s1)" "prune_css (css s1) t1 s1 = Some (t, s')"
    using assms(3) by (auto simp: prune_servers_def bind_eq_Some_conv)
  then show ?thesis
    using prune_controls_inv [OF assms(1,2)] prune_css_inv by blast
qed

section \<open>The scheduler as a state machine\<close>

text \<open>A line of text that is no question for the internals of the daemons.\<close>

definition line_msg :: "msg \<Rightarrow> bool" where
  "line_msg m \<longleftrightarrow> (case m of
     TextMsg t \<Rightarrow> (case split_string blanks t of [] \<Rightarrow> True | w # _ \<Rightarrow> map tolower w \<noteq> ''internals'')
   | _ \<Rightarrow> False)"

text \<open>The messages upon which the scheduler ends a connection that has logged in: \<open>EndMsg\<close> and those it does not expect.\<close>

definition ends_connection :: "msg \<Rightarrow> bool" where
  "ends_connection m \<longleftrightarrow> (case m of JobBeginMsg _ \<Rightarrow> False | JobDoneMsg _ \<Rightarrow> False | PingMsg \<Rightarrow> False | StatsMsg _ \<Rightarrow> False
     | JobLocalBeginMsg _ \<Rightarrow> False | JobLocalDoneMsg _ \<Rightarrow> False | LoginMsg _ \<Rightarrow> False | TextMsg _ \<Rightarrow> False | GetCSMsg _ \<Rightarrow> False
     | BlacklistHostEnvMsg _ \<Rightarrow> False | _ \<Rightarrow> True)"

text \<open>
  One step of the loop of \<open>main\<close>: a connection is accepted, a client of the control port is greeted, a
  connection logs in, a daemon or a control connection that has logged in sends something, a monitor leaves or sends what
  ends it, a connection is closed, the queue is served, the connections are pruned, time passes and the kernel and the random
  number generator go on.
\<close>

inductive step :: "sched \<Rightarrow> sched \<Rightarrow> bool" where
  accept: "heap s p = None \<Longrightarrow> step s (accept_cs p ch name ip fd s)"
| control: "heap s p = Some c \<Longrightarrow> cs_type c = UNKNOWN \<Longrightarrow> handle_control_login p s = Some (r, s') \<Longrightarrow> step s s'"
| login: "heap s p = Some c \<Longrightarrow> cs_type c = UNKNOWN \<Longrightarrow> cs_state c = CONNECTED \<Longrightarrow> handle_activity p s = Some (r, s') \<Longrightarrow> step s s'"
| daemon: "p \<in> set (css s) \<Longrightarrow> heap s p = Some c \<Longrightarrow> cs_state c = LOGGEDIN \<Longrightarrow> (\<And>m. next_msg p s = Some m \<Longrightarrow> daemon_msg m s)
    \<Longrightarrow> handle_activity p s = Some (r, s') \<Longrightarrow> step s s'"
| line: "heap s p = Some c \<Longrightarrow> cs_type c = LINE \<Longrightarrow> cs_state c = LOGGEDIN \<Longrightarrow> (\<And>m. next_msg p s = Some m \<Longrightarrow> line_msg m)
    \<Longrightarrow> handle_activity p s = Some (r, s') \<Longrightarrow> step s s'"
| monitor: "heap s p = Some c \<Longrightarrow> cs_type c = MONITOR \<Longrightarrow> cs_state c = LOGGEDIN \<Longrightarrow> (\<And>m. next_msg p s = Some m \<Longrightarrow> ends_connection m)
    \<Longrightarrow> handle_activity p s = Some (r, s') \<Longrightarrow> step s s'"
| closed: "handle_end p s = Some s' \<Longrightarrow> step s s'"
| serve: "empty_queue algo w s = Some (r, s') \<Longrightarrow> step s s'"
| prune: "prune_servers s = Some (t, s') \<Longrightarrow> step s s'"
| tick: "step s (s\<lparr>clock := t, randoms := rs, connects := k\<rparr>)"

inductive reachable :: "libs \<Rightarrow> string \<Rightarrow> int \<Rightarrow> sched \<Rightarrow> bool" for L v t where
  start: "reachable L v t (sched_init L v False t)"
| go: "reachable L v t s \<Longrightarrow> \<not> asserts s \<Longrightarrow> step s s' \<Longrightarrow> reachable L v t s'"

inductive_cases stepE: "step s s'"

lemma sched_init_inv: "consistent (sched_init L v b t)"
  by (simp add: consistent_def base_ok_def lists_ok_def sched_init_def job_at_def queue_ok_def q_ok_def)

lemma login_activity_inv:
  assumes "consistent s" and "\<not> asserts s" and "heap s p = Some c" and "cs_type c = UNKNOWN" and "cs_state c = CONNECTED"
    and "handle_activity p s = Some (r, s')"
  shows "consistent s'"
proof -
  obtain x ch where g: "get_msg (sc_libs s) 0 True (cs_chan c) = (x, ch)"
    by fastforce
  let ?s = "s\<lparr>heap := (heap s)(p \<mapsto> c\<lparr>cs_chan := ch\<rparr>)\<rparr>"
  have i: "consistent ?s" "\<not> asserts ?s" "heap ?s p = Some (c\<lparr>cs_chan := ch\<rparr>)"
    using chan_inv(1) [OF assms(1,3)] assms(2) by simp_all
  show ?thesis
  proof (cases x)
    case None
    then have "handle_end p ?s = Some s'"
      using assms(3,6) g by (simp add: handle_activity_def)
    then show ?thesis
      using handle_end_inv [OF i(1,3,2)] by (metis option.inject)
  next
    case (Some m)
    then have "try_login p m ?s = Some (r, s')"
      using assms(3,5,6) g by (simp add: handle_activity_def)
    then show ?thesis
      using try_login_inv [OF i(1-3)] assms(4) by simp
  qed
qed

lemma line_activity_inv:
  assumes "consistent s" and "\<not> asserts s" and "heap s p = Some c" and "cs_type c = LINE" and "cs_state c = LOGGEDIN"
    and "\<And>m. next_msg p s = Some m \<Longrightarrow> line_msg m"
  shows "\<exists>r s'. handle_activity p s = Some (r, s') \<and> consistent s'"
proof -
  obtain x ch where g: "get_msg (sc_libs s) 0 True (cs_chan c) = (x, ch)"
    by fastforce
  let ?s = "s\<lparr>heap := (heap s)(p \<mapsto> c\<lparr>cs_chan := ch\<rparr>)\<rparr>"
  have i: "consistent ?s" "\<not> asserts ?s" "heap ?s p = Some (c\<lparr>cs_chan := ch\<rparr>)" "live ?s LINE p"
    using chan_inv(1) [OF assms(1,3)] assms(2,4) by (simp_all add: live_def)
  show ?thesis
  proof (cases x)
    case None
    obtain s' where "handle_end p ?s = Some s'" "consistent s'"
      using handle_end_inv [OF i(1,3,2)] by metis
    then show ?thesis
      using assms(3) g None by (auto simp: handle_activity_def)
  next
    case (Some m)
    then obtain t where t: "m = TextMsg t" "case split_string blanks t of [] \<Rightarrow> True | w # _ \<Rightarrow> map tolower w \<noteq> ''internals''"
      using assms(3,6) g by (cases m) (auto simp: next_msg_def line_msg_def)
    obtain r s' where "handle_line p t ?s = Some (r, s')" "consistent s'"
      using handle_line_inv [OF i(1,4,2) t(2)] by blast
    then show ?thesis
      using assms(3,5) g Some t(1) by (simp add: handle_activity_def dispatch_def)
  qed
qed

lemma monitor_activity_inv:
  assumes "consistent s" and "\<not> asserts s" and "heap s p = Some c" and "cs_state c = LOGGEDIN"
    and "\<And>m. next_msg p s = Some m \<Longrightarrow> ends_connection m"
  shows "\<exists>r s'. handle_activity p s = Some (r, s') \<and> consistent s'"
proof -
  obtain x ch where g: "get_msg (sc_libs s) 0 True (cs_chan c) = (x, ch)"
    by fastforce
  let ?s = "s\<lparr>heap := (heap s)(p \<mapsto> c\<lparr>cs_chan := ch\<rparr>)\<rparr>"
  have i: "consistent ?s" "\<not> asserts ?s" "heap ?s p = Some (c\<lparr>cs_chan := ch\<rparr>)"
    using chan_inv(1) [OF assms(1,3)] assms(2) by simp_all
  obtain s' where s': "handle_end p ?s = Some s'" "consistent s'"
    using handle_end_inv [OF i(1,3,2)] by metis
  have "dispatch p m ?s = Some (False, s')" if "x = Some m" for m
    using assms(3) assms(5) [of m] g that s'(1) by (cases m) (auto simp: next_msg_def ends_connection_def dispatch_def)
  then show ?thesis
    using assms(3,4) g s' by (cases x) (auto simp: handle_activity_def)
qed

lemma serve_inv:
  assumes "consistent s" and "\<not> asserts s"
  shows "\<exists>r s'. empty_queue algo w s = Some (r, s') \<and> consistent s'"
proof (cases "job_requests s")
  case Nil
  then show ?thesis
    using assms(1) by (auto simp: empty_queue_def get_first_job_request_def)
next
  case (Cons g q)
  then show ?thesis
    using empty_queue_inv [OF assms] by blast
qed

lemma step_inv:
  assumes "step s s'" and "consistent s" and "\<not> asserts s"
  shows "consistent s'"
  using assms
proof (cases rule: step.cases)
  case (accept p ch name ip fd)
  then show ?thesis
    using accept_cs_inv [OF assms(2)] by simp
next
  case (control p c r)
  then show ?thesis
    using control_login_inv [OF assms(2) _ _ assms(3)] by fastforce
next
  case (login p c r)
  then show ?thesis
    using login_activity_inv [OF assms(2,3)] by blast
next
  case (daemon p c r)
  then show ?thesis
    using handle_activity_daemon [OF assms(2) daemon(1) assms(3) daemon(2-4)] by fastforce
next
  case (line p c r)
  then show ?thesis
    using line_activity_inv [OF assms(2,3) line(1-4)] by fastforce
next
  case (monitor p c r)
  then show ?thesis
    using monitor_activity_inv [OF assms(2,3) monitor(1,3,4)] by fastforce
next
  case (closed p)
  then obtain c where "heap s p = Some c"
    by (auto simp: handle_end_def bind_eq_Some_conv)
  then show ?thesis
    using handle_end_inv [OF assms(2) _ assms(3)] closed by (metis option.inject)
next
  case (serve algo w r)
  then show ?thesis
    using serve_inv [OF assms(2,3), of algo w] by auto
next
  case (prune t)
  then show ?thesis
    using prune_servers_inv [OF assms(2,3)] by blast
next
  case (tick t rs k)
  then show ?thesis
    using assms(2) by simp
qed

lemma reach_inv: "reachable L v t s \<Longrightarrow> consistent s"
  by (induction rule: reachable.induct) (auto simp: sched_init_inv intro: step_inv)

section \<open>Properties\<close>

text \<open>
  C3. Every state is consistent that the scheduler can reach while its peers connect, log in, send and disconnect in any order but keep
  to these rules: a daemon sends no lines of text, no result of a job that has not been assigned and no request for so many jobs that ids are
  reused (\<^const>\<open>daemon_msg\<close>); a control connection sends lines other than \<open>internals\<close>; a monitor sends nothing but what ends its
  connection. Consistent means: the lists of connections hold live objects of their type, every job has a connected submitter
  and, once assigned, a connected server, the list of a server holds exactly the jobs assigned to it, the
  count of submitted jobs is right, and every queued request is a pending job, once, in the group of its submitter.
\<close>

theorem reachable_consistent:
  assumes "reachable L v t s"
  shows "consistent s"
  using assms by (rule reach_inv)

text \<open>
  C4. A daemon that has logged in cannot bring the scheduler down: whatever its next message is, among
  those it may send, or if it is gone, \<open>handle_activity\<close> uses no deleted object and leaves a consistent state.
\<close>

theorem daemon_safe:
  assumes "consistent s" and "p \<in> set (css s)" and "\<not> asserts s" and "heap s p = Some c" and "cs_state c = LOGGEDIN"
    and "\<And>m. next_msg p s = Some m \<Longrightarrow> daemon_msg m s"
  shows "\<exists>r s'. handle_activity p s = Some (r, s') \<and> consistent s'"
  using handle_activity_daemon [OF assms] .

text \<open>
  C14. Serving the queue: unless it is blocked the first request gets an answer, which is written to its submitter and names a connected
  server. When the write succeeds the request is assigned to this server, marked as waiting for it, put into its list and
  taken from the queue; when it fails, and only then, the submitter is removed. When the request is blocked nothing changes but the random numbers. It is
  blocked exactly when no server takes it now, nor its submitter has a slot for it, and some server could take it later. So a
  blocked request blocks all others.
\<close>

theorem empty_queue_serves:
  assumes "consistent s" and "\<not> asserts s" and "job_requests s = g # q"
  shows "\<exists>r s'. empty_queue algo w s = Some (r, s') \<and> consistent s' \<and>
    (if r then \<exists>x q' job c sub ok ch. pop_request (job_requests s) = Some (g_key g, hd (g_l g), q') \<and> x \<in> set (css s)
               \<and> job_at s (hd (g_l g)) = Some job \<and> j_submitter job = g_submitter g
               \<and> heap s x = Some c \<and> heap s (g_submitter g) = Some sub
               \<and> send_msg (sc_libs s) True False (cs_answer x c sub job) (cs_chan sub) = Some (ok, ch)
               \<and> (if ok then served (hd (g_l g)) x q' s s' \<and> map_option cs_chan (heap s' (g_submitter g)) = Some ch
                  else css s' = removeAll (g_submitter g) (css s) \<and> heap s' (g_submitter g) = None)
     else (\<exists>rs. s' = s\<lparr>randoms := rs\<rparr>)) \<and>
    (\<exists>job sub. job_at s (hd (g_l g)) = Some job \<and> heap s (j_submitter job) = Some sub \<and> r = (\<not> blocked s sub job))"
proof -
  obtain r s' job sub where e: "empty_queue algo w s = Some (r, s')" "consistent s'"
    and b: "job_at s (hd (g_l g)) = Some job" "heap s (j_submitter job) = Some sub" "r = (\<not> blocked s sub job)"
    and out: "if r then \<exists>x q' job. pop_request (job_requests s) = Some (g_key g, hd (g_l g), q') \<and> x \<in> set (css s)
               \<and> job_at s (hd (g_l g)) = Some job \<and> j_submitter job = g_submitter g \<and> answered (hd (g_l g)) job x q' s s'
     else (\<exists>rs. s' = s\<lparr>randoms := rs\<rparr>)"
    using empty_queue_inv [OF assms, of algo w] by blast
  show ?thesis
  proof (cases r)
    case True
    obtain x q' k where k: "pop_request (job_requests s) = Some (g_key g, hd (g_l g), q')" "x \<in> set (css s)"
        "job_at s (hd (g_l g)) = Some k" "j_submitter k = g_submitter g" "answered (hd (g_l g)) k x q' s s'"
      using out True by auto
    obtain c d ok ch where a: "heap s x = Some c" "heap s (g_submitter g) = Some d"
        "send_msg (sc_libs s) True False (cs_answer x c d k) (cs_chan d) = Some (ok, ch)"
        "if ok then served (hd (g_l g)) x q' s s' \<and> map_option cs_chan (heap s' (g_submitter g)) = Some ch
         else css s' = removeAll (g_submitter g) (css s) \<and> heap s' (g_submitter g) = None"
      using k(5) unfolding answered_def k(4) by (elim exE conjE) (rule that; assumption)
    have "\<exists>x q' job c sub ok ch. pop_request (job_requests s) = Some (g_key g, hd (g_l g), q') \<and> x \<in> set (css s)
               \<and> job_at s (hd (g_l g)) = Some job \<and> j_submitter job = g_submitter g
               \<and> heap s x = Some c \<and> heap s (g_submitter g) = Some sub
               \<and> send_msg (sc_libs s) True False (cs_answer x c sub job) (cs_chan sub) = Some (ok, ch)
               \<and> (if ok then served (hd (g_l g)) x q' s s' \<and> map_option cs_chan (heap s' (g_submitter g)) = Some ch
                  else css s' = removeAll (g_submitter g) (css s) \<and> heap s' (g_submitter g) = None)"
      by (rule exI [of _ x], rule exI [of _ q'], rule exI [of _ k], rule exI [of _ c], rule exI [of _ d], rule exI [of _ ok], rule exI [of _ ch])
        (rule conjI k(1-4) a)+
    then show ?thesis
      using True e b by (intro exI [of _ True] exI [of _ s'] conjI) (simp, simp, simp only: if_True, blast)
  next
    case False
    then show ?thesis
      using e b out by (intro exI [of _ False] exI [of _ s'] conjI) (simp, simp, simp, blast)
  qed
qed

text \<open>
  A request for \<open>n\<close> compile servers appends \<open>n\<close> new jobs with consecutive ids to the queue of its submitter and
  niceness, in this order, and touches no other queue.
\<close>

theorem request_queued:
  assumes "consistent s" and "p \<in> set (css s)" and "\<not> asserts s" and "fresh_ids (unat (gcs_count m)) s"
  shows "\<exists>s'. handle_cs_request p m s = Some (True, s') \<and> consistent s' \<and> css s' = css s \<and>
    pend (job_requests s') = (pend (job_requests s))((p, clamp_niceness (gcs_niceness m)) :=
      pend (job_requests s) (p, clamp_niceness (gcs_niceness m)) @ map (\<lambda>k. new_job_id s + of_nat k) [1..<Suc (unat (gcs_count m))])"
  using assms by (rule handle_cs_request_inv)

text \<open>
  When a daemon gives up a request that has no server yet, all waiting jobs of that client leave the
  queue, every other request keeps its place, and the state is consistent.
\<close>

theorem cancel_drops:
  assumes "consistent s" and "p \<in> set (css s)" and "unknown_job_client_id m \<noteq> 0" and "done_ok m s"
  shows "\<exists>r s'. handle_job_done p m s = Some (r, s') \<and> consistent s' \<and> css s' = css s \<and>
    job_requests s' = drop_jobs (waiting_for p (unknown_job_client_id m) (jobs s)) (job_requests s)"
  using assms by (rule handle_job_done_cancelled)

text \<open>
  Every command on a control connection but \<open>internals\<close>, which forwards what the daemons answer, can be
  carried out in a consistent state and leaves one.
\<close>

theorem control_safe:
  assumes "consistent s" and "live s LINE p" and "\<not> asserts s"
    and "case split_string blanks t of [] \<Rightarrow> True | w # _ \<Rightarrow> map tolower w \<noteq> ''internals''"
  shows "\<exists>ok s'. handle_line p t s = Some (ok, s') \<and> consistent s'"
  using assms by (rule handle_line_inv)

section \<open>Witnesses\<close>

abbreviation demo_chan0 :: chan where
  "demo_chan0 \<equiv> demo_chan 45 []"

theorem reachable_consistent_witness:
  "consistent (accept_cs 1 demo_chan0 ''10.0.0.2'' ''10.0.0.2'' 7 (sched_init demo_libs ''1.4'' False 100))"
proof -
  have "step (sched_init demo_libs ''1.4'' False 100) (accept_cs 1 demo_chan0 ''10.0.0.2'' ''10.0.0.2'' 7 (sched_init demo_libs ''1.4'' False 100))"
    by (rule step.accept) (simp add: sched_init_def)
  then have "reachable demo_libs ''1.4'' 100 (accept_cs 1 demo_chan0 ''10.0.0.2'' ''10.0.0.2'' 7 (sched_init demo_libs ''1.4'' False 100))"
    using reachable.go [OF reachable.start] by (simp add: sched_init_def)
  then show ?thesis
    by (rule reachable_consistent)
qed

lemma demo_asserts: "\<not> asserts demo_sched"
  by (simp add: demo_sched_def sched_init_def)

theorem empty_queue_serves_witness: "\<exists>r s'. empty_queue RANDOM 0 demo_sched = Some (r, s') \<and> consistent s'"
  using empty_queue_serves [OF demo_sched_inv demo_asserts demo_fields(4), of RANDOM 0] by blast

theorem request_queued_witness:
  "\<exists>s'. handle_cs_request 2 (GetCSMsg_new demo_libs) demo_sched = Some (True, s') \<and>
     pend (job_requests s') (2, clamp_niceness (gcs_niceness (GetCSMsg_new demo_libs))) = [7]"
proof -
  have n: "new_job_id demo_sched = 6" "unat (gcs_count (GetCSMsg_new demo_libs)) = 1"
    by (simp_all add: demo_sched_def GetCSMsg_new_def)
  have "fresh_ids (unat (gcs_count (GetCSMsg_new demo_libs))) demo_sched"
    by (simp add: fresh_ids_def n demo_job_at)
  moreover have "pend [\<lparr>g_l = [6], g_submitter = 1, g_niceness = 0\<rparr>] (2, k) = []" for k
    by (simp add: pend_def g_key_def)
  ultimately show ?thesis
    using request_queued [OF demo_sched_inv _ demo_asserts, of 2 "GetCSMsg_new demo_libs"] by (auto simp: demo_fields n)
qed

theorem cancel_drops_witness:
  "\<exists>r s'. handle_job_done 1 (JobDoneMsg_make 7 1 3 0) demo_sched = Some (r, s') \<and> job_requests s' = []"
proof -
  let ?m = "JobDoneMsg_make 7 1 3 0"
  have m: "unknown_job_client_id ?m = 7" "done_ok ?m demo_sched"
    by (simp_all add: unknown_job_client_id_def JobDoneMsg_make_def done_ok_def is_from_server_def)
  have "6 \<in> waiting_for 1 7 (jobs demo_sched)"
    by (simp add: demo_sched_def waiting_for_def waits_for_def Job_new_def)
  with cancel_drops [OF demo_sched_inv _ _ m(2), of 1] show ?thesis
    by (auto simp: demo_fields m(1))
qed

theorem daemon_safe_witness: "\<exists>r s'. handle_activity 1 demo_sched = Some (r, s') \<and> consistent s'"
proof -
  have h: "heap demo_sched 1 = Some ((demo_server 4 0 1)\<lparr>cs_submittedJobsCount := 2\<rparr>)"
    by (simp add: demo_fields)
  have "next_msg 1 demo_sched = None"
    unfolding next_msg_def h by code_simp
  then show ?thesis
    using daemon_safe [OF demo_sched_inv _ demo_asserts h] by (simp add: demo_fields demo_server_def)
qed

text \<open>The state after a control connection has logged in.\<close>

definition demo_control :: sched where
  "demo_control = (sched_init demo_libs ''1.4'' False 100)
     \<lparr>heap := [1 \<mapsto> (CompileServer_new demo_chan0 ''10.0.0.2'' ''10.0.0.2'' 7)\<lparr>cs_type := LINE, cs_state := LOGGEDIN\<rparr>], controls := [1]\<rparr>"

theorem control_safe_witness: "\<exists>ok s'. handle_line 1 ''listcs'' demo_control = Some (ok, s') \<and> consistent s'"
proof -
  have "consistent demo_control"
    by (simp add: demo_control_def consistent_def base_ok_def lists_ok_def live_def sched_init_def job_at_def queue_ok_def q_ok_def
        server_ok_def assigned_def submitted_def CompileServer_new_def)
  moreover have "live demo_control LINE 1" "\<not> asserts demo_control"
    by (simp_all add: demo_control_def live_def sched_init_def)
  moreover have "case split_string blanks ''listcs'' of [] \<Rightarrow> True | w # _ \<Rightarrow> map tolower w \<noteq> ''internals''"
    by code_simp
  ultimately show ?thesis
    by (rule control_safe)
qed

end
