(* ===== verification/CxxString.thy ===== *)
theory CxxString
  imports Prelude "HOL-Library.Sublist"
begin

text \<open>
  The operations of \<open>std::string\<close> that the client uses, and the helpers on names of files and
  compilers of \<open>services/util.cpp\<close> and \<open>client/remote.cpp\<close>. A position is a \<^typ>\<open>nat option\<close>, with \<open>None\<close> for
  \<open>npos\<close>.
\<close>

section \<open>Searching\<close>

fun sfind :: "string \<Rightarrow> string \<Rightarrow> nat option" where
  "sfind pat [] = (if pat = [] then Some 0 else None)"
| "sfind pat (c # s) = (if prefix pat (c # s) then Some 0 else map_option Suc (sfind pat s))"

fun srfind :: "string \<Rightarrow> string \<Rightarrow> nat option" where
  "srfind pat [] = (if pat = [] then Some 0 else None)"
| "srfind pat (c # s) =
     (case srfind pat s of Some i \<Rightarrow> Some (Suc i) | None \<Rightarrow> if prefix pat (c # s) then Some 0 else None)"

definition contains :: "string \<Rightarrow> string \<Rightarrow> bool" where
  "contains s pat \<longleftrightarrow> sfind pat s \<noteq> None"

lemma sfind_None: "sfind pat s = None \<longleftrightarrow> \<not> sublist pat s"
  by (induction s) (auto simp: sublist_Cons_right)

lemma contains_sublist: "contains s pat \<longleftrightarrow> sublist pat s"
  by (simp add: contains_def sfind_None)

lemma sfind_Some:
  assumes "sfind pat s = Some i"
  shows "s = take i s @ pat @ drop (i + length pat) s"
  using assms
proof (induction s arbitrary: i)
  case (Cons c s)
  then show ?case
    by (auto split: if_splits simp: prefix_def)
qed (auto split: if_splits)

lemma srfind_None: "srfind pat s = None \<longleftrightarrow> \<not> sublist pat s"
  by (induction s) (auto simp: sublist_Cons_right split: option.splits)

lemma srfind_Some:
  assumes "srfind pat s = Some i"
  shows "s = take i s @ pat @ drop (i + length pat) s"
  using assms
proof (induction s arbitrary: i)
  case (Cons c s)
  show ?case
  proof (cases "srfind pat s")
    case None
    with Cons.prems show ?thesis
      by (auto split: if_splits simp: prefix_def)
  next
    case (Some k)
    then have "i = Suc k"
      using Cons.prems by simp
    then show ?thesis
      using Cons.IH [OF Some] by simp
  qed
qed (auto split: if_splits)

lemma srfind_char_bound: "srfind [c] s = Some i \<Longrightarrow> i < length s"
  by (induction s arbitrary: i) (auto split: if_splits option.splits)

section \<open>Splitting\<close>

text \<open>The items between the delimiters, a last empty one included, as \<open>getline\<close> or a loop with \<open>find\<close> reads them.\<close>

fun items_of :: "char \<Rightarrow> string \<Rightarrow> string list" where
  "items_of d [] = [[]]"
| "items_of d (c # s) =
     (if c = d then [] # items_of d s
      else (case items_of d s of [] \<Rightarrow> [[c]] | f # fs \<Rightarrow> (c # f) # fs))"

lemma items_of_not_Nil [simp]: "items_of d s \<noteq> []"
  by (cases s) (auto split: list.splits)

lemma items_of_append: "items_of d (s @ d # t) = items_of d s @ items_of d t"
  by (induction s) (auto split: list.splits simp: Cons_eq_append_conv)

lemma items_of_single: "d \<notin> set s \<Longrightarrow> items_of d s = [s]"
  by (induction s) auto

lemma items_of_no_delim: "f \<in> set (items_of d s) \<Longrightarrow> d \<notin> set f"
  by (induction s arbitrary: f) (auto split: if_splits list.splits)

section \<open>Names of files\<close>

definition find_basename :: "string \<Rightarrow> string" where
  "find_basename sfile = (case srfind ''/'' sfile of None \<Rightarrow> sfile | Some i \<Rightarrow> drop (i + 1) sfile)"

definition find_prefix :: "string \<Rightarrow> string" where
  "find_prefix basename = (case srfind ''-'' basename of None \<Rightarrow> '''' | Some i \<Rightarrow> take i basename)"

text \<open>\<open>f.substr(0, f.rfind('.')) + ".dwo"\<close>\<close>

definition dwo_name :: "string \<Rightarrow> string" where
  "dwo_name f = (case srfind ''.'' f of None \<Rightarrow> f | Some i \<Rightarrow> take i f) @ ''.dwo''"

section \<open>The name of the platform\<close>

text \<open>
  \<open>services/platform.cpp\<close>: system, release and machine as \<open>uname\<close> gives them; \<open>None\<close> is an exception. The loop takes out all blanks.
\<close>

definition determine_platform_once :: "(string \<times> string \<times> string) option \<Rightarrow> string option" where
  "determine_platform_once uname =
     (case uname of
        None \<Rightarrow> None
      | Some (sysname, release, machine) \<Rightarrow>
          (case (if sysname = ''Darwin'' then map_option (\<lambda>pos. sysname @ take pos release) (sfind ''.'' release) else Some sysname) of
             None \<Rightarrow> None
           | Some os \<Rightarrow> Some (filter (\<lambda>c. c \<noteq> CHR '' '') (if os \<noteq> ''Linux'' then os @ ''_'' @ machine else machine))))"

section \<open>Names of compilers\<close>

definition is_c_compiler :: "string \<Rightarrow> bool" where
  "is_c_compiler compiler =
     (let name = find_basename compiler
      in if contains name ''++'' then False
         else if contains name ''icx'' \<and> \<not> contains name ''icpx'' then True
         else contains name ''gcc'' \<or> contains name ''clang'' \<or> name = ''cc'')"

definition is_cpp_compiler :: "string \<Rightarrow> bool" where
  "is_cpp_compiler compiler =
     (let name = find_basename compiler
      in contains name ''g++'' \<or> contains name ''clang++'' \<or> contains name ''icpx'' \<or> contains name ''dpcpp'' \<or> name = ''c++'')"

text \<open>
  The comparisons of \<open>pos\<close> with \<open>slash\<close>, for a \<open>slash\<close> that may be \<open>npos\<close>, the largest \<open>size_t\<close>: then \<open>slash + 1\<close>
  is 0, and every position is less than \<open>slash\<close>.
\<close>

definition at_least_after :: "nat \<Rightarrow> nat option \<Rightarrow> bool" where
  "at_least_after pos slash = (case slash of None \<Rightarrow> True | Some k \<Rightarrow> pos \<ge> k + 1)"

definition exactly_after :: "nat \<Rightarrow> nat option \<Rightarrow> bool" where
  "exactly_after pos slash = (case slash of None \<Rightarrow> pos = 0 | Some k \<Rightarrow> pos = k + 1)"

definition before_slash :: "nat \<Rightarrow> nat option \<Rightarrow> bool" where
  "before_slash pos slash = (case slash of None \<Rightarrow> True | Some k \<Rightarrow> pos < k)"

text \<open>One of the branches \<open>pos = compiler.rfind(old); if (pos != npos && pos >= slash + 1) return ...\<close>\<close>

definition swap_name :: "string \<Rightarrow> string \<Rightarrow> string \<Rightarrow> nat option \<Rightarrow> string option" where
  "swap_name old new compiler slash =
     (case srfind old compiler of
        Some pos \<Rightarrow> if at_least_after pos slash then Some (take pos compiler @ new @ drop (pos + length old) compiler) else None
      | None \<Rightarrow> None)"

definition swap_exact :: "string \<Rightarrow> string \<Rightarrow> string \<Rightarrow> nat option \<Rightarrow> string option" where
  "swap_exact old new compiler slash =
     (case srfind old compiler of
        Some pos \<Rightarrow> if exactly_after pos slash then Some (take pos compiler @ new @ drop (pos + length old) compiler) else None
      | None \<Rightarrow> None)"

text \<open>The first of the alternatives that applies; when none does, the code asserts, or returns an empty string.\<close>

fun first_swap :: "bool \<Rightarrow> string option list \<Rightarrow> string option" where
  "first_swap dbg [] = (if dbg then None else Some '''')"
| "first_swap dbg (x # xs) = (case x of Some r \<Rightarrow> Some r | None \<Rightarrow> first_swap dbg xs)"

definition get_c_compiler :: "bool \<Rightarrow> string \<Rightarrow> string option" where
  "get_c_compiler dbg compiler =
     (if compiler = '''' then Some compiler
      else
        let slash = srfind ''/'' compiler
        in if (case srfind ''++'' compiler of None \<Rightarrow> True | Some pos \<Rightarrow> before_slash pos slash)
           then (case swap_name ''dpcpp'' ''icx'' compiler slash of Some r \<Rightarrow> Some r | None \<Rightarrow> Some compiler)
           else first_swap dbg
             [swap_name ''clang++'' ''clang'' compiler slash, swap_name ''icpx'' ''icx'' compiler slash,
              swap_name ''g++'' ''gcc'' compiler slash, swap_exact ''c++'' ''cc'' compiler slash])"

definition get_cpp_compiler :: "bool \<Rightarrow> string \<Rightarrow> string option" where
  "get_cpp_compiler dbg compiler =
     (if compiler = '''' then Some compiler
      else
        let slash = srfind ''/'' compiler
        in if (case srfind ''++'' compiler of None \<Rightarrow> False | Some pos \<Rightarrow> at_least_after pos slash)
           then (case swap_name ''dpcpp'' ''icpx'' compiler slash of Some r \<Rightarrow> Some r | None \<Rightarrow> Some compiler)
           else first_swap dbg
             [swap_name ''dpcpp'' ''icpx'' compiler slash, swap_name ''gcc'' ''g++'' compiler slash,
              (if contains compiler ''icpx'' then None else swap_name ''icx'' ''icpx'' compiler slash),
              swap_name ''clang'' ''clang++'' compiler slash, swap_exact ''cc'' ''c++'' compiler slash])"

section \<open>Absolute names\<close>

text \<open>\<open>while (idx = file.find("/../")) ...\<close>: the component before is removed with it. \<open>None\<close> is the exception of \<open>replace\<close>.\<close>

function remove_dotdot :: "string \<Rightarrow> string option" where
  "remove_dotdot fn =
     (case sfind ''/../'' fn of
        None \<Rightarrow> Some fn
      | Some idx \<Rightarrow>
          if idx = 0 then remove_dotdot (''/'' @ drop 4 fn)
          else (case srfind ''/'' (take idx fn) of
                  None \<Rightarrow> None
                | Some slash \<Rightarrow> remove_dotdot (take slash fn @ ''/'' @ drop (idx + 4) fn)))"
  by pat_completeness auto

text \<open>\<open>while (idx = file.find(pat)) file.replace(idx, pat.length(), "/")\<close>\<close>

function replace_all :: "string \<Rightarrow> string \<Rightarrow> string" where
  "replace_all pat fn =
     (if length pat \<le> 1 then fn
      else case sfind pat fn of None \<Rightarrow> fn | Some idx \<Rightarrow> replace_all pat (take idx fn @ ''/'' @ drop (idx + length pat) fn))"
  by pat_completeness auto

definition get_absfilename :: "string \<Rightarrow> string \<Rightarrow> string option" where
  "get_absfilename cwd f =
     (if f = '''' then Some f
      else map_option (\<lambda>fn. replace_all ''//'' (replace_all ''/./'' fn))
             (remove_dotdot (if hd f \<noteq> CHR ''/'' then cwd @ ''/'' @ f else f)))"

lemma sfind_length: "sfind pat s = Some i \<Longrightarrow> i + length pat \<le> length s"
  by (induction s arbitrary: i) (auto split: if_splits dest: prefix_length_le)

termination remove_dotdot
proof (relation "measure length", simp)
  fix fn :: string and idx :: nat
  assume "sfind ''/../'' fn = Some idx" "idx = 0"
  then have "4 \<le> length fn"
    using sfind_length by fastforce
  then show "(''/'' @ drop 4 fn, fn) \<in> measure length"
    by simp
next
  fix fn :: string and idx slash :: nat
  assume i: "sfind ''/../'' fn = Some idx" and "srfind ''/'' (take idx fn) = Some slash"
  then have "slash < idx"
    using srfind_char_bound by fastforce
  moreover have "idx + 4 \<le> length fn"
    using sfind_length [OF i] by simp
  ultimately show "(take slash fn @ ''/'' @ drop (idx + 4) fn, fn) \<in> measure length"
    by simp
qed

termination replace_all
proof (relation "measure (\<lambda>(pat, fn). length fn)", simp)
  fix pat fn :: string and idx :: nat
  assume "\<not> length pat \<le> 1" "sfind pat fn = Some idx"
  then show "((pat, take idx fn @ ''/'' @ drop (idx + length pat) fn), (pat, fn)) \<in> measure (\<lambda>(pat, fn). length fn)"
    using sfind_length [of pat fn idx] by simp
qed

declare remove_dotdot.simps [simp del] replace_all.simps [simp del]

section \<open>Properties of absolute names\<close>

text \<open>A pattern that begins and ends with a slash and has none inside: it cannot appear where something between two slashes is taken out.\<close>

lemma slash_pattern:
  assumes "sublist (CHR ''/'' # m @ ''/'') (u @ CHR ''/'' # v)" and "CHR ''/'' \<notin> set m"
  shows "sublist (CHR ''/'' # m @ ''/'') (u @ CHR ''/'' # w @ CHR ''/'' # v)"
proof -
  let ?p = "CHR ''/'' # m @ ''/''"
  have "sublist ?p ((u @ ''/'') @ v)"
    using assms(1) by simp
  then consider "sublist ?p (u @ ''/'')" | "sublist ?p v" | p1 p2 where "?p = p1 @ p2" "suffix p1 (u @ ''/'')" "prefix p2 v"
    unfolding sublist_append [of ?p "u @ ''/''" v] by blast
  then show ?thesis
  proof cases
    case 1
    then have "sublist ?p ((u @ ''/'') @ w @ CHR ''/'' # v)"
      by (simp only: sublist_append simp_thms)
    then show ?thesis
      by simp
  next
    case 2
    then have "sublist ?p ((u @ CHR ''/'' # w @ ''/'') @ v)"
      by (simp only: sublist_append simp_thms)
    then show ?thesis
      by simp
  next
    case 3
    have "p1 = [] \<or> p2 = [] \<or> p1 = ''/''"
    proof (cases "p1 = [] \<or> p2 = []")
      case False
      then obtain p1' where p1: "p1 = p1' @ ''/''"
        using 3(2) by (auto simp: suffix_def append_eq_append_conv2 Cons_eq_append_conv append_eq_Cons_conv)
      have "butlast ?p = butlast (p1 @ p2)"
        by (simp only: 3(1))
      then have "CHR ''/'' # m = p1' @ CHR ''/'' # butlast p2"
        using False p1 by (simp add: butlast_append)
      then show ?thesis
        using assms(2) p1 by (cases p1') auto
    qed blast
    then have "prefix ?p v \<or> suffix ?p (u @ ''/'') \<or> prefix ?p (CHR ''/'' # v)"
      using 3 by auto
    then have "sublist ?p (CHR ''/'' # v) \<or> sublist ?p (u @ ''/'')"
      by (metis prefix_imp_sublist suffix_imp_sublist sublist_Cons_right)
    then have "sublist ?p ((u @ CHR ''/'' # w) @ CHR ''/'' # v) \<or> sublist ?p ((u @ ''/'') @ w @ CHR ''/'' # v)"
      by (metis sublist_append)
    then show ?thesis
      by simp
  qed
qed

lemma replace_all_stop: "sfind pat fn = None \<Longrightarrow> replace_all pat fn = fn"
  by (subst replace_all.simps) simp

lemma replace_all_step:
  "1 < length pat \<Longrightarrow> sfind pat fn = Some i \<Longrightarrow> replace_all pat fn = replace_all pat (take i fn @ ''/'' @ drop (i + length pat) fn)"
  by (subst replace_all.simps) simp

lemma replace_all_done: "1 < length pat \<Longrightarrow> \<not> sublist pat (replace_all pat fn)"
proof (induction pat fn rule: replace_all.induct)
  case (1 pat fn)
  show ?case
  proof (cases "sfind pat fn")
    case None
    then show ?thesis
      using replace_all_stop [OF None] sfind_None [of pat fn] by simp
  next
    case (Some i)
    then show ?thesis
      using 1 replace_all_step [OF "1.prems" Some] by simp
  qed
qed

lemma replace_all_keeps:
  assumes "\<not> sublist (CHR ''/'' # m @ ''/'') fn" and "CHR ''/'' \<notin> set m" and "pat = CHR ''/'' # w @ ''/''"
  shows "\<not> sublist (CHR ''/'' # m @ ''/'') (replace_all pat fn)"
  using assms
proof (induction pat fn rule: replace_all.induct)
  case (1 pat fn)
  show ?case
  proof (cases "sfind pat fn")
    case (Some i)
    have f: "fn = take i fn @ CHR ''/'' # w @ CHR ''/'' # drop (i + length pat) fn"
      using sfind_Some [OF Some] "1.prems"(3) by simp
    have "\<not> sublist (CHR ''/'' # m @ ''/'') (take i fn @ ''/'' @ drop (i + length pat) fn)"
      using slash_pattern [of m "take i fn" "drop (i + length pat) fn" w] "1.prems"(1,2) f by auto
    with "1.IH" [OF _ Some] "1.prems" show ?thesis
      using replace_all_step [OF _ Some] by simp
  qed (use "1.prems" replace_all_stop in simp)
qed

lemma remove_dotdot_total:
  assumes "hd fn = CHR ''/''" and "fn \<noteq> []"
  shows "\<exists>r. remove_dotdot fn = Some r \<and> \<not> sublist ''/../'' r \<and> r \<noteq> [] \<and> hd r = CHR ''/''"
  using assms
proof (induction fn rule: remove_dotdot.induct)
  case (1 fn)
  show ?case
  proof (cases "sfind ''/../'' fn")
    case None
    then have "remove_dotdot fn = Some fn"
      by (subst remove_dotdot.simps) simp
    with "1.prems" None show ?thesis
      using sfind_None [of "''/../''" fn] by simp
  next
    case (Some idx)
    show ?thesis
    proof (cases "idx = 0")
      case True
      then show ?thesis
        using "1.IH"(1) [OF Some True] Some by (simp add: remove_dotdot.simps [of fn])
    next
      case False
      then obtain t where "take idx fn = CHR ''/'' # t"
        using "1.prems" by (cases fn; cases idx) auto
      then obtain slash where s: "srfind ''/'' (take idx fn) = Some slash"
        by (cases "srfind ''/'' t") auto
      have "take slash fn @ ''/'' @ drop (idx + 4) fn \<noteq> []" "hd (take slash fn @ ''/'' @ drop (idx + 4) fn) = CHR ''/''"
        using "1.prems" by (cases slash; cases fn; simp)+
      then show ?thesis
        using "1.IH"(2) [OF Some False s] Some False s by (simp add: remove_dotdot.simps [of fn])
    qed
  qed
qed

lemma replace_all_nonempty: "fn \<noteq> [] \<Longrightarrow> replace_all pat fn \<noteq> []"
proof (induction pat fn rule: replace_all.induct)
  case (1 pat fn)
  then show ?case
    by (cases "sfind pat fn") (simp_all add: replace_all.simps [of pat fn] split: option.splits)
qed

lemma absfilename_total:
  assumes "f \<noteq> ''''" and "cwd = '''' \<or> hd cwd = CHR ''/''"
  obtains r where "get_absfilename cwd f = Some r" and "r \<noteq> ''''" and "\<not> sublist ''//'' r" and "\<not> sublist ''/./'' r" and "\<not> sublist ''/../'' r"
proof -
  let ?f = "if hd f \<noteq> CHR ''/'' then cwd @ ''/'' @ f else f"
  have "hd ?f = CHR ''/''" "?f \<noteq> []"
    using assms by (cases cwd; simp)+
  then obtain r where r: "remove_dotdot ?f = Some r" "\<not> sublist ''/../'' r" "r \<noteq> []"
    using remove_dotdot_total by blast
  let ?r2 = "replace_all ''/./'' r" and ?r3 = "replace_all ''//'' (replace_all ''/./'' r)"
  have "\<not> sublist ''/../'' ?r2"
    using replace_all_keeps [of "''..''" r "''/./''" "''.''"] r(2) by simp
  then have "\<not> sublist ''/../'' ?r3"
    using replace_all_keeps [of "''..''" ?r2 "''//''" "''''"] by simp
  moreover have "\<not> sublist ''/./'' ?r3"
    using replace_all_keeps [of "''.''" ?r2 "''//''" "''''"] replace_all_done [of "''/./''" r] by simp
  moreover have "\<not> sublist ''//'' ?r3"
    using replace_all_done [of "''//''"] by simp
  moreover have "get_absfilename cwd f = Some ?r3"
    using assms(1) r(1) by (simp add: get_absfilename_def)
  moreover have "?r3 \<noteq> ''''"
    using r(3) by (intro replace_all_nonempty)
  ultimately show ?thesis
    using that by blast
qed

section \<open>Properties\<close>

text \<open>
  The absolute name of a file always exists and contains neither an empty component nor
  one that is a dot, nor two dots other than at its end.
\<close>

theorem absfilename_normal:
  assumes "f \<noteq> ''''" and "cwd = '''' \<or> hd cwd = CHR ''/''"
  shows "\<exists>r. get_absfilename cwd f = Some r \<and> \<not> contains r ''//'' \<and> \<not> contains r ''/./'' \<and> \<not> contains r ''/../''"
  using absfilename_total [OF assms] by (metis contains_sublist)

text \<open>
  A compiler named without a directory is never turned into a C compiler: the test for the last slash compares
  with \<open>npos\<close>. \<open>g++\<close> stays \<open>g++\<close>.
\<close>

theorem c_compiler_without_slash:
  assumes "CHR ''/'' \<notin> set compiler" and "\<not> contains compiler ''dpcpp''"
  shows "get_c_compiler dbg compiler = Some compiler"
proof -
  have "srfind ''/'' compiler = None"
    using assms(1) by (auto simp: srfind_None sublist_def)
  moreover have "srfind ''dpcpp'' compiler = None"
    using assms(2) by (simp add: srfind_None contains_sublist)
  ultimately show ?thesis
    by (simp add: get_c_compiler_def before_slash_def swap_name_def Let_def split: option.splits)
qed

text \<open>The components \<open>..\<close> are resolved before the dots, so that a dot is taken for a directory.\<close>

lemma absfilename_dot_first: "get_absfilename '''' ''/a/./../b'' = Some ''/a/b''"
  by code_simp

section \<open>Witnesses\<close>

theorem absfilename_normal_witness:
  "\<exists>r. get_absfilename ''/home/me'' ''../x/./y.c'' = Some r \<and> \<not> contains r ''//'' \<and> \<not> contains r ''/./'' \<and> \<not> contains r ''/../''"
  by (rule absfilename_normal) simp_all

theorem c_compiler_without_slash_witness: "get_c_compiler False ''g++'' = Some ''g++'' \<and> get_c_compiler False ''/usr/bin/g++'' = Some ''/usr/bin/gcc''"
  using c_compiler_without_slash [of "''g++''" False] by (simp add: contains_def) code_simp

end
