(* ===== verification/Discovery.thy ===== *)
theory Discovery
  imports Channel CxxString
begin

text \<open>
  How daemons and schedulers find each other: the broadcasts of \<open>services/comm.cpp\<close> (\<open>Broadcasts\<close>,
  \<open>DiscoverSched\<close>). A scheduler announces itself and answers the question of a daemon; the daemon
  collects the answers for a while and connects to the best.

  The flag \<open>big\<close> is the byte order of a host, since the older formats send integers as they are in memory.
  Times are 64-bit words that are compared as signed numbers. Datagrams arrive in queues together with the
  address and the port of their sender.
\<close>

section \<open>Integers in memory\<close>

definition host32 :: "bool \<Rightarrow> u32 \<Rightarrow> bytes" where
  "host32 big w = (if big then be32 w else le32 w)"

definition un_host32 :: "bool \<Rightarrow> bytes \<Rightarrow> u32" where
  "un_host32 big b = (if big then un_be32 b else un_le32 b)"

definition time_low :: "u64 \<Rightarrow> u32" where
  "time_low t = ucast t"

definition time_high :: "u64 \<Rightarrow> u32" where
  "time_high t = ucast (drop_bit 32 t)"

definition make_time :: "u32 \<Rightarrow> u32 \<Rightarrow> u64" where
  "make_time high low = or (push_bit 32 (ucast high)) (ucast low)"

definition host64 :: "bool \<Rightarrow> u64 \<Rightarrow> bytes" where
  "host64 big t = (if big then be32 (time_high t) @ be32 (time_low t) else le32 (time_low t) @ le32 (time_high t))"

definition un_host64 :: "bool \<Rightarrow> bytes \<Rightarrow> u64" where
  "un_host64 big b =
     (if big then make_time (un_be32 b) (un_be32 (drop 4 b)) else make_time (un_le32 (drop 4 b)) (un_le32 b))"

section \<open>Texts in buffers\<close>

text \<open>\<open>snprintf\<close> of a C string into \<open>n\<close> bytes that are zero, and the string that starts a buffer.\<close>

definition text_field :: "nat \<Rightarrow> string \<Rightarrow> bytes" where
  "text_field n s = take (n - 1) s @ replicate (n - length (take (n - 1) s)) NUL"

definition c_string :: "bytes \<Rightarrow> string" where
  "c_string b = takeWhile (\<lambda>c. c \<noteq> NUL) b"

definition BROAD_BUFLEN :: nat where
  "BROAD_BUFLEN = 268"

definition BROAD_BUFLEN_OLD_2 :: nat where
  "BROAD_BUFLEN_OLD_2 = 32"

definition BROAD_BUFLEN_OLD_1 :: nat where
  "BROAD_BUFLEN_OLD_1 = 16"

lemmas broad_lens = BROAD_BUFLEN_def BROAD_BUFLEN_OLD_2_def BROAD_BUFLEN_OLD_1_def

text \<open>\<open>char buf = PROTOCOL_VERSION\<close>\<close>

definition version_char :: char where
  "version_char = char_of (unat PROTOCOL_VERSION)"

section \<open>Announcements of a scheduler\<close>

text \<open>
  The message for schedulers before version 38. The length is kept in a \<open>char\<close>: \<open>None\<close> is the exception of \<open>new\<close> or the writing
  outside of the buffer when it is not positive. The last character of the name is lost.
\<close>

definition old_announcement :: "bool \<Rightarrow> string \<Rightarrow> u64 \<Rightarrow> bytes option" where
  "old_announcement big netname starttime =
     (let n = schar (char_of (length netname))
      in if n < 1 then None
         else Some (''ICE'' @ version_char # host64 big starttime @ [char_of (nat n)] @ take (nat n - 1) netname @ [NUL]))"

definition announcement :: "string \<Rightarrow> u64 \<Rightarrow> bytes" where
  "announcement netname starttime =
     ''ICF'' @ version_char # be32 (time_high starttime) @ be32 (time_low starttime) @ text_field (BROAD_BUFLEN - 12) netname"

text \<open>The two messages that are broadcast.\<close>

definition broadcastSchedulerVersion :: "bool \<Rightarrow> string \<Rightarrow> u64 \<Rightarrow> bytes list option" where
  "broadcastSchedulerVersion big netname starttime =
     (case old_announcement big netname starttime of
        None \<Rightarrow> None
      | Some old \<Rightarrow> Some [old, announcement netname starttime])"

definition isSchedulerVersion :: "bytes \<Rightarrow> bool" where
  "isSchedulerVersion buf \<longleftrightarrow> length buf = BROAD_BUFLEN \<and> take 3 buf = ''ICF''"

text \<open>Protocol, time and name; \<open>None\<close> is a failed assertion, or a name without an end, which is read past the datagram.\<close>

definition getSchedulerVersionData :: "bool \<Rightarrow> bytes \<Rightarrow> (int \<times> u64 \<times> string) option" where
  "getSchedulerVersionData dbg buf =
     (if dbg \<and> \<not> isSchedulerVersion buf then None
      else if NUL \<notin> set (drop 12 buf) then None
      else Some (of_char (buf ! 3), make_time (un_be32 (drop 4 buf)) (un_be32 (drop 8 buf)), c_string (drop 12 buf)))"

section \<open>The question of a daemon and its answer\<close>

definition discovery_request :: "int \<Rightarrow> bytes" where
  "discovery_request version = [char_of (nat (version mod 256))]"

definition isSchedulerDiscovery :: "bytes \<Rightarrow> int option" where
  "isSchedulerDiscovery buf = (if length buf \<noteq> 1 then None else Some (schar (hd buf)))"

text \<open>The answer of a scheduler to a request of the version \<open>c\<close>.\<close>

definition bump :: "nat \<Rightarrow> char \<Rightarrow> char" where
  "bump n c = char_of (of_char c + n)"

definition prepareBroadcastReply :: "bool \<Rightarrow> char \<Rightarrow> string \<Rightarrow> u64 \<Rightarrow> bytes" where
  "prepareBroadcastReply big c netname starttime =
     (if schar c < 33 then bump 1 c # text_field (BROAD_BUFLEN_OLD_1 - 1) netname
      else if schar c < 36 then
        bump 2 c # host32 big PROTOCOL_VERSION @ host64 big starttime @ text_field (BROAD_BUFLEN_OLD_2 - 13) netname
      else if schar c < 38 then
        bump 2 c # host32 big PROTOCOL_VERSION @ host64 big starttime @ text_field (BROAD_BUFLEN - 13) netname
      else bump 3 c # be32 PROTOCOL_VERSION @ be32 (time_high starttime) @ be32 (time_low starttime) @ text_field (BROAD_BUFLEN - 13) netname)"

text \<open>What a daemon accepts as an answer; the last byte becomes the end of the text.\<close>

definition accept_answer :: "bytes \<Rightarrow> bytes option" where
  "accept_answer datagram =
     (let b = take BROAD_BUFLEN datagram; len = length b; v = schar version_char
      in if len = BROAD_BUFLEN_OLD_1 \<and> schar (hd b) = v + 1 \<or> len = BROAD_BUFLEN_OLD_2 \<and> schar (hd b) = v + 2
          \<or> len = BROAD_BUFLEN \<and> schar (hd b) = v + 2 \<or> len = BROAD_BUFLEN \<and> schar (hd b) = v + 3
         then Some (butlast b @ [NUL]) else None)"

text \<open>Name, version and start time; \<open>None\<close> is \<open>abort\<close>.\<close>

definition get_broad_data :: "bool \<Rightarrow> bytes \<Rightarrow> (string \<times> int \<times> u64) option" where
  "get_broad_data big buf =
     (let m = schar (hd buf); v = sint PROTOCOL_VERSION
      in if m = v + 1 then Some (c_string (drop 1 buf), 32, 0)
         else if m = v + 2 then Some (c_string (drop 13 buf), sint (un_host32 big (drop 1 buf)), un_host64 big (drop 5 buf))
         else if m = v + 3 then
           Some (c_string (drop 13 buf), sint (un_be32 (drop 1 buf)), make_time (un_be32 (drop 5 buf)) (un_be32 (drop 9 buf)))
         else None)"

section \<open>The search of a daemon\<close>

record discover =
  dv_netname :: string
  dv_schedname :: string
  dv_timeout :: int
  dv_time0 :: int
  dv_ask_fd :: int
  dv_ask_second_fd :: int
  dv_sport :: u32
  dv_best_version :: int
  dv_best_start_time :: u64
  dv_best_schedname :: string
  dv_best_port :: u32
  dv_multiple :: bool

type_synonym answer = "bytes \<times> string \<times> u32"

text \<open>The next datagram of a queue. An error of \<open>recvfrom\<close> is an empty datagram.\<close>

definition get_broad_answer :: "answer list \<Rightarrow> (bytes \<times> string \<times> u32) option \<times> answer list" where
  "get_broad_answer q =
     (case q of
        [] \<Rightarrow> (None, [])
      | (d, a, p) # r \<Rightarrow> (case accept_answer d of None \<Rightarrow> (None, r) | Some b \<Rightarrow> (Some (b, a, p), r)))"

text \<open>One answer: its sender becomes the best so far when it has a newer version, or the same and has started earlier.\<close>

definition consider_answer :: "string \<times> int \<times> u64 \<Rightarrow> string \<Rightarrow> u32 \<Rightarrow> discover \<Rightarrow> discover" where
  "consider_answer data addr port d =
     (case data of
        (name, version, start_time) \<Rightarrow>
          if \<not> strcasecmp_eq (dv_netname d) name then d
          else if version \<ge> 128 \<or> version < 1 then d
          else
            let d1 = (if dv_best_version d \<noteq> 0 then d\<lparr>dv_multiple := True\<rparr> else d)
            in if dv_best_version d1 < version \<or> dv_best_version d1 = version \<and> sint (dv_best_start_time d1) > sint start_time
               then d1\<lparr>dv_best_schedname := addr, dv_best_port := port, dv_best_version := version, dv_best_start_time := start_time\<rparr>
               else d1)"

text \<open>The loop over the answers that have arrived; it stops when neither socket gives a proper answer.\<close>

function read_answers :: "bool \<Rightarrow> answer list \<Rightarrow> answer list \<Rightarrow> discover \<Rightarrow> (answer list \<times> answer list \<times> discover) option" where
  "read_answers big q1 q2 d =
     (case get_broad_answer q1 of
        (Some (b, a, p), r1) \<Rightarrow>
          (case get_broad_data big b of None \<Rightarrow> None | Some x \<Rightarrow> read_answers big r1 q2 (consider_answer x a p d))
      | (None, r1) \<Rightarrow>
          if dv_ask_second_fd d = -1 then Some (r1, q2, d)
          else (case get_broad_answer q2 of
                  (Some (b, a, p), r2) \<Rightarrow>
                    (case get_broad_data big b of None \<Rightarrow> None | Some x \<Rightarrow> read_answers big r1 r2 (consider_answer x a p d))
                | (None, r2) \<Rightarrow> Some (r1, r2, d)))"
  by pat_completeness auto

termination read_answers
  by (relation "measure (\<lambda>(_, q1, q2, _). length q1 + length q2)")
    (auto simp: get_broad_answer_def split: list.splits option.splits)

declare read_answers.simps [simp del]

text \<open>The two ports of \<open>ICECC_TEST_SCHEDULER_PORTS\<close>; the flag of the search is whether the variable is set.\<close>

definition debug_ports :: "string option \<Rightarrow> int \<times> int" where
  "debug_ports env =
     (case env of
        None \<Rightarrow> (0, 0)
      | Some v \<Rightarrow> (atoi v, case sfind '':'' v of None \<Rightarrow> 0 | Some i \<Rightarrow> atoi (drop (i + 1) v)))"

definition get_second_port_for_debug :: "string option \<Rightarrow> int \<Rightarrow> int" where
  "get_second_port_for_debug env port =
     (case debug_ports env of
        (p1, p2) \<Rightarrow>
          let second = (if port = p1 then p2 else if port = p2 then p1 else 0)
          in if second \<noteq> 0 then second else -1)"

datatype connect_status = Connected | IsConnected | InProgress | ConnectFails

text \<open>The answers of the system to one call: datagrams, clock, \<open>prepare_connect\<close> and \<open>connect\<close>.\<close>

record discover_sys =
  ds_asserts :: bool
  ds_big :: bool
  ds_slow :: bool
  ds_debug_ports :: "string option"
  ds_clock :: int
  ds_prepare :: "string \<Rightarrow> u32 \<Rightarrow> int"
  ds_connect :: connect_status

definition timed_out :: "discover_sys \<Rightarrow> discover \<Rightarrow> bool" where
  "timed_out y d \<longleftrightarrow> ds_clock y - dv_time0 d \<ge> dv_timeout d"

definition attempt_scheduler_connect :: "discover_sys \<Rightarrow> discover \<Rightarrow> discover" where
  "attempt_scheduler_connect y d =
     d\<lparr>dv_time0 := ds_clock y + MAX_SCHEDULER_PONG (ds_slow y), dv_ask_fd := ds_prepare y (dv_schedname d) (dv_sport d)\<rparr>"

text \<open>
  The constructor: \<open>env\<close> is \<open>ICECC_SCHEDULER\<close> or \<open>USE_SCHEDULER\<close>, \<open>bcast\<close> what \<open>open_send_broadcast\<close> returns for a port.
\<close>

definition DiscoverSched_new :: "discover_sys \<Rightarrow> string option \<Rightarrow> (int \<Rightarrow> int) \<Rightarrow> string \<Rightarrow> int \<Rightarrow> string \<Rightarrow> u32 \<Rightarrow> discover" where
  "DiscoverSched_new y env bcast net tmo sched port =
     (let from_env = (if sched \<noteq> '''' then None else env);
          named = (case from_env of
             None \<Rightarrow> (sched, port)
           | Some s \<Rightarrow> (case srfind '':'' s of None \<Rightarrow> (s, port) | Some i \<Rightarrow> (take i s, of_int (atoi (drop (i + 1) s)))));
          prt = (if snd named = 0 then 8765 else snd named);
          d = \<lparr>dv_netname = (if net = '''' then ''ICECREAM'' else net), dv_schedname = fst named, dv_timeout = tmo, dv_time0 = ds_clock y, dv_ask_fd = -1,
               dv_ask_second_fd = -1, dv_sport = prt, dv_best_version = 0, dv_best_start_time = 0, dv_best_schedname = '''', dv_best_port = 0, dv_multiple = False\<rparr>
      in if fst named \<noteq> '''' then attempt_scheduler_connect y (d\<lparr>dv_netname := ''''\<rparr>)
         else
           let second = get_second_port_for_debug (ds_debug_ports y) (sint prt)
           in d\<lparr>dv_ask_fd := bcast (sint prt), dv_ask_second_fd := (if second > 0 then bcast second else -1)\<rparr>)"

text \<open>The connection is made on the descriptor that is returned.\<close>

definition try_connect :: "discover_sys \<Rightarrow> bool \<Rightarrow> discover \<Rightarrow> int option \<times> discover" where
  "try_connect y in_progress d =
     (if dv_ask_fd d \<ge> 0 \<and> (ds_connect y = Connected \<or> ds_connect y = IsConnected \<or> in_progress \<and> ds_connect y = InProgress)
      then (Some (dv_ask_fd d), d\<lparr>dv_ask_fd := -1\<rparr>) else (None, d))"

text \<open>
  The result is the descriptor on which a channel is made, the queues and the state; \<open>None\<close> is a failed assertion or \<open>abort\<close>.
\<close>

definition try_get_scheduler :: "discover_sys \<Rightarrow> answer list \<Rightarrow> answer list \<Rightarrow> discover \<Rightarrow>
    (int option \<times> answer list \<times> answer list \<times> discover) option" where
  "try_get_scheduler y q1 q2 d =
     (if dv_schedname d = '''' then
        (if ds_asserts y \<and> \<not> dv_ask_fd d > 0 then None
         else case read_answers (ds_big y) q1 q2 d of
           None \<Rightarrow> None
         | Some (r1, r2, d1) \<Rightarrow>
             if \<not> timed_out y d1 \<or> dv_best_version d1 = 0 then Some (None, r1, r2, d1)
             else
               let d2 = d1\<lparr>dv_schedname := dv_best_schedname d1, dv_sport := dv_best_port d1, dv_ask_fd := -1\<rparr>;
                   second = get_second_port_for_debug (ds_debug_ports y) (sint (dv_sport d2)) > 0
               in if ds_asserts y \<and> \<not> second \<and> dv_ask_second_fd d2 \<noteq> -1 then None
                  else
                    let d3 = (if second then d2\<lparr>dv_ask_second_fd := -1\<rparr> else d2);
                        (fd, d4) = try_connect y True (attempt_scheduler_connect y d3)
                    in Some (fd, r1, r2, d4))
      else if ds_asserts y \<and> dv_ask_fd d \<ge> 0 \<and> dv_ask_second_fd d \<noteq> -1 then None
      else let (fd, d1) = try_connect y False d in Some (fd, q1, q2, d1))"

section \<open>Reading back what was written\<close>

lemma make_time [simp]: "make_time (time_high t) (time_low t) = t"
  unfolding make_time_def time_high_def time_low_def
  by (rule bit_word_eqI) (auto simp: bit_or_iff bit_push_bit_iff bit_ucast_iff bit_drop_bit_eq le_Suc_ex)

lemma un_host32_host32 [simp]: "un_host32 big (host32 big w @ b) = w"
  by (simp add: un_host32_def host32_def)

lemma un_host64_host64 [simp]: "un_host64 big (host64 big t @ b) = t"
  by (simp add: un_host64_def host64_def)

lemma length_host [simp]: "length (host32 big w) = 4" "length (host64 big t) = 8"
  by (simp_all add: host32_def host64_def)

lemma length_text_field [simp]: "length (text_field n s) = n"
  by (simp add: text_field_def min_def)

lemma c_string_text_field:
  assumes "NUL \<notin> set s" and "0 < n"
  shows "c_string (text_field n s) = take (n - 1) s" and "NUL \<in> set (text_field n s)"
    and "last (text_field n s) = NUL" and "text_field n s \<noteq> []"
proof -
  obtain k where k: "n - length (take (n - 1) s) = Suc k"
    using assms(2) by (metis diff_is_0_eq length_take min.cobounded2 not0_implies_Suc Suc_diff_1 not_less_eq_eq)
  have "NUL \<notin> set (take (n - 1) s)"
    using assms(1) by (auto dest: in_set_takeD)
  then show "c_string (text_field n s) = take (n - 1) s"
    using takeWhile_NUL [of "take (n - 1) s" "replicate k NUL"] unfolding c_string_def text_field_def k by simp
  show "NUL \<in> set (text_field n s)" "last (text_field n s) = NUL" "text_field n s \<noteq> []"
    unfolding text_field_def k by simp_all
qed

lemma version_schar: "schar version_char = 45" "schar (bump 3 version_char) = 48"
  by code_simp+

lemma version_sint: "sint PROTOCOL_VERSION = 45"
  by (simp add: PROTOCOL_VERSION_def)

text \<open>The answer to a daemon of this version, as this version reads it, on whatever hosts.\<close>

lemma reply_form:
  "prepareBroadcastReply big version_char net start =
     bump 3 version_char # be32 PROTOCOL_VERSION @ be32 (time_high start) @ be32 (time_low start) @ text_field 255 net"
  by (simp add: prepareBroadcastReply_def version_schar broad_lens)

lemma butlast_NUL: "b \<noteq> [] \<Longrightarrow> last b = NUL \<Longrightarrow> butlast b @ [NUL] = b"
  by (metis append_butlast_last_id)

lemma reply_accepted:
  assumes "NUL \<notin> set net"
  shows "accept_answer (prepareBroadcastReply big version_char net start) = Some (prepareBroadcastReply big version_char net start)"
    and "get_broad_data big' (prepareBroadcastReply big version_char net start) = Some (take 254 net, 45, start)"
proof -
  note t = c_string_text_field [OF assms, of 255]
  have n: "butlast (text_field 255 net) @ [NUL] = text_field 255 net"
    using t(3,4) by (simp add: butlast_NUL)
  then show "accept_answer (prepareBroadcastReply big version_char net start) = Some (prepareBroadcastReply big version_char net start)"
    using t(4) by (simp add: accept_answer_def reply_form Let_def version_schar broad_lens butlast_append)
  have "drop 13 (bump 3 version_char # be32 PROTOCOL_VERSION @ be32 (time_high start) @ be32 (time_low start) @ text_field 255 net) = text_field 255 net"
    by simp
  then show "get_broad_data big' (prepareBroadcastReply big version_char net start) = Some (take 254 net, 45, start)"
    using t(1) by (simp add: get_broad_data_def reply_form Let_def version_schar version_sint)
qed

section \<open>The choice\<close>

text \<open>A scheduler that answers: its byte order, net, start time, address and port.\<close>

record beacon =
  bc_big :: bool
  bc_net :: string
  bc_start :: u64
  bc_addr :: string
  bc_port :: u32

definition reply_of :: "beacon \<Rightarrow> answer" where
  "reply_of b = (prepareBroadcastReply (bc_big b) version_char (bc_net b) (bc_start b), bc_addr b, bc_port b)"

definition same_net :: "string \<Rightarrow> beacon \<Rightarrow> bool" where
  "same_net net b \<longleftrightarrow> strcasecmp_eq net (take 254 (bc_net b))"

definition hear :: "beacon \<Rightarrow> discover \<Rightarrow> discover" where
  "hear b d = consider_answer (take 254 (bc_net b), 45, bc_start b) (bc_addr b) (bc_port b) d"

lemma consider_frame [simp]:
  "dv_netname (consider_answer x a p d) = dv_netname d" "dv_schedname (consider_answer x a p d) = dv_schedname d"
  "dv_timeout (consider_answer x a p d) = dv_timeout d" "dv_time0 (consider_answer x a p d) = dv_time0 d"
  "dv_ask_fd (consider_answer x a p d) = dv_ask_fd d" "dv_ask_second_fd (consider_answer x a p d) = dv_ask_second_fd d"
  by (simp_all add: consider_answer_def Let_def split: prod.splits)

lemma hear_all_frame [simp]:
  "dv_netname (fold hear bs d) = dv_netname d" "dv_schedname (fold hear bs d) = dv_schedname d"
  "dv_timeout (fold hear bs d) = dv_timeout d" "dv_time0 (fold hear bs d) = dv_time0 d"
  "dv_ask_fd (fold hear bs d) = dv_ask_fd d" "dv_ask_second_fd (fold hear bs d) = dv_ask_second_fd d"
  by (induction bs arbitrary: d) (simp_all add: hear_def)

lemma read_replies:
  assumes "\<forall>b\<in>set bs. NUL \<notin> set (bc_net b)" and "dv_ask_second_fd d = -1"
  shows "read_answers big (map reply_of bs) q d = Some ([], q, fold hear bs d)"
  using assms
proof (induction bs arbitrary: d)
  case Nil
  then show ?case
    by (subst read_answers.simps) (simp add: get_broad_answer_def)
next
  case (Cons b bs)
  then have "get_broad_answer (map reply_of (b # bs))
      = (Some (prepareBroadcastReply (bc_big b) version_char (bc_net b) (bc_start b), bc_addr b, bc_port b), map reply_of bs)"
    by (simp add: get_broad_answer_def reply_of_def reply_accepted)
  moreover have "read_answers big (map reply_of bs) q (hear b d) = Some ([], q, fold hear bs (hear b d))"
    using Cons.prems by (intro Cons.IH) (simp_all add: hear_def)
  ultimately show ?case
    using Cons.prems(1) by (subst read_answers.simps) (simp add: reply_accepted hear_def)
qed

text \<open>The best so far, after some answers to a search that knew none.\<close>

definition oldest :: "beacon \<Rightarrow> beacon list \<Rightarrow> bool" where
  "oldest b bs \<longleftrightarrow> b \<in> set bs \<and> (\<forall>c\<in>set bs. sint (bc_start b) \<le> sint (bc_start c))"

lemma hear_all:
  assumes "dv_best_version d = 0"
  defines "own \<equiv> \<lambda>bs. filter (same_net (dv_netname d)) bs"
  shows "if own bs = [] then fold hear bs d = d
         else dv_best_version (fold hear bs d) = 45 \<and> (\<exists>b. oldest b (own bs) \<and> dv_best_schedname (fold hear bs d) = bc_addr b
           \<and> dv_best_port (fold hear bs d) = bc_port b \<and> dv_best_start_time (fold hear bs d) = bc_start b)"
proof (induction bs rule: rev_induct)
  case Nil
  then show ?case
    by (simp add: own_def)
next
  case (snoc c bs)
  let ?e = "fold hear bs d"
  show ?case
  proof (cases "same_net (dv_netname d) c")
    case False
    then have "hear c ?e = ?e" and "own (bs @ [c]) = own bs"
      by (simp_all add: hear_def consider_answer_def same_net_def own_def)
    then have "fold hear (bs @ [c]) d = ?e" and "own (bs @ [c]) = own bs"
      by simp_all
    then show ?thesis
      using snoc by metis
  next
    case True
    then have own: "own (bs @ [c]) = own bs @ [c]" and eq: "strcasecmp_eq (dv_netname ?e) (take 254 (bc_net c))"
      by (simp_all add: own_def same_net_def)
    show ?thesis
    proof (cases "own bs = []")
      case True
      then have "?e = d"
        using snoc by simp
      then show ?thesis
        using own True eq assms(1) by (auto simp: hear_def consider_answer_def oldest_def)
    next
      case False
      then obtain b where b: "dv_best_version ?e = 45" "oldest b (own bs)" "dv_best_schedname ?e = bc_addr b"
          "dv_best_port ?e = bc_port b" "dv_best_start_time ?e = bc_start b"
        using snoc by auto
      show ?thesis
      proof (cases "sint (bc_start b) > sint (bc_start c)")
        case True
        then have "oldest c (own (bs @ [c]))"
          using b(2) by (auto simp: own oldest_def)
        then show ?thesis
          using True b eq own by (auto simp: hear_def consider_answer_def)
      next
        case False
        then have "oldest b (own (bs @ [c]))"
          using b(2) by (auto simp: own oldest_def)
        then show ?thesis
          using False b eq own by (auto simp: hear_def consider_answer_def)
      qed
    qed
  qed
qed

lemma consider_version: "dv_best_version (consider_answer x a p d) \<noteq> 0 \<or> consider_answer x a p d = d"
  by (auto simp: consider_answer_def Let_def split: prod.splits)

text \<open>An accepted answer has one of the three marks, so that reading it never ends the process.\<close>

lemma accepted_data:
  assumes "accept_answer d = Some b"
  shows "\<exists>x. get_broad_data big b = Some x"
proof -
  have "b = butlast (take BROAD_BUFLEN d) @ [NUL]" and "hd (take BROAD_BUFLEN d) = hd b"
    and "schar (hd b) \<in> {46, 47, 48}"
    using assms unfolding accept_answer_def Let_def version_schar broad_lens
    by (cases "take 268 d" rule: rev_cases; auto simp: hd_append split: if_splits)+
  then show ?thesis
    by (auto simp: get_broad_data_def version_sint Let_def)
qed

lemma read_answers_total: "\<exists>r1 r2 d'. read_answers big q1 q2 d = Some (r1, r2, d') \<and> dv_ask_second_fd d' = dv_ask_second_fd d"
proof (induction big q1 q2 d rule: read_answers.induct)
  case (1 big q1 q2 d)
  have data: "\<exists>x. get_broad_data big b = Some x" if "get_broad_answer q = (Some (b, a, p), r)" for q b a p r
    using that accepted_data by (auto simp: get_broad_answer_def split: list.splits option.splits)
  obtain x1 r1 where g1: "get_broad_answer q1 = (x1, r1)"
    by fastforce
  obtain x2 r2 where g2: "get_broad_answer q2 = (x2, r2)"
    by fastforce
  show ?case
  proof (cases x1)
    case (Some a)
    then obtain b h p y where a: "a = (b, h, p)" "get_broad_data big b = Some y"
      using data g1 by (metis prod_cases3)
    then have "read_answers big q1 q2 d = read_answers big r1 q2 (consider_answer y h p d)"
      using g1 Some by (subst read_answers.simps) simp
    then show ?thesis
      using 1(2) [OF g1 [symmetric] Some _ _ a(2)] a(1) by simp
  next
    case n1: None
    show ?thesis
    proof (cases "dv_ask_second_fd d = -1 \<or> x2 = None")
      case True
      then show ?thesis
        using g1 g2 n1 by (subst read_answers.simps) auto
    next
      case False
      then obtain b h p y where a: "x2 = Some (b, h, p)" "get_broad_data big b = Some y"
        using data g2 by (metis option.exhaust prod_cases3)
      then have "read_answers big q1 q2 d = read_answers big r1 r2 (consider_answer y h p d)"
        using g1 g2 n1 False by (subst read_answers.simps) simp
      then show ?thesis
        using 1(1) [OF g1 [symmetric] n1 _ g2 [symmetric] a(1) _ _ a(2)] False by simp
    qed
  qed
qed

section \<open>Properties\<close>

text \<open>
  C13. A daemon that waits for its time to pass, while any number of schedulers answer from hosts of any byte order, connects
  to the one of its own net that has started first; when no scheduler of its net answers it goes on waiting.
\<close>

theorem discovery_finds_oldest:
  assumes "\<forall>b\<in>set bs. NUL \<notin> set (bc_net b)" and "dv_schedname d = ''''" and "dv_best_version d = 0" and "dv_ask_fd d > 0"
    and "dv_ask_second_fd d = -1" and "timed_out y d" and "ds_debug_ports y = None" and "ds_connect y \<noteq> ConnectFails"
  shows "let own = filter (same_net (dv_netname d)) bs
    in if own = [] then try_get_scheduler y (map reply_of bs) [] d = Some (None, [], [], d)
       else \<exists>b fd d'. oldest b own \<and> try_get_scheduler y (map reply_of bs) [] d = Some (fd, [], [], d')
         \<and> dv_schedname d' = bc_addr b \<and> dv_sport d' = bc_port b
         \<and> fd = (if ds_prepare y (bc_addr b) (bc_port b) \<ge> 0 then Some (ds_prepare y (bc_addr b) (bc_port b)) else None)"
proof -
  let ?own = "filter (same_net (dv_netname d)) bs" and ?e = "fold hear bs d"
  have r: "read_answers (ds_big y) (map reply_of bs) [] d = Some ([], [], ?e)"
    using read_replies [OF assms(1,5)] .
  have t: "timed_out y ?e"
    using assms(6) by (simp add: timed_out_def)
  have second: "\<not> get_second_port_for_debug None p > 0" for p
    by (simp add: get_second_port_for_debug_def debug_ports_def)
  show ?thesis
  proof (cases "?own = []")
    case True
    then have "?e = d"
      using hear_all [OF assms(3), of bs] by simp
    then show ?thesis
      using True r assms(2-5) by (simp add: try_get_scheduler_def)
  next
    case False
    then obtain b where b: "dv_best_version ?e = 45" "oldest b ?own" "dv_best_schedname ?e = bc_addr b" "dv_best_port ?e = bc_port b"
      using hear_all [OF assms(3), of bs] by auto
    let ?d = "attempt_scheduler_connect y (?e\<lparr>dv_schedname := bc_addr b, dv_sport := bc_port b, dv_ask_fd := -1\<rparr>)"
    have "try_get_scheduler y (map reply_of bs) [] d = (let (fd, d4) = try_connect y True ?d in Some (fd, [], [], d4))"
      using r t b second assms(2,4,5,7) by (simp add: try_get_scheduler_def Let_def)
    moreover obtain fd d4 where c: "try_connect y True ?d = (fd, d4)"
      by fastforce
    moreover have "fd = (if ds_prepare y (bc_addr b) (bc_port b) \<ge> 0 then Some (ds_prepare y (bc_addr b) (bc_port b)) else None)"
      and "dv_schedname d4 = bc_addr b" and "dv_sport d4 = bc_port b"
      using c assms(8) by (cases "ds_connect y"; auto simp: try_connect_def attempt_scheduler_connect_def split: if_splits)+
    ultimately show ?thesis
      using False b(2) by auto
  qed
qed

text \<open>
  Whatever datagrams arrive on the port of the search, reading them ends and neither aborts the process nor fails an assertion.
\<close>

theorem discovery_never_aborts:
  assumes "dv_schedname d = '''' \<longrightarrow> dv_ask_fd d > 0"
    and "dv_ask_second_fd d = -1"
  shows "\<exists>r. try_get_scheduler y q1 q2 d = Some r"
  using assms read_answers_total [of "ds_big y" q1 q2 d]
  by (auto simp: try_get_scheduler_def Let_def split: prod.splits)

lemma announcement_parsed:
  assumes "NUL \<notin> set net"
  shows "isSchedulerVersion (announcement net start)"
    and "getSchedulerVersionData dbg (announcement net start) = Some (45, start, take 255 net)"
proof -
  have len: "length (announcement net start) = 268"
    by (simp add: announcement_def broad_lens)
  have tail: "drop 12 (announcement net start) = text_field 256 net"
    by (simp add: announcement_def broad_lens)
  show v: "isSchedulerVersion (announcement net start)"
    using len by (simp add: isSchedulerVersion_def announcement_def broad_lens)
  have "announcement net start ! 3 = version_char" "drop 4 (announcement net start) = be32 (time_high start) @ be32 (time_low start) @ text_field 256 net"
    "drop 8 (announcement net start) = be32 (time_low start) @ text_field 256 net"
    by (simp_all add: announcement_def broad_lens)
  moreover have "of_char version_char = (45 :: int)"
    by code_simp
  ultimately show "getSchedulerVersionData dbg (announcement net start) = Some (45, start, take 255 net)"
    using v tail c_string_text_field [OF assms, of 256] by (simp add: getSchedulerVersionData_def)
qed

text \<open>
  C37. An announcement is read by another scheduler as it was meant, whatever the hosts; a name of 128 to 255 characters makes a
  scheduler end when it announces itself.
\<close>

theorem announcement_read:
  "(NUL \<notin> set net \<longrightarrow> isSchedulerVersion (announcement net start)
      \<and> getSchedulerVersionData dbg (announcement net start) = Some (45, start, take 255 net))
   \<and> (length net \<in> {128..255} \<longrightarrow> broadcastSchedulerVersion big net start = None)"
proof (intro conjI impI)
  assume "length net \<in> {128..255}"
  then have "schar (char_of (length net)) < 1"
    by (simp add: schar_def Let_def)
  then show "broadcastSchedulerVersion big net start = None"
    by (simp add: broadcastSchedulerVersion_def old_announcement_def)
qed (simp_all add: announcement_parsed)

section \<open>Witnesses\<close>

definition demo_discover :: discover where
  "demo_discover = \<lparr>dv_netname = ''ICECREAM'', dv_schedname = '''', dv_timeout = 2, dv_time0 = 100, dv_ask_fd = 7, dv_ask_second_fd = -1,
     dv_sport = 8765, dv_best_version = 0, dv_best_start_time = 0, dv_best_schedname = '''', dv_best_port = 0, dv_multiple = False\<rparr>"

definition demo_sys :: discover_sys where
  "demo_sys = \<lparr>ds_asserts = True, ds_big = False, ds_slow = False, ds_debug_ports = None, ds_clock = 102,
     ds_prepare = (\<lambda>h p. 8), ds_connect = InProgress\<rparr>"

definition demo_beacons :: "beacon list" where
  "demo_beacons = [\<lparr>bc_big = True, bc_net = ''icecream'', bc_start = 50, bc_addr = ''10.0.0.1'', bc_port = 8765\<rparr>,
     \<lparr>bc_big = False, bc_net = ''ICECREAM'', bc_start = 40, bc_addr = ''10.0.0.2'', bc_port = 8765\<rparr>,
     \<lparr>bc_big = False, bc_net = ''other'', bc_start = 30, bc_addr = ''10.0.0.3'', bc_port = 8765\<rparr>]"

theorem discovery_finds_oldest_witness:
  "\<exists>d'. try_get_scheduler demo_sys (map reply_of demo_beacons) [] demo_discover = Some (Some 8, [], [], d') \<and> dv_schedname d' = ''10.0.0.2''"
proof -
  have own: "filter (same_net (dv_netname demo_discover)) demo_beacons = take 2 demo_beacons"
    by code_simp
  have old: "b = demo_beacons ! 1" if "oldest b (take 2 demo_beacons)" for b
    using that by (auto simp: oldest_def demo_beacons_def)
  have "\<forall>b\<in>set demo_beacons. NUL \<notin> set (bc_net b)" "timed_out demo_sys demo_discover"
    by code_simp+
  moreover have "dv_schedname demo_discover = ''''" "dv_best_version demo_discover = 0" "dv_ask_fd demo_discover > 0"
      "dv_ask_second_fd demo_discover = -1" "ds_debug_ports demo_sys = None" "ds_connect demo_sys \<noteq> ConnectFails"
      "ds_prepare demo_sys a p = 8" for a p
    by (simp_all add: demo_discover_def demo_sys_def)
  moreover have "take 2 demo_beacons \<noteq> []" "bc_addr (demo_beacons ! 1) = ''10.0.0.2''"
    by (simp_all add: demo_beacons_def)
  ultimately show ?thesis
    using discovery_finds_oldest [of demo_beacons demo_discover demo_sys] unfolding own Let_def
    by (auto dest!: old)
qed

theorem discovery_never_aborts_witness: "\<exists>r. try_get_scheduler demo_sys [(''garbage'', ''10.0.0.9'', 1), (replicate 268 (CHR 0x30), ''10.0.0.9'', 1)] [] demo_discover = Some r"
  by (rule discovery_never_aborts) (simp_all add: demo_discover_def)

theorem announcement_read_witness: "getSchedulerVersionData True (announcement ''ICECREAM'' 1700000000) = Some (45, 1700000000, ''ICECREAM'')
   \<and> broadcastSchedulerVersion False (replicate 200 CHR ''x'') 1700000000 = None"
  using announcement_read [of "''ICECREAM''" 1700000000 True False] announcement_read [of "replicate 200 CHR ''x''" 1700000000 True False] by simp

end
