(* ===== verification/SchedMain.thy ===== *)
theory SchedMain
  imports SchedReach Discovery
begin

text \<open>
  Parts of the loop in \<open>main\<close> of \<open>scheduler/scheduler.cpp\<close>: serving the queue until nothing more can be
  assigned, the datagrams of daemons that search a scheduler and of other schedulers that announce themselves, and
  the disconnection of all daemons and monitors.
\<close>

section \<open>Serving the queue\<close>

text \<open>\<open>while (empty_queue(...)) continue;\<close> with a bound on the rounds; the flag is whether the loop has ended.\<close>

primrec drain_queue :: "algorithm \<Rightarrow> u32 \<Rightarrow> nat \<Rightarrow> sched \<Rightarrow> (bool \<times> sched) option" where
  "drain_queue algo w 0 s = Some (False, s)"
| "drain_queue algo w (Suc n) s = do {
     (r, s1) \<leftarrow> empty_queue algo w s;
     if r then drain_queue algo w n s1 else Some (True, s1)
   }"

section \<open>Disconnecting\<close>

text \<open>\<open>while (!css.empty()) handle_end(css.front(), nullptr);\<close> and the same for the monitors; the bound is the length of the list.\<close>

primrec end_daemons :: "nat \<Rightarrow> sched \<Rightarrow> sched option" where
  "end_daemons 0 s = Some s"
| "end_daemons (Suc n) s = (case css s of [] \<Rightarrow> Some s | p # _ \<Rightarrow> do { s1 \<leftarrow> handle_end p s; end_daemons n s1 })"

primrec end_monitors :: "nat \<Rightarrow> sched \<Rightarrow> sched option" where
  "end_monitors 0 s = Some s"
| "end_monitors (Suc n) s = (case monitors s of [] \<Rightarrow> Some s | p # _ \<Rightarrow> do { s1 \<leftarrow> handle_end p s; end_monitors n s1 })"

definition disconnect_all :: "sched \<Rightarrow> sched option" where
  "disconnect_all s = do {
     s1 \<leftarrow> end_daemons (length (css s)) s;
     end_monitors (length (monitors s1)) s1
   }"

section \<open>Broadcasts\<close>

definition handle_scheduler_announce :: "bytes \<Rightarrow> string \<Rightarrow> bool \<Rightarrow> sched \<Rightarrow> sched option" where
  "handle_scheduler_announce buf netname persistent_clients s = do {
     (other_protocol_version, other_time, other_netname) \<leftarrow> getSchedulerVersionData (asserts s) buf;
     if other_protocol_version \<ge> 36 \<and> other_netname = netname
        \<and> (other_protocol_version > sint PROTOCOL_VERSION
           \<or> other_protocol_version = sint PROTOCOL_VERSION \<and> sint other_time < starttime s)
        \<and> \<not> persistent_clients
     then disconnect_all s else Some s
   }"

text \<open>The reply, if any, and the state after a datagram.\<close>

definition handle_broadcast :: "bool \<Rightarrow> string \<Rightarrow> bool \<Rightarrow> bytes \<Rightarrow> sched \<Rightarrow> (bytes option \<times> sched) option" where
  "handle_broadcast big netname persistent_clients buf s =
     (case isSchedulerDiscovery buf of
        Some daemon_version \<Rightarrow>
          Some (if daemon_version \<ge> sint MIN_PROTOCOL_VERSION
                then Some (prepareBroadcastReply big (hd buf) netname (of_int (starttime s))) else None, s)
      | None \<Rightarrow>
          if isSchedulerVersion buf
          then map_option (Pair None) (handle_scheduler_announce buf netname persistent_clients s) else Some (None, s))"

section \<open>The loops end\<close>

lemma end_daemons_inv:
  assumes "consistent s" and "\<not> asserts s" and "length (css s) \<le> n"
  shows "\<exists>s'. end_daemons n s = Some s' \<and> consistent s' \<and> \<not> asserts s' \<and> css s' = []"
  using assms
proof (induction n arbitrary: s)
  case (Suc n)
  show ?case
  proof (cases "css s")
    case Nil
    then show ?thesis
      using Suc.prems by simp
  next
    case (Cons p ps)
    then obtain c where "heap s p = Some c"
      using inv_css [OF Suc.prems(1), of p] by auto
    then obtain s1 where s1: "handle_end p s = Some s1" "consistent s1" "others_same p s s1" "css s1 = removeAll p (css s)"
      using handle_end_inv [OF Suc.prems(1) _ Suc.prems(2)] by metis
    have "length (css s1) \<le> n"
      using Suc.prems(3) Cons s1(4) le_trans [OF length_removeAll_less_eq [of p ps]] by simp
    then show ?thesis
      using Suc.IH [OF s1(2)] s1(1,3) Suc.prems(2) Cons by (simp add: others_same_def)
  qed
qed simp

lemma end_monitors_inv:
  assumes "consistent s" and "\<not> asserts s" and "length (monitors s) \<le> n"
  shows "\<exists>s'. end_monitors n s = Some s' \<and> consistent s' \<and> \<not> asserts s' \<and> monitors s' = [] \<and> set (css s') \<subseteq> set (css s)"
  using assms
proof (induction n arbitrary: s)
  case (Suc n)
  show ?case
  proof (cases "monitors s")
    case Nil
    then show ?thesis
      using Suc.prems by simp
  next
    case (Cons p ps)
    have l: "lists_ok s"
      using inv_lists [OF Suc.prems(1)] .
    then obtain c where c: "heap s p = Some c"
      using Cons by (auto simp: lists_ok_def live_def)
    then obtain s1 where s1: "handle_end p s = Some s1" "consistent s1" "others_same p s s1" "heap s1 p = None" "css s1 = removeAll p (css s)"
      using handle_end_inv [OF Suc.prems(1) _ Suc.prems(2)] by metis
    have "lists_ok s1"
      using inv_lists [OF s1(2)] .
    then have "distinct (monitors s1)" "p \<notin> set (monitors s1)"
      using s1(4) by (auto simp: lists_ok_def live_def)
    moreover have "set (monitors s1) \<subseteq> set (monitors s)"
      using s1(3) by (simp add: others_same_def)
    ultimately have "card (set (monitors s1)) \<le> card (set ps)"
      using Cons by (intro card_mono) auto
    then have "length (monitors s1) \<le> n"
      using Suc.prems(3) Cons l \<open>distinct (monitors s1)\<close> by (simp add: distinct_card lists_ok_def)
    moreover have "\<not> asserts s1"
      using s1(3) Suc.prems(2) by (simp add: others_same_def)
    ultimately obtain s' where "end_monitors n s1 = Some s'" "consistent s'" "\<not> asserts s'" "monitors s' = []" "set (css s') \<subseteq> set (css s1)"
      using Suc.IH [OF s1(2)] by blast
    then show ?thesis
      using s1(1,5) Cons by auto
  qed
qed simp

lemma disconnect_all_inv:
  assumes "consistent s" and "\<not> asserts s"
  shows "\<exists>s'. disconnect_all s = Some s' \<and> consistent s' \<and> css s' = [] \<and> monitors s' = []"
proof -
  obtain s1 where s1: "end_daemons (length (css s)) s = Some s1" "consistent s1" "\<not> asserts s1" "css s1 = []"
    using end_daemons_inv [OF assms, of "length (css s)"] by auto
  then show ?thesis
    using end_monitors_inv [OF s1(2,3), of "length (monitors s1)"] by (auto simp: disconnect_all_def)
qed

text \<open>Each assignment takes a request out of the queue, or a submitter that is gone out of the list.\<close>

definition drain_order :: "(sched \<times> sched) set" where
  "drain_order = measures [\<lambda>s. length (css s), \<lambda>s. queue_length (job_requests s)]"

lemma queue_length_enqueue [simp]: "queue_length (enqueue_job_requests_group g q) = length (g_l g) + queue_length q"
  by (induction q) auto

lemma pop_request_shorter:
  assumes "q_ok q" and "pop_request q = Some (k, j, q')"
  shows "queue_length q' < queue_length q"
  using assms
  by (cases q) (auto simp: pop_request_def q_ok_Cons get_first_job_request_def remove_job_request_def remove_job_def Let_def
      split: list.splits if_splits option.splits)

lemma serve_less:
  assumes "consistent s" and "\<not> asserts s" and "empty_queue algo w s = Some (True, s')"
  shows "(s', s) \<in> drain_order"
proof -
  obtain g q where q: "job_requests s = g # q"
    using assms(3) by (cases "job_requests s") (auto simp: empty_queue_def get_first_job_request_def)
  from empty_queue_inv [OF assms(1,2) q, of algo w] assms(3)
  obtain x q' job where a: "pop_request (job_requests s) = Some (g_key g, hd (g_l g), q')" "j_submitter job = g_submitter g"
      "answered (hd (g_l g)) job x q' s s'"
    by auto
  then consider x q' where "pop_request (job_requests s) = Some (g_key g, hd (g_l g), q')" "served (hd (g_l g)) x q' s s'"
    | "css s' = removeAll (g_submitter g) (css s)"
    by (metis answered_cases)
  then show ?thesis
  proof cases
    case 1
    have "q_ok (job_requests s)"
      using inv_queue [OF assms(1)] by (simp add: queue_ok_def)
    then have "queue_length q' < queue_length (job_requests s)"
      using 1(1) pop_request_shorter by blast
    then show ?thesis
      using 1(2) by (simp add: drain_order_def served_def)
  next
    case 2
    have "queue_ok (g # q) (job_at s)"
      using inv_queue [OF assms(1)] q by simp
    then obtain job where "job_at s (hd (g_l g)) = Some job" "j_submitter job = g_submitter g"
      by (cases "g_l g") (auto simp: queue_ok_def q_ok_Cons entry_ok_def split: option.splits)
    then have "g_submitter g \<in> set (css s)"
      using base_job(2) [OF inv_base [OF assms(1)], of "hd (g_l g)" job] by simp
    then show ?thesis
      using 2 length_removeAll_less [of "g_submitter g" "css s"] by (simp add: drain_order_def)
  qed
qed

lemma wf_drain_order: "wf drain_order"
  by (simp add: drain_order_def)

text \<open>Nothing can be assigned: the queue is empty, or its first request has to wait.\<close>

definition all_served :: "sched \<Rightarrow> bool" where
  "all_served s \<longleftrightarrow> (\<forall>g q. job_requests s = g # q \<longrightarrow>
     (\<exists>job sub. job_at s (hd (g_l g)) = Some job \<and> heap s (j_submitter job) = Some sub \<and> blocked s sub job))"

lemma all_served_randoms [simp]: "all_served (s\<lparr>randoms := rs\<rparr>) = all_served s"
  by (simp add: all_served_def blocked_def job_at_def)

lemma not_served:
  assumes "consistent s" and "\<not> asserts s" and "empty_queue algo w s = Some (False, s')"
  shows "all_served s'"
proof (cases "job_requests s")
  case Nil
  then show ?thesis
    using assms(3) by (auto simp: empty_queue_def get_first_job_request_def all_served_def)
next
  case (Cons g q)
  obtain rs where rs: "s' = s\<lparr>randoms := rs\<rparr>"
    "\<exists>job sub. job_at s (hd (g_l g)) = Some job \<and> heap s (j_submitter job) = Some sub \<and> blocked s sub job"
    using empty_queue_inv [OF assms(1,2) Cons, of algo w] unfolding assms(3) by (simp cong: conj_cong) blast
  have "all_served s"
    unfolding all_served_def Cons using rs(2) by simp
  then show ?thesis
    by (simp add: rs(1))
qed

lemma drain_ends:
  assumes "consistent s" and "\<not> asserts s"
  shows "\<exists>n s'. drain_queue algo w n s = Some (True, s') \<and> consistent s' \<and> all_served s'"
  using assms
proof (induction s rule: wf_induct_rule [OF wf_drain_order])
  case (1 s)
  obtain r s1 where s1: "empty_queue algo w s = Some (r, s1)" "consistent s1"
    using serve_inv [OF 1(2,3)] by blast
  show ?case
  proof (cases r)
    case False
    then have "drain_queue algo w (Suc 0) s = Some (True, s1)"
      using s1(1) by simp
    moreover have "all_served s1"
      using not_served [OF 1(2,3)] s1(1) False by simp
    ultimately show ?thesis
      using s1(2) by blast
  next
    case True
    then obtain g q where q: "job_requests s = g # q"
      using s1(1) by (cases "job_requests s") (auto simp: empty_queue_def get_first_job_request_def)
    have "\<not> asserts s1"
      using empty_queue_inv [OF 1(2,3) q, of algo w] s1(1) 1(3) by auto
    moreover have "(s1, s) \<in> drain_order"
      using serve_less [OF 1(2,3)] s1(1) True by simp
    ultimately obtain n s' where n: "drain_queue algo w n s1 = Some (True, s')" "consistent s'" "all_served s'"
      using 1(1) s1(2) by blast
    then have "drain_queue algo w (Suc n) s = Some (True, s')"
      using s1(1) True by simp
    then show ?thesis
      using n(2,3) by blast
  qed
qed

section \<open>Properties\<close>

text \<open>
  C15. In a consistent state the scheduler serves its queue until nothing more can be assigned: the loop ends, leaves a consistent
  state, and then the queue is empty or its first request is blocked.
\<close>

theorem queue_drained:
  assumes "consistent s" and "\<not> asserts s"
  shows "\<exists>n s'. drain_queue algo w n s = Some (True, s') \<and> consistent s' \<and> all_served s'"
  using drain_ends [OF assms] .

text \<open>
  C18. Of two schedulers of the same net and version that hear each other's announcements the one that has started first keeps its
  daemons and the other one disconnects all of its own, unless it runs with \<open>--persistent-client-connection\<close>, when it keeps them too. This
  is what a scheduler does with the announcement of another of the same version, of the net \<open>net\<close>, started at \<open>other\<close>.
\<close>

theorem older_scheduler_wins:
  assumes "consistent s" and "\<not> asserts s" and "NUL \<notin> set net" and "length net \<le> 255"
  shows "\<exists>s'. handle_broadcast big netname persistent_clients (announcement net other) s = Some (None, s') \<and> consistent s' \<and>
    (if net = netname \<and> sint other < starttime s \<and> \<not> persistent_clients then css s' = [] \<and> monitors s' = [] else s' = s)"
proof -
  have "isSchedulerDiscovery (announcement net other) = None"
    by (simp add: isSchedulerDiscovery_def announcement_def broad_lens)
  moreover have "isSchedulerVersion (announcement net other)"
    by (simp add: isSchedulerVersion_def announcement_def broad_lens)
  moreover have "getSchedulerVersionData (asserts s) (announcement net other) = Some (45, other, net)"
    using announcement_parsed(2) [OF assms(3), of "asserts s" other] assms(4) by simp
  ultimately show ?thesis
    using disconnect_all_inv [OF assms(1,2)] assms(1)
    by (auto simp: handle_broadcast_def handle_scheduler_announce_def version_sint)
qed

section \<open>Witnesses\<close>

theorem queue_drained_witness: "\<exists>n s'. drain_queue RANDOM 0 n demo_sched = Some (True, s') \<and> consistent s' \<and> all_served s'"
  by (rule queue_drained [OF demo_sched_inv demo_asserts])

theorem older_scheduler_wins_witness:
  "\<exists>s'. handle_broadcast False ''ICECREAM'' False (announcement ''ICECREAM'' 7) demo_sched = Some (None, s') \<and> css s' = [] \<and> monitors s' = []"
proof -
  have "(7 :: int) < starttime demo_sched"
    by (simp add: demo_sched_def sched_init_def)
  then show ?thesis
    using older_scheduler_wins [OF demo_sched_inv demo_asserts, of "''ICECREAM''" False "''ICECREAM''" False 7] by auto
qed

end
