(* ===== verification/SchedFrame.thy ===== *)
theory SchedFrame
  imports SchedEnd "HOL-Library.Multiset"
begin

text \<open>
  The exact effect of the end of a daemon (\<open>handle_end\<close> of \<open>scheduler/scheduler.cpp\<close>). The
  invariant of \<open>SchedInv\<close> says that the state is consistent afterwards; this theory says what the state
  is. A step is described by the messages it sends to the monitors and by what it does to each of the other
  connections; such descriptions compose.
\<close>

section \<open>What the monitors are told\<close>

text \<open>The channel of a monitor after some messages, unless one of them cannot be written.\<close>

primrec sent_all :: "libs \<Rightarrow> msg list \<Rightarrow> chan \<Rightarrow> chan option" where
  "sent_all L [] ch = Some ch"
| "sent_all L (m # ms) ch = (case send_msg L False False m ch of
      Some (True, ch') \<Rightarrow> sent_all L ms ch' | _ \<Rightarrow> None)"

definition heard :: "libs \<Rightarrow> msg list \<Rightarrow> compile_server option \<Rightarrow> compile_server option" where
  "heard L ms x = (case x of None \<Rightarrow> None
     | Some d \<Rightarrow> map_option (\<lambda>ch. d\<lparr>cs_chan := ch\<rparr>) (sent_all L ms (cs_chan d)))"

definition fds_lost :: "libs \<Rightarrow> msg list \<Rightarrow> cs_ptr set \<Rightarrow> (cs_ptr \<Rightarrow> compile_server option) \<Rightarrow> int set" where
  "fds_lost L ms Q h = {cs_fd d | q d. q \<in> Q \<and> h q = Some d \<and> heard L ms (h q) = None}"

lemma sent_all_append: "sent_all L (a @ b) ch = Option.bind (sent_all L a ch) (sent_all L b)"
  by (induction a arbitrary: ch) (auto split: option.splits bool.splits)

lemma heard_append: "heard L (a @ b) x = heard L b (heard L a x)"
  by (auto simp: heard_def sent_all_append split: option.splits)

lemma heard_Nil [simp]: "heard L [] x = x"
  by (cases x) (simp_all add: heard_def)

lemma heard_None [simp]: "heard L ms None = None"
  by (simp add: heard_def)

lemma heard_fd: "heard L ms (Some d) = Some d' \<Longrightarrow> cs_fd d' = cs_fd d"
  by (auto simp: heard_def)

lemma heard_before: "heard L b (heard L a x) = Some y \<Longrightarrow> \<exists>z. heard L a x = Some z"
  by (cases "heard L a x") simp_all

section \<open>The frame of a step\<close>

text \<open>
  The monitors of \<open>Q\<close> are told \<open>ms\<close>; those that cannot be written to are deleted with their
  descriptors. Every other connection \<open>q\<close> becomes \<open>F q\<close> of itself. Nothing but the connections,
  their descriptors, the list of monitors and the jobs is touched.
\<close>

definition frame :: "cs_ptr set \<Rightarrow> msg list \<Rightarrow> (cs_ptr \<Rightarrow> compile_server \<Rightarrow> compile_server) \<Rightarrow> sched \<Rightarrow> sched \<Rightarrow> bool" where
  "frame Q ms F s s' \<longleftrightarrow>
     s' = s\<lparr>heap := heap s', fd2cs := fd2cs s', monitors := monitors s', jobs := jobs s'\<rparr> \<and>
     monitors s' = filter (\<lambda>q. q \<in> Q \<longrightarrow> heard (sc_libs s) ms (heap s q) \<noteq> None) (monitors s) \<and>
     fd2cs s' = (\<lambda>fd. if fd \<in> fds_lost (sc_libs s) ms Q (heap s) then None else fd2cs s fd) \<and>
     heap s' = (\<lambda>q. if q \<in> Q then heard (sc_libs s) ms (heap s q) else map_option (F q) (heap s q))"

lemma frame_fields:
  assumes "frame Q ms F s s'"
  shows "css s' = css s" "controls s' = controls s" "job_requests s' = job_requests s" "sc_libs s' = sc_libs s"
proof -
  have e: "s' = s\<lparr>heap := heap s', fd2cs := fd2cs s', monitors := monitors s', jobs := jobs s'\<rparr>"
    using assms unfolding frame_def by blast
  show "css s' = css s" "controls s' = controls s" "job_requests s' = job_requests s" "sc_libs s' = sc_libs s"
    by (subst e, simp)+
qed

lemma frame_monitors: "frame Q ms F s s' \<Longrightarrow> set (monitors s') \<subseteq> set (monitors s) \<and> (distinct (monitors s) \<longrightarrow> distinct (monitors s'))"
  by (auto simp: frame_def)

text \<open>The monitors of \<open>Q\<close> that are still there.\<close>

definition listeners :: "cs_ptr set \<Rightarrow> sched \<Rightarrow> bool" where
  "listeners Q s \<longleftrightarrow> distinct (monitors s) \<and> set (monitors s) = {q \<in> Q. heap s q \<noteq> None}"

lemma frame_listeners: "frame Q ms F s s' \<Longrightarrow> listeners Q s \<Longrightarrow> listeners Q s'"
  by (auto simp: frame_def listeners_def)

lemma frame_refl:
  assumes "listeners Q s"
  shows "frame Q [] (\<lambda>_ d. d) s s"
proof -
  have "monitors s = filter (\<lambda>q. q \<in> Q \<longrightarrow> heap s q \<noteq> None) (monitors s)"
    using assms by (intro filter_True [symmetric]) (auto simp: listeners_def)
  then show ?thesis
    by (auto simp: frame_def fds_lost_def option.map_ident fun_eq_iff)
qed

lemma fds_lost_append:
  assumes "\<And>q. q \<in> Q \<Longrightarrow> h' q = heard L a (h q)"
  shows "fds_lost L (a @ b) Q h = fds_lost L a Q h \<union> fds_lost L b Q h'" (is "?l = ?r")
proof -
  have "fd \<in> ?l \<longleftrightarrow> fd \<in> ?r" for fd
  proof
    assume "fd \<in> ?l"
    then obtain q d where q: "q \<in> Q" "h q = Some d" "fd = cs_fd d" "heard L (a @ b) (h q) = None"
      by (auto simp: fds_lost_def)
    show "fd \<in> ?r"
    proof (cases "heard L a (h q)")
      case None
      with q show ?thesis
        unfolding fds_lost_def by blast
    next
      case (Some d')
      then have "h' q = Some d'" "cs_fd d' = fd" "heard L b (h' q) = None"
        using q assms heard_fd [of L a d d'] by (simp_all add: heard_append)
      with q(1) show ?thesis
        unfolding fds_lost_def by blast
    qed
  next
    assume "fd \<in> ?r"
    then consider (first) q d where "q \<in> Q" "h q = Some d" "fd = cs_fd d" "heard L a (h q) = None"
      | (second) q d where "q \<in> Q" "h' q = Some d" "fd = cs_fd d" "heard L b (h' q) = None"
      by (auto simp: fds_lost_def)
    then show "fd \<in> ?l"
    proof cases
      case first
      then have "heard L (a @ b) (h q) = None"
        by (simp add: heard_append)
      with first(1-3) show ?thesis
        unfolding fds_lost_def by blast
    next
      case second
      then obtain d0 where "h q = Some d0" "heard L (a @ b) (h q) = None" "cs_fd d0 = fd"
        using assms [OF second(1)] heard_fd [of L a _ d] by (cases "h q") (auto simp: heard_append)
      with second(1) show ?thesis
        unfolding fds_lost_def by blast
    qed
  qed
  then show ?thesis
    by blast
qed

text \<open>The monitors told by the second step may be those that are left of the first.\<close>

lemma frame_trans:
  assumes a: "frame Q a F s s1" and b: "frame Q b G s1 s2"
  shows "frame Q (a @ b) (\<lambda>q. G q \<circ> F q) s s2"
proof -
  note L = frame_fields(4) [OF a]
  have h1: "heap s1 q = heard (sc_libs s) a (heap s q)" if "q \<in> Q" for q
    using a that by (simp add: frame_def)
  have m1: "monitors s1 = filter (\<lambda>q. q \<in> Q \<longrightarrow> heard (sc_libs s) a (heap s q) \<noteq> None) (monitors s)"
    using a by (simp add: frame_def)
  have m2: "monitors s2 = filter (\<lambda>q. q \<in> Q \<longrightarrow> heard (sc_libs s) b (heap s1 q) \<noteq> None) (monitors s1)"
    using b by (simp add: frame_def L)
  have "monitors s2 = filter (\<lambda>q. q \<in> Q \<longrightarrow> heard (sc_libs s) (a @ b) (heap s q) \<noteq> None) (monitors s)"
    unfolding m2 m1 filter_filter by (rule filter_cong) (auto simp: heard_append h1 dest: heard_before)
  moreover have "s2 = s\<lparr>heap := heap s2, fd2cs := fd2cs s2, monitors := monitors s2, jobs := jobs s2\<rparr>"
  proof -
    have e1: "s1 = s\<lparr>heap := heap s1, fd2cs := fd2cs s1, monitors := monitors s1, jobs := jobs s1\<rparr>"
      and e2: "s2 = s1\<lparr>heap := heap s2, fd2cs := fd2cs s2, monitors := monitors s2, jobs := jobs s2\<rparr>"
      using a b unfolding frame_def by blast+
    show ?thesis
      by (subst e2, subst e1) simp
  qed
  moreover have "fd2cs s2 = (\<lambda>fd. if fd \<in> fds_lost (sc_libs s) (a @ b) Q (heap s) then None else fd2cs s fd)"
    using a b fds_lost_append [of Q "heap s1" "sc_libs s" a "heap s" b, OF h1] by (auto simp: frame_def L)
  moreover have "heap s2 = (\<lambda>q. if q \<in> Q then heard (sc_libs s) (a @ b) (heap s q) else map_option (G q \<circ> F q) (heap s q))"
    using a b by (auto simp: frame_def L heard_append option.map_comp fun_eq_iff)
  ultimately show ?thesis
    by (simp add: frame_def)
qed

text \<open>Sets of monitors told the same one after the other, and connections that are gone.\<close>

lemma frame_disjoint:
  assumes a: "frame P ms (\<lambda>_ d. d) s s1" and b: "frame R ms (\<lambda>_ d. d) s1 s2" and "P \<inter> R = {}"
  shows "frame (P \<union> R) ms (\<lambda>_ d. d) s s2"
proof -
  note L = frame_fields(4) [OF a]
  have h1: "heap s1 q = heap s q" if "q \<in> R" for q
    using a assms(3) that by (auto simp: frame_def option.map_ident)
  have fds: "fds_lost (sc_libs s) ms (P \<union> R) (heap s) = fds_lost (sc_libs s) ms P (heap s) \<union> fds_lost (sc_libs s) ms R (heap s1)"
    unfolding fds_lost_def using h1 by (auto 0 4)
  have "monitors s1 = filter (\<lambda>q. q \<in> P \<longrightarrow> heard (sc_libs s) ms (heap s q) \<noteq> None) (monitors s)"
    and "monitors s2 = filter (\<lambda>q. q \<in> R \<longrightarrow> heard (sc_libs s) ms (heap s1 q) \<noteq> None) (monitors s1)"
    using a b by (simp_all add: frame_def L)
  then have "monitors s2 = filter (\<lambda>q. q \<in> P \<union> R \<longrightarrow> heard (sc_libs s) ms (heap s q) \<noteq> None) (monitors s)"
    by (auto simp: h1 intro!: filter_cong)
  moreover have "s2 = s\<lparr>heap := heap s2, fd2cs := fd2cs s2, monitors := monitors s2, jobs := jobs s2\<rparr>"
  proof -
    have e1: "s1 = s\<lparr>heap := heap s1, fd2cs := fd2cs s1, monitors := monitors s1, jobs := jobs s1\<rparr>"
      and e2: "s2 = s1\<lparr>heap := heap s2, fd2cs := fd2cs s2, monitors := monitors s2, jobs := jobs s2\<rparr>"
      using a b unfolding frame_def by blast+
    show ?thesis
      by (subst e2, subst e1) simp
  qed
  moreover have "fd2cs s2 = (\<lambda>fd. if fd \<in> fds_lost (sc_libs s) ms (P \<union> R) (heap s) then None else fd2cs s fd)"
    unfolding fds using a b by (auto simp: frame_def L)
  moreover have "heap s2 = (\<lambda>q. if q \<in> P \<union> R then heard (sc_libs s) ms (heap s q) else map_option (\<lambda>d. d) (heap s q))"
    using a b assms(3) by (auto simp: frame_def L fun_eq_iff option.map_ident)
  ultimately show ?thesis
    by (simp add: frame_def)
qed

lemma frame_widen:
  assumes "frame P ms F s s'" and "P \<subseteq> Q" and "\<And>q. q \<in> Q - P \<Longrightarrow> heap s q = None \<and> q \<notin> set (monitors s)"
  shows "frame Q ms F s s'"
proof -
  have e: "s' = s\<lparr>heap := heap s', fd2cs := fd2cs s', monitors := monitors s', jobs := jobs s'\<rparr>"
    and m: "monitors s' = filter (\<lambda>q. q \<in> P \<longrightarrow> heard (sc_libs s) ms (heap s q) \<noteq> None) (monitors s)"
    and d: "fd2cs s' = (\<lambda>fd. if fd \<in> fds_lost (sc_libs s) ms P (heap s) then None else fd2cs s fd)"
    and h: "heap s' = (\<lambda>q. if q \<in> P then heard (sc_libs s) ms (heap s q) else map_option (F q) (heap s q))"
    using assms(1) unfolding frame_def by blast+
  have fds: "fds_lost (sc_libs s) ms Q (heap s) = fds_lost (sc_libs s) ms P (heap s)"
    unfolding fds_lost_def using assms(2,3) by fastforce
  have "filter (\<lambda>q. q \<in> P \<longrightarrow> heard (sc_libs s) ms (heap s q) \<noteq> None) (monitors s)
      = filter (\<lambda>q. q \<in> Q \<longrightarrow> heard (sc_libs s) ms (heap s q) \<noteq> None) (monitors s)"
    using assms(2,3) by (intro filter_cong) auto
  moreover have "(\<lambda>q. if q \<in> P then heard (sc_libs s) ms (heap s q) else map_option (F q) (heap s q))
      = (\<lambda>q. if q \<in> Q then heard (sc_libs s) ms (heap s q) else map_option (F q) (heap s q))"
    using assms(2,3) by (auto simp: fun_eq_iff)
  ultimately show ?thesis
    unfolding frame_def fds by (intro conjI e trans [OF m] trans [OF h] d)
qed

section \<open>The steps\<close>

lemma notify_one:
  assumes "send_to False p m s = Some (ok, s1)" and "(if ok then Some s1 else end_monitor p s1) = Some s2"
    and "heap s p \<noteq> None" and "p \<in> set (monitors s)"
  shows "frame {p} [m] (\<lambda>_ d. d) s s2 \<and> jobs s2 = jobs s"
proof -
  obtain c ch where c: "heap s p = Some c" "send_msg (sc_libs s) False False m (cs_chan c) = Some (ok, ch)"
      "s1 = s\<lparr>heap := (heap s)(p \<mapsto> c\<lparr>cs_chan := ch\<rparr>)\<rparr>"
    using assms(1) by (auto simp: send_to_def split: bind_splits)
  show ?thesis
  proof (cases ok)
    case True
    then have "heard (sc_libs s) [m] (heap s p) = Some (c\<lparr>cs_chan := ch\<rparr>)"
      using c by (simp add: heard_def)
    then show ?thesis
      using assms(2) True c(3) by (auto simp: frame_def fds_lost_def fun_eq_iff option.map_ident intro!: filter_True [symmetric])
  next
    case False
    then have h: "heard (sc_libs s) [m] (heap s p) = None"
      using c by (simp add: heard_def)
    have "fds_lost (sc_libs s) [m] {p} (heap s) = {cs_fd c}"
      using c(1) h by (auto simp: fds_lost_def)
    moreover have "s2 = s\<lparr>heap := (heap s)(p := None), fd2cs := (fd2cs s)(cs_fd c := None), monitors := removeAll p (monitors s)\<rparr>"
      using assms(2) False c(3) by (auto simp: end_monitor_def delete_cs_def split: if_splits)
    ultimately show ?thesis
      using h by (auto simp: frame_def fun_eq_iff option.map_ident removeAll_filter_not_eq intro!: filter_cong)
  qed
qed

lemma notify_loop_frame:
  assumes "notify_loop m ps s = Some s'" and "distinct ps" and "\<forall>p\<in>set ps. heap s p \<noteq> None \<and> p \<in> set (monitors s)"
  shows "frame (set ps) [m] (\<lambda>_ d. d) s s' \<and> jobs s' = jobs s"
  using assms
proof (induction ps arbitrary: s)
  case Nil
  then show ?case
    by (auto simp: frame_def fds_lost_def fun_eq_iff option.map_ident intro!: filter_True [symmetric])
next
  case (Cons p ps)
  obtain ok s1 s2 where s: "send_to False p m s = Some (ok, s1)" "(if ok then Some s1 else end_monitor p s1) = Some s2"
      "notify_loop m ps s2 = Some s'"
    using Cons.prems(1) by (auto split: bind_splits)
  have f: "frame {p} [m] (\<lambda>_ d. d) s s2" "jobs s2 = jobs s"
    using notify_one [OF s(1,2)] Cons.prems(3) by simp_all
  have "heap s2 q \<noteq> None \<and> q \<in> set (monitors s2)" if "q \<in> set ps" for q
    using f(1) Cons.prems(2,3) that by (auto simp: frame_def option.map_ident)
  with Cons.IH [OF s(3)] Cons.prems(2) have "frame (set ps) [m] (\<lambda>_ d. d) s2 s'" "jobs s' = jobs s2"
    by simp_all
  then show ?case
    using frame_disjoint [OF f(1)] Cons.prems(2) f(2) by simp
qed

lemma notify_frame:
  assumes "notify_monitors m s = Some s'" and "listeners Q s"
  shows "frame Q [m] (\<lambda>_ d. d) s s' \<and> jobs s' = jobs s"
proof -
  have l: "distinct (monitors s)" "set (monitors s) = {q \<in> Q. heap s q \<noteq> None}"
    using assms(2) by (simp_all add: listeners_def)
  have f: "frame (set (monitors s)) [m] (\<lambda>_ d. d) s s' \<and> jobs s' = jobs s"
    using assms(1) l unfolding notify_monitors_def by (intro notify_loop_frame) auto
  have "frame Q [m] (\<lambda>_ d. d) s s'"
    using conjunct1 [OF f] by (rule frame_widen) (use l(2) in auto)
  with f show ?thesis
    by blast
qed

lemma upd_frame:
  assumes "upd x f s = Some s'" and "listeners Q s" and "x \<notin> Q"
  shows "frame Q [] (\<lambda>q. if q = x then f else (\<lambda>d. d)) s s' \<and> jobs s' = jobs s"
proof -
  obtain c where c: "heap s x = Some c" "s' = s\<lparr>heap := (heap s)(x \<mapsto> f c)\<rparr>"
    using assms(1) by (auto simp: upd_def split: option.splits)
  have "monitors s = filter (\<lambda>q. q \<in> Q \<longrightarrow> heap s q \<noteq> None) (monitors s)"
    using assms(2) by (intro filter_True [symmetric]) (auto simp: listeners_def)
  then show ?thesis
    using c assms(3) by (auto simp: frame_def fds_lost_def fun_eq_iff option.map_ident)
qed

lemma frame_change_jobs:
  assumes "frame Q ms F (s\<lparr>jobs := js\<rparr>) s'"
  shows "frame Q ms F s s'"
proof -
  have e: "s' = s\<lparr>jobs := js, heap := heap s', fd2cs := fd2cs s', monitors := monitors s', jobs := jobs s'\<rparr>"
    and r: "monitors s' = filter (\<lambda>q. q \<in> Q \<longrightarrow> heard (sc_libs s) ms (heap s q) \<noteq> None) (monitors s)"
      "fd2cs s' = (\<lambda>fd. if fd \<in> fds_lost (sc_libs s) ms Q (heap s) then None else fd2cs s fd)"
      "heap s' = (\<lambda>q. if q \<in> Q then heard (sc_libs s) ms (heap s q) else map_option (F q) (heap s q))"
    using assms unfolding frame_def sched.update_convs sched.select_convs by (blast, simp_all cong: if_cong)
  have "s' = s\<lparr>heap := heap s', fd2cs := fd2cs s', monitors := monitors s', jobs := jobs s'\<rparr>"
    by (subst e) simp
  then show ?thesis
    unfolding frame_def using r by blast
qed

lemma listeners_cong [simp]: "listeners Q (s\<lparr>jobs := js\<rparr>) = listeners Q s" "listeners Q (s\<lparr>css := l\<rparr>) = listeners Q s"
    "listeners Q (s\<lparr>job_requests := q\<rparr>) = listeners Q s"
  by (simp_all add: listeners_def)

text \<open>What the end of one job of \<open>p\<close> does to the connection \<open>q\<close>.\<close>

definition retired :: "cs_ptr \<Rightarrow> cs_ptr \<Rightarrow> job_ptr \<times> job \<Rightarrow> compile_server \<Rightarrow> compile_server" where
  "retired p q e d =
     (let d1 = (if j_server (snd e) = Some q then (if q \<noteq> p then removeJob (fst e) d else d)\<lparr>cs_busyInstalling := 0\<rparr> else d)
      in if j_submitter (snd e) = q then submittedJobsDecrement d1 else d1)"

lemma retire_frame:
  assumes r: "retire p j job s = Some s'" and "job_at s j = Some job" and l: "listeners Q s"
    and out: "j_submitter job \<notin> Q" "\<And>x. j_server job = Some x \<Longrightarrow> x \<notin> Q"
  shows "frame Q [mon_job_done j] (\<lambda>q. retired p q (j, job)) s s' \<and> jobs s' = jobs_erase j (jobs s)"
proof -
  obtain s1 s2 s3 where s1: "notify_monitors (mon_job_done j) s = Some s1"
    and s2: "(case j_server job of Some x \<Rightarrow> if x \<noteq> p then upd x (removeJob j) s1 else Some s1 | None \<Rightarrow> Some s1) = Some s2"
    and s3: "reset_installing (j_server job) s2 = Some s3" and s4: "delete_job j s3 = Some s'"
    using r by (auto simp: retire_def split: bind_splits)
  let ?A = "\<lambda>q. if j_server job = Some q \<and> q \<noteq> p then removeJob j else (\<lambda>d. d)"
  let ?B = "\<lambda>q. if j_server job = Some q then (\<lambda>d. d\<lparr>cs_busyInstalling := 0\<rparr>) else (\<lambda>d. d)"
  let ?C = "\<lambda>q. if q = j_submitter job then submittedJobsDecrement else (\<lambda>d. d)"
  note f1 = notify_frame [OF s1 l]
  note l1 = frame_listeners [OF conjunct1 [OF f1] l]
  have f2: "frame Q [] ?A s1 s2 \<and> jobs s2 = jobs s1"
  proof (cases "\<exists>x. j_server job = Some x \<and> x \<noteq> p")
    case True
    then obtain x where x: "j_server job = Some x" "x \<noteq> p"
      by blast
    have "?A = (\<lambda>q. if q = x then removeJob j else (\<lambda>d. d))"
      using x by auto
    with upd_frame [of x "removeJob j" s1 s2 Q] x s2 l1 out(2) [OF x(1)] show ?thesis
      by simp
  next
    case False
    then have "?A = (\<lambda>_ d. d)" "s2 = s1"
      using s2 by (auto split: option.splits)
    then show ?thesis
      using frame_refl [OF l1] by simp
  qed
  note l2 = frame_listeners [OF conjunct1 [OF f2] l1]
  have f3: "frame Q [] ?B s2 s3 \<and> jobs s3 = jobs s2"
  proof (cases "j_server job")
    case None
    then show ?thesis
      using s3 frame_refl [OF l2] by (simp add: reset_installing_def)
  next
    case (Some x)
    have B: "?B = (\<lambda>q. if q = x then (\<lambda>d. d\<lparr>cs_busyInstalling := 0\<rparr>) else (\<lambda>d. d))"
      using Some by auto
    have "upd x (\<lambda>d. d\<lparr>cs_busyInstalling := 0\<rparr>) s2 = Some s3"
      using s3 Some by (simp add: reset_installing_def)
    from upd_frame [OF this l2 out(2) [OF Some]] show ?thesis
      unfolding B .
  qed
  note l3 = frame_listeners [OF conjunct1 [OF f3] l2]
  have "job_at s3 j = Some job"
    using assms(2) f1 f2 f3 by (simp add: job_at_def)
  then have "upd (j_submitter job) submittedJobsDecrement (s3\<lparr>jobs := jobs_erase j (jobs s3)\<rparr>) = Some s'"
    using s4 by (simp add: delete_job_def)
  from upd_frame [OF this _ out(1)] l3 have f4: "frame Q [] ?C s3 s'" "jobs s' = jobs_erase j (jobs s3)"
    using frame_change_jobs by auto
  have "frame Q ([mon_job_done j] @ [] @ [] @ []) (\<lambda>q. ((?C q \<circ> ?B q) \<circ> ?A q) \<circ> (\<lambda>d. d)) s s'"
    using frame_trans [OF conjunct1 [OF f1] frame_trans [OF conjunct1 [OF f2] frame_trans [OF conjunct1 [OF f3] f4(1)]]] .
  moreover have "(\<lambda>q. ((?C q \<circ> ?B q) \<circ> ?A q) \<circ> (\<lambda>d. d)) = (\<lambda>q. retired p q (j, job))"
    by (auto simp: fun_eq_iff retired_def)
  ultimately show ?thesis
    using f4(2) f1 f2 f3 by simp
qed

lemma retire_all_frame:
  assumes "retire_all p es s = Some s'" and "\<forall>e\<in>set es. job_at s (fst e) = Some (snd e)" and "distinct (map fst es)"
    and "listeners Q s" and "\<forall>e\<in>set es. j_submitter (snd e) \<notin> Q \<and> (\<forall>x. j_server (snd e) = Some x \<longrightarrow> x \<notin> Q)"
  shows "frame Q (map (\<lambda>e. mon_job_done (fst e)) es) (\<lambda>q. fold (retired p q) es) s s'
    \<and> jobs s' = filter (\<lambda>e. fst e \<notin> fst ` set es) (jobs s)"
  using assms
proof (induction es arbitrary: s)
  case Nil
  then show ?case
    using frame_refl by (simp add: id_def)
next
  case (Cons e es)
  obtain s1 where s1: "retire p (fst e) (snd e) s = Some s1" "retire_all p es s1 = Some s'"
    using Cons.prems(1) by (auto split: bind_splits)
  have f: "frame Q [mon_job_done (fst e)] (\<lambda>q. retired p q e) s s1 \<and> jobs s1 = jobs_erase (fst e) (jobs s)"
    using retire_frame [OF s1(1) _ Cons.prems(4)] Cons.prems(2,5) by simp
  have "job_at s1 = (job_at s)(fst e := None)"
    using job_at_erase [of "fst e" s] f by (simp add: job_at_def fun_eq_iff)
  then have "\<forall>x\<in>set es. job_at s1 (fst x) = Some (snd x)"
    using Cons.prems(2,3) by (auto simp: image_iff)
  with Cons.IH [OF s1(2)] Cons.prems(3,5) frame_listeners [OF conjunct1 [OF f] Cons.prems(4)]
  have g: "frame Q (map (\<lambda>e. mon_job_done (fst e)) es) (\<lambda>q. fold (retired p q) es) s1 s'"
    "jobs s' = filter (\<lambda>e. fst e \<notin> fst ` set es) (jobs s1)"
    by simp_all
  have "jobs s' = filter (\<lambda>x. fst x \<notin> fst ` set (e # es)) (jobs s)"
    unfolding g(2) using f by (auto simp: jobs_erase_def intro: filter_cong)
  with frame_trans [OF conjunct1 [OF f] g(1)] show ?case
    by (simp add: comp_def)
qed

lemma group_jobs_retire:
  assumes "end_group_jobs js s = Some s'" and "\<forall>j\<in>set js. \<exists>job. job_at s j = Some job \<and> j_server job = None" and "distinct js"
    and "listeners Q s" and "\<forall>j\<in>set js. \<forall>job. job_at s j = Some job \<longrightarrow> j_submitter job \<notin> Q"
  shows "retire_all p (map (\<lambda>j. (j, the (job_at s j))) js) s = Some s'"
  using assms
proof (induction js arbitrary: s)
  case (Cons j js)
  obtain job where job: "job_at s j = Some job" "j_server job = None"
    using Cons.prems(2) by auto
  have "end_group_jobs (j # js) s = do { s1 \<leftarrow> retire p j job s; end_group_jobs js s1 }"
    using job by (simp add: retire_def)
  then obtain s1 where s1: "retire p j job s = Some s1" "end_group_jobs js s1 = Some s'"
    using Cons.prems(1) by (auto split: bind_splits)
  have f: "frame Q [mon_job_done j] (\<lambda>q. retired p q (j, job)) s s1 \<and> jobs s1 = jobs_erase j (jobs s)"
    using retire_frame [OF s1(1) job(1) Cons.prems(4)] Cons.prems(5) job by simp
  have M: "job_at s1 = (job_at s)(j := None)"
    using job_at_erase [of j s] f by (simp add: job_at_def fun_eq_iff)
  have "retire_all p (map (\<lambda>j. (j, the (job_at s1 j))) js) s1 = Some s'"
  proof (rule Cons.IH [OF s1(2)])
    show "listeners Q s1"
      using frame_listeners [OF conjunct1 [OF f] Cons.prems(4)] .
  qed (use Cons.prems(2,3,5) M in \<open>auto split: if_splits\<close>)
  moreover have "map (\<lambda>j. (j, the (job_at s1 j))) js = map (\<lambda>j. (j, the (job_at s j))) js"
    using Cons.prems(3) unfolding M by auto
  ultimately show ?case
    using s1(1) job(1) by simp
qed simp

lemma erase_blacklists_frame:
  assumes "erase_blacklists p xs s = Some s'" and "listeners Q s" and "set xs \<inter> Q = {}"
  shows "frame Q [] (\<lambda>q. if q \<in> set xs then eraseCSFromBlacklist p else (\<lambda>d. d)) s s' \<and> jobs s' = jobs s"
  using assms
proof (induction xs arbitrary: s)
  case Nil
  then show ?case
    using frame_refl by simp
next
  case (Cons x xs)
  obtain s1 where s1: "upd x (eraseCSFromBlacklist p) s = Some s1" "erase_blacklists p xs s1 = Some s'"
    using Cons.prems(1) by (auto split: bind_splits)
  have f: "frame Q [] (\<lambda>q. if q = x then eraseCSFromBlacklist p else (\<lambda>d. d)) s s1 \<and> jobs s1 = jobs s"
    using upd_frame [OF s1(1) Cons.prems(2)] Cons.prems(3) by simp
  have g: "frame Q [] (\<lambda>q. if q \<in> set xs then eraseCSFromBlacklist p else (\<lambda>d. d)) s1 s' \<and> jobs s' = jobs s1"
    using Cons.IH [OF s1(2) frame_listeners [OF conjunct1 [OF f] Cons.prems(2)]] Cons.prems(3) by simp
  have "(\<lambda>q. (if q \<in> set xs then eraseCSFromBlacklist p else (\<lambda>d. d)) \<circ> (if q = x then eraseCSFromBlacklist p else (\<lambda>d. d)))
      = (\<lambda>q. if q \<in> set (x # xs) then eraseCSFromBlacklist p else (\<lambda>d. d))"
    by (auto simp: fun_eq_iff eraseCSFromBlacklist_def)
  with frame_trans [OF conjunct1 [OF f] conjunct1 [OF g]] show ?case
    using f g by simp
qed

section \<open>The end of a daemon\<close>

lemma frame_lists:
  assumes "frame Q ms F s s'"
  shows "frame Q ms F (s\<lparr>css := a, job_requests := b\<rparr>) (s'\<lparr>css := a, job_requests := b\<rparr>)"
proof -
  have e: "s' = s\<lparr>heap := heap s', fd2cs := fd2cs s', monitors := monitors s', jobs := jobs s'\<rparr>"
    and r: "monitors s' = filter (\<lambda>q. q \<in> Q \<longrightarrow> heard (sc_libs s) ms (heap s q) \<noteq> None) (monitors s)"
      "fd2cs s' = (\<lambda>fd. if fd \<in> fds_lost (sc_libs s) ms Q (heap s) then None else fd2cs s fd)"
      "heap s' = (\<lambda>q. if q \<in> Q then heard (sc_libs s) ms (heap s q) else map_option (F q) (heap s q))"
    using assms unfolding frame_def by blast+
  have "s'\<lparr>css := a, job_requests := b\<rparr> = s\<lparr>css := a, job_requests := b, heap := heap s', fd2cs := fd2cs s', monitors := monitors s', jobs := jobs s'\<rparr>"
    by (subst e) simp
  then show ?thesis
    unfolding frame_def sched.select_convs sched.update_convs using r by (simp cong: if_cong)
qed

lemma fold_retired:
  assumes "q \<noteq> p"
  shows "fold (retired p q) es d = d\<lparr>cs_jobList := filter (\<lambda>j. (j, Some q) \<notin> (\<lambda>e. (fst e, j_server (snd e))) ` set es) (cs_jobList d),
     cs_submittedJobsCount := cs_submittedJobsCount d - int (length (filter (\<lambda>e. j_submitter (snd e) = q) es)),
     cs_busyInstalling := (if \<exists>e\<in>set es. j_server (snd e) = Some q then 0 else cs_busyInstalling d)\<rparr>"
proof (induction es arbitrary: d)
  case (Cons e es)
  have "filter (\<lambda>j. (j, Some q) \<notin> R) (removeAll k l) = filter (\<lambda>j. j \<noteq> k \<and> (j, Some q) \<notin> R) l" for R :: "(job_ptr \<times> cs_ptr option) set" and k l
    by (induction l) auto
  with Cons.IH [of "retired p q e d"] assms show ?case
    by (auto simp: retired_def removeJob_def submittedJobsDecrement_def Let_def intro!: filter_cong)
qed simp

text \<open>The jobs that end with the daemon, in the order in which they are ended.\<close>

definition ended_jobs :: "cs_ptr \<Rightarrow> sched \<Rightarrow> (job_ptr \<times> job) list" where
  "ended_jobs p s = map (\<lambda>j. (j, the (job_at s j))) (queued_by p (job_requests s))
     @ filter (\<lambda>e. involves p (snd e) \<and> fst e \<notin> set (queued_by p (job_requests s))) (jobs s)"

lemma ended_jobs_mset:
  assumes "base_ok {} K s" and "queue_ok (job_requests s) (job_at s)"
  shows "mset (ended_jobs p s) = mset (filter (\<lambda>e. involves p (snd e)) (jobs s))"
proof -
  let ?Q = "queued_by p (job_requests s)"
  have keys: "distinct (map fst (jobs s))"
    using assms(1) by (auto simp: base_ok_def strict_sorted_iff)
  have Q: "distinct ?Q" "\<And>j. j \<in> set ?Q \<Longrightarrow> \<exists>job. job_at s j = Some job \<and> involves p job"
    using distinct_queued_by [of "job_requests s" p] queued_by_entry [OF assms(2), of _ p] assms(2)
    by (auto simp: queue_ok_def involves_def)
  have at: "job_at s j = Some job \<longleftrightarrow> (j, job) \<in> set (jobs s)" for j job
    using keys by (simp add: job_at_def map_of_eq_Some_iff)
  have "set (ended_jobs p s) = set (filter (\<lambda>e. involves p (snd e)) (jobs s))"
  proof (rule set_eqI)
    fix e :: "job_ptr \<times> job"
    obtain j job where e: "e = (j, job)"
      by (cases e)
    show "e \<in> set (ended_jobs p s) \<longleftrightarrow> e \<in> set (filter (\<lambda>e. involves p (snd e)) (jobs s))"
      unfolding e
    proof (cases "j \<in> set ?Q")
      case True
      obtain x where "job_at s j = Some x" "involves p x"
        using Q(2) [OF True] by blast
      with True show "(j, job) \<in> set (ended_jobs p s) \<longleftrightarrow> (j, job) \<in> set (filter (\<lambda>e. involves p (snd e)) (jobs s))"
        by (auto simp: ended_jobs_def image_iff at [symmetric])
    qed (auto simp: ended_jobs_def)
  qed
  moreover have "distinct (ended_jobs p s)"
    using Q(1) keys by (auto simp: ended_jobs_def distinct_map inj_on_def)
  moreover have "distinct (filter (\<lambda>e. involves p (snd e)) (jobs s))"
    using keys by (simp add: distinct_map)
  ultimately show ?thesis
    by (metis set_eq_iff_mset_eq_distinct)
qed

lemma end_daemon_frame:
  assumes b: "base_ok {} K s" and q: "queue_ok (job_requests s) (job_at s)" and c: "heap s p = Some c" "cs_type c = DAEMON"
    and e: "end_daemon p s = Some s'" and css': "css s' = removeAll p (css s)"
  shows "frame (set (monitors s)) (MonStatsMsg \<lparr>ms_hostid = cs_hostId c, ms_statmsg = ''State:Offline'' @ [CHR 0x0A]\<rparr>
        # map (\<lambda>e. mon_job_done (fst e)) (ended_jobs p s))
      (\<lambda>q. (if q \<in> set (css s) - {p} then eraseCSFromBlacklist p else (\<lambda>d. d)) \<circ> fold (retired p q) (ended_jobs p s))
      s (s'\<lparr>css := css s, job_requests := job_requests s\<rparr>)"
proof -
  let ?Q = "set (monitors s)" and ?q = "queued_by p (job_requests s)" and ?N = "\<lambda>x. x\<lparr>css := css s, job_requests := job_requests s\<rparr>"
  let ?es1 = "map (\<lambda>j. (j, the (job_at s j))) ?q"
  let ?es2 = "filter (\<lambda>e. involves p (snd e) \<and> fst e \<notin> set ?q) (jobs s)"
  obtain s1 s3 s5 where s1: "notify_monitors (MonStatsMsg \<lparr>ms_hostid = cs_hostId c, ms_statmsg = ''State:Offline'' @ [CHR 0x0A]\<rparr>) s = Some s1"
    and s3: "end_groups p (job_requests s1) (s1\<lparr>css := removeAll p (css s1)\<rparr>) = Some s3"
    and s5: "end_jobs p (jobs s3) (s3\<lparr>job_requests := filter (\<lambda>g. g_submitter g \<noteq> p) (job_requests s3)\<rparr>) = Some s5"
    and s6: "erase_blacklists p (css s5) s5 = Some s'"
    using e c(1) by (auto simp: end_daemon_def split: bind_splits)
  have l: "listeners ?Q s"
    using base_lists [OF b] by (auto simp: listeners_def lists_ok_def live_def)
  have keys: "distinct (map fst (jobs s))"
    using b by (auto simp: base_ok_def strict_sorted_iff)
  have out: "x \<notin> ?Q" if "x \<in> set (css s)" for x
    using base_lists [OF b] that by (fastforce simp: lists_ok_def live_def)
  have job: "j_submitter x \<notin> ?Q \<and> (\<forall>y. j_server x = Some y \<longrightarrow> y \<notin> ?Q)" if "job_at s j = Some x" for j x
    using base_job [OF b that] out by auto
  have at: "job_at s j = Some x \<longleftrightarrow> (j, x) \<in> set (jobs s)" for j x
    using keys by (simp add: job_at_def map_of_eq_Some_iff)
  have queued: "\<exists>x. job_at s j = Some x \<and> j_server x = None \<and> j_submitter x = p" if "j \<in> set ?q" for j
    using queued_by_entry [OF q that] .
  have dq: "distinct ?q"
    using q distinct_queued_by by (auto simp: queue_ok_def)
  note f1 = notify_frame [OF s1 l]
  note n1 = frame_fields [OF conjunct1 [OF f1]]
  let ?s2 = "s1\<lparr>css := removeAll p (css s1)\<rparr>"
  have l2: "listeners ?Q ?s2"
    using frame_listeners [OF conjunct1 [OF f1] l] by simp
  have at2: "job_at ?s2 = job_at s"
    using f1 by (simp add: job_at_def fun_eq_iff)
  have "end_group_jobs ?q ?s2 = Some s3"
    using s3 n1 by (simp add: end_groups_jobs)
  from group_jobs_retire [OF this _ dq l2, of p] queued job have r3: "retire_all p ?es1 ?s2 = Some s3"
    unfolding at2 by blast
  have f3': "frame ?Q (map (\<lambda>e. mon_job_done (fst e)) ?es1) (\<lambda>q. fold (retired p q) ?es1) ?s2 s3
      \<and> jobs s3 = filter (\<lambda>e. fst e \<notin> fst ` set ?es1) (jobs ?s2)"
  proof (rule retire_all_frame [OF r3 _ _ l2])
    show "\<forall>e\<in>set ?es1. job_at ?s2 (fst e) = Some (snd e)"
      unfolding at2 using queued by fastforce
    show "\<forall>e\<in>set ?es1. j_submitter (snd e) \<notin> ?Q \<and> (\<forall>x. j_server (snd e) = Some x \<longrightarrow> x \<notin> ?Q)"
      using queued job by fastforce
  qed (simp add: dq comp_def)
  note f3 = conjunct1 [OF f3']
  have j3: "jobs s3 = filter (\<lambda>e. fst e \<notin> set ?q) (jobs s)"
    using f3' f1 by (simp add: image_image)
  let ?s4 = "s3\<lparr>job_requests := filter (\<lambda>g. g_submitter g \<noteq> p) (job_requests s3)\<rparr>"
  have l4: "listeners ?Q ?s4"
    using frame_listeners [OF f3 l2] by simp
  have "filter (\<lambda>e. j_server (snd e) = Some p \<or> j_submitter (snd e) = p) (jobs s3) = ?es2"
    unfolding j3 by (auto simp: involves_def intro!: filter_cong)
  then have r5: "retire_all p ?es2 ?s4 = Some s5"
    using s5 by (simp add: end_jobs_retire)
  have f5: "frame ?Q (map (\<lambda>e. mon_job_done (fst e)) ?es2) (\<lambda>q. fold (retired p q) ?es2) ?s4 s5"
  proof (rule conjunct1, rule retire_all_frame [OF r5 _ _ l4])
    show "\<forall>e\<in>set ?es2. job_at ?s4 (fst e) = Some (snd e)"
      using keys by (auto simp: job_at_def j3 distinct_map_filter)
    show "\<forall>e\<in>set ?es2. j_submitter (snd e) \<notin> ?Q \<and> (\<forall>x. j_server (snd e) = Some x \<longrightarrow> x \<notin> ?Q)"
      using job at by auto
    show "distinct (map fst ?es2)"
      using keys by (rule distinct_map_filter)
  qed
  have c5: "css s5 = removeAll p (css s)"
    using frame_fields(1) [OF f5] frame_fields(1) [OF f3] n1(1) by simp
  have f6: "frame ?Q [] (\<lambda>q. if q \<in> set (css s) - {p} then eraseCSFromBlacklist p else (\<lambda>d. d)) s5 s' \<and> jobs s' = jobs s5"
    using erase_blacklists_frame [OF s6 frame_listeners [OF f5 l4]] out unfolding c5 by auto
  note lists = frame_lists [where a = "css s" and b = "job_requests s"]
  have a: "?N s1 = s1" "?N ?s2 = s1" "?N ?s4 = ?N s3"
    using n1 by simp_all
  have "frame ?Q ([MonStatsMsg \<lparr>ms_hostid = cs_hostId c, ms_statmsg = ''State:Offline'' @ [CHR 0x0A]\<rparr>] @ map (\<lambda>e. mon_job_done (fst e)) ?es1
        @ map (\<lambda>e. mon_job_done (fst e)) ?es2 @ [])
      (\<lambda>q. (((if q \<in> set (css s) - {p} then eraseCSFromBlacklist p else (\<lambda>d. d)) \<circ> fold (retired p q) ?es2) \<circ> fold (retired p q) ?es1) \<circ> (\<lambda>d. d))
      s (?N s')"
    using frame_trans [OF conjunct1 [OF f1] frame_trans [OF lists [OF f3, unfolded a] frame_trans [OF lists [OF f5, unfolded a] lists [OF conjunct1 [OF f6]]]]] .
  then show ?thesis
    by (simp add: ended_jobs_def comp_def fold_append)
qed

text \<open>
  What is left of another connection: the jobs that have ended are gone from its list and from the number of jobs it has
  submitted, it is no longer taken to be installing an environment when it was to compile one of them, and, if it is a server that has
  logged in, it does not blacklist the daemon.
\<close>

definition unburdened :: "cs_ptr \<Rightarrow> sched \<Rightarrow> cs_ptr \<Rightarrow> compile_server \<Rightarrow> compile_server" where
  "unburdened p s q d =
     (let gone = filter (\<lambda>e. involves p (snd e)) (jobs s)
      in d\<lparr>cs_jobList := filter (\<lambda>j. j \<notin> fst ` set gone) (cs_jobList d),
           cs_submittedJobsCount := cs_submittedJobsCount d - int (length (filter (\<lambda>e. j_submitter (snd e) = q) gone)),
           cs_busyInstalling := (if \<exists>e\<in>set gone. j_server (snd e) = Some q then 0 else cs_busyInstalling d),
           cs_blacklist := (if q \<in> set (css s) then (cs_blacklist d)(p := []) else cs_blacklist d)\<rparr>)"

definition farewell :: "cs_ptr \<Rightarrow> compile_server \<Rightarrow> sched \<Rightarrow> msg list" where
  "farewell p c s = MonStatsMsg \<lparr>ms_hostid = cs_hostId c, ms_statmsg = ''State:Offline'' @ [CHR 0x0A]\<rparr>
     # map (\<lambda>e. mon_job_done (fst e)) (ended_jobs p s)"

lemma unburdened_fold:
  assumes "consistent s" and "heap s q = Some d" and "q \<noteq> p"
  shows "((if q \<in> set (css s) - {p} then eraseCSFromBlacklist p else (\<lambda>d. d)) \<circ> fold (retired p q) (ended_jobs p s)) d = unburdened p s q d"
proof -
  let ?gone = "filter (\<lambda>e. involves p (snd e)) (jobs s)"
  have b: "base_ok {} {} s" and m: "mset (ended_jobs p s) = mset ?gone"
    using assms(1) ended_jobs_mset [of "{}" s p] by (simp_all add: consistent_def)
  then have set: "set (ended_jobs p s) = set ?gone"
    by (metis set_mset_mset)
  have "mset (filter (\<lambda>e. j_submitter (snd e) = q) (ended_jobs p s)) = mset (filter (\<lambda>e. j_submitter (snd e) = q) ?gone)"
    by (simp only: mset_filter m)
  then have len: "length (filter (\<lambda>e. j_submitter (snd e) = q) (ended_jobs p s)) = length (filter (\<lambda>e. j_submitter (snd e) = q) ?gone)"
    by (rule mset_eq_length)
  have keys: "distinct (map fst (jobs s))"
    using b by (auto simp: base_ok_def strict_sorted_iff)
  have "(j, Some q) \<in> (\<lambda>e. (fst e, j_server (snd e))) ` set ?gone \<longleftrightarrow> j \<in> fst ` set ?gone" if "j \<in> set (cs_jobList d)" for j
  proof -
    have "j \<in> assigned (job_at s) q"
      using b assms(2) that by (auto simp: base_ok_def server_ok_def)
    then obtain x where x: "job_at s j = Some x" "j_server x = Some q"
      by (auto simp: assigned_def)
    have "y = x" if "(j, y) \<in> set (jobs s)" for y
      using that x(1) keys by (simp add: job_at_def)
    with x(2) show ?thesis
      by (force simp: image_iff)
  qed
  then have list: "filter (\<lambda>j. (j, Some q) \<notin> (\<lambda>e. (fst e, j_server (snd e))) ` set ?gone) (cs_jobList d)
      = filter (\<lambda>j. j \<notin> fst ` set ?gone) (cs_jobList d)"
    by (intro filter_cong) auto
  show ?thesis
    unfolding comp_def fold_retired [OF assms(3)] set len list using assms(3)
    by (simp add: unburdened_def Let_def eraseCSFromBlacklist_def)
qed

section \<open>Properties\<close>

text \<open>
  C2. When a daemon disconnects, \<open>handle_end\<close> removes every trace of it and nothing else. The state afterwards is given
  exactly: the connection and its descriptor are gone, it is gone from the list of servers, its queued requests and all jobs it submitted
  or compiled are gone, and every other connection is as before but for what it had to do with these jobs (\<^const>\<open>unburdened\<close>). The
  monitors are told that the daemon is offline and that these jobs have ended (\<^const>\<open>farewell\<close>); one that cannot be written to is
  deleted with its descriptor. All other parts of the state are the same. No deleted object is used, and the state is consistent.
\<close>

theorem handle_end_clean:
  assumes "consistent s" and "heap s p = Some c" and "cs_type c = DAEMON"
  shows "\<exists>s'. handle_end p s = Some s' \<and> consistent s' \<and>
    s' = s\<lparr>css := removeAll p (css s),
      jobs := filter (\<lambda>e. \<not> (j_server (snd e) = Some p \<or> j_submitter (snd e) = p)) (jobs s),
      job_requests := filter (\<lambda>g. g_submitter g \<noteq> p) (job_requests s),
      monitors := filter (\<lambda>q. heard (sc_libs s) (farewell p c s) (heap s q) \<noteq> None) (monitors s),
      fd2cs := (\<lambda>fd. if fd = cs_fd c \<or> fd \<in> fds_lost (sc_libs s) (farewell p c s) (set (monitors s)) (heap s) then None else fd2cs s fd),
      heap := (\<lambda>q. if q = p then None
                 else if q \<in> set (monitors s) then heard (sc_libs s) (farewell p c s) (heap s q)
                 else map_option (unburdened p s q) (heap s q))\<rparr>"
proof -
  obtain s' where s': "handle_end p s = Some s'" "consistent s'" "without_cs p s s'"
    using handle_end_daemon [of "{}" s p c] assms by (auto simp: consistent_def)
  have b: "base_ok {} {} s" and q: "queue_ok (job_requests s) (job_at s)"
    using assms(1) by (simp_all add: consistent_def)
  have p: "p \<notin> set (monitors s)"
    using base_lists [OF b] assms(2,3) by (fastforce simp: lists_ok_def live_def)
  obtain s6 where s6: "end_daemon p s = Some s6" "delete_cs p s6 = Some s'"
    using s'(1) assms(2,3) by (auto simp: handle_end_def split: bind_splits)
  then obtain d where d: "heap s6 p = Some d" "s' = s6\<lparr>fd2cs := (fd2cs s6)(cs_fd d := None), heap := (heap s6)(p := None)\<rparr>"
    by (auto simp: delete_cs_def split: bind_splits)
  have lists: "css s6 = removeAll p (css s)" "jobs s6 = filter (\<lambda>e. \<not> involves p (snd e)) (jobs s)"
    "job_requests s6 = filter (\<lambda>g. g_submitter g \<noteq> p) (job_requests s)"
    using s'(3) d(2) by (simp_all add: without_cs_def)
  let ?n = "s6\<lparr>css := css s, job_requests := job_requests s\<rparr>"
  have f: "frame (set (monitors s)) (farewell p c s)
      (\<lambda>q. (if q \<in> set (css s) - {p} then eraseCSFromBlacklist p else (\<lambda>d. d)) \<circ> fold (retired p q) (ended_jobs p s)) s ?n"
    using end_daemon_frame [OF b q assms(2,3) s6(1) lists(1)] by (simp add: farewell_def)
  have "?n = s\<lparr>heap := heap ?n, fd2cs := fd2cs ?n, monitors := monitors ?n, jobs := jobs ?n\<rparr>"
    using f unfolding frame_def by blast
  moreover have n: "heap ?n = heap s6" "fd2cs ?n = fd2cs s6" "monitors ?n = monitors s6" "jobs ?n = jobs s6"
    by simp_all
  ultimately have e: "?n = s\<lparr>heap := heap s6, fd2cs := fd2cs s6, monitors := monitors s6, jobs := jobs s6\<rparr>"
    by (simp only: n)
  have mon: "monitors s6 = filter (\<lambda>q. heard (sc_libs s) (farewell p c s) (heap s q) \<noteq> None) (monitors s)"
    using f by (simp add: frame_def cong: filter_cong)
  have fd: "fd2cs s6 = (\<lambda>fd. if fd \<in> fds_lost (sc_libs s) (farewell p c s) (set (monitors s)) (heap s) then None else fd2cs s fd)"
    and h: "heap s6 = (\<lambda>q. if q \<in> set (monitors s) then heard (sc_libs s) (farewell p c s) (heap s q)
        else map_option ((if q \<in> set (css s) - {p} then eraseCSFromBlacklist p else (\<lambda>d. d)) \<circ> fold (retired p q) (ended_jobs p s)) (heap s q))"
    using f unfolding frame_def n by blast+
  have "cs_fd (fold (retired p p) es x) = cs_fd x" for es x
    by (induction es arbitrary: x) (auto simp: retired_def Let_def submittedJobsDecrement_def)
  then have "cs_fd d = cs_fd c"
    using d(1) assms(2) p by (auto simp: h)
  then have "s' = ?n\<lparr>css := css s6, job_requests := job_requests s6, fd2cs := (fd2cs s6)(cs_fd c := None), heap := (heap s6)(p := None)\<rparr>"
    using d(2) by simp
  also have "\<dots> = s\<lparr>heap := (heap s6)(p := None), fd2cs := (fd2cs s6)(cs_fd c := None), monitors := monitors s6, jobs := jobs s6,
      css := css s6, job_requests := job_requests s6\<rparr>"
    by (subst e) simp
  finally have "s' = s\<lparr>heap := (heap s6)(p := None), fd2cs := (fd2cs s6)(cs_fd c := None), monitors := monitors s6, jobs := jobs s6,
      css := css s6, job_requests := job_requests s6\<rparr>" .
  moreover have "(heap s6)(p := None) = (\<lambda>q. if q = p then None
                 else if q \<in> set (monitors s) then heard (sc_libs s) (farewell p c s) (heap s q)
                 else map_option (unburdened p s q) (heap s q))"
  proof (rule ext)
    fix q
    show "((heap s6)(p := None)) q = (if q = p then None
                 else if q \<in> set (monitors s) then heard (sc_libs s) (farewell p c s) (heap s q)
                 else map_option (unburdened p s q) (heap s q))"
    proof (cases "heap s q")
      case (Some x)
      then show ?thesis
        using unburdened_fold [OF assms(1) Some, of p] by (auto simp: h)
    qed (simp add: h)
  qed
  moreover have "(fd2cs s6)(cs_fd c := None) =
      (\<lambda>fd. if fd = cs_fd c \<or> fd \<in> fds_lost (sc_libs s) (farewell p c s) (set (monitors s)) (heap s) then None else fd2cs s fd)"
    by (auto simp: fd)
  ultimately show ?thesis
    using s'(1,2) by (simp add: lists mon involves_def)
qed

text \<open>Two daemons known under their descriptors: the first has submitted two jobs, of which the second compiles one.\<close>

definition demo_known :: sched where
  "demo_known = demo_sched\<lparr>fd2cs := [3 \<mapsto> 1, 4 \<mapsto> 2]\<rparr>"

lemma demo_known_inv: "consistent demo_known"
  using demo_sched_inv by (simp add: demo_known_def consistent_def base_ok_def lists_ok_def live_def)

theorem handle_end_clean_witness:
  "\<exists>s' d. handle_end 1 demo_known = Some s' \<and> consistent s' \<and> css s' = [2] \<and> jobs s' = [] \<and> job_requests s' = []
     \<and> heap s' 1 = None \<and> heap s' 2 = Some d \<and> cs_jobList d = []"
proof -
  let ?c = "(demo_server 4 0 1)\<lparr>cs_submittedJobsCount := 2\<rparr>"
  have c: "heap demo_known 1 = Some ?c" "cs_type ?c = DAEMON"
    by (simp_all add: demo_known_def demo_fields demo_server_fields)
  have f: "css demo_known = [1, 2]" "monitors demo_known = []" "heap demo_known 2 = Some ((demo_server 4 5 1)\<lparr>cs_jobList := [5]\<rparr>)"
    "job_requests demo_known = [\<lparr>g_l = [6], g_submitter = 1, g_niceness = 0\<rparr>]" "jobs demo_known = jobs demo_sched"
    by (simp_all add: demo_known_def demo_fields)
  have "cs_jobList (unburdened 1 demo_known 2 ((demo_server 4 5 1)\<lparr>cs_jobList := [5]\<rparr>)) = []"
    by (simp add: unburdened_def Let_def f involves_def) (force simp: demo_sched_def Job_new_def image_iff)
  moreover have "filter (\<lambda>e. \<not> (j_server (snd e) = Some 1 \<or> j_submitter (snd e) = 1)) (jobs demo_known) = []"
    by (simp add: f(5)) (simp add: demo_sched_def Job_new_def)
  ultimately show ?thesis
    using handle_end_clean [OF demo_known_inv c] f by auto
qed

end
