(* ===== verification/DaemonState.thy ===== *)
theory DaemonState
  imports Transport CxxString "HOL-Library.Monad_Syntax"
begin

unbundle bit_operations_syntax

text \<open>
  The state of the daemon (\<open>daemon/main.cpp\<close>: \<open>Client\<close>, \<open>Clients\<close>, \<open>Daemon\<close>), its connection to the scheduler, and its
  cache of environments. A client is known by the address of its channel, the key of the map \<open>clients\<close>; the use
  of a client that has been deleted, a failed assertion and a null pointer are \<open>None\<close>. What the operating system
  answers (forks, pipes, files, the clock) is part of the state; an answer that has run out is a failure.
\<close>

section \<open>Clients\<close>

datatype status = UNKNOWN_STATUS | GOTNATIVE | PENDING_USE_CS | JOBDONE | LINKJOB | TOINSTALL | WAITINSTALL | TOCOMPILE
  | WAITFORCS | WAITCOMPILE | CLIENTWORK | WAITFORCHILD | WAITCREATEENV

type_synonym client_ptr = nat

record dclient =
  dc_status :: status
  dc_job_id :: u32
  dc_outfile :: string
  dc_channel :: chan
  dc_fd :: int
  dc_usecsmsg :: "use_cs_msg option"
  dc_job :: "compile_job option"
  dc_client_id :: int
  dc_niceness :: u32
  dc_pipe_from_child :: int
  dc_pipe_to_child :: int
  dc_child_pid :: int
  dc_fulljob :: bool
  dc_pending_create_env :: string

definition Client_new :: "chan \<Rightarrow> int \<Rightarrow> dclient" where
  "Client_new ch fd = \<lparr>dc_status = UNKNOWN_STATUS, dc_job_id = 0, dc_outfile = '''', dc_channel = ch, dc_fd = fd, dc_usecsmsg = None,
     dc_job = None, dc_client_id = 0, dc_niceness = 0, dc_pipe_from_child = -1, dc_pipe_to_child = -1, dc_child_pid = -1,
     dc_fulljob = False, dc_pending_create_env = ''''\<rparr>"

section \<open>Maps\<close>

text \<open>\<open>std::map\<close>: association lists ordered by key.\<close>

fun map_put :: "('k \<Rightarrow> 'k \<Rightarrow> bool) \<Rightarrow> 'k \<Rightarrow> 'v \<Rightarrow> ('k \<times> 'v) list \<Rightarrow> ('k \<times> 'v) list" where
  "map_put lt k v [] = [(k, v)]"
| "map_put lt k v ((k', v') # m) =
     (if lt k k' then (k, v) # (k', v') # m else if k = k' then (k, v) # m else (k', v') # map_put lt k v m)"

definition map_erase :: "'k \<Rightarrow> ('k \<times> 'v) list \<Rightarrow> ('k \<times> 'v) list" where
  "map_erase k m = filter (\<lambda>e. fst e \<noteq> k) m"

fun string_less :: "string \<Rightarrow> string \<Rightarrow> bool" where
  "string_less a [] = False"
| "string_less [] (c # b) = True"
| "string_less (x # a) (c # b) = ((of_char x :: nat) < of_char c \<or> x = c \<and> string_less a b)"

section \<open>The daemon\<close>

record native_env =
  ne_name :: string
  ne_filetimes :: "(string \<times> int) list"
  ne_last_use :: int
  ne_size :: u64
  ne_create_env_pipe :: int

definition NativeEnvironment_new :: native_env where
  "NativeEnvironment_new = \<lparr>ne_name = '''', ne_filetimes = [], ne_last_use = 0, ne_size = 0, ne_create_env_pipe = 0\<rparr>"

record received_env =
  re_last_use :: int
  re_size :: u64

definition ReceivedEnvironment_new :: received_env where
  "ReceivedEnvironment_new = \<lparr>re_last_use = 0, re_size = 0\<rparr>"

text \<open>A measurement of the load: what \<open>fill_stats\<close>, \<open>getrusage\<close> and \<open>statfs\<close> say.\<close>

record load_sample =
  ls_idleLoad :: u64
  ls_niceLoad :: u64
  ls_memory_fillgrade :: u32
  ls_loadAvg :: "u32 \<times> u32 \<times> u32"
  ls_freeMem :: u32
  ls_rusage :: "(int \<times> int) option"
  ls_statfs :: "(int \<times> int) option"

text \<open>The answer of \<open>write\<close> to a pipe.\<close>

datatype pipe_write = PWrote nat | PWIntr | PWBroken | PWFail

record daemon =
  d_clients :: "(client_ptr \<times> dclient) list"
  d_active_processes :: u32
  d_received :: "(string \<times> received_env) list"
  d_native :: "(string \<times> native_env) list"
  d_envbasedir :: string
  d_machine_name :: string
  d_nodename :: string
  d_noremote :: bool
  d_cache_size :: u64
  d_fd2client :: "(int \<times> client_ptr) list"
  d_new_client_id :: int
  d_remote_name :: string
  d_next_scheduler_connect :: int
  d_icecream_load :: u64
  d_icecream_usage :: "int \<times> int"
  d_current_load :: int
  d_num_cpus :: int
  d_scheduler :: "chan option"
  d_discover :: bool
  d_daemon_port :: u32
  d_supported_features :: u32
  d_max_scheduler_pong :: int
  d_max_scheduler_ping :: int
  d_current_kids :: u32
  d_max_kids :: u32
  d_cache_size_limit :: u64
  d_mem_limit :: int
  d_last_stat :: "int \<times> int"
  d_asserts :: bool
  d_libs :: libs
  \<comment> \<open>the system\<close>
  d_now :: int
  d_timeofday :: "int \<times> int"
  d_randoms :: "u32 list"
  d_fast_reconnect :: bool
  d_mtime :: "string \<Rightarrow> int option"
  d_access :: "string \<Rightarrow> bool"
  d_readable :: "string \<Rightarrow> bool"
  d_install_forks :: "(int \<times> int \<times> int) list"
  d_compile_forks :: "(int \<times> int) list"
  d_create_forks :: "int list"
  d_created :: "(string \<times> u64) option list"
  d_installed_sizes :: "u64 list"
  d_install_results :: "bool list"
  d_job_stats :: "u32 list option list"
  d_pipe_writes :: "pipe_write list"
  d_verify_results :: "bool list"
  d_available :: environments
  d_samples :: "load_sample list"
  d_dump :: string
  d_chroot_possible :: bool
  d_removed_dirs :: "string list"
  d_unlinked :: "string list"

definition client_at :: "daemon \<Rightarrow> client_ptr \<Rightarrow> dclient option" where
  "client_at d p = map_of (d_clients d) p"

text \<open>An update of a client through a pointer.\<close>

definition upd_client :: "client_ptr \<Rightarrow> (dclient \<Rightarrow> dclient) \<Rightarrow> daemon \<Rightarrow> daemon option" where
  "upd_client p f d = (case client_at d p of
     None \<Rightarrow> None
   | Some c \<Rightarrow> Some (d\<lparr>d_clients := map (\<lambda>e. if fst e = p then (p, f (snd e)) else e) (d_clients d)\<rparr>))"

definition clients_size :: "daemon \<Rightarrow> u32" where
  "clients_size d = of_nat (length (d_clients d))"

definition slots :: "daemon \<Rightarrow> u32" where
  "slots d = max 1 (d_max_kids d)"

section \<open>Finding clients\<close>

definition find_by_client_id :: "int \<Rightarrow> daemon \<Rightarrow> client_ptr option" where
  "find_by_client_id i d = map_option fst (find (\<lambda>e. dc_client_id (snd e) = i) (d_clients d))"

definition find_by_pid :: "int \<Rightarrow> daemon \<Rightarrow> client_ptr option" where
  "find_by_pid pid d = map_option fst (find (\<lambda>e. dc_child_pid (snd e) = pid) (d_clients d))"

text \<open>\<open>get_earliest_client\<close>: the loop over the clients with the best one so far, its id (0: none) and niceness.\<close>

fun earliest_loop :: "status \<Rightarrow> client_ptr option \<Rightarrow> int \<Rightarrow> u32 \<Rightarrow> (client_ptr \<times> dclient) list \<Rightarrow> client_ptr option" where
  "earliest_loop s best min_id min_nice [] = best"
| "earliest_loop s best min_id min_nice ((p, c) # cs) =
     (if dc_status c = s \<and> (min_id = 0 \<or> min_id > dc_client_id c) \<and> dc_niceness c < min_nice
      then earliest_loop s (Some p) (dc_client_id c) (dc_niceness c) cs
      else earliest_loop s best min_id min_nice cs)"

definition get_earliest_client :: "status \<Rightarrow> daemon \<Rightarrow> client_ptr option" where
  "get_earliest_client s d = earliest_loop s None 0 (2 ^ 32 - 1) (d_clients d)"

section \<open>The scheduler\<close>

definition Daemon_close_scheduler :: "daemon \<Rightarrow> daemon" where
  "Daemon_close_scheduler d =
     (case d_scheduler d of
        None \<Rightarrow> d
      | Some _ \<Rightarrow>
          d\<lparr>d_scheduler := None, d_discover := False,
            d_next_scheduler_connect := (if d_fast_reconnect d then d_now d + 3
              else d_now d + 20 + uint ((case d_randoms d of [] \<Rightarrow> 0 | r # _ \<Rightarrow> r) AND 31)),
            d_randoms := tl (d_randoms d)\<rparr>)"

definition Daemon_send_scheduler :: "msg \<Rightarrow> daemon \<Rightarrow> (bool \<times> daemon) option" where
  "Daemon_send_scheduler m d =
     (case d_scheduler d of
        None \<Rightarrow> Some (False, d)
      | Some ch \<Rightarrow> do {
          (ok, ch') \<leftarrow> send_msg (d_libs d) True False m ch;
          let d1 = d\<lparr>d_scheduler := Some ch'\<rparr>;
          Some (if ok then (True, d1) else (False, Daemon_close_scheduler d1))
        })"

definition send_client :: "client_ptr \<Rightarrow> msg \<Rightarrow> daemon \<Rightarrow> (bool \<times> daemon) option" where
  "send_client p m d = do {
     c \<leftarrow> client_at d p;
     (ok, ch) \<leftarrow> send_msg (d_libs d) True False m (dc_channel c);
     d1 \<leftarrow> upd_client p (\<lambda>c. c\<lparr>dc_channel := ch\<rparr>) d;
     Some (ok, d1)
   }"

definition daemon_login :: "u32 \<Rightarrow> string \<Rightarrow> string \<Rightarrow> daemon \<Rightarrow> login_msg" where
  "daemon_login port node platform d = \<lparr>lg_port = port, lg_envs = d_available d, lg_max_kids = 0, lg_noremote = False,
     lg_chroot_possible = d_chroot_possible d, lg_nodename = node, lg_host_platform = platform,
     lg_supported_features = d_supported_features d\<rparr>"

definition Daemon_reannounce_environments :: "daemon \<Rightarrow> (bool \<times> daemon) option" where
  "Daemon_reannounce_environments d = Daemon_send_scheduler (LoginMsg (daemon_login 0 (d_nodename d) '''' d)) d"

section \<open>Statistics\<close>

definition diff_msec :: "int \<times> int \<Rightarrow> int \<times> int \<Rightarrow> int" where
  "diff_msec a b = (fst a - fst b) * 1000 + cdiv (snd a - snd b) 1000"

definition default_sample :: load_sample where
  "default_sample = \<lparr>ls_idleLoad = 0, ls_niceLoad = 0, ls_memory_fillgrade = 0, ls_loadAvg = (0, 0, 0), ls_freeMem = 0,
     ls_rusage = None, ls_statfs = None\<rparr>"

text \<open>The load of the children and the idle time since the last report.\<close>

definition stats_load :: "load_sample \<Rightarrow> int \<Rightarrow> daemon \<Rightarrow> daemon" where
  "stats_load x diff_stat d =
     (let load1 = d_icecream_load d + ls_idleLoad x * of_int diff_stat div 1000
      in case ls_rusage x of
           None \<Rightarrow> d\<lparr>d_icecream_load := load1\<rparr>
         | Some ru \<Rightarrow>
             (let m = of_int (cdiv (diff_msec ru (d_icecream_usage d)) (d_num_cpus d)) :: u32;
                  ice_msec = (if m = 0 \<and> d_current_kids d \<noteq> 0 then ucast (ls_niceLoad x * of_int diff_stat div 4000) else m)
              in d\<lparr>d_icecream_load := load1 + of_int (cdiv (uint ice_msec * diff_stat) 1000), d_icecream_usage := ru\<rparr>))"

definition stats_value :: "load_sample \<Rightarrow> int \<Rightarrow> daemon \<Rightarrow> u32" where
  "stats_value x diff_sent d =
     (let idle0 = (if diff_sent \<noteq> 0 then ucast (d_icecream_load d * 1000 div of_int diff_sent) else ucast (d_icecream_load d)) :: u32;
          idle_average = (if idle0 > 1000 then 1000 else idle0);
          load = max (1000 - idle_average) (ls_memory_fillgrade x)
      in case ls_statfs x of
           None \<Rightarrow> load
         | Some (bavail, bsize) \<Rightarrow>
             if bavail < cdiv (uint (d_max_kids d + 1 - d_current_kids d) * 25 * 1024 * 1024) bsize then 1000 else load)"

definition Daemon_maybe_stats :: "bool \<Rightarrow> daemon \<Rightarrow> (bool \<times> daemon) option" where
  "Daemon_maybe_stats force_check d =
     (let now = d_timeofday d;
          diff_sent = diff_msec now (d_last_stat d)
      in if diff_sent \<ge> d_max_scheduler_pong d * 1000 \<or> force_check then do {
           let x = (case d_samples d of [] \<Rightarrow> default_sample | y # _ \<Rightarrow> y);
           let d1 = stats_load x diff_sent (d\<lparr>d_samples := tl (d_samples d), d_last_stat := now\<rparr>);
           let load = stats_value x diff_sent d1;
           let d2 = d1\<lparr>d_mem_limit := max (sint (ls_freeMem x div max (d_max_kids d1) 1)) 100\<rparr>;
           let cur = d_current_load d2;
           let m = \<lparr>st_load = load, st_loadAvg1 = fst (ls_loadAvg x), st_loadAvg5 = fst (snd (ls_loadAvg x)),
                    st_loadAvg10 = snd (snd (ls_loadAvg x)), st_freeMem = ls_freeMem x, st_client_count = 0\<rparr>;
           (ok, d3) \<leftarrow> (if \<bar>sint load - cur\<bar> \<ge> 100 \<or> load = 1000 \<and> cur \<noteq> 1000 \<or> load \<noteq> 1000 \<and> cur = 1000
                        then Daemon_send_scheduler (StatsMsg m) d2 else Some (True, d2));
           Some (if ok then (True, d3\<lparr>d_icecream_load := 0, d_current_load := sint load\<rparr>) else (False, d3))
         } else Some (True, d))"

section \<open>The cache of environments\<close>

definition remove_environment_files :: "string \<Rightarrow> daemon \<Rightarrow> daemon" where
  "remove_environment_files env d = d\<lparr>d_removed_dirs := d_removed_dirs d @ [d_envbasedir d @ ''/target='' @ env]\<rparr>"

definition remove_native_environment_files :: "string \<Rightarrow> daemon \<Rightarrow> daemon" where
  "remove_native_environment_files env d =
     (if env = '''' \<or> d_mtime d env = None then d else d\<lparr>d_unlinked := d_unlinked d @ [env]\<rparr>)"

definition Daemon_remove_native_environment :: "string \<Rightarrow> daemon \<Rightarrow> daemon option" where
  "Daemon_remove_native_environment env_key d =
     (let d1 = remove_native_environment_files env_key d;
          e = (case map_of (d_native d1) env_key of None \<Rightarrow> NativeEnvironment_new | Some e \<Rightarrow> e)
      in if d_asserts d1 \<and> (env_key = '''' \<or> d_cache_size d1 < ne_size e) then None
         else Some (d1\<lparr>d_cache_size := d_cache_size d1 - ne_size e, d_native := map_erase env_key (d_native d1)\<rparr>))"

definition Daemon_remove_environment :: "string \<Rightarrow> daemon \<Rightarrow> daemon option" where
  "Daemon_remove_environment env_key d =
     (let d1 = remove_environment_files env_key d;
          e = (case map_of (d_received d1) env_key of None \<Rightarrow> ReceivedEnvironment_new | Some e \<Rightarrow> e)
      in if d_asserts d1 \<and> (env_key = '''' \<or> d_cache_size d1 < re_size e) then None
         else Some (d1\<lparr>d_cache_size := d_cache_size d1 - re_size e, d_received := map_erase env_key (d_received d1)\<rparr>))"

definition env_for_job :: "compile_job \<Rightarrow> string" where
  "env_for_job job = m_target_platform job @ ''/'' @ m_environment_version job"

text \<open>Whether a client uses the environment; a client that installs one has no job, and its null pointer is followed.\<close>

fun env_in_use :: "string \<Rightarrow> (client_ptr \<times> dclient) list \<Rightarrow> bool option" where
  "env_in_use env [] = Some False"
| "env_in_use env ((p, c) # cs) =
     (if dc_status c \<in> {TOCOMPILE, TOINSTALL, WAITINSTALL, WAITFORCHILD}
      then (case dc_job c of
              None \<Rightarrow> None
            | Some job \<Rightarrow> map_option (\<lambda>b. env_for_job job = env \<or> b) (env_in_use env cs))
      else env_in_use env cs)"

text \<open>The oldest environment that may go, and its time.\<close>

fun oldest_received :: "daemon \<Rightarrow> int \<Rightarrow> string \<Rightarrow> (string \<times> received_env) list \<Rightarrow> (int \<times> string) option" where
  "oldest_received d oldest_time oldest [] = Some (oldest_time, oldest)"
| "oldest_received d oldest_time oldest ((k, e) # m) =
     (if \<not> d_access d (d_envbasedir d @ ''/target='' @ k @ ''/usr/bin/as'') then Some (0, k)
      else if re_last_use e < oldest_time \<and> d_now d - re_last_use e > 200 then
        (case env_in_use k (d_clients d) of
           None \<Rightarrow> None
         | Some True \<Rightarrow> oldest_received d oldest_time oldest m
         | Some False \<Rightarrow> oldest_received d (re_last_use e) k m)
      else oldest_received d oldest_time oldest m)"

fun oldest_native :: "daemon \<Rightarrow> int \<Rightarrow> string \<Rightarrow> (string \<times> native_env) list \<Rightarrow> string" where
  "oldest_native d oldest_time oldest [] = oldest"
| "oldest_native d oldest_time oldest ((k, e) # m) =
     (if ne_name e \<noteq> '''' \<and> \<not> d_readable d (ne_name e) then k
      else
        let keep = (if ne_create_env_pipe e \<noteq> 0 then 365 * 24 * 60 * 60
                    else if length (d_native d) < 5 then 24 * 60 * 60 else 200)
        in if ne_last_use e < oldest_time \<and> d_now d - ne_last_use e > keep then oldest_native d (ne_last_use e) k m
           else oldest_native d oldest_time oldest m)"

text \<open>The loop of \<open>check_cache_size\<close>; each round removes an environment, so their number is enough fuel.\<close>

primrec cache_loop :: "nat \<Rightarrow> string \<Rightarrow> daemon \<Rightarrow> daemon option" where
  "cache_loop 0 new_env d = Some d"
| "cache_loop (Suc n) new_env d =
     (if d_cache_size d > d_cache_size_limit d then do {
        (t, recv) \<leftarrow> oldest_received d (d_now d + 90000) '''' (d_received d);
        let nat = oldest_native d t '''' (d_native d);
        if (recv = '''' \<or> recv = new_env) \<and> (nat = '''' \<or> nat = new_env) then Some d
        else do {
          d1 \<leftarrow> (if nat \<noteq> '''' then Daemon_remove_native_environment nat d else Daemon_remove_environment recv d);
          cache_loop n new_env d1
        }
      } else Some d)"

definition Daemon_check_cache_size :: "string \<Rightarrow> daemon \<Rightarrow> daemon option" where
  "Daemon_check_cache_size new_env d = cache_loop (Suc (length (d_received d) + length (d_native d))) new_env d"

end
