(* ===== verification/ExitCode.thy ===== *)
theory ExitCode
  imports Prelude
begin

text \<open>
  The exit codes of \<open>services/exitcode.h\<close> that the programs use, and \<open>shell_exit_status\<close> of \<open>services/exitcode.cpp\<close>.
\<close>

definition EXIT_DISTCC_FAILED :: u32 where "EXIT_DISTCC_FAILED = 100"
definition EXIT_COMPILER_CRASHED :: u32 where "EXIT_COMPILER_CRASHED = 104"
definition EXIT_OUT_OF_MEMORY :: u32 where "EXIT_OUT_OF_MEMORY = 105"
definition EXIT_IO_ERROR :: u32 where "EXIT_IO_ERROR = 107"
definition EXIT_COMPILER_MISSING :: u32 where "EXIT_COMPILER_MISSING = 110"
definition EXIT_RECURSION :: u32 where "EXIT_RECURSION = 111"
definition EXIT_CLIENT_KILLED :: u32 where "EXIT_CLIENT_KILLED = 118"
definition EXIT_TEST_SOCKET_ERROR :: u32 where "EXIT_TEST_SOCKET_ERROR = 119"

lemmas exit_codes = EXIT_DISTCC_FAILED_def EXIT_COMPILER_CRASHED_def EXIT_OUT_OF_MEMORY_def EXIT_IO_ERROR_def
  EXIT_COMPILER_MISSING_def EXIT_RECURSION_def EXIT_CLIENT_KILLED_def EXIT_TEST_SOCKET_ERROR_def

text \<open>A wait status, as the macros of \<open>sys/wait.h\<close> take it apart.\<close>

datatype wait_status = Exited nat | Signaled nat | NoExit

definition shell_exit_status :: "wait_status \<Rightarrow> u32" where
  "shell_exit_status status =
     (case status of Exited c \<Rightarrow> of_nat c | Signaled s \<Rightarrow> of_nat s + 128 | NoExit \<Rightarrow> -1)"

end
