(* ===== verification/Daemon.thy ===== *)
theory Daemon
  imports DaemonState ExitCode
begin

text \<open>
  The operations of the daemon (\<open>daemon/main.cpp\<close>): the transfer of environments, the requests of clients, the answers of
  the scheduler, and the distribution of the slots of this machine. One definition for each member function of
  \<open>Daemon\<close>; the results are those of the code, with the new state.
\<close>

section \<open>The end of a transfer and of a client\<close>

definition received_put :: "string \<Rightarrow> (received_env \<Rightarrow> received_env) \<Rightarrow> daemon \<Rightarrow> daemon" where
  "received_put k f d =
     d\<lparr>d_received := map_put string_less k
         (f (case map_of (d_received d) k of None \<Rightarrow> ReceivedEnvironment_new | Some e \<Rightarrow> e)) (d_received d)\<rparr>"

definition native_at :: "string \<Rightarrow> daemon \<Rightarrow> native_env" where
  "native_at k d = (case map_of (d_native d) k of None \<Rightarrow> NativeEnvironment_new | Some e \<Rightarrow> e)"

definition native_put :: "string \<Rightarrow> (native_env \<Rightarrow> native_env) \<Rightarrow> daemon \<Rightarrow> daemon" where
  "native_put k f d = d\<lparr>d_native := map_put string_less k (f (native_at k d)) (d_native d)\<rparr>"

definition installing :: "dclient \<Rightarrow> bool" where
  "installing c \<longleftrightarrow> dc_status c = TOINSTALL \<or> dc_status c = WAITINSTALL"

text \<open>The part of \<open>finish_transfer_env\<close> that gives up the pipes and the child.\<close>

definition drop_child :: "client_ptr \<Rightarrow> dclient \<Rightarrow> daemon \<Rightarrow> daemon option" where
  "drop_child p c d = do {
     d1 \<leftarrow> upd_client p (\<lambda>c. c\<lparr>dc_pipe_from_child := (if dc_pipe_from_child c \<ge> 0 then -1 else dc_pipe_from_child c),
                               dc_pipe_to_child := (if dc_pipe_to_child c \<ge> 0 then -1 else dc_pipe_to_child c),
                               dc_child_pid := (if dc_child_pid c \<ge> 0 then -1 else dc_child_pid c)\<rparr>) d;
     if dc_child_pid c \<ge> 0 then (if d_asserts d1 \<and> d_current_kids d1 = 0 then None else Some (d1\<lparr>d_current_kids := d_current_kids d1 - 1\<rparr>))
     else Some d1
   }"

definition Daemon_finish_transfer_env :: "client_ptr \<Rightarrow> bool \<Rightarrow> daemon \<Rightarrow> (bool \<times> daemon) option" where
  "Daemon_finish_transfer_env p cancel d = do {
     c \<leftarrow> client_at d p;
     if d_asserts d \<and> (dc_outfile c = '''' \<or> \<not> installing c
          \<or> \<not> cancel \<and> (dc_pipe_from_child c \<ge> 0 \<or> dc_pipe_to_child c \<ge> 0 \<or> dc_child_pid c \<ge> 0)) then None
     else do {
       d1 \<leftarrow> drop_child p c d;
       let current = dc_outfile c;
       let size = (if cancel then 0 else case d_installed_sizes d1 of [] \<Rightarrow> 0 | n # _ \<Rightarrow> n);
       let d2 = (if cancel then d1 else d1\<lparr>d_installed_sizes := tl (d_installed_sizes d1)\<rparr>);
       let d3 = (if size = 0 then remove_environment_files current d2 else d2);
       d4 \<leftarrow> upd_client p (\<lambda>c. c\<lparr>dc_status := UNKNOWN_STATUS, dc_outfile := ''''\<rparr>) d3;
       let d5 = (if size \<noteq> 0
                 then received_put current (\<lambda>e. \<lparr>re_last_use = d_now d4, re_size = size\<rparr>) (d4\<lparr>d_cache_size := d_cache_size d4 + size\<rparr>)
                 else d4);
       d6 \<leftarrow> Daemon_check_cache_size current d5;
       (r, d7) \<leftarrow> Daemon_reannounce_environments d6;
       (ok, d8) \<leftarrow> Daemon_maybe_stats True d7;
       Some (r \<and> ok, d8)
     }
   }"

definition release_slot :: "dclient \<Rightarrow> daemon \<Rightarrow> daemon" where
  "release_slot c d =
     (if dc_status c = CLIENTWORK
      then d\<lparr>d_active_processes := d_active_processes d - (if dc_fulljob c then slots d else 1)\<rparr> else d)"

text \<open>What the scheduler is told about a client that has gone: nothing, that its job is done, or that its local job is.\<close>

definition end_report :: "bool \<Rightarrow> dclient \<Rightarrow> u32 \<Rightarrow> u32 \<Rightarrow> msg option option" where
  "end_report dbg c exitcode count = do {
     job_id \<leftarrow> (if dc_status c = TOCOMPILE then map_option m_id (dc_job c) else Some (dc_job_id c));
     let use_client_id = (dc_status c = WAITFORCS);
     if use_client_id \<and> dbg \<and> \<not> dc_client_id c > 0 then None
     else if sint job_id > 0 \<or> use_client_id then
       (if dbg \<and> dc_status c \<in> {UNKNOWN_STATUS, GOTNATIVE, JOBDONE, WAITFORCHILD, LINKJOB, TOINSTALL, WAITINSTALL, WAITCREATEENV}
        then None
        else Some (Some (JobDoneMsg
          (let m = JobDoneMsg_make job_id exitcode (if dc_status c = TOCOMPILE then FROM_SERVER else FROM_SUBMITTER) count
           in if use_client_id then set_unknown_job_client_id (of_int (dc_client_id c)) m else m))))
     else Some (if dc_status c = CLIENTWORK then Some (JobLocalDoneMsg (of_int (dc_client_id c))) else None)
   }"

definition Daemon_handle_end :: "client_ptr \<Rightarrow> u32 \<Rightarrow> daemon \<Rightarrow> daemon option" where
  "Daemon_handle_end p exitcode d = do {
     c0 \<leftarrow> client_at d p;
     let d1 = d\<lparr>d_fd2client := map_erase (dc_fd c0) (d_fd2client d)\<rparr>;
     d2 \<leftarrow> (if installing c0 then map_option snd (Daemon_finish_transfer_env p True d1) else Some d1);
     c \<leftarrow> client_at d2 p;
     let d3 = release_slot c d2;
     let c1 = (if dc_status c = WAITCOMPILE \<and> exitcode = 119 then c\<lparr>dc_job_id := 0\<rparr> else c);
     let d4 = d3\<lparr>d_clients := map_erase p (d_clients d3)\<rparr>;
     if d_scheduler d4 \<noteq> None \<and> dc_status c1 \<noteq> WAITFORCHILD then do {
       report \<leftarrow> end_report (d_asserts d4) c1 exitcode (clients_size d4);
       (case report of None \<Rightarrow> Some d4 | Some m \<Rightarrow> map_option snd (Daemon_send_scheduler m d4))
     } else Some d4
   }"

section \<open>Answers of the scheduler\<close>

definition UseCSMsg_make :: "string \<Rightarrow> string \<Rightarrow> u32 \<Rightarrow> u32 \<Rightarrow> bool \<Rightarrow> u32 \<Rightarrow> u32 \<Rightarrow> use_cs_msg" where
  "UseCSMsg_make platform host port i gotit client_id matched =
     \<lparr>ucs_job_id = i, ucs_hostname = host, ucs_port = port, ucs_host_platform = platform, ucs_got_env = bool32 gotit,
      ucs_client_id = client_id, ucs_matched_job_id = matched\<rparr>"

text \<open>The results of these functions are nonzero (\<open>True\<close>) when the connection to the scheduler has to be given up.\<close>

definition unknown_client :: "u32 \<Rightarrow> daemon \<Rightarrow> (bool \<times> daemon) option" where
  "unknown_client job_id d =
     map_option (\<lambda>(ok, d1). (\<not> ok, d1))
       (Daemon_send_scheduler (JobDoneMsg (JobDoneMsg_make job_id 107 FROM_SUBMITTER (clients_size d))) d)"

definition Daemon_scheduler_use_cs :: "use_cs_msg \<Rightarrow> daemon \<Rightarrow> (bool \<times> daemon) option" where
  "Daemon_scheduler_use_cs m d =
     (case find_by_client_id (sint (ucs_client_id m)) d of
        None \<Rightarrow> unknown_client (ucs_job_id m) d
      | Some p \<Rightarrow>
          if ucs_hostname m = d_remote_name d \<and> ucs_port m = d_daemon_port d then do {
            d1 \<leftarrow> upd_client p (\<lambda>c. c\<lparr>dc_usecsmsg := Some (UseCSMsg_make (ucs_host_platform m) ''127.0.0.1'' (d_daemon_port d)
                     (ucs_job_id m) True 1 (ucs_matched_job_id m)), dc_status := PENDING_USE_CS, dc_job_id := ucs_job_id m\<rparr>) d;
            Some (False, d1)
          } else do {
            d1 \<leftarrow> upd_client p (\<lambda>c. c\<lparr>dc_usecsmsg := Some (UseCSMsg_make (ucs_host_platform m) (ucs_hostname m) (ucs_port m)
                     (ucs_job_id m) True 1 (ucs_matched_job_id m))\<rparr>) d;
            (ok, d2) \<leftarrow> send_client p (UseCSMsg m) d1;
            if \<not> ok then map_option (Pair False) (Daemon_handle_end p 143 d2)
            else do {
              d3 \<leftarrow> upd_client p (\<lambda>c. c\<lparr>dc_status := WAITCOMPILE, dc_job_id := ucs_job_id m\<rparr>) d2;
              Some (False, d3)
            }
          })"

definition Daemon_scheduler_no_cs :: "no_cs_msg \<Rightarrow> daemon \<Rightarrow> (bool \<times> daemon) option" where
  "Daemon_scheduler_no_cs m d =
     (case find_by_client_id (sint (ncs_client_id m)) d of
        None \<Rightarrow> unknown_client (ncs_job_id m) d
      | Some p \<Rightarrow> do {
          d1 \<leftarrow> upd_client p (\<lambda>c. c\<lparr>dc_usecsmsg := Some (UseCSMsg_make '''' ''127.0.0.1'' (d_daemon_port d) (ncs_job_id m) True 1 0),
                   dc_status := PENDING_USE_CS, dc_job_id := ncs_job_id m\<rparr>) d;
          Some (False, d1)
        })"

definition Daemon_scheduler_get_internals :: "daemon \<Rightarrow> (bool \<times> daemon) option" where
  "Daemon_scheduler_get_internals d = map_option (\<lambda>(ok, d1). (\<not> ok, d1)) (Daemon_send_scheduler (StatusTextMsg (d_dump d)) d)"

definition Daemon_handle_cs_conf :: "conf_cs_msg \<Rightarrow> daemon \<Rightarrow> daemon" where
  "Daemon_handle_cs_conf m d =
     d\<lparr>d_max_scheduler_pong := sint (cf_max_scheduler_pong m), d_max_scheduler_ping := sint (cf_max_scheduler_ping m)\<rparr>"

section \<open>Environments from a client\<close>

text \<open>The bytes of a chunk go to the child; the first result is whether the pipe failed.\<close>

fun pipe_write_loop :: "nat \<Rightarrow> pipe_write list \<Rightarrow> bool \<times> pipe_write list" where
  "pipe_write_loop len [] = (len \<noteq> 0, [])"
| "pipe_write_loop len (w # ws) =
     (if len = 0 then (False, w # ws)
      else case w of
             PWIntr \<Rightarrow> pipe_write_loop len ws
           | PWBroken \<Rightarrow> (False, ws)
           | PWFail \<Rightarrow> (True, ws)
           | PWrote n \<Rightarrow> pipe_write_loop (len - n) ws)"

definition Daemon_handle_file_chunk_env :: "client_ptr \<Rightarrow> msg \<Rightarrow> daemon \<Rightarrow> (bool \<times> daemon) option" where
  "Daemon_handle_file_chunk_env p m d = do {
     c \<leftarrow> client_at d p;
     if d_asserts d \<and> (\<not> installing c \<or> dc_pipe_to_child c < 0) then None
     else (case m of
       FileChunkMsg x \<Rightarrow>
         (case pipe_write_loop (fc_len x) (d_pipe_writes d) of
            (failed, ws) \<Rightarrow>
              (let d1 = d\<lparr>d_pipe_writes := ws\<rparr>
               in if failed then map_option (Pair False) (Daemon_handle_end p 137 d1) else Some (True, d1)))
     | EndMsg \<Rightarrow> do {
         d1 \<leftarrow> upd_client p (\<lambda>c. c\<lparr>dc_pipe_to_child := -1\<rparr>) d;
         if dc_child_pid c \<ge> 0 then map_option (Pair True) (upd_client p (\<lambda>c. c\<lparr>dc_status := WAITINSTALL\<rparr>) d1)
         else Daemon_finish_transfer_env p False d1
       }
     | _ \<Rightarrow> map_option (Pair False) (Daemon_handle_end p 138 d))
   }"

text \<open>The test of \<open>start_install_environment\<close>: printable ASCII without blanks and slashes.\<close>

definition legal_env_name :: "string \<Rightarrow> bool" where
  "legal_env_name name \<longleftrightarrow> name \<noteq> '''' \<and> list_all (\<lambda>c. let n = of_char c :: nat in 33 \<le> n \<and> n \<le> 126 \<and> c \<noteq> CHR ''/'') name"

text \<open>
  \<open>start_install_environment\<close> in the parent: the name is checked, the first chunk is read, and the directories, pipes and the
  child are made, with the outcome (process, pipe to it and from it) that the system gives.
\<close>

definition start_install_environment :: "client_ptr \<Rightarrow> string \<Rightarrow> daemon \<Rightarrow> ((int \<times> int \<times> int \<times> file_chunk_msg) option \<times> daemon) option" where
  "start_install_environment p name d =
     (if \<not> legal_env_name name then Some (None, d)
      else do {
        c \<leftarrow> client_at d p;
        let r = get_msg (d_libs d) 30 False (dc_channel c);
        d1 \<leftarrow> upd_client p (\<lambda>c. c\<lparr>dc_channel := snd r\<rparr>) d;
        (case fst r of
           Some (FileChunkMsg x) \<Rightarrow>
             (case d_install_forks d1 of
                [] \<Rightarrow> Some (None, d1)
              | (pid, pto, pfrom) # fs \<Rightarrow>
                  Some (if pid > 0 then Some (pid, pto, pfrom, x) else None, d1\<lparr>d_install_forks := fs\<rparr>))
         | _ \<Rightarrow> Some (None, d1))
      })"

definition Daemon_handle_transfer_env :: "client_ptr \<Rightarrow> env_transfer_msg \<Rightarrow> daemon \<Rightarrow> (bool \<times> daemon) option" where
  "Daemon_handle_transfer_env p m d = do {
     c \<leftarrow> client_at d p;
     if d_asserts d \<and> (dc_status c \<in> {TOINSTALL, WAITINSTALL, TOCOMPILE, WAITCOMPILE} \<or> dc_pipe_from_child c \<ge> 0 \<or> dc_pipe_to_child c \<ge> 0)
     then None
     else do {
       let target = (if et_target m = '''' then d_machine_name d else et_target m);
       let env = target @ ''/'' @ et_name m;
       (started, d1) \<leftarrow> start_install_environment p (et_name m) d;
       (case started of
          None \<Rightarrow> map_option (Pair False) (Daemon_handle_end p 144 (remove_environment_files env d1))
        | Some (pid, pto, pfrom, x) \<Rightarrow> do {
            d2 \<leftarrow> upd_client p (\<lambda>c. c\<lparr>dc_status := TOINSTALL, dc_outfile := env, dc_pipe_to_child := pto,
                     dc_pipe_from_child := pfrom, dc_child_pid := pid\<rparr>) (d1\<lparr>d_current_kids := d_current_kids d1 + 1\<rparr>);
            Daemon_handle_file_chunk_env p (FileChunkMsg x) d2
          })
     }
   }"

definition Daemon_handle_env_install_child_done :: "client_ptr \<Rightarrow> daemon \<Rightarrow> (bool \<times> daemon) option" where
  "Daemon_handle_env_install_child_done p d = do {
     c \<leftarrow> client_at d p;
     if d_asserts d \<and> (\<not> installing c \<or> dc_child_pid c < 0 \<or> dc_pipe_from_child c < 0 \<or> d_current_kids d = 0) then None
     else do {
       let success = (case d_install_results d of [] \<Rightarrow> False | b # _ \<Rightarrow> b);
       d1 \<leftarrow> upd_client p (\<lambda>c. c\<lparr>dc_child_pid := -1, dc_pipe_from_child := (if dc_pipe_from_child c \<ge> 0 then -1 else dc_pipe_from_child c)\<rparr>)
               (d\<lparr>d_install_results := tl (d_install_results d), d_current_kids := d_current_kids d - 1\<rparr>);
       if \<not> success then Daemon_finish_transfer_env p True d1
       else if dc_pipe_to_child c \<ge> 0 then (if d_asserts d1 \<and> dc_status c \<noteq> TOINSTALL then None else Some (True, d1))
       else Daemon_finish_transfer_env p False d1
     }
   }"

section \<open>Environments of this machine\<close>

definition Daemon_finish_get_native_env :: "client_ptr \<Rightarrow> string \<Rightarrow> daemon \<Rightarrow> (bool \<times> daemon) option" where
  "Daemon_finish_get_native_env p env_key d = do {
     c \<leftarrow> client_at d p;
     if d_asserts d \<and> (dc_status c \<noteq> WAITCREATEENV \<or> dc_pending_create_env c \<noteq> env_key) then None
     else do {
       let d0 = native_put env_key id d;
       (ok, d1) \<leftarrow> send_client p (UseNativeEnvMsg (ne_name (native_at env_key d0))) d0;
       if \<not> ok then map_option (Pair False) (Daemon_handle_end p 138 d1)
       else map_option (Pair True) (upd_client p (\<lambda>c. c\<lparr>dc_status := GOTNATIVE, dc_pending_create_env := ''''\<rparr>)
              (native_put env_key (\<lambda>e. e\<lparr>ne_last_use := d_now d1\<rparr>) d1))
     }
   }"

text \<open>The extra files of the request: their times, or \<open>None\<close> when one is missing.\<close>

fun extra_times :: "daemon \<Rightarrow> string list \<Rightarrow> (string \<times> int) list \<Rightarrow> (string \<times> int) list option" where
  "extra_times d [] filetimes = Some filetimes"
| "extra_times d (f # fs) filetimes =
     (case d_mtime d f of None \<Rightarrow> None | Some t \<Rightarrow> extra_times d fs (map_put string_less f t filetimes))"

text \<open>Both errors answer with \<open>EndMsg\<close> and end the client.\<close>

definition reject_client :: "client_ptr \<Rightarrow> u32 \<Rightarrow> daemon \<Rightarrow> (bool \<times> daemon) option" where
  "reject_client p exitcode d = do {
     (ok, d1) \<leftarrow> send_client p EndMsg d;
     map_option (Pair False) (Daemon_handle_end p exitcode d1)
   }"

definition Daemon_handle_get_native_env :: "client_ptr \<Rightarrow> get_native_env_msg \<Rightarrow> daemon \<Rightarrow> (bool \<times> daemon) option" where
  "Daemon_handle_get_native_env p m d = do {
     c \<leftarrow> client_at d p;
     let compiler = (if protocol (dc_channel c) < 41 \<and> \<not> contains (gne_compiler m) ''/'' then ''/usr/bin/'' @ gne_compiler m else gne_compiler m);
     ccompiler \<leftarrow> get_c_compiler (d_asserts d) compiler;
     cppcompiler \<leftarrow> get_cpp_compiler (d_asserts d) compiler;
     (case d_mtime d ccompiler of
        None \<Rightarrow> reject_client p 122 d
      | Some t \<Rightarrow> do {
          let times0 = map_put string_less ccompiler t [];
          let times1 = (case d_mtime d cppcompiler of None \<Rightarrow> times0 | Some t' \<Rightarrow> map_put string_less cppcompiler t' times0);
          let env_key = gne_compression m @ '':'' @ ccompiler @ concat (map (\<lambda>f. '':'' @ f) (gne_extrafiles m));
          (case extra_times d (gne_extrafiles m) times1 of
             None \<Rightarrow> reject_client p 122 d
           | Some filetimes \<Rightarrow> do {
               let d1 = native_put env_key id d;
               let e = native_at env_key d1;
               d2 \<leftarrow> (if ne_name e \<noteq> '''' \<and> (ne_filetimes e \<noteq> filetimes \<or> \<not> d_readable d1 (ne_name e))
                      then Daemon_remove_native_environment (ne_name e) d1 else Some d1);
               d3 \<leftarrow> upd_client p (\<lambda>c. c\<lparr>dc_status := WAITCREATEENV, dc_pending_create_env := env_key\<rparr>) (native_put env_key id d2);
               if ne_name (native_at env_key d3) \<noteq> '''' then Daemon_finish_get_native_env p env_key d3
               else if ne_create_env_pipe (native_at env_key d3) = 0 then
                 Some (True, (native_put env_key
                   (\<lambda>e. e\<lparr>ne_filetimes := filetimes, ne_create_env_pipe := (case d_create_forks d3 of [] \<Rightarrow> 0 | f # _ \<Rightarrow> f)\<rparr>) d3)
                   \<lparr>d_create_forks := tl (d_create_forks d3)\<rparr>)
               else Some (True, d3)
             })
        })
   }"

text \<open>No environment could be made: the clients that wait for it are ended one after the other, until none is left.\<close>

primrec reject_waiting :: "nat \<Rightarrow> string \<Rightarrow> daemon \<Rightarrow> daemon option" where
  "reject_waiting 0 env_key d = Some d"
| "reject_waiting (Suc n) env_key d =
     (case find (\<lambda>e. dc_pending_create_env (snd e) = env_key) (d_clients d) of
        None \<Rightarrow> Some d
      | Some e \<Rightarrow> do { (b, d1) \<leftarrow> reject_client (fst e) 121 d; reject_waiting n env_key d1 })"

text \<open>
  The loop over the clients when the environment is there. A client that cannot be told is ended, which erases the
  element under the iterator.
\<close>

primrec finish_waiting :: "string \<Rightarrow> client_ptr list \<Rightarrow> daemon \<Rightarrow> daemon option" where
  "finish_waiting env_key [] d = Some d"
| "finish_waiting env_key (p # ps) d = do {
     c \<leftarrow> client_at d p;
     if dc_pending_create_env c = env_key then do {
       (ok, d1) \<leftarrow> Daemon_finish_get_native_env p env_key d;
       if ok then finish_waiting env_key ps d1 else None
     } else finish_waiting env_key ps d
   }"

text \<open>The new name and size come from \<open>finish_create_env\<close>; a \<open>None\<close> in the script is an empty answer of the child.\<close>

definition Daemon_create_env_finished :: "string \<Rightarrow> daemon \<Rightarrow> (bool \<times> daemon) option" where
  "Daemon_create_env_finished env_key d =
     (if d_asserts d \<and> (map_of (d_native d) env_key = None \<or> ne_create_env_pipe (native_at env_key d) = 0) then None
      else do {
        let r = (case d_created d of [] \<Rightarrow> None | x # _ \<Rightarrow> x);
        let size = (case r of None \<Rightarrow> 0 | Some (_, n) \<Rightarrow> n);
        let d1 = native_put env_key (\<lambda>e. e\<lparr>ne_name := (case r of None \<Rightarrow> ne_name e | Some (nm, _) \<Rightarrow> d_envbasedir d @ ''/native/'' @ nm),
                   ne_create_env_pipe := 0\<rparr>) (d\<lparr>d_created := tl (d_created d)\<rparr>);
        let d2 = d1\<lparr>d_cache_size := d_cache_size d1 + size\<rparr>;
        if size = 0 then map_option (Pair False) (reject_waiting (length (d_clients d2)) env_key d2)
        else do {
          let d3 = native_put env_key (\<lambda>e. e\<lparr>ne_last_use := d_now d2, ne_size := size\<rparr>) d2;
          d4 \<leftarrow> Daemon_check_cache_size (ne_name (native_at env_key d3)) d3;
          d5 \<leftarrow> finish_waiting env_key (map fst (d_clients d4)) d4;
          Some (True, d5)
        }
      })"

section \<open>Jobs\<close>

definition Daemon_handle_job_done :: "client_ptr \<Rightarrow> job_done_msg \<Rightarrow> daemon \<Rightarrow> (bool \<times> daemon) option" where
  "Daemon_handle_job_done p m d = do {
     c \<leftarrow> client_at d p;
     if d_asserts d \<and> jd_job_id m \<noteq> dc_job_id c then None
     else do {
       let d1 = release_slot c d;
       d2 \<leftarrow> upd_client p (\<lambda>c. c\<lparr>dc_status := JOBDONE, dc_fulljob := False, dc_job_id := 0\<rparr>) d1;
       let used = jd_user_msec m + jd_sys_msec m;
       let d3 = (if \<not> is_from_server m \<and> used \<le> jd_real_msec m
                 then d2\<lparr>d_icecream_load := d_icecream_load d2 + ucast (used div of_int (d_num_cpus d2))\<rparr> else d2);
       Daemon_send_scheduler (JobDoneMsg (m\<lparr>jd_client_count := clients_size d3\<rparr>)) d3
     }
   }"

definition JobLocalBeginMsg_make :: "u32 \<Rightarrow> string \<Rightarrow> bool \<Rightarrow> daemon \<Rightarrow> job_local_begin_msg" where
  "JobLocalBeginMsg_make i outfile full d =
     \<lparr>jlb_outfile = outfile, jlb_stime = of_int (d_now d), jlb_id = i, jlb_fulljob = full, jlb_niceness = 0\<rparr>"

definition JobBeginMsg_make :: "u32 \<Rightarrow> u32 \<Rightarrow> daemon \<Rightarrow> job_begin_msg" where
  "JobBeginMsg_make i count d = \<lparr>jb_job_id = i, jb_stime = of_int (d_now d), jb_client_count = count\<rparr>"

text \<open>
  One round of the loop of \<open>handle_old_request\<close>: whether the loop goes on. A local job comes first, then a job that the
  scheduler gave to this machine for a client of it, then one from another machine, unless the load is too high.
\<close>

definition start_local_job :: "client_ptr \<Rightarrow> daemon \<Rightarrow> (bool \<times> daemon) option" where
  "start_local_job p d = do {
     (ok, d1) \<leftarrow> send_client p (JobLocalBeginMsg (JobLocalBeginMsg_make 0 '''' False d)) d;
     if \<not> ok then map_option (Pair True) (Daemon_handle_end p 112 d1)
     else do {
       c \<leftarrow> client_at d1 p;
       d2 \<leftarrow> upd_client p (\<lambda>c. c\<lparr>dc_status := CLIENTWORK\<rparr>)
               (d1\<lparr>d_active_processes := d_active_processes d1 + (if dc_fulljob c then slots d1 else 1)\<rparr>);
       Daemon_send_scheduler (JobLocalBeginMsg (JobLocalBeginMsg_make (of_int (dc_client_id c)) (dc_outfile c) (dc_fulljob c) d2)) d2
     }
   }"

definition start_pending_job :: "client_ptr \<Rightarrow> daemon \<Rightarrow> (bool \<times> daemon) option" where
  "start_pending_job p d = do {
     c \<leftarrow> client_at d p;
     m \<leftarrow> dc_usecsmsg c;
     (ok, d1) \<leftarrow> send_client p (UseCSMsg m) d;
     if ok then map_option (Pair True) (upd_client p (\<lambda>c. c\<lparr>dc_status := CLIENTWORK\<rparr>)
                  (d1\<lparr>d_active_processes := d_active_processes d1 + 1\<rparr>))
     else map_option (Pair True) (Daemon_handle_end p 129 d1)
   }"

definition start_compile_job :: "client_ptr \<Rightarrow> daemon \<Rightarrow> (bool \<times> daemon) option" where
  "start_compile_job p d = do {
     c \<leftarrow> client_at d p;
     job \<leftarrow> dc_job c;
     let d1 = received_put (env_for_job job) (\<lambda>e. e\<lparr>re_last_use := d_now d\<rparr>) d;
     let (pid, sock) = (case d_compile_forks d1 of [] \<Rightarrow> (-1, -1) | f # _ \<Rightarrow> f);
     let d2 = d1\<lparr>d_compile_forks := tl (d_compile_forks d1)\<rparr>;
     if pid > 0 then do {
       d3 \<leftarrow> upd_client p (\<lambda>c. c\<lparr>dc_status := WAITFORCHILD, dc_pipe_from_child := sock, dc_child_pid := pid\<rparr>)
               (d2\<lparr>d_current_kids := d_current_kids d2 + 1\<rparr>);
       (ok, d4) \<leftarrow> Daemon_send_scheduler (JobBeginMsg (JobBeginMsg_make (m_id job) (clients_size d3) d3)) d3;
       Some (True, d4)
     } else map_option (Pair True) (Daemon_handle_end p 117 d2)
   }"

definition old_request_step :: "daemon \<Rightarrow> (bool \<times> daemon) option" where
  "old_request_step d =
     (case get_earliest_client LINKJOB d of
        Some p \<Rightarrow> start_local_job p d
      | None \<Rightarrow>
          (case get_earliest_client PENDING_USE_CS d of
             Some p \<Rightarrow> start_pending_job p d
           | None \<Rightarrow>
               if d_current_load d \<ge> 1000 then Some (False, d)
               else (case get_earliest_client TOCOMPILE d of
                       Some p \<Rightarrow> start_compile_job p d
                     | None \<Rightarrow> Some (False, d))))"

primrec old_request_loop :: "nat \<Rightarrow> daemon \<Rightarrow> daemon option" where
  "old_request_loop 0 d = Some d"
| "old_request_loop (Suc n) d =
     (if d_current_kids d + d_active_processes d < slots d then do {
        (more, d1) \<leftarrow> old_request_step d;
        if more then old_request_loop n d1 else Some d1
      } else Some d)"

text \<open>Each round takes a client out of the three states, so the number of clients is enough fuel.\<close>

definition Daemon_handle_old_request :: "daemon \<Rightarrow> daemon option" where
  "Daemon_handle_old_request d = old_request_loop (Suc (length (d_clients d))) d"

text \<open>The eight numbers from the child: \<open>enum JobStatistics\<close>.\<close>

definition Daemon_handle_compile_done :: "client_ptr \<Rightarrow> daemon \<Rightarrow> (bool \<times> daemon) option" where
  "Daemon_handle_compile_done p d = do {
     c \<leftarrow> client_at d p;
     job \<leftarrow> dc_job c;
     if d_asserts d \<and> (dc_status c \<noteq> WAITFORCHILD \<or> dc_child_pid c \<le> 0 \<or> dc_pipe_from_child c < 0 \<or> d_current_kids d = 0) then None
     else do {
       let m0 = JobDoneMsg_make (m_id job) (-1) FROM_SERVER (clients_size d);
       let r = (case d_job_stats d of [] \<Rightarrow> None | x # _ \<Rightarrow> x);
       let (m, end_status) = (case r of
              Some [in_compressed, in_uncompressed, out_uncompressed, exit_code, real_msec, user_msec, sys_msec, sys_pfaults] \<Rightarrow>
                (m0\<lparr>jd_in_uncompressed := in_uncompressed, jd_in_compressed := in_compressed, jd_out_compressed := out_uncompressed,
                   jd_out_uncompressed := out_uncompressed, jd_exitcode := exit_code, jd_real_msec := real_msec,
                   jd_user_msec := user_msec, jd_sys_msec := sys_msec, jd_pfaults := sys_pfaults\<rparr>, exit_code)
            | _ \<Rightarrow> (m0, 151));
       d1 \<leftarrow> upd_client p (\<lambda>c. c\<lparr>dc_pipe_from_child := -1\<rparr>)
               (d\<lparr>d_current_kids := d_current_kids d - 1, d_job_stats := tl (d_job_stats d)\<rparr>);
       let d2 = received_put (env_for_job job) (\<lambda>e. e\<lparr>re_last_use := d_now d1\<rparr>) d1;
       d3 \<leftarrow> (if end_status = EXIT_COMPILER_MISSING then do {
                d3 \<leftarrow> Daemon_remove_environment (env_for_job job) d2;
                map_option snd (Daemon_reannounce_environments d3)
              } else Some d2);
       (ok, d4) \<leftarrow> Daemon_send_scheduler (JobDoneMsg m) d3;
       map_option (Pair False) (Daemon_handle_end p end_status d4)
     }
   }"

definition Daemon_handle_compile_file :: "client_ptr \<Rightarrow> compile_job \<Rightarrow> daemon \<Rightarrow> (bool \<times> daemon) option" where
  "Daemon_handle_compile_file p job d = do {
     c \<leftarrow> client_at d p;
     d1 \<leftarrow> upd_client p (\<lambda>c. c\<lparr>dc_job := Some job\<rparr>) d;
     if dc_status c = CLIENTWORK then
       (if d_asserts d1 \<and> m_environment_version job \<noteq> ''__client'' then None
        else Daemon_send_scheduler (JobBeginMsg (JobBeginMsg_make (m_id job) (clients_size d1) d1)) d1)
     else map_option (Pair True) (upd_client p (\<lambda>c. c\<lparr>dc_status := TOCOMPILE\<rparr>) d1)
   }"

section \<open>Requests\<close>

definition error_client :: "client_ptr \<Rightarrow> string \<Rightarrow> daemon \<Rightarrow> daemon option" where
  "error_client p t d = do {
     c \<leftarrow> client_at d p;
     if protocol (dc_channel c) \<ge> 23 then map_option snd (send_client p (StatusTextMsg t) d) else Some d
   }"

definition verify_env :: "client_ptr \<Rightarrow> string \<Rightarrow> string \<Rightarrow> daemon \<Rightarrow> (bool \<times> daemon) option" where
  "verify_env p target env d =
     (if target = '''' \<or> env = '''' then map_option (Pair False) (error_client p ''verify_env: target or env empty'' d)
      else
        let dirname = d_envbasedir d @ ''/target='' @ target @ ''/'' @ env
        in if \<not> d_access d (dirname @ ''/bin/true'')
           then map_option (Pair False) (error_client p (dirname @ ''/bin/true is not executable, installed environment removed?'') d)
           else Some (case d_verify_results d of [] \<Rightarrow> False | b # _ \<Rightarrow> b, d\<lparr>d_verify_results := tl (d_verify_results d)\<rparr>))"

definition Daemon_handle_verify_env :: "client_ptr \<Rightarrow> verify_env_msg \<Rightarrow> daemon \<Rightarrow> (bool \<times> daemon) option" where
  "Daemon_handle_verify_env p m d = do {
     (ok, d1) \<leftarrow> verify_env p (ve_target m) (ve_environment m) d;
     send_client p (VerifyEnvResultMsg ok) d1
   }"

definition Daemon_handle_blacklist_host_env :: "blacklist_host_env_msg \<Rightarrow> daemon \<Rightarrow> (bool \<times> daemon) option" where
  "Daemon_handle_blacklist_host_env m d = Daemon_send_scheduler (BlacklistHostEnvMsg m) d"

definition Daemon_handle_get_cs :: "client_ptr \<Rightarrow> get_cs_msg \<Rightarrow> daemon \<Rightarrow> (bool \<times> daemon) option" where
  "Daemon_handle_get_cs p m d = do {
     c \<leftarrow> client_at d p;
     let i = (of_int (dc_client_id c) :: u32);
     d1 \<leftarrow> upd_client p (\<lambda>c. c\<lparr>dc_status := WAITFORCS, dc_niceness := gcs_niceness m\<rparr>) d;
     (case d_scheduler d1 of
        None \<Rightarrow>
          map_option (Pair True) (upd_client p (\<lambda>c. c\<lparr>dc_usecsmsg := Some (UseCSMsg_make (gcs_target m) ''127.0.0.1'' (d_daemon_port d1) i True 1 0),
            dc_status := PENDING_USE_CS, dc_job_id := i\<rparr>) d1)
      | Some _ \<Rightarrow> Daemon_send_scheduler (GetCSMsg (m\<lparr>gcs_client_id := i, gcs_client_count := clients_size d1\<rparr>)) d1)
   }"

definition Daemon_handle_local_job :: "client_ptr \<Rightarrow> job_local_begin_msg \<Rightarrow> daemon \<Rightarrow> (bool \<times> daemon) option" where
  "Daemon_handle_local_job p m d =
     map_option (Pair True) (upd_client p (\<lambda>c. c\<lparr>dc_status := LINKJOB, dc_niceness := jlb_niceness m, dc_outfile := jlb_outfile m,
       dc_fulljob := jlb_fulljob m\<rparr>) d)"

definition Daemon_dispatch :: "client_ptr \<Rightarrow> msg \<Rightarrow> daemon \<Rightarrow> (bool \<times> daemon) option" where
  "Daemon_dispatch p m d =
     (case m of
        GetNativeEnvMsg x \<Rightarrow> Daemon_handle_get_native_env p x d
      | CompileFileMsg x \<Rightarrow> Daemon_handle_compile_file p x d
      | EnvTransferMsg x \<Rightarrow> Daemon_handle_transfer_env p x d
      | GetCSMsg x \<Rightarrow> Daemon_handle_get_cs p x d
      | EndMsg \<Rightarrow> map_option (Pair False) (Daemon_handle_end p 119 d)
      | JobLocalBeginMsg x \<Rightarrow> Daemon_handle_local_job p x d
      | JobDoneMsg x \<Rightarrow> Daemon_handle_job_done p x d
      | VerifyEnvMsg x \<Rightarrow> Daemon_handle_verify_env p x d
      | BlacklistHostEnvMsg x \<Rightarrow> Daemon_handle_blacklist_host_env x d
      | _ \<Rightarrow> reject_client p 120 d)"

definition Daemon_handle_activity :: "client_ptr \<Rightarrow> daemon \<Rightarrow> (bool \<times> daemon) option" where
  "Daemon_handle_activity p d = do {
     c \<leftarrow> client_at d p;
     if d_asserts d \<and> (dc_status c = TOCOMPILE \<or> dc_status c = WAITINSTALL) then None
     else do {
       let r = get_msg (d_libs d) 0 True (dc_channel c);
       d1 \<leftarrow> upd_client p (\<lambda>c. c\<lparr>dc_channel := snd r\<rparr>) d;
       (case fst r of
          None \<Rightarrow> map_option (Pair False) (Daemon_handle_end p 118 d1)
        | Some m \<Rightarrow> if dc_status c = TOINSTALL then Daemon_handle_file_chunk_env p m d1 else Daemon_dispatch p m d1)
     }
   }"

section \<open>The main loop\<close>

text \<open>A message of the scheduler; the result tells whether the connection is given up.\<close>

definition Daemon_scheduler_msg :: "msg \<Rightarrow> daemon \<Rightarrow> (bool \<times> daemon) option" where
  "Daemon_scheduler_msg m d = do {
     sch \<leftarrow> d_scheduler d;
     (give_up, d1) \<leftarrow>
       (case m of
          PingMsg \<Rightarrow> if protocol sch < 27 then map_option (\<lambda>(ok, d1). (\<not> ok, d1)) (Daemon_send_scheduler PingMsg d) else Some (False, d)
        | UseCSMsg x \<Rightarrow> Daemon_scheduler_use_cs x d
        | NoCSMsg x \<Rightarrow> Daemon_scheduler_no_cs x d
        | GetInternalStatus \<Rightarrow> Daemon_scheduler_get_internals d
        | ConfCSMsg x \<Rightarrow> Some (False, Daemon_handle_cs_conf x d)
        | _ \<Rightarrow> Some (True, d));
     Some (if give_up then (True, Daemon_close_scheduler d1) else (False, d1))
   }"

primrec end_all_clients :: "nat \<Rightarrow> daemon \<Rightarrow> daemon option" where
  "end_all_clients 0 d = Some d"
| "end_all_clients (Suc n) d =
     (case d_clients d of [] \<Rightarrow> Some d | (p, _) # _ \<Rightarrow> do { d1 \<leftarrow> Daemon_handle_end p 116 d; end_all_clients n d1 })"

definition Daemon_clear_children :: "daemon \<Rightarrow> daemon option" where
  "Daemon_clear_children d = do {
     d1 \<leftarrow> end_all_clients (length (d_clients d)) d;
     if d_asserts d1 \<and> d_fd2client d1 \<noteq> [] then None
     else Some (d1\<lparr>d_current_kids := 0, d_fd2client := [], d_new_client_id := 0\<rparr>)
   }"

text \<open>A new connection, at an address and a descriptor that are free.\<close>

definition Daemon_accept :: "client_ptr \<Rightarrow> chan \<Rightarrow> int \<Rightarrow> daemon \<Rightarrow> daemon" where
  "Daemon_accept p ch fd d =
     (let i = d_new_client_id d + 1
      in d\<lparr>d_new_client_id := i, d_clients := map_put (<) p ((Client_new ch fd)\<lparr>dc_client_id := i\<rparr>) (d_clients d),
           d_fd2client := map_put (<) fd p (d_fd2client d)\<rparr>)"

text \<open>\<open>reconnect\<close>: \<open>found\<close> is what \<open>try_get_scheduler\<close> returns, with the name of this machine on that connection.\<close>

definition Daemon_reconnect :: "(chan \<times> string) option \<Rightarrow> string \<Rightarrow> daemon \<Rightarrow> (bool \<times> daemon) option" where
  "Daemon_reconnect found node d =
     (if d_scheduler d \<noteq> None then Some (True, d)
      else if \<not> d_discover d \<and> d_next_scheduler_connect d > d_now d then Some (False, d)
      else if \<not> d_discover d then Some (False, d\<lparr>d_discover := True\<rparr>)
      else case found of
             None \<Rightarrow> Some (False, d)
           | Some (ch, me) \<Rightarrow>
               (let d1 = d\<lparr>d_scheduler := Some ch, d_discover := False, d_remote_name := me, d_current_load := -1000,
                          d_last_stat := d_timeofday d, d_icecream_load := 0, d_nodename := node\<rparr>
                in Daemon_send_scheduler (LoginMsg ((daemon_login (d_daemon_port d1) node (d_machine_name d1) d1)
                     \<lparr>lg_max_kids := d_max_kids d1, lg_noremote := d_noremote d1\<rparr>)) d1))"

end
