(* ===== verification/DaemonInv.thy ===== *)
theory DaemonInv
  imports Daemon SchedInv
begin

text \<open>
  What the daemon keeps true: the laws of its ordered maps, the accounting of its slots (\<open>clients.active_processes\<close> and
  \<open>current_kids\<close>), the shape of a client in each state, the table of descriptors, and the size of the cache. Each
  operation of \<open>daemon/main.cpp\<close> is shown to keep them, and to use no null pointer and no deleted client.
\<close>

lemmas bind_simps = Option.bind.simps

lemma ex_bool [simp]: "\<exists>r. r" "Ex Not"
  by auto

section \<open>Ordered maps\<close>

definition sorted_map :: "('k \<Rightarrow> 'k \<Rightarrow> bool) \<Rightarrow> ('k \<times> 'v) list \<Rightarrow> bool" where
  "sorted_map lt m \<longleftrightarrow> sorted_wrt (\<lambda>a b. lt (fst a) (fst b)) m"

locale ordered_map =
  fixes lt :: "'k \<Rightarrow> 'k \<Rightarrow> bool"
  assumes lt_irrefl: "\<not> lt a a"
    and lt_trans: "lt a b \<Longrightarrow> lt b c \<Longrightarrow> lt a c"
    and lt_total: "lt a b \<or> a = b \<or> lt b a"
begin

lemma sorted_map_Nil [simp]: "sorted_map lt []"
  by (simp add: sorted_map_def)

lemma sorted_map_distinct: "sorted_map lt m \<Longrightarrow> distinct (map fst m)"
  unfolding sorted_map_def by (induction m) (use lt_irrefl in \<open>auto simp: image_iff\<close>)

lemma keys_map_put: "fst ` set (map_put lt k v m) = insert k (fst ` set m)"
  by (induction lt k v m rule: map_put.induct) (simp_all add: insert_commute)

lemma sorted_map_put: "sorted_map lt m \<Longrightarrow> sorted_map lt (map_put lt k v m)"
proof (induction m)
  case (Cons e m)
  obtain k' v' where e: "e = (k', v')"
    by (cases e)
  have above: "\<forall>x \<in> fst ` set m. lt k' x" and m: "sorted_map lt m"
    using Cons.prems by (auto simp: sorted_map_def e)
  consider "lt k k'" | "k = k'" | "lt k' k" "\<not> lt k k'" "k \<noteq> k'"
    using lt_total [of k k'] lt_irrefl lt_trans by metis
  then show ?case
  proof cases
    case 1
    then show ?thesis
      using Cons.prems above lt_trans unfolding sorted_map_def e by auto
  next
    case 2
    then show ?thesis
      using Cons.prems lt_irrefl unfolding sorted_map_def e by auto
  next
    case 3
    then have "\<forall>x \<in> fst ` set (map_put lt k v m). lt k' x"
      using above keys_map_put [of k v m] by auto
    then show ?thesis
      using Cons.IH [OF m] 3 unfolding sorted_map_def e by auto
  qed
qed (simp add: sorted_map_def)

lemma sorted_map_erase: "sorted_map lt m \<Longrightarrow> sorted_map lt (map_erase k m)"
  by (simp add: sorted_map_def map_erase_def sorted_wrt_filter)

lemma map_of_put: "sorted_map lt m \<Longrightarrow> map_of (map_put lt k v m) = (map_of m)(k \<mapsto> v)"
proof (induction m)
  case (Cons e m)
  obtain k' v' where e: "e = (k', v')"
    by (cases e)
  have m: "sorted_map lt m"
    using Cons.prems by (simp add: sorted_map_def)
  show ?case
    using Cons.IH [OF m] by (auto simp: e fun_upd_twist)
qed simp

lemma sum_map_put:
  fixes g :: "'v \<Rightarrow> nat"
  assumes "sorted_map lt m"
  shows "sum_list (map (g \<circ> snd) (map_put lt k v m)) + (case map_of m k of None \<Rightarrow> 0 | Some e \<Rightarrow> g e)
    = sum_list (map (g \<circ> snd) m) + g v"
  using assms
proof (induction m)
  case (Cons e m)
  obtain k' v' where e: "e = (k', v')"
    by (cases e)
  have above: "\<forall>x \<in> fst ` set m. lt k' x" and m: "sorted_map lt m"
    using Cons.prems by (auto simp: sorted_map_def e)
  have "map_of m k = None" if "lt k k'"
    using above lt_trans [OF that] lt_irrefl unfolding map_of_eq_None_iff by blast
  then show ?case
    using Cons.IH [OF m] lt_irrefl by (auto simp: e)
qed simp

end

lemma map_of_erase: "map_of (map_erase k m) = (map_of m)(k := None)"
  by (induction m) (auto simp: map_erase_def fun_upd_twist)

lemma map_erase_less: "k \<in> fst ` set m \<Longrightarrow> length (map_erase k m) < length m"
  unfolding map_erase_def by (induction m) (auto intro: le_imp_less_Suc)

lemma sum_map_erase:
  fixes g :: "'v \<Rightarrow> nat"
  shows "sum_list (map (g \<circ> snd) (map_erase k m)) + (case map_of m k of None \<Rightarrow> 0 | Some e \<Rightarrow> g e) \<le> sum_list (map (g \<circ> snd) m)"
  by (induction m) (auto simp: map_erase_def split: option.splits)

lemma string_less_irrefl: "\<not> string_less a a"
  by (induction a) simp_all

lemma string_less_trans: "string_less a b \<Longrightarrow> string_less b c \<Longrightarrow> string_less a c"
proof (induction a b arbitrary: c rule: string_less.induct)
  case (2 x b)
  then show ?case
    by (cases c) simp_all
next
  case (3 x a y b)
  then show ?case
    by (cases c) auto
qed simp

lemma string_less_total: "string_less a b \<or> a = b \<or> string_less b a"
proof (induction a b rule: string_less.induct)
  case (1 a)
  then show ?case
    by (cases a) simp_all
next
  case (3 x a y b)
  have "x = y" if "(of_char x :: nat) = of_char y"
    using that by simp
  then show ?case
    using 3 by (metis linorder_cases string_less.simps(3))
qed simp

interpretation smap: ordered_map string_less
  by unfold_locales (use string_less_irrefl string_less_trans string_less_total in blast)+

interpretation pmap: ordered_map "(<) :: nat \<Rightarrow> nat \<Rightarrow> bool"
  by unfold_locales auto

interpretation fmap: ordered_map "(<) :: int \<Rightarrow> int \<Rightarrow> bool"
  by unfold_locales auto

section \<open>Accounting\<close>

text \<open>A client at work holds a slot, or all of them; a child is a compilation or the installation of an environment.\<close>

definition weight :: "u32 \<Rightarrow> dclient \<Rightarrow> u32" where
  "weight n c = (if dc_status c = CLIENTWORK then if dc_fulljob c then n else 1 else 0)"

definition kid :: "dclient \<Rightarrow> nat" where
  "kid c = (if dc_status c = WAITFORCHILD \<or> installing c \<and> dc_child_pid c \<ge> 0 then 1 else 0)"

definition total :: "(dclient \<Rightarrow> 'a::comm_monoid_add) \<Rightarrow> (client_ptr \<times> dclient) list \<Rightarrow> 'a" where
  "total g cs = sum_list (map (\<lambda>e. g (snd e)) cs)"

text \<open>The states in which a client has no job at the scheduler, and those in which it has no child.\<close>

definition idle :: "status \<Rightarrow> bool" where
  "idle s \<longleftrightarrow> s \<in> {UNKNOWN_STATUS, GOTNATIVE, JOBDONE, LINKJOB, TOINSTALL, WAITINSTALL, WAITCREATEENV}"

definition client_ok :: "dclient \<Rightarrow> bool" where
  "client_ok c \<longleftrightarrow>
     dc_client_id c > 0 \<and>
     (dc_fulljob c \<longrightarrow> dc_status c = LINKJOB \<or> dc_status c = CLIENTWORK) \<and>
     (dc_status c = PENDING_USE_CS \<longrightarrow> dc_usecsmsg c \<noteq> None) \<and>
     (dc_status c = TOCOMPILE \<or> dc_status c = WAITFORCHILD \<longrightarrow> dc_job c \<noteq> None) \<and>
     (idle (dc_status c) \<longrightarrow> dc_job_id c = 0) \<and>
     (dc_status c = WAITFORCHILD \<longrightarrow> dc_child_pid c > 0 \<and> dc_pipe_from_child c \<ge> 0 \<and> dc_pipe_to_child c < 0) \<and>
     (installing c \<longrightarrow> dc_outfile c \<noteq> '''' \<and> (dc_child_pid c \<ge> 0 \<longleftrightarrow> dc_pipe_from_child c \<ge> 0)
        \<and> (dc_status c = TOINSTALL \<longleftrightarrow> dc_pipe_to_child c \<ge> 0) \<and> (dc_status c = WAITINSTALL \<longrightarrow> dc_child_pid c \<ge> 0)) \<and>
     (\<not> installing c \<and> dc_status c \<noteq> WAITFORCHILD \<longrightarrow> dc_child_pid c < 0 \<and> dc_pipe_from_child c < 0 \<and> dc_pipe_to_child c < 0) \<and>
     (dc_status c \<noteq> WAITCREATEENV \<longrightarrow> dc_pending_create_env c = '''')"

text \<open>A number \<open>x\<close> of children may be left over from clients that have gone; it is 0 but while all clients are being ended.\<close>

definition slots_ok :: "nat \<Rightarrow> daemon \<Rightarrow> bool" where
  "slots_ok x d \<longleftrightarrow> d_active_processes d = total (weight (slots d)) (d_clients d) \<and> d_current_kids d = of_nat (total kid (d_clients d) + x)"

text \<open>Every client is known under its descriptor, and every descriptor belongs to a client.\<close>

definition fds_ok :: "daemon \<Rightarrow> bool" where
  "fds_ok d \<longleftrightarrow> distinct (map fst (d_fd2client d)) \<and> distinct (map (dc_fd \<circ> snd) (d_clients d))
     \<and> set (d_fd2client d) = (\<lambda>e. (dc_fd (snd e), fst e)) ` set (d_clients d)"

definition ids_ok :: "daemon \<Rightarrow> bool" where
  "ids_ok d \<longleftrightarrow> distinct (map (dc_client_id \<circ> snd) (d_clients d)) \<and> (\<forall>e \<in> set (d_clients d). dc_client_id (snd e) \<le> d_new_client_id d)
     \<and> d_new_client_id d \<ge> 0"

text \<open>A child that was started comes with open pipes.\<close>

definition forks_ok :: "daemon \<Rightarrow> bool" where
  "forks_ok d \<longleftrightarrow> (\<forall>(pid, pto, pfrom) \<in> set (d_install_forks d). pid > 0 \<longrightarrow> pto \<ge> 0 \<and> pfrom \<ge> 0)
     \<and> (\<forall>(pid, sock) \<in> set (d_compile_forks d). pid > 0 \<longrightarrow> sock \<ge> 0)"

definition cache_sum :: "daemon \<Rightarrow> nat" where
  "cache_sum d = sum_list (map ((unat \<circ> re_size) \<circ> snd) (d_received d)) + sum_list (map ((unat \<circ> ne_size) \<circ> snd) (d_native d))"

definition cache_ok :: "daemon \<Rightarrow> bool" where
  "cache_ok d \<longleftrightarrow> sorted_map string_less (d_received d) \<and> sorted_map string_less (d_native d) \<and> cache_sum d \<le> unat (d_cache_size d)"

definition table_okx :: "nat \<Rightarrow> daemon \<Rightarrow> bool" where
  "table_okx x d \<longleftrightarrow> sorted_map (<) (d_clients d) \<and> length (d_clients d) + x < 2 ^ 31 \<and> (\<forall>e \<in> set (d_clients d). client_ok (snd e))
     \<and> slots_ok x d \<and> fds_ok d \<and> ids_ok d \<and> forks_ok d"

definition daemon_okx :: "nat \<Rightarrow> daemon \<Rightarrow> bool" where
  "daemon_okx x d \<longleftrightarrow> table_okx x d \<and> cache_ok d"

abbreviation table_ok :: "daemon \<Rightarrow> bool" where
  "table_ok \<equiv> table_okx 0"

abbreviation daemon_ok :: "daemon \<Rightarrow> bool" where
  "daemon_ok \<equiv> daemon_okx 0"

text \<open>The part of the state that the table rests on.\<close>

definition same_table :: "daemon \<Rightarrow> daemon \<Rightarrow> bool" where
  "same_table d d' \<longleftrightarrow> d_clients d' = d_clients d \<and> d_active_processes d' = d_active_processes d \<and> d_current_kids d' = d_current_kids d
     \<and> d_max_kids d' = d_max_kids d \<and> d_fd2client d' = d_fd2client d \<and> d_new_client_id d' = d_new_client_id d
     \<and> d_install_forks d' = d_install_forks d \<and> d_compile_forks d' = d_compile_forks d \<and> d_asserts d' = d_asserts d"

definition same_cache :: "daemon \<Rightarrow> daemon \<Rightarrow> bool" where
  "same_cache d d' \<longleftrightarrow> d_received d' = d_received d \<and> d_native d' = d_native d \<and> d_cache_size d' = d_cache_size d"

lemma same_table_refl [simp]: "same_table d d"
  by (simp add: same_table_def)

lemma same_table_trans: "same_table a b \<Longrightarrow> same_table b c \<Longrightarrow> same_table a c"
  by (simp add: same_table_def)

lemma same_cache_refl [simp]: "same_cache d d"
  by (simp add: same_cache_def)

lemma same_cache_trans: "same_cache a b \<Longrightarrow> same_cache b c \<Longrightarrow> same_cache a c"
  by (simp add: same_cache_def)

lemma table_ok_same: "same_table d d' \<Longrightarrow> table_okx x d \<Longrightarrow> table_okx x d'"
  by (simp add: table_okx_def same_table_def slots_ok_def fds_ok_def ids_ok_def forks_ok_def slots_def)

lemma cache_ok_same: "same_cache d d' \<Longrightarrow> cache_ok d \<Longrightarrow> cache_ok d'"
  by (simp add: cache_ok_def same_cache_def cache_sum_def)

lemma same_client_at: "same_table d d' \<Longrightarrow> client_at d' p = client_at d p"
  by (simp add: same_table_def client_at_def)

section \<open>Changes of one client\<close>

text \<open>The client \<open>p\<close> becomes \<open>c\<close> and the two counters \<open>a\<close> and \<open>k\<close>; or the client goes.\<close>

definition keeps :: "daemon \<Rightarrow> daemon \<Rightarrow> bool" where
  "keeps d d' \<longleftrightarrow> d_max_kids d' = d_max_kids d \<and> d_new_client_id d' = d_new_client_id d \<and> d_asserts d' = d_asserts d
     \<and> set (d_install_forks d') \<subseteq> set (d_install_forks d) \<and> set (d_compile_forks d') \<subseteq> set (d_compile_forks d)"

definition set_at :: "client_ptr \<Rightarrow> dclient \<Rightarrow> (client_ptr \<times> dclient) list \<Rightarrow> (client_ptr \<times> dclient) list" where
  "set_at p c cs = map (\<lambda>e. if fst e = p then (p, c) else e) cs"

definition put :: "client_ptr \<Rightarrow> dclient \<Rightarrow> u32 \<Rightarrow> u32 \<Rightarrow> daemon \<Rightarrow> daemon \<Rightarrow> bool" where
  "put p c a k d d' \<longleftrightarrow> keeps d d' \<and> d_clients d' = set_at p c (d_clients d) \<and> d_fd2client d' = d_fd2client d
     \<and> d_active_processes d' = a \<and> d_current_kids d' = k"

definition gone :: "client_ptr \<Rightarrow> int \<Rightarrow> u32 \<Rightarrow> u32 \<Rightarrow> daemon \<Rightarrow> daemon \<Rightarrow> bool" where
  "gone p fd a k d d' \<longleftrightarrow> keeps d d' \<and> d_clients d' = map_erase p (d_clients d) \<and> d_fd2client d' = map_erase fd (d_fd2client d)
     \<and> d_active_processes d' = a \<and> d_current_kids d' = k"

lemma keeps_same: "same_table d d' \<Longrightarrow> keeps d d'"
  by (simp add: keeps_def same_table_def)

lemma keeps_trans: "keeps a b \<Longrightarrow> keeps b c \<Longrightarrow> keeps a c"
  by (auto simp: keeps_def)

lemma keeps_slots: "keeps d d' \<Longrightarrow> slots d' = slots d"
  by (simp add: keeps_def slots_def)

lemma set_at_set_at [simp]: "set_at p c' (set_at p c cs) = set_at p c' cs"
  by (simp add: set_at_def)

lemma map_erase_set_at [simp]: "map_erase p (set_at p c cs) = map_erase p cs"
  by (induction cs) (auto simp: set_at_def map_erase_def)

lemma map_fst_set_at [simp]: "map fst (set_at p c cs) = map fst cs"
  by (induction cs) (auto simp: set_at_def)

lemma map_of_set_at: "map_of (set_at p c cs) q = (if q = p \<and> map_of cs p \<noteq> None then Some c else map_of cs q)"
  by (induction cs) (auto simp: set_at_def)

lemma set_at_simps [simp]: "set_at p c [] = []" "set_at p c (e # cs) = (if fst e = p then (p, c) else e) # set_at p c cs"
  by (simp_all add: set_at_def)

lemma set_at_other: "p \<notin> fst ` set cs \<Longrightarrow> set_at p c cs = cs"
  by (induction cs) auto

lemma map_erase_simps [simp]: "map_erase k [] = []" "map_erase k (e # m) = (if fst e = k then map_erase k m else e # map_erase k m)"
  by (simp_all add: map_erase_def)

lemma map_erase_other: "k \<notin> fst ` set m \<Longrightarrow> map_erase k m = m"
  by (induction m) auto

lemma total_simps [simp]: "total g [] = 0" "total g (e # cs) = g (snd e) + total g cs"
  by (simp_all add: total_def)

lemma set_at_same: "distinct (map fst cs) \<Longrightarrow> map_of cs p = Some c \<Longrightarrow> set_at p c cs = cs"
  by (induction cs) (auto simp: set_at_other dest: map_of_SomeD split: if_splits)

lemma sorted_set_at: "sorted_map (<) cs \<Longrightarrow> sorted_map (<) (set_at p c cs)"
proof -
  have "sorted_map (<) cs = sorted_wrt (<) (map fst cs)" for cs :: "(client_ptr \<times> dclient) list"
    by (simp add: sorted_map_def sorted_wrt_map)
  then show "sorted_map (<) cs \<Longrightarrow> sorted_map (<) (set_at p c cs)"
    by simp
qed

lemma put_put: "put p c a k d d1 \<Longrightarrow> put p c' a' k' d1 d2 \<Longrightarrow> put p c' a' k' d d2"
  by (auto simp: put_def intro: keeps_trans)

lemma put_gone: "put p c a k d d1 \<Longrightarrow> gone p fd a' k' d1 d2 \<Longrightarrow> gone p fd a' k' d d2"
  by (auto simp: put_def gone_def intro: keeps_trans)

lemma put_same: "put p c a k d d1 \<Longrightarrow> same_table d1 d2 \<Longrightarrow> put p c a k d d2"
  by (auto simp: put_def same_table_def keeps_def)

lemma same_put: "same_table d d1 \<Longrightarrow> put p c a k d1 d2 \<Longrightarrow> put p c a k d d2"
  by (auto simp: put_def same_table_def keeps_def)

lemma gone_same: "gone p fd a k d d1 \<Longrightarrow> same_table d1 d2 \<Longrightarrow> gone p fd a k d d2"
  by (auto simp: gone_def same_table_def keeps_def)

lemma put_client_at: "put p c a k d d' \<Longrightarrow> client_at d p = Some c0 \<Longrightarrow> client_at d' p = Some c"
  by (simp add: put_def client_at_def map_of_set_at)

lemma put_distinct: "put p c a k d d' \<Longrightarrow> distinct (map fst (d_clients d)) \<Longrightarrow> distinct (map fst (d_clients d'))"
  by (simp add: put_def)

lemma upd_client_put:
  assumes "client_at d p = Some c" and "distinct (map fst (d_clients d))"
  shows "upd_client p f d = Some (d\<lparr>d_clients := set_at p (f c) (d_clients d)\<rparr>)"
proof -
  have "snd e = c" if "e \<in> set (d_clients d)" "fst e = p" for e
    using assms that by (metis client_at_def map_of_eq_Some_iff option.inject prod.collapse)
  then show ?thesis
    using assms(1) by (simp add: upd_client_def set_at_def)
qed

lemma total_set_at:
  assumes "distinct (map fst cs)" and "map_of cs p = Some c"
  shows "total g (set_at p c' cs) + g c = total g cs + g c'"
  using assms
proof (induction cs)
  case (Cons e cs)
  show ?case
  proof (cases "fst e = p")
    case True
    then show ?thesis
      using Cons.prems by (auto simp: set_at_other ac_simps)
  next
    case False
    then have "total g (set_at p c' (e # cs)) + g c = g (snd e) + (total g (set_at p c' cs) + g c)"
      by (simp add: ac_simps)
    also have "\<dots> = g (snd e) + (total g cs + g c')"
      using Cons False by (cases e) simp
    finally show ?thesis
      by (simp add: ac_simps)
  qed
qed simp

lemma total_erase:
  assumes "distinct (map fst cs)" and "map_of cs p = Some c"
  shows "total g (map_erase p cs) + g c = total g cs"
  using assms
proof (induction cs)
  case (Cons e cs)
  show ?case
  proof (cases "fst e = p")
    case True
    then show ?thesis
      using Cons.prems by (auto simp: map_erase_other ac_simps)
  next
    case False
    then have "total g (map_erase p (e # cs)) + g c = g (snd e) + (total g (map_erase p cs) + g c)"
      by (simp add: ac_simps)
    then show ?thesis
      using Cons False by (cases e) simp
  qed
qed simp

lemma map_set_at:
  assumes "distinct (map fst cs)" and "map_of cs p = Some c" and "h c' = h c"
  shows "map (\<lambda>e. F (fst e) (h (snd e))) (set_at p c' cs) = map (\<lambda>e. F (fst e) (h (snd e))) cs"
  using assms
proof (induction cs)
  case (Cons e cs)
  then show ?case
    by (cases "fst e = p") (auto simp: set_at_other)
qed simp

lemma set_set_at: "set (set_at p c cs) \<subseteq> insert (p, c) (set cs)"
  by (induction cs) auto

lemma table_distinct: "table_okx x d \<Longrightarrow> distinct (map fst (d_clients d))"
  by (simp add: table_okx_def pmap.sorted_map_distinct)

lemma client_at_mem: "client_at d p = Some c \<Longrightarrow> (p, c) \<in> set (d_clients d)"
  by (simp add: client_at_def map_of_SomeD)

lemma table_clientx: "table_okx x d \<Longrightarrow> client_at d p = Some c \<Longrightarrow> client_ok c"
  using client_at_mem unfolding table_okx_def by fastforce

lemmas table_client = table_clientx [where x = 0]

lemma forks_keep: "keeps d d' \<Longrightarrow> forks_ok d \<Longrightarrow> forks_ok d'"
  unfolding keeps_def forks_ok_def by (blast dest: subsetD)

lemma table_ok_put:
  assumes "table_okx x d" and "client_at d p = Some c" and "put p c' a k d d'" and "client_ok c'"
    and "dc_fd c' = dc_fd c" and "dc_client_id c' = dc_client_id c"
    and "a + weight (slots d) c = d_active_processes d + weight (slots d) c'"
    and "k + of_nat (kid c) = d_current_kids d + of_nat (kid c')"
  shows "table_okx x d'"
proof -
  let ?cs = "d_clients d"
  have D: "distinct (map fst ?cs)" "map_of ?cs p = Some c"
    using assms(1,2) by (simp_all add: table_distinct client_at_def)
  have K: "keeps d d'" "d_clients d' = set_at p c' ?cs" "d_fd2client d' = d_fd2client d" "d_active_processes d' = a" "d_current_kids d' = k"
    using assms(3) by (simp_all add: put_def)
  have "a + weight (slots d) c = total (weight (slots d)) (set_at p c' ?cs) + weight (slots d) c"
    using total_set_at [OF D, of "weight (slots d)" c'] assms(1,7) by (simp add: table_okx_def slots_ok_def)
  moreover have t: "total kid (set_at p c' ?cs) + x + kid c = total kid ?cs + x + kid c'"
    using total_set_at [OF D, of kid c'] by simp
  have "k + of_nat (kid c) = of_nat (total kid (set_at p c' ?cs) + x) + of_nat (kid c)"
    using arg_cong [OF t, of "of_nat :: nat \<Rightarrow> u32"] assms(1,8) by (simp add: table_okx_def slots_ok_def)
  ultimately have "slots_ok x d'"
    using K by (simp add: slots_ok_def keeps_slots)
  moreover have fd: "map (\<lambda>e. (dc_fd (snd e), fst e)) (set_at p c' ?cs) = map (\<lambda>e. (dc_fd (snd e), fst e)) ?cs"
    "map (dc_fd \<circ> snd) (set_at p c' ?cs) = map (dc_fd \<circ> snd) ?cs" "map (dc_client_id \<circ> snd) (set_at p c' ?cs) = map (dc_client_id \<circ> snd) ?cs"
    using map_set_at [OF D, of dc_fd c' "\<lambda>x y. (y, x)"] map_set_at [OF D, of dc_fd c' "\<lambda>x y. y"]
      map_set_at [OF D, of dc_client_id c' "\<lambda>x y. y"] assms(5,6) by (simp_all add: comp_def)
  have ids: "(\<forall>e \<in> set (set_at p c' ?cs). dc_client_id (snd e) \<le> n) = (\<forall>e \<in> set ?cs. dc_client_id (snd e) \<le> n)" for n
    using arg_cong [OF fd(3), of "list_all (\<lambda>i. i \<le> n)"] by (simp add: list_all_iff)
  have "fds_ok d'"
    using assms(1) fd(2) arg_cong [OF fd(1), of set] by (simp add: table_okx_def fds_ok_def K)
  moreover have "ids_ok d'"
    using assms(1) fd(3) ids K(1) unfolding table_okx_def ids_ok_def K(2) keeps_def by simp
  moreover have "\<forall>e \<in> set (set_at p c' ?cs). client_ok (snd e)"
    using assms(1,4) set_set_at [of p c' ?cs] unfolding table_okx_def by fastforce
  ultimately show ?thesis
    using assms(1) forks_keep [OF K(1)] unfolding table_okx_def K(2) by (simp add: sorted_set_at) (simp add: set_at_def)
qed

lemma table_ok_gone:
  assumes "table_okx x d" and "client_at d p = Some c" and "gone p (dc_fd c) a k d d'"
    and "a + weight (slots d) c = d_active_processes d" and "k + of_nat (kid c) + of_nat x = d_current_kids d + of_nat y" and "y \<le> Suc x"
  shows "table_okx y d'"
proof -
  let ?cs = "d_clients d"
  have D: "distinct (map fst ?cs)" "map_of ?cs p = Some c"
    using assms(1,2) by (simp_all add: table_distinct client_at_def)
  have K: "keeps d d'" "d_clients d' = map_erase p ?cs" "d_fd2client d' = map_erase (dc_fd c) (d_fd2client d)"
    "d_active_processes d' = a" "d_current_kids d' = k"
    using assms(3) by (simp_all add: gone_def)
  have "a + weight (slots d) c = total (weight (slots d)) (map_erase p ?cs) + weight (slots d) c"
    using total_erase [OF D, of "weight (slots d)"] assms(1,4) by (simp add: table_okx_def slots_ok_def)
  moreover have t: "total kid (map_erase p ?cs) + y + kid c + x = total kid ?cs + x + y"
    using total_erase [OF D, of kid] by simp
  have "k + of_nat (kid c) + of_nat x = of_nat (total kid (map_erase p ?cs) + y) + of_nat (kid c) + of_nat x"
    using arg_cong [OF t, of "of_nat :: nat \<Rightarrow> u32"] assms(1,5) by (simp add: table_okx_def slots_ok_def)
  ultimately have "slots_ok y d'"
    using K by (simp add: slots_ok_def keeps_slots)
  moreover have "fds_ok d'"
  proof -
    have F: "distinct (map (dc_fd \<circ> snd) ?cs)" "distinct (map fst (d_fd2client d))"
      "set (d_fd2client d) = (\<lambda>e. (dc_fd (snd e), fst e)) ` set ?cs"
      using assms(1) by (simp_all add: table_okx_def fds_ok_def)
    have "fst e = p \<longleftrightarrow> dc_fd (snd e) = dc_fd c" if "e \<in> set ?cs" for e
      using that F(1) D client_at_mem [OF assms(2)] unfolding distinct_map inj_on_def comp_def by (metis fst_conv snd_conv)
    then have "set (map_erase (dc_fd c) (d_fd2client d)) = (\<lambda>e. (dc_fd (snd e), fst e)) ` set (map_erase p ?cs)"
      by (simp add: map_erase_def F(3) set_eq_iff image_iff) (metis fst_conv snd_conv prod.collapse)
    then show ?thesis
      using F(1,2) by (simp add: fds_ok_def K(2,3)) (simp add: map_erase_def distinct_map_filter)
  qed
  moreover have "ids_ok d'"
    using assms(1) K(1) unfolding table_okx_def ids_ok_def K(2) keeps_def by (simp add: map_erase_def distinct_map_filter)
  moreover have "length (map_erase p ?cs) + y < 2 ^ 31"
  proof -
    have "length (map_erase p ?cs) < length ?cs"
      using map_erase_less [of p ?cs] client_at_mem [OF assms(2)] by force
    then show ?thesis
      using assms(1,6) by (simp add: table_okx_def)
  qed
  ultimately show ?thesis
    using assms(1) forks_keep [OF K(1)] unfolding table_okx_def K(2) by (simp add: pmap.sorted_map_erase) (simp add: map_erase_def)
qed

section \<open>Operations that leave the table alone\<close>

definition quiet :: "daemon \<Rightarrow> daemon \<Rightarrow> bool" where
  "quiet d d' \<longleftrightarrow> same_table d d' \<and> same_cache d d'"

lemmas quiet_defs = quiet_def same_table_def same_cache_def

lemma quiet_refl [simp]: "quiet d d"
  by (simp add: quiet_def)

lemma quiet_trans: "quiet a b \<Longrightarrow> quiet b c \<Longrightarrow> quiet a c"
  by (simp add: quiet_defs)

lemma daemon_ok_quiet: "quiet d d' \<Longrightarrow> daemon_okx x d \<Longrightarrow> daemon_okx x d'"
  using table_ok_same cache_ok_same by (auto simp: quiet_def daemon_okx_def)

lemma close_scheduler_quiet: "quiet d (Daemon_close_scheduler d)"
  by (simp add: Daemon_close_scheduler_def quiet_defs split: option.split)

lemma send_scheduler_total:
  assumes "plain m"
  shows "\<exists>ok d'. Daemon_send_scheduler m d = Some (ok, d') \<and> quiet d d'"
proof (cases "d_scheduler d")
  case None
  then show ?thesis
    by (auto simp: Daemon_send_scheduler_def)
next
  case (Some ch)
  obtain ok ch' where "send_msg (d_libs d) True False m ch = Some (ok, ch')"
    using send_msg_plain [OF assms] by blast
  moreover have "quiet d (d\<lparr>d_scheduler := Some ch'\<rparr>)"
    by (simp add: quiet_defs)
  ultimately show ?thesis
    using Some quiet_trans [OF _ close_scheduler_quiet] by (cases ok) (auto simp: Daemon_send_scheduler_def Let_def)
qed

lemma daemon_msg_plain [simp]:
  "plain (LoginMsg x1)" "plain (StatsMsg x2)" "plain (JobDoneMsg x3)" "plain (JobLocalDoneMsg x4)" "plain (JobBeginMsg x5)"
  "plain (JobLocalBeginMsg x6)" "plain (UseCSMsg x7)" "plain (UseNativeEnvMsg x8)" "plain EndMsg" "plain (StatusTextMsg x9)"
  "plain (VerifyEnvResultMsg x10)" "plain (BlacklistHostEnvMsg x11)" "plain (GetCSMsg x12)" "plain PingMsg"
  by (simp_all add: plain_def)

lemma reannounce_total:
  "\<exists>r d'. Daemon_reannounce_environments d = Some (r, d') \<and> quiet d d'"
  unfolding Daemon_reannounce_environments_def by (rule send_scheduler_total) simp

lemma stats_load_quiet: "quiet d (stats_load x n d)"
  by (simp add: stats_load_def quiet_defs Let_def split: option.split)

lemma maybe_stats_total: "\<exists>r d'. Daemon_maybe_stats b d = Some (r, d') \<and> quiet d d'"
proof (cases "diff_msec (d_timeofday d) (d_last_stat d) \<ge> d_max_scheduler_pong d * 1000 \<or> b")
  case True
  define n where "n = diff_msec (d_timeofday d) (d_last_stat d)"
  define x where "x = (case d_samples d of [] \<Rightarrow> default_sample | y # _ \<Rightarrow> y)"
  define d1 where "d1 = stats_load x n (d\<lparr>d_samples := tl (d_samples d), d_last_stat := d_timeofday d\<rparr>)"
  define d2 where "d2 = d1\<lparr>d_mem_limit := max (sint (ls_freeMem x div max (d_max_kids d1) 1)) 100\<rparr>"
  define load where "load = stats_value x n d1"
  define m where "m = \<lparr>st_load = load, st_loadAvg1 = fst (ls_loadAvg x), st_loadAvg5 = fst (snd (ls_loadAvg x)),
                    st_loadAvg10 = snd (snd (ls_loadAvg x)), st_freeMem = ls_freeMem x, st_client_count = 0\<rparr>"
  define send where "send \<longleftrightarrow> \<bar>sint load - d_current_load d2\<bar> \<ge> 100 \<or> load = 1000 \<and> d_current_load d2 \<noteq> 1000 \<or> load \<noteq> 1000 \<and> d_current_load d2 = 1000"
  have "quiet d d1"
    using stats_load_quiet [of "d\<lparr>d_samples := tl (d_samples d), d_last_stat := d_timeofday d\<rparr>" x n] by (simp add: d1_def quiet_defs)
  then have q2: "quiet d d2"
    by (simp add: d2_def quiet_defs)
  obtain ok d3 where s: "Daemon_send_scheduler (StatsMsg m) d2 = Some (ok, d3)" "quiet d2 d3"
    using send_scheduler_total [of "StatsMsg m" d2] by auto
  have q3: "quiet d d3"
    using quiet_trans [OF q2 s(2)] .
  have fin: "quiet d e \<Longrightarrow> quiet d (e\<lparr>d_icecream_load := 0, d_current_load := l\<rparr>)" for e l
    by (simp add: quiet_defs)
  have "Daemon_maybe_stats b d = do {
      (ok, d3) \<leftarrow> (if send then Daemon_send_scheduler (StatsMsg m) d2 else Some (True, d2));
      Some (if ok then (True, d3\<lparr>d_icecream_load := 0, d_current_load := sint load\<rparr>) else (False, d3)) }"
    using True unfolding Daemon_maybe_stats_def Let_def send_def m_def load_def d2_def d1_def x_def n_def by simp
  then show ?thesis
    using fin [OF q2] fin [OF q3] q3 s(1) by (cases send; cases ok) simp_all
qed (auto simp: Daemon_maybe_stats_def Let_def)

section \<open>The cache\<close>

text \<open>The removal of an environment takes its size off the cache, whose size is at least the sum of all.\<close>

lemma re_new_size [simp]: "re_size ReceivedEnvironment_new = 0"
  by (simp add: ReceivedEnvironment_new_def)

lemma ne_new_size [simp]: "ne_size NativeEnvironment_new = 0"
  by (simp add: NativeEnvironment_new_def)

definition env_count :: "daemon \<Rightarrow> nat" where
  "env_count d = length (d_received d) + length (d_native d)"

lemma unat_minus: "unat b \<le> unat a \<Longrightarrow> unat (a - b) = unat a - unat b" for a b :: u64
  by (simp add: unat_sub word_le_nat_alt)

lemma remove_native_total:
  assumes "cache_ok d" and "k \<noteq> ''''"
  shows "\<exists>d'. Daemon_remove_native_environment k d = Some d' \<and> same_table d d' \<and> cache_ok d'
    \<and> d_cache_size_limit d' = d_cache_size_limit d \<and> (k \<in> fst ` set (d_native d) \<longrightarrow> env_count d' < env_count d)"
proof -
  define f where "f = remove_native_environment_files k d"
  have f: "same_table d f" "d_native f = d_native d" "d_received f = d_received d" "d_cache_size f = d_cache_size d" "d_cache_size_limit f = d_cache_size_limit d"
    by (simp_all add: f_def remove_native_environment_files_def same_table_def)
  let ?e = "case map_of (d_native d) k of None \<Rightarrow> NativeEnvironment_new | Some e \<Rightarrow> e"
  let ?d = "f\<lparr>d_cache_size := d_cache_size d - ne_size ?e, d_native := map_erase k (d_native d)\<rparr>"
  have "sum_list (map ((unat \<circ> ne_size) \<circ> snd) (map_erase k (d_native d))) + unat (ne_size ?e) \<le> sum_list (map ((unat \<circ> ne_size) \<circ> snd) (d_native d))"
    using sum_map_erase [of "unat \<circ> ne_size" k "d_native d"] by (simp split: option.splits)
  then have le: "cache_sum ?d + unat (ne_size ?e) \<le> unat (d_cache_size d)"
    using assms(1) by (simp add: cache_ok_def cache_sum_def f)
  then have "cache_ok ?d"
    using assms(1) by (simp add: cache_ok_def unat_minus smap.sorted_map_erase f)
  moreover have "\<not> d_cache_size d < ne_size ?e"
    using le by (simp add: word_less_nat_alt)
  moreover have "same_table d ?d"
    using f(1) by (simp add: same_table_def)
  ultimately show ?thesis
    using assms(2) map_erase_less [of k "d_native d"]
    by (intro exI [of _ ?d]) (simp add: Daemon_remove_native_environment_def Let_def f env_count_def flip: f_def)
qed

lemma remove_environment_total:
  assumes "cache_ok d" and "k \<noteq> ''''"
  shows "\<exists>d'. Daemon_remove_environment k d = Some d' \<and> same_table d d' \<and> cache_ok d'
    \<and> d_cache_size_limit d' = d_cache_size_limit d \<and> (k \<in> fst ` set (d_received d) \<longrightarrow> env_count d' < env_count d)"
proof -
  define f where "f = remove_environment_files k d"
  have f: "same_table d f" "d_native f = d_native d" "d_received f = d_received d" "d_cache_size f = d_cache_size d" "d_cache_size_limit f = d_cache_size_limit d"
    by (simp_all add: f_def remove_environment_files_def same_table_def)
  let ?e = "case map_of (d_received d) k of None \<Rightarrow> ReceivedEnvironment_new | Some e \<Rightarrow> e"
  let ?d = "f\<lparr>d_cache_size := d_cache_size d - re_size ?e, d_received := map_erase k (d_received d)\<rparr>"
  have "sum_list (map ((unat \<circ> re_size) \<circ> snd) (map_erase k (d_received d))) + unat (re_size ?e) \<le> sum_list (map ((unat \<circ> re_size) \<circ> snd) (d_received d))"
    using sum_map_erase [of "unat \<circ> re_size" k "d_received d"] by (simp split: option.splits)
  then have le: "cache_sum ?d + unat (re_size ?e) \<le> unat (d_cache_size d)"
    using assms(1) by (simp add: cache_ok_def cache_sum_def f)
  then have "cache_ok ?d"
    using assms(1) by (simp add: cache_ok_def unat_minus smap.sorted_map_erase f)
  moreover have "\<not> d_cache_size d < re_size ?e"
    using le by (simp add: word_less_nat_alt)
  moreover have "same_table d ?d"
    using f(1) by (simp add: same_table_def)
  ultimately show ?thesis
    using assms(2) map_erase_less [of k "d_received d"]
    by (intro exI [of _ ?d]) (simp add: Daemon_remove_environment_def Let_def f env_count_def flip: f_def)
qed

text \<open>No client that the search for users of an environment looks at is without a job.\<close>

definition uses_env :: "status \<Rightarrow> bool" where
  "uses_env s \<longleftrightarrow> s \<in> {TOCOMPILE, TOINSTALL, WAITINSTALL, WAITFORCHILD}"

definition jobs_known :: "(client_ptr \<times> dclient) list \<Rightarrow> bool" where
  "jobs_known cs \<longleftrightarrow> (\<forall>e \<in> set cs. uses_env (dc_status (snd e)) \<longrightarrow> dc_job (snd e) \<noteq> None)"

lemma env_in_use_total: "jobs_known cs \<Longrightarrow> \<exists>b. env_in_use env cs = Some b"
proof (induction env cs rule: env_in_use.induct)
  case (2 env p c cs)
  then show ?case
    unfolding env_in_use.simps uses_env_def [symmetric]
    by (cases "uses_env (dc_status c)") (auto simp: jobs_known_def split: option.split)
qed simp

text \<open>
  The environments that may be removed, as the comments in \<open>check_cache_size\<close> have it. A received one: its assembler is missing, or
  it has not been used for 200 seconds and no client uses it. A native one: its file is missing, or it has not been used for a time that depends
  on how many there are and on whether it is being made.
\<close>

definition received_removable :: "daemon \<Rightarrow> string \<Rightarrow> received_env \<Rightarrow> bool" where
  "received_removable d k e \<longleftrightarrow> \<not> d_access d (d_envbasedir d @ ''/target='' @ k @ ''/usr/bin/as'')
     \<or> d_now d - re_last_use e > 200
       \<and> (\<forall>(p, c)\<in>set (d_clients d). uses_env (dc_status c) \<longrightarrow> (\<forall>job. dc_job c = Some job \<longrightarrow> env_for_job job \<noteq> k))"

definition native_removable :: "daemon \<Rightarrow> native_env \<Rightarrow> bool" where
  "native_removable d e \<longleftrightarrow> ne_name e \<noteq> '''' \<and> \<not> d_readable d (ne_name e)
     \<or> d_now d - ne_last_use e > (if ne_create_env_pipe e \<noteq> 0 then 365 * 24 * 60 * 60
         else if length (d_native d) < 5 then 24 * 60 * 60 else 200)"

lemma env_in_use_iff:
  "env_in_use env cs = Some b \<Longrightarrow>
     b = (\<not> (\<forall>(p, c)\<in>set cs. uses_env (dc_status c) \<longrightarrow> (\<forall>job. dc_job c = Some job \<longrightarrow> env_for_job job \<noteq> env)))"
proof (induction env cs arbitrary: b rule: env_in_use.induct)
  case (2 env p c cs)
  show ?case
  proof (cases "uses_env (dc_status c)")
    case True
    then obtain job b' where "dc_job c = Some job" "env_in_use env cs = Some b'" "b = (env_for_job job = env \<or> b')"
      using 2(3) unfolding env_in_use.simps uses_env_def [symmetric] by (auto split: option.splits)
    then show ?thesis
      using 2(1) True by (auto simp: uses_env_def)
  next
    case False
    then show ?thesis
      using 2(2) 2(3) unfolding env_in_use.simps uses_env_def [symmetric] by (auto simp: uses_env_def)
  qed
qed simp

lemma oldest_received_total:
  assumes "jobs_known (d_clients d)"
  shows "\<exists>t k. oldest_received d t0 k0 m = Some (t, k) \<and>
    ((k = k0 \<and> t = t0 \<and> (\<forall>(j, e)\<in>set m. re_last_use e < t0 \<or> \<not> d_access d (d_envbasedir d @ ''/target='' @ j @ ''/usr/bin/as'')
        \<longrightarrow> \<not> received_removable d j e)) \<or> (\<exists>e. (k, e) \<in> set m \<and> received_removable d k e))"
proof (induction m arbitrary: t0 k0)
  case (Cons x m)
  obtain j e where x: "x = (j, e)"
    by (cases x)
  obtain b where b: "env_in_use j (d_clients d) = Some b"
    using env_in_use_total [OF assms] by blast
  note u = env_in_use_iff [OF b]
  show ?case
  proof (cases "d_access d (d_envbasedir d @ ''/target='' @ j @ ''/usr/bin/as'') \<and> re_last_use e < t0 \<and> d_now d - re_last_use e > 200 \<and> \<not> b")
    case True
    then have r: "received_removable d j e"
      using u by (auto simp: received_removable_def)
    have "oldest_received d t0 k0 (x # m) = oldest_received d (re_last_use e) j m"
      using True b by (simp add: x)
    with Cons.IH [of "re_last_use e" j] r show ?thesis
      unfolding x by auto
  next
    case False
    show ?thesis
    proof (cases "d_access d (d_envbasedir d @ ''/target='' @ j @ ''/usr/bin/as'')")
      case True
      have "oldest_received d t0 k0 (x # m) = oldest_received d t0 k0 m"
        using True False b by (cases b) (auto simp: x)
      moreover have "re_last_use e < t0 \<longrightarrow> \<not> received_removable d j e"
        using True False u by (auto simp: received_removable_def)
      ultimately show ?thesis
        using Cons.IH [of t0 k0] True unfolding x by fastforce
    next
      case False
      then show ?thesis
        by (auto simp: x received_removable_def)
    qed
  qed
qed simp

lemma oldest_native_mem:
  "(oldest_native d t k0 m = k0 \<and> (\<forall>(j, e)\<in>set m. ne_last_use e < t \<or> ne_name e \<noteq> '''' \<and> \<not> d_readable d (ne_name e) \<longrightarrow> \<not> native_removable d e))
   \<or> (\<exists>e. (oldest_native d t k0 m, e) \<in> set m \<and> native_removable d e)"
proof (induction m arbitrary: t k0)
  case (Cons x m)
  obtain j e where x: "x = (j, e)"
    by (cases x)
  consider (gone) "ne_name e \<noteq> ''''" "\<not> d_readable d (ne_name e)"
    | (old) "\<not> (ne_name e \<noteq> '''' \<and> \<not> d_readable d (ne_name e))" "ne_last_use e < t" "native_removable d e"
    | (keep) "\<not> (ne_name e \<noteq> '''' \<and> \<not> d_readable d (ne_name e))" "\<not> (ne_last_use e < t \<and> native_removable d e)"
    by blast
  then show ?case
  proof cases
    case gone
    then show ?thesis
      by (auto simp: x native_removable_def)
  next
    case old
    then have "oldest_native d t k0 (x # m) = oldest_native d (ne_last_use e) j m"
      by (auto simp: x native_removable_def Let_def)
    then show ?thesis
      using Cons.IH [of "ne_last_use e" j] old(3) unfolding x by auto
  next
    case keep
    then have "oldest_native d t k0 (x # m) = oldest_native d t k0 m"
      by (auto simp: x native_removable_def Let_def)
    then show ?thesis
      using Cons.IH [of t k0] keep unfolding x by fastforce
  qed
qed simp

definition cache_done :: "string \<Rightarrow> daemon \<Rightarrow> bool" where
  "cache_done new_env d \<longleftrightarrow> d_cache_size d \<le> d_cache_size_limit d
     \<or> (\<forall>(k, e)\<in>set (d_received d). \<not> received_removable d k e) \<and> (\<forall>(k, e)\<in>set (d_native d). \<not> native_removable d e)
     \<or> (\<exists>k\<in>{'''', new_env}. (\<exists>e. (k, e) \<in> set (d_received d) \<and> received_removable d k e) \<or> (\<exists>e. (k, e) \<in> set (d_native d) \<and> native_removable d e))"

text \<open>What is removed may be removed, and nothing is added.\<close>

definition only_removable :: "daemon \<Rightarrow> daemon \<Rightarrow> bool" where
  "only_removable d d' \<longleftrightarrow> set (d_received d') \<subseteq> set (d_received d) \<and> set (d_native d') \<subseteq> set (d_native d)
     \<and> (\<forall>k e. (k, e) \<in> set (d_received d) \<and> (k, e) \<notin> set (d_received d') \<longrightarrow> received_removable d k e)
     \<and> (\<forall>k e. (k, e) \<in> set (d_native d) \<and> (k, e) \<notin> set (d_native d') \<longrightarrow> native_removable d e)"

definition shrunk :: "daemon \<Rightarrow> daemon \<Rightarrow> bool" where
  "shrunk d d' \<longleftrightarrow> d_now d' = d_now d \<and> d_access d' = d_access d \<and> d_readable d' = d_readable d \<and> d_envbasedir d' = d_envbasedir d
     \<and> d_clients d' = d_clients d \<and> length (d_native d') \<le> length (d_native d)"

lemma shrunk_removable:
  assumes "shrunk d d'"
  shows "received_removable d' k e \<Longrightarrow> received_removable d k e" and "native_removable d' x \<Longrightarrow> native_removable d x"
  using assms by (auto simp: shrunk_def received_removable_def native_removable_def split: if_splits)

lemma map_erase_mem: "(k, e) \<in> set (map_erase j m) \<longleftrightarrow> (k, e) \<in> set m \<and> k \<noteq> j"
  by (auto simp: map_erase_def)

lemma remove_native_effect:
  "Daemon_remove_native_environment k d = Some d' \<Longrightarrow>
     d_native d' = map_erase k (d_native d) \<and> d_received d' = d_received d \<and> shrunk d d'"
  by (auto simp: Daemon_remove_native_environment_def remove_native_environment_files_def Let_def shrunk_def map_erase_def split: if_splits)

lemma remove_environment_effect:
  "Daemon_remove_environment k d = Some d' \<Longrightarrow>
     d_received d' = map_erase k (d_received d) \<and> d_native d' = d_native d \<and> shrunk d d'"
  by (auto simp: Daemon_remove_environment_def remove_environment_files_def Let_def shrunk_def split: if_splits)

lemma only_removable_trans:
  assumes ab: "only_removable a b" and "shrunk a b" and bc: "only_removable b c"
  shows "only_removable a c"
proof -
  note later = shrunk_removable [OF assms(2)]
  have "received_removable a k e" if "(k, e) \<in> set (d_received a)" "(k, e) \<notin> set (d_received c)" for k e
    using ab bc later(1) that by (cases "(k, e) \<in> set (d_received b)") (auto simp: only_removable_def)
  moreover have "native_removable a e" if "(k, e) \<in> set (d_native a)" "(k, e) \<notin> set (d_native c)" for k e
    using ab bc later(2) that by (cases "(k, e) \<in> set (d_native b)") (auto simp: only_removable_def)
  moreover have "set (d_received c) \<subseteq> set (d_received a)" "set (d_native c) \<subseteq> set (d_native a)"
    using ab bc by (auto simp: only_removable_def)
  ultimately show ?thesis
    unfolding only_removable_def by (intro conjI allI impI) (simp_all, blast)
qed

lemma cache_loop_total:
  assumes "jobs_known (d_clients d)" and "cache_ok d" and "env_count d < n"
  shows "\<exists>d'. cache_loop n env d = Some d' \<and> same_table d d' \<and> cache_ok d' \<and> cache_done env d' \<and> only_removable d d'"
  using assms
proof (induction n arbitrary: d)
  case (Suc n)
  obtain t k where r: "oldest_received d (d_now d + 90000) '''' (d_received d) = Some (t, k)"
    and found: "k = '''' \<and> t = d_now d + 90000 \<and> (\<forall>(j, e)\<in>set (d_received d). re_last_use e < d_now d + 90000
        \<or> \<not> d_access d (d_envbasedir d @ ''/target='' @ j @ ''/usr/bin/as'') \<longrightarrow> \<not> received_removable d j e)
      \<or> (\<exists>e. (k, e) \<in> set (d_received d) \<and> received_removable d k e)"
    using oldest_received_total [OF Suc.prems(1), of "d_now d + 90000" "''''" "d_received d"] by blast
  let ?n = "oldest_native d t '''' (d_native d)"
  note nm = oldest_native_mem [of d t "''''" "d_native d"]
  have keys: "distinct (map fst (d_received d))" "distinct (map fst (d_native d))"
    using Suc.prems(2) by (simp_all add: cache_ok_def smap.sorted_map_distinct)
  show ?case
  proof (cases "d_cache_size d > d_cache_size_limit d \<and> \<not> ((k = '''' \<or> k = env) \<and> (?n = '''' \<or> ?n = env))")
    case True
    have "\<exists>d1. (if ?n \<noteq> '''' then Daemon_remove_native_environment ?n d else Daemon_remove_environment k d) = Some d1
      \<and> same_table d d1 \<and> cache_ok d1 \<and> env_count d1 < env_count d \<and> only_removable d d1 \<and> shrunk d d1"
    proof (cases "?n = ''''")
      case False
      then obtain e where e: "(?n, e) \<in> set (d_native d)" "native_removable d e"
        using nm by blast
      then obtain d1 where d1: "Daemon_remove_native_environment ?n d = Some d1" "same_table d d1" "cache_ok d1" "env_count d1 < env_count d"
        using remove_native_total [OF Suc.prems(2) False] by force
      have "x = e" if "(?n, x) \<in> set (d_native d)" for x
        using eq_key_imp_eq_value [OF keys(2) that e(1)] .
      then have "only_removable d d1"
        using remove_native_effect [OF d1(1)] e(2) by (auto simp: only_removable_def map_erase_mem)
      then show ?thesis
        using d1 False remove_native_effect [OF d1(1)] by simp
    next
      case N: True
      then have K: "k \<noteq> ''''"
        using True by simp
      then obtain e where e: "(k, e) \<in> set (d_received d)" "received_removable d k e"
        using found by blast
      then obtain d1 where d1: "Daemon_remove_environment k d = Some d1" "same_table d d1" "cache_ok d1" "env_count d1 < env_count d"
        using remove_environment_total [OF Suc.prems(2) K] by force
      have "x = e" if "(k, x) \<in> set (d_received d)" for x
        using eq_key_imp_eq_value [OF keys(1) that e(1)] .
      then have "only_removable d d1"
        using remove_environment_effect [OF d1(1)] e(2) by (auto simp: only_removable_def map_erase_mem)
      then show ?thesis
        using d1 N remove_environment_effect [OF d1(1)] by simp
    qed
    then obtain d1 where d1: "(if ?n \<noteq> '''' then Daemon_remove_native_environment ?n d else Daemon_remove_environment k d) = Some d1"
      "same_table d d1" "cache_ok d1" "env_count d1 < env_count d" "only_removable d d1" "shrunk d d1"
      by blast
    obtain d' where d': "cache_loop n env d1 = Some d'" "same_table d1 d'" "cache_ok d'" "cache_done env d'" "only_removable d1 d'"
      using Suc.IH [of d1] Suc.prems d1 by (auto simp: same_table_def)
    moreover have "cache_loop (Suc n) env d = cache_loop n env d1"
      using True r(1) d1(1) by (auto simp: Let_def split: if_splits)
    ultimately show ?thesis
      using same_table_trans [OF d1(2)] only_removable_trans [OF d1(5,6)] by auto
  next
    case False
    have "cache_done env d"
    proof (cases "d_cache_size d \<le> d_cache_size_limit d")
      case S: False
      then have kn: "k = '''' \<or> k = env" "?n = '''' \<or> ?n = env"
        using False by auto
      show ?thesis
      proof (cases "(\<exists>e. (k, e) \<in> set (d_received d) \<and> received_removable d k e) \<or> (\<exists>e. (?n, e) \<in> set (d_native d) \<and> native_removable d e)")
        case True
        then show ?thesis
          using kn unfolding cache_done_def by blast
      next
        case none: False
        have "re_last_use e < d_now d + 90000" if "received_removable d j e" "d_access d (d_envbasedir d @ ''/target='' @ j @ ''/usr/bin/as'')" for j e
          using that by (auto simp: received_removable_def)
        moreover have "ne_last_use e < d_now d + 90000" if "native_removable d e" "\<not> (ne_name e \<noteq> '''' \<and> \<not> d_readable d (ne_name e))" for e
          using that by (auto simp: native_removable_def split: if_splits)
        ultimately show ?thesis
          using none found nm unfolding cache_done_def by blast
      qed
    qed (simp add: cache_done_def)
    then show ?thesis
      using False r(1) Suc.prems(2) by (auto simp: Let_def only_removable_def)
  qed
qed simp

lemma check_cache_size_total:
  assumes "jobs_known (d_clients d)" and "cache_ok d"
  shows "\<exists>d'. Daemon_check_cache_size env d = Some d' \<and> same_table d d' \<and> cache_ok d' \<and> cache_done env d' \<and> only_removable d d'"
  using cache_loop_total [OF assms, of "Suc (length (d_received d) + length (d_native d))" env]
  by (simp add: Daemon_check_cache_size_def env_count_def del: cache_loop.simps)

lemma received_put_same:
  assumes "cache_ok d" and "\<And>e. re_size (f e) = re_size e"
  shows "cache_ok (received_put k f d)"
  using assms smap.sum_map_put [of "d_received d" "unat \<circ> re_size" k "f (case map_of (d_received d) k of None \<Rightarrow> ReceivedEnvironment_new | Some e \<Rightarrow> e)"]
  by (auto simp: cache_ok_def cache_sum_def received_put_def smap.sorted_map_put split: option.splits)

lemma native_put_same:
  assumes "cache_ok d" and "\<And>e. ne_size (f e) = ne_size e"
  shows "cache_ok (native_put k f d)"
  using assms smap.sum_map_put [of "d_native d" "unat \<circ> ne_size" k "f (native_at k d)"]
  by (auto simp: cache_ok_def cache_sum_def native_put_def native_at_def smap.sorted_map_put split: option.splits)

lemma unat_plus: "unat a + unat b < 2 ^ 64 \<Longrightarrow> unat (a + b) = unat a + unat b" for a b :: u64
  by (simp add: unat_word_ariths)

lemma received_put_new:
  assumes "cache_ok d" and "unat (d_cache_size d) + unat n < 2 ^ 64"
  shows "cache_ok (received_put k (\<lambda>e. \<lparr>re_last_use = t, re_size = n\<rparr>) (d\<lparr>d_cache_size := d_cache_size d + n\<rparr>))"
  using assms smap.sum_map_put [of "d_received d" "unat \<circ> re_size" k "\<lparr>re_last_use = t, re_size = n\<rparr>"]
  by (auto simp: cache_ok_def cache_sum_def received_put_def smap.sorted_map_put unat_plus)

lemma native_put_new:
  assumes "cache_ok d" and "unat (d_cache_size d) + unat n < 2 ^ 64" and "\<And>e. ne_size (f e) = n"
  shows "cache_ok (native_put k f (d\<lparr>d_cache_size := d_cache_size d + n\<rparr>))"
  using assms smap.sum_map_put [of "d_native d" "unat \<circ> ne_size" k "f (native_at k d)"]
  by (auto simp: cache_ok_def cache_sum_def native_put_def native_at_def smap.sorted_map_put unat_plus)

lemma put_same_table [simp]:
  "same_table d (received_put k f d)" "same_table d (native_put k g d)"
  "same_table d (remove_environment_files env d)" "same_cache d (remove_environment_files env d)"
  by (simp_all add: received_put_def native_put_def remove_environment_files_def same_table_def same_cache_def)

section \<open>The end of a transfer\<close>

text \<open>No other client installs an environment without a job: else the search of the cache follows a null pointer.\<close>

definition calm :: "client_ptr \<Rightarrow> daemon \<Rightarrow> bool" where
  "calm p d \<longleftrightarrow> jobs_known (map_erase p (d_clients d))"

text \<open>The size of the environment that is being installed does not overflow the size of the cache.\<close>

definition fits :: "daemon \<Rightarrow> bool" where
  "fits d \<longleftrightarrow> (case d_installed_sizes d of [] \<Rightarrow> True | n # _ \<Rightarrow> unat (d_cache_size d) + unat n < 2 ^ 64)"

definition without_child :: "dclient \<Rightarrow> dclient" where
  "without_child c = c\<lparr>dc_pipe_from_child := (if dc_pipe_from_child c \<ge> 0 then -1 else dc_pipe_from_child c),
     dc_pipe_to_child := (if dc_pipe_to_child c \<ge> 0 then -1 else dc_pipe_to_child c),
     dc_child_pid := (if dc_child_pid c \<ge> 0 then -1 else dc_child_pid c)\<rparr>"

definition installed :: "dclient \<Rightarrow> dclient" where
  "installed c = (without_child c)\<lparr>dc_status := UNKNOWN_STATUS, dc_outfile := ''''\<rparr>"

lemma jobs_known_set_at: "jobs_known (map_erase p cs) \<Longrightarrow> \<not> uses_env (dc_status c) \<Longrightarrow> jobs_known (set_at p c cs)"
proof (induction cs)
  case (Cons e cs)
  then show ?case
    by (cases "fst e = p") (simp_all add: jobs_known_def)
qed simp

lemma put_refl: "client_at d p = Some c \<Longrightarrow> distinct (map fst (d_clients d)) \<Longrightarrow> put p c (d_active_processes d) (d_current_kids d) d d"
  by (simp add: put_def keeps_def client_at_def set_at_same)

lemma finish_transfer_total:
  assumes c: "client_at d p = Some c" and D: "distinct (map fst (d_clients d))"
    and pre: "installing c" "dc_outfile c \<noteq> ''''" "cancel \<or> dc_pipe_from_child c < 0 \<and> dc_pipe_to_child c < 0 \<and> dc_child_pid c < 0"
      "dc_child_pid c \<ge> 0 \<longrightarrow> d_current_kids d \<noteq> 0"
    and cache: "cache_ok d" "calm p d" "cancel \<or> fits d"
  shows "\<exists>r d'. Daemon_finish_transfer_env p cancel d = Some (r, d')
    \<and> put p (installed c) (d_active_processes d) (d_current_kids d - (if dc_child_pid c \<ge> 0 then 1 else 0)) d d' \<and> cache_ok d'"
proof -
  let ?k = "d_current_kids d - (if dc_child_pid c \<ge> 0 then 1 else 0)"
  define d1 where "d1 = d\<lparr>d_clients := set_at p (without_child c) (d_clients d), d_current_kids := ?k\<rparr>"
  have drop: "drop_child p c d = Some d1"
    using pre(4) upd_client_put [OF c D] by (simp add: drop_child_def d1_def without_child_def)
  define n where "n = (if cancel then 0 else case d_installed_sizes d1 of [] \<Rightarrow> 0 | n # _ \<Rightarrow> n)"
  define d2 where "d2 = (if cancel then d1 else d1\<lparr>d_installed_sizes := tl (d_installed_sizes d1)\<rparr>)"
  define d3 where "d3 = (if n = 0 then remove_environment_files (dc_outfile c) d2 else d2)"
  have d3: "d_clients d3 = set_at p (without_child c) (d_clients d)" "d_active_processes d3 = d_active_processes d" "d_current_kids d3 = ?k"
    "d_fd2client d3 = d_fd2client d" "keeps d d3" "same_cache d d3"
    by (simp_all add: d3_def d2_def d1_def remove_environment_files_def keeps_def same_cache_def)
  define d4 where "d4 = d3\<lparr>d_clients := set_at p (installed c) (d_clients d)\<rparr>"
  have u: "upd_client p (\<lambda>c. c\<lparr>dc_status := UNKNOWN_STATUS, dc_outfile := ''''\<rparr>) d3 = Some d4"
    using c D by (subst upd_client_put [of _ _ "without_child c"]) (simp_all add: d4_def d3 installed_def client_at_def map_of_set_at)
  have d4: "put p (installed c) (d_active_processes d) ?k d d4" "same_cache d d4"
    using d3 by (simp_all add: put_def d4_def keeps_def same_cache_def)
  define d5 where "d5 = (if n \<noteq> 0 then received_put (dc_outfile c) (\<lambda>e. \<lparr>re_last_use = d_now d4, re_size = n\<rparr>) (d4\<lparr>d_cache_size := d_cache_size d4 + n\<rparr>) else d4)"
  have "unat (d_cache_size d) + unat n < 2 ^ 64"
    using cache(3) unsigned_less [of "d_cache_size d"] by (auto simp: fits_def n_def d1_def split: list.splits)
  then have c5: "cache_ok d5"
    using received_put_new [of d4 n "dc_outfile c"] cache_ok_same [OF d4(2) cache(1)] d4(2) by (simp add: d5_def same_cache_def)
  have p5: "put p (installed c) (d_active_processes d) ?k d d5"
    using d4(1) by (auto simp: d5_def put_def keeps_def received_put_def)
  have "jobs_known (d_clients d5)"
    using jobs_known_set_at [OF cache(2) [unfolded calm_def]] p5 by (simp add: put_def installed_def uses_env_def)
  then obtain d6 where d6: "Daemon_check_cache_size (dc_outfile c) d5 = Some d6" "same_table d5 d6" "cache_ok d6"
    using check_cache_size_total [OF _ c5] by blast
  obtain r d7 where d7: "Daemon_reannounce_environments d6 = Some (r, d7)" "quiet d6 d7"
    using reannounce_total by blast
  obtain ok d8 where d8: "Daemon_maybe_stats True d7 = Some (ok, d8)" "quiet d7 d8"
    using maybe_stats_total by blast
  have q: "quiet d6 d8"
    using quiet_trans [OF d7(2) d8(2)] .
  have guard: "(d_asserts d \<and> (dc_outfile c = '''' \<or> \<not> installing c
      \<or> \<not> cancel \<and> (dc_pipe_from_child c \<ge> 0 \<or> dc_pipe_to_child c \<ge> 0 \<or> dc_child_pid c \<ge> 0))) = False"
    using pre by auto
  have "Daemon_finish_transfer_env p cancel d = Some (r \<and> ok, d8)"
    by (simp only: Daemon_finish_transfer_env_def c guard drop Let_def bind_simps if_False n_def [symmetric] d2_def [symmetric]
      d3_def [symmetric] u d5_def [symmetric] d6 d7 d8 prod.case)
  moreover have "put p (installed c) (d_active_processes d) ?k d d8"
    using put_same [OF put_same [OF p5 d6(2)]] q by (simp add: quiet_def)
  ultimately show ?thesis
    using cache_ok_same [of d6 d8] d6(3) q by (auto simp: quiet_def)
qed

section \<open>The end of a client\<close>

lemma release_slot_active: "d_active_processes (release_slot c d) = d_active_processes d - weight (slots d) c"
  by (simp add: release_slot_def weight_def)

lemma release_slot_rest:
  "d_clients (release_slot c d) = d_clients d" "d_fd2client (release_slot c d) = d_fd2client d" "d_current_kids (release_slot c d) = d_current_kids d"
  "keeps d (release_slot c d)" "same_cache d (release_slot c d)"
  by (simp_all add: release_slot_def keeps_def same_cache_def)

definition ends_well :: "dclient \<Rightarrow> bool" where
  "ends_well c \<longleftrightarrow> (dc_status c = TOCOMPILE \<longrightarrow> dc_job c \<noteq> None) \<and> (idle (dc_status c) \<longrightarrow> dc_job_id c = 0) \<and> dc_client_id c > 0"

lemma end_report_total:
  assumes "ends_well c" and "dc_status c \<noteq> WAITFORCHILD"
  shows "\<exists>r. end_report dbg c e n = Some r \<and> (\<forall>m. r = Some m \<longrightarrow> plain m)"
  using assms by (cases "dc_status c") (auto simp: ends_well_def idle_def end_report_def Let_def)

lemma handle_end_plain:
  assumes c: "client_at d p = Some c" and "\<not> installing c" and "ends_well c"
  shows "\<exists>d'. Daemon_handle_end p e d = Some d' \<and> gone p (dc_fd c) (d_active_processes d - weight (slots d) c) (d_current_kids d) d d' \<and> same_cache d d'"
proof -
  define d1 where "d1 = d\<lparr>d_fd2client := map_erase (dc_fd c) (d_fd2client d)\<rparr>"
  define c1 where "c1 = (if dc_status c = WAITCOMPILE \<and> e = 119 then c\<lparr>dc_job_id := 0\<rparr> else c)"
  define d3 where "d3 = release_slot c d1"
  define d4 where "d4 = d3\<lparr>d_clients := map_erase p (d_clients d3)\<rparr>"
  have "slots d1 = slots d"
    by (simp add: d1_def slots_def)
  then have g: "gone p (dc_fd c) (d_active_processes d - weight (slots d) c) (d_current_kids d) d d4" "same_cache d d4"
    using release_slot_rest(4,5) [of d1 c] by (simp_all add: gone_def d4_def d3_def release_slot_rest release_slot_active keeps_def same_cache_def d1_def)
  have c1: "client_at d1 p = Some c"
    using c by (simp add: d1_def client_at_def)
  have h: "Daemon_handle_end p e d = (if d_scheduler d4 \<noteq> None \<and> dc_status c1 \<noteq> WAITFORCHILD then do {
       report \<leftarrow> end_report (d_asserts d4) c1 e (clients_size d4);
       (case report of None \<Rightarrow> Some d4 | Some m \<Rightarrow> map_option snd (Daemon_send_scheduler m d4))
     } else Some d4)"
    by (simp only: Daemon_handle_end_def c Let_def bind_simps d1_def [symmetric] assms(2) if_False c1 c1_def [symmetric] d3_def [symmetric] d4_def [symmetric])
  have w: "ends_well c1"
    using assms(3) by (simp add: c1_def ends_well_def)
  show ?thesis
  proof (cases "d_scheduler d4 \<noteq> None \<and> dc_status c1 \<noteq> WAITFORCHILD")
    case True
    then obtain r where r: "end_report (d_asserts d4) c1 e (clients_size d4) = Some r" "\<And>m. r = Some m \<Longrightarrow> plain m"
      using end_report_total [OF w] by blast
    show ?thesis
    proof (cases r)
      case None
      then show ?thesis
        using True h r g by auto
    next
      case (Some m)
      obtain ok d5 where "Daemon_send_scheduler m d4 = Some (ok, d5)" "quiet d4 d5"
        using send_scheduler_total [OF r(2) [OF Some]] by blast
      then show ?thesis
        using True h r Some gone_same [OF g(1)] same_cache_trans [OF g(2)] by (auto simp: quiet_def)
    qed
  next
    case False
    then show ?thesis
      using h g by auto
  qed
qed

lemma client_ends_well: "client_ok c \<Longrightarrow> ends_well c"
  by (simp add: client_ok_def ends_well_def)

lemma kids_positive:
  assumes "table_okx x d" and "client_at d p = Some c" and "kid c = 1"
  shows "d_current_kids d \<noteq> 0"
proof -
  have D: "distinct (map fst (d_clients d))" "map_of (d_clients d) p = Some c"
    using assms by (simp_all add: table_distinct client_at_def)
  have "total kid (d_clients d) \<ge> 1"
    using total_erase [OF D, of kid] assms(3) by simp
  moreover have le: "total kid cs \<le> length cs" for cs
    by (induction cs) (auto simp: kid_def)
  have "total kid (d_clients d) + x < 2 ^ 32"
    using le [of "d_clients d"] assms(1) by (simp add: table_okx_def)
  ultimately have "(of_nat (total kid (d_clients d) + x) :: u32) \<noteq> 0"
    unfolding word_of_nat_eq_0_iff by (auto dest!: dvd_imp_le)
  then show ?thesis
    using assms(1) by (simp add: table_okx_def slots_ok_def)
qed

lemma handle_end_totalx:
  assumes "daemon_okx x d" and c: "client_at d p = Some c" and "dc_status c \<noteq> WAITFORCHILD" and "installing c \<longrightarrow> calm p d"
  shows "\<exists>d'. Daemon_handle_end p e d = Some d' \<and> daemon_okx x d' \<and> d_clients d' = map_erase p (d_clients d)"
proof -
  have ok: "table_okx x d" "cache_ok d" "client_ok c"
    using assms(1) table_clientx [OF _ c, of x] by (simp_all add: daemon_okx_def)
  show ?thesis
  proof (cases "installing c")
    case False
    obtain d' where d': "Daemon_handle_end p e d = Some d'" "gone p (dc_fd c) (d_active_processes d - weight (slots d) c) (d_current_kids d) d d'" "same_cache d d'"
      using handle_end_plain [OF c False client_ends_well [OF ok(3)]] by blast
    have "table_okx x d'"
      using False assms(3) by (intro table_ok_gone [OF ok(1) c d'(2)]) (simp_all add: kid_def)
    then show ?thesis
      using d' cache_ok_same [OF d'(3) ok(2)] by (auto simp: daemon_okx_def gone_def)
  next
    case True
    define d1 where "d1 = d\<lparr>d_fd2client := map_erase (dc_fd c) (d_fd2client d)\<rparr>"
    let ?k = "d_current_kids d - (if dc_child_pid c \<ge> 0 then 1 else 0)"
    have pre: "client_at d1 p = Some c" "distinct (map fst (d_clients d1))" "dc_outfile c \<noteq> ''''"
      "dc_child_pid c \<ge> 0 \<longrightarrow> d_current_kids d1 \<noteq> 0" "cache_ok d1" "calm p d1"
      using c ok True assms(4) kids_positive [OF ok(1) c] cache_ok_same [of d d1]
      by (auto simp: d1_def client_at_def table_distinct client_ok_def kid_def same_cache_def calm_def)
    obtain r d2 where d2: "Daemon_finish_transfer_env p True d1 = Some (r, d2)" "put p (installed c) (d_active_processes d) ?k d1 d2" "cache_ok d2"
      using finish_transfer_total [OF pre(1,2) True pre(3) _ pre(4-6), of True] by (auto simp: d1_def)
    have c2: "client_at d2 p = Some (installed c)"
      using put_client_at [OF d2(2) pre(1)] .
    have s: "dc_status (installed c) = UNKNOWN_STATUS" "\<not> installing (installed c)" "dc_fd (installed c) = dc_fd c"
      by (simp_all add: installed_def without_child_def installing_def)
    have "ends_well (installed c)"
      using ok(3) True by (auto simp: ends_well_def client_ok_def s idle_def installed_def without_child_def installing_def)
    then obtain d' where d': "Daemon_handle_end p e d2 = Some d'" "gone p (dc_fd c) (d_active_processes d) ?k d2 d'" "same_cache d2 d'"
      using handle_end_plain [OF c2 s(2), of e] d2(2) by (auto simp: weight_def s put_def)
    have f: "map_erase (dc_fd c) (d_fd2client d2) = d_fd2client d2"
      using d2(2) by (simp add: put_def d1_def map_erase_def)
    have "Daemon_handle_end p e d = Daemon_handle_end p e d2"
      unfolding Daemon_handle_end_def [of p e d] Daemon_handle_end_def [of p e d2]
      using c c2 d2(1) f s True by (simp add: Let_def flip: d1_def)
    moreover have "gone p (dc_fd c) (d_active_processes d) ?k d d'"
      using put_gone [OF d2(2) d'(2)] by (simp add: gone_def d1_def keeps_def) (simp add: map_erase_def)
    then have "table_okx x d'"
      using True assms(3) by (intro table_ok_gone [OF ok(1) c]) (auto simp: kid_def weight_def installing_def)
    ultimately show ?thesis
      using d' cache_ok_same [OF d'(3) d2(3)] d2(2) by (auto simp: daemon_okx_def gone_def put_def d1_def)
  qed
qed

lemmas handle_end_total = handle_end_totalx [where x = 0]

end
