(* ===== verification/DaemonSteps.thy ===== *)
theory DaemonSteps
  imports DaemonInv
begin

text \<open>
  Each operation of the daemon, started in a consistent state by a message that its sender may send in that state, can be
  carried out and leaves a consistent state.
\<close>

section \<open>One client\<close>

lemma daemon_ok_upd:
  assumes "daemon_ok d" and "client_at d p = Some c" and "client_ok (f c)" and "dc_fd (f c) = dc_fd c" and "dc_client_id (f c) = dc_client_id c"
    and "weight (slots d) (f c) = weight (slots d) c" and "kid (f c) = kid c"
  shows "\<exists>d'. upd_client p f d = Some d' \<and> daemon_ok d' \<and> client_at d' p = Some (f c) \<and> d' = d\<lparr>d_clients := set_at p (f c) (d_clients d)\<rparr>"
proof -
  let ?d = "d\<lparr>d_clients := set_at p (f c) (d_clients d)\<rparr>"
  have ok: "table_ok d" "cache_ok d"
    using assms(1) by (simp_all add: daemon_okx_def)
  have "put p (f c) (d_active_processes d) (d_current_kids d) d ?d"
    by (simp add: put_def keeps_def)
  then have "table_ok ?d" "client_at ?d p = Some (f c)"
    using table_ok_put [OF ok(1) assms(2) _ assms(3-5)] put_client_at [OF _ assms(2)] assms(6,7) by auto
  then show ?thesis
    using upd_client_put [OF assms(2) table_distinct [OF ok(1)]] ok(2) by (simp add: daemon_okx_def cache_ok_def cache_sum_def)
qed

lemma client_here: "daemon_ok d \<Longrightarrow> client_at d p = Some c \<Longrightarrow> client_ok c"
  using table_client by (auto simp: daemon_okx_def)

lemma client_ok_channel [simp]: "client_ok (c\<lparr>dc_channel := ch\<rparr>) = client_ok c"
  by (simp add: client_ok_def installing_def)

lemma weight_channel [simp]: "weight n (c\<lparr>dc_channel := ch\<rparr>) = weight n c"
  by (simp add: weight_def)

lemma kid_channel [simp]: "kid (c\<lparr>dc_channel := ch\<rparr>) = kid c"
  by (simp add: kid_def installing_def)

lemma upd_channel:
  assumes "daemon_ok d" and "client_at d p = Some c"
  shows "\<exists>d'. upd_client p (\<lambda>c. c\<lparr>dc_channel := ch\<rparr>) d = Some d' \<and> daemon_ok d' \<and> client_at d' p = Some (c\<lparr>dc_channel := ch\<rparr>)
    \<and> d' = d\<lparr>d_clients := set_at p (c\<lparr>dc_channel := ch\<rparr>) (d_clients d)\<rparr>"
  using assms table_client [of d p c] by (intro daemon_ok_upd) (auto simp: daemon_okx_def)

lemma send_client_total:
  assumes "daemon_ok d" and "client_at d p = Some c" and "plain m"
  shows "\<exists>ok ch d'. send_client p m d = Some (ok, d') \<and> daemon_ok d' \<and> client_at d' p = Some (c\<lparr>dc_channel := ch\<rparr>)
    \<and> d' = d\<lparr>d_clients := set_at p (c\<lparr>dc_channel := ch\<rparr>) (d_clients d)\<rparr>"
proof -
  obtain ok ch where s: "send_msg (d_libs d) True False m (dc_channel c) = Some (ok, ch)"
    using send_msg_plain [OF assms(3)] by blast
  then show ?thesis
    using upd_channel [OF assms(1,2), of ch] assms(2) by (auto simp: send_client_def)
qed

lemma calm_set_at: "calm p (d\<lparr>d_clients := set_at p c (d_clients d)\<rparr>) = calm p d"
  by (simp add: calm_def)

lemma scheduler_ok:
  assumes "daemon_ok d" and "plain m"
  shows "\<exists>ok d'. Daemon_send_scheduler m d = Some (ok, d') \<and> daemon_ok d' \<and> quiet d d'"
  using send_scheduler_total [OF assms(2), of d] daemon_ok_quiet assms(1) by blast

lemmas client_defs = client_ok_def installing_def weight_def kid_def idle_def

section \<open>Answers of the scheduler\<close>

text \<open>A client that waits for an answer, or has got one of several.\<close>

definition waits :: "dclient \<Rightarrow> bool" where
  "waits c \<longleftrightarrow> dc_status c = WAITFORCS \<or> dc_status c = PENDING_USE_CS \<or> dc_status c = WAITCOMPILE"

definition answer_ok :: "u32 \<Rightarrow> daemon \<Rightarrow> bool" where
  "answer_ok i d \<longleftrightarrow> (case find_by_client_id (sint i) d of None \<Rightarrow> True | Some p \<Rightarrow> (case client_at d p of None \<Rightarrow> False | Some c \<Rightarrow> waits c))"

lemma unknown_client_total: "daemon_ok d \<Longrightarrow> \<exists>r d'. unknown_client i d = Some (r, d') \<and> daemon_ok d'"
  using scheduler_ok [of d "JobDoneMsg (JobDoneMsg_make i 107 FROM_SUBMITTER (clients_size d))"] by (auto simp: unknown_client_def)

lemma waits_pending: "client_ok c \<Longrightarrow> waits c \<Longrightarrow> client_ok (c\<lparr>dc_usecsmsg := Some u, dc_status := PENDING_USE_CS, dc_job_id := i\<rparr>)"
  "client_ok c \<Longrightarrow> waits c \<Longrightarrow> client_ok (c\<lparr>dc_usecsmsg := Some u\<rparr>)"
  "client_ok c \<Longrightarrow> waits c \<Longrightarrow> client_ok (c\<lparr>dc_status := WAITCOMPILE, dc_job_id := i\<rparr>)"
  unfolding waits_def by (elim disjE; simp add: client_defs)+

lemma waits_weight: "waits c \<Longrightarrow> weight n c = 0" "waits c \<Longrightarrow> kid c = 0" "waits c \<Longrightarrow> \<not> installing c" "waits c \<Longrightarrow> dc_status c \<noteq> WAITFORCHILD"
  by (auto simp: client_defs waits_def)

lemma pending_total:
  assumes "daemon_ok d" and "client_at d p = Some c" and "waits c"
  shows "\<exists>d'. upd_client p (\<lambda>c. c\<lparr>dc_usecsmsg := Some u, dc_status := PENDING_USE_CS, dc_job_id := i\<rparr>) d = Some d' \<and> daemon_ok d'"
proof -
  have "client_ok (c\<lparr>dc_usecsmsg := Some u, dc_status := PENDING_USE_CS, dc_job_id := i\<rparr>)"
    using waits_pending(1) [OF client_here [OF assms(1,2)] assms(3)] .
  then show ?thesis
    using daemon_ok_upd [OF assms(1,2), of "\<lambda>c. c\<lparr>dc_usecsmsg := Some u, dc_status := PENDING_USE_CS, dc_job_id := i\<rparr>"]
      waits_weight(1,2) [OF assms(3)] by (auto simp: weight_def [of _ "_\<lparr>dc_job_id := _\<rparr>"] kid_def [of "_\<lparr>dc_job_id := _\<rparr>"] installing_def)
qed

lemma scheduler_no_cs_total:
  assumes "daemon_ok d" and "answer_ok (ncs_client_id m) d"
  shows "\<exists>r d'. Daemon_scheduler_no_cs m d = Some (r, d') \<and> daemon_ok d'"
proof (cases "find_by_client_id (sint (ncs_client_id m)) d")
  case None
  then show ?thesis
    using unknown_client_total [OF assms(1)] by (auto simp: Daemon_scheduler_no_cs_def)
next
  case (Some p)
  then obtain c where "client_at d p = Some c" "waits c"
    using assms(2) by (auto simp: answer_ok_def split: option.splits)
  then show ?thesis
    using pending_total [OF assms(1), of p c "ncs_job_id m" "UseCSMsg_make '''' ''127.0.0.1'' (d_daemon_port d) (ncs_job_id m) True 1 0"] Some
    by (auto simp: Daemon_scheduler_no_cs_def)
qed

lemma scheduler_use_cs_total:
  assumes "daemon_ok d" and "answer_ok (ucs_client_id m) d"
  shows "\<exists>r d'. Daemon_scheduler_use_cs m d = Some (r, d') \<and> daemon_ok d'"
proof (cases "find_by_client_id (sint (ucs_client_id m)) d")
  case None
  then show ?thesis
    using unknown_client_total [OF assms(1)] by (auto simp: Daemon_scheduler_use_cs_def)
next
  case (Some p)
  then obtain c where c: "client_at d p = Some c" "waits c"
    using assms(2) by (auto simp: answer_ok_def split: option.splits)
  show ?thesis
  proof (cases "ucs_hostname m = d_remote_name d \<and> ucs_port m = d_daemon_port d")
    case True
    then show ?thesis
      using pending_total [OF assms(1) c, of "ucs_job_id m" "UseCSMsg_make (ucs_host_platform m) ''127.0.0.1'' (d_daemon_port d) (ucs_job_id m) True 1
        (ucs_matched_job_id m)"] Some by (auto simp: Daemon_scheduler_use_cs_def)
  next
    case False
    define u where "u = UseCSMsg_make (ucs_host_platform m) (ucs_hostname m) (ucs_port m) (ucs_job_id m) True 1 (ucs_matched_job_id m)"
    have ok: "client_ok c"
      using client_here [OF assms(1) c(1)] .
    obtain d1 where d1: "upd_client p (\<lambda>c. c\<lparr>dc_usecsmsg := Some u\<rparr>) d = Some d1" "daemon_ok d1" "client_at d1 p = Some (c\<lparr>dc_usecsmsg := Some u\<rparr>)"
      using daemon_ok_upd [OF assms(1) c(1), of "\<lambda>c. c\<lparr>dc_usecsmsg := Some u\<rparr>"] waits_pending(2) [OF ok c(2)]
      by (auto simp: weight_def kid_def installing_def)
    obtain r ch d2 where d2: "send_client p (UseCSMsg m) d1 = Some (r, d2)" "daemon_ok d2" "client_at d2 p = Some (c\<lparr>dc_usecsmsg := Some u, dc_channel := ch\<rparr>)"
      using send_client_total [OF d1(2,3), of "UseCSMsg m"] by auto
    let ?c = "c\<lparr>dc_usecsmsg := Some u, dc_channel := ch\<rparr>"
    have w: "waits ?c" "client_ok ?c"
      using c(2) client_here [OF d2(2,3)] by (simp_all add: waits_def)
    obtain d3 where d3: "Daemon_handle_end p 143 d2 = Some d3" "daemon_ok d3"
      using handle_end_total [OF d2(2,3), of 143] waits_weight [OF w(1)] by auto
    obtain d4 where d4: "upd_client p (\<lambda>c. c\<lparr>dc_status := WAITCOMPILE, dc_job_id := ucs_job_id m\<rparr>) d2 = Some d4" "daemon_ok d4"
      using daemon_ok_upd [OF d2(2,3), of "\<lambda>c. c\<lparr>dc_status := WAITCOMPILE, dc_job_id := ucs_job_id m\<rparr>"] waits_pending(3) [OF w(2,1)] waits_weight [OF w(1)]
      by (auto simp: weight_def kid_def installing_def)
    show ?thesis
      using Some False d1(1) d2(1) d3 d4 by (cases r) (auto simp: Daemon_scheduler_use_cs_def u_def)
  qed
qed

section \<open>Environments from a client\<close>

lemma installed_simps [simp]:
  "dc_status (installed c) = UNKNOWN_STATUS" "dc_child_pid (installed c) < 0" "dc_pipe_from_child (installed c) < 0" "dc_pipe_to_child (installed c) < 0"
  "dc_fulljob (installed c) = dc_fulljob c" "dc_job_id (installed c) = dc_job_id c" "dc_pending_create_env (installed c) = dc_pending_create_env c"
  "dc_fd (installed c) = dc_fd c" "dc_client_id (installed c) = dc_client_id c" "weight n (installed c) = 0" "kid (installed c) = 0"
  by (simp_all add: installed_def without_child_def weight_def kid_def installing_def)

lemma installed_ok: "client_ok (installed c) \<longleftrightarrow> dc_client_id c > 0 \<and> \<not> dc_fulljob c \<and> dc_job_id c = 0 \<and> dc_pending_create_env c = ''''"
  by (simp add: client_ok_def installing_def idle_def)

lemma installing_weight [simp]: "installing c \<Longrightarrow> weight n c = 0"
  by (auto simp: installing_def weight_def)

lemma installing_fields:
  assumes "client_ok c" and "installing c"
  shows "dc_client_id c > 0" and "\<not> dc_fulljob c" and "dc_job_id c = 0" and "dc_pending_create_env c = ''''" and "dc_outfile c \<noteq> ''''"
proof -
  have "dc_status c = TOINSTALL \<or> dc_status c = WAITINSTALL"
    using assms(2) by (simp add: installing_def)
  then have "dc_client_id c > 0 \<and> \<not> dc_fulljob c \<and> dc_job_id c = 0 \<and> dc_pending_create_env c = '''' \<and> dc_outfile c \<noteq> ''''"
    using assms(1) by (elim disjE) (simp_all add: client_ok_def installing_def idle_def)
  then show "dc_client_id c > 0" and "\<not> dc_fulljob c" and "dc_job_id c = 0" and "dc_pending_create_env c = ''''" and "dc_outfile c \<noteq> ''''"
    by simp_all
qed

text \<open>A transfer that is finished after the client was changed to \<open>c\<close>, which still installs.\<close>

lemma finish_transfer_ok:
  assumes "daemon_ok d" and "client_at d p = Some c0" and "installing c0"
    and "put p c (d_active_processes d) k d d1" and "same_cache d d1" and "d_installed_sizes d1 = d_installed_sizes d"
    and "installing c" and "dc_outfile c = dc_outfile c0" and "dc_fd c = dc_fd c0" and "client_ok (installed c)" and id: "dc_client_id c = dc_client_id c0"
    and "k - (if dc_child_pid c \<ge> 0 then 1 else 0) = d_current_kids d - of_nat (kid c0)" and "dc_child_pid c \<ge> 0 \<longrightarrow> k \<noteq> 0"
    and "cancel \<or> dc_pipe_from_child c < 0 \<and> dc_pipe_to_child c < 0 \<and> dc_child_pid c < 0" and "calm p d" and "cancel \<or> fits d"
  shows "\<exists>r d'. Daemon_finish_transfer_env p cancel d1 = Some (r, d') \<and> daemon_ok d'"
proof -
  have ok: "table_ok d" "cache_ok d" "client_ok c0"
    using assms(1) client_here [OF assms(1,2)] by (simp_all add: daemon_okx_def)
  have pre: "client_at d1 p = Some c" "distinct (map fst (d_clients d1))" "dc_outfile c \<noteq> ''''" "cache_ok d1" "calm p d1" "fits d1 = fits d"
    "d_active_processes d1 = d_active_processes d" "d_current_kids d1 = k"
    using assms(4-6,8,15) put_client_at [OF assms(4,2)] put_distinct [OF assms(4) table_distinct [OF ok(1)]] cache_ok_same [OF assms(5) ok(2)]
      installing_fields(5) [OF ok(3) assms(3)]
    by (simp_all add: calm_def put_def fits_def same_cache_def split: list.split)
  obtain r d' where d': "Daemon_finish_transfer_env p cancel d1 = Some (r, d')" "cache_ok d'"
    "put p (installed c) (d_active_processes d) (k - (if dc_child_pid c \<ge> 0 then 1 else 0)) d1 d'"
    using finish_transfer_total [OF pre(1,2) assms(7) pre(3) assms(14) _ pre(4,5)] assms(13,16) unfolding pre(6-8) by blast
  have "table_ok d'"
    using table_ok_put [OF ok(1) assms(2) put_put [OF assms(4) d'(3)] assms(10)] assms(3,9,12) id by simp
  then show ?thesis
    using d' by (auto simp: daemon_okx_def)
qed

lemma handle_file_chunk_env_total:
  assumes "daemon_ok d" and c: "client_at d p = Some c" and "dc_status c = TOINSTALL" and "calm p d" and "fits d"
  shows "\<exists>r d'. Daemon_handle_file_chunk_env p m d = Some (r, d') \<and> daemon_ok d'"
proof -
  have ok: "table_ok d" "client_ok c" "installing c" "dc_pipe_to_child c \<ge> 0"
    using assms(1,3) client_here [OF assms(1) c] by (simp_all add: daemon_okx_def installing_def client_ok_def)
  have guard: "(d_asserts d \<and> (\<not> installing c \<or> dc_pipe_to_child c < 0)) = False"
    using ok by simp
  consider x where "m = FileChunkMsg x" | "m = EndMsg" | "\<forall>x. m \<noteq> FileChunkMsg x" "m \<noteq> EndMsg"
    by blast
  then show ?thesis
  proof cases
    case 1
    obtain failed ws where w: "pipe_write_loop (fc_len x) (d_pipe_writes d) = (failed, ws)"
      by fastforce
    have d1: "daemon_ok (d\<lparr>d_pipe_writes := ws\<rparr>)" "client_at (d\<lparr>d_pipe_writes := ws\<rparr>) p = Some c" "calm p (d\<lparr>d_pipe_writes := ws\<rparr>)"
      using daemon_ok_quiet [OF _ assms(1)] assms(4) c by (simp_all add: quiet_defs client_at_def calm_def)
    show ?thesis
      using handle_end_total [OF d1(1,2), of 137] d1 w c guard assms(3) 1 by (cases failed) (auto simp: Daemon_handle_file_chunk_env_def)
  next
    case 2
    define c1 where "c1 = c\<lparr>dc_pipe_to_child := -1\<rparr>"
    define d1 where "d1 = d\<lparr>d_clients := set_at p c1 (d_clients d)\<rparr>"
    have u: "upd_client p (\<lambda>c. c\<lparr>dc_pipe_to_child := -1\<rparr>) d = Some d1"
      using upd_client_put [OF c table_distinct [OF ok(1)]] by (simp add: d1_def c1_def)
    have p1: "put p c1 (d_active_processes d) (d_current_kids d) d d1"
      by (simp add: put_def d1_def keeps_def)
    show ?thesis
    proof (cases "dc_child_pid c \<ge> 0")
      case True
      let ?c = "c1\<lparr>dc_status := WAITINSTALL\<rparr>"
      let ?d = "d\<lparr>d_clients := set_at p ?c (d_clients d)\<rparr>"
      have u2: "upd_client p (\<lambda>c. c\<lparr>dc_status := WAITINSTALL\<rparr>) d1 = Some ?d"
        using upd_client_put [OF put_client_at [OF p1 c] put_distinct [OF p1 table_distinct [OF ok(1)]]] by (simp add: d1_def)
      have "client_ok ?c" "kid ?c = kid c" "weight n ?c = weight n c" for n
        using ok(2) True assms(3) by (simp_all add: client_defs c1_def)
      then have "daemon_ok ?d"
        using daemon_ok_upd [OF assms(1) c, of "\<lambda>_. ?c"] by (auto simp: c1_def)
      then show ?thesis
        using u u2 c guard True 2 by (auto simp: Daemon_handle_file_chunk_env_def)
    next
      case False
      have "\<exists>r d'. Daemon_finish_transfer_env p False d1 = Some (r, d') \<and> daemon_ok d'"
        using installing_fields [OF ok(2,3)] ok(2,3) False assms(3,5)
        by (intro finish_transfer_ok [OF assms(1) c ok(3) p1 _ _ _ _ _ _ _ _ _ _ assms(4)])
          (simp_all add: installed_ok, simp_all add: c1_def d1_def same_cache_def installing_def kid_def client_ok_def)
      then show ?thesis
        using u c guard False 2 by (simp add: Daemon_handle_file_chunk_env_def)
    qed
  next
    case 3
    have "Daemon_handle_file_chunk_env p m d = map_option (Pair False) (Daemon_handle_end p 138 d)"
      using 3 unfolding Daemon_handle_file_chunk_env_def c bind_simps guard if_False by (cases m) simp_all
    then show ?thesis
      using handle_end_total [OF assms(1) c, of 138] assms(3,4) by auto
  qed
qed

lemma start_install_total:
  assumes "daemon_ok d" and c: "client_at d p = Some c"
  shows "\<exists>s ch d'. start_install_environment p name d = Some (s, d') \<and> daemon_ok d' \<and> client_at d' p = Some (c\<lparr>dc_channel := ch\<rparr>)
    \<and> calm p d' = calm p d \<and> fits d' = fits d \<and> (\<forall>pid pto pfrom x. s = Some (pid, pto, pfrom, x) \<longrightarrow> pid > 0 \<and> pto \<ge> 0 \<and> pfrom \<ge> 0)"
proof (cases "legal_env_name name")
  case True
  define r where "r = get_msg (d_libs d) 30 False (dc_channel c)"
  define c1 where "c1 = c\<lparr>dc_channel := snd r\<rparr>"
  obtain d1 where d1: "upd_client p (\<lambda>c. c\<lparr>dc_channel := snd r\<rparr>) d = Some d1" "daemon_ok d1" "client_at d1 p = Some c1"
      "d1 = d\<lparr>d_clients := set_at p c1 (d_clients d)\<rparr>"
    using upd_channel [OF assms, of "snd r"] by (auto simp: c1_def)
  have k: "calm p d1 = calm p d" "fits d1 = fits d"
    by (simp_all add: d1(4) calm_def fits_def split: list.split)
  have e: "start_install_environment p name d = (case fst r of
           Some (FileChunkMsg x) \<Rightarrow>
             (case d_install_forks d1 of
                [] \<Rightarrow> Some (None, d1)
              | (pid, pto, pfrom) # fs \<Rightarrow>
                  Some (if pid > 0 then Some (pid, pto, pfrom, x) else None, d1\<lparr>d_install_forks := fs\<rparr>))
         | _ \<Rightarrow> Some (None, d1))"
    using True c d1(1) by (simp add: start_install_environment_def Let_def flip: r_def)
  show ?thesis
  proof (cases "\<exists>x. fst r = Some (FileChunkMsg x) \<and> d_install_forks d1 \<noteq> []")
    case True
    then obtain x pid pto pfrom fs where x: "fst r = Some (FileChunkMsg x)" "d_install_forks d1 = (pid, pto, pfrom) # fs"
      by (metis list.exhaust prod.exhaust)
    let ?d = "d1\<lparr>d_install_forks := fs\<rparr>"
    have t: "table_ok ?d"
      using d1(2) x(2) by (simp add: daemon_okx_def table_okx_def slots_ok_def slots_def fds_ok_def ids_ok_def forks_ok_def)
    have "pid > 0 \<longrightarrow> pto \<ge> 0 \<and> pfrom \<ge> 0"
      using d1(2) x(2) by (simp add: daemon_okx_def table_okx_def forks_ok_def)
    moreover have "daemon_ok ?d" "client_at ?d p = Some c1" "calm p ?d = calm p d" "fits ?d = fits d"
      using t d1(2,3) k by (simp_all add: daemon_okx_def client_at_def calm_def fits_def cache_ok_def cache_sum_def cong: list.case_cong)
    ultimately show ?thesis
      using e x by (intro exI [of _ "if pid > 0 then Some (pid, pto, pfrom, x) else None"] exI [of _ "snd r"] exI [of _ ?d]) (simp add: c1_def)
  next
    case False
    then have "start_install_environment p name d = Some (None, d1)"
      unfolding e by (auto split: option.splits msg.splits list.splits)
    then show ?thesis
      using d1 k by (auto simp: c1_def)
  qed
next
  case False
  then show ?thesis
    using assms by (auto simp: start_install_environment_def intro!: exI [of _ "dc_channel c"])
qed

lemma handle_transfer_env_total:
  assumes "daemon_ok d" and c: "client_at d p = Some c" and s: "dc_status c = UNKNOWN_STATUS" and "calm p d" and "fits d"
  shows "\<exists>r d'. Daemon_handle_transfer_env p m d = Some (r, d') \<and> daemon_ok d'"
proof -
  define env where "env = (if et_target m = '''' then d_machine_name d else et_target m) @ ''/'' @ et_name m"
  obtain st ch d1 where d1: "start_install_environment p (et_name m) d = Some (st, d1)" "daemon_ok d1" "client_at d1 p = Some (c\<lparr>dc_channel := ch\<rparr>)"
      "calm p d1" "fits d1" and st: "\<And>pid pto pfrom x. st = Some (pid, pto, pfrom, x) \<Longrightarrow> pid > 0 \<and> pto \<ge> 0 \<and> pfrom \<ge> 0"
    using start_install_total [OF assms(1) c, of "et_name m"] assms(4,5) by metis
  let ?c = "c\<lparr>dc_channel := ch\<rparr>"
  have ok: "client_ok ?c" "client_ok c" "dc_status ?c = UNKNOWN_STATUS"
    using client_here [OF d1(2,3)] s by simp_all
  have guard: "(d_asserts d \<and> (dc_status c \<in> {TOINSTALL, WAITINSTALL, TOCOMPILE, WAITCOMPILE} \<or> dc_pipe_from_child c \<ge> 0 \<or> dc_pipe_to_child c \<ge> 0)) = False"
    using ok(2) s by (simp add: client_ok_def installing_def)
  have h: "Daemon_handle_transfer_env p m d = (case st of
          None \<Rightarrow> map_option (Pair False) (Daemon_handle_end p 144 (remove_environment_files env d1))
        | Some (pid, pto, pfrom, x) \<Rightarrow> do {
            d2 \<leftarrow> upd_client p (\<lambda>c. c\<lparr>dc_status := TOINSTALL, dc_outfile := env, dc_pipe_to_child := pto,
                     dc_pipe_from_child := pfrom, dc_child_pid := pid\<rparr>) (d1\<lparr>d_current_kids := d_current_kids d1 + 1\<rparr>);
            Daemon_handle_file_chunk_env p (FileChunkMsg x) d2
          })"
    unfolding Daemon_handle_transfer_env_def c bind_simps guard if_False Let_def env_def d1(1) by simp
  show ?thesis
  proof (cases st)
    case None
    let ?d = "remove_environment_files env d1"
    have q: "quiet d1 ?d"
      by (simp add: quiet_def)
    have "client_at ?d p = Some ?c" "daemon_ok ?d"
      using daemon_ok_quiet [OF q d1(2)] d1(3) same_client_at [of d1 ?d] by simp_all
    then show ?thesis
      using handle_end_total [of ?d p ?c 144] None h ok(3) by (auto simp: installing_def)
  next
    case (Some a)
    obtain pid pto pfrom x where a: "a = (pid, pto, pfrom, x)"
      by (cases a) auto
    have pos: "pid > 0" "pto \<ge> 0" "pfrom \<ge> 0"
      using st Some a by blast+
    define c2 where "c2 = ?c\<lparr>dc_status := TOINSTALL, dc_outfile := env, dc_pipe_to_child := pto, dc_pipe_from_child := pfrom, dc_child_pid := pid\<rparr>"
    define d2 where "d2 = d1\<lparr>d_clients := set_at p c2 (d_clients d1), d_current_kids := d_current_kids d1 + 1\<rparr>"
    have T: "table_ok d1" "cache_ok d1"
      using d1(2) by (simp_all add: daemon_okx_def)
    have u: "upd_client p (\<lambda>c. c\<lparr>dc_status := TOINSTALL, dc_outfile := env, dc_pipe_to_child := pto,
                     dc_pipe_from_child := pfrom, dc_child_pid := pid\<rparr>) (d1\<lparr>d_current_kids := d_current_kids d1 + 1\<rparr>) = Some d2"
      using d1(3) table_distinct [OF T(1)] by (subst upd_client_put [of _ _ ?c]) (simp_all add: client_at_def d2_def c2_def)
    have p2: "put p c2 (d_active_processes d1) (d_current_kids d1 + 1) d1 d2"
      by (simp add: put_def d2_def keeps_def)
    have "client_ok c2" "kid c2 = 1" "kid ?c = 0" "weight n c2 = 0" "weight n ?c = 0" for n
      using ok pos by (simp_all add: client_defs c2_def env_def)
    then have "table_ok d2"
      using table_ok_put [OF T(1) d1(3) p2] by (simp add: c2_def)
    then have "daemon_ok d2" "client_at d2 p = Some c2" "calm p d2" "fits d2"
      using T(2) put_client_at [OF p2 d1(3)] d1(4,5) by (simp_all add: daemon_okx_def d2_def cache_ok_def cache_sum_def calm_def fits_def cong: list.case_cong)
    then show ?thesis
      using handle_file_chunk_env_total [of d2 p c2 "FileChunkMsg x"] h Some a u by (simp add: c2_def)
  qed
qed

lemma handle_env_install_child_done_total:
  assumes "daemon_ok d" and c: "client_at d p = Some c" and "installing c" and "dc_child_pid c \<ge> 0" and "calm p d" and "fits d"
  shows "\<exists>r d'. Daemon_handle_env_install_child_done p d = Some (r, d') \<and> daemon_ok d'"
proof -
  have ok: "table_ok d" "cache_ok d" "client_ok c"
    using assms(1) client_here [OF assms(1) c] by (simp_all add: daemon_okx_def)
  have f: "dc_pipe_from_child c \<ge> 0" "kid c = 1" "d_current_kids d \<noteq> 0"
    using ok(3) assms(3,4) kids_positive [OF ok(1) c] by (simp_all add: client_ok_def kid_def)
  have guard: "(d_asserts d \<and> (\<not> installing c \<or> dc_child_pid c < 0 \<or> dc_pipe_from_child c < 0 \<or> d_current_kids d = 0)) = False"
    using f assms(3,4) by auto
  define success where "success = (case d_install_results d of [] \<Rightarrow> False | b # _ \<Rightarrow> b)"
  define c1 where "c1 = c\<lparr>dc_child_pid := -1, dc_pipe_from_child := (if dc_pipe_from_child c \<ge> 0 then -1 else dc_pipe_from_child c)\<rparr>"
  define d1 where "d1 = d\<lparr>d_clients := set_at p c1 (d_clients d), d_install_results := tl (d_install_results d), d_current_kids := d_current_kids d - 1\<rparr>"
  have u: "upd_client p (\<lambda>c. c\<lparr>dc_child_pid := -1, dc_pipe_from_child := (if dc_pipe_from_child c \<ge> 0 then -1 else dc_pipe_from_child c)\<rparr>)
               (d\<lparr>d_install_results := tl (d_install_results d), d_current_kids := d_current_kids d - 1\<rparr>) = Some d1"
    using c table_distinct [OF ok(1)] by (subst upd_client_put [of _ _ c]) (simp_all add: client_at_def d1_def c1_def)
  have p1: "put p c1 (d_active_processes d) (d_current_kids d - 1) d d1"
    by (simp add: put_def d1_def keeps_def)
  have h: "Daemon_handle_env_install_child_done p d =
      (if \<not> success then Daemon_finish_transfer_env p True d1
       else if dc_pipe_to_child c \<ge> 0 then (if d_asserts d1 \<and> dc_status c \<noteq> TOINSTALL then None else Some (True, d1))
       else Daemon_finish_transfer_env p False d1)"
    unfolding Daemon_handle_env_install_child_done_def c bind_simps guard if_False Let_def u success_def by simp
  have fin: "\<exists>r d'. Daemon_finish_transfer_env p cancel d1 = Some (r, d') \<and> daemon_ok d'" if "cancel \<or> dc_pipe_to_child c < 0" for cancel
    using that installing_fields [OF ok(3) assms(3)] assms(3,6) f
    by (intro finish_transfer_ok [OF assms(1) c assms(3) p1 _ _ _ _ _ _ _ _ _ _ assms(5)])
      (simp_all add: installed_ok, simp_all add: c1_def d1_def same_cache_def installing_def)
  show ?thesis
  proof (cases "success \<and> dc_pipe_to_child c \<ge> 0")
    case True
    have s: "dc_status c = TOINSTALL"
      using True ok(3) assms(3) by (auto simp: client_ok_def)
    have "client_ok c1" "kid c1 = 0" "weight n c1 = 0" for n
      using ok(3) True s f by (simp_all add: client_defs c1_def)
    then have "table_ok d1"
      using table_ok_put [OF ok(1) c p1] f assms(3) by (simp add: c1_def)
    then show ?thesis
      using h True s ok(2) by (simp add: daemon_okx_def cache_ok_def cache_sum_def d1_def)
  next
    case False
    then show ?thesis
      using h fin [of True] fin [of False] by (auto split: if_splits)
  qed
qed

end
