(* ===== verification/DaemonRequests.thy ===== *)
theory DaemonRequests
  imports DaemonSteps
begin

text \<open>
  The requests of clients: each can be carried out in a consistent state when its sender may send it in its state, and leaves a
  consistent state. The slots of the machine, and the loop that hands them out.
\<close>

section \<open>What a client may send\<close>

definition fresh :: "dclient \<Rightarrow> bool" where
  "fresh c \<longleftrightarrow> dc_status c = UNKNOWN_STATUS \<or> dc_status c = GOTNATIVE \<or> dc_status c = JOBDONE"

text \<open>The states in which the daemon reads messages of the client and dispatches on their type.\<close>

definition talks :: "dclient \<Rightarrow> bool" where
  "talks c \<longleftrightarrow> \<not> installing c \<and> dc_status c \<noteq> WAITFORCHILD \<and> dc_status c \<noteq> TOCOMPILE"

text \<open>The names of a compiler that \<open>get_c_compiler\<close> and \<open>get_cpp_compiler\<close> can handle.\<close>

definition asked_compiler :: "dclient \<Rightarrow> get_native_env_msg \<Rightarrow> string" where
  "asked_compiler c m = (if protocol (dc_channel c) < 41 \<and> \<not> contains (gne_compiler m) ''/'' then ''/usr/bin/'' @ gne_compiler m else gne_compiler m)"

definition known_compiler :: "bool \<Rightarrow> string \<Rightarrow> bool" where
  "known_compiler dbg s \<longleftrightarrow> get_c_compiler dbg s \<noteq> None \<and> get_cpp_compiler dbg s \<noteq> None"

definition request_ok :: "client_ptr \<Rightarrow> dclient \<Rightarrow> msg \<Rightarrow> daemon \<Rightarrow> bool" where
  "request_ok p c m d \<longleftrightarrow> talks c \<and>
     (case m of
        GetNativeEnvMsg x \<Rightarrow> fresh c \<and> known_compiler (d_asserts d) (asked_compiler c x)
      | CompileFileMsg job \<Rightarrow> fresh c \<or> dc_status c = CLIENTWORK \<and> m_environment_version job = ''__client''
      | EnvTransferMsg x \<Rightarrow> dc_status c = UNKNOWN_STATUS \<and> calm p d \<and> fits d
      | GetCSMsg x \<Rightarrow> fresh c
      | JobLocalBeginMsg x \<Rightarrow> fresh c
      | JobDoneMsg x \<Rightarrow> dc_status c \<noteq> WAITCREATEENV \<and> jd_job_id x = dc_job_id c
      | _ \<Rightarrow> True)"

lemma talks_end: "talks c \<Longrightarrow> \<not> installing c" "talks c \<Longrightarrow> dc_status c \<noteq> WAITFORCHILD" "talks c \<Longrightarrow> kid c = 0"
  by (auto simp: talks_def kid_def)

lemma fresh_facts:
  assumes "client_ok c" and "fresh c"
  shows "talks c" and "\<not> dc_fulljob c" and "dc_job_id c = 0" and "dc_pending_create_env c = ''''" and "dc_client_id c > 0"
    and "weight n c = 0" and "dc_child_pid c < 0" and "dc_pipe_from_child c < 0" and "dc_pipe_to_child c < 0"
  using assms unfolding fresh_def by (elim disjE; simp add: client_defs talks_def)+

lemma talks_facts:
  assumes "client_ok c" and "talks c"
  shows "dc_client_id c > 0" and "dc_child_pid c < 0" and "dc_pipe_from_child c < 0" and "dc_pipe_to_child c < 0"
  using assms by (simp_all add: client_ok_def talks_def)

text \<open>The end of a client that talks, also after something was sent to it.\<close>

lemma end_total:
  assumes "daemon_ok d" and "client_at d p = Some c" and "talks c"
  shows "\<exists>d'. Daemon_handle_end p e d = Some d' \<and> daemon_ok d' \<and> d_clients d' = map_erase p (d_clients d)"
  using handle_end_total [OF assms(1,2)] talks_end [OF assms(3)] by blast

lemma talks_channel [simp]: "talks (c\<lparr>dc_channel := ch\<rparr>) = talks c"
  by (simp add: talks_def installing_def)

lemma reject_client_total:
  assumes "daemon_ok d" and "client_at d p = Some c" and "talks c"
  shows "\<exists>d'. reject_client p e d = Some (False, d') \<and> daemon_ok d' \<and> d_clients d' = map_erase p (d_clients d)"
proof -
  obtain ok ch d1 where d1: "send_client p EndMsg d = Some (ok, d1)" "daemon_ok d1" "client_at d1 p = Some (c\<lparr>dc_channel := ch\<rparr>)"
      "d1 = d\<lparr>d_clients := set_at p (c\<lparr>dc_channel := ch\<rparr>) (d_clients d)\<rparr>"
    using send_client_total [OF assms(1,2), of EndMsg] by auto
  then show ?thesis
    using end_total [OF d1(2,3), of e] assms(3) by (auto simp: reject_client_def)
qed

section \<open>Environments of this machine\<close>

lemma native_put_quiet:
  assumes "daemon_ok d" and "\<And>e. ne_size (f e) = ne_size e"
  shows "daemon_ok (native_put k f d)" and "client_at (native_put k f d) p = client_at d p"
  using assms native_put_same [of d f k] table_ok_same [of d "native_put k f d"] same_client_at [of d "native_put k f d"]
  by (simp_all add: daemon_okx_def)

lemma finish_get_native_env_total:
  assumes "daemon_ok d" and c: "client_at d p = Some c" and "dc_status c = WAITCREATEENV" and "dc_pending_create_env c = key"
  shows "\<exists>r d'. Daemon_finish_get_native_env p key d = Some (r, d') \<and> daemon_ok d' \<and> (\<not> r \<longrightarrow> d_clients d' = map_erase p (d_clients d))"
proof -
  define d0 where "d0 = native_put key id d"
  have d0: "daemon_ok d0" "client_at d0 p = Some c" "d_clients d0 = d_clients d"
    using native_put_quiet(1) [OF assms(1), of id key] native_put_quiet(2) [of d id key p] assms(1) c by (simp_all add: d0_def) (simp add: native_put_def)
  obtain ok ch d1 where d1: "send_client p (UseNativeEnvMsg (ne_name (native_at key d0))) d0 = Some (ok, d1)" "daemon_ok d1"
      "client_at d1 p = Some (c\<lparr>dc_channel := ch\<rparr>)" "d1 = d0\<lparr>d_clients := set_at p (c\<lparr>dc_channel := ch\<rparr>) (d_clients d0)\<rparr>"
    using send_client_total [OF d0(1,2), of "UseNativeEnvMsg (ne_name (native_at key d0))"] by auto
  let ?c = "c\<lparr>dc_channel := ch\<rparr>"
  have t: "talks ?c" "client_ok ?c"
    using client_here [OF d1(2,3)] assms(3) by (simp_all add: talks_def installing_def)
  obtain d2 where d2: "Daemon_handle_end p 138 d1 = Some d2" "daemon_ok d2" "d_clients d2 = map_erase p (d_clients d1)"
    using end_total [OF d1(2,3) t(1)] by blast
  let ?d = "native_put key (\<lambda>e. e\<lparr>ne_last_use := d_now d1\<rparr>) d1"
  have q: "daemon_ok ?d" "client_at ?d p = Some ?c"
    using native_put_quiet [OF d1(2)] d1(3) by simp_all
  have "client_ok (?c\<lparr>dc_status := GOTNATIVE, dc_pending_create_env := ''''\<rparr>)"
    using t(2) assms(3) by (simp add: client_defs)
  then obtain d3 where "upd_client p (\<lambda>c. c\<lparr>dc_status := GOTNATIVE, dc_pending_create_env := ''''\<rparr>) ?d = Some d3" "daemon_ok d3"
    using daemon_ok_upd [OF q, of "\<lambda>c. c\<lparr>dc_status := GOTNATIVE, dc_pending_create_env := ''''\<rparr>"] assms(3)
    by (auto simp: weight_def kid_def installing_def)
  then show ?thesis
    using c d1(1,4) d2 d0(3) assms(3,4) by (cases ok) (auto simp: Daemon_finish_get_native_env_def Let_def simp flip: d0_def)
qed

lemma extra_times_dom: "extra_times d fs ts = Some r \<Longrightarrow> \<forall>f \<in> set fs. d_mtime d f \<noteq> None"
  by (induction d fs ts rule: extra_times.induct) (auto split: option.splits)

lemma handle_get_native_env_total:
  assumes "daemon_ok d" and c: "client_at d p = Some c" and "fresh c" and k: "known_compiler (d_asserts d) (asked_compiler c m)"
  shows "\<exists>r d'. Daemon_handle_get_native_env p m d = Some (r, d') \<and> daemon_ok d'"
proof -
  have ok: "client_ok c" "talks c"
    using client_here [OF assms(1) c] fresh_facts(1) assms(3) by blast+
  obtain cc cpp where cc: "get_c_compiler (d_asserts d) (asked_compiler c m) = Some cc" "get_cpp_compiler (d_asserts d) (asked_compiler c m) = Some cpp"
    using k by (auto simp: known_compiler_def)
  obtain d' where rej: "reject_client p 122 d = Some (False, d')" "daemon_ok d'"
    using reject_client_total [OF assms(1) c ok(2)] by blast
  define key where "key = gne_compression m @ '':'' @ cc @ concat (map (\<lambda>f. '':'' @ f) (gne_extrafiles m))"
  define times where "times t = extra_times d (gne_extrafiles m)
    (case d_mtime d cpp of None \<Rightarrow> map_put string_less cc t [] | Some t' \<Rightarrow> map_put string_less cpp t' (map_put string_less cc t []))" for t
  define d1 where "d1 = native_put key id d"
  have d1: "daemon_ok d1" "client_at d1 p = Some c"
    using native_put_quiet [OF assms(1)] c by (simp_all add: d1_def)
  let ?f = "\<lambda>c. c\<lparr>dc_status := WAITCREATEENV, dc_pending_create_env := key\<rparr>"
  have rest: "\<exists>r d'. (do {
       d2 \<leftarrow> (if ne_name (native_at key d1) \<noteq> '''' \<and> (ne_filetimes (native_at key d1) \<noteq> ft \<or> \<not> d_readable d1 (ne_name (native_at key d1)))
              then Daemon_remove_native_environment (ne_name (native_at key d1)) d1 else Some d1);
       d3 \<leftarrow> upd_client p ?f (native_put key id d2);
       if ne_name (native_at key d3) \<noteq> '''' then Daemon_finish_get_native_env p key d3
       else if ne_create_env_pipe (native_at key d3) = 0 then
         Some (True, (native_put key
           (\<lambda>e. e\<lparr>ne_filetimes := ft, ne_create_env_pipe := (case d_create_forks d3 of [] \<Rightarrow> 0 | f # _ \<Rightarrow> f)\<rparr>) d3)
           \<lparr>d_create_forks := tl (d_create_forks d3)\<rparr>)
       else Some (True, d3) }) = Some (r, d') \<and> daemon_ok d'" for ft
  proof -
    obtain d2 where d2: "(if ne_name (native_at key d1) \<noteq> '''' \<and> (ne_filetimes (native_at key d1) \<noteq> ft \<or> \<not> d_readable d1 (ne_name (native_at key d1)))
              then Daemon_remove_native_environment (ne_name (native_at key d1)) d1 else Some d1) = Some d2" "daemon_ok d2" "client_at d2 p = Some c"
      using remove_native_total [of d1 "ne_name (native_at key d1)"] d1 table_ok_same same_client_at
      by (cases "ne_name (native_at key d1) \<noteq> '''' \<and> (ne_filetimes (native_at key d1) \<noteq> ft \<or> \<not> d_readable d1 (ne_name (native_at key d1)))")
        (auto simp: daemon_okx_def)
    have q: "daemon_ok (native_put key id d2)" "client_at (native_put key id d2) p = Some c"
      using native_put_quiet [OF d2(2)] d2(3) by simp_all
    have "client_ok (?f c)" "weight n (?f c) = weight n c" "kid (?f c) = kid c" for n
      using ok(1) fresh_facts [OF ok(1) assms(3)] talks_end(3) [OF ok(2)]
      by (simp_all add: client_ok_def installing_def idle_def) (simp_all add: weight_def kid_def installing_def)
    then obtain d3 where d3: "upd_client p ?f (native_put key id d2) = Some d3" "daemon_ok d3" "client_at d3 p = Some (?f c)"
      using daemon_ok_upd [OF q, of ?f] by auto
    have fin: "\<exists>r d'. Daemon_finish_get_native_env p key d3 = Some (r, d') \<and> daemon_ok d'"
      using finish_get_native_env_total [OF d3(2,3)] by auto
    have put: "daemon_ok ((native_put key (\<lambda>e. e\<lparr>ne_filetimes := ft, ne_create_env_pipe := n\<rparr>) d3)\<lparr>d_create_forks := x\<rparr>)" for n x
      using daemon_ok_quiet [OF _ native_put_quiet(1) [OF d3(2)]] by (simp add: quiet_defs)
    show ?thesis
      using fin put d2(1) d3(1,2) by (simp add: Let_def)
  qed
  have h: "Daemon_handle_get_native_env p m d = (case d_mtime d cc of
        None \<Rightarrow> reject_client p 122 d
      | Some t \<Rightarrow> (case times t of None \<Rightarrow> reject_client p 122 d | Some ft \<Rightarrow> do {
         d2 \<leftarrow> (if ne_name (native_at key d1) \<noteq> '''' \<and> (ne_filetimes (native_at key d1) \<noteq> ft \<or> \<not> d_readable d1 (ne_name (native_at key d1)))
                then Daemon_remove_native_environment (ne_name (native_at key d1)) d1 else Some d1);
         d3 \<leftarrow> upd_client p ?f (native_put key id d2);
         if ne_name (native_at key d3) \<noteq> '''' then Daemon_finish_get_native_env p key d3
         else if ne_create_env_pipe (native_at key d3) = 0 then
           Some (True, (native_put key
             (\<lambda>e. e\<lparr>ne_filetimes := ft, ne_create_env_pipe := (case d_create_forks d3 of [] \<Rightarrow> 0 | f # _ \<Rightarrow> f)\<rparr>) d3)
             \<lparr>d_create_forks := tl (d_create_forks d3)\<rparr>)
         else Some (True, d3) }))"
    unfolding Daemon_handle_get_native_env_def c bind_simps Let_def asked_compiler_def [symmetric] cc key_def [symmetric] times_def [symmetric] d1_def [symmetric] ..
  show ?thesis
    using rest rej unfolding h by (simp split: option.split)
qed

text \<open>Everything was made and is told to the clients that wait for it, or they are ended.\<close>

lemma client_waiting:
  assumes "client_ok c" and "dc_pending_create_env c = key" and "key \<noteq> ''''"
  shows "dc_status c = WAITCREATEENV" and "talks c"
  using assms by (auto simp: client_ok_def talks_def installing_def)

lemma reject_waiting_total:
  assumes "daemon_ok d" and "key \<noteq> ''''"
  shows "\<exists>d'. reject_waiting n key d = Some d' \<and> daemon_ok d' \<and>
    (length (d_clients d) \<le> n \<longrightarrow> d_clients d' = filter (\<lambda>e. dc_pending_create_env (snd e) \<noteq> key) (d_clients d))"
  using assms(1)
proof (induction n arbitrary: d)
  case (Suc n)
  show ?case
  proof (cases "find (\<lambda>e. dc_pending_create_env (snd e) = key) (d_clients d)")
    case None
    then have "filter (\<lambda>e. dc_pending_create_env (snd e) \<noteq> key) (d_clients d) = d_clients d"
      using find_None_iff [of "\<lambda>e. dc_pending_create_env (snd e) = key" "d_clients d"] by (intro filter_True) blast
    then show ?thesis
      using Suc.prems None by simp
  next
    case (Some e)
    have "e \<in> set (d_clients d)" "dc_pending_create_env (snd e) = key"
      using Some by (auto simp: find_Some_iff)
    moreover have D: "distinct (map fst (d_clients d))"
      using Suc.prems table_distinct by (auto simp: daemon_okx_def)
    ultimately have at: "client_at d (fst e) = Some (snd e)"
      by (simp add: client_at_def)
    have c: "client_at d (fst e) = Some (snd e)" "talks (snd e)" "dc_pending_create_env (snd e) = key"
      using client_waiting(2) [OF client_here [OF Suc.prems at] _ assms(2)] at \<open>dc_pending_create_env (snd e) = key\<close> by simp_all
    obtain d1 where d1: "reject_client (fst e) 121 d = Some (False, d1)" "daemon_ok d1" "d_clients d1 = map_erase (fst e) (d_clients d)"
      using reject_client_total [OF Suc.prems c(1,2)] by blast
    have "filter (\<lambda>x. dc_pending_create_env (snd x) \<noteq> key) (d_clients d1) = filter (\<lambda>x. dc_pending_create_env (snd x) \<noteq> key) (d_clients d)"
    proof -
      have "fst x \<noteq> fst e" if "x \<in> set (d_clients d)" "dc_pending_create_env (snd x) \<noteq> key" for x
        using that eq_key_imp_eq_value [OF D, of "fst e" "snd x" "snd e"] client_at_mem [OF at] c(3) by (metis prod.collapse)
      then show ?thesis
        unfolding d1(3) map_erase_def filter_filter by (intro filter_cong) blast+
    qed
    moreover have "length (d_clients d1) < length (d_clients d)"
      using map_erase_less [of "fst e" "d_clients d"] c(1) unfolding d1(3) by (force dest: client_at_mem)
    ultimately show ?thesis
      using Suc.IH [OF d1(2)] Some d1(1) by auto
  qed
qed auto

lemma finish_waiting_ok:
  assumes "daemon_ok d" and "key \<noteq> ''''" and "finish_waiting key ps d = Some d'"
  shows "daemon_ok d'"
  using assms(1,3)
proof (induction ps arbitrary: d)
  case (Cons p ps)
  obtain c where c: "client_at d p = Some c"
    using Cons.prems(2) by (auto simp: Option.bind_eq_Some_conv)
  show ?case
  proof (cases "dc_pending_create_env c = key")
    case True
    obtain r d1 where "Daemon_finish_get_native_env p key d = Some (r, d1)" "daemon_ok d1"
      using finish_get_native_env_total [OF Cons.prems(1) c client_waiting(1) [OF client_here [OF Cons.prems(1) c] True assms(2)] True] by blast
    then show ?thesis
      using Cons True c by (auto split: if_splits)
  next
    case False
    then show ?thesis
      using Cons c by auto
  qed
qed simp

definition room_for :: "u64 \<Rightarrow> daemon \<Rightarrow> bool" where
  "room_for n d \<longleftrightarrow> unat (d_cache_size d) + unat n < 2 ^ 64"

lemma create_env_finished_ok:
  assumes "daemon_ok d" and key: "key \<noteq> ''''" and r: "Daemon_create_env_finished key d = Some (r, d')"
    and "case d_created d of Some (_, n) # _ \<Rightarrow> room_for n d | _ \<Rightarrow> True" and "jobs_known (d_clients d)"
  shows "daemon_ok d'"
proof -
  define x where "x = (case d_created d of [] \<Rightarrow> None | x # _ \<Rightarrow> x)"
  define n where "n = (case x of None \<Rightarrow> 0 | Some (_, n) \<Rightarrow> n)"
  define f where "f e = e\<lparr>ne_name := (case x of None \<Rightarrow> ne_name e | Some (nm, _) \<Rightarrow> d_envbasedir d @ ''/native/'' @ nm), ne_create_env_pipe := 0\<rparr>" for e :: native_env
  define d1 where "d1 = native_put key f (d\<lparr>d_created := tl (d_created d)\<rparr>)"
  define d2 where "d2 = d1\<lparr>d_cache_size := d_cache_size d1 + n\<rparr>"
  have "daemon_ok (d\<lparr>d_created := tl (d_created d)\<rparr>)"
    using daemon_ok_quiet [OF _ assms(1)] by (simp add: quiet_defs)
  then have d1: "daemon_ok d1"
    using native_put_quiet(1) [of "d\<lparr>d_created := tl (d_created d)\<rparr>" f key] by (simp add: d1_def f_def)
  have s: "d_clients d1 = d_clients d" "d_cache_size d1 = d_cache_size d"
    by (simp_all add: d1_def native_put_def)
  have fit: "unat (d_cache_size d1) + unat n < 2 ^ 64"
    using assms(4) unsigned_less [of "d_cache_size d"] unfolding s n_def x_def
    by (auto simp: room_for_def split: list.splits option.splits)
  have h: "Daemon_create_env_finished key d = (if n = 0 then map_option (Pair False) (reject_waiting (length (d_clients d2)) key d2)
        else do {
          let d3 = native_put key (\<lambda>e. e\<lparr>ne_last_use := d_now d2, ne_size := n\<rparr>) d2;
          d4 \<leftarrow> Daemon_check_cache_size (ne_name (native_at key d3)) d3;
          d5 \<leftarrow> finish_waiting key (map fst (d_clients d4)) d4;
          Some (True, d5)
        })"
    using r unfolding Daemon_create_env_finished_def Let_def x_def [symmetric] n_def [symmetric] f_def [abs_def, symmetric] d1_def [symmetric] d2_def [symmetric]
    by (auto split: if_splits)
  show ?thesis
  proof (cases "n = 0")
    case True
    have "d2 = d1"
      by (simp add: d2_def True)
    then show ?thesis
      using h r True reject_waiting_total [OF d1 key, of "length (d_clients d1)"] by auto
  next
    case False
    define d3 where "d3 = native_put key (\<lambda>e. e\<lparr>ne_last_use := d_now d2, ne_size := n\<rparr>) d2"
    have "cache_ok d3"
      using native_put_new [of d1 n "\<lambda>e. e\<lparr>ne_last_use := d_now d2, ne_size := n\<rparr>" key] d1 fit by (simp add: d3_def d2_def daemon_okx_def)
    moreover have t3: "same_table d1 d3"
      by (simp add: d3_def d2_def native_put_def same_table_def)
    moreover have "jobs_known (d_clients d3)"
      using assms(5) t3 s by (simp add: same_table_def)
    ultimately obtain d4 where d4: "Daemon_check_cache_size (ne_name (native_at key d3)) d3 = Some d4" "same_table d3 d4" "cache_ok d4"
      using check_cache_size_total by blast
    then have "daemon_ok d4"
      using table_ok_same [OF same_table_trans [OF t3 d4(2)]] d1 by (simp add: daemon_okx_def)
    then show ?thesis
      using h r False d4(1) finish_waiting_ok [OF _ key] by (cases "finish_waiting key (map fst (d_clients d4)) d4") (auto simp: Let_def d3_def [symmetric])
  qed
qed

section \<open>Jobs\<close>

lemma handle_job_done_total:
  assumes "daemon_ok d" and c: "client_at d p = Some c" and "talks c" and "dc_status c \<noteq> WAITCREATEENV" and "jd_job_id m = dc_job_id c"
  shows "\<exists>r d'. Daemon_handle_job_done p m d = Some (r, d') \<and> daemon_ok d'"
proof -
  have ok: "table_ok d" "cache_ok d" "client_ok c"
    using assms(1) client_here [OF assms(1) c] by (simp_all add: daemon_okx_def)
  define c1 where "c1 = c\<lparr>dc_status := JOBDONE, dc_fulljob := False, dc_job_id := 0\<rparr>"
  define d1 where "d1 = release_slot c d"
  define d2 where "d2 = d1\<lparr>d_clients := set_at p c1 (d_clients d)\<rparr>"
  have p2: "put p c1 (d_active_processes d - weight (slots d) c) (d_current_kids d) d d2" "same_cache d d2"
    by (simp_all add: put_def d2_def d1_def release_slot_active release_slot_rest) (simp_all add: keeps_def release_slot_def same_cache_def)
  have u: "upd_client p (\<lambda>c. c\<lparr>dc_status := JOBDONE, dc_fulljob := False, dc_job_id := 0\<rparr>) d1 = Some d2"
    using c table_distinct [OF ok(1)] by (subst upd_client_put [of _ _ c]) (simp_all add: client_at_def d1_def d2_def c1_def release_slot_rest)
  have "client_ok c1" "kid c1 = 0" "kid c = 0" "weight n c1 = 0" for n
    using ok(3) assms(3,4) by (simp_all add: c1_def client_ok_def talks_def installing_def idle_def kid_def weight_def)
  then have t2: "table_ok d2"
    using table_ok_put [OF ok(1) c p2(1)] by (simp add: c1_def)
  define used where "used = jd_user_msec m + jd_sys_msec m"
  define d3 where "d3 = (if \<not> is_from_server m \<and> used \<le> jd_real_msec m
                 then d2\<lparr>d_icecream_load := d_icecream_load d2 + ucast (used div of_int (d_num_cpus d2))\<rparr> else d2)"
  have "quiet d2 d3"
    by (simp add: d3_def quiet_defs)
  then have "daemon_ok d3"
    using daemon_ok_quiet t2 cache_ok_same [OF p2(2) ok(2)] by (auto simp: daemon_okx_def)
  moreover have "Daemon_handle_job_done p m d = Daemon_send_scheduler (JobDoneMsg (m\<lparr>jd_client_count := clients_size d3\<rparr>)) d3"
    unfolding Daemon_handle_job_done_def c bind_simps d1_def [symmetric] Let_def u used_def [symmetric] d3_def [symmetric] using assms(5) by simp
  ultimately show ?thesis
    using scheduler_ok [of d3] by (metis daemon_msg_plain(3))
qed

lemma installing_job [simp]: "installing (c\<lparr>dc_job := j\<rparr>) = installing c"
  by (simp add: installing_def)

lemma handle_compile_file_total:
  assumes "daemon_ok d" and c: "client_at d p = Some c" and f: "fresh c \<or> dc_status c = CLIENTWORK \<and> m_environment_version job = ''__client''"
  shows "\<exists>r d'. Daemon_handle_compile_file p job d = Some (r, d') \<and> daemon_ok d'"
proof -
  have ok: "client_ok c"
    using client_here [OF assms(1) c] .
  then have "client_ok (c\<lparr>dc_job := Some job\<rparr>)" "weight n (c\<lparr>dc_job := Some job\<rparr>) = weight n c" "kid (c\<lparr>dc_job := Some job\<rparr>) = kid c" for n
    by (simp_all add: client_ok_def weight_def kid_def) blast
  then obtain d1 where d1: "upd_client p (\<lambda>c. c\<lparr>dc_job := Some job\<rparr>) d = Some d1" "daemon_ok d1" "client_at d1 p = Some (c\<lparr>dc_job := Some job\<rparr>)"
    using daemon_ok_upd [OF assms(1) c, of "\<lambda>c. c\<lparr>dc_job := Some job\<rparr>"] by auto
  show ?thesis
  proof (cases "dc_status c = CLIENTWORK")
    case True
    then have "m_environment_version job = ''__client''"
      using f by (auto simp: fresh_def)
    then show ?thesis
      using scheduler_ok [OF d1(2), of "JobBeginMsg (JobBeginMsg_make (m_id job) (clients_size d1) d1)"] c d1(1) True
      by (auto simp: Daemon_handle_compile_file_def)
  next
    case False
    have fr: "fresh c"
      using f False by blast
    let ?c = "c\<lparr>dc_job := Some job\<rparr>"
    have "fresh ?c" "client_ok ?c"
      using fr client_here [OF d1(2,3)] by (simp_all add: fresh_def)
    note ff = fresh_facts [OF this(2,1)] talks_end(3) [OF fresh_facts(1) [OF this(2,1)]]
    have "client_ok (?c\<lparr>dc_status := TOCOMPILE\<rparr>)" "weight n (?c\<lparr>dc_status := TOCOMPILE\<rparr>) = weight n ?c" "kid (?c\<lparr>dc_status := TOCOMPILE\<rparr>) = kid ?c" for n
      unfolding ff using ff(2-5,7-9) by (simp_all add: client_ok_def installing_def idle_def weight_def kid_def)
    then obtain d2 where "upd_client p (\<lambda>c. c\<lparr>dc_status := TOCOMPILE\<rparr>) d1 = Some d2" "daemon_ok d2"
      using daemon_ok_upd [OF d1(2,3), of "\<lambda>c. c\<lparr>dc_status := TOCOMPILE\<rparr>"] by auto
    then show ?thesis
      using c d1(1) False by (auto simp: Daemon_handle_compile_file_def)
  qed
qed

lemma handle_get_cs_total:
  assumes "daemon_ok d" and c: "client_at d p = Some c" and fr: "fresh c"
  shows "\<exists>r d'. Daemon_handle_get_cs p m d = Some (r, d') \<and> daemon_ok d'"
proof -
  have ok: "client_ok c"
    using client_here [OF assms(1) c] .
  let ?c = "c\<lparr>dc_status := WAITFORCS, dc_niceness := gcs_niceness m\<rparr>"
  have "client_ok ?c" "weight n c = 0" "kid c = 0" for n
    using fresh_facts [OF ok fr] talks_end(3) by (simp_all add: client_ok_def installing_def idle_def)
  then obtain d1 where d1: "upd_client p (\<lambda>c. c\<lparr>dc_status := WAITFORCS, dc_niceness := gcs_niceness m\<rparr>) d = Some d1" "daemon_ok d1" "client_at d1 p = Some ?c"
    using daemon_ok_upd [OF assms(1) c, of "\<lambda>c. c\<lparr>dc_status := WAITFORCS, dc_niceness := gcs_niceness m\<rparr>"]
    by (auto simp: weight_def [of _ "_\<lparr>dc_niceness := _\<rparr>"] kid_def [of "_\<lparr>dc_niceness := _\<rparr>"] installing_def)
  have w: "waits ?c"
    by (simp add: waits_def)
  show ?thesis
  proof (cases "d_scheduler d1")
    case None
    then show ?thesis
      using pending_total [OF d1(2,3) w, of "of_int (dc_client_id c)" "UseCSMsg_make (gcs_target m) ''127.0.0.1'' (d_daemon_port d1) (of_int (dc_client_id c)) True 1 0"]
        c d1(1) by (auto simp: Daemon_handle_get_cs_def Let_def)
  next
    case (Some sch)
    then show ?thesis
      using scheduler_ok [OF d1(2), of "GetCSMsg (m\<lparr>gcs_client_id := of_int (dc_client_id c), gcs_client_count := clients_size d1\<rparr>)"]
        c d1(1) by (auto simp: Daemon_handle_get_cs_def Let_def)
  qed
qed

lemma handle_local_job_total:
  assumes "daemon_ok d" and c: "client_at d p = Some c" and fr: "fresh c"
  shows "\<exists>r d'. Daemon_handle_local_job p m d = Some (r, d') \<and> daemon_ok d'"
proof -
  let ?f = "\<lambda>c. c\<lparr>dc_status := LINKJOB, dc_niceness := jlb_niceness m, dc_outfile := jlb_outfile m, dc_fulljob := jlb_fulljob m\<rparr>"
  have "client_ok (?f c)" "weight n c = 0" "kid c = 0" "weight n (?f c) = 0" "kid (?f c) = 0" for n
    using fresh_facts [OF client_here [OF assms(1) c] fr] talks_end(3) by (simp_all add: client_ok_def installing_def idle_def weight_def [of _ "?f c"] kid_def [of "?f c"])
  then show ?thesis
    using daemon_ok_upd [OF assms(1) c, of ?f] by (auto simp: Daemon_handle_local_job_def)
qed

text \<open>The end of a compilation: the child is gone, then the client.\<close>

lemma handle_compile_done_total:
  assumes "daemon_ok d" and c: "client_at d p = Some c" and w: "dc_status c = WAITFORCHILD"
  shows "\<exists>d'. Daemon_handle_compile_done p d = Some (False, d') \<and> daemon_ok d' \<and> d_clients d' = map_erase p (d_clients d)"
proof -
  have ok: "table_ok d" "cache_ok d" "client_ok c"
    using assms(1) client_here [OF assms(1) c] by (simp_all add: daemon_okx_def)
  have kc: "kid c = 1"
    using w by (simp add: kid_def)
  have pos: "dc_child_pid c > 0" "dc_pipe_from_child c \<ge> 0" "d_current_kids d \<noteq> 0" "dc_client_id c > 0"
    using ok(3) w kids_positive [OF ok(1) c kc] by (simp_all add: client_ok_def)
  obtain job where job: "dc_job c = Some job"
    using ok(3) w by (auto simp: client_ok_def)
  define m0 where "m0 = JobDoneMsg_make (m_id job) (-1) FROM_SERVER (clients_size d)"
  obtain m es where st: "(case (case d_job_stats d of [] \<Rightarrow> None | x # _ \<Rightarrow> x) of
              Some [in_compressed, in_uncompressed, out_uncompressed, exit_code, real_msec, user_msec, sys_msec, sys_pfaults] \<Rightarrow>
                (m0\<lparr>jd_in_uncompressed := in_uncompressed, jd_in_compressed := in_compressed, jd_out_compressed := out_uncompressed,
                   jd_out_uncompressed := out_uncompressed, jd_exitcode := exit_code, jd_real_msec := real_msec,
                   jd_user_msec := user_msec, jd_sys_msec := sys_msec, jd_pfaults := sys_pfaults\<rparr>, exit_code)
            | _ \<Rightarrow> (m0, 151)) = (m, es)"
    by fastforce
  define c1 where "c1 = c\<lparr>dc_pipe_from_child := -1\<rparr>"
  define d1 where "d1 = d\<lparr>d_clients := set_at p c1 (d_clients d), d_current_kids := d_current_kids d - 1, d_job_stats := tl (d_job_stats d)\<rparr>"
  have u: "upd_client p (\<lambda>c. c\<lparr>dc_pipe_from_child := -1\<rparr>) (d\<lparr>d_current_kids := d_current_kids d - 1, d_job_stats := tl (d_job_stats d)\<rparr>) = Some d1"
    using c table_distinct [OF ok(1)] by (subst upd_client_put [of _ _ c]) (simp_all add: client_at_def d1_def c1_def)
  have p1: "put p c1 (d_active_processes d) (d_current_kids d - 1) d d1" "same_cache d d1"
    by (simp_all add: put_def d1_def keeps_def same_cache_def)
  define d2 where "d2 = received_put (env_for_job job) (\<lambda>e. e\<lparr>re_last_use := d_now d1\<rparr>) d1"
  have c2: "cache_ok d2" "same_table d1 d2"
    using received_put_same [OF cache_ok_same [OF p1(2) ok(2)]] by (simp_all add: d2_def)
  have ne: "env_for_job job \<noteq> ''''"
    by (simp add: env_for_job_def)
  define miss where "miss = (if es = EXIT_COMPILER_MISSING then do {
                d3 \<leftarrow> Daemon_remove_environment (env_for_job job) d2;
                map_option snd (Daemon_reannounce_environments d3)
              } else Some d2)"
  have "\<exists>d3. miss = Some d3 \<and> same_table d2 d3 \<and> cache_ok d3"
  proof (cases "es = EXIT_COMPILER_MISSING")
    case True
    obtain d3 where d3: "Daemon_remove_environment (env_for_job job) d2 = Some d3" "same_table d2 d3" "cache_ok d3"
      using remove_environment_total [OF c2(1) ne] by blast
    obtain r d4 where "Daemon_reannounce_environments d3 = Some (r, d4)" "quiet d3 d4"
      using reannounce_total by blast
    then show ?thesis
      using True d3 same_table_trans [OF d3(2)] cache_ok_same by (auto simp: miss_def quiet_def)
  next
    case False
    then show ?thesis
      using c2 by (simp add: miss_def)
  qed
  then obtain d3 where d3: "miss = Some d3" "same_table d2 d3" "cache_ok d3"
    by blast
  obtain b d4 where d4: "Daemon_send_scheduler (JobDoneMsg m) d3 = Some (b, d4)" "quiet d3 d4"
    using send_scheduler_total [of "JobDoneMsg m" d3] by auto
  have p4: "put p c1 (d_active_processes d) (d_current_kids d - 1) d d4" "cache_ok d4"
    using put_same [OF put_same [OF put_same [OF p1(1) c2(2)] d3(2)]] d4(2) cache_ok_same d3(3) by (auto simp: quiet_def)
  have c4: "client_at d4 p = Some c1"
    using put_client_at [OF p4(1) c] .
  have "\<not> installing c1" "ends_well c1" "weight n c1 = 0" "dc_fd c1 = dc_fd c" for n
    using w pos(4) by (simp_all add: c1_def installing_def ends_well_def weight_def idle_def)
  then obtain d5 where d5: "Daemon_handle_end p es d4 = Some d5" "gone p (dc_fd c) (d_active_processes d) (d_current_kids d - 1) d4 d5" "same_cache d4 d5"
    using handle_end_plain [OF c4, of es] p4(1) by (auto simp: put_def)
  have g: "gone p (dc_fd c) (d_active_processes d) (d_current_kids d - 1) d d5"
    using put_gone [OF p4(1) d5(2)] .
  have "table_ok d5"
    using table_ok_gone [OF ok(1) c g] kc w by (simp add: weight_def)
  moreover have guard: "(d_asserts d \<and> (dc_status c \<noteq> WAITFORCHILD \<or> dc_child_pid c \<le> 0 \<or> dc_pipe_from_child c < 0 \<or> d_current_kids d = 0)) = False"
    using w pos by auto
  have "Daemon_handle_compile_done p d = Some (False, d5)"
    unfolding Daemon_handle_compile_done_def c job bind_simps guard if_False Let_def m0_def [symmetric] st prod.case u d2_def [symmetric]
      miss_def [symmetric] d3(1) d4(1) d5(1) by simp
  ultimately show ?thesis
    using cache_ok_same [OF d5(3) p4(2)] g by (auto simp: daemon_okx_def gone_def)
qed

section \<open>The slots\<close>

lemma earliest_loop_mem:
  "earliest_loop s best i n cs = Some p \<Longrightarrow> best = Some p \<or> (\<exists>c. (p, c) \<in> set cs \<and> dc_status c = s)"
  by (induction s best i n cs rule: earliest_loop.induct) (auto split: if_splits)

lemma get_earliest_client_at:
  assumes "daemon_ok d" and "get_earliest_client s d = Some p"
  shows "\<exists>c. client_at d p = Some c \<and> dc_status c = s"
proof -
  have "distinct (map fst (d_clients d))"
    using assms(1) table_distinct by (auto simp: daemon_okx_def)
  then show ?thesis
    using earliest_loop_mem [of s None 0 _ "d_clients d" p] assms(2) by (auto simp: get_earliest_client_def client_at_def)
qed

text \<open>The clients that wait for a slot, as a measure of what the loop has still to do.\<close>

definition queued :: "dclient \<Rightarrow> nat" where
  "queued c = (if dc_status c = LINKJOB \<or> dc_status c = PENDING_USE_CS \<or> dc_status c = TOCOMPILE then 1 else 0)"

lemma queued_channel [simp]: "queued (c\<lparr>dc_channel := ch\<rparr>) = queued c"
  by (simp add: queued_def)

lemma queued_put:
  assumes "daemon_ok d" and "client_at d p = Some c" and "queued c = 1"
  shows "queued c' = 0 \<Longrightarrow> total queued (set_at p c' (d_clients d)) < total queued (d_clients d)"
    and "total queued (map_erase p (d_clients d)) < total queued (d_clients d)"
proof -
  have D: "distinct (map fst (d_clients d))" "map_of (d_clients d) p = Some c"
    using assms table_distinct by (auto simp: daemon_okx_def client_at_def)
  show "queued c' = 0 \<Longrightarrow> total queued (set_at p c' (d_clients d)) < total queued (d_clients d)"
    using total_set_at [OF D, of queued c'] assms(3) by simp
  show "total queued (map_erase p (d_clients d)) < total queued (d_clients d)"
    using total_erase [OF D, of queued] assms(3) by simp
qed

text \<open>A client at work: its slots are taken.\<close>

lemma take_slot:
  assumes "daemon_ok d" and c: "client_at d p = Some c" and "talks c" and "weight (slots d) c = 0" and "dc_pending_create_env c = ''''"
    and "a = d_active_processes d + (if dc_fulljob c then slots d else 1)"
  shows "\<exists>d'. upd_client p (\<lambda>c. c\<lparr>dc_status := CLIENTWORK\<rparr>) (d\<lparr>d_active_processes := a\<rparr>) = Some d' \<and> daemon_ok d'
    \<and> d' = d\<lparr>d_active_processes := a, d_clients := set_at p (c\<lparr>dc_status := CLIENTWORK\<rparr>) (d_clients d)\<rparr>"
proof -
  let ?c = "c\<lparr>dc_status := CLIENTWORK\<rparr>"
  let ?d = "d\<lparr>d_active_processes := a, d_clients := set_at p ?c (d_clients d)\<rparr>"
  have ok: "table_ok d" "cache_ok d" "client_ok c"
    using assms(1) client_here [OF assms(1) c] by (simp_all add: daemon_okx_def)
  have pt: "put p ?c a (d_current_kids d) d ?d"
    by (simp add: put_def keeps_def)
  have w: "client_ok ?c" "kid ?c = kid c" "weight (slots d) ?c = (if dc_fulljob c then slots d else 1)"
    using ok(3) assms(3,5) talks_facts [OF ok(3) assms(3)] talks_end(3) [OF assms(3)]
    by (simp_all add: client_ok_def installing_def idle_def) (simp_all add: kid_def weight_def installing_def)
  have "a + weight (slots d) c = d_active_processes d + weight (slots d) ?c"
    unfolding w(3) assms(4,6) by simp
  then have "table_ok ?d"
    using table_ok_put [OF ok(1) c pt w(1)] w(2) by simp
  then show ?thesis
    using c table_distinct [OF ok(1)] ok(2)
    by (subst upd_client_put [of _ _ c]) (simp_all add: client_at_def daemon_okx_def cache_ok_def cache_sum_def)
qed

definition old_ok :: "daemon \<Rightarrow> bool \<times> daemon \<Rightarrow> bool" where
  "old_ok d r \<longleftrightarrow> daemon_ok (snd r) \<and> total queued (d_clients (snd r)) < total queued (d_clients d)"

lemma start_local_job_total:
  assumes "daemon_ok d" and c: "client_at d p = Some c" and s: "dc_status c = LINKJOB"
  shows "\<exists>r. start_local_job p d = Some r \<and> old_ok d r \<and> (\<not> fst r \<longrightarrow> d_scheduler (snd r) = None)"
proof -
  have q: "queued c = 1" "talks c"
    using s by (simp_all add: queued_def talks_def installing_def)
  let ?m = "JobLocalBeginMsg (JobLocalBeginMsg_make 0 '''' False d)"
  obtain ok ch d1 where d1: "send_client p ?m d = Some (ok, d1)" "daemon_ok d1" "client_at d1 p = Some (c\<lparr>dc_channel := ch\<rparr>)"
      "d1 = d\<lparr>d_clients := set_at p (c\<lparr>dc_channel := ch\<rparr>) (d_clients d)\<rparr>"
    using send_client_total [OF assms(1) c, of ?m] by auto
  let ?c = "c\<lparr>dc_channel := ch\<rparr>"
  obtain d2 where d2: "Daemon_handle_end p 112 d1 = Some d2" "daemon_ok d2" "d_clients d2 = map_erase p (d_clients d1)"
    using end_total [OF d1(2,3), of 112] q(2) by auto
  define a where "a = d_active_processes d1 + (if dc_fulljob ?c then slots d1 else 1)"
  obtain d3 where d3: "upd_client p (\<lambda>c. c\<lparr>dc_status := CLIENTWORK\<rparr>) (d1\<lparr>d_active_processes := a\<rparr>) = Some d3" "daemon_ok d3"
      "d3 = d1\<lparr>d_active_processes := a, d_clients := set_at p (?c\<lparr>dc_status := CLIENTWORK\<rparr>) (d_clients d1)\<rparr>"
    using take_slot [OF d1(2,3) _ _ _ a_def] q(2) s client_here [OF d1(2,3)] by (auto simp: weight_def client_ok_def)
  let ?m2 = "JobLocalBeginMsg (JobLocalBeginMsg_make (of_int (dc_client_id ?c)) (dc_outfile ?c) (dc_fulljob ?c) d3)"
  obtain r d4 where d4: "Daemon_send_scheduler ?m2 d3 = Some (r, d4)" "daemon_ok d4" "quiet d3 d4"
    using scheduler_ok [OF d3(2), of ?m2] by auto
  have lost: "\<not> r \<longrightarrow> d_scheduler d4 = None"
    using d4(1) by (auto simp: Daemon_send_scheduler_def Daemon_close_scheduler_def Let_def Option.bind_eq_Some_conv split: option.splits if_splits)
  have less: "total queued (map_erase p (d_clients d)) < total queued (d_clients d)"
      "total queued (set_at p (?c\<lparr>dc_status := CLIENTWORK\<rparr>) (d_clients d)) < total queued (d_clients d)"
    using queued_put [OF assms(1) c q(1)] by (simp_all add: queued_def)
  show ?thesis
    using d1(1,3,4) d2 d3 d4 lost less by (cases ok) (auto simp: start_local_job_def old_ok_def a_def quiet_defs)
qed

lemma start_pending_job_total:
  assumes "daemon_ok d" and c: "client_at d p = Some c" and s: "dc_status c = PENDING_USE_CS"
  shows "\<exists>r. start_pending_job p d = Some r \<and> old_ok d r \<and> fst r"
proof -
  have q: "queued c = 1" "talks c"
    using s by (simp_all add: queued_def talks_def installing_def)
  obtain m where m: "dc_usecsmsg c = Some m"
    using client_here [OF assms(1) c] s by (auto simp: client_ok_def)
  obtain ok ch d1 where d1: "send_client p (UseCSMsg m) d = Some (ok, d1)" "daemon_ok d1" "client_at d1 p = Some (c\<lparr>dc_channel := ch\<rparr>)"
      "d1 = d\<lparr>d_clients := set_at p (c\<lparr>dc_channel := ch\<rparr>) (d_clients d)\<rparr>"
    using send_client_total [OF assms(1) c, of "UseCSMsg m"] by auto
  let ?c = "c\<lparr>dc_channel := ch\<rparr>"
  obtain d2 where d2: "Daemon_handle_end p 129 d1 = Some d2" "daemon_ok d2" "d_clients d2 = map_erase p (d_clients d1)"
    using end_total [OF d1(2,3), of 129] q(2) by auto
  have f: "dc_fulljob ?c = False"
    using client_here [OF assms(1) c] s by (simp add: client_ok_def)
  obtain d3 where d3: "upd_client p (\<lambda>c. c\<lparr>dc_status := CLIENTWORK\<rparr>) (d1\<lparr>d_active_processes := d_active_processes d1 + 1\<rparr>) = Some d3" "daemon_ok d3"
      "d3 = d1\<lparr>d_active_processes := d_active_processes d1 + 1, d_clients := set_at p (?c\<lparr>dc_status := CLIENTWORK\<rparr>) (d_clients d1)\<rparr>"
    using take_slot [OF d1(2,3), of "d_active_processes d1 + 1"] q(2) s f client_here [OF d1(2,3)] by (auto simp: weight_def client_ok_def)
  have less: "total queued (map_erase p (d_clients d)) < total queued (d_clients d)"
      "total queued (set_at p (?c\<lparr>dc_status := CLIENTWORK\<rparr>) (d_clients d)) < total queued (d_clients d)"
    using queued_put [OF assms(1) c q(1)] by (simp_all add: queued_def)
  show ?thesis
    using c m d1(1,4) d2 d3 less by (cases ok) (auto simp: start_pending_job_def old_ok_def)
qed

lemma set_tl: "set (tl xs) \<subseteq> set xs"
  by (cases xs) auto

lemma start_compile_job_total:
  assumes "daemon_ok d" and c: "client_at d p = Some c" and s: "dc_status c = TOCOMPILE"
  shows "\<exists>r. start_compile_job p d = Some r \<and> old_ok d r \<and> fst r"
proof -
  have ok: "table_ok d" "cache_ok d" "client_ok c"
    using assms(1) client_here [OF assms(1) c] by (simp_all add: daemon_okx_def)
  obtain job where job: "dc_job c = Some job"
    using ok(3) s by (auto simp: client_ok_def)
  define d1 where "d1 = received_put (env_for_job job) (\<lambda>e. e\<lparr>re_last_use := d_now d\<rparr>) d"
  obtain pid sock where f: "(case d_compile_forks d1 of [] \<Rightarrow> (-1, -1) | f # _ \<Rightarrow> f) = (pid, sock)"
    by fastforce
  define d2 where "d2 = d1\<lparr>d_compile_forks := tl (d_compile_forks d1)\<rparr>"
  have fields: "d_clients d2 = d_clients d" "d_active_processes d2 = d_active_processes d" "d_current_kids d2 = d_current_kids d" "d_fd2client d2 = d_fd2client d"
    "keeps d d2" "cache_ok d2"
    using received_put_same [OF ok(2), of "\<lambda>e. e\<lparr>re_last_use := d_now d\<rparr>" "env_for_job job"]
    by (simp_all add: d2_def d1_def received_put_def keeps_def cache_ok_def cache_sum_def set_tl)
  have pos: "pid > 0 \<longrightarrow> sock \<ge> 0"
    using ok(1) f by (auto simp: table_okx_def forks_ok_def d1_def received_put_def split: list.splits)
  have c2: "client_at d2 p = Some c"
    using c by (simp add: client_at_def fields)
  have q: "queued c = 1"
    using s by (simp add: queued_def)
  show ?thesis
  proof (cases "pid > 0")
    case True
    define c1 where "c1 = c\<lparr>dc_status := WAITFORCHILD, dc_pipe_from_child := sock, dc_child_pid := pid\<rparr>"
    define d3 where "d3 = d2\<lparr>d_clients := set_at p c1 (d_clients d), d_current_kids := d_current_kids d + 1\<rparr>"
    have u: "upd_client p (\<lambda>c. c\<lparr>dc_status := WAITFORCHILD, dc_pipe_from_child := sock, dc_child_pid := pid\<rparr>) (d2\<lparr>d_current_kids := d_current_kids d2 + 1\<rparr>) = Some d3"
      using c table_distinct [OF ok(1)] by (subst upd_client_put [of _ _ c]) (simp_all add: client_at_def d3_def c1_def fields)
    have pt: "put p c1 (d_active_processes d) (d_current_kids d + 1) d d3"
      using fields by (simp add: put_def d3_def keeps_def)
    have w: "client_ok c1" "kid c1 = 1" "kid c = 0" "weight n c1 = 0" "weight n c = 0" for n
      using ok(3) s True pos by (simp_all add: c1_def client_ok_def installing_def idle_def kid_def weight_def)
    have "table_ok d3"
      using table_ok_put [OF ok(1) c pt w(1)] w(2-5) by (simp add: c1_def)
    then have d3: "daemon_ok d3"
      using fields(6) by (simp add: daemon_okx_def d3_def cache_ok_def cache_sum_def)
    let ?m = "JobBeginMsg (JobBeginMsg_make (m_id job) (clients_size d3) d3)"
    obtain r d4 where d4: "Daemon_send_scheduler ?m d3 = Some (r, d4)" "daemon_ok d4" "quiet d3 d4"
      using scheduler_ok [OF d3, of ?m] by auto
    have "queued c1 = 0"
      by (simp add: queued_def c1_def)
    then have "total queued (d_clients d4) < total queued (d_clients d)"
      using queued_put(1) [OF assms(1) c q, of c1] d4(3) by (simp add: quiet_defs d3_def)
    moreover have "start_compile_job p d = Some (True, d4)"
      unfolding start_compile_job_def c bind_simps job Let_def d1_def [symmetric] f prod.case d2_def [symmetric] u using True d4(1) by simp
    ultimately show ?thesis
      using d4(2) by (simp add: old_ok_def)
  next
    case False
    have "table_ok d2"
      using table_ok_put [OF ok(1) c, of c "d_active_processes d" "d_current_kids d" d2] ok(3) fields set_at_same [OF table_distinct [OF ok(1)] c [unfolded client_at_def]]
      by (simp add: put_def)
    then have "daemon_ok d2"
      using fields by (simp add: daemon_okx_def)
    then obtain d3 where d3: "Daemon_handle_end p 117 d2 = Some d3" "daemon_ok d3" "d_clients d3 = map_erase p (d_clients d)"
      using handle_end_total [OF _ c2, of 117] s by (auto simp: installing_def fields)
    moreover have "start_compile_job p d = Some (True, d3)"
      unfolding start_compile_job_def c bind_simps job Let_def d1_def [symmetric] f prod.case d2_def [symmetric] using False d3(1) by simp
    ultimately show ?thesis
      using queued_put(2) [OF assms(1) c q] by (simp add: old_ok_def)
  qed
qed

text \<open>What the loop has reached: no slot is free, or no client may take one, or the scheduler is gone.\<close>

definition served :: "daemon \<Rightarrow> bool" where
  "served d \<longleftrightarrow> \<not> d_current_kids d + d_active_processes d < slots d \<or> d_scheduler d = None
     \<or> get_earliest_client LINKJOB d = None \<and> get_earliest_client PENDING_USE_CS d = None
       \<and> (d_current_load d \<ge> 1000 \<or> get_earliest_client TOCOMPILE d = None)"

lemma old_request_step_total:
  assumes "daemon_ok d"
  shows "\<exists>more d'. old_request_step d = Some (more, d') \<and> daemon_ok d' \<and> (more \<longrightarrow> total queued (d_clients d') < total queued (d_clients d))
    \<and> (\<not> more \<longrightarrow> served d')"
proof (cases "get_earliest_client LINKJOB d")
  case (Some p)
  then show ?thesis
    using get_earliest_client_at [OF assms Some] start_local_job_total [OF assms] by (fastforce simp: old_request_step_def old_ok_def served_def)
next
  case L: None
  show ?thesis
  proof (cases "get_earliest_client PENDING_USE_CS d")
    case (Some p)
    then show ?thesis
      using L get_earliest_client_at [OF assms Some] start_pending_job_total [OF assms] by (fastforce simp: old_request_step_def old_ok_def)
  next
    case P: None
    show ?thesis
    proof (cases "d_current_load d \<ge> 1000 \<or> get_earliest_client TOCOMPILE d = None")
      case True
      then show ?thesis
        using L P assms by (auto simp: old_request_step_def served_def)
    next
      case False
      then obtain p where p: "get_earliest_client TOCOMPILE d = Some p" "\<not> d_current_load d \<ge> 1000"
        by auto
      then show ?thesis
        using L P get_earliest_client_at [OF assms p(1)] start_compile_job_total [OF assms] by (fastforce simp: old_request_step_def old_ok_def)
    qed
  qed
qed

lemma old_request_loop_total:
  assumes "daemon_ok d" and "total queued (d_clients d) < n"
  shows "\<exists>d'. old_request_loop n d = Some d' \<and> daemon_ok d' \<and> served d'"
  using assms
proof (induction n arbitrary: d)
  case (Suc n)
  show ?case
  proof (cases "d_current_kids d + d_active_processes d < slots d")
    case True
    obtain more d1 where d1: "old_request_step d = Some (more, d1)" "daemon_ok d1" "more \<longrightarrow> total queued (d_clients d1) < total queued (d_clients d)"
        "\<not> more \<longrightarrow> served d1"
      using old_request_step_total [OF Suc.prems(1)] by blast
    then show ?thesis
      using Suc.IH [of d1] Suc.prems(2) True by (cases more) auto
  next
    case False
    then show ?thesis
      using Suc.prems by (simp add: served_def)
  qed
qed simp

lemma handle_old_request_total:
  assumes "daemon_ok d"
  shows "\<exists>d'. Daemon_handle_old_request d = Some d' \<and> daemon_ok d' \<and> served d'"
proof -
  have "total queued cs \<le> length cs" for cs
    by (induction cs) (auto simp: queued_def)
  then show ?thesis
    unfolding Daemon_handle_old_request_def by (intro old_request_loop_total [OF assms]) (simp add: le_imp_less_Suc)
qed

section \<open>Dispatch\<close>

lemma verify_env_total:
  assumes "daemon_ok d" and c: "client_at d p = Some c"
  shows "\<exists>ok ch d'. verify_env p t e d = Some (ok, d') \<and> daemon_ok d' \<and> client_at d' p = Some (c\<lparr>dc_channel := ch\<rparr>)"
proof -
  have err: "\<exists>ch d'. error_client p s d = Some d' \<and> daemon_ok d' \<and> client_at d' p = Some (c\<lparr>dc_channel := ch\<rparr>)" for s
    using send_client_total [OF assms, of "StatusTextMsg s"] assms by (fastforce simp: error_client_def intro: exI [of _ "dc_channel c"])
  have "daemon_ok (d\<lparr>d_verify_results := x\<rparr>)" "client_at (d\<lparr>d_verify_results := x\<rparr>) p = Some (c\<lparr>dc_channel := dc_channel c\<rparr>)" for x
    using daemon_ok_quiet [OF _ assms(1)] c by (simp_all add: quiet_defs client_at_def)
  then show ?thesis
    using err [of "''verify_env: target or env empty''"]
      err [of "d_envbasedir d @ ''/target='' @ t @ ''/'' @ e @ ''/bin/true is not executable, installed environment removed?''"]
    by (auto simp: verify_env_def Let_def intro: exI [of _ "dc_channel c"])
qed

lemma handle_verify_env_total:
  assumes "daemon_ok d" and c: "client_at d p = Some c"
  shows "\<exists>r d'. Daemon_handle_verify_env p m d = Some (r, d') \<and> daemon_ok d'"
proof -
  obtain ok ch d1 where d1: "verify_env p (ve_target m) (ve_environment m) d = Some (ok, d1)" "daemon_ok d1" "client_at d1 p = Some (c\<lparr>dc_channel := ch\<rparr>)"
    using verify_env_total [OF assms] by blast
  then show ?thesis
    using send_client_total [OF d1(2,3), of "VerifyEnvResultMsg ok"] by (auto simp: Daemon_handle_verify_env_def)
qed

lemma dispatch_total:
  assumes "daemon_ok d" and c: "client_at d p = Some c" and r: "request_ok p c m d"
  shows "\<exists>r d'. Daemon_dispatch p m d = Some (r, d') \<and> daemon_ok d'"
proof -
  have t: "talks c"
    using r by (simp add: request_ok_def)
  have rej: "\<exists>r d'. reject_client p 120 d = Some (r, d') \<and> daemon_ok d'"
    using reject_client_total [OF assms(1) c t] by blast
  show ?thesis
  proof (cases m)
    case (GetNativeEnvMsg x)
    then show ?thesis
      using handle_get_native_env_total [OF assms(1) c] r by (auto simp: Daemon_dispatch_def request_ok_def)
  next
    case (CompileFileMsg x)
    then show ?thesis
      using handle_compile_file_total [OF assms(1) c] r by (auto simp: Daemon_dispatch_def request_ok_def)
  next
    case (EnvTransferMsg x)
    then show ?thesis
      using handle_transfer_env_total [OF assms(1) c] r by (auto simp: Daemon_dispatch_def request_ok_def)
  next
    case (GetCSMsg x)
    then show ?thesis
      using handle_get_cs_total [OF assms(1) c] r by (auto simp: Daemon_dispatch_def request_ok_def)
  next
    case EndMsg
    then show ?thesis
      using end_total [OF assms(1) c t, of 119] by (auto simp: Daemon_dispatch_def)
  next
    case (JobLocalBeginMsg x)
    then show ?thesis
      using handle_local_job_total [OF assms(1) c] r by (auto simp: Daemon_dispatch_def request_ok_def)
  next
    case (JobDoneMsg x)
    then show ?thesis
      using handle_job_done_total [OF assms(1) c t] r by (auto simp: Daemon_dispatch_def request_ok_def)
  next
    case (VerifyEnvMsg x)
    then show ?thesis
      using handle_verify_env_total [OF assms(1) c] by (auto simp: Daemon_dispatch_def)
  next
    case (BlacklistHostEnvMsg x)
    then show ?thesis
      using scheduler_ok [OF assms(1), of m] by (auto simp: Daemon_dispatch_def Daemon_handle_blacklist_host_env_def)
  qed (use rej in \<open>simp_all add: Daemon_dispatch_def\<close>)
qed

text \<open>
  The next message of the client, as \<open>get_msg\<close> reads it, and that it may be sent: a message while an environment is being
  received goes to the child, and no message is read from a client whose input is left to its child.
\<close>

definition next_msg :: "dclient \<Rightarrow> daemon \<Rightarrow> msg option" where
  "next_msg c d = fst (get_msg (d_libs d) 0 True (dc_channel c))"

definition activity_ok :: "client_ptr \<Rightarrow> daemon \<Rightarrow> bool" where
  "activity_ok p d \<longleftrightarrow> (case client_at d p of
     None \<Rightarrow> False
   | Some c \<Rightarrow> dc_status c = TOINSTALL \<and> calm p d \<and> fits d
       \<or> talks c \<and> (case next_msg c d of None \<Rightarrow> True | Some m \<Rightarrow> request_ok p (c\<lparr>dc_channel := snd (get_msg (d_libs d) 0 True (dc_channel c))\<rparr>) m d))"

lemma request_ok_clients: "request_ok p c m (d\<lparr>d_clients := set_at p c' (d_clients d)\<rparr>) = request_ok p c m d"
  unfolding request_ok_def calm_set_at by (auto simp: fits_def split: msg.splits list.splits)

lemma handle_activity_total:
  assumes "daemon_ok d" and "activity_ok p d"
  shows "\<exists>r d'. Daemon_handle_activity p d = Some (r, d') \<and> daemon_ok d'"
proof -
  obtain c where c: "client_at d p = Some c"
    using assms(2) by (auto simp: activity_ok_def split: option.splits)
  define g where "g = get_msg (d_libs d) 0 True (dc_channel c)"
  let ?c = "c\<lparr>dc_channel := snd g\<rparr>"
  obtain d1 where d1: "upd_client p (\<lambda>c. c\<lparr>dc_channel := snd g\<rparr>) d = Some d1" "daemon_ok d1" "client_at d1 p = Some ?c"
      "d1 = d\<lparr>d_clients := set_at p ?c (d_clients d)\<rparr>"
    using upd_channel [OF assms(1) c, of "snd g"] by auto
  have a: "dc_status c = TOINSTALL \<and> calm p d \<and> fits d \<or> talks c \<and> (case fst g of None \<Rightarrow> True | Some m \<Rightarrow> request_ok p ?c m d)"
    using assms(2) c unfolding activity_ok_def next_msg_def g_def by simp
  have guard: "(d_asserts d \<and> (dc_status c = TOCOMPILE \<or> dc_status c = WAITINSTALL)) = False"
    using a by (auto simp: talks_def installing_def)
  have h: "Daemon_handle_activity p d = (case fst g of
          None \<Rightarrow> map_option (Pair False) (Daemon_handle_end p 118 d1)
        | Some m \<Rightarrow> if dc_status c = TOINSTALL then Daemon_handle_file_chunk_env p m d1 else Daemon_dispatch p m d1)"
    unfolding Daemon_handle_activity_def c bind_simps guard if_False Let_def g_def [symmetric] d1(1) ..
  have calm: "calm p d1 = calm p d" "fits d1 = fits d"
    by (simp_all add: d1(4) calm_def fits_def cong: list.case_cong)
  show ?thesis
  proof (cases "dc_status c = TOINSTALL")
    case True
    then have cf: "calm p d1" "fits d1"
      using a calm by (auto simp: talks_def installing_def)
    then show ?thesis
      using h True handle_file_chunk_env_total [OF d1(2,3)] handle_end_total [OF d1(2,3), of 118] by (auto split: option.split)
  next
    case False
    then have t: "talks ?c" "\<And>m. fst g = Some m \<Longrightarrow> request_ok p ?c m d1"
      using a unfolding d1(4) request_ok_clients by (auto split: option.splits)
    then show ?thesis
      using h False dispatch_total [OF d1(2,3)] end_total [OF d1(2,3), of 118] by (auto split: option.split)
  qed
qed

section \<open>The scheduler and the listening sockets\<close>

definition sched_msg_ok :: "msg \<Rightarrow> daemon \<Rightarrow> bool" where
  "sched_msg_ok m d \<longleftrightarrow> d_scheduler d \<noteq> None \<and>
     (case m of UseCSMsg x \<Rightarrow> answer_ok (ucs_client_id x) d | NoCSMsg x \<Rightarrow> answer_ok (ncs_client_id x) d | _ \<Rightarrow> True)"

lemma scheduler_msg_total:
  assumes "daemon_ok d" and "sched_msg_ok m d"
  shows "\<exists>r d'. Daemon_scheduler_msg m d = Some (r, d') \<and> daemon_ok d'"
proof -
  obtain sch where sch: "d_scheduler d = Some sch"
    using assms(2) by (auto simp: sched_msg_ok_def)
  define step where "step = (case m of
          PingMsg \<Rightarrow> if protocol sch < 27 then map_option (\<lambda>(ok, d1). (\<not> ok, d1)) (Daemon_send_scheduler PingMsg d) else Some (False, d)
        | UseCSMsg x \<Rightarrow> Daemon_scheduler_use_cs x d
        | NoCSMsg x \<Rightarrow> Daemon_scheduler_no_cs x d
        | GetInternalStatus \<Rightarrow> Daemon_scheduler_get_internals d
        | ConfCSMsg x \<Rightarrow> Some (False, Daemon_handle_cs_conf x d)
        | _ \<Rightarrow> Some (True, d))"
  have "\<exists>r d'. step = Some (r, d') \<and> daemon_ok d'"
  proof (cases m)
    case PingMsg
    then show ?thesis
      using scheduler_ok [OF assms(1), of PingMsg] assms(1) by (auto simp: step_def)
  next
    case (UseCSMsg x)
    then show ?thesis
      using scheduler_use_cs_total [OF assms(1)] assms(2) by (auto simp: step_def sched_msg_ok_def)
  next
    case (NoCSMsg x)
    then show ?thesis
      using scheduler_no_cs_total [OF assms(1)] assms(2) by (auto simp: step_def sched_msg_ok_def)
  next
    case GetInternalStatus
    then show ?thesis
      using scheduler_ok [OF assms(1), of "StatusTextMsg (d_dump d)"] by (auto simp: step_def Daemon_scheduler_get_internals_def)
  next
    case (ConfCSMsg x)
    then show ?thesis
      using daemon_ok_quiet [OF _ assms(1)] by (auto simp: step_def Daemon_handle_cs_conf_def quiet_defs)
  qed (use assms(1) in \<open>auto simp: step_def\<close>)
  then obtain r d' where r: "step = Some (r, d')" "daemon_ok d'"
    by blast
  have "Daemon_scheduler_msg m d = Some (if r then (True, Daemon_close_scheduler d') else (False, d'))"
    unfolding Daemon_scheduler_msg_def sch bind_simps step_def [symmetric] r(1) by simp
  then show ?thesis
    using r(2) daemon_ok_quiet [OF close_scheduler_quiet] by auto
qed

text \<open>A new connection is in no table yet, and the tables have room.\<close>

definition accept_ok :: "client_ptr \<Rightarrow> int \<Rightarrow> daemon \<Rightarrow> bool" where
  "accept_ok p fd d \<longleftrightarrow> p \<notin> fst ` set (d_clients d) \<and> fd \<notin> fst ` set (d_fd2client d) \<and> length (d_clients d) + 1 < 2 ^ 31"

lemma set_map_put_new: "k \<notin> fst ` set m \<Longrightarrow> set (map_put lt k v m) = insert (k, v) (set m)"
  by (induction lt k v m rule: map_put.induct) auto

lemma distinct_map_put_new: "k \<notin> fst ` set m \<Longrightarrow> distinct (map fst m) \<Longrightarrow> distinct (map fst (map_put lt k v m))"
  by (induction lt k v m rule: map_put.induct) (auto simp: set_map_put_new)

lemma total_map_put_new: "k \<notin> fst ` set m \<Longrightarrow> total g (map_put lt k v m) = g v + total g m"
  by (induction lt k v m rule: map_put.induct) (auto simp: ac_simps)

lemma length_map_put_new: "k \<notin> fst ` set m \<Longrightarrow> length (map_put lt k v m) = Suc (length m)"
  by (induction lt k v m rule: map_put.induct) auto

lemma distinct_map_put_of: "k \<notin> fst ` set m \<Longrightarrow> distinct (map h m) \<Longrightarrow> h (k, v) \<notin> h ` set m \<Longrightarrow> distinct (map h (map_put lt k v m))"
  by (induction lt k v m rule: map_put.induct) (auto simp: set_map_put_new)

lemma accept_total:
  assumes "daemon_ok d" and "accept_ok p fd d"
  shows "daemon_ok (Daemon_accept p ch fd d)"
proof -
  let ?i = "d_new_client_id d + 1"
  define c where "c = (Client_new ch fd)\<lparr>dc_client_id := ?i\<rparr>"
  let ?cs = "map_put (<) p c (d_clients d)"
  have T: "table_ok d" "cache_ok d"
    using assms(1) by (simp_all add: daemon_okx_def)
  have new: "p \<notin> fst ` set (d_clients d)" "fd \<notin> fst ` set (d_fd2client d)" "length (d_clients d) + 1 < 2 ^ 31"
    using assms(2) by (simp_all add: accept_ok_def)
  have a: "Daemon_accept p ch fd d = d\<lparr>d_new_client_id := ?i, d_clients := ?cs, d_fd2client := map_put (<) fd p (d_fd2client d)\<rparr>"
    by (simp add: Daemon_accept_def Let_def c_def)
  have c: "client_ok c" "weight n c = 0" "kid c = 0" "dc_fd c = fd" "dc_client_id c = ?i" for n
    using T(1) by (simp_all add: c_def Client_new_def client_ok_def installing_def weight_def kid_def idle_def table_okx_def ids_ok_def)
  have F: "distinct (map fst (d_fd2client d))" "distinct (map (dc_fd \<circ> snd) (d_clients d))"
      "set (d_fd2client d) = (\<lambda>e. (dc_fd (snd e), fst e)) ` set (d_clients d)"
    using T(1) by (simp_all add: table_okx_def fds_ok_def)
  have "fd \<notin> (dc_fd \<circ> snd) ` set (d_clients d)"
    using new(2) unfolding F(3) by force
  then have "distinct (map (dc_fd \<circ> snd) ?cs)"
    using distinct_map_put_of [OF new(1) F(2), of c "(<)"] c(4) by simp
  moreover have "set (map_put (<) fd p (d_fd2client d)) = (\<lambda>e. (dc_fd (snd e), fst e)) ` set ?cs"
    by (simp add: set_map_put_new [OF new(1)] set_map_put_new [OF new(2)] F(3) c(4))
  ultimately have fds: "fds_ok (Daemon_accept p ch fd d)"
    using distinct_map_put_new [OF new(2) F(1)] by (simp add: fds_ok_def a)
  have I: "distinct (map (dc_client_id \<circ> snd) (d_clients d))" "\<forall>e \<in> set (d_clients d). dc_client_id (snd e) \<le> d_new_client_id d" "d_new_client_id d \<ge> 0"
    using T(1) by (simp_all add: table_okx_def ids_ok_def)
  have "?i \<notin> (dc_client_id \<circ> snd) ` set (d_clients d)"
    using I(2) by force
  then have "distinct (map (dc_client_id \<circ> snd) ?cs)"
    using distinct_map_put_of [OF new(1) I(1), of c "(<)"] c(5) by simp
  then have ids: "ids_ok (Daemon_accept p ch fd d)"
    using I(2,3) c(5) by (fastforce simp: ids_ok_def a set_map_put_new [OF new(1)])
  have "slots_ok 0 (Daemon_accept p ch fd d)"
    using T(1) c(2,3) by (simp add: a table_okx_def slots_ok_def slots_def total_map_put_new [OF new(1)])
  moreover have "forks_ok (Daemon_accept p ch fd d)"
    using T(1) by (simp add: a table_okx_def forks_ok_def)
  ultimately have "table_ok (Daemon_accept p ch fd d)"
    using T(1) fds ids new(3) c(1) unfolding table_okx_def
    by (simp add: a pmap.sorted_map_put length_map_put_new [OF new(1)] set_map_put_new [OF new(1)])
  then show ?thesis
    using T(2) by (simp add: daemon_okx_def a cache_ok_def cache_sum_def)
qed

section \<open>Losing and finding the scheduler\<close>

text \<open>Everything that is ended: each client in turn, as long as none of them compiles here.\<close>

definition one_install :: "daemon \<Rightarrow> bool" where
  "one_install d \<longleftrightarrow> (\<forall>p c. client_at d p = Some c \<and> installing c \<longrightarrow> calm p d)"

text \<open>The end of a client whose child still runs leaves the child counted.\<close>

lemma handle_end_any:
  assumes "daemon_okx x d" and c: "client_at d p = Some c" and "installing c \<longrightarrow> calm p d"
  shows "\<exists>d' y. Daemon_handle_end p e d = Some d' \<and> daemon_okx y d' \<and> d_clients d' = map_erase p (d_clients d)"
proof (cases "dc_status c = WAITFORCHILD")
  case True
  have ok: "table_okx x d" "cache_ok d" "client_ok c"
    using assms(1) table_clientx [OF _ c, of x] by (simp_all add: daemon_okx_def)
  have n: "\<not> installing c" "ends_well c" "weight k c = 0" "kid c = 1" for k
    using True client_ends_well [OF ok(3)] by (simp_all add: installing_def weight_def kid_def)
  obtain d' where d': "Daemon_handle_end p e d = Some d'" "gone p (dc_fd c) (d_active_processes d) (d_current_kids d) d d'" "same_cache d d'"
    using handle_end_plain [OF c n(1,2), of e] n(3) by auto
  have "table_okx (Suc x) d'"
    using n by (intro table_ok_gone [OF ok(1) c d'(2)]) simp_all
  then show ?thesis
    using d' cache_ok_same [OF d'(3) ok(2)] by (auto simp: daemon_okx_def gone_def)
next
  case False
  then show ?thesis
    using handle_end_totalx [OF assms(1) c _ assms(3)] by blast
qed

lemma jobs_known_erase: "jobs_known (map_erase p cs) \<Longrightarrow> jobs_known (map_erase p (map_erase q cs))"
  by (auto simp: jobs_known_def map_erase_def)

lemma erase_client_at: "d_clients d' = map_erase q (d_clients d) \<Longrightarrow> client_at d' p = (if p = q then None else client_at d p)"
  by (simp add: client_at_def map_of_erase)

lemma end_all_clients_total:
  assumes "daemon_okx x d" and "one_install d" and "length (d_clients d) \<le> n"
  shows "\<exists>d' y. end_all_clients n d = Some d' \<and> daemon_okx y d' \<and> d_clients d' = []"
  using assms
proof (induction n arbitrary: d x)
  case (Suc n)
  show ?case
  proof (cases "d_clients d")
    case Nil
    then show ?thesis
      using Suc.prems(1) by auto
  next
    case (Cons e es)
    obtain p c where e: "e = (p, c)"
      by (cases e)
    have c: "client_at d p = Some c"
      using Cons e by (simp add: client_at_def)
    then have "installing c \<longrightarrow> calm p d"
      using Suc.prems(2) by (auto simp: one_install_def)
    then obtain d1 y where d1: "Daemon_handle_end p 116 d = Some d1" "daemon_okx y d1" "d_clients d1 = map_erase p (d_clients d)"
      using handle_end_any [OF Suc.prems(1) c] by blast
    have "one_install d1"
      using Suc.prems(2) jobs_known_erase unfolding one_install_def calm_def erase_client_at [OF d1(3)] d1(3) by (auto split: if_splits)
    moreover have "length (d_clients d1) \<le> n"
      using map_erase_less [of p "d_clients d"] Suc.prems(3) unfolding d1(3) by (simp add: Cons e)
    ultimately show ?thesis
      using Suc.IH [OF d1(2)] d1(1) Cons e by simp
  qed
qed auto

lemma clear_children_total:
  assumes "daemon_ok d" and "one_install d"
  shows "\<exists>d'. Daemon_clear_children d = Some d' \<and> daemon_ok d' \<and> d_clients d' = [] \<and> d_fd2client d' = [] \<and> d_active_processes d' = 0 \<and> d_current_kids d' = 0"
proof -
  obtain d1 y where d1: "end_all_clients (length (d_clients d)) d = Some d1" "daemon_okx y d1" "d_clients d1 = []"
    using end_all_clients_total [OF assms] by blast
  have f: "d_fd2client d1 = []" "d_active_processes d1 = 0"
    using d1(2,3) by (simp_all add: daemon_okx_def table_okx_def fds_ok_def slots_ok_def)
  let ?d = "d1\<lparr>d_current_kids := 0, d_fd2client := [], d_new_client_id := 0\<rparr>"
  have "daemon_ok ?d"
    using d1 f by (simp add: daemon_okx_def table_okx_def fds_ok_def slots_ok_def ids_ok_def forks_ok_def cache_ok_def cache_sum_def)
  then show ?thesis
    using d1 f by (simp add: Daemon_clear_children_def)
qed

lemma reconnect_total:
  assumes "daemon_ok d"
  shows "\<exists>r d'. Daemon_reconnect found node d = Some (r, d') \<and> daemon_ok d'"
proof -
  have "daemon_ok (d\<lparr>d_scheduler := Some ch, d_discover := False, d_remote_name := me, d_current_load := -1000,
                          d_last_stat := d_timeofday d, d_icecream_load := 0, d_nodename := node\<rparr>)" for ch me
    using daemon_ok_quiet [OF _ assms] by (simp add: quiet_defs)
  moreover have "daemon_ok (d\<lparr>d_discover := True\<rparr>)"
    using daemon_ok_quiet [OF _ assms] by (simp add: quiet_defs)
  ultimately show ?thesis
    using assms scheduler_ok [OF _ daemon_msg_plain(1)] unfolding Daemon_reconnect_def Let_def
    by (auto split: option.split) metis+
qed

end
