(* ===== verification/DaemonReach.thy ===== *)
theory DaemonReach
  imports DaemonRequests
begin

text \<open>
  The daemon as a state machine: the events of its main loop, the states they reach, and what holds in all of them; then the
  places where the code does not do what it means to.
\<close>

section \<open>Events\<close>

text \<open>The main loop after \<open>create_env_finished\<close>: an environment that was not made is forgotten.\<close>

definition Daemon_env_event :: "string \<Rightarrow> daemon \<Rightarrow> daemon option" where
  "Daemon_env_event env_key d = do {
     (ok, d1) \<leftarrow> Daemon_create_env_finished env_key d;
     Some (if ok then d1 else d1\<lparr>d_native := map_erase env_key (d_native d1)\<rparr>)
   }"

text \<open>What the system may change between two events: its answers to come, and the clock.\<close>

definition world :: "daemon \<Rightarrow> daemon \<Rightarrow> bool" where
  "world d d' \<longleftrightarrow> quiet (d\<lparr>d_install_forks := d_install_forks d', d_compile_forks := d_compile_forks d'\<rparr>) d' \<and> forks_ok d'
     \<and> d_scheduler d' = d_scheduler d \<and> d_cache_size_limit d' = d_cache_size_limit d"

text \<open>A daemon that has just started.\<close>

definition dinit :: "daemon \<Rightarrow> bool" where
  "dinit d \<longleftrightarrow> d_clients d = [] \<and> d_fd2client d = [] \<and> d_active_processes d = 0 \<and> d_current_kids d = 0 \<and> d_new_client_id d = 0
     \<and> d_received d = [] \<and> d_native d = [] \<and> forks_ok d"

inductive dstep :: "daemon \<Rightarrow> daemon \<Rightarrow> bool" where
  accept: "accept_ok p fd d \<Longrightarrow> dstep d (Daemon_accept p ch fd d)"
| activity: "activity_ok p d \<Longrightarrow> Daemon_handle_activity p d = Some (r, d') \<Longrightarrow> dstep d d'"
| compiled: "client_at d p = Some c \<Longrightarrow> dc_status c = WAITFORCHILD \<Longrightarrow> Daemon_handle_compile_done p d = Some (r, d') \<Longrightarrow> dstep d d'"
| unpacked: "client_at d p = Some c \<Longrightarrow> installing c \<Longrightarrow> dc_child_pid c \<ge> 0 \<Longrightarrow> calm p d \<Longrightarrow> fits d \<Longrightarrow>
    Daemon_handle_env_install_child_done p d = Some (r, d') \<Longrightarrow> dstep d d'"
| made: "key \<noteq> '''' \<Longrightarrow> jobs_known (d_clients d) \<Longrightarrow> (case d_created d of Some (_, n) # _ \<Rightarrow> room_for n d | _ \<Rightarrow> True) \<Longrightarrow>
    Daemon_env_event key d = Some d' \<Longrightarrow> dstep d d'"
| hand_out: "Daemon_handle_old_request d = Some d' \<Longrightarrow> dstep d d'"
| stats: "Daemon_maybe_stats b d = Some (r, d') \<Longrightarrow> dstep d d'"
| scheduler: "sched_msg_ok m d \<Longrightarrow> Daemon_scheduler_msg m d = Some (r, d') \<Longrightarrow> dstep d d'"
| close: "dstep d (Daemon_close_scheduler d)"
| clear: "one_install d \<Longrightarrow> Daemon_clear_children d = Some d' \<Longrightarrow> dstep d d'"
| reconnect: "Daemon_reconnect found node d = Some (r, d') \<Longrightarrow> dstep d d'"
| world: "world d d' \<Longrightarrow> dstep d d'"

inductive dreach :: "daemon \<Rightarrow> bool" where
  start: "dinit d \<Longrightarrow> dreach d"
| next_step: "dreach d \<Longrightarrow> dstep d d' \<Longrightarrow> dreach d'"

lemma dinit_ok: "dinit d \<Longrightarrow> daemon_ok d"
  by (simp add: dinit_def daemon_okx_def table_okx_def slots_ok_def fds_ok_def ids_ok_def cache_ok_def cache_sum_def)

lemma world_ok:
  assumes "daemon_ok d" and "world d d'"
  shows "daemon_ok d'"
proof -
  have "daemon_ok (d\<lparr>d_install_forks := d_install_forks d', d_compile_forks := d_compile_forks d'\<rparr>)"
    using assms by (simp add: world_def daemon_okx_def table_okx_def slots_ok_def slots_def fds_ok_def ids_ok_def forks_ok_def cache_ok_def cache_sum_def)
  then show ?thesis
    using assms(2) daemon_ok_quiet by (auto simp: world_def)
qed

lemma native_erase_ok: "daemon_ok d \<Longrightarrow> daemon_ok (d\<lparr>d_native := map_erase k (d_native d)\<rparr>)"
  using sum_map_erase [of "unat \<circ> ne_size" k "d_native d"]
  by (simp add: daemon_okx_def table_okx_def slots_ok_def slots_def fds_ok_def ids_ok_def forks_ok_def cache_ok_def cache_sum_def smap.sorted_map_erase)

lemma env_event_ok:
  assumes "daemon_ok d" and "key \<noteq> ''''" and "jobs_known (d_clients d)" and "case d_created d of Some (_, n) # _ \<Rightarrow> room_for n d | _ \<Rightarrow> True"
    and "Daemon_env_event key d = Some d'"
  shows "daemon_ok d'"
proof -
  obtain ok d1 where d1: "Daemon_create_env_finished key d = Some (ok, d1)" "d' = (if ok then d1 else d1\<lparr>d_native := map_erase key (d_native d1)\<rparr>)"
    using assms(5) by (auto simp: Daemon_env_event_def Option.bind_eq_Some_conv)
  then show ?thesis
    using create_env_finished_ok [OF assms(1,2) d1(1) assms(4,3)] native_erase_ok by simp
qed

lemma dstep_ok: "dstep d d' \<Longrightarrow> daemon_ok d \<Longrightarrow> daemon_ok d'"
proof (induction rule: dstep.induct)
  case (activity p d r d')
  then show ?case
    using handle_activity_total by fastforce
next
  case (compiled d p c r d')
  then show ?case
    using handle_compile_done_total by fastforce
next
  case (unpacked d p c r d')
  then show ?case
    using handle_env_install_child_done_total by fastforce
next
  case (made key d d')
  then show ?case
    using env_event_ok by blast
next
  case (hand_out d d')
  then show ?case
    using handle_old_request_total by fastforce
next
  case (stats b d r d')
  then show ?case
    using maybe_stats_total [of b d] daemon_ok_quiet by fastforce
next
  case (scheduler m d r d')
  then show ?case
    using scheduler_msg_total by fastforce
next
  case (close d)
  then show ?case
    using daemon_ok_quiet close_scheduler_quiet by blast
next
  case (clear d d')
  then show ?case
    using clear_children_total by fastforce
next
  case (reconnect found node d r d')
  then show ?case
    using reconnect_total [of d found node] by fastforce
qed (use accept_total world_ok in blast)+

lemma dreach_ok: "dreach d \<Longrightarrow> daemon_ok d"
  by (induction rule: dreach.induct) (auto intro: dinit_ok dstep_ok)

section \<open>What holds in every state\<close>

text \<open>
  C8. In every state that the daemon reaches while the following holds, \<open>active_processes\<close> is exactly the number of slots that the clients at
  work hold (all of them for a full job), \<open>current_kids\<close> is exactly the number of children that compile or unpack, each client is
  known under its own descriptor and its own id, every client has what its state needs (a job, an answer, pipes, a
  child), and the size of the cache is at least the sum of the sizes of the environments in it. What has to hold: each client sends only
  what its state allows (\<^const>\<open>request_ok\<close>), the scheduler answers only clients that wait for an answer (\<^const>\<open>answer_ok\<close>), at most one environment
  is being installed when one is finished or given up (\<^const>\<open>calm\<close>, \<^const>\<open>jobs_known\<close>), and the size of the cache does not overflow (\<^const>\<open>fits\<close>,
  \<^const>\<open>room_for\<close>). What happens otherwise is the subject of \<open>late_answer_leaks_slot\<close>.
\<close>

theorem daemon_consistent:
  assumes "dreach d"
  shows "d_active_processes d = total (weight (slots d)) (d_clients d) \<and> d_current_kids d = of_nat (total kid (d_clients d))
    \<and> fds_ok d \<and> ids_ok d \<and> (\<forall>e \<in> set (d_clients d). client_ok (snd e)) \<and> cache_sum d \<le> unat (d_cache_size d)"
  using dreach_ok [OF assms] by (simp add: daemon_okx_def table_okx_def slots_ok_def cache_ok_def)

text \<open>
  C9. Whatever a client sends next, among the messages it may send in its state, or if it is gone, \<open>handle_activity\<close>
  fails no assertion, follows no null pointer and uses no deleted client, and leaves a consistent state. When the client transfers an
  environment, or is about to, this is so if no other client is installing one (\<^const>\<open>calm\<close>) and its size does not make the size of the
  cache overflow (\<^const>\<open>fits\<close>).
\<close>

theorem client_activity_safe:
  assumes "daemon_ok d" and "activity_ok p d"
  shows "\<exists>r d'. Daemon_handle_activity p d = Some (r, d') \<and> daemon_ok d'"
  using handle_activity_total [OF assms] .

text \<open>The search for a client finds none exactly when there is none with the status and a niceness below \<open>2\<^sup>3\<^sup>2 - 1\<close>.\<close>

lemma earliest_loop_found: "earliest_loop s (Some p) i n cs \<noteq> None"
proof (induction cs arbitrary: p i n)
  case (Cons e cs)
  then show ?case
    by (cases e) simp
qed simp

lemma get_earliest_client_None:
  "get_earliest_client s d = None \<longleftrightarrow> (\<forall>(p, c)\<in>set (d_clients d). dc_status c = s \<longrightarrow> \<not> dc_niceness c < 2 ^ 32 - 1)"
proof -
  have "earliest_loop s None 0 (2 ^ 32 - 1) cs = None \<longleftrightarrow> (\<forall>(p, c)\<in>set cs. dc_status c = s \<longrightarrow> \<not> dc_niceness c < 2 ^ 32 - 1)" for cs
  proof (induction cs)
    case (Cons e cs)
    obtain p c where e: "e = (p, c)"
      by (cases e)
    show ?case
    proof (cases "dc_status c = s \<and> dc_niceness c < 2 ^ 32 - 1")
      case True
      then have "earliest_loop s None 0 (2 ^ 32 - 1) (e # cs) \<noteq> None"
        using earliest_loop_found by (simp add: e)
      with True show ?thesis
        by (auto simp: e)
    next
      case False
      then have "earliest_loop s None 0 (2 ^ 32 - 1) (e # cs) = earliest_loop s None 0 (2 ^ 32 - 1) cs"
        by (auto simp: e)
      with Cons.IH False show ?thesis
        by (auto simp: e)
    qed
  qed simp
  then show ?thesis
    by (simp only: get_earliest_client_def)
qed

text \<open>
  C10. \<open>handle_old_request\<close> ends, and only when no slot is free, when the scheduler is gone, or when no client waits for a slot: none links,
  none has an answer of the scheduler for this machine, and none has a job from another machine unless the load is too high. Clients of the highest
  niceness, \<open>2\<^sup>3\<^sup>2 - 1\<close>, do not count: the search never finds them.
\<close>

theorem slots_handed_out:
  assumes "daemon_ok d"
  shows "\<exists>d'. Daemon_handle_old_request d = Some d' \<and> daemon_ok d' \<and>
    (\<not> d_current_kids d' + d_active_processes d' < slots d' \<or> d_scheduler d' = None
     \<or> (\<forall>(p, c)\<in>set (d_clients d'). dc_niceness c < 2 ^ 32 - 1 \<longrightarrow>
          dc_status c \<noteq> LINKJOB \<and> dc_status c \<noteq> PENDING_USE_CS \<and> (dc_status c = TOCOMPILE \<longrightarrow> d_current_load d' \<ge> 1000)))"
proof -
  obtain d' where d': "Daemon_handle_old_request d = Some d'" "daemon_ok d'" "served d'"
    using handle_old_request_total [OF assms] by blast
  from d'(3) have "\<not> d_current_kids d' + d_active_processes d' < slots d' \<or> d_scheduler d' = None
     \<or> (\<forall>(p, c)\<in>set (d_clients d'). dc_niceness c < 2 ^ 32 - 1 \<longrightarrow>
          dc_status c \<noteq> LINKJOB \<and> dc_status c \<noteq> PENDING_USE_CS \<and> (dc_status c = TOCOMPILE \<longrightarrow> d_current_load d' \<ge> 1000))"
    unfolding served_def get_earliest_client_None by fastforce
  with d'(1,2) show ?thesis
    by blast
qed

text \<open>
  When the scheduler is lost, \<open>clear_children\<close> ends every client, whatever its state, and leaves no client, no descriptor, no slot and
  no child behind, if at most one environment is being installed.
\<close>

theorem clear_children_resets:
  assumes "daemon_ok d" and "one_install d"
  shows "\<exists>d'. Daemon_clear_children d = Some d' \<and> daemon_ok d' \<and> d_clients d' = [] \<and> d_fd2client d' = []
    \<and> d_active_processes d' = 0 \<and> d_current_kids d' = 0"
  using clear_children_total [OF assms] .


section \<open>Where the code goes wrong\<close>

lemma earliest_loop_kept: "\<forall>e \<in> set cs. dc_status (snd e) = s \<longrightarrow> dc_niceness (snd e) = n \<Longrightarrow> earliest_loop s (Some p) i n cs = Some p"
  by (induction cs) auto

lemma earliest_loop_first:
  assumes "\<forall>e \<in> set cs. dc_status (snd e) = s \<longrightarrow> dc_niceness (snd e) = n" and "n < 2 ^ 32 - 1"
  shows "earliest_loop s None 0 (2 ^ 32 - 1) cs = map_option fst (find (\<lambda>e. dc_status (snd e) = s) cs)"
  using assms by (induction cs) (auto simp: earliest_loop_kept)

text \<open>
  \<open>get_earliest_client\<close> does not find the earliest client: among clients of the same niceness it takes the one whose channel has the lowest
  address, whatever their ids are, since a later client of the list replaces it only if its niceness is smaller, too.
\<close>

theorem earliest_by_address:
  assumes "\<forall>e \<in> set (d_clients d). dc_status (snd e) = s \<longrightarrow> dc_niceness (snd e) = n" and "n < 2 ^ 32 - 1"
  shows "get_earliest_client s d = map_option fst (find (\<lambda>e. dc_status (snd e) = s) (d_clients d))"
  unfolding get_earliest_client_def by (rule earliest_loop_first [OF assms])

text \<open>
  C33. An answer of the scheduler for a client that is already at work leaks its slot: when several servers were asked for and an answer naming
  another machine comes after the client has got a single slot here, the client no longer counts, so that one slot too many is
  counted as used; and when the client ends then, the slot is not given back: it is still counted when the client is gone.
\<close>

theorem late_answer_leaks_slot:
  assumes "daemon_ok d" and f: "find_by_client_id (sint (ucs_client_id m)) d = Some p" and c: "client_at d p = Some c"
    and w: "dc_status c = CLIENTWORK" "\<not> dc_fulljob c" and host: "ucs_hostname m \<noteq> d_remote_name d"
    and r: "Daemon_scheduler_use_cs m d = Some (r, d')" and here: "client_at d' p \<noteq> None"
  shows "d_active_processes d' = total (weight (slots d')) (d_clients d') + 1
    \<and> (\<forall>e. \<exists>d''. Daemon_handle_end p e d' = Some d'' \<and> client_at d'' p = None
         \<and> d_active_processes d'' = total (weight (slots d'')) (d_clients d'') + 1)"
proof -
  define u where "u = UseCSMsg_make (ucs_host_platform m) (ucs_hostname m) (ucs_port m) (ucs_job_id m) True 1 (ucs_matched_job_id m)"
  let ?c1 = "c\<lparr>dc_usecsmsg := Some u\<rparr>"
  have ok: "client_ok c" "slots_ok 0 d" "distinct (map fst (d_clients d))"
    using assms(1) client_here [OF assms(1) c] table_distinct by (auto simp: daemon_okx_def table_okx_def pmap.sorted_map_distinct)
  have "client_ok ?c1" "weight n ?c1 = weight n c" "kid ?c1 = kid c" for n
    using ok(1) w(1) by (simp_all add: client_ok_def installing_def idle_def weight_def kid_def)
  then obtain d1 where d1: "upd_client p (\<lambda>c. c\<lparr>dc_usecsmsg := Some u\<rparr>) d = Some d1" "daemon_ok d1" "client_at d1 p = Some ?c1"
      "d1 = d\<lparr>d_clients := set_at p ?c1 (d_clients d)\<rparr>"
    using daemon_ok_upd [OF assms(1) c, of "\<lambda>c. c\<lparr>dc_usecsmsg := Some u\<rparr>"] by auto
  obtain sent ch d2 where d2: "send_client p (UseCSMsg m) d1 = Some (sent, d2)" "daemon_ok d2" "client_at d2 p = Some (?c1\<lparr>dc_channel := ch\<rparr>)"
      "d2 = d1\<lparr>d_clients := set_at p (?c1\<lparr>dc_channel := ch\<rparr>) (d_clients d1)\<rparr>"
    using send_client_total [OF d1(2,3), of "UseCSMsg m"] by auto
  let ?c = "?c1\<lparr>dc_channel := ch, dc_status := WAITCOMPILE, dc_job_id := ucs_job_id m\<rparr>"
  obtain d3 where d3: "Daemon_handle_end p 143 d2 = Some d3" "d_clients d3 = map_erase p (d_clients d2)"
    using handle_end_total [OF d2(2,3), of 143] w(1) by (auto simp: installing_def)
  have h: "Daemon_scheduler_use_cs m d = (if \<not> sent then map_option (Pair False) (Daemon_handle_end p 143 d2)
      else map_option (Pair False) (upd_client p (\<lambda>c. c\<lparr>dc_status := WAITCOMPILE, dc_job_id := ucs_job_id m\<rparr>) d2))"
    using f host d1(1) d2(1) by (simp add: Daemon_scheduler_use_cs_def u_def map_option_case Option.bind_def split: option.splits)
  have sent
    using h r here d3(1) erase_client_at [OF d3(2), of p] by (cases sent) auto
  moreover have "upd_client p (\<lambda>c. c\<lparr>dc_status := WAITCOMPILE, dc_job_id := ucs_job_id m\<rparr>) d2 = Some (d\<lparr>d_clients := set_at p ?c (d_clients d)\<rparr>)"
    using upd_client_put [OF d2(3), of "\<lambda>c. c\<lparr>dc_status := WAITCOMPILE, dc_job_id := ucs_job_id m\<rparr>"] ok(3) by (simp add: d2(4) d1(4))
  ultimately have d': "d' = d\<lparr>d_clients := set_at p ?c (d_clients d)\<rparr>"
    using h r by simp
  have "weight (slots d) c = 1" "weight (slots d) ?c = 0"
    using w by (simp_all add: weight_def)
  then have leak: "d_active_processes d' = total (weight (slots d')) (d_clients d') + 1"
    using total_set_at [OF ok(3) c [unfolded client_at_def], of "weight (slots d)" ?c] ok(2) by (simp add: d' slots_ok_def slots_def)
  have here': "client_at d' p = Some ?c"
    using c by (simp add: d' client_at_def map_of_set_at)
  have "ends_well ?c" "\<not> installing ?c"
    using client_ends_well [OF ok(1)] by (simp_all add: ends_well_def idle_def installing_def)
  have "\<exists>d''. Daemon_handle_end p e d' = Some d'' \<and> client_at d'' p = None
         \<and> d_active_processes d'' = total (weight (slots d'')) (d_clients d'') + 1" for e
  proof -
    obtain d'' where d'': "Daemon_handle_end p e d' = Some d''"
        "gone p (dc_fd ?c) (d_active_processes d' - weight (slots d') ?c) (d_current_kids d') d' d''"
      using handle_end_plain [OF here' \<open>\<not> installing ?c\<close> \<open>ends_well ?c\<close>, of e] by blast
    have g: "d_clients d'' = map_erase p (d_clients d')" "d_active_processes d'' = d_active_processes d'" "slots d'' = slots d'"
      using d''(2) by (simp_all add: gone_def keeps_def weight_def slots_def)
    have "distinct (map fst (d_clients d'))"
      using ok(3) by (simp add: d' map_fst_set_at)
    from total_erase [OF this here' [unfolded client_at_def], of "weight (slots d')"] have "total (weight (slots d'')) (d_clients d'') = total (weight (slots d')) (d_clients d')"
      by (simp add: g weight_def)
    then show ?thesis
      using d''(1) leak g erase_client_at [OF g(1), of p] by (intro exI [of _ d'']) simp
  qed
  with leak show ?thesis
    by blast
qed

text \<open>
  C32. When a compiler has changed since its environment was made, \<open>handle_get_native_env\<close> removes the file of the old environment, but not
  its entry: \<open>remove_native_environment\<close> is given the name instead of the key. So the client is told to use the file that was just removed.
\<close>

theorem stale_environment_served:
  assumes "daemon_ok d" and c: "client_at d p = Some c" and "fresh c"
    and cc: "get_c_compiler (d_asserts d) (asked_compiler c m) = Some cc" "get_cpp_compiler (d_asserts d) (asked_compiler c m) = Some cpp"
    and t: "d_mtime d cc = Some t" and x: "gne_extrafiles m = []" and key: "key = gne_compression m @ '':'' @ cc"
    and e: "map_of (d_native d) key = Some e" "ne_name e \<noteq> ''''" "map_of (d_native d) (ne_name e) = None" "d_mtime d (ne_name e) \<noteq> None"
    and stale: "ne_filetimes e \<noteq> (case d_mtime d cpp of None \<Rightarrow> map_put string_less cc t [] | Some t' \<Rightarrow> map_put string_less cpp t' (map_put string_less cc t []))"
  shows "\<exists>d'. Daemon_handle_get_native_env p m d = Daemon_finish_get_native_env p key d' \<and> ne_name (native_at key d') = ne_name e
    \<and> ne_name e \<in> set (d_unlinked d')"
proof -
  have S: "sorted_map string_less (d_native d)" "distinct (map fst (d_clients d))"
    using assms(1) table_distinct by (auto simp: daemon_okx_def cache_ok_def)
  let ?f = "\<lambda>c. c\<lparr>dc_status := WAITCREATEENV, dc_pending_create_env := key\<rparr>"
  define d1 where "d1 = native_put key id d"
  have ek: "native_at key d = e" "ne_name e \<noteq> key"
    using e by (auto simp: native_at_def)
  have d1: "map_of (d_native d1) = map_of (d_native d)" "native_at key d1 = e" "d_clients d1 = d_clients d" "d_mtime d1 = d_mtime d" "d_asserts d1 = d_asserts d"
    "sorted_map string_less (d_native d1)"
    using e(1) S(1) by (auto simp: d1_def native_put_def native_at_def smap.map_of_put smap.sorted_map_put)
  define d2 where "d2 = d1\<lparr>d_unlinked := d_unlinked d1 @ [ne_name e], d_cache_size := d_cache_size d1 - 0, d_native := map_erase (ne_name e) (d_native d1)\<rparr>"
  have rm: "Daemon_remove_native_environment (ne_name e) d1 = Some d2"
    using e d1 by (simp add: Daemon_remove_native_environment_def remove_native_environment_files_def Let_def d2_def)
  have d2: "sorted_map string_less (d_native d2)" "map_of (d_native d2) key = Some e" "d_clients d2 = d_clients d" "ne_name e \<in> set (d_unlinked d2)"
    using d1 e(1) ek(2) by (simp_all add: d2_def map_of_erase smap.sorted_map_erase)
  define d3 where "d3 = (native_put key id d2)\<lparr>d_clients := set_at p (?f c) (d_clients d)\<rparr>"
  have u: "upd_client p ?f (native_put key id d2) = Some d3"
    using c S(2) d2(3) by (subst upd_client_put [of _ _ c]) (simp_all add: d3_def native_put_def client_at_def)
  have d3: "native_at key d3 = e" "ne_name e \<in> set (d_unlinked d3)"
    using d2 by (simp_all add: d3_def native_put_def native_at_def smap.map_of_put)
  have k: "gne_compression m @ '':'' @ cc @ concat (map (\<lambda>f. '':'' @ f) []) = key"
    by (simp add: key)
  have "Daemon_handle_get_native_env p m d = Daemon_finish_get_native_env p key d3"
    using stale e(2) unfolding Daemon_handle_get_native_env_def c bind_simps Let_def asked_compiler_def [symmetric] cc t x k d1_def [symmetric]
    by (simp add: d1 rm u d3 split: option.splits)
  then show ?thesis
    using d3 by auto
qed

lemma send_scheduler_removed: "Daemon_send_scheduler m d = Some (ok, d') \<Longrightarrow> d_removed_dirs d' = d_removed_dirs d"
  by (auto simp: Daemon_send_scheduler_def Daemon_close_scheduler_def Let_def Option.bind_eq_Some_conv split: option.splits if_splits)

lemma handle_end_removed:
  assumes "client_at d p = Some c" and "\<not> installing c" and "Daemon_handle_end p e d = Some d'"
  shows "d_removed_dirs d' = d_removed_dirs d"
proof -
  have r: "d_removed_dirs (release_slot c s) = d_removed_dirs s" for s
    by (simp add: release_slot_def)
  show ?thesis
    using assms by (auto simp: Daemon_handle_end_def Let_def client_at_def r Option.bind_eq_Some_conv split: if_splits option.splits dest!: send_scheduler_removed)
qed

text \<open>
  The name of an environment is checked only before its directory is made. A name that is refused, for instance for the slashes
  in it, is handed to \<open>rm -rf\<close> unchecked, so that a client can have any directory removed that the daemon may write to.
\<close>

theorem refused_name_is_removed:
  assumes "daemon_ok d" and c: "client_at d p = Some c" "dc_status c = UNKNOWN_STATUS" and "\<not> legal_env_name (et_name m)"
  shows "\<exists>d'. Daemon_handle_transfer_env p m d = Some (False, d') \<and>
    d_removed_dirs d' = d_removed_dirs d @ [d_envbasedir d @ ''/target='' @ (if et_target m = '''' then d_machine_name d else et_target m) @ ''/'' @ et_name m]"
proof -
  define env where "env = (if et_target m = '''' then d_machine_name d else et_target m) @ ''/'' @ et_name m"
  define d1 where "d1 = remove_environment_files env d"
  have ok: "client_ok c" "\<not> installing c" "dc_status c \<noteq> WAITFORCHILD"
    using client_here [OF assms(1) c(1)] c(2) by (simp_all add: installing_def)
  have d1: "daemon_ok d1" "client_at d1 p = Some c" "d_removed_dirs d1 = d_removed_dirs d @ [d_envbasedir d @ ''/target='' @ env]"
    using daemon_ok_quiet [OF _ assms(1), of d1] c(1) by (simp_all add: d1_def remove_environment_files_def quiet_defs client_at_def)
  obtain d' where d': "Daemon_handle_end p 144 d1 = Some d'"
    using handle_end_total [OF d1(1,2) ok(3)] ok(2) by blast
  have g: "(d_asserts d \<and> (dc_status c \<in> {TOINSTALL, WAITINSTALL, TOCOMPILE, WAITCOMPILE} \<or> dc_pipe_from_child c \<ge> 0 \<or> dc_pipe_to_child c \<ge> 0)) = False"
    using ok(1) c(2) by (simp add: client_ok_def installing_def)
  have "start_install_environment p (et_name m) d = Some (None, d)"
    using assms(4) by (simp add: start_install_environment_def)
  then have "Daemon_handle_transfer_env p m d = Some (False, d')"
    unfolding Daemon_handle_transfer_env_def c(1) bind_simps g if_False Let_def env_def [symmetric] by (simp add: d' flip: d1_def)
  then show ?thesis
    using handle_end_removed [OF d1(2) ok(2) d'] d1(3) by (simp add: env_def)
qed

text \<open>
  An environment that is still being made has never been used: its \<open>last_use\<close> is 0, more than a year ago, so it is the first to be
  removed, against the comment in \<open>check_cache_size\<close>.
\<close>

lemma environment_in_progress_goes:
  assumes "ne_create_env_pipe e \<noteq> 0" and "ne_name e = ''''" and "ne_last_use e = 0" and "d_now d > 365 * 24 * 60 * 60" and "t > 0"
  shows "oldest_native d t '''' [(k, e)] = k"
  using assms by (simp add: Let_def)

section \<open>Examples\<close>

definition demo_daemon :: "(client_ptr \<times> dclient) list \<Rightarrow> daemon" where
  "demo_daemon cs = \<lparr>d_clients = cs, d_active_processes = 0, d_received = [], d_native = [], d_envbasedir = ''/e'', d_machine_name = ''x86_64'',
     d_nodename = ''n'', d_noremote = False, d_cache_size = 0, d_fd2client = map (\<lambda>e. (dc_fd (snd e), fst e)) cs, d_new_client_id = 9,
     d_remote_name = ''me'', d_next_scheduler_connect = 0, d_icecream_load = 0, d_icecream_usage = (0, 0), d_current_load = 0, d_num_cpus = 4,
     d_scheduler = None, d_discover = False, d_daemon_port = 10245, d_supported_features = 0, d_max_scheduler_pong = 3, d_max_scheduler_ping = 36,
     d_current_kids = 0, d_max_kids = 2, d_cache_size_limit = 100, d_mem_limit = 100, d_last_stat = (0, 0), d_asserts = True, d_libs = demo_libs,
     d_now = 100000000, d_timeofday = (0, 0), d_randoms = [], d_fast_reconnect = False, d_mtime = (\<lambda>_. Some 7), d_access = (\<lambda>_. True), d_readable = (\<lambda>_. True),
     d_install_forks = [], d_compile_forks = [], d_create_forks = [], d_created = [], d_installed_sizes = [], d_install_results = [], d_job_stats = [],
     d_pipe_writes = [], d_verify_results = [], d_available = [], d_samples = [], d_dump = '''', d_chroot_possible = True,
     d_removed_dirs = [], d_unlinked = []\<rparr>"

definition demo_client :: "status \<Rightarrow> int \<Rightarrow> dclient" where
  "demo_client s i = (Client_new (demo_chan 45 []) i)\<lparr>dc_status := s, dc_client_id := i\<rparr>"

lemma demo_client_simps [simp]:
  "dc_status (demo_client s i) = s" "dc_client_id (demo_client s i) = i" "dc_fd (demo_client s i) = i" "dc_fulljob (demo_client s i) = False"
  "dc_job_id (demo_client s i) = 0" "dc_usecsmsg (demo_client s i) = None" "dc_job (demo_client s i) = None" "dc_niceness (demo_client s i) = 0"
  "dc_pipe_from_child (demo_client s i) = -1" "dc_pipe_to_child (demo_client s i) = -1" "dc_child_pid (demo_client s i) = -1"
  "dc_pending_create_env (demo_client s i) = ''''" "dc_channel (demo_client s i) = demo_chan 45 []"
  by (simp_all add: demo_client_def Client_new_def)

lemma demo_client_ok: "i > 0 \<Longrightarrow> s \<in> {UNKNOWN_STATUS, GOTNATIVE, JOBDONE, LINKJOB, WAITFORCS, CLIENTWORK, WAITCOMPILE} \<Longrightarrow> client_ok (demo_client s i)"
  by (auto simp: client_ok_def installing_def idle_def)

lemma demo_daemon_simps [simp]:
  "d_clients (demo_daemon cs) = cs" "d_fd2client (demo_daemon cs) = map (\<lambda>e. (dc_fd (snd e), fst e)) cs" "d_active_processes (demo_daemon cs) = 0"
  "d_current_kids (demo_daemon cs) = 0" "d_max_kids (demo_daemon cs) = 2" "d_new_client_id (demo_daemon cs) = 9" "d_received (demo_daemon cs) = []"
  "d_native (demo_daemon cs) = []" "d_cache_size (demo_daemon cs) = 0" "d_install_forks (demo_daemon cs) = []" "d_compile_forks (demo_daemon cs) = []"
  "d_scheduler (demo_daemon cs) = None" "d_asserts (demo_daemon cs) = True" "d_libs (demo_daemon cs) = demo_libs"
  by (simp_all add: demo_daemon_def)

lemma demo_idle_ok:
  assumes "s \<in> {UNKNOWN_STATUS, GOTNATIVE, JOBDONE, LINKJOB, WAITFORCS}" and "s' \<in> {UNKNOWN_STATUS, GOTNATIVE, JOBDONE, LINKJOB, WAITFORCS}"
  shows "daemon_ok (demo_daemon [(1, demo_client s 4), (2, demo_client s' 3)])"
  using assms demo_client_ok [of 4 s] demo_client_ok [of 3 s']
  by (auto simp: daemon_okx_def table_okx_def sorted_map_def slots_ok_def weight_def kid_def installing_def fds_ok_def ids_ok_def forks_ok_def
    cache_ok_def cache_sum_def)

theorem daemon_consistent_witness:
  "d_active_processes (Daemon_accept 1 (demo_chan 45 []) 4 ((demo_daemon [])\<lparr>d_new_client_id := 0\<rparr>)) = 0 \<and>
   fds_ok (Daemon_accept 1 (demo_chan 45 []) 4 ((demo_daemon [])\<lparr>d_new_client_id := 0\<rparr>))"
proof -
  let ?d = "(demo_daemon [])\<lparr>d_new_client_id := 0\<rparr>"
  have "dinit ?d" "accept_ok 1 4 ?d"
    by (simp_all add: dinit_def accept_ok_def forks_ok_def)
  then have "dreach (Daemon_accept 1 (demo_chan 45 []) 4 ?d)"
    by (blast intro: dreach.intros dstep.intros)
  from daemon_consistent [OF this] show ?thesis
    by (simp add: Daemon_accept_def)
qed

theorem client_activity_safe_witness:
  "\<exists>r d'. Daemon_handle_activity 1 (demo_daemon [(1, demo_client GOTNATIVE 4), (2, demo_client LINKJOB 3)]) = Some (r, d') \<and> daemon_ok d'"
proof -
  let ?d = "demo_daemon [(1, demo_client GOTNATIVE 4), (2, demo_client LINKJOB 3)]"
  have "next_msg (demo_client GOTNATIVE 4) ?d = None"
    unfolding next_msg_def by simp code_simp
  then have "activity_ok 1 ?d"
    by (simp add: activity_ok_def client_at_def talks_def installing_def)
  then show ?thesis
    using client_activity_safe [of ?d 1] demo_idle_ok [of GOTNATIVE LINKJOB] by simp
qed

theorem slots_handed_out_witness:
  "\<exists>d'. Daemon_handle_old_request (demo_daemon [(1, demo_client LINKJOB 4), (2, demo_client LINKJOB 3)]) = Some d' \<and> daemon_ok d'"
  using slots_handed_out [of "demo_daemon [(1, demo_client LINKJOB 4), (2, demo_client LINKJOB 3)]"] demo_idle_ok [of LINKJOB LINKJOB] by blast

theorem clear_children_resets_witness:
  "\<exists>d'. Daemon_clear_children (demo_daemon [(1, demo_client GOTNATIVE 4), (2, demo_client LINKJOB 3)]) = Some d' \<and> d_clients d' = []"
proof -
  let ?d = "demo_daemon [(1, demo_client GOTNATIVE 4), (2, demo_client LINKJOB 3)]"
  have "one_install ?d"
    by (auto simp: one_install_def client_at_def installing_def split: if_splits)
  then show ?thesis
    using clear_children_resets [of ?d] demo_idle_ok [of GOTNATIVE LINKJOB] by blast
qed


text \<open>Two clients wait for a slot; the one that came first has the higher address.\<close>

theorem earliest_by_address_witness:
  "get_earliest_client LINKJOB (demo_daemon [(1, demo_client LINKJOB 4), (2, demo_client LINKJOB 3)]) = Some 1"
  using earliest_by_address [of "demo_daemon [(1, demo_client LINKJOB 4), (2, demo_client LINKJOB 3)]" LINKJOB 0] by simp

text \<open>A client that works here gets a second answer, naming another machine.\<close>

definition demo_answer :: use_cs_msg where
  "demo_answer = UseCSMsg_make ''x86_64'' ''other'' 10245 8 True 4 0"

definition demo_worker :: daemon where
  "demo_worker = (demo_daemon [(1, demo_client CLIENTWORK 4)])\<lparr>d_active_processes := 1\<rparr>"

lemma demo_answer_sent: "\<exists>ch. send_msg demo_libs True False (UseCSMsg demo_answer) (demo_chan 45 []) = Some (True, ch)"
proof -
  have "\<forall>m \<in> set [UseCSMsg demo_answer]. sendable demo_libs 45 m"
    by (simp add: sendable_def demo_answer_def UseCSMsg_make_def wf_str_def body_def send_to_channel_def send_body_def is_TextMsg_def
      UseCSMsg_send_def put_string_def put_if_def)
  moreover have "k_snd (demo_chan 45 []) = []"
    by (simp add: demo_chan_def chan_init_def)
  ultimately obtain a where "send_all demo_libs [UseCSMsg demo_answer] (demo_chan 45 []) = Some a"
    using send_all_free [OF demo_idle _ demo_libs_ok, of "[UseCSMsg demo_answer]" 45 "[]"] by auto
  then show ?thesis
    by (auto split: option.splits prod.splits bool.splits)
qed

theorem late_answer_leaks_slot_witness:
  "\<exists>r d'. Daemon_scheduler_use_cs demo_answer demo_worker = Some (r, d') \<and> d_active_processes d' = total (weight (slots d')) (d_clients d') + 1"
proof -
  let ?c = "demo_client CLIENTWORK 4"
  have "client_ok ?c"
    using demo_client_ok [of 4 CLIENTWORK] by simp
  then have "daemon_ok demo_worker"
    by (simp add: demo_worker_def daemon_okx_def table_okx_def sorted_map_def slots_ok_def weight_def kid_def installing_def fds_ok_def
      ids_ok_def forks_ok_def cache_ok_def cache_sum_def slots_def)
  moreover have c: "client_at demo_worker 1 = Some ?c" "find_by_client_id (sint (ucs_client_id demo_answer)) demo_worker = Some 1"
    by (simp_all add: demo_worker_def client_at_def find_by_client_id_def demo_answer_def UseCSMsg_make_def)
  moreover have "ucs_hostname demo_answer \<noteq> d_remote_name demo_worker"
    by (simp add: demo_answer_def UseCSMsg_make_def demo_worker_def demo_daemon_def)
  moreover obtain r d' where "Daemon_scheduler_use_cs demo_answer demo_worker = Some (r, d')" "client_at d' 1 \<noteq> None"
  proof -
    obtain ch where "send_msg demo_libs True False (UseCSMsg demo_answer) (demo_chan 45 []) = Some (True, ch)"
      using demo_answer_sent by blast
    then have "\<exists>r d'. Daemon_scheduler_use_cs demo_answer demo_worker = Some (r, d') \<and> client_at d' 1 \<noteq> None"
      using c(2) \<open>ucs_hostname demo_answer \<noteq> d_remote_name demo_worker\<close>
      by (simp add: Daemon_scheduler_use_cs_def demo_worker_def upd_client_def send_client_def client_at_def)
    then show ?thesis
      using that by blast
  qed
  ultimately show ?thesis
    using late_answer_leaks_slot [of demo_worker demo_answer 1 ?c r d'] by auto
qed

text \<open>The compiler of a known environment has changed since.\<close>

definition demo_stale :: native_env where
  "demo_stale = NativeEnvironment_new\<lparr>ne_name := ''/e/native/h.tar.gz'', ne_filetimes := [(''/b/gcc'', 5)]\<rparr>"

theorem stale_environment_served_witness:
  "\<exists>d'. Daemon_handle_get_native_env 1 \<lparr>gne_compiler = ''/b/gcc'', gne_extrafiles = [], gne_compression = ''''\<rparr>
      ((demo_daemon [(1, demo_client UNKNOWN_STATUS 4)])\<lparr>d_native := [('':/b/gcc'', demo_stale)]\<rparr>)
    = Daemon_finish_get_native_env 1 '':/b/gcc'' d' \<and> ne_name (native_at '':/b/gcc'' d') = ''/e/native/h.tar.gz'' \<and> ''/e/native/h.tar.gz'' \<in> set (d_unlinked d')"
proof -
  let ?d = "(demo_daemon [(1, demo_client UNKNOWN_STATUS 4)])\<lparr>d_native := [('':/b/gcc'', demo_stale)]\<rparr>"
  let ?m = "\<lparr>gne_compiler = ''/b/gcc'', gne_extrafiles = [], gne_compression = ''''\<rparr>"
  have ok: "daemon_ok ?d"
    using demo_client_ok [of 4 UNKNOWN_STATUS]
    by (simp add: daemon_okx_def table_okx_def sorted_map_def slots_ok_def weight_def kid_def installing_def fds_ok_def ids_ok_def forks_ok_def
      cache_ok_def cache_sum_def demo_stale_def)
  have a: "asked_compiler (demo_client UNKNOWN_STATUS 4) ?m = ''/b/gcc''"
    by (simp add: asked_compiler_def demo_chan_def)
  have dbg: "d_asserts ?d = True"
    by simp
  have c: "get_c_compiler (d_asserts ?d) (asked_compiler (demo_client UNKNOWN_STATUS 4) ?m) = Some ''/b/gcc''"
    "get_cpp_compiler (d_asserts ?d) (asked_compiler (demo_client UNKNOWN_STATUS 4) ?m) = Some ''/b/g++''"
    unfolding a dbg by code_simp+
  have at: "client_at ?d 1 = Some (demo_client UNKNOWN_STATUS 4)"
    by (simp add: client_at_def)
  have n: "ne_name demo_stale = ''/e/native/h.tar.gz''" "ne_filetimes demo_stale = [(''/b/gcc'', 5)]"
    by (simp_all add: demo_stale_def)
  have f: "DaemonRequests.fresh (demo_client UNKNOWN_STATUS 4)"
    by (simp add: fresh_def)
  have m: "d_mtime ?d x = Some 7" for x
    by (simp add: demo_daemon_def)
  have e: "map_of (d_native ?d) '':/b/gcc'' = Some demo_stale" "map_of (d_native ?d) (ne_name demo_stale) = None" "ne_name demo_stale \<noteq> ''''"
    by (simp_all add: n)
  have k: "'':/b/gcc'' = gne_compression ?m @ '':'' @ ''/b/gcc''" "gne_extrafiles ?m = []"
    by simp_all
  have s: "ne_filetimes demo_stale \<noteq> (case d_mtime ?d ''/b/g++'' of None \<Rightarrow> map_put string_less ''/b/gcc'' 7 []
      | Some t' \<Rightarrow> map_put string_less ''/b/g++'' t' (map_put string_less ''/b/gcc'' 7 []))"
    unfolding m n by simp
  have "d_mtime ?d (ne_name demo_stale) \<noteq> None"
    unfolding m by simp
  from stale_environment_served [OF ok at f c m k(2,1) e(1,3,2) this s] show ?thesis
    unfolding n by blast
qed

theorem refused_name_is_removed_witness:
  "\<exists>d'. Daemon_handle_transfer_env 1 \<lparr>et_name = ''../../home'', et_target = ''x''\<rparr> (demo_daemon [(1, demo_client UNKNOWN_STATUS 4)]) = Some (False, d')
    \<and> d_removed_dirs d' = [''/e/target=x/../../home'']"
proof -
  let ?d = "demo_daemon [(1, demo_client UNKNOWN_STATUS 4)]"
  have "daemon_ok ?d"
    using demo_client_ok [of 4 UNKNOWN_STATUS]
    by (simp add: daemon_okx_def table_okx_def sorted_map_def slots_ok_def weight_def kid_def installing_def fds_ok_def ids_ok_def forks_ok_def
      cache_ok_def cache_sum_def)
  moreover have "client_at ?d 1 = Some (demo_client UNKNOWN_STATUS 4)"
    by (simp add: client_at_def)
  moreover have "\<not> legal_env_name ''../../home''"
    by code_simp
  ultimately show ?thesis
    using refused_name_is_removed [of ?d 1 "demo_client UNKNOWN_STATUS 4" "\<lparr>et_name = ''../../home'', et_target = ''x''\<rparr>"] by (simp add: demo_daemon_def)
qed

end
