(* ===== verification/DaemonLoop.thy ===== *)
theory DaemonLoop
  imports DaemonReach
begin

text \<open>
  What the daemon waits for: \<open>answer_client_requests\<close> of \<open>daemon/main.cpp\<close> up to its call of \<open>poll\<close>. The loop over the
  descriptors of the clients also handles a message that a client has sent already. An iterator whose element has been erased, and
  a client that has been deleted, are \<open>None\<close> when they are used.
\<close>

section \<open>The set of descriptors\<close>

text \<open>The descriptors for connections, the one of the scheduler, and the one of the search for a scheduler.\<close>

record loop_fds =
  lf_tcp :: int
  lf_tcp_local :: int
  lf_unix :: int
  lf_scheduler :: int
  lf_listen :: int
  lf_connect :: int

text \<open>Whether the socket of a client is waited for; the message that it has sent already is handled.\<close>

definition poll_socket :: "client_ptr \<Rightarrow> dclient \<Rightarrow> daemon \<Rightarrow> (bool \<times> daemon) option" where
  "poll_socket p c d =
     (if dc_status c = TOCOMPILE then Some (True, d)
      else if dc_status c = WAITFORCHILD \<or> dc_status c = WAITINSTALL then Some (False, d)
      else if \<not> has_msg (dc_channel c) then Some (True, d)
      else Daemon_handle_activity p d)"

text \<open>The pipe of the child. The state \<open>c\<close> is that of before, the pipe is read through the pointer.\<close>

definition poll_pipe :: "client_ptr \<Rightarrow> dclient \<Rightarrow> daemon \<Rightarrow> int list option" where
  "poll_pipe p c d =
     (if dc_status c = WAITFORCHILD \<or> dc_status c = TOINSTALL \<or> dc_status c = WAITINSTALL then
        map_option (\<lambda>c'. if dc_pipe_from_child c' \<noteq> -1 then [dc_pipe_from_child c'] else []) (client_at d p)
      else Some [])"

text \<open>
  The loop over \<open>fd2client\<close>, from the keys that are still to come: \<open>++it\<close> goes to the next of them that is there before the client is
  handled.
\<close>

definition there :: "daemon \<Rightarrow> int list \<Rightarrow> int list" where
  "there d is = dropWhile (\<lambda>j. j \<notin> fst ` set (d_fd2client d)) is"

lemma length_there: "length (there d is) \<le> length is"
  by (simp add: there_def length_dropWhile_le)

function poll_clients :: "int list \<Rightarrow> daemon \<Rightarrow> (int list \<times> daemon) option" where
  "poll_clients [] d = Some ([], d)"
| "poll_clients (i # is) d = do {
     p \<leftarrow> map_of (d_fd2client d) i;
     c \<leftarrow> client_at d p;
     (wait, d1) \<leftarrow> poll_socket p c d;
     pipes \<leftarrow> poll_pipe p c d1;
     (fds, d2) \<leftarrow> poll_clients (there d is) d1;
     Some ((if wait then [i] else []) @ pipes @ fds, d2)
   }"
  by pat_completeness auto

termination poll_clients
  by (relation "measure (\<lambda>(is, _). length is)") (use length_there in \<open>auto simp: less_Suc_eq_le\<close>)

definition poll_scheduler :: "loop_fds \<Rightarrow> daemon \<Rightarrow> int list" where
  "poll_scheduler f d =
     (if d_scheduler d \<noteq> None then [lf_scheduler f]
      else if d_discover d \<and> (lf_listen f \<ge> 0 \<or> lf_connect f \<ge> 0) then [if lf_listen f \<ge> 0 then lf_listen f else lf_connect f]
      else [])"

definition poll_natives :: "daemon \<Rightarrow> int list" where
  "poll_natives d = filter (\<lambda>fd. fd \<noteq> 0) (map (ne_create_env_pipe \<circ> snd) (d_native d))"

text \<open>The descriptors that are polled, after the slots have been handed out and the statistics have been sent.\<close>

definition Daemon_prepare_poll :: "loop_fds \<Rightarrow> daemon \<Rightarrow> (int list \<times> daemon) option" where
  "Daemon_prepare_poll f d = do {
     d1 \<leftarrow> Daemon_handle_old_request d;
     d2 \<leftarrow> (if d_scheduler d1 \<noteq> None then map_option snd (Daemon_maybe_stats False d1) else Some d1);
     (fds, d3) \<leftarrow> poll_clients (map fst (d_fd2client d2)) d2;
     Some ((if lf_tcp f \<noteq> -1 then [lf_tcp f] else []) @ (if lf_tcp_local f \<noteq> -1 then [lf_tcp_local f] else []) @ [lf_unix f]
       @ fds @ poll_scheduler f d3 @ poll_natives d3, d3)
   }"

section \<open>The loop without messages\<close>

text \<open>What is waited for because of a client that has sent nothing that is unread.\<close>

definition waited_fds :: "dclient \<Rightarrow> int list" where
  "waited_fds c =
     (if dc_status c = WAITFORCHILD \<or> dc_status c = WAITINSTALL then [] else [dc_fd c])
     @ (if (dc_status c = WAITFORCHILD \<or> dc_status c = TOINSTALL \<or> dc_status c = WAITINSTALL) \<and> dc_pipe_from_child c \<noteq> -1
        then [dc_pipe_from_child c] else [])"

lemma waits_somewhere: "client_ok c \<Longrightarrow> waited_fds c \<noteq> []"
  by (cases "dc_status c") (auto simp: waited_fds_def client_ok_def installing_def)

lemma there_id: "set is \<subseteq> fst ` set (d_fd2client d) \<Longrightarrow> there d is = is"
  by (cases "is") (auto simp: there_def)

definition quiet_client :: "dclient \<Rightarrow> bool" where
  "quiet_client c \<longleftrightarrow> \<not> has_msg (dc_channel c) \<or> dc_status c \<in> {TOCOMPILE, WAITFORCHILD, WAITINSTALL}"

lemma poll_clients_quiet:
  assumes "\<forall>i\<in>set is. \<exists>p c. map_of (d_fd2client d) i = Some p \<and> client_at d p = Some c \<and> dc_fd c = i \<and> quiet_client c"
  shows "poll_clients is d = Some (concat (map (\<lambda>i. waited_fds (the (client_at d (the (map_of (d_fd2client d) i))))) is), d)"
  using assms
proof (induction "is")
  case (Cons i "is")
  then obtain p c where c: "map_of (d_fd2client d) i = Some p" "client_at d p = Some c" "dc_fd c = i" "quiet_client c"
    by auto
  have "set is \<subseteq> fst ` set (d_fd2client d)"
    using Cons.prems by (fastforce dest: map_of_SomeD intro: rev_image_eqI)
  then have rest: "there d is = is"
    by (rule there_id)
  have "poll_socket p c d = Some (\<not> (dc_status c = WAITFORCHILD \<or> dc_status c = WAITINSTALL), d)"
    using c(4) by (auto simp: poll_socket_def quiet_client_def)
  then show ?case
    using Cons c rest by (simp add: poll_pipe_def waited_fds_def)
qed simp

lemma fd_of_client:
  assumes "daemon_ok d" and "(p, c) \<in> set (d_clients d)"
  shows "map_of (d_fd2client d) (dc_fd c) = Some p" and "client_at d p = Some c"
proof -
  have "fds_ok d" and t: "table_ok d"
    using assms(1) by (simp_all add: daemon_okx_def table_okx_def)
  then show "map_of (d_fd2client d) (dc_fd c) = Some p"
    using assms(2) by (force simp: fds_ok_def intro: map_of_is_SomeI)
  show "client_at d p = Some c"
    using assms(2) table_distinct [OF t] by (simp add: client_at_def)
qed

section \<open>Properties\<close>

text \<open>
  C11. When no client has sent a message that is unread, the loop changes nothing and forgets no client: each is waited for through its socket, or, while
  its child compiles or unpacks, through the pipe of the child; and only sockets and pipes of clients are waited for.
\<close>

theorem no_client_forgotten:
  assumes "daemon_ok d" and "\<forall>e\<in>set (d_clients d). quiet_client (snd e)"
  shows "\<exists>fds. poll_clients (map fst (d_fd2client d)) d = Some (fds, d)
    \<and> set fds = (\<Union>e\<in>set (d_clients d). set (waited_fds (snd e))) \<and> (\<forall>e\<in>set (d_clients d). waited_fds (snd e) \<noteq> [])"
proof -
  have fds: "distinct (map fst (d_fd2client d))" "set (d_fd2client d) = (\<lambda>e. (dc_fd (snd e), fst e)) ` set (d_clients d)"
    using assms(1) by (simp_all add: daemon_okx_def table_okx_def fds_ok_def)
  define client_of where "client_of i = the (client_at d (the (map_of (d_fd2client d) i)))" for i
  have of_fd: "client_of (dc_fd (snd e)) = snd e" if "e \<in> set (d_clients d)" for e
    using fd_of_client [OF assms(1), of "fst e" "snd e"] that by (simp add: client_of_def)
  have keys: "set (map fst (d_fd2client d)) = (\<lambda>e. dc_fd (snd e)) ` set (d_clients d)"
    by (simp add: fds(2) image_image)
  have "\<forall>i\<in>set (map fst (d_fd2client d)). \<exists>p c. map_of (d_fd2client d) i = Some p \<and> client_at d p = Some c \<and> dc_fd c = i \<and> quiet_client c"
  proof
    fix i
    assume "i \<in> set (map fst (d_fd2client d))"
    then obtain p c where pc: "(p, c) \<in> set (d_clients d)" "i = dc_fd c"
      unfolding keys by auto
    then have "quiet_client c"
      using assms(2) by fastforce
    then show "\<exists>p c. map_of (d_fd2client d) i = Some p \<and> client_at d p = Some c \<and> dc_fd c = i \<and> quiet_client c"
      using fd_of_client [OF assms(1) pc(1)] pc(2) by blast
  qed
  from poll_clients_quiet [OF this] have run: "poll_clients (map fst (d_fd2client d)) d
      = Some (concat (map (\<lambda>i. waited_fds (client_of i)) (map fst (d_fd2client d))), d)"
    by (simp add: client_of_def)
  have "set (concat (map (\<lambda>i. waited_fds (client_of i)) (map fst (d_fd2client d)))) = (\<Union>i\<in>set (map fst (d_fd2client d)). set (waited_fds (client_of i)))"
    by simp
  also have "\<dots> = (\<Union>e\<in>set (d_clients d). set (waited_fds (snd e)))"
    unfolding keys using of_fd by simp
  finally have all: "set (concat (map (\<lambda>i. waited_fds (client_of i)) (map fst (d_fd2client d)))) = (\<Union>e\<in>set (d_clients d). set (waited_fds (snd e)))" .
  have "waited_fds c \<noteq> []" if "(p, c) \<in> set (d_clients d)" for p c
    by (rule waits_somewhere [OF client_here [OF assms(1) fd_of_client(2) [OF assms(1) that]]])
  then have "\<forall>e\<in>set (d_clients d). waited_fds (snd e) \<noteq> []"
    by fastforce
  then show ?thesis
    using all by (intro exI [of _ "concat (map (\<lambda>i. waited_fds (client_of i)) (map fst (d_fd2client d)))"] conjI run)
qed

text \<open>
  C34. The loop reads through the pointer of a client that it has just deleted: when a client that sends an environment has sent something else already, or
  a message that cannot be read, \<open>handle_activity\<close> ends the client, and the test of its pipe follows.
\<close>

theorem deleted_client_read:
  assumes "daemon_ok d" and c: "client_at d p = Some c" and "dc_status c = TOINSTALL" and "calm p d" and "map_of (d_fd2client d) i = Some p"
    and "has_msg (dc_channel c)"
    and "case fst (get_msg (d_libs d) 0 True (dc_channel c)) of Some m \<Rightarrow> m \<noteq> EndMsg \<and> (\<forall>x. m \<noteq> FileChunkMsg x) | None \<Rightarrow> True"
  shows "poll_clients (i # is) d = None"
proof -
  let ?r = "get_msg (d_libs d) 0 True (dc_channel c)"
  let ?c = "c\<lparr>dc_channel := snd ?r\<rparr>"
  obtain d1 where u: "upd_client p (\<lambda>c. c\<lparr>dc_channel := snd ?r\<rparr>) d = Some d1" and ok1: "daemon_ok d1" "client_at d1 p = Some ?c"
      and eq: "d1 = d\<lparr>d_clients := set_at p ?c (d_clients d)\<rparr>"
    using upd_channel [OF assms(1) c, of "snd ?r"] by auto
  have "calm p d1"
    using assms(4) by (simp add: eq calm_def)
  note d1 = ok1 this
  have ended: "\<exists>d2. Daemon_handle_end p e d1 = Some d2 \<and> client_at d2 p = None" for e
    using handle_end_any [OF d1(1,2), of e] d1(3) by (auto simp: client_at_def map_erase_def map_of_eq_None_iff)
  have "\<exists>d2. Daemon_handle_activity p d = Some (False, d2) \<and> client_at d2 p = None"
  proof (cases "fst ?r")
    case None
    then show ?thesis
      using ended [of 118] c u assms(3) by (auto simp: Daemon_handle_activity_def)
  next
    case (Some m)
    have "client_ok ?c"
      using client_here [OF d1(1,2)] .
    then have "Daemon_handle_file_chunk_env p m d1 = map_option (Pair False) (Daemon_handle_end p 138 d1)"
      using Some assms(3,7) d1(2) by (cases m) (auto simp: Daemon_handle_file_chunk_env_def client_ok_def installing_def)
    then show ?thesis
      using ended [of 138] c u assms(3) Some by (auto simp: Daemon_handle_activity_def)
  qed
  then obtain d2 where "poll_socket p c d = Some (False, d2)" "client_at d2 p = None"
    using assms(3,6) by (auto simp: poll_socket_def)
  then show ?thesis
    using assms(3,5) c by (simp add: poll_pipe_def)
qed

section \<open>Witnesses\<close>

theorem no_client_forgotten_witness:
  "\<exists>fds. poll_clients [4, 3] (demo_daemon [(1, demo_client UNKNOWN_STATUS 4), (2, demo_client GOTNATIVE 3)])
      = Some (fds, demo_daemon [(1, demo_client UNKNOWN_STATUS 4), (2, demo_client GOTNATIVE 3)]) \<and> set fds = {3, 4}"
proof -
  let ?d = "demo_daemon [(1, demo_client UNKNOWN_STATUS 4), (2, demo_client GOTNATIVE 3)]"
  have ok: "daemon_ok ?d"
    by (rule demo_idle_ok) simp_all
  have quiet: "quiet_client (demo_client s i)" for s i
    by (simp add: quiet_client_def has_msg_def demo_chan_def chan_init_def)
  have waited: "waited_fds (demo_client UNKNOWN_STATUS i) = [i]" "waited_fds (demo_client GOTNATIVE i) = [i]" for i
    by (simp_all add: waited_fds_def)
  have "\<forall>e\<in>set (d_clients ?d). quiet_client (snd e)"
    using quiet by simp
  from no_client_forgotten [OF ok this] obtain fds where fds: "poll_clients (map fst (d_fd2client ?d)) ?d = Some (fds, ?d)"
      "set fds = (\<Union>e\<in>set (d_clients ?d). set (waited_fds (snd e)))"
    by blast
  have "map fst (d_fd2client ?d) = [4, 3]" "(\<Union>e\<in>set (d_clients ?d). set (waited_fds (snd e))) = {3, 4}"
    using waited by (simp_all add: insert_commute)
  then show ?thesis
    using fds by metis
qed

text \<open>A client that sends an environment, and has sent a ping already.\<close>

definition demo_sender :: dclient where
  "demo_sender = (demo_client TOINSTALL 4)\<lparr>dc_channel := (demo_chan 45 [])\<lparr>inbuf := be32 4 @ be32 66, intogo := 4, inmsglen := 4, instate := HAS_MSG\<rparr>,
     dc_outfile := ''e'', dc_pipe_to_child := 7, dc_pipe_from_child := 8, dc_child_pid := 9\<rparr>"

definition demo_installing :: daemon where
  "demo_installing = (demo_daemon [(1, demo_sender)])\<lparr>d_current_kids := 1, d_fd2client := [(4, 1)]\<rparr>"

lemma demo_ping: "fst (get_msg demo_libs 0 True (dc_channel demo_sender)) = Some PingMsg"
proof -
  let ?c = "dc_channel demo_sender"
  have c: "\<not> text_based ?c" "instate ?c = HAS_MSG" "\<not> eof ?c" "intogo ?c = 4" "inbuf ?c = be32 4 @ be32 66" "inmsglen ?c = 4"
    by (simp_all add: demo_sender_def demo_chan_def chan_init_def)
  have "run_state get_u32 ?c = (66, ?c\<lparr>intogo := 8\<rparr>)"
    using c un_be32_be32 [of 66 "[]"] by (simp add: get_u32_def)
  then show ?thesis
    using c by (simp add: get_msg_def get_msg_with_def wait_for_msg_def has_msg_def at_eof_def fill_msg_def M_UNKNOWN_def)
qed

theorem deleted_client_read_witness: "poll_clients [4] demo_installing = None"
proof -
  have sender: "dc_status demo_sender = TOINSTALL" "dc_fd demo_sender = 4" "dc_client_id demo_sender = 4" "has_msg (dc_channel demo_sender)"
    by (simp_all add: demo_sender_def has_msg_def)
  have "client_ok demo_sender" "kid demo_sender = 1" "weight 2 demo_sender = 0"
    by (simp_all add: demo_sender_def client_ok_def installing_def idle_def kid_def weight_def)
  then have "daemon_ok demo_installing"
    using sender by (auto simp: demo_installing_def daemon_okx_def table_okx_def sorted_map_def slots_ok_def fds_ok_def ids_ok_def forks_ok_def
      cache_ok_def cache_sum_def slots_def)
  moreover have "client_at demo_installing 1 = Some demo_sender" "map_of (d_fd2client demo_installing) 4 = Some 1" "d_libs demo_installing = demo_libs"
    "calm 1 demo_installing"
    by (simp_all add: demo_installing_def client_at_def calm_def map_erase_def jobs_known_def)
  ultimately show ?thesis
    using deleted_client_read [of demo_installing 1 demo_sender 4 "[]"] sender demo_ping by simp
qed

end
