(* ===== verification/Load.thy ===== *)
theory Load
  imports DaemonState Float32
begin

text \<open>
  The measurement of the load on Linux, \<open>daemon/load.cpp\<close>: the ticks of the processors from \<open>/proc/stat\<close>, the memory from
  \<open>/proc/meminfo\<close>, and the sample that \<open>maybe_stats\<close> of \<open>daemon/main.cpp\<close> works with. What the files hold, and the answer of
  \<open>getloadavg\<close>, are arguments; a file that cannot be opened or read is \<open>None\<close>. Local variables that \<open>sscanf\<close> does not set
  keep an arbitrary value, which is an argument too.
\<close>

section \<open>Reading numbers\<close>

text \<open>The conversions \<open>%llu\<close> and \<open>%lu\<close> of \<open>sscanf\<close>: the number and what follows it. A number that is too large is the largest one.\<close>

definition is_blank :: "char \<Rightarrow> bool" where
  "is_blank c \<longleftrightarrow> c = CHR '' '' \<or> 9 \<le> (of_char c :: nat) \<and> (of_char c :: nat) \<le> 13"

definition scan_number :: "string \<Rightarrow> (u64 \<times> string) option" where
  "scan_number s =
     (let t = dropWhile is_blank s;
          (neg, ds) = (case t of [] \<Rightarrow> (False, []) | c # r \<Rightarrow>
            if c = CHR ''-'' then (True, r) else if c = CHR ''+'' then (False, r) else (False, t));
          n = digits_value ds
      in if takeWhile is_digit ds = [] then None
         else Some (if n \<ge> 2 ^ 64 then -1 else if neg then - of_nat n else of_nat n, dropWhile is_digit ds))"

text \<open>Several conversions in a row; the first that fails ends them, and the variables that are left keep their values.\<close>

fun scan_numbers :: "string \<Rightarrow> u64 list \<Rightarrow> u64 list" where
  "scan_numbers s [] = []"
| "scan_numbers s (v # vs) = (case scan_number s of None \<Rightarrow> v # vs | Some (n, r) \<Rightarrow> n # scan_numbers r vs)"

text \<open>\<open>read\<close> into a buffer of 256 bytes, as the C string that it then holds; less than 20 bytes are not accepted.\<close>

definition proc_text :: "bytes option \<Rightarrow> string option" where
  "proc_text file = (case file of None \<Rightarrow> None | Some b \<Rightarrow>
     (let buf = take 255 b in if length buf < 20 then None else Some (takeWhile (\<lambda>c. c \<noteq> NUL) buf)))"

section \<open>Processors\<close>

record CPULoadInfo =
  userLoad :: int
  niceLoad :: int
  sysLoad :: int
  idleLoad :: int
  userTicks :: u64
  niceTicks :: u64
  sysTicks :: u64
  idleTicks :: u64
  waitTicks :: u64

definition CPULoadInfo_new :: CPULoadInfo where
  "CPULoadInfo_new = \<lparr>userLoad = 0, niceLoad = 0, sysLoad = 0, idleLoad = 0,
     userTicks = 0, niceTicks = 0, sysTicks = 0, idleTicks = 0, waitTicks = 0\<rparr>"

text \<open>Conversion to \<open>int\<close>.\<close>

definition c_int :: "u64 \<Rightarrow> int" where
  "c_int w = sint (ucast w :: u32)"

text \<open>The loads in parts of a thousand, from the ticks since the last time.\<close>

definition new_ticks :: "u64 \<Rightarrow> u64 \<Rightarrow> u64 \<Rightarrow> u64 \<Rightarrow> u64 \<Rightarrow> CPULoadInfo \<Rightarrow> CPULoadInfo" where
  "new_ticks user nice sys idle wait l =
     (let total = (user - userTicks l) + (sys - sysTicks l) + (nice - niceTicks l) + (idle - idleTicks l) + (wait - waitTicks l);
          share = (\<lambda>now before. c_int (1000 * (now - before) div total));
          l1 = (if total > 10
                then l\<lparr>userLoad := share user (userTicks l), sysLoad := share sys (sysTicks l), niceLoad := share nice (niceTicks l),
                       idleLoad := share idle (idleTicks l)\<rparr>
                else l\<lparr>userLoad := 0, sysLoad := 0, niceLoad := 0, idleLoad := 1000\<rparr>)
      in l1\<lparr>userTicks := user, sysTicks := sys, niceTicks := nice, idleTicks := idle, waitTicks := wait\<rparr>)"

definition updateCPULoad :: "u64 \<times> u64 \<times> u64 \<times> u64 \<Rightarrow> bytes option \<Rightarrow> CPULoadInfo \<Rightarrow> CPULoadInfo" where
  "updateCPULoad unset stat l =
     (case proc_text stat of
        None \<Rightarrow> l
      | Some buf \<Rightarrow>
          (let (user, nice, sys, idle) = unset;
               t = scan_numbers (dropWhile (\<lambda>c. \<not> is_blank c) (dropWhile is_blank buf)) [user, nice, sys, idle, 0]
           in new_ticks (t ! 0) (t ! 1) (t ! 2) (t ! 3) (t ! 4) l))"

section \<open>Memory\<close>

definition scan_one :: "string \<Rightarrow> string \<Rightarrow> u64" where
  "scan_one buff key =
     (case sfind key buff of
        None \<Rightarrow> 0
      | Some i \<Rightarrow>
          (case drop (i + length key) buff of
             [] \<Rightarrow> 0
           | c # r \<Rightarrow> if c = CHR '':'' then (case scan_number r of None \<Rightarrow> 0 | Some (v, _) \<Rightarrow> v) else 0))"

text \<open>The part of the buffers and of the cache that counts as free.\<close>

definition reclaimable :: "u64 \<Rightarrow> u64 \<Rightarrow> u64" where
  "reclaimable mem x = (if x > mem div 100 then x - mem div 100 else x div 2)"

text \<open>The load of the memory and the free memory, which is set only on success.\<close>

definition calculateMemLoad :: "bytes option \<Rightarrow> u64 \<Rightarrow> u32 \<times> u64" where
  "calculateMemLoad meminfo NetMemFree =
     (case proc_text meminfo of
        None \<Rightarrow> (0, NetMemFree)
      | Some buf \<Rightarrow>
          (let MemTotal = scan_one buf ''MemTotal'';
               MemFree = scan_one buf ''MemFree'';
               Buffers = scan_one buf ''Buffers'';
               Cached = scan_one buf ''Cached''
           in if MemTotal = 0 then (0, NetMemFree)
              else (let free = MemFree + reclaimable MemTotal Cached + reclaimable MemTotal Buffers
                    in (ucast (1000 - free * 1000 div MemTotal), free))))"

section \<open>The sample\<close>

text \<open>What one call of \<open>fill_stats\<close> reads: the two files, the variables that are not set, and the load averages.\<close>

record load_reading =
  lr_stat :: "bytes option"
  lr_unset :: "u64 \<times> u64 \<times> u64 \<times> u64"
  lr_meminfo :: "bytes option"
  lr_avg :: "rat \<times> rat \<times> rat"

text \<open>A \<open>double\<close> that is not negative, as an integer.\<close>

definition load_of_double :: "rat \<Rightarrow> u32" where
  "load_of_double x = ucast (of_int \<lfloor>x\<rfloor> :: u64)"

definition fill_stats :: "load_reading \<Rightarrow> load_sample \<Rightarrow> CPULoadInfo \<Rightarrow> load_sample \<times> CPULoadInfo" where
  "fill_stats r x l =
     (let l1 = updateCPULoad (lr_unset r) (lr_stat r) l;
          (grade, free) = calculateMemLoad (lr_meminfo r) 0;
          avg = (\<lambda>a. load_of_double (fl64 (a * 1000)))
      in (x\<lparr>ls_idleLoad := of_int (idleLoad l1), ls_niceLoad := of_int (niceLoad l1), ls_memory_fillgrade := grade,
            ls_loadAvg := (avg (fst (lr_avg r)), avg (fst (snd (lr_avg r))), avg (snd (snd (lr_avg r)))),
            ls_freeMem := load_of_double (fl64 (fl64 (fl64 (of_int (uint free)) / 1024) + 1 / 2))\<rparr>, l1))"

section \<open>The load without \<open>getloadavg\<close>\<close>

text \<open>\<open>exp\<close> of the C library is an argument. Each average is computed from the first, which has just been changed.\<close>

definition compute_load :: "(rat \<Rightarrow> rat) \<Rightarrow> rat \<Rightarrow> u32 \<Rightarrow> u32 \<Rightarrow> rat \<Rightarrow> rat" where
  "compute_load ex oldVal currentJobs rate delta_t =
     (let weight = fl64 (1 / ex (fl64 (delta_t / of_int (uint rate))))
      in fl64 (fl64 (oldVal * weight) + fl64 (of_int (uint currentJobs) * fl64 (1 - weight))))"

definition fakeloadavg :: "(rat \<Rightarrow> rat) \<Rightarrow> rat \<Rightarrow> int \<Rightarrow> u32 \<Rightarrow> (rat \<times> rat \<times> rat) \<times> rat \<Rightarrow> rat list \<times> ((rat \<times> rat \<times> rat) \<times> rat)" where
  "fakeloadavg ex now resultEntries currentJobs st =
     (let ((load0, load1, load2), lastUpdate) = st;
          delta_t = max (fl64 (now - lastUpdate)) 0;
          new0 = compute_load ex load0 currentJobs 60 delta_t;
          new1 = compute_load ex new0 currentJobs 300 delta_t;
          new2 = compute_load ex new0 currentJobs 900 delta_t;
          numFilled = min (max resultEntries 0) 3
      in (take (nat numFilled) [new0, new1, new2], ((new0, new1, new2), now)))"

section \<open>Numbers as the kernel writes them\<close>

lemma digit_char [simp]: "d < 10 \<Longrightarrow> of_char (char_of (48 + d) :: char) = (48 + d :: nat)"
  by simp

lemma digits_of_show_nat: "\<forall>c\<in>set (show_nat n). is_digit c"
proof (induction n rule: show_nat.induct)
  case (1 n)
  then show ?case
    by (subst show_nat.simps) (auto simp: is_digit_def)
qed

lemma show_nat_not_Nil [simp]: "show_nat n \<noteq> []"
  by (subst show_nat.simps) simp

lemma value_show_nat: "foldl (\<lambda>n c. 10 * n + (of_char c - 48)) 0 (show_nat n) = n"
proof (induction n rule: show_nat.induct)
  case (1 n)
  then show ?case
    by (subst show_nat.simps) auto
qed

definition ends_number :: "string \<Rightarrow> bool" where
  "ends_number r \<longleftrightarrow> (case r of [] \<Rightarrow> True | c # _ \<Rightarrow> \<not> is_digit c)"

lemma takeWhile_digits: "ends_number r \<Longrightarrow> takeWhile is_digit (show_nat n @ r) = show_nat n"
  using digits_of_show_nat [of n] by (cases r) (simp_all add: ends_number_def takeWhile_append)

lemma dropWhile_digits: "ends_number r \<Longrightarrow> dropWhile is_digit (show_nat n @ r) = r"
  using digits_of_show_nat [of n] by (cases r) (simp_all add: ends_number_def dropWhile_append)

lemma not_blank_digit: "is_digit c \<Longrightarrow> \<not> is_blank c \<and> c \<noteq> CHR ''-'' \<and> c \<noteq> CHR ''+''"
  by (auto simp: is_digit_def is_blank_def)

lemma scan_shown:
  assumes "\<forall>c\<in>set b. is_blank c" and "ends_number r" and "n < 2 ^ 64"
  shows "scan_number (b @ show_nat n @ r) = Some (of_nat n, r)"
proof -
  obtain c cs where s: "show_nat n = c # cs"
    by (cases "show_nat n") auto
  then have c: "\<not> is_blank c" "c \<noteq> CHR ''-''" "c \<noteq> CHR ''+''"
    using not_blank_digit [of c] digits_of_show_nat [of n] by simp_all
  have "dropWhile is_blank (b @ show_nat n @ r) = show_nat n @ r"
    using assms(1) c(1) s by (simp add: dropWhile_append)
  moreover have "digits_value (show_nat n @ r) = n"
    by (simp add: digits_value_def takeWhile_digits [OF assms(2)] value_show_nat)
  ultimately show ?thesis
    using s c takeWhile_digits [OF assms(2), of n] dropWhile_digits [OF assms(2), of n] assms(3)
    by (simp add: scan_number_def split: list.split)
qed


lemma scan_numbers_shown:
  assumes "\<forall>c\<in>set b. is_blank c" and "ends_number r" and "n < 2 ^ 64"
  shows "scan_numbers (b @ show_nat n @ r) (v # vs) = of_nat n # scan_numbers r vs"
  using scan_shown [OF assms] by simp

lemma no_NUL_shown: "NUL \<notin> set (show_nat n)"
  using digits_of_show_nat [of n] by (auto simp: is_digit_def)

text \<open>A text whose beginning fits into the buffer.\<close>

lemma proc_text_head:
  assumes "20 \<le> length h" and "length h \<le> 255" and "NUL \<notin> set h"
  shows "proc_text (Some (h @ rest)) = Some (h @ takeWhile (\<lambda>c. c \<noteq> NUL) (take (255 - length h) rest))"
proof -
  have "takeWhile (\<lambda>c. c \<noteq> NUL) (h @ t) = h @ takeWhile (\<lambda>c. c \<noteq> NUL) t" for t
    using assms(3) by (intro takeWhile_append2) auto
  then show ?thesis
    using assms(1,2) by (simp add: proc_text_def)
qed

text \<open>A key is found where a character of it occurs for the first time.\<close>

lemma sfind_marked:
  assumes "key = p @ m # q" and "m \<notin> set (x @ p)"
  shows "sfind key (x @ key @ r) = Some (length x)"
  using assms(2)
proof (induction x)
  case Nil
  have "key \<noteq> []"
    by (simp add: assms(1))
  then obtain c k where "key = c # k"
    by (cases key) auto
  then show ?case
    by simp
next
  case (Cons c x)
  have "\<not> prefix key (c # x @ key @ r)"
  proof
    assume "prefix key (c # x @ key @ r)"
    then obtain z where z: "(c # x @ p) @ m # q @ r = p @ m # q @ z"
      using assms(1) by (auto simp: prefix_def)
    then have "m = ((c # x @ p) @ m # q @ r) ! length p"
      by (metis nth_append_length)
    also have "\<dots> = (c # x @ p) ! length p"
      by (subst nth_append) simp
    finally have "m \<in> set (c # x @ p)"
      using nth_mem [of "length p" "c # x @ p"] by simp
    then show False
      using Cons.prems by simp
  qed
  then show ?case
    using Cons by simp
qed

section \<open>The memory\<close>

text \<open>A line of \<open>/proc/meminfo\<close>, and what counts as free, in kilobytes.\<close>

definition mem_line :: "string \<Rightarrow> nat \<Rightarrow> nat \<Rightarrow> string" where
  "mem_line key k n = key @ CHR '':'' # replicate k (CHR '' '') @ show_nat n @ '' kB'' @ [CHR 0x0A]"

definition free_share :: "nat \<Rightarrow> nat \<Rightarrow> nat" where
  "free_share mem x = (if mem div 100 < x then x - mem div 100 else x div 2)"

lemma free_share_le: "free_share mem x \<le> x"
  by (simp add: free_share_def)

lemma scan_one_line:
  assumes "key = p @ m # q" and "m \<notin> set (x @ p)" and "n < 2 ^ 64"
  shows "scan_one (x @ mem_line key k n @ y) key = of_nat n"
proof -
  let ?r = "'' kB'' @ CHR 0x0A # y"
  have f: "sfind key (x @ mem_line key k n @ y) = Some (length x)"
    using sfind_marked [OF assms(1,2)] by (simp add: mem_line_def)
  have "scan_number (replicate k (CHR '' '') @ show_nat n @ ?r) = Some (of_nat n, ?r)"
    by (rule scan_shown) (use assms(3) in \<open>auto simp: is_blank_def ends_number_def is_digit_def\<close>)
  then show ?thesis
    unfolding scan_one_def f by (simp add: mem_line_def)
qed

lemma unat_of_nat_u64: "n < 2 ^ 64 \<Longrightarrow> unat (of_nat n :: u64) = n"
  by (simp add: unat_of_nat take_bit_nat_eq_self)

lemma reclaimable_share:
  assumes "mem < 2 ^ 64" and "x < 2 ^ 64"
  shows "reclaimable (of_nat mem) (of_nat x) = of_nat (free_share mem x)"
proof (rule word_unat_eq_iff [THEN iffD2])
  have m: "unat (of_nat mem div 100 :: u64) = mem div 100"
    using assms(1) by (simp add: unat_div unat_of_nat_u64)
  have x: "unat (of_nat x :: u64) = x" and h: "unat (of_nat x div 2 :: u64) = x div 2"
    using assms(2) by (simp_all add: unat_div unat_of_nat_u64)
  have lt: "(of_nat mem div 100 :: u64) < of_nat x \<longleftrightarrow> mem div 100 < x"
    by (simp add: word_less_nat_alt m x)
  have sub: "mem div 100 < x \<Longrightarrow> unat (of_nat x - of_nat mem div 100 :: u64) = x - mem div 100"
    using m x by (subst unat_sub) (simp_all add: word_le_nat_alt)
  have "unat (of_nat (free_share mem x) :: u64) = free_share mem x"
    using assms(2) free_share_le [of mem x] by (intro unat_of_nat_u64) simp
  then show "unat (reclaimable (of_nat mem) (of_nat x)) = unat (of_nat (free_share mem x) :: u64)"
    using sub h by (simp add: reclaimable_def free_share_def lt)
qed

text \<open>The lines up to the cache.\<close>

definition meminfo_head :: "nat list \<Rightarrow> nat \<Rightarrow> nat \<Rightarrow> nat \<Rightarrow> nat \<Rightarrow> nat \<Rightarrow> string" where
  "meminfo_head ks mem free available buffers cached =
     mem_line ''MemTotal'' (ks ! 0) mem @ mem_line ''MemFree'' (ks ! 1) free @ mem_line ''MemAvailable'' (ks ! 2) available
     @ mem_line ''Buffers'' (ks ! 3) buffers @ mem_line ''Cached'' (ks ! 4) cached"

lemma not_in_line:
  assumes "c \<notin> set key" and "c \<notin> set '': kB''" and "c \<noteq> CHR 0x0A" and "\<not> is_digit c"
  shows "c \<notin> set (mem_line key k n)"
  using assms digits_of_show_nat [of n] by (auto simp: mem_line_def)

lemma length_mem_line: "6 + length key \<le> length (mem_line key k n)"
  using show_nat_not_Nil [of n] by (cases "show_nat n") (simp_all add: mem_line_def)

lemma scan_meminfo:
  assumes "mem < 2 ^ 64" and "free < 2 ^ 64" and "buffers < 2 ^ 64" and "cached < 2 ^ 64"
  shows "scan_one (meminfo_head ks mem free available buffers cached @ y) ''MemTotal'' = of_nat mem"
    and "scan_one (meminfo_head ks mem free available buffers cached @ y) ''MemFree'' = of_nat free"
    and "scan_one (meminfo_head ks mem free available buffers cached @ y) ''Buffers'' = of_nat buffers"
    and "scan_one (meminfo_head ks mem free available buffers cached @ y) ''Cached'' = of_nat cached"
proof -
  let ?t = "mem_line ''MemTotal'' (ks ! 0) mem" and ?f = "mem_line ''MemFree'' (ks ! 1) free"
    and ?a = "mem_line ''MemAvailable'' (ks ! 2) available" and ?b = "mem_line ''Buffers'' (ks ! 3) buffers"
    and ?c = "mem_line ''Cached'' (ks ! 4) cached"
  note new = not_in_line is_digit_def
  show "scan_one (meminfo_head ks mem free available buffers cached @ y) ''MemTotal'' = of_nat mem"
    using scan_one_line [of "''MemTotal''" "[]" "CHR ''M''" "''emTotal''" "[]" mem "ks ! 0" "?f @ ?a @ ?b @ ?c @ y"] assms(1)
    by (simp add: meminfo_head_def)
  have "CHR ''F'' \<notin> set (?t @ ''Mem'')"
    by (simp add: new)
  then show "scan_one (meminfo_head ks mem free available buffers cached @ y) ''MemFree'' = of_nat free"
    using scan_one_line [of "''MemFree''" "''Mem''" "CHR ''F''" "''ree''" ?t free "ks ! 1" "?a @ ?b @ ?c @ y"] assms(2)
    by (simp add: meminfo_head_def)
  have "CHR ''u'' \<notin> set ((?t @ ?f @ ?a) @ ''B'')"
    by (simp add: new)
  then show "scan_one (meminfo_head ks mem free available buffers cached @ y) ''Buffers'' = of_nat buffers"
    using scan_one_line [of "''Buffers''" "''B''" "CHR ''u''" "''ffers''" "?t @ ?f @ ?a" buffers "ks ! 3" "?c @ y"] assms(3)
    by (simp add: meminfo_head_def)
  have "CHR ''C'' \<notin> set ((?t @ ?f @ ?a @ ?b) @ [])"
    by (simp add: new)
  then show "scan_one (meminfo_head ks mem free available buffers cached @ y) ''Cached'' = of_nat cached"
    using scan_one_line [of "''Cached''" "[]" "CHR ''C''" "''ached''" "?t @ ?f @ ?a @ ?b" cached "ks ! 4" y] assms(4)
    by (simp add: meminfo_head_def)
qed

lemma meminfo_text:
  assumes "length (meminfo_head ks mem free available buffers cached) \<le> 255"
  shows "\<exists>y. proc_text (Some (meminfo_head ks mem free available buffers cached @ rest))
    = Some (meminfo_head ks mem free available buffers cached @ y)"
proof -
  have "20 \<le> length (meminfo_head ks mem free available buffers cached)"
    using length_mem_line [of "''MemTotal''" "ks ! 0" mem] length_mem_line [of "''MemFree''" "ks ! 1" free] by (simp add: meminfo_head_def)
  moreover have "NUL \<notin> set (meminfo_head ks mem free available buffers cached)"
    by (simp add: meminfo_head_def not_in_line is_digit_def)
  ultimately show ?thesis
    using proc_text_head [OF _ assms] by blast
qed

lemma memory_load_read:
  assumes fits: "length (meminfo_head ks mem free available buffers cached) \<le> 255"
    and mem: "0 < mem" "mem < 2 ^ 54" and part: "free + buffers + cached \<le> mem"
  shows "\<exists>used. used \<le> 1000
    \<and> calculateMemLoad (Some (meminfo_head ks mem free available buffers cached @ rest)) f0
        = (of_nat used, of_nat (free + free_share mem cached + free_share mem buffers))
    \<and> used = 1000 - (free + free_share mem cached + free_share mem buffers) * 1000 div mem"
proof -
  define F where "F = free + free_share mem cached + free_share mem buffers"
  have F: "F \<le> mem"
    using part free_share_le [of mem cached] free_share_le [of mem buffers] by (simp add: F_def)
  obtain y where buf: "proc_text (Some (meminfo_head ks mem free available buffers cached @ rest))
      = Some (meminfo_head ks mem free available buffers cached @ y)"
    using meminfo_text [OF fits] by blast
  have small: "mem < 2 ^ 64" "free < 2 ^ 64" "buffers < 2 ^ 64" "cached < 2 ^ 64" "F * 1000 < 2 ^ 64" "F < 2 ^ 64"
    using mem part F by simp_all
  have quot: "F * 1000 div mem \<le> 1000"
    using div_le_mono [of "F * 1000" "mem * 1000" mem] F mem by simp
  have "unat (of_nat F * 1000 :: u64) = F * 1000"
    using unat_of_nat_u64 [OF small(5)] by simp
  then have div: "unat (of_nat F * 1000 div of_nat mem :: u64) = F * 1000 div mem"
    using small(1) by (simp add: unat_div unat_of_nat_u64)
  then have "unat (1000 - of_nat F * 1000 div of_nat mem :: u64) = 1000 - F * 1000 div mem"
    using quot by (subst unat_sub) (simp_all add: word_le_nat_alt)
  then have "1000 - of_nat F * 1000 div of_nat mem = (of_nat (1000 - F * 1000 div mem) :: u64)"
    by (metis of_nat_unat ucast_id)
  moreover have "ucast (of_nat (1000 - F * 1000 div mem) :: u64) = (of_nat (1000 - F * 1000 div mem) :: u32)"
    by (simp add: unsigned_of_nat take_bit_nat_eq_self)
  moreover have "(of_nat mem :: u64) \<noteq> 0"
    using mem(1) small(1) unat_of_nat_u64 [of mem] by force
  ultimately have "calculateMemLoad (Some (meminfo_head ks mem free available buffers cached @ rest)) f0
      = (of_nat (1000 - F * 1000 div mem), of_nat F)"
    using reclaimable_share [OF small(1,4)] reclaimable_share [OF small(1,3)]
    by (simp add: calculateMemLoad_def buf scan_meminfo [OF small(1-4)] Let_def F_def flip: of_nat_add)
  then show ?thesis
    using quot by (auto simp: F_def)
qed

section \<open>The processors\<close>

text \<open>The beginning of \<open>/proc/stat\<close>: user, nice, system, idle and waiting.\<close>

definition stat_head :: "nat \<Rightarrow> nat \<Rightarrow> nat \<Rightarrow> nat \<Rightarrow> nat \<Rightarrow> nat \<Rightarrow> string" where
  "stat_head k user nice sys idle wait =
     ''cpu'' @ replicate (Suc k) (CHR '' '') @ show_nat user @ '' '' @ show_nat nice @ '' '' @ show_nat sys @ '' '' @ show_nat idle
       @ '' '' @ show_nat wait"

lemma ends_blank [simp]: "ends_number (CHR '' '' # r)"
  by (simp add: ends_number_def is_digit_def)

lemma scan_stat:
  assumes "user < 2 ^ 64" "nice < 2 ^ 64" "sys < 2 ^ 64" "idle < 2 ^ 64" "wait < 2 ^ 64" and "ends_number y"
  shows "scan_numbers (dropWhile (\<lambda>c. \<not> is_blank c) (dropWhile is_blank (stat_head k user nice sys idle wait @ y))) [a, b, c, d, e]
    = [of_nat user, of_nat nice, of_nat sys, of_nat idle, of_nat wait]"
proof -
  have blank: "is_blank (CHR '' '')" "\<not> is_blank (CHR ''c'')" "\<not> is_blank (CHR ''p'')" "\<not> is_blank (CHR ''u'')"
    by (simp_all add: is_blank_def)
  have start: "dropWhile (\<lambda>c. \<not> is_blank c) (dropWhile is_blank (stat_head k user nice sys idle wait @ y))
      = replicate (Suc k) (CHR '' '') @ show_nat user @ '' '' @ show_nat nice @ '' '' @ show_nat sys @ '' '' @ show_nat idle
        @ '' '' @ show_nat wait @ y"
    using blank by (simp add: stat_head_def)
  have first: "\<forall>c\<in>set (replicate (Suc k) (CHR '' '')). is_blank c" and one: "\<forall>c\<in>set '' ''. is_blank c"
    using blank by simp_all
  have step: "scan_numbers ('' '' @ show_nat n @ r) (v # vs) = of_nat n # scan_numbers r vs" if "n < 2 ^ 64" "ends_number r" for n r v vs
    using scan_numbers_shown [OF one that(2,1)] .
  have fin: "scan_numbers ('' '' @ show_nat wait @ y) [e] = [of_nat wait]"
    using step [OF assms(5,6), of e "[]"] by simp
  have "scan_numbers (replicate (Suc k) (CHR '' '') @ show_nat user @ '' '' @ r) (a # vs) = of_nat user # scan_numbers ('' '' @ r) vs" for r vs
    by (rule scan_numbers_shown [OF first _ assms(1)]) simp
  then show ?thesis
    unfolding start using step [OF assms(2)] step [OF assms(3)] step [OF assms(4)] fin by simp
qed

lemma unat_diff: "unat (before :: u64) \<le> now \<Longrightarrow> now < 2 ^ 64 \<Longrightarrow> unat (of_nat now - before) = now - unat before"
  by (subst unat_sub) (simp_all add: word_le_nat_alt unat_of_nat_u64)

lemma c_int_small: "unat w \<le> 1000 \<Longrightarrow> c_int w = int (unat w)"
proof -
  assume w: "unat w \<le> 1000"
  have "(ucast (of_nat n :: u64) :: u32) = of_nat n" if "n \<le> 1000" for n
    using that by (simp add: unsigned_of_nat take_bit_nat_eq_self)
  from this [OF w] have "(ucast w :: u32) = of_nat (unat w)"
    by simp
  moreover have "sint (of_nat n :: u32) = int n" if "n \<le> 1000" for n
    using that by (simp add: signed_of_nat signed_take_bit_int_eq_self)
  from this [OF w] have "sint (of_nat (unat w) :: u32) = int (unat w)" .
  ultimately show "c_int w = int (unat w)"
    unfolding c_int_def by (simp only:)
qed

text \<open>The part of one kind of ticks.\<close>

lemma share_of_ticks:
  assumes "unat (before :: u64) \<le> now" and "now < 2 ^ 64" and "now - unat before \<le> t" and "0 < t" and "1000 * t < 2 ^ 64"
  shows "c_int (1000 * (of_nat now - before) div of_nat t) = int (1000 * (now - unat before) div t)"
proof -
  let ?n = "now - unat before"
  have "unat (1000 * (of_nat now - before)) = 1000 * ?n"
    using assms unat_diff [OF assms(1,2)] by (subst unat_mult_lem [THEN iffD1]) simp_all
  then have q: "unat (1000 * (of_nat now - before) div of_nat t) = 1000 * ?n div t"
    using assms(5) by (simp add: unat_div unat_of_nat_u64)
  moreover have "1000 * ?n div t \<le> 1000"
    using assms(3,4) div_le_mono [of "1000 * ?n" "1000 * t" t] by simp
  ultimately show ?thesis
    by (simp add: c_int_small)
qed

text \<open>The ticks since the last time, when no counter has gone back.\<close>

definition passed :: "u64 \<Rightarrow> nat \<Rightarrow> nat" where
  "passed before now = now - unat before"

definition all_passed :: "CPULoadInfo \<Rightarrow> nat \<Rightarrow> nat \<Rightarrow> nat \<Rightarrow> nat \<Rightarrow> nat \<Rightarrow> nat" where
  "all_passed l user nice sys idle wait =
     passed (userTicks l) user + passed (sysTicks l) sys + passed (niceTicks l) nice + passed (idleTicks l) idle
       + passed (waitTicks l) wait"

lemma diff_passed: "unat before \<le> now \<Longrightarrow> of_nat now - before = of_nat (passed before now)"
  by (simp add: passed_def of_nat_diff)

lemma stat_text:
  assumes "20 \<le> length (stat_head k user nice sys idle wait)" and "length (stat_head k user nice sys idle wait) \<le> 255" and "ends_number rest"
  shows "\<exists>y. proc_text (Some (stat_head k user nice sys idle wait @ rest)) = Some (stat_head k user nice sys idle wait @ y) \<and> ends_number y"
proof -
  let ?y = "takeWhile (\<lambda>c. c \<noteq> NUL) (take (255 - length (stat_head k user nice sys idle wait)) rest)"
  have "NUL \<notin> set (stat_head k user nice sys idle wait)"
    using no_NUL_shown by (simp add: stat_head_def)
  moreover have "ends_number ?y"
    using assms(3) by (cases rest; cases "255 - length (stat_head k user nice sys idle wait)") (auto simp: ends_number_def)
  ultimately show ?thesis
    using proc_text_head [OF assms(1,2)] by blast
qed

lemma parts_of_thousand:
  assumes "a + b + c + d \<le> (t :: nat)" and "0 < t"
  shows "1000 * a div t + 1000 * b div t + 1000 * c div t + 1000 * d div t \<le> 1000"
proof -
  have *: "x div t + y div t \<le> (x + y) div t" for x y
    using div_add1_eq [of x y t] by simp
  have "1000 * a div t + 1000 * b div t + 1000 * c div t + 1000 * d div t \<le> (1000 * a + 1000 * b + 1000 * c + 1000 * d) div t"
    using * [of "1000 * a" "1000 * b"] * [of "1000 * a + 1000 * b" "1000 * c"] * [of "1000 * a + 1000 * b + 1000 * c" "1000 * d"]
    by linarith
  also have "\<dots> \<le> 1000 * t div t"
    using assms(1) by (intro div_le_mono) simp
  finally show ?thesis
    using assms(2) by simp
qed

lemma new_ticks_forward:
  fixes l and user nice sys idle wait
  defines "t \<equiv> all_passed l user nice sys idle wait"
  assumes fits: "user < 2 ^ 64" "nice < 2 ^ 64" "sys < 2 ^ 64" "idle < 2 ^ 64" "wait < 2 ^ 64"
    and on: "unat (userTicks l) \<le> user" "unat (niceTicks l) \<le> nice" "unat (sysTicks l) \<le> sys" "unat (idleTicks l) \<le> idle"
      "unat (waitTicks l) \<le> wait"
    and span: "t < 2 ^ 54"
  shows "new_ticks (of_nat user) (of_nat nice) (of_nat sys) (of_nat idle) (of_nat wait) l
    = \<lparr>userLoad = if t > 10 then int (1000 * passed (userTicks l) user div t) else 0,
       niceLoad = if t > 10 then int (1000 * passed (niceTicks l) nice div t) else 0,
       sysLoad = if t > 10 then int (1000 * passed (sysTicks l) sys div t) else 0,
       idleLoad = if t > 10 then int (1000 * passed (idleTicks l) idle div t) else 1000,
       userTicks = of_nat user, niceTicks = of_nat nice, sysTicks = of_nat sys, idleTicks = of_nat idle, waitTicks = of_nat wait\<rparr>"
proof -
  have t64: "t < 2 ^ 64" "1000 * t < 2 ^ 64"
    using span by simp_all
  have total: "(of_nat user - userTicks l) + (of_nat sys - sysTicks l) + (of_nat nice - niceTicks l) + (of_nat idle - idleTicks l)
      + (of_nat wait - waitTicks l) = of_nat t"
    by (simp add: diff_passed on t_def all_passed_def)
  have gt: "(of_nat t :: u64) > 10 \<longleftrightarrow> t > 10"
    using t64(1) by (simp add: word_less_nat_alt unat_of_nat_u64)
  show ?thesis
  proof (cases "t > 10")
    case True
    have le: "passed (userTicks l) user \<le> t" "passed (niceTicks l) nice \<le> t" "passed (sysTicks l) sys \<le> t" "passed (idleTicks l) idle \<le> t"
      by (simp_all add: t_def all_passed_def)
    have share: "c_int (1000 * (of_nat now - before) div of_nat t) = int (1000 * passed before now div t)"
      if "unat before \<le> now" "now < 2 ^ 64" "passed before now \<le> t" for before now
      using share_of_ticks [OF that(1,2) that(3) [unfolded passed_def] _ t64(2)] True by (simp add: passed_def)
    note shares = share [OF on(1) fits(1) le(1)] share [OF on(2) fits(2) le(2)] share [OF on(3) fits(3) le(3)] share [OF on(4) fits(4) le(4)]
    have "(10 < (of_nat t :: u64)) = True"
      using True gt by simp
    then show ?thesis
      using True unfolding new_ticks_def Let_def total shares by (cases l) simp
  next
    case False
    then show ?thesis
      using gt unfolding new_ticks_def Let_def total by (cases l) simp
  qed
qed

text \<open>
  C30. From the ticks that the kernel writes the daemon computes the part of each kind since the last time, in a thousand: user, nice, system and
  idle are exactly what they are of all ticks, and add up to at most 1000; after less than eleven ticks the machine counts as idle. The new counters
  are remembered. This is so as long as no counter has gone back and less than \<open>2\<^sup>5\<^sup>4\<close> ticks have passed, for counters below \<open>2\<^sup>6\<^sup>4\<close>
  that are in the first 255 bytes.
\<close>

theorem cpu_loads_read:
  assumes head: "20 \<le> length (stat_head k user nice sys idle wait)" "length (stat_head k user nice sys idle wait) \<le> 255" and rest: "ends_number rest"
    and fits: "user < 2 ^ 64" "nice < 2 ^ 64" "sys < 2 ^ 64" "idle < 2 ^ 64" "wait < 2 ^ 64"
    and on: "unat (userTicks l) \<le> user" "unat (niceTicks l) \<le> nice" "unat (sysTicks l) \<le> sys" "unat (idleTicks l) \<le> idle"
      "unat (waitTicks l) \<le> wait"
    and span: "all_passed l user nice sys idle wait < 2 ^ 54"
  shows "\<exists>u n s i. updateCPULoad unset (Some (stat_head k user nice sys idle wait @ rest)) l
      = \<lparr>userLoad = u, niceLoad = n, sysLoad = s, idleLoad = i, userTicks = of_nat user, niceTicks = of_nat nice, sysTicks = of_nat sys,
         idleTicks = of_nat idle, waitTicks = of_nat wait\<rparr>
    \<and> u + n + s + i \<le> 1000
    \<and> (if all_passed l user nice sys idle wait > 10
       then u = int (1000 * passed (userTicks l) user div all_passed l user nice sys idle wait)
         \<and> n = int (1000 * passed (niceTicks l) nice div all_passed l user nice sys idle wait)
         \<and> s = int (1000 * passed (sysTicks l) sys div all_passed l user nice sys idle wait)
         \<and> i = int (1000 * passed (idleTicks l) idle div all_passed l user nice sys idle wait)
       else u = 0 \<and> n = 0 \<and> s = 0 \<and> i = 1000)"
proof -
  define t where "t = all_passed l user nice sys idle wait"
  obtain y where y: "proc_text (Some (stat_head k user nice sys idle wait @ rest)) = Some (stat_head k user nice sys idle wait @ y)" "ends_number y"
    using stat_text [OF head rest] by blast
  have upd: "updateCPULoad unset (Some (stat_head k user nice sys idle wait @ rest)) l
      = new_ticks (of_nat user) (of_nat nice) (of_nat sys) (of_nat idle) (of_nat wait) l"
    by (cases unset) (simp add: updateCPULoad_def y(1) scan_stat [OF fits y(2)] del: scan_numbers.simps)
  have part: "passed (userTicks l) user + passed (niceTicks l) nice + passed (sysTicks l) sys + passed (idleTicks l) idle \<le> t"
    by (simp add: t_def all_passed_def)
  have "int (1000 * passed (userTicks l) user div t) + int (1000 * passed (niceTicks l) nice div t)
      + int (1000 * passed (sysTicks l) sys div t) + int (1000 * passed (idleTicks l) idle div t) \<le> 1000" if "t > 10"
    using parts_of_thousand [OF part] that by linarith
  then show ?thesis
    unfolding upd new_ticks_forward [OF fits on span] t_def [symmetric] by (cases "10 < t") simp_all
qed

text \<open>The time spent waiting may go back: then the loads add up to more than 1000, here 2000.\<close>

lemma waiting_goes_back:
  "idleLoad (new_ticks 0 0 0 200 50 (CPULoadInfo_new\<lparr>idleTicks := 100, waitTicks := 100\<rparr>)) = 2000"
  by (simp add: new_ticks_def CPULoadInfo_new_def c_int_def)

section \<open>What is reported\<close>

lemma fillgrade_of_fill: "ls_memory_fillgrade (fst (fill_stats r x l)) = fst (calculateMemLoad (lr_meminfo r) 0)"
  by (simp add: fill_stats_def Let_def split: prod.split)

lemma stats_value_range:
  assumes "ls_memory_fillgrade x \<le> 1000"
  shows "ls_memory_fillgrade x \<le> stats_value x n d \<and> stats_value x n d \<le> 1000"
proof -
  have le: "1000 - i \<le> 1000" if "i \<le> 1000" for i :: u32
    using that by (simp add: word_le_nat_alt unat_sub)
  show ?thesis
    using assms unfolding stats_value_def Let_def by (cases "ls_statfs x") (auto simp: not_less split: prod.split intro!: le)
qed

text \<open>
  C29. From what the kernel writes about the memory the daemon computes how much of it is in use in parts of a thousand: what is free
  and what counts as free of the buffers and of the cache is left out. The load it then reports lies between that and 1000, whatever the
  processors and the disk do. This is without overflow when there is some memory, but less than \<open>2\<^sup>5\<^sup>4\<close> kilobytes, when what is
  free, the buffers and the cache do not add up to more than there is, and when the figures are in the first 255 bytes.
\<close>

theorem memory_reported:
  assumes "length (meminfo_head ks mem free available buffers cached) \<le> 255"
    and "0 < mem" "mem < 2 ^ 54" and "free + buffers + cached \<le> mem"
  shows "\<exists>used. used \<le> 1000 \<and> used = 1000 - (free + free_share mem cached + free_share mem buffers) * 1000 div mem
    \<and> calculateMemLoad (Some (meminfo_head ks mem free available buffers cached @ rest)) f0
        = (of_nat used, of_nat (free + free_share mem cached + free_share mem buffers))
    \<and> (\<forall>r x l n d. lr_meminfo r = Some (meminfo_head ks mem free available buffers cached @ rest) \<longrightarrow>
        of_nat used \<le> stats_value (fst (fill_stats r x l)) n d \<and> stats_value (fst (fill_stats r x l)) n d \<le> 1000)"
proof -
  obtain used where used: "used \<le> 1000" "used = 1000 - (free + free_share mem cached + free_share mem buffers) * 1000 div mem"
      "\<And>f0. calculateMemLoad (Some (meminfo_head ks mem free available buffers cached @ rest)) f0
        = (of_nat used, of_nat (free + free_share mem cached + free_share mem buffers))"
    using memory_load_read [OF assms] by blast
  have "(of_nat used :: u32) \<le> 1000"
    using used(1) by (simp add: word_le_nat_alt unat_of_nat take_bit_nat_eq_self)
  then have "of_nat used \<le> stats_value (fst (fill_stats r x l)) n d \<and> stats_value (fst (fill_stats r x l)) n d \<le> 1000"
    if "lr_meminfo r = Some (meminfo_head ks mem free available buffers cached @ rest)" for r x l n d
    using stats_value_range [of "fst (fill_stats r x l)" n d] unfolding fillgrade_of_fill that used(3) fst_conv by blast
  then show ?thesis
    using used by blast
qed

text \<open>The figures do not always add up: when more is free than there is, the load of the memory wraps around.\<close>

lemma memory_load_wraps:
  "fst (calculateMemLoad (Some (meminfo_head [1, 1, 1, 1, 1] 1000 1100 0 0 0)) 0) = -100"
proof -
  have "length (meminfo_head [1, 1, 1, 1, 1] 1000 1100 0 0 0) \<le> 255"
    by (simp add: meminfo_head_def mem_line_def show_nat.simps)
  then obtain y where "proc_text (Some (meminfo_head [1, 1, 1, 1, 1] 1000 1100 0 0 0)) = Some (meminfo_head [1, 1, 1, 1, 1] 1000 1100 0 0 0 @ y)"
    using meminfo_text [of "[1, 1, 1, 1, 1]" 1000 1100 0 0 0 "[]"] by auto
  then show ?thesis
    using scan_meminfo [of 1000 1100 0 0 "[1, 1, 1, 1, 1]" 0 y] by (simp add: calculateMemLoad_def reclaimable_def)
qed

section \<open>Witnesses\<close>

theorem memory_reported_witness:
  "calculateMemLoad (Some (meminfo_head [6, 8, 3, 8, 8] 16337604 8000000 12000000 200000 4000000 @ ''SwapCached: 7'')) 0
    = (274, 11873248)"
proof -
  have "length (meminfo_head [6, 8, 3, 8, 8] 16337604 8000000 12000000 200000 4000000) \<le> 255"
    by (simp add: meminfo_head_def mem_line_def show_nat.simps)
  from memory_reported [OF this, of "''SwapCached: 7''" 0] show ?thesis
    by (simp add: free_share_def)
qed

theorem cpu_loads_read_witness:
  "\<exists>l. updateCPULoad (1, 2, 3, 4) (Some (stat_head 1 1300 120 150 9400 30 @ '' 0'')) (CPULoadInfo_new\<lparr>userTicks := 1000, idleTicks := 9000\<rparr>) = l
    \<and> userLoad l = 300 \<and> niceLoad l = 120 \<and> sysLoad l = 150 \<and> idleLoad l = 400"
proof -
  let ?l = "CPULoadInfo_new\<lparr>userTicks := 1000, idleTicks := 9000\<rparr>"
  have len: "20 \<le> length (stat_head 1 1300 120 150 9400 30)" "length (stat_head 1 1300 120 150 9400 30) \<le> 255"
    by (simp_all add: stat_head_def show_nat.simps)
  have all: "all_passed ?l 1300 120 150 9400 30 = 1000"
    by (simp add: all_passed_def passed_def CPULoadInfo_new_def)
  show ?thesis
    using cpu_loads_read [OF len, of "'' 0''" ?l "(1, 2, 3, 4)"] unfolding all
    by (auto simp: passed_def CPULoadInfo_new_def)
qed

end
