(* ===== verification/FileUtil.thy ===== *)
theory FileUtil
  imports CxxString
begin

text \<open>
  The helpers on paths of \<open>daemon/file_util.cpp\<close>: a path as the list of its components, the
  canonical form of an absolute path, the way from one directory to another, and the creation of a
  directory with its parents. \<open>mkdir\<close> is a parameter that acts on a state of the file system.
\<close>

section \<open>Components\<close>

definition split :: "string \<Rightarrow> char \<Rightarrow> string list" where
  "split s delim = filter (\<lambda>item. item \<noteq> '''') (items_of delim s)"

text \<open>The loops that print components with a slash between them.\<close>

fun join_dirs :: "string list \<Rightarrow> string" where
  "join_dirs [] = ''''"
| "join_dirs [d] = d"
| "join_dirs (d # ds) = d @ ''/'' @ join_dirs ds"

section \<open>Relative and canonical paths\<close>

fun skip_common :: "string list \<Rightarrow> string list \<Rightarrow> string list \<times> string list" where
  "skip_common (t # ts) (f # fs) = (if t = f then skip_common ts fs else (t # ts, f # fs))"
| "skip_common ts fs = (ts, fs)"

definition get_relative_path :: "string \<Rightarrow> string \<Rightarrow> string" where
  "get_relative_path to from =
     (case skip_common (split to CHR ''/'') (split from CHR ''/'') of
        (to_dirs, from_dirs) \<Rightarrow> concat (map (\<lambda>_. ''../'') from_dirs) @ join_dirs to_dirs)"

text \<open>The loop over the parts; \<open>pop_back\<close> of a vector is \<^const>\<open>butlast\<close>.\<close>

fun canonicalize :: "string list \<Rightarrow> string list \<Rightarrow> string list" where
  "canonicalize done [] = done"
| "canonicalize done (p # ps) =
     (if p = ''..'' \<and> done \<noteq> [] then canonicalize (butlast done) ps
      else if p \<noteq> ''.'' \<and> p \<noteq> ''..'' then canonicalize (done @ [p]) ps
      else canonicalize done ps)"

definition get_canonicalized_path :: "string \<Rightarrow> string" where
  "get_canonicalized_path path =
     (if path = '''' \<or> hd path \<noteq> CHR ''/'' then path
      else ''/'' @ join_dirs (canonicalize [] (split path CHR ''/'')))"

section \<open>Creating directories\<close>

datatype mkdir_result = MkOk | MkEnoent | MkEexist | MkFail

text \<open>\<open>path.substr(0, path.rfind('/'))\<close> is the whole path when it has no slash.\<close>

definition parent_path :: "string \<Rightarrow> string" where
  "parent_path path = (case srfind ''/'' path of None \<Rightarrow> path | Some i \<Rightarrow> take i path)"

partial_function (option) mkpath :: "(string \<Rightarrow> 'w \<Rightarrow> mkdir_result \<times> 'w) \<Rightarrow> string \<Rightarrow> 'w \<Rightarrow> (bool \<times> 'w) option" where
  "mkpath mkdir path w =
     (let r = mkdir path w
      in if fst r = MkEnoent
         then Option.bind (mkpath mkdir (parent_path path) (snd r)) (\<lambda>s.
           if fst s then let r2 = mkdir path (snd s) in Some (fst r2 = MkOk, snd r2)
           else Some (False, snd s))
         else Some (fst r = MkOk \<or> fst r = MkEexist, snd r))"

section \<open>Splitting and joining\<close>

lemma split_append: "split (s @ d # t) d = split s d @ split t d"
  by (simp add: split_def items_of_append)

lemma split_Nil [simp]: "split '''' d = []"
  by (simp add: split_def)

lemma split_Cons_delim [simp]: "split (d # t) d = split t d"
  using split_append [of "''''" d t] by simp

lemma split_single: "d \<notin> set s \<Longrightarrow> s \<noteq> '''' \<Longrightarrow> split s d = [s]"
  by (simp add: split_def items_of_single)

text \<open>A component is not empty and has no slash.\<close>

definition component :: "string \<Rightarrow> bool" where
  "component p \<longleftrightarrow> p \<noteq> '''' \<and> CHR ''/'' \<notin> set p"

lemma split_components: "list_all component (split s CHR ''/'')"
  by (auto simp: split_def component_def list_all_iff dest: items_of_no_delim)

lemma split_join: "list_all component ps \<Longrightarrow> split (join_dirs ps) CHR ''/'' = ps"
proof (induction ps rule: join_dirs.induct)
  case (3 d e ds)
  then show ?case
    using split_append [of d "CHR ''/''" "join_dirs (e # ds)"] by (simp add: component_def split_single)
qed (simp_all add: component_def split_single)

lemma split_ups: "split (concat (map (\<lambda>_. ''../'') fs) @ s) CHR ''/'' = replicate (length fs) ''..'' @ split s CHR ''/''"
proof (induction fs)
  case (Cons f fs)
  then show ?case
    using split_append [of "''..''" "CHR ''/''" "concat (map (\<lambda>_. ''../'') fs) @ s"] by (simp add: split_single)
qed simp

section \<open>Canonical paths\<close>

definition absolute :: "string \<Rightarrow> bool" where
  "absolute p \<longleftrightarrow> p \<noteq> '''' \<and> hd p = CHR ''/''"

text \<open>Components none of which is a dot or two dots.\<close>

definition proper :: "string list \<Rightarrow> bool" where
  "proper ps \<longleftrightarrow> list_all (\<lambda>p. component p \<and> p \<noteq> ''.'' \<and> p \<noteq> ''..'') ps"

lemma proper_simps [simp]: "proper []" "proper (p # ps) \<longleftrightarrow> component p \<and> p \<noteq> ''.'' \<and> p \<noteq> ''..'' \<and> proper ps"
  "proper (ps @ qs) \<longleftrightarrow> proper ps \<and> proper qs"
  by (auto simp: proper_def)

lemma proper_component: "proper ps \<Longrightarrow> list_all component ps"
  by (auto simp: proper_def list_all_iff)

lemma proper_butlast: "proper ps \<Longrightarrow> proper (butlast ps)"
  by (auto simp: proper_def list_all_iff dest: in_set_butlastD)

lemma canonicalize_append: "canonicalize st (a @ b) = canonicalize (canonicalize st a) b"
  by (induction st a rule: canonicalize.induct) auto

lemma canonicalize_proper: "proper ps \<Longrightarrow> canonicalize st ps = st @ ps"
  by (induction ps arbitrary: st) auto

lemma canonicalize_ups: "canonicalize (st @ x) (replicate (length x) ''..'') = st"
proof (induction x rule: rev_induct)
  case (snoc a x)
  then show ?case
    by (simp add: butlast_append flip: append_assoc)
qed simp

lemma proper_canonicalize: "proper st \<Longrightarrow> list_all component ps \<Longrightarrow> proper (canonicalize st ps)"
  by (induction st ps rule: canonicalize.induct) (auto simp: proper_butlast)

lemma canonical_parts: "proper (canonicalize [] (split path CHR ''/''))"
  by (simp add: proper_canonicalize split_components)

lemma canonical_again [simp]: "canonicalize [] (canonicalize [] (split path CHR ''/'')) = canonicalize [] (split path CHR ''/'')"
  using canonicalize_proper [OF canonical_parts, of "[]"] by simp

lemma gcp_absolute: "absolute path \<Longrightarrow> get_canonicalized_path path = ''/'' @ join_dirs (canonicalize [] (split path CHR ''/''))"
  by (simp add: absolute_def get_canonicalized_path_def)

lemma absolute_gcp: "absolute path \<Longrightarrow> absolute (get_canonicalized_path path)"
  by (simp add: gcp_absolute) (simp add: absolute_def)

lemma absolute_append [simp]: "absolute a \<Longrightarrow> absolute (a @ b)"
  by (auto simp: absolute_def)

lemma split_gcp:
  assumes "absolute path"
  shows "split (get_canonicalized_path path) CHR ''/'' = canonicalize [] (split path CHR ''/'')"
proof -
  let ?c = "canonicalize [] (split path CHR ''/'')"
  have "split (CHR ''/'' # join_dirs ?c) CHR ''/'' = ?c"
    using split_join [OF proper_component [OF canonical_parts]] by simp
  then show ?thesis
    using assms by (simp add: gcp_absolute)
qed

lemma skip_common_prefix:
  assumes "skip_common ts fs = (ts', fs')"
  obtains c where "ts = c @ ts'" and "fs = c @ fs'"
  using assms
proof (induction ts fs arbitrary: thesis rule: skip_common.induct)
  case (1 t ts f fs)
  show ?case
  proof (cases "t = f")
    case True
    then show ?thesis
      using "1.IH" [OF True] "1.prems" by (metis append_Cons skip_common.simps(1))
  qed (use "1.prems" in auto)
qed auto

text \<open>Two lists of components, the way from one to the other, and what following it gives.\<close>

lemma relative_components:
  assumes "proper to" and "proper from" and "split t CHR ''/'' = to" and "split f CHR ''/'' = from"
  shows "canonicalize (base @ from) (split (get_relative_path t f) CHR ''/'') = base @ to"
proof -
  obtain ts fs where sk: "skip_common to from = (ts, fs)"
    by fastforce
  then obtain c where c: "to = c @ ts" "from = c @ fs"
    by (rule skip_common_prefix)
  have "split (get_relative_path t f) CHR ''/'' = replicate (length fs) ''..'' @ split (join_dirs ts) CHR ''/''"
    using sk assms(3,4) by (simp add: get_relative_path_def split_ups)
  moreover have "split (join_dirs ts) CHR ''/'' = ts"
    using assms(1) c by (simp add: split_join proper_component)
  ultimately show ?thesis
    using canonicalize_ups [of "base @ c" fs] canonicalize_proper [of ts "base @ c"] assms(1) c
    by (simp add: canonicalize_append)
qed

section \<open>Properties\<close>

text \<open>
  The relative path is the way from the one directory to the other: appended to the canonical form of where it starts it
  denotes, once its dots are resolved, the canonical form of where it is to lead.
\<close>

theorem relative_path_leads_there:
  assumes "absolute from" and "absolute to"
  shows "get_canonicalized_path
           (get_canonicalized_path from @ ''/'' @ get_relative_path (get_canonicalized_path to) (get_canonicalized_path from))
         = get_canonicalized_path to"
proof -
  let ?f = "get_canonicalized_path from" and ?t = "get_canonicalized_path to"
  have "canonicalize [] (split (?f @ CHR ''/'' # get_relative_path ?t ?f) CHR ''/'') = split ?t CHR ''/''"
    using relative_components [of "split ?t CHR ''/''" "split ?f CHR ''/''" ?t ?f "[]"] assms
    by (simp add: split_append split_gcp canonicalize_append canonical_parts)
  moreover have a: "absolute (?f @ ''/'' @ get_relative_path ?t ?f)"
    using assms by (simp add: absolute_gcp)
  ultimately have "get_canonicalized_path (?f @ ''/'' @ get_relative_path ?t ?f) = ''/'' @ join_dirs (split ?t CHR ''/'')"
    using gcp_absolute [OF a] by simp
  then show ?thesis
    using assms gcp_absolute [of to] split_gcp [of to] by simp
qed

text \<open>The canonical form of an absolute path is a fixed point.\<close>

lemma canonical_idem:
  assumes "absolute p"
  shows "get_canonicalized_path (get_canonicalized_path p) = get_canonicalized_path p"
  using gcp_absolute [OF absolute_gcp [OF assms]] gcp_absolute [OF assms] split_gcp [OF assms] by simp

lemma mkpath_returns:
  assumes "\<And>p w. fst (mkdir p w) = MkEnoent \<Longrightarrow> length (parent_path p) < length p"
  shows "\<exists>r. mkpath mkdir p w = Some r"
proof (induction "length p" arbitrary: p w rule: less_induct)
  case less
  show ?case
  proof (cases "fst (mkdir p w) = MkEnoent")
    case True
    then obtain b w' where "mkpath mkdir (parent_path p) (snd (mkdir p w)) = Some (b, w')"
      using less assms by (metis surj_pair)
    then show ?thesis
      by (subst mkpath.simps) (cases b; simp add: True Let_def; blast)
  qed (subst mkpath.simps, simp add: Let_def)
qed

lemma mkpath_Some_not_stuck:
  assumes "mkpath mkdir p w = Some r" and "parent_path p = p"
  shows "\<exists>w. fst (mkdir p w) \<noteq> MkEnoent"
proof -
  have "parent_path p = p \<longrightarrow> (\<exists>w. fst (mkdir p w) \<noteq> MkEnoent)"
    using assms(1)
  proof (rule mkpath.raw_induct [rotated])
    fix mk :: "(string \<Rightarrow> 'a \<Rightarrow> mkdir_result \<times> 'a) \<Rightarrow> string \<Rightarrow> 'a \<Rightarrow> (bool \<times> 'a) option" and mkdir p w r
    assume "\<And>mkdir p w r. mk mkdir p w = Some r \<Longrightarrow> parent_path p = p \<longrightarrow> (\<exists>w. fst (mkdir p w) \<noteq> MkEnoent)"
      and "(let r = mkdir p w
            in if fst r = MkEnoent
               then Option.bind (mk mkdir (parent_path p) (snd r)) (\<lambda>s.
                 if fst s then let r2 = mkdir p (snd s) in Some (fst r2 = MkOk, snd r2) else Some (False, snd s))
               else Some (fst r = MkOk \<or> fst r = MkEexist, snd r)) = Some r"
    then show "parent_path p = p \<longrightarrow> (\<exists>w. fst (mkdir p w) \<noteq> MkEnoent)"
      by (auto simp: Let_def split: if_splits Option.bind_splits)
  qed
  then show ?thesis
    using assms(2) by blast
qed

text \<open>
  Creating the parents of a directory ends when the kernel misses a directory only for a path that has a shorter parent.
  For the empty path, for which it always does, the recursion never ends.
\<close>

theorem mkpath_ends:
  "((\<forall>p w. fst (mkdir p w) = MkEnoent \<longrightarrow> length (parent_path p) < length p) \<longrightarrow> (\<exists>r. mkpath mkdir p w = Some r))
   \<and> ((\<forall>w. fst (mkdir '''' w) = MkEnoent) \<longrightarrow> mkpath mkdir '''' w = None)"
proof (intro conjI impI)
  assume "\<forall>w. fst (mkdir '''' w) = MkEnoent"
  then show "mkpath mkdir '''' w = None"
    using mkpath_Some_not_stuck [of mkdir "''''" w] by (cases "mkpath mkdir '''' w") (auto simp: parent_path_def)
qed (use mkpath_returns [of mkdir p w] in blast)

section \<open>Witnesses\<close>

theorem relative_path_leads_there_witness:
  "get_relative_path ''/w/obj/x.o'' ''/w/src/lib'' = ''../../obj/x.o''
   \<and> get_canonicalized_path (get_canonicalized_path ''/w/./src//lib'' @ ''/''
       @ get_relative_path (get_canonicalized_path ''/w/src/../obj/x.o'') (get_canonicalized_path ''/w/./src//lib''))
     = get_canonicalized_path ''/w/src/../obj/x.o''"
  by (intro conjI relative_path_leads_there) (simp_all add: absolute_def, code_simp)

text \<open>A file system as the list of its directories.\<close>

definition demo_mkdir :: "string \<Rightarrow> string list \<Rightarrow> mkdir_result \<times> string list" where
  "demo_mkdir p ds =
     (if p \<in> set ds then (MkEexist, ds)
      else if p \<noteq> '''' \<and> length (parent_path p) < length p \<and> parent_path p \<notin> set ds then (MkEnoent, ds)
      else (MkOk, p # ds))"

theorem mkpath_ends_witness: "\<exists>r. mkpath demo_mkdir ''/tmp/a/b'' [''/tmp''] = Some r"
  using mkpath_ends [of demo_mkdir "''/tmp/a/b''" "[''/tmp'']"] by (auto simp: demo_mkdir_def split: if_splits)

end
