(* ===== verification/EnvFiles.thy ===== *)
theory EnvFiles
  imports FileUtil DaemonReach
begin

text \<open>
  Environments on the disk (\<open>daemon/environment.cpp\<close>): their sizes, the cleaning of the cache, the list that is announced to the
  scheduler, the end of \<open>icecc --build-native\<close>, and the child that unpacks an archive. A directory is a tree; what the system permits,
  and what libarchive answers, are arguments.
\<close>

section \<open>Trees\<close>

datatype node = Reg u64 | Link string | Special | Dir "(string \<times> node) list"

text \<open>Which paths \<open>opendir\<close>, \<open>lstat\<close> and \<open>unlink\<close> or \<open>rmdir\<close> succeed for.\<close>

record rights =
  may_open :: "string \<Rightarrow> bool"
  may_stat :: "string \<Rightarrow> bool"
  may_remove :: "string \<Rightarrow> bool"

text \<open>\<open>sumup_dir\<close>, and its loop over the entries but for the two that it skips; \<open>dir\<close> is the path.\<close>

fun sumup_dir :: "rights \<Rightarrow> string \<Rightarrow> node \<Rightarrow> u64"
  and sumup_entries :: "rights \<Rightarrow> string \<Rightarrow> (string \<times> node) list \<Rightarrow> u64" where
  "sumup_dir r dir (Dir es) = (if may_open r dir then sumup_entries r (dir @ ''/'') es else 0)"
| "sumup_dir r dir _ = 0"
| "sumup_entries r tdir [] = 0"
| "sumup_entries r tdir ((name, n) # es) =
     (if \<not> may_stat r (tdir @ name) then 0
      else case n of Dir _ \<Rightarrow> sumup_dir r (tdir @ name) n | Reg bytes \<Rightarrow> bytes | _ \<Rightarrow> 0) + sumup_entries r tdir es"

text \<open>\<open>cleanup_directory\<close>: whether it succeeded, and what is left.\<close>

fun cleanup_directory :: "rights \<Rightarrow> string \<Rightarrow> node \<Rightarrow> bool \<times> node"
  and cleanup_entries :: "rights \<Rightarrow> string \<Rightarrow> (string \<times> node) list \<Rightarrow> bool \<times> (string \<times> node) list" where
  "cleanup_directory r dir (Dir es) =
     (if may_open r dir then (let (ok, es') = cleanup_entries r dir es in (ok, Dir es')) else (False, Dir es))"
| "cleanup_directory r dir n = (False, n)"
| "cleanup_entries r dir [] = (True, [])"
| "cleanup_entries r dir ((name, n) # es) =
     (let fullpath = dir @ ''/'' @ name
      in if \<not> may_stat r fullpath then (False, (name, n) # es)
         else case n of
           Dir _ \<Rightarrow>
             (let (ok, n') = cleanup_directory r fullpath n
              in if ok \<and> n' = Dir [] \<and> may_remove r fullpath then cleanup_entries r dir es else (False, (name, n') # es))
         | _ \<Rightarrow> if may_remove r fullpath then cleanup_entries r dir es else (False, (name, n) # es))"

text \<open>
  \<open>cleanup_cache\<close>: the directory, if it exists, whether \<open>access\<close> finds it readable, what \<open>mkdir\<close> of a new one gives, and whether it can
  be given to the user.
\<close>

definition cleanup_cache :: "rights \<Rightarrow> bool \<Rightarrow> mkdir_result \<Rightarrow> bool \<Rightarrow> string \<Rightarrow> node option \<Rightarrow> bool \<times> node option" where
  "cleanup_cache r readable made owned basedir w =
     (let (ok, w1) = (case w of None \<Rightarrow> (True, None) | Some n \<Rightarrow>
            if readable then (let (ok, n') = cleanup_directory r basedir n in (ok, Some n')) else (True, Some n))
      in if \<not> ok then (False, w1)
         else case w1 of
           None \<Rightarrow> if made = MkOk then (owned, Some (Dir [])) else (False, None)
         | Some n \<Rightarrow> (owned, Some n))"

section \<open>The environments that are announced\<close>

text \<open>\<open>readdir\<close> gives the names in a directory, also the two that stand for itself and its parent; \<open>xok\<close> is \<open>access\<close> for execution.\<close>

definition list_target_dirs :: "(string \<Rightarrow> string list option) \<Rightarrow> (string \<Rightarrow> bool) \<Rightarrow> string \<Rightarrow> string \<Rightarrow> environments" where
  "list_target_dirs readdir xok current_target targetdir =
     (case readdir targetdir of
        None \<Rightarrow> []
      | Some names \<Rightarrow> map (Pair current_target) (filter (\<lambda>dirname. xok (targetdir @ ''/'' @ dirname @ ''/usr/bin/as'')) names))"

definition available_environments :: "(string \<Rightarrow> string list option) \<Rightarrow> (string \<Rightarrow> bool) \<Rightarrow> string \<Rightarrow> environments" where
  "available_environments readdir xok basedir =
     (case readdir basedir of
        None \<Rightarrow> []
      | Some names \<Rightarrow> concat (map (\<lambda>dirname.
          if take 1 dirname = ''.'' then []
          else if take 7 dirname = ''target='' then list_target_dirs readdir xok (drop 7 dirname) (basedir @ ''/'' @ dirname)
          else []) names))"

section \<open>The end of \<open>icecc --build-native\<close>\<close>

text \<open>
  What the child has written, the rest of the buffer behind it (which is not set), and the sizes of files. The result is the size and the
  name, which only changes when there is one.
\<close>

definition finish_create_env :: "bytes \<Rightarrow> bytes \<Rightarrow> string \<Rightarrow> (string \<Rightarrow> u64 option) \<Rightarrow> string \<Rightarrow> u64 \<times> string" where
  "finish_create_env written garbage basedir size_of native_environment =
     (let buf = (if written = [] then [NUL] else take 1023 written) @ garbage;
          s = takeWhile (\<lambda>c. c \<noteq> NUL) buf;
          s1 = takeWhile (\<lambda>c. c \<noteq> CHR 0x0A) s;
          name = basedir @ ''/native/'' @ s1
      in if s1 = '''' then (0, native_environment)
         else (case size_of name of Some n \<Rightarrow> n | None \<Rightarrow> 0, name))"

text \<open>\<open>finalize_install_environment\<close>: the directory \<open>tmp\<close> is made, unless it is there or the system refuses.\<close>

definition finalize_install_environment :: "rights \<Rightarrow> bool \<Rightarrow> string \<Rightarrow> string \<Rightarrow> node \<Rightarrow> u64 \<times> node" where
  "finalize_install_environment r made basename target n =
     (let n' = (case n of Dir es \<Rightarrow> if made \<and> ''tmp'' \<notin> fst ` set es then Dir (es @ [(''tmp'', Dir [])]) else n | _ \<Rightarrow> n)
      in (sumup_dir r (basename @ ''/target='' @ target) n', n'))"

section \<open>Unpacking\<close>

text \<open>The documented results of libarchive; those below \<open>ARCHIVE_WARN\<close> are errors.\<close>

datatype arch_result = ARCHIVE_EOF | ARCHIVE_OK | ARCHIVE_RETRY | ARCHIVE_WARN | ARCHIVE_FAILED | ARCHIVE_FATAL

definition below_warn :: "arch_result \<Rightarrow> bool" where
  "below_warn r \<longleftrightarrow> r = ARCHIVE_FAILED \<or> r = ARCHIVE_FATAL"

text \<open>
  \<open>copy_data\<close>: the \<open>k\<close>-th \<open>archive_read_data_block\<close> gives a result and leaves a block (its bytes, size and offset) in the variables, also when
  it fails. The loop may not end.
\<close>

partial_function (option) copy_data ::
    "(nat \<Rightarrow> arch_result \<times> 'b) \<Rightarrow> ('b \<Rightarrow> 'w \<Rightarrow> arch_result \<times> 'w) \<Rightarrow> nat \<Rightarrow> 'w \<Rightarrow> (arch_result \<times> 'w) option" where
  "copy_data rd wr k w =
     (if fst (rd k) = ARCHIVE_EOF then Some (ARCHIVE_OK, w)
      else let s = wr (snd (rd k)) w
           in if fst s \<noteq> ARCHIVE_OK then Some s else copy_data rd wr (k + 1) (snd s))"

text \<open>An entry of the archive: its name and size, and how its data are read; and the archive that is written to the disk.\<close>

record 'b archive_entry =
  ae_pathname :: string
  ae_size :: int
  ae_read :: "nat \<Rightarrow> arch_result \<times> 'b"

record ('b, 'w) archive_disk =
  write_header :: "string \<Rightarrow> 'w \<Rightarrow> arch_result \<times> 'w"
  write_block :: "'b \<Rightarrow> 'w \<Rightarrow> arch_result \<times> 'w"
  finish_entry :: "'w \<Rightarrow> arch_result \<times> 'w"

text \<open>The loop of the child over the results of \<open>archive_read_next_header\<close>, whose end is the end of the archive; whether it reports success.\<close>

fun extract_archive :: "('b, 'w) archive_disk \<Rightarrow> string \<Rightarrow> (arch_result \<times> 'b archive_entry) list \<Rightarrow> 'w \<Rightarrow> (bool \<times> 'w) option" where
  "extract_archive ext dirname [] w = Some (True, w)"
| "extract_archive ext dirname ((r, entry) # es) w =
     (if r = ARCHIVE_EOF then Some (True, w)
      else if below_warn r then Some (False, w)
      else do {
        let (_, w1) = write_header ext (dirname @ ''/'' @ ae_pathname entry) w;
        (r2, w2) \<leftarrow> (if ae_size entry > 0 then copy_data (ae_read entry) (write_block ext) 0 w1 else Some (ARCHIVE_OK, w1));
        if below_warn r2 then Some (False, w2)
        else (let (r3, w3) = finish_entry ext w2
              in if below_warn r3 then Some (False, w3) else extract_archive ext dirname es w3)
      })"

section \<open>The copy of an entry\<close>

text \<open>What has been written after the blocks from \<open>k\<close> up to \<open>n\<close>, and whether the loop stops at a block.\<close>

definition blocks_written :: "(nat \<Rightarrow> arch_result \<times> 'b) \<Rightarrow> ('b \<Rightarrow> 'w \<Rightarrow> arch_result \<times> 'w) \<Rightarrow> nat \<Rightarrow> nat \<Rightarrow> 'w \<Rightarrow> 'w" where
  "blocks_written rd wr k n w = fold (\<lambda>i w. snd (wr (snd (rd i)) w)) [k..<n] w"

definition stops_at :: "(nat \<Rightarrow> arch_result \<times> 'b) \<Rightarrow> ('b \<Rightarrow> 'w \<Rightarrow> arch_result \<times> 'w) \<Rightarrow> nat \<Rightarrow> 'w \<Rightarrow> bool" where
  "stops_at rd wr n w \<longleftrightarrow> fst (rd n) = ARCHIVE_EOF \<or> fst (wr (snd (rd n)) w) \<noteq> ARCHIVE_OK"

lemma blocks_written_same [simp]: "blocks_written rd wr k k w = w"
  by (simp add: blocks_written_def)

lemma blocks_written_step: "k < n \<Longrightarrow> blocks_written rd wr k n w = blocks_written rd wr (Suc k) n (snd (wr (snd (rd k)) w))"
  by (simp add: blocks_written_def upt_conv_Cons)

lemma copy_data_Some:
  assumes "copy_data rd wr k w = Some y"
  shows "\<exists>n\<ge>k. stops_at rd wr n (blocks_written rd wr k n w)
    \<and> y = (if fst (rd n) = ARCHIVE_EOF then (ARCHIVE_OK, blocks_written rd wr k n w) else wr (snd (rd n)) (blocks_written rd wr k n w))"
  using assms
proof (induction rd wr k w y rule: copy_data.raw_induct [rotated 1, consumes 1, case_names step])
  case (step copy rd wr k w y)
  show ?case
  proof (cases "stops_at rd wr k w")
    case True
    then show ?thesis
      using step.hyps by (intro exI [of _ k]) (auto simp: stops_at_def Let_def split: if_splits)
  next
    case False
    then have "copy rd wr (k + 1) (snd (wr (snd (rd k)) w)) = Some y"
      using step.hyps by (simp add: stops_at_def Let_def)
    from step.IH [OF this] obtain n where "k < n" "stops_at rd wr n (blocks_written rd wr k n w)"
        "y = (if fst (rd n) = ARCHIVE_EOF then (ARCHIVE_OK, blocks_written rd wr k n w) else wr (snd (rd n)) (blocks_written rd wr k n w))"
      by (auto simp: blocks_written_step Suc_le_eq)
    then show ?thesis
      by (intro exI [of _ n]) simp
  qed
qed

lemma copy_data_stops:
  assumes "stops_at rd wr n (blocks_written rd wr k n w)" and "k \<le> n"
  shows "copy_data rd wr k w \<noteq> None"
  using assms
proof (induction "n - k" arbitrary: k w)
  case 0
  then show ?case
    by (subst copy_data.simps) (auto simp: stops_at_def Let_def)
next
  case (Suc m)
  show ?case
  proof (cases "stops_at rd wr k w")
    case True
    then show ?thesis
      by (subst copy_data.simps) (auto simp: stops_at_def Let_def)
  next
    case False
    have "copy_data rd wr (Suc k) (snd (wr (snd (rd k)) w)) \<noteq> None"
      using Suc.prems Suc.hyps(2) by (intro Suc.hyps(1)) (simp_all add: blocks_written_step)
    then show ?thesis
      using False by (subst copy_data.simps) (simp add: stops_at_def Let_def)
  qed
qed

text \<open>
  C12. \<open>copy_data\<close> returns exactly when the data of the entry come to their end or a block cannot be written; then the blocks up to there have been
  written in order. An error of the archive does not end it: when reading fails from some block on, as for a damaged archive,
  and what is left in the variables can still be written, it goes on for ever.
\<close>

theorem copy_data_returns:
  "(copy_data rd wr 0 w \<noteq> None \<longleftrightarrow> (\<exists>n. stops_at rd wr n (blocks_written rd wr 0 n w)))
   \<and> (\<forall>w'. copy_data rd wr 0 w = Some (ARCHIVE_OK, w') \<longrightarrow> (\<exists>n. fst (rd n) = ARCHIVE_EOF \<and> w' = blocks_written rd wr 0 n w))
   \<and> ((\<forall>n. fst (rd n) \<noteq> ARCHIVE_EOF) \<and> (\<forall>b w. fst (wr b w) = ARCHIVE_OK) \<longrightarrow> copy_data rd wr 0 w = None)"
proof -
  have "fst (rd n) = ARCHIVE_EOF \<and> w' = blocks_written rd wr 0 n w"
    if "stops_at rd wr n (blocks_written rd wr 0 n w)" and "(ARCHIVE_OK, w')
      = (if fst (rd n) = ARCHIVE_EOF then (ARCHIVE_OK, blocks_written rd wr 0 n w) else wr (snd (rd n)) (blocks_written rd wr 0 n w))" for n w'
    using that by (auto simp: stops_at_def split: if_splits) (metis fst_conv)+
  then have ok: "\<exists>n. fst (rd n) = ARCHIVE_EOF \<and> w' = blocks_written rd wr 0 n w" if "copy_data rd wr 0 w = Some (ARCHIVE_OK, w')" for w'
    using copy_data_Some [OF that] by blast
  have "(copy_data rd wr 0 w \<noteq> None) = (\<exists>n. stops_at rd wr n (blocks_written rd wr 0 n w))"
    using copy_data_Some [of rd wr 0 w] copy_data_stops [of rd wr _ 0 w] by fastforce
  then show ?thesis
    using ok unfolding stops_at_def by blast
qed

section \<open>Paths that leave the directory\<close>

definition escape :: "string \<Rightarrow> string \<Rightarrow> string" where
  "escape base target = concat (map (\<lambda>_. ''../'') (split (get_canonicalized_path base) CHR ''/'')) @ target"

lemma escapes:
  assumes "absolute base" and "absolute target"
  shows "get_canonicalized_path (base @ ''/'' @ escape base target) = get_canonicalized_path target"
proof -
  let ?b = "canonicalize [] (split base CHR ''/'')"
  have "split (escape base target) CHR ''/'' = replicate (length ?b) ''..'' @ split target CHR ''/''"
    by (simp add: escape_def split_ups split_gcp [OF assms(1)])
  then have "canonicalize [] (split (base @ ''/'' @ escape base target) CHR ''/'')
      = canonicalize (canonicalize ?b (replicate (length ?b) ''..'')) (split target CHR ''/'')"
    by (simp add: split_append canonicalize_append)
  also have "\<dots> = canonicalize [] (split target CHR ''/'')"
    using canonicalize_ups [of "[]" ?b] by simp
  finally show ?thesis
    using assms by (simp add: gcp_absolute)
qed

text \<open>
  C28. The target of an environment is not checked as its name is. When the name is refused the daemon removes the directory of the environment all
  the same; for every absolute path there is a target such that this is what it removes (in a directory of environments without symbolic links).
\<close>

theorem transfer_removes_anything:
  assumes c: "client_at d p = Some c" and "dc_status c \<notin> {TOINSTALL, WAITINSTALL, TOCOMPILE, WAITCOMPILE}" and "dc_pipe_from_child c < 0"
    and "dc_pipe_to_child c < 0" and base: "absolute (d_envbasedir d)" and "absolute path" and machine: "CHR ''/'' \<notin> set (d_machine_name d)"
  shows "\<exists>target victim. get_canonicalized_path victim = get_canonicalized_path path
    \<and> Daemon_handle_transfer_env p \<lparr>et_name = '''', et_target = target\<rparr> d
      = map_option (Pair False) (Daemon_handle_end p 144 (d\<lparr>d_removed_dirs := d_removed_dirs d @ [victim]\<rparr>))"
proof -
  let ?base = "d_envbasedir d @ ''/target='' @ d_machine_name d"
  let ?target = "d_machine_name d @ ''/'' @ escape ?base path"
  let ?victim = "?base @ ''/'' @ escape ?base path @ ''/''"
  have "absolute ?base"
    using base by simp
  from escapes [OF this, of "path @ ''/''"] have "get_canonicalized_path ?victim = get_canonicalized_path (path @ ''/'')"
    using assms(6) by (simp add: escape_def)
  also have "\<dots> = get_canonicalized_path path"
    using assms(6) split_append [of path "CHR ''/''" "''''"] by (simp add: gcp_absolute)
  finally have v: "get_canonicalized_path ?victim = get_canonicalized_path path" .
  have "Daemon_handle_transfer_env p \<lparr>et_name = '''', et_target = ?target\<rparr> d
      = map_option (Pair False) (Daemon_handle_end p 144 (d\<lparr>d_removed_dirs := d_removed_dirs d @ [?victim]\<rparr>))"
    using assms(2-4) by (simp add: Daemon_handle_transfer_env_def c start_install_environment_def legal_env_name_def
      remove_environment_files_def)
  with v show ?thesis
    by blast
qed

text \<open>Likewise an entry of the archive may be written anywhere the user of the daemon may write.\<close>

lemma archive_entry_escapes:
  assumes "absolute dirname" and "absolute path"
  shows "\<exists>name. get_canonicalized_path (dirname @ ''/'' @ name) = get_canonicalized_path path"
  using escapes [OF assms] by blast

section \<open>Cleaning and counting\<close>

text \<open>Everything in a directory, with its path.\<close>

fun inside :: "string \<Rightarrow> node \<Rightarrow> (string \<times> node) list"
  and inside_entries :: "string \<Rightarrow> (string \<times> node) list \<Rightarrow> (string \<times> node) list" where
  "inside dir (Dir es) = inside_entries dir es"
| "inside dir _ = []"
| "inside_entries dir [] = []"
| "inside_entries dir ((name, n) # es) = (dir @ ''/'' @ name, n) # inside (dir @ ''/'' @ name) n @ inside_entries dir es"

fun is_dir :: "node \<Rightarrow> bool" where
  "is_dir (Dir es) \<longleftrightarrow> True"
| "is_dir _ \<longleftrightarrow> False"

fun node_size :: "node \<Rightarrow> u64" where
  "node_size (Reg bytes) = bytes"
| "node_size _ = 0"

definition removable :: "rights \<Rightarrow> string \<times> node \<Rightarrow> bool" where
  "removable r e \<longleftrightarrow> may_stat r (fst e) \<and> may_remove r (fst e) \<and> (is_dir (snd e) \<longrightarrow> may_open r (fst e))"

lemma cleanup_result:
  "fst (cleanup_directory r dir n) \<longrightarrow> snd (cleanup_directory r dir n) = Dir []"
  "fst (cleanup_entries r dir es) \<longrightarrow> snd (cleanup_entries r dir es) = []"
  by (induction r dir n and r dir es rule: cleanup_directory_cleanup_entries.induct)
    (auto simp: Let_def split: prod.splits if_splits node.splits)

lemma cleanup_succeeds:
  "fst (cleanup_directory r dir n) \<longleftrightarrow> is_dir n \<and> may_open r dir \<and> (\<forall>e\<in>set (inside dir n). removable r e)"
  "fst (cleanup_entries r dir es) \<longleftrightarrow> (\<forall>e\<in>set (inside_entries dir es). removable r e)"
proof (induction dir n and dir es rule: inside_inside_entries.induct)
  case (4 dir name n es)
  then show ?case
    using cleanup_result(1) [of r "dir @ ''/'' @ name" n]
    by (cases n; cases "cleanup_directory r (dir @ ''/'' @ name) n")
      (auto simp: removable_def Let_def simp del: cleanup_directory.simps(1) inside.simps(1))
qed (auto simp: Let_def split: prod.splits)

lemma cleanup_leaves:
  "set (map fst (inside dir (snd (cleanup_directory r dir n)))) \<subseteq> set (map fst (inside dir n))"
  "set (map fst (inside_entries dir (snd (cleanup_entries r dir es)))) \<subseteq> set (map fst (inside_entries dir es))"
proof (induction dir n and dir es rule: inside_inside_entries.induct)
  case (4 dir name n es)
  then show ?case
    by (cases n; cases "cleanup_directory r (dir @ ''/'' @ name) n"; cases "cleanup_entries r dir es")
      (auto simp: Let_def simp del: cleanup_directory.simps(1) inside.simps(1) split: if_splits)
next
  case (1 dir es)
  then show ?case
    by (cases "cleanup_entries r dir es") simp
qed simp_all

lemma sumup_inside:
  "may_open r dir \<Longrightarrow> \<forall>e\<in>set (inside dir n). may_stat r (fst e) \<and> (is_dir (snd e) \<longrightarrow> may_open r (fst e))
    \<Longrightarrow> sumup_dir r dir n = sum_list (map (node_size \<circ> snd) (inside dir n))"
  "\<forall>e\<in>set (inside_entries dir es). may_stat r (fst e) \<and> (is_dir (snd e) \<longrightarrow> may_open r (fst e))
    \<Longrightarrow> sumup_entries r (dir @ ''/'') es = sum_list (map (node_size \<circ> snd) (inside_entries dir es))"
proof (induction dir n and dir es rule: inside_inside_entries.induct)
  case (4 dir name n es)
  then show ?case
    by (cases n) auto
qed auto

text \<open>The names that \<open>readdir\<close> gives for a directory, and the paths below the cache.\<close>

fun dir_names :: "node option \<Rightarrow> string list option" where
  "dir_names (Some (Dir es)) = Some (''.'' # ''..'' # map fst es)"
| "dir_names _ = None"

definition paths_below :: "string \<Rightarrow> node option \<Rightarrow> string set" where
  "paths_below dir w = (case w of None \<Rightarrow> {} | Some n \<Rightarrow> set (map fst (inside dir n)))"

text \<open>
  C31. Whether the cleaning of the cache succeeds, and what it leaves. It succeeds exactly when the directory can be given to the user and either it
  does not exist and can be made, or it exists and cannot be read, or it can be read and everything in it may be removed. A directory that exists but
  cannot be read is kept as it is, and that is taken for success. In the other cases of success nothing is left: its size is 0, and
  no environment is announced, however access to files is granted. Never is anything left that was not there. Links are removed, not followed.
\<close>

theorem cleanup_complete:
  "\<exists>ok w'. cleanup_cache r readable made owned basedir w = (ok, w')
    \<and> (ok \<longleftrightarrow> owned \<and> (case w of None \<Rightarrow> made = MkOk
         | Some n \<Rightarrow> readable \<longrightarrow> is_dir n \<and> may_open r basedir \<and> (\<forall>e\<in>set (inside basedir n). removable r e)))
    \<and> (w \<noteq> None \<and> \<not> readable \<longrightarrow> w' = w)
    \<and> (ok \<and> (w = None \<or> readable) \<longrightarrow> w' = Some (Dir []) \<and> sumup_dir r basedir (Dir []) = 0
         \<and> (\<forall>readdir xok. readdir basedir = dir_names w' \<longrightarrow> available_environments readdir xok basedir = []))
    \<and> paths_below basedir w' \<subseteq> paths_below basedir w"
proof (cases w)
  case None
  then show ?thesis
    by (auto simp: cleanup_cache_def paths_below_def available_environments_def)
next
  case (Some n)
  obtain ok n' where c: "cleanup_directory r basedir n = (ok, n')"
    by fastforce
  have ok: "ok \<longleftrightarrow> is_dir n \<and> may_open r basedir \<and> (\<forall>e\<in>set (inside basedir n). removable r e)"
    using cleanup_succeeds(1) [of r basedir n] by (simp add: c)
  have empty: "ok \<Longrightarrow> n' = Dir []" and less: "set (map fst (inside basedir n')) \<subseteq> set (map fst (inside basedir n))"
    using cleanup_result(1) [of r basedir n] cleanup_leaves(1) [of basedir r n] by (simp_all add: c)
  show ?thesis
  proof (cases "readable \<and> ok")
    case True
    then show ?thesis
      using ok empty by (auto simp: Some c cleanup_cache_def paths_below_def available_environments_def)
  next
    case False
    then show ?thesis
      using ok less by (auto simp: Some c cleanup_cache_def paths_below_def)
  qed
qed

section \<open>Other operations\<close>

text \<open>An environment is announced exactly when it is in a directory of a target and has an assembler.\<close>

lemma environment_announced:
  "(t, e) \<in> set (available_environments readdir xok basedir) \<longleftrightarrow>
    (\<exists>names envs. readdir basedir = Some names \<and> ''target='' @ t \<in> set names
      \<and> readdir (basedir @ ''/target='' @ t) = Some envs \<and> e \<in> set envs \<and> xok (basedir @ ''/target='' @ t @ ''/'' @ e @ ''/usr/bin/as''))"
proof -
  have split7: "take 7 d = ''target='' \<longleftrightarrow> (\<exists>t. d = ''target='' @ t)" for d :: string
  proof
    assume "take 7 d = ''target=''"
    then show "\<exists>t. d = ''target='' @ t"
      by (metis append_take_drop_id)
  qed auto
  have ld: "(u, e) \<in> set (list_target_dirs readdir xok v d) \<longleftrightarrow> u = v \<and> (\<exists>envs. readdir d = Some envs \<and> e \<in> set envs \<and> xok (d @ ''/'' @ e @ ''/usr/bin/as''))"
    for u v d
    by (cases "readdir d") (auto simp: list_target_dirs_def)
  have entry: "(t, e) \<in> set (if take 1 x = ''.'' then [] else if take 7 x = ''target=''
      then list_target_dirs readdir xok (drop 7 x) (basedir @ ''/'' @ x) else [])
    \<longleftrightarrow> x = ''target='' @ t \<and> (t, e) \<in> set (list_target_dirs readdir xok t (basedir @ ''/target='' @ t))" for x
    using split7 [of x] by (auto simp: ld)
  show ?thesis
  proof (cases "readdir basedir")
    case (Some names)
    have "(t, e) \<in> set (available_environments readdir xok basedir) \<longleftrightarrow> (\<exists>x\<in>set names. (t, e) \<in> set (if take 1 x = ''.'' then []
        else if take 7 x = ''target='' then list_target_dirs readdir xok (drop 7 x) (basedir @ ''/'' @ x) else []))"
      unfolding available_environments_def Some option.case set_concat set_map by blast
    then show ?thesis
      using Some unfolding entry by (simp add: ld)
  qed (simp add: available_environments_def)
qed

text \<open>A name that the child has written, with a newline, is taken whatever else is in the buffer; without the newline it is not.\<close>

lemma created_name:
  assumes "s \<noteq> ''''" and "NUL \<notin> set s" and "CHR 0x0A \<notin> set s" and "length s < 1023"
  shows "snd (finish_create_env (s @ [CHR 0x0A]) garbage basedir size_of old) = basedir @ ''/native/'' @ s"
proof -
  have 1: "takeWhile (\<lambda>c. c \<noteq> NUL) (s @ CHR 0x0A # r) = s @ CHR 0x0A # takeWhile (\<lambda>c. c \<noteq> NUL) r" for r
    using assms(2) by (subst takeWhile_append2) auto
  have 2: "takeWhile (\<lambda>c. c \<noteq> CHR 0x0A) (s @ CHR 0x0A # r) = s" for r
    using assms(3) by (subst takeWhile_append2) auto
  show ?thesis
    using assms(1,4) by (simp add: finish_create_env_def Let_def 1 2)
qed

lemma created_name_garbage: "snd (finish_create_env ''x'' ''y'' basedir size_of old) = basedir @ ''/native/xy''"
  by (simp add: finish_create_env_def Let_def)

text \<open>What the child reports as installed: no entry had an error when it was copied and finished.\<close>

lemma extracted_entries:
  assumes "extract_archive ext dirname es w = Some (True, w')" and "\<forall>e\<in>set es. fst e \<noteq> ARCHIVE_EOF"
  shows "\<forall>e\<in>set es. \<not> below_warn (fst e) \<and> (ae_size (snd e) > 0 \<longrightarrow>
    (\<exists>w1 r2 w2. copy_data (ae_read (snd e)) (write_block ext) 0 w1 = Some (r2, w2) \<and> \<not> below_warn r2))"
  using assms
proof (induction ext dirname es w rule: extract_archive.induct)
  case (2 ext dirname r entry es w)
  then show ?case
    by (auto simp: Let_def split: if_splits prod.splits Option.bind_splits)
qed simp

text \<open>A header that cannot be written is not noticed when the entry has no data, such as a directory or a link.\<close>

lemma header_failure_ignored:
  assumes "ae_size entry \<le> 0" and "\<And>w. finish_entry ext w = (ARCHIVE_OK, w)" and "\<And>s w. write_header ext s w = (ARCHIVE_FAILED, w)"
  shows "extract_archive ext dirname [(ARCHIVE_OK, entry)] w = Some (True, w)"
  using assms by (simp add: below_warn_def)

section \<open>Witnesses\<close>

theorem copy_data_returns_witness:
  "copy_data (\<lambda>k. (if k = 0 then ARCHIVE_OK else ARCHIVE_FATAL, ''ab'')) (\<lambda>b w. (ARCHIVE_OK, w @ b)) 0 [] = None"
  using copy_data_returns [of "\<lambda>k. (if k = 0 then ARCHIVE_OK else ARCHIVE_FATAL, ''ab'')" "\<lambda>b w. (ARCHIVE_OK, w @ b)" "[]"] by simp

theorem transfer_removes_anything_witness:
  "\<exists>target victim. get_canonicalized_path victim = ''/home''
    \<and> Daemon_handle_transfer_env 1 \<lparr>et_name = '''', et_target = target\<rparr> ((demo_daemon [(1, demo_client UNKNOWN_STATUS 4)])\<lparr>d_envbasedir := ''/var/tmp''\<rparr>)
      = map_option (Pair False) (Daemon_handle_end 1 144
          ((demo_daemon [(1, demo_client UNKNOWN_STATUS 4)])\<lparr>d_envbasedir := ''/var/tmp'', d_removed_dirs := [victim]\<rparr>))"
proof -
  let ?d = "(demo_daemon [(1, demo_client UNKNOWN_STATUS 4)])\<lparr>d_envbasedir := ''/var/tmp''\<rparr>"
  have c: "client_at ?d 1 = Some (demo_client UNKNOWN_STATUS 4)"
    by (simp add: client_at_def)
  have "get_canonicalized_path ''/home'' = ''/home''"
    by (simp add: get_canonicalized_path_def split_def)
  then show ?thesis
    using transfer_removes_anything [OF c, of "''/home''"] by (simp add: absolute_def demo_daemon_def)
qed

theorem cleanup_complete_witness:
  "cleanup_cache \<lparr>may_open = (\<lambda>_. True), may_stat = (\<lambda>_. True), may_remove = (\<lambda>_. True)\<rparr> True MkEexist True ''/e''
     (Some (Dir [(''a'', Reg 5), (''b'', Dir [(''c'', Link ''/'')])])) = (True, Some (Dir []))"
proof -
  let ?r = "\<lparr>may_open = (\<lambda>_. True), may_stat = (\<lambda>_. True), may_remove = (\<lambda>_. True)\<rparr>"
    and ?w = "Some (Dir [(''a'', Reg 5), (''b'', Dir [(''c'', Link ''/'')])])"
  obtain ok w' where c: "cleanup_cache ?r True MkEexist True ''/e'' ?w = (ok, w')"
    and ok: "ok \<longleftrightarrow> (\<forall>e\<in>set (inside ''/e'' (the ?w)). removable ?r e)" and w': "ok \<longrightarrow> w' = Some (Dir [])"
    using cleanup_complete [of ?r True MkEexist True "''/e''" ?w] by auto
  have ok
    using ok by (simp add: removable_def)
  then show ?thesis
    using c w' by simp
qed

end
