(* ===== verification/ClientEnv.thy ===== *)
theory ClientEnv
  imports CompileJob CxxString
begin

text \<open>
  What the client asks the system (the record \<open>client_env\<close>: environment variables, files, the output of the
  compiler), and the questions about the compiler of \<open>client/local.cpp\<close> and \<open>client/util.cpp\<close>. \<open>None\<close> is an
  uncaught exception, a failed assertion or a read outside a string.
\<close>

section \<open>The system\<close>

text \<open>The answer of \<open>lstat\<close>; a link comes with what \<open>readlink\<close> says, \<open>None\<close> when it fails.\<close>

datatype file_kind = FLink "string option" | FReg | FOther

record client_env =
  ce_getenv :: "string \<Rightarrow> string option"
  ce_readable :: "string \<Rightarrow> bool"
  ce_stat_reg :: "string \<Rightarrow> bool option"
  ce_lstat :: "string \<Rightarrow> file_kind option"
  ce_getcwd :: "string option"
  ce_run :: "string \<Rightarrow> string list \<Rightarrow> int \<Rightarrow> string"
  ce_isatty2 :: bool
  ce_gcc_color :: bool
  ce_gcc_caret :: bool
  ce_asserts :: bool

definition get_cwd :: "client_env \<Rightarrow> string" where
  "get_cwd env = (case ce_getcwd env of None \<Rightarrow> '''' | Some d \<Rightarrow> d)"

section \<open>Finding the compiler\<close>

fun split_colon :: "string \<Rightarrow> string list" where
  "split_colon [] = [[]]"
| "split_colon (c # s) =
     (if c = CHR '':'' then [] # split_colon s
      else (case split_colon s of [] \<Rightarrow> [[c]] | p # ps \<Rightarrow> (c # p) # ps))"

definition rs_program_name :: string where
  "rs_program_name = ''icecc''"

text \<open>The loop over the directories of \<open>PATH\<close>.\<close>

fun path_loop :: "client_env \<Rightarrow> string \<Rightarrow> bool \<Rightarrow> string \<Rightarrow> string list \<Rightarrow> string" where
  "path_loop env compiler after_selflink best_match [] = best_match"
| "path_loop env compiler after_selflink best_match (p # ps) =
     (let part = p @ ''/'' @ compiler;
          found = (let best = (if best_match = '''' then part else best_match)
                   in if after_selflink then part else path_loop env compiler after_selflink best ps);
          ignore = path_loop env compiler after_selflink best_match ps
      in case ce_lstat env part of
           None \<Rightarrow> ignore
         | Some (FLink None) \<Rightarrow> ignore
         | Some (FLink (Some buffer)) \<Rightarrow>
             (let target = find_basename buffer
              in if target = rs_program_name
                    \<or> after_selflink \<and> (target = ''tbcompiler'' \<or> target = ''distcc'' \<or> target = ''colorgcc'')
                 then path_loop env compiler True best_match ps
                 else found)
         | Some FOther \<Rightarrow> ignore
         | Some FReg \<Rightarrow> found)"

text \<open>A missing \<open>PATH\<close> makes a string of a null pointer.\<close>

definition compiler_path_lookup_helper :: "client_env \<Rightarrow> string \<Rightarrow> string \<Rightarrow> string option" where
  "compiler_path_lookup_helper env compiler compiler_path =
     (if contains compiler_path ''/'' then Some compiler_path
      else map_option (\<lambda>path. path_loop env compiler False '''' (split_colon path)) (ce_getenv env ''PATH''))"

definition compiler_path_lookup :: "client_env \<Rightarrow> string \<Rightarrow> string option" where
  "compiler_path_lookup env compiler = compiler_path_lookup_helper env compiler compiler"

definition find_compiler :: "client_env \<Rightarrow> compile_job \<Rightarrow> string option" where
  "find_compiler env job =
     (case (if m_language job = Lang_C then ce_getenv env ''ICECC_CC'' else None) of
        Some e \<Rightarrow> Some e
      | None \<Rightarrow>
          (case (if m_language job = Lang_CXX then ce_getenv env ''ICECC_CXX'' else None) of
             Some e \<Rightarrow> Some e
           | None \<Rightarrow> compiler_path_lookup_helper env (m_compiler_name job) (m_compiler_pathname job)))"

section \<open>What the compiler can do\<close>

text \<open>The assertion that the name has no slash is left out: \<open>analyze_program\<close> stores a base name.\<close>

definition compiler_is_clang :: "compile_job \<Rightarrow> bool" where
  "compiler_is_clang job =
     (m_language job \<noteq> Lang_Custom \<and>
      (contains (m_compiler_name job) ''clang'' \<or> contains (m_compiler_name job) ''icx''
       \<or> contains (m_compiler_name job) ''icpx'' \<or> contains (m_compiler_name job) ''dpcpp''))"

text \<open>\<open>(*s != '\0') && (*s != '0')\<close>\<close>

definition switched_on :: "string \<Rightarrow> bool" where
  "switched_on s = (s \<noteq> [] \<and> hd s \<noteq> CHR ''0'')"

definition compiler_only_rewrite_includes :: "client_env \<Rightarrow> compile_job \<Rightarrow> bool" where
  "compiler_only_rewrite_includes env job =
     (if m_block_rewrite_includes job then False
      else case ce_getenv env ''ICECC_REMOTE_CPP'' of
             Some v \<Rightarrow> switched_on v
           | None \<Rightarrow>
               (case (if compiler_is_clang job then ce_getenv env ''ICECC_CLANG_REMOTE_CPP'' else None) of
                  Some v \<Rightarrow> switched_on v
                | None \<Rightarrow> True))"

definition lower :: "string \<Rightarrow> string" where
  "lower s = map (\<lambda>c. let n = of_char c :: nat in if 65 \<le> n \<and> n \<le> 90 then char_of (n + 32) else c) s"

definition color_output_possible :: "client_env \<Rightarrow> bool" where
  "color_output_possible env =
     (ce_isatty2 env \<and> (case ce_getenv env ''TERM'' of None \<Rightarrow> False | Some t \<Rightarrow> lower t \<noteq> ''dumb''))"

definition compiler_has_color_output :: "client_env \<Rightarrow> compile_job \<Rightarrow> bool" where
  "compiler_has_color_output env job =
     (if \<not> color_output_possible env then False
      else if compiler_is_clang job then True
      else case ce_getenv env ''ICECC_COLOR_DIAGNOSTICS'' of
             Some v \<Rightarrow> v \<noteq> [] \<and> hd v = CHR ''1''
           | None \<Rightarrow> if ce_gcc_color env then True
                     else (case ce_getenv env ''GCC_COLORS'' of Some v \<Rightarrow> v \<noteq> [] | None \<Rightarrow> False))"

definition colorify_wanted :: "client_env \<Rightarrow> bool \<Rightarrow> compile_job \<Rightarrow> bool" where
  "colorify_wanted env explicit_color_diagnostics job =
     (if compiler_has_color_output env job then False
      else if explicit_color_diagnostics then False
      else if ce_getenv env ''ICECC_COLOR_DIAGNOSTICS'' \<noteq> None then False
      else if ce_getenv env ''EMACS'' \<noteq> None then False
      else color_output_possible env)"

definition ignore_unverified :: "client_env \<Rightarrow> bool" where
  "ignore_unverified env = (ce_getenv env ''ICECC_IGNORE_UNVERIFIED'' \<noteq> None)"

definition output_needs_workaround :: "client_env \<Rightarrow> bool \<Rightarrow> compile_job \<Rightarrow> bool" where
  "output_needs_workaround env explicit_no_show_caret job =
     (if compiler_is_clang job then False
      else if explicit_no_show_caret then False
      else case ce_getenv env ''ICECC_CARET_WORKAROUND'' of
             Some v \<Rightarrow> v \<noteq> [] \<and> hd v = CHR ''1''
           | None \<Rightarrow> ce_gcc_caret env)"

definition read_command_line :: "client_env \<Rightarrow> string \<Rightarrow> string list \<Rightarrow> int \<Rightarrow> string" where
  "read_command_line env command args fd =
     (let output = ce_run env command args fd
      in if output \<noteq> [] \<and> last output = CHR 0x0A then butlast output else output)"

definition clang_get_default_target :: "client_env \<Rightarrow> compile_job \<Rightarrow> string option" where
  "clang_get_default_target env job =
     map_option (\<lambda>c. read_command_line env c [''-dumpmachine''] 1) (find_compiler env job)"

section \<open>Flags for the native architecture\<close>

text \<open>\<open>s[i]\<close>: the character after the last is a NUL, all others are outside.\<close>

definition char_at :: "string \<Rightarrow> int \<Rightarrow> char option" where
  "char_at s i = (if 0 \<le> i \<and> i < int (length s) then Some (s ! nat i) else if i = int (length s) then Some NUL else None)"

text \<open>The line with the call of the compiler proper; the inner \<open>None\<close> is the exception of \<open>erase(npos)\<close>.\<close>

definition erase_before :: "string \<Rightarrow> string \<Rightarrow> string" where
  "erase_before pat s = (case sfind pat s of None \<Rightarrow> '''' | Some i \<Rightarrow> drop i s)"

definition cc1_line :: "bool \<Rightarrow> string \<Rightarrow> string option" where
  "cc1_line is_clang out =
     (let l = erase_before (if is_clang then [CHR 0x22] @ ''-cc1'' @ [CHR 0x22] else ''/cc1 '') out
      in case sfind [CHR 0x0A] l of
           Some i \<Rightarrow> Some (take i l)
         | None \<Rightarrow> if is_clang then Some l else None)"

fun same_forward :: "string \<Rightarrow> string \<Rightarrow> nat \<Rightarrow> int \<Rightarrow> int option" where
  "same_forward f n 0 i = Some i"
| "same_forward f n (Suc k) i =
     (case (char_at f i, char_at n i) of
        (Some a, Some b) \<Rightarrow> if a = b then same_forward f n k (i + 1) else Some i
      | _ \<Rightarrow> None)"

fun same_backward :: "string \<Rightarrow> string \<Rightarrow> int \<Rightarrow> nat \<Rightarrow> int \<Rightarrow> int option" where
  "same_backward f n diff 0 i = Some i"
| "same_backward f n diff (Suc k) i =
     (case (char_at f i, char_at n (i + diff)) of
        (Some a, Some b) \<Rightarrow> if a = b then same_backward f n diff k (i - 1) else Some i
      | _ \<Rightarrow> None)"

text \<open>\<open>while (start >= 0 && s[start] != ' ') --start; ++start;\<close>\<close>

function word_start :: "string \<Rightarrow> int \<Rightarrow> int option" where
  "word_start s i =
     (if i < 0 then Some (i + 1)
      else case char_at s i of None \<Rightarrow> None | Some c \<Rightarrow> if c = CHR '' '' then Some (i + 1) else word_start s (i - 1))"
  by pat_completeness auto

termination
  by (relation "measure (\<lambda>(s, i). nat (i + 1))") auto

text \<open>\<open>while (i < limit && s[i] != c) ++i;\<close>\<close>

function scan_to :: "string \<Rightarrow> char \<Rightarrow> int \<Rightarrow> int \<Rightarrow> int option" where
  "scan_to s c limit i =
     (if i \<ge> limit then Some i
      else case char_at s i of None \<Rightarrow> None | Some d \<Rightarrow> if d = c then Some i else scan_to s c limit (i + 1))"
  by pat_completeness auto

termination
  by (relation "measure (\<lambda>(s, c, limit, i). nat (limit - i))") auto

text \<open>\<open>s.substr(i, n)\<close> throws when \<open>i\<close> is beyond the end.\<close>

definition substr :: "string \<Rightarrow> int \<Rightarrow> int \<Rightarrow> string option" where
  "substr s i n = (if 0 \<le> i \<and> i \<le> int (length s) then Some (take (nat n) (drop (nat i) s)) else None)"

lemma scan_to_ge: "scan_to s c limit i = Some j \<Longrightarrow> i \<le> j"
proof (induction s c limit i rule: scan_to.induct)
  case (1 s c limit i)
  then show ?case
    by (subst (asm) (2) scan_to.simps) (fastforce split: if_splits option.splits)
qed

declare word_start.simps [simp del] scan_to.simps [simp del]

text \<open>The arguments in the part that differs; quoted ones without their quotes.\<close>

function arch_args :: "bool \<Rightarrow> string \<Rightarrow> int \<Rightarrow> int \<Rightarrow> string list option" where
  "arch_args is_clang s start limit =
     (if start \<ge> limit then Some []
      else case char_at s start of
        None \<Rightarrow> None
      | Some c \<Rightarrow>
          (let quoted = (c = CHR 0x22)
           in case scan_to s (if quoted then CHR 0x22 else CHR '' '') limit (if quoted then start + 1 else start) of
                None \<Rightarrow> None
              | Some pos \<Rightarrow>
                  (case (if quoted then substr s (start + 1) (pos - start - 1) else substr s start (pos - start)) of
                     None \<Rightarrow> None
                   | Some arg \<Rightarrow>
                       map_option (\<lambda>l. (if is_clang then [''-Xclang''] else []) @ arg # l)
                         (arch_args is_clang s (if quoted then pos + 2 else pos + 1) limit))))"
  by pat_completeness auto

termination
  by (relation "measure (\<lambda>(q, s, start, limit). nat (limit - start))") (fastforce dest: scan_to_ge split: if_splits)+

definition arch_diff :: "bool \<Rightarrow> string \<Rightarrow> string \<Rightarrow> string list option" where
  "arch_diff is_clang f n =
     (let flags_end = int (length f)
      in case same_forward f n (length f) 0 of
           None \<Rightarrow> None
         | Some start0 \<Rightarrow>
             if start0 = flags_end then Some []
             else
               (case (same_backward f n (int (length n) - flags_end) (nat (flags_end - 1 - start0)) (flags_end - 1), word_start f start0) of
                  (Some end0, Some start1) \<Rightarrow>
                    (case (char_at f start1, char_at f (start1 + 1)) of
                       (Some a, b) \<Rightarrow>
                         (let start2 = (if a \<noteq> CHR ''-'' then (case b of None \<Rightarrow> None
                                          | Some b' \<Rightarrow> if b' \<noteq> CHR ''-'' then word_start f (start1 - 2) else Some start1)
                                        else Some start1)
                          in case (start2, scan_to f (CHR '' '') flags_end end0) of
                               (Some st, Some en) \<Rightarrow> arch_args is_clang f st (en + 1)
                             | _ \<Rightarrow> None)
                     | _ \<Rightarrow> None)
                | _ \<Rightarrow> None))"

text \<open>The inner \<open>None\<close> is the result \<open>false\<close>.\<close>

definition compiler_get_arch_flags :: "client_env \<Rightarrow> compile_job \<Rightarrow> bool \<Rightarrow> bool \<Rightarrow> bool \<Rightarrow> string list option option" where
  "compiler_get_arch_flags env job march mcpu mtune =
     (case find_compiler env job of
        None \<Rightarrow> None
      | Some compiler \<Rightarrow>
          (let args = [''-###'', ''-E'', ''-''];
               is_clang = compiler_is_clang job;
               normal_output = ce_run env compiler args 2;
               flags_output = ce_run env compiler (args @ (if march then [''-march=native''] else [])
                 @ (if mcpu then [''-mcpu=native''] else []) @ (if mtune then [''-mtune=native''] else [])) 2
           in case (cc1_line is_clang flags_output, cc1_line is_clang normal_output) of
                (Some f, Some n) \<Rightarrow> map_option Some (arch_diff is_clang f n)
              | _ \<Rightarrow> Some None))"

declare arch_args.simps [simp del]

end
