(* ===== verification/ClientArgs.thy ===== *)
theory ClientArgs
  imports ClientEnv
begin

text \<open>
  \<open>client/arg.cpp\<close>: the command line of the compiler is split into the arguments for the preprocessor on this
  machine, those for the compiler on another one, and those for both, and it is decided whether the
  compilation can be sent away at all. \<open>None\<close> is an uncaught exception, a string made of a null pointer, a
  failed assertion, or an iterator that runs past the end.
\<close>

section \<open>Programs and files\<close>

definition should_always_build_locally :: "string \<Rightarrow> bool" where
  "should_always_build_locally filepath =
     (let filename = find_basename filepath
      in prefix ''conftest.'' filename \<or> prefix ''tmp.conftest.'' filename
         \<or> prefix ''Check'' filename \<and>
             list_ex (\<lambda>p. prefix p filename)
               [''CheckIncludeFile.'', ''CheckFunctionExists.'', ''CheckSymbolExists.'', ''CheckTypeSize.'', ''CheckPrototypeDefinition.''])"

text \<open>The results are \<open>always_local\<close>, the job and \<open>icerun\<close>.\<close>

definition analyze_program :: "string \<Rightarrow> compile_job \<Rightarrow> bool \<Rightarrow> bool \<times> compile_job \<times> bool" where
  "analyze_program name job icerun =
     (let compiler_name = find_basename name;
          job1 = job\<lparr>m_compiler_name := compiler_name\<rparr>
      in if icerun then (True, job1\<lparr>m_language := Lang_Custom\<rparr>, icerun)
         else if is_cpp_compiler compiler_name \<or> is_c_compiler compiler_name then
           (contains compiler_name ''dpcpp'', job1\<lparr>m_language := (if is_cpp_compiler compiler_name then Lang_CXX else Lang_C)\<rparr>, icerun)
         else (True, job1\<lparr>m_language := Lang_Custom\<rparr>, True))"

text \<open>The list ends with two literals without a comma between them, which are one string.\<close>

definition arguments_with_space :: "string list" where
  "arguments_with_space =
     [''-dyld-prefix'', ''-gcc-toolchain'', ''--param'', ''--sysroot'', ''--system-header-prefix'', ''-target'', ''--assert'',
      ''--allowable_client'', ''-arch'', ''-arch_only'', ''-arcmt-migrate-report-output'', ''--prefix'', ''-bundle_loader'',
      ''-dependency-dot'', ''-dependency-file'', ''-dylib_file'', ''-exported_symbols_list'', ''--bootclasspath'', ''--CLASSPATH'',
      ''--classpath'', ''--resource'', ''--encoding'', ''--extdirs'', ''-filelist'', ''-fmodule-implementation-of'', ''-fmodule-name'',
      ''-fmodules-user-build-path'', ''-fnew-alignment'', ''-force_load'', ''--output-class-directory'', ''-framework'',
      ''-frewrite-map-file'', ''-ftrapv-handler'', ''-image_base'', ''-init'', ''-install_name'', ''-lazy_framework'', ''-lazy_library'',
      ''-meabi'', ''-mhwdiv'', ''-mllvm'', ''-module-dependency-dir'', ''-mthread-model'', ''-multiply_defined'',
      ''-multiply_defined_unused'', ''-rpath'', ''--rtlib'', ''-seg_addr_table'', ''-seg_addr_table_filename'',
      ''-segs_read_only_addr'', ''-segs_read_write_addr'', ''-serialize-diagnostics'', ''--serialize-diagnostics'', ''-std'',
      ''--stdlib'', ''--force-link'', ''-umbrella'', ''-unexported_symbols_list'', ''-weak_library'', ''-weak_reference_mismatches'',
      ''-B'', ''-D'', ''-U'', ''-I'', ''-i'', ''--include-directory'', ''-L'', ''-l'', ''--library-directory'', ''-MF'', ''-MT'', ''-MQ'',
      ''-cxx-isystem'', ''-c-isystem'', ''-idirafter'', ''--include-directory-after'', ''-iframework'', ''-iframeworkwithsysroot'',
      ''-imacros'', ''-imultilib'', ''-iprefix'', ''--include-prefix'', ''-iquote'', ''-include'', ''-include-pch'', ''-isysroot'',
      ''-isystem'', ''-isystem-after'', ''-ivfsoverlay'', ''-iwithprefix'', ''--include-with-prefix'', ''--include-with-prefix-after'',
      ''-iwithprefixbefore'', ''--include-with-prefix-before'', ''-iwithsysroot-index-store-path'']"

definition is_argument_with_space :: "string \<Rightarrow> bool" where
  "is_argument_with_space argument = List.member arguments_with_space argument"

section \<open>Options of the assembler\<close>

text \<open>
  \<open>analyze_assembler_arg\<close> for one option: the answer whether it must stay local, the option (an existing file is
  replaced by its absolute name and added to the extra files), and the static variable \<open>second_option\<close>.
\<close>

definition analyze_assembler_arg :: "client_env \<Rightarrow> string \<Rightarrow> bool \<times> string list \<Rightarrow> (bool \<times> string \<times> bool \<times> string list) option" where
  "analyze_assembler_arg env arg st =
     (let (second_option, extrafiles) = st
      in if second_option then Some (False, arg, False, extrafiles)
         else if prefix ''-a'' arg then
           (let rest = dropWhile (\<lambda>c. let n = of_char c :: nat in 97 \<le> n \<and> n \<le> 122) (drop 2 arg)
            in Some (rest \<noteq> [] \<and> hd rest = CHR ''='', arg, second_option, extrafiles))
         else if arg = ''--debug-prefix-map'' \<or> arg = ''--defsym'' then Some (False, arg, True, extrafiles)
         else if arg \<noteq> [] \<and> hd arg = CHR ''@'' then Some (True, arg, second_option, extrafiles)
         else if arg \<noteq> [] \<and> hd arg = CHR ''-'' then Some (False, arg, second_option, extrafiles)
         else if ce_readable env arg then
           map_option (\<lambda>f. (False, f, second_option, extrafiles @ [f])) (get_absfilename (get_cwd env) arg)
         else Some (True, arg, second_option, extrafiles))"

text \<open>The loop of the case \<open>-Wa,\<close>: each option overwrites the variable \<open>local\<close>.\<close>

fun assembler_loop :: "client_env \<Rightarrow> string list \<Rightarrow> bool \<Rightarrow> string \<Rightarrow> bool \<times> string list \<Rightarrow> (bool \<times> string \<times> bool \<times> string list) option" where
  "assembler_loop env [] local remote_arg st = Some (local, remote_arg, st)"
| "assembler_loop env (a # as) local remote_arg st =
     (case analyze_assembler_arg env a st of
        None \<Rightarrow> None
      | Some (local', arg, st') \<Rightarrow> assembler_loop env as local' (remote_arg @ '','' @ arg) st')"

section \<open>Classes of options\<close>

text \<open>
  What the long chain of tests in \<open>analyse_argv\<close> does with an option; branches with the same body share a class. The
  tests are those of the code, in its order.
\<close>

datatype option_class =
    ForceLocal            \<comment> \<open>\<open>always_local = true\<close>, a local argument\<close>
  | DepSide               \<comment> \<open>\<open>-MD\<close> and the like\<close>
  | PlainLocal            \<comment> \<open>a local argument\<close>
  | NeedsNext bool        \<comment> \<open>it and the next are local arguments; whether \<open>seen_mf\<close> is set\<close>
  | PairRemote            \<comment> \<open>\<open>--param\<close>\<close>
  | DashB
  | Assembler
  | DashS
  | SplitDwarf
  | DashX
  | MarchNative | McpuNative | MtuneNative
  | DashC
  | Output
  | CppPair               \<comment> \<open>\<open>-D\<close> and \<open>-U\<close> alone\<close>
  | LocalPair             \<comment> \<open>\<open>-I\<close> and the like\<close>
  | CppSingle
  | ColorExplicit | ColorAuto | NoCaret | Caret
  | FileArg string        \<comment> \<open>the prefix before the name of a file\<close>
  | Xclang
  | Target | TargetEq
  | Std
  | UnusedMacros bool
  | Pedantic
  | Arch
  | Lto
  | OtherOption

definition local_pair_options :: "string list" where
  "local_pair_options =
     [''-I'', ''-i'', ''--include-directory'', ''-L'', ''-l'', ''--library-directory'', ''-MF'', ''-MT'', ''-MQ'', ''-cxx-isystem'',
      ''-c-isystem'', ''-idirafter'', ''--include-directory-after'', ''-iframework'', ''-iframeworkwithsysroot'', ''-imacros'',
      ''-imultilib'', ''-iprefix'', ''--include-prefix'', ''-iquote'', ''-include'', ''-include-pch'', ''-isysroot'', ''-isystem'',
      ''-isystem-after'', ''-ivfsoverlay'', ''-iwithprefix'', ''-serialize-diagnostics'', ''--serialize-diagnostics'',
      ''-fmodules-validate-once-per-build-session'', ''--include-with-prefix'', ''--include-with-prefix-after'',
      ''-iwithprefixbefore'', ''--include-with-prefix-before'', ''-iwithsysroot'', ''-index-store-path'']"

definition second_char :: "string \<Rightarrow> char \<Rightarrow> bool" where
  "second_char a c = (length a > 1 \<and> a ! 1 = c)"

definition file_prefixes :: "string list" where
  "file_prefixes = [''-fplugin='', ''-fsanitize-blacklist='', ''-fprofile-sample-use='', ''-fprofile-instr-use='']"

definition classify :: "string \<Rightarrow> option_class" where
  "classify a =
     (if a = ''-E'' then ForceLocal
      else if prefix ''-fdump'' a \<or> List.member [''-combine'', ''-fsyntax-only''] a \<or> prefix ''-ftime-report'' a
        \<or> List.member [''-ftime-trace'', ''-fsycl''] a then ForceLocal
      else if List.member [''-MD'', ''-MMD''] a \<or> prefix ''-Wp,-MD'' a \<or> prefix ''-Wp,-MMD'' a then DepSide
      else if List.member [''-MG'', ''-MP''] a then PlainLocal
      else if a = ''-MF'' \<or> prefix ''-Wp,-MF'' a then NeedsNext True
      else if List.member [''-MT'', ''-MQ''] a \<or> prefix ''-Wp,-MT'' a \<or> prefix ''-Wp,-MQ'' a then NeedsNext False
      else if second_char a (CHR ''M'') then ForceLocal
      else if a = ''--param'' then PairRemote
      else if second_char a (CHR ''B'') then DashB
      else if prefix ''-Wa,'' a then Assembler
      else if a = ''-S'' then DashS
      else if List.member [''-fprofile-arcs'', ''-ftest-coverage'', ''--coverage'', ''-frepo'', ''-fprofile-generate'', ''-fprofile-use'',
          ''-save-temps'', ''--save-temps''] a \<or> prefix ''-save-temps='' a \<or> prefix ''--save-temps='' a \<or> a = ''-fbranch-probabilities''
        then ForceLocal
      else if a = ''-gsplit-dwarf'' then SplitDwarf
      else if a = ''-x'' then DashX
      else if a = ''-march=native'' then MarchNative
      else if a = ''-mcpu=native'' then McpuNative
      else if a = ''-mtune=native'' then MtuneNative
      else if List.member [''-fexec-charset'', ''-fwide-exec-charset'', ''-finput-charset''] a then ForceLocal
      else if a = ''-c'' then DashC
      else if prefix ''-o'' a then Output
      else if List.member [''-D'', ''-U''] a then CppPair
      else if List.member local_pair_options a \<or> prefix ''-fbuild-session-file='' a then LocalPair
      else if List.member [''-fmodules'', ''-fcxx-modules'', ''-fmodules-ts''] a \<or> prefix ''-fmodules-cache-path='' a then PlainLocal
      else if prefix ''-Wp,'' a \<or> prefix ''-D'' a \<or> prefix ''-U'' a then CppSingle
      else if prefix ''-I'' a \<or> prefix ''-l'' a \<or> prefix ''-L'' a then PlainLocal
      else if a = ''-undef'' then CppSingle
      else if List.member [''-nostdinc'', ''-nostdinc++'', ''-MD'', ''-MMD'', ''-MG'', ''-MP''] a then PlainLocal
      else if List.member [''-Wmissing-include-dirs'', ''-Werror=missing-include-dirs''] a then PlainLocal
      else if List.member [''-fno-color-diagnostics'', ''-fcolor-diagnostics'', ''-fno-diagnostics-color'', ''-fdiagnostics-color=never'',
          ''-fdiagnostics-color'', ''-fdiagnostics-color=always''] a then ColorExplicit
      else if a = ''-fdiagnostics-color=auto'' then ColorAuto
      else if a = ''-fno-diagnostics-show-caret'' then NoCaret
      else if a = ''-fdiagnostics-show-caret'' then Caret
      else case find (\<lambda>p. prefix p a) file_prefixes of
        Some p \<Rightarrow> FileArg p
      | None \<Rightarrow>
          if a = ''-Xclang'' then Xclang
          else if a = ''-target'' then Target
          else if prefix ''--target='' a then TargetEq
          else if prefix ''-std='' a then Std
          else if List.member [''-Wunused-macros'', ''-Werror=unused-macros''] a then UnusedMacros True
          else if a = ''-Wno-unused-macros'' then UnusedMacros False
          else if List.member [''-pedantic'', ''-Wpedantic'', ''-pedantic-errors''] a then Pedantic
          else if a = ''-arch'' then Arch
          else if prefix ''-flto'' a then Lto
          else OtherOption)"

section \<open>The scan of the arguments\<close>

text \<open>The local variables of \<open>analyse_argv\<close>, the job, and what it changes outside.\<close>

record scan =
  sc_args :: arguments_list
  sc_ofile :: string
  sc_always_local :: bool
  sc_seen_c :: bool
  sc_seen_s :: bool
  sc_seen_mf :: bool
  sc_seen_md :: bool
  sc_seen_split_dwarf :: bool
  sc_seen_target :: bool
  sc_wunused_macros :: bool
  sc_seen_arch :: bool
  sc_seen_pedantic :: bool
  sc_seen_imacros :: bool
  sc_seen_march_native :: bool
  sc_seen_mcpu_native :: bool
  sc_seen_mtune_native :: bool
  sc_seen_parallel_flto :: string
  sc_standard :: "string option"
  sc_job :: compile_job
  sc_extrafiles :: "string list"
  sc_second_option :: bool
  sc_explicit_color :: bool
  sc_explicit_no_caret :: bool

definition scan_init :: "bool \<Rightarrow> compile_job \<Rightarrow> string list \<Rightarrow> bool \<Rightarrow> scan" where
  "scan_init always_local job extrafiles second_option =
     \<lparr>sc_args = [], sc_ofile = '''', sc_always_local = always_local, sc_seen_c = False, sc_seen_s = False, sc_seen_mf = False,
      sc_seen_md = False, sc_seen_split_dwarf = False, sc_seen_target = False, sc_wunused_macros = False, sc_seen_arch = False,
      sc_seen_pedantic = False, sc_seen_imacros = False, sc_seen_march_native = False, sc_seen_mcpu_native = False,
      sc_seen_mtune_native = False, sc_seen_parallel_flto = '''', sc_standard = None, sc_job = job, sc_extrafiles = extrafiles,
      sc_second_option = second_option, sc_explicit_color = False, sc_explicit_no_caret = False\<rparr>"

definition add_arg :: "string \<Rightarrow> argument_type \<Rightarrow> scan \<Rightarrow> scan" where
  "add_arg a t st = st\<lparr>sc_args := append_arg (sc_args st) a t\<rparr>"

definition force_local :: "scan \<Rightarrow> scan" where
  "force_local st = st\<lparr>sc_always_local := True\<rparr>"

text \<open>\<open>if (argv[i + 1]) args.append(argv[++i], t)\<close>: the new state and how many arguments have been taken.\<close>

definition take_next :: "argument_type \<Rightarrow> string list \<Rightarrow> scan \<Rightarrow> scan \<times> nat" where
  "take_next t rest st = (case rest of [] \<Rightarrow> (st, 0) | b # _ \<Rightarrow> (add_arg b t st, 1))"

text \<open>A file named by an argument: its absolute name is an extra file, and a missing one forces a local job.\<close>

definition file_arg :: "client_env \<Rightarrow> string \<Rightarrow> scan \<Rightarrow> (string \<times> scan) option" where
  "file_arg env f st =
     (if ce_readable env f
      then map_option (\<lambda>g. (g, st\<lparr>sc_extrafiles := sc_extrafiles st @ [g]\<rparr>)) (get_absfilename (get_cwd env) f)
      else Some (f, force_local st))"

definition scan_x :: "string list \<Rightarrow> scan \<Rightarrow> scan \<times> nat" where
  "scan_x rest st =
     (case rest of
        [] \<Rightarrow> (force_local st, 0)
      | opt # _ \<Rightarrow>
          (let st1 = add_arg opt Arg_Rest st;
               lang = (if opt = ''c'' then Some Lang_C else if opt = ''c++'' then Some Lang_CXX
                       else if opt = ''objective-c'' then Some Lang_OBJC else if opt = ''objective-c++'' then Some Lang_OBJCXX else None)
           in case lang of
                Some l \<Rightarrow> (st1\<lparr>sc_job := (sc_job st1)\<lparr>m_language := l\<rparr>\<rparr>, 1)
              | None \<Rightarrow> (force_local st1, 1)))"

definition scan_output :: "string \<Rightarrow> string list \<Rightarrow> scan \<Rightarrow> scan \<times> nat" where
  "scan_output a rest st =
     (let (ofile, k) = (if a = ''-o'' then (case rest of [] \<Rightarrow> (sc_ofile st, 0) | b # _ \<Rightarrow> (b, 1)) else (drop 2 a, 0));
          st1 = st\<lparr>sc_ofile := ofile\<rparr>
      in (if ofile = ''-'' then force_local st1 else st1, k))"

definition scan_local_pair :: "string \<Rightarrow> string list \<Rightarrow> scan \<Rightarrow> scan \<times> nat" where
  "scan_local_pair a rest st =
     (let st1 = add_arg a Arg_Local (if a = ''-imacros'' then st\<lparr>sc_seen_imacros := True\<rparr> else st)
      in case rest of
           [] \<Rightarrow> (st1, 0)
         | b # _ \<Rightarrow> (add_arg b Arg_Local (if prefix ''-O'' b then force_local st1 else st1), 1))"

definition scan_xclang :: "client_env \<Rightarrow> string \<Rightarrow> string list \<Rightarrow> scan \<Rightarrow> (scan \<times> nat) option" where
  "scan_xclang env a rest st =
     (case rest of
        [] \<Rightarrow> Some (st, 0)
      | p # rest1 \<Rightarrow>
          (let st1 = add_arg p Arg_Rest (add_arg a Arg_Rest st)
           in if p = ''-load'' then
                (case rest1 of
                   x # f # _ \<Rightarrow>
                     if x = ''-Xclang'' then
                       map_option (\<lambda>(f', st2). (add_arg f' Arg_Rest (add_arg x Arg_Rest st2), 3)) (file_arg env f st1)
                     else Some (st, 1)
                 | _ \<Rightarrow> Some (st, 1))
              else if p = ''-building-pch-with-obj'' then Some (force_local st1, 1)
              else Some (st1, 1)))"

definition scan_assembler :: "client_env \<Rightarrow> string \<Rightarrow> scan \<Rightarrow> scan option" where
  "scan_assembler env a st =
     (case assembler_loop env (items_of CHR '','' (drop 4 a)) False ''-Wa'' (sc_second_option st, sc_extrafiles st) of
        None \<Rightarrow> None
      | Some (local, remote_arg, second_option, extrafiles) \<Rightarrow>
          (let st1 = st\<lparr>sc_second_option := second_option, sc_extrafiles := extrafiles\<rparr>
           in Some (if local then add_arg a Arg_Local (force_local st1) else add_arg remote_arg Arg_Remote st1)))"

text \<open>The assertion \<open>assert(is_argument_with_space(a))\<close>.\<close>

definition asserted :: "client_env \<Rightarrow> string \<Rightarrow> 'a \<Rightarrow> 'a option" where
  "asserted env a r = (if ce_asserts env \<and> \<not> is_argument_with_space a then None else Some r)"

text \<open>One option \<open>a\<close> with the arguments that follow; the second result is the number of these it takes.\<close>

definition scan_option :: "client_env \<Rightarrow> argument_type \<Rightarrow> string \<Rightarrow> string list \<Rightarrow> scan \<Rightarrow> (scan \<times> nat) option" where
  "scan_option env Arg_Cpp a rest st =
     (case classify a of
        ForceLocal \<Rightarrow> Some (add_arg a Arg_Local (force_local st), 0)
      | DepSide \<Rightarrow>
          (let st1 = add_arg a Arg_Local (st\<lparr>sc_seen_md := True\<rparr>)
           in Some (if (prefix ''-Wp,-MD'' a \<or> prefix ''-Wp,-MMD'' a) \<and> CHR '','' \<in> set (drop 7 a)
                    then st1\<lparr>sc_seen_mf := True\<rparr> else st1, 0))
      | PlainLocal \<Rightarrow> Some (add_arg a Arg_Local st, 0)
      | NeedsNext mf \<Rightarrow>
          (case rest of
             [] \<Rightarrow> None
           | b # _ \<Rightarrow> Some (add_arg b Arg_Local (add_arg a Arg_Local (if mf then st\<lparr>sc_seen_mf := True\<rparr> else st)), 1))
      | PairRemote \<Rightarrow> asserted env a (take_next Arg_Remote rest (add_arg a Arg_Remote st))
      | DashB \<Rightarrow>
          (let st1 = add_arg a Arg_Local (force_local st)
           in if a = ''-B'' then asserted env a (take_next Arg_Local rest st1) else Some (st1, 0))
      | Assembler \<Rightarrow> map_option (\<lambda>st1. (st1, 0)) (scan_assembler env a st)
      | DashS \<Rightarrow> Some (st\<lparr>sc_seen_s := True\<rparr>, 0)
      | SplitDwarf \<Rightarrow> Some ((add_arg a Arg_Rest st)\<lparr>sc_seen_split_dwarf := True\<rparr>, 0)
      | DashX \<Rightarrow> Some (scan_x rest (add_arg a Arg_Rest st))
      | MarchNative \<Rightarrow> Some ((add_arg a Arg_Rest st)\<lparr>sc_seen_march_native := True\<rparr>, 0)
      | McpuNative \<Rightarrow> Some ((add_arg a Arg_Rest st)\<lparr>sc_seen_mcpu_native := True\<rparr>, 0)
      | MtuneNative \<Rightarrow> Some ((add_arg a Arg_Rest st)\<lparr>sc_seen_mtune_native := True\<rparr>, 0)
      | DashC \<Rightarrow> Some (st\<lparr>sc_seen_c := True\<rparr>, 0)
      | Output \<Rightarrow> Some (scan_output a rest st)
      | CppPair \<Rightarrow> asserted env a (take_next Arg_Cpp rest (add_arg a Arg_Cpp st))
      | LocalPair \<Rightarrow> asserted env a (scan_local_pair a rest st)
      | CppSingle \<Rightarrow> Some (add_arg a Arg_Cpp st, 0)
      | ColorExplicit \<Rightarrow> Some ((add_arg a Arg_Rest st)\<lparr>sc_explicit_color := True\<rparr>, 0)
      | ColorAuto \<Rightarrow> Some (st\<lparr>sc_explicit_color := False\<rparr>, 0)
      | NoCaret \<Rightarrow> Some ((add_arg a Arg_Rest st)\<lparr>sc_explicit_no_caret := True\<rparr>, 0)
      | Caret \<Rightarrow> Some ((add_arg a Arg_Rest st)\<lparr>sc_explicit_no_caret := False\<rparr>, 0)
      | FileArg p \<Rightarrow> map_option (\<lambda>(f, st1). (add_arg (p @ f) Arg_Rest st1, 0)) (file_arg env (drop (length p) a) st)
      | Xclang \<Rightarrow> scan_xclang env a rest st
      | Target \<Rightarrow> Some (take_next Arg_Rest rest (add_arg a Arg_Rest (st\<lparr>sc_seen_target := True\<rparr>)))
      | TargetEq \<Rightarrow> Some (add_arg a Arg_Rest (st\<lparr>sc_seen_target := True\<rparr>), 0)
      | Std \<Rightarrow> Some ((add_arg a Arg_Rest st)\<lparr>sc_standard := Some (drop 5 a)\<rparr>, 0)
      | UnusedMacros b \<Rightarrow> Some ((add_arg a Arg_Rest st)\<lparr>sc_wunused_macros := b\<rparr>, 0)
      | Pedantic \<Rightarrow> Some ((add_arg a Arg_Rest st)\<lparr>sc_seen_pedantic := True\<rparr>, 0)
      | Arch \<Rightarrow>
          Some (take_next Arg_Rest rest
            (add_arg a Arg_Rest ((if sc_seen_arch st then force_local st else st)\<lparr>sc_seen_arch := False\<rparr>)))
      | Lto \<Rightarrow>
          Some (let st1 = add_arg a Arg_Rest st
                in if compiler_is_clang (sc_job st1) \<or> a \<noteq> ''-flto'' \<and> a \<noteq> ''-flto=1''
                   then st1\<lparr>sc_seen_parallel_flto := a\<rparr> else st1, 0)
      | OtherOption \<Rightarrow>
          Some (if is_argument_with_space a then take_next Arg_Rest rest (add_arg a Arg_Rest st) else (add_arg a Arg_Rest st, 0)))"

text \<open>The loop over \<open>argv\<close>.\<close>

fun scan_argv :: "client_env \<Rightarrow> bool \<Rightarrow> argument_type \<Rightarrow> string list \<Rightarrow> scan \<Rightarrow> scan option" where
  "scan_argv env icerun Arg_Cpp [] st = Some st"
| "scan_argv env icerun Arg_Cpp (a # rest) st =
     (if icerun then scan_argv env icerun Arg_Cpp rest (add_arg a Arg_Local st)
      else if prefix ''-'' a then
        (case scan_option env Arg_Cpp a rest st of
           None \<Rightarrow> None
         | Some (st1, k) \<Rightarrow> scan_argv env icerun Arg_Cpp (drop k rest) st1)
      else scan_argv env icerun Arg_Cpp rest (add_arg a (if prefix ''@'' a then Arg_Local else Arg_Rest) st))"

section \<open>The input file\<close>

text \<open>
  The loop that looks for the input file among the arguments: the arguments without it, its name, whether the job is
  local now, and whether there were two, in which case the arguments are restored. \<open>None\<close> when an argument that
  should be skipped with the next one is the last, or \<open>at(0)\<close> throws.
\<close>

fun input_loop :: "arguments_list \<Rightarrow> arguments_list \<Rightarrow> string \<Rightarrow> bool \<Rightarrow> (arguments_list \<times> string \<times> bool \<times> bool) option" where
  "input_loop before [] ifile local = Some (before, ifile, local, False)"
| "input_loop before ((a, t) # todo) ifile local =
     (if a = ''-'' then Some (before @ (a, t) # todo, ifile, True, False)
      else if a = ''-Xclang'' \<or> a = ''-x'' \<or> is_argument_with_space a then
        (case todo of [] \<Rightarrow> None | b # todo' \<Rightarrow> input_loop (before @ [(a, t), b]) todo' ifile local)
      else if t \<noteq> Arg_Rest then input_loop (before @ [(a, t)]) todo ifile local
      else if a = [] then None
      else if hd a = CHR ''-'' \<or> hd a = CHR ''@'' then input_loop (before @ [(a, t)]) todo ifile local
      else if ifile = '''' then input_loop before todo a (local \<or> should_always_build_locally a)
      else Some (before @ (a, t) # todo, ifile, True, True))"

definition find_input :: "scan \<Rightarrow> (string \<times> scan) option" where
  "find_input st =
     map_option (\<lambda>(args, ifile, local, two).
         (ifile, st\<lparr>sc_args := (if two then sc_args st else args), sc_always_local := local,
           sc_job := (if two then (sc_job st)\<lparr>m_input_file := ''''\<rparr>
                      else if ifile \<noteq> '''' then (sc_job st)\<lparr>m_input_file := ifile\<rparr> else sc_job st)\<rparr>))
       (input_loop [] (sc_args st) '''' (sc_always_local st))"

text \<open>The language of a source file, when its extension tells, and whether it has to be compiled locally.\<close>

definition source_language :: "string \<Rightarrow> u32 option \<times> bool" where
  "source_language ext =
     (if List.member [''cc'', ''cpp'', ''cxx'', ''cp'', ''c++'', ''C'', ''ii''] ext then (Some Lang_CXX, False)
      else if List.member [''mi'', ''m''] ext then (Some Lang_OBJC, False)
      else if List.member [''mii'', ''mm'', ''M''] ext then (Some Lang_OBJCXX, False)
      else if List.member [''s'', ''S'', ''ads'', ''adb'', ''f'', ''for'', ''FOR'', ''F'', ''fpp'', ''FPP'', ''r''] ext then (None, True)
      else (None, ext \<noteq> ''c'' \<and> ext \<noteq> ''i''))"

definition dep_file :: "string \<Rightarrow> string" where
  "dep_file ofile = (case srfind ''.'' ofile of None \<Rightarrow> ofile | Some k \<Rightarrow> take k ofile) @ ''.d''"

definition use_extension :: "string \<Rightarrow> scan \<Rightarrow> scan" where
  "use_extension ifile st =
     (case srfind ''.'' ifile of
        None \<Rightarrow> st
      | Some dot \<Rightarrow>
          (let (lang, local) = source_language (drop (dot + 1) ifile);
               st1 = (case lang of Some l \<Rightarrow> st\<lparr>sc_job := (sc_job st)\<lparr>m_language := l\<rparr>\<rparr> | None \<Rightarrow> st);
               st2 = (if local then force_local st1 else st1);
               st3 = (if \<not> sc_always_local st2 \<and> sc_ofile st2 = ''''
                      then st2\<lparr>sc_ofile := find_basename (take dot ifile @ (if sc_seen_s st2 then ''.s'' else ''.o''))\<rparr> else st2)
           in if \<not> sc_always_local st3 \<and> sc_seen_md st3 \<and> \<not> sc_seen_mf st3
              then add_arg (dep_file (sc_ofile st3)) Arg_Local (add_arg ''-MF'' Arg_Local st3)
              else st3))"

section \<open>The rest of the decision\<close>

text \<open>After the loop: \<open>-c\<close> or \<open>-S\<close> for the remote side, or a local job.\<close>

definition choose_mode :: "scan \<Rightarrow> scan" where
  "choose_mode st =
     (if \<not> sc_seen_c st \<and> \<not> sc_seen_s st then force_local st
      else if sc_seen_s st then add_arg ''-S'' Arg_Remote st
      else (let st1 = add_arg ''-c'' Arg_Remote st
            in if sc_seen_split_dwarf st1 then st1\<lparr>sc_job := (sc_job st1)\<lparr>m_dwarf_fission := True\<rparr>\<rparr> else st1))"

definition choose_input :: "scan \<Rightarrow> scan option" where
  "choose_input st =
     (if sc_always_local st then Some (st\<lparr>sc_job := (sc_job st)\<lparr>m_input_file := ''''\<rparr>\<rparr>)
      else map_option (\<lambda>(ifile, st1). use_extension ifile st1) (find_input st))"

definition check_output :: "client_env \<Rightarrow> scan \<Rightarrow> scan" where
  "check_output env st =
     (if \<not> sc_always_local st \<and> (sc_ofile st = '''' \<or> ce_stat_reg env (sc_ofile st) = Some False) then force_local st else st)"

definition add_color :: "client_env \<Rightarrow> bool \<Rightarrow> scan \<Rightarrow> scan" where
  "add_color env icerun st =
     (if \<not> icerun \<and> compiler_has_color_output env (sc_job st) \<and> \<not> sc_explicit_color st
      then add_arg (if compiler_is_clang (sc_job st) then ''-fcolor-diagnostics'' else ''-fdiagnostics-color'') Arg_Rest st
      else st)"

definition block_rewrite :: "scan \<Rightarrow> scan" where
  "block_rewrite st =
     (if sc_wunused_macros st \<or> sc_seen_imacros st
         \<or> sc_seen_pedantic st \<and> \<not> compiler_is_clang (sc_job st)
           \<and> (case sc_standard st of None \<Rightarrow> True | Some std \<Rightarrow> prefix ''gnu'' std)
      then st\<lparr>sc_job := (sc_job st)\<lparr>m_block_rewrite_includes := True\<rparr>\<rparr> else st)"

definition add_directives_only :: "client_env \<Rightarrow> scan \<Rightarrow> scan" where
  "add_directives_only env st =
     (if \<not> sc_always_local st \<and> compiler_only_rewrite_includes env (sc_job st) \<and> \<not> compiler_is_clang (sc_job st)
      then add_arg ''-fdirectives-only'' Arg_Remote st else st)"

definition add_target :: "client_env \<Rightarrow> scan \<Rightarrow> scan option" where
  "add_target env st =
     (if \<not> sc_always_local st \<and> \<not> sc_seen_target st \<and> compiler_is_clang (sc_job st) then
        map_option (\<lambda>t. if t \<noteq> '''' then add_arg t Arg_Remote (add_arg ''-target'' Arg_Remote st) else force_local st)
          (clang_get_default_target env (sc_job st))
      else Some st)"

definition is_native :: "string \<Rightarrow> bool" where
  "is_native a = (a = ''-march=native'' \<or> a = ''-mcpu=native'' \<or> a = ''-mtune=native'')"

fun expand_native :: "string list \<Rightarrow> bool \<Rightarrow> arguments_list \<Rightarrow> arguments_list" where
  "expand_native archs handled [] = []"
| "expand_native archs handled ((a, t) # args) =
     (if is_native a
      then (if handled then [] else map (\<lambda>b. (b, Arg_Rest)) archs) @ expand_native archs True args
      else (a, t) # expand_native archs handled args)"

definition replace_native :: "client_env \<Rightarrow> scan \<Rightarrow> scan option" where
  "replace_native env st =
     (if \<not> sc_always_local st \<and> (sc_seen_march_native st \<or> sc_seen_mcpu_native st \<or> sc_seen_mtune_native st) then
        (case compiler_get_arch_flags env (sc_job st) (sc_seen_march_native st) (sc_seen_mcpu_native st) (sc_seen_mtune_native st) of
           None \<Rightarrow> None
         | Some None \<Rightarrow> Some (force_local st)
         | Some (Some archs) \<Rightarrow>
             if ce_asserts env \<and> \<not> list_ex (\<lambda>(a, t). is_native a) (sc_args st) then None
             else Some (st\<lparr>sc_args := expand_native archs False (sc_args st)\<rparr>))
      else Some st)"

text \<open>
  \<open>analyse_argv\<close>. \<open>argv\<close> is not empty; the name of the compiler is set before when the client was called as \<open>icecc\<close>.
  The code computes \<open>AlwaysLocal | FullJob\<close> as an \<open>int\<close> but returns a \<open>bool\<close>, so that the result is whether the
  job is local. The other results are the job, the extra files, \<open>second_option\<close>, and the two global variables about
  diagnostics.
\<close>

definition analyse_argv :: "client_env \<Rightarrow> string list \<Rightarrow> compile_job \<Rightarrow> bool \<Rightarrow> string list \<Rightarrow> bool \<Rightarrow> scan option" where
  "analyse_argv env argv job icerun0 extrafiles second_option =
     (let had_cc = (m_compiler_name job \<noteq> '''');
          (always_local, job1, icerun) = analyze_program (if had_cc then m_compiler_name job else hd argv) job icerun0;
          Arg_Cpp = (if compiler_only_rewrite_includes env job1 then Arg_Rest else Arg_Local)
      in case scan_argv env icerun Arg_Cpp (drop (if had_cc then 2 else 1) argv) (scan_init always_local job1 extrafiles second_option) of
           None \<Rightarrow> None
         | Some st1 \<Rightarrow>
             (case choose_input (choose_mode st1) of
                None \<Rightarrow> None
              | Some st2 \<Rightarrow>
                  (case add_target env (add_directives_only env (block_rewrite (add_color env icerun (check_output env st2)))) of
                     None \<Rightarrow> None
                   | Some st3 \<Rightarrow>
                       map_option (\<lambda>st4. st4\<lparr>sc_job := (sc_job st4)\<lparr>m_flags := sc_args st4, m_output_file := sc_ofile st4\<rparr>\<rparr>)
                         (replace_native env st3))))"

definition argv_result :: "scan \<Rightarrow> bool" where
  "argv_result st = sc_always_local st"

section \<open>Totality\<close>

text \<open>What the arguments collected so far satisfy when no argument is empty or about the native architecture.\<close>

definition scan_good :: "scan \<Rightarrow> bool" where
  "scan_good st \<longleftrightarrow> (\<forall>(a, t)\<in>set (sc_args st). a \<noteq> '''') \<and> \<not> sc_seen_march_native st \<and> \<not> sc_seen_mcpu_native st \<and> \<not> sc_seen_mtune_native st"

lemma scan_good_simps [simp]:
  "scan_good (add_arg a t st) = (a \<noteq> '''' \<and> scan_good st)" "scan_good (force_local st) = scan_good st"
  "scan_good (st\<lparr>sc_seen_c := b\<rparr>) = scan_good st" "scan_good (st\<lparr>sc_seen_s := b\<rparr>) = scan_good st"
  "scan_good (st\<lparr>sc_seen_mf := b\<rparr>) = scan_good st" "scan_good (st\<lparr>sc_seen_md := b\<rparr>) = scan_good st"
  "scan_good (st\<lparr>sc_seen_split_dwarf := b\<rparr>) = scan_good st" "scan_good (st\<lparr>sc_seen_target := b\<rparr>) = scan_good st"
  "scan_good (st\<lparr>sc_wunused_macros := b\<rparr>) = scan_good st" "scan_good (st\<lparr>sc_seen_arch := b\<rparr>) = scan_good st"
  "scan_good (st\<lparr>sc_seen_pedantic := b\<rparr>) = scan_good st" "scan_good (st\<lparr>sc_seen_imacros := b\<rparr>) = scan_good st"
  "scan_good (st\<lparr>sc_seen_parallel_flto := s\<rparr>) = scan_good st" "scan_good (st\<lparr>sc_standard := x\<rparr>) = scan_good st"
  "scan_good (st\<lparr>sc_job := j\<rparr>) = scan_good st" "scan_good (st\<lparr>sc_extrafiles := l\<rparr>) = scan_good st"
  "scan_good (st\<lparr>sc_second_option := b\<rparr>) = scan_good st"
  "scan_good (st\<lparr>sc_explicit_color := b\<rparr>) = scan_good st" "scan_good (st\<lparr>sc_explicit_no_caret := b\<rparr>) = scan_good st"
  "scan_good (st\<lparr>sc_ofile := s\<rparr>) = scan_good st"
  by (auto simp: scan_good_def add_arg_def append_arg_def force_local_def)

lemma if_neq: "(b \<Longrightarrow> x \<noteq> y) \<Longrightarrow> (\<not> b \<Longrightarrow> z \<noteq> y) \<Longrightarrow> (if b then x else z) \<noteq> y"
  and case_option_neq: "(w = None \<Longrightarrow> f \<noteq> y) \<Longrightarrow> (\<And>p. w = Some p \<Longrightarrow> g p \<noteq> y) \<Longrightarrow> (case w of None \<Rightarrow> f | Some p \<Rightarrow> g p) \<noteq> y"
  by (simp_all split: option.split)

lemma classify_native:
  assumes "\<not> is_native a"
  shows "classify a \<noteq> MarchNative" and "classify a \<noteq> McpuNative" and "classify a \<noteq> MtuneNative"
proof -
  have n: "(a = ''-march=native'') = False" "(a = ''-mcpu=native'') = False" "(a = ''-mtune=native'') = False"
    using assms by (simp_all add: is_native_def)
  show "classify a \<noteq> MarchNative" "classify a \<noteq> McpuNative" "classify a \<noteq> MtuneNative"
    unfolding classify_def n if_False by ((intro if_neq case_option_neq; simp only: option_class.distinct not_False_eq_True)+)
qed

lemma classify_file: "classify a = FileArg p \<Longrightarrow> p \<in> set file_prefixes"
proof (rule ccontr)
  assume p: "p \<notin> set file_prefixes"
  have q: "FileArg q \<noteq> FileArg p" if "find (\<lambda>p. prefix p a) file_prefixes = Some q" for q
    using find_SomeD [OF that] p by auto
  have "classify a \<noteq> FileArg p"
    unfolding classify_def by (intro if_neq case_option_neq; (rule q, assumption | simp only: option_class.distinct not_False_eq_True))
  moreover assume "classify a = FileArg p"
  ultimately show False ..
qed

text \<open>
  Assertions are compiled out, as they are by default, \<open>PATH\<close> is set, the working directory is absolute or unknown, and the empty name is no
  file.
\<close>

definition env_ok :: "client_env \<Rightarrow> bool" where
  "env_ok env \<longleftrightarrow> \<not> ce_asserts env \<and> ce_getenv env ''PATH'' \<noteq> None \<and> \<not> ce_readable env '''' \<and>
     (\<forall>d. ce_getcwd env = Some d \<longrightarrow> d = '''' \<or> hd d = CHR ''/'')"

lemma env_abs:
  assumes "env_ok env" and "ce_readable env f"
  obtains r where "get_absfilename (get_cwd env) f = Some r" and "r \<noteq> ''''"
proof -
  have "f \<noteq> ''''" "get_cwd env = '''' \<or> hd (get_cwd env) = CHR ''/''"
    using assms by (auto simp: env_ok_def get_cwd_def split: option.splits)
  then show ?thesis
    using absfilename_total that by metis
qed

lemma file_arg_total:
  assumes "env_ok env" and "f \<noteq> '''' \<or> \<not> must"
  obtains g st' where "file_arg env f st = Some (g, st')" and "must \<longrightarrow> g \<noteq> ''''" and "scan_good st' = scan_good st"
proof (cases "ce_readable env f")
  case True
  then obtain r where "get_absfilename (get_cwd env) f = Some r" "r \<noteq> ''''"
    using env_abs [OF assms(1)] by blast
  with True show ?thesis
    using that [of r "st\<lparr>sc_extrafiles := sc_extrafiles st @ [r]\<rparr>"] by (simp add: file_arg_def)
next
  case False
  then show ?thesis
    using that [of f "force_local st"] assms(2) by (auto simp: file_arg_def)
qed

lemma analyze_assembler_total:
  assumes "env_ok env"
  shows "\<exists>r. analyze_assembler_arg env a st = Some r"
proof (cases "ce_readable env a")
  case True
  then obtain r where "get_absfilename (get_cwd env) a = Some r"
    using env_abs [OF assms] by blast
  then show ?thesis
    by (cases st) (auto simp: analyze_assembler_arg_def Let_def)
qed (cases st; auto simp: analyze_assembler_arg_def Let_def)

lemma assembler_loop_total:
  assumes "env_ok env"
  shows "\<exists>loc r st'. assembler_loop env as local (CHR ''-'' # x) st = Some (loc, CHR ''-'' # r, st')"
proof (induction as arbitrary: local x st)
  case (Cons a as)
  obtain loc b st1 where "analyze_assembler_arg env a st = Some (loc, b, st1)"
    using analyze_assembler_total [OF assms, of a st] by (metis prod.exhaust_sel)
  then show ?case
    using Cons.IH [of loc "x @ '','' @ b" st1] by simp
qed simp

lemma scan_assembler_total:
  assumes "env_ok env" and "scan_good st" and "a \<noteq> ''''"
  shows "\<exists>st'. scan_assembler env a st = Some st' \<and> scan_good st'"
proof -
  obtain loc r so ex where "assembler_loop env (items_of CHR '','' (drop 4 a)) False ''-Wa'' (sc_second_option st, sc_extrafiles st) = Some (loc, CHR ''-'' # r, so, ex)"
    using assembler_loop_total [OF assms(1), of "items_of CHR '','' (drop 4 a)" False "''Wa''" "(sc_second_option st, sc_extrafiles st)"] by (metis prod.exhaust_sel)
  then show ?thesis
    using assms(2,3) by (simp add: scan_assembler_def Let_def)
qed

lemma scan_xclang_total:
  assumes "env_ok env" and "scan_good st" and "a \<noteq> ''''" and "'''' \<notin> set rest"
  shows "\<exists>st' k. scan_xclang env a rest st = Some (st', k) \<and> scan_good st'"
proof (cases "\<exists>f more. rest = ''-load'' # ''-Xclang'' # f # more")
  case True
  then obtain f more where rest: "rest = ''-load'' # ''-Xclang'' # f # more"
    by blast
  obtain g st' where "file_arg env f (add_arg ''-load'' Arg_Rest (add_arg a Arg_Rest st)) = Some (g, st')" "g \<noteq> ''''"
      "scan_good st' = scan_good (add_arg ''-load'' Arg_Rest (add_arg a Arg_Rest st))"
    using file_arg_total [OF assms(1), of f True "add_arg ''-load'' Arg_Rest (add_arg a Arg_Rest st)"] assms(4) rest by auto
  then show ?thesis
    using assms by (simp add: scan_xclang_def rest)
next
  case False
  then show ?thesis
    using assms by (cases rest; cases "tl rest"; cases "tl (tl rest)") (auto simp: scan_xclang_def Let_def)
qed

lemma scan_option_total:
  assumes "env_ok env" and "scan_good st" and "a \<noteq> ''''" and "\<not> is_native a" and "'''' \<notin> set rest"
    and "rest = [] \<Longrightarrow> (\<forall>b. classify a \<noteq> NeedsNext b)"
  shows "\<exists>st' k. scan_option env Arg_Cpp a rest st = Some (st', k) \<and> scan_good st'"
proof -
  have asserted: "asserted env x r = Some r" for x and r :: "scan \<times> nat"
    using assms(1) by (simp add: asserted_def env_ok_def)
  have next_good: "\<exists>st' k. take_next t rest st1 = (st', k) \<and> scan_good st'" if "scan_good st1" for t st1
    using that assms(5) by (cases rest) (auto simp: take_next_def)
  show ?thesis
  proof (cases "classify a")
    case (NeedsNext b)
    then show ?thesis
      using assms by (cases rest) (auto simp: scan_option_def)
  next
    case (FileArg p)
    obtain g st' where "file_arg env (drop (length p) a) st = Some (g, st')" "scan_good st' = scan_good st"
      using file_arg_total [OF assms(1), of "drop (length p) a" False st] by auto
    moreover have "p \<noteq> ''''"
      using classify_file [OF FileArg] by (auto simp: file_prefixes_def)
    ultimately show ?thesis
      using FileArg assms by (auto simp: scan_option_def)
  next
    case Xclang
    then show ?thesis
      using scan_xclang_total [OF assms(1,2,3,5)] by (simp add: scan_option_def)
  next
    case Assembler
    then show ?thesis
      using scan_assembler_total [OF assms(1,2,3)] by (auto simp: scan_option_def)
  next
    case DashX
    then show ?thesis
      using assms by (cases rest) (auto simp: scan_option_def scan_x_def Let_def split: if_splits)
  next
    case Output
    then show ?thesis
      using assms by (cases rest) (auto simp: scan_option_def scan_output_def Let_def)
  next
    case LocalPair
    then show ?thesis
      using assms asserted by (cases rest) (auto simp: scan_option_def scan_local_pair_def Let_def)
  qed (use assms asserted next_good classify_native [OF assms(4)] in \<open>auto simp: scan_option_def Let_def\<close>)
qed

definition ends_well :: "string list \<Rightarrow> bool" where
  "ends_well argv \<longleftrightarrow> argv = [] \<or> (\<forall>b. classify (last argv) \<noteq> NeedsNext b)"

lemma ends_well_drop: "ends_well argv \<Longrightarrow> ends_well (drop k argv)"
  by (auto simp: ends_well_def last_drop)

lemma scan_argv_total:
  assumes "env_ok env" and "scan_good st" and "'''' \<notin> set argv" and "\<forall>a\<in>set argv. \<not> is_native a" and "ends_well argv"
  shows "\<exists>st'. scan_argv env icerun Arg_Cpp argv st = Some st' \<and> scan_good st'"
  using assms
proof (induction env icerun Arg_Cpp argv st rule: scan_argv.induct)
  case (2 env icerun Arg_Cpp a rest st)
  have w: "ends_well rest"
    using ends_well_drop [OF "2.prems"(5), of 1] by simp
  have d: "'''' \<notin> set (drop k rest)" "\<forall>a\<in>set (drop k rest). \<not> is_native a" "ends_well (drop k rest)" for k
    using "2.prems"(3,4) ends_well_drop [OF w] by (auto dest: in_set_dropD)
  show ?case
  proof (cases "\<not> icerun \<and> prefix ''-'' a")
    case True
    have "rest = [] \<Longrightarrow> \<forall>b. classify a \<noteq> NeedsNext b"
      using "2.prems"(5) by (simp add: ends_well_def)
    then obtain st1 k where s1: "scan_option env Arg_Cpp a rest st = Some (st1, k)" "scan_good st1"
      using scan_option_total [OF "2.prems"(1,2), of a rest Arg_Cpp] "2.prems"(3,4) by auto
    then show ?thesis
      using "2.IH"(2) [OF _ _ s1(1) refl "2.prems"(1) s1(2) d] True by auto
  next
    case False
    then show ?thesis
      using 2 w by auto
  qed
qed simp

lemma input_loop_total:
  assumes "\<forall>(a, t)\<in>set todo. a \<noteq> ''''" and "todo = [] \<or> fst (last todo) = ''-c'' \<or> fst (last todo) = ''-S''"
  shows "\<exists>r. input_loop before todo ifile local = Some r"
  using assms
proof (induction before todo ifile local rule: input_loop.induct)
  case (2 before a t todo ifile local)
  have last: "todo = [] \<or> fst (last todo) = ''-c'' \<or> fst (last todo) = ''-S''"
    using "2.prems"(2) by (cases todo) auto
  show ?case
  proof (cases "a = ''-Xclang'' \<or> a = ''-x'' \<or> is_argument_with_space a")
    case True
    have "\<not> is_argument_with_space ''-c''" "\<not> is_argument_with_space ''-S''"
      by (simp_all add: is_argument_with_space_def arguments_with_space_def)
    then have "todo \<noteq> []"
      using True "2.prems"(2) by auto
    then obtain b todo' where t: "todo = b # todo'"
      by (cases todo) auto
    have "todo' = [] \<or> fst (last todo') = ''-c'' \<or> fst (last todo') = ''-S''"
      using last t by (cases todo') auto
    then show ?thesis
      using "2.IH"(1) [OF _ True t] "2.prems"(1) True t by auto
  next
    case False
    then show ?thesis
      using "2.IH"(2-4) "2.prems"(1) last by auto
  qed
qed auto

lemma find_compiler_total:
  assumes "env_ok env"
  shows "\<exists>c. find_compiler env job = Some c"
  using assms by (auto simp: env_ok_def find_compiler_def compiler_path_lookup_helper_def split: option.splits)

lemma choose_input_total:
  assumes "scan_good st"
  shows "\<exists>st'. choose_input (choose_mode st) = Some st' \<and>
    \<not> sc_seen_march_native st' \<and> \<not> sc_seen_mcpu_native st' \<and> \<not> sc_seen_mtune_native st'"
proof -
  let ?m = "choose_mode st"
  have m: "scan_good ?m"
    using assms by (simp add: choose_mode_def Let_def)
  have e: "\<not> sc_seen_march_native (use_extension f x) \<and> \<not> sc_seen_mcpu_native (use_extension f x) \<and> \<not> sc_seen_mtune_native (use_extension f x)"
    if "\<not> sc_seen_march_native x" "\<not> sc_seen_mcpu_native x" "\<not> sc_seen_mtune_native x" for f x
    using that by (auto simp: use_extension_def Let_def case_prod_unfold force_local_def add_arg_def split: option.splits)
  show ?thesis
  proof (cases "sc_always_local ?m")
    case True
    then show ?thesis
      using m by (simp add: choose_input_def scan_good_def)
  next
    case False
    then have "sc_args ?m \<noteq> [] \<and> (fst (last (sc_args ?m)) = ''-c'' \<or> fst (last (sc_args ?m)) = ''-S'')"
      by (auto simp: choose_mode_def force_local_def add_arg_def append_arg_def Let_def split: if_splits)
    then obtain r where "input_loop [] (sc_args ?m) '''' (sc_always_local ?m) = Some r"
      using input_loop_total [of "sc_args ?m" "[]" "''''" "sc_always_local ?m"] m unfolding scan_good_def by blast
    then show ?thesis
      using False m e by (auto simp: choose_input_def find_input_def case_prod_unfold scan_good_def)
  qed
qed

lemma finish_native:
  "sc_seen_march_native (check_output env st) = sc_seen_march_native st" "sc_seen_mcpu_native (check_output env st) = sc_seen_mcpu_native st"
  "sc_seen_mtune_native (check_output env st) = sc_seen_mtune_native st"
  "sc_seen_march_native (add_color env i st) = sc_seen_march_native st" "sc_seen_mcpu_native (add_color env i st) = sc_seen_mcpu_native st"
  "sc_seen_mtune_native (add_color env i st) = sc_seen_mtune_native st"
  "sc_seen_march_native (block_rewrite st) = sc_seen_march_native st" "sc_seen_mcpu_native (block_rewrite st) = sc_seen_mcpu_native st"
  "sc_seen_mtune_native (block_rewrite st) = sc_seen_mtune_native st"
  "sc_seen_march_native (add_directives_only env st) = sc_seen_march_native st"
  "sc_seen_mcpu_native (add_directives_only env st) = sc_seen_mcpu_native st"
  "sc_seen_mtune_native (add_directives_only env st) = sc_seen_mtune_native st"
  by (simp_all add: check_output_def add_color_def block_rewrite_def add_directives_only_def force_local_def add_arg_def)

lemma add_target_total:
  assumes "env_ok env"
  shows "\<exists>st'. add_target env st = Some st' \<and> sc_seen_march_native st' = sc_seen_march_native st \<and>
    sc_seen_mcpu_native st' = sc_seen_mcpu_native st \<and> sc_seen_mtune_native st' = sc_seen_mtune_native st"
proof -
  obtain c where "find_compiler env (sc_job st) = Some c"
    using find_compiler_total [OF assms] by blast
  then show ?thesis
    by (cases "read_command_line env c [''-dumpmachine''] 1 = ''''")
      (simp_all add: add_target_def clang_get_default_target_def force_local_def add_arg_def)
qed

lemma analyse_argv_defined:
  assumes "env_ok env" and "argv \<noteq> []" and "'''' \<notin> set argv" and "\<forall>a\<in>set argv. \<not> is_native a" and "ends_well argv"
  shows "\<exists>st. analyse_argv env argv job icerun extrafiles second = Some st"
proof -
  let ?k = "if m_compiler_name job \<noteq> '''' then 2 else 1 :: nat"
  let ?name = "if m_compiler_name job \<noteq> '''' then m_compiler_name job else hd argv"
  obtain loc job1 ice where p: "analyze_program ?name job icerun = (loc, job1, ice)"
    by (metis prod.exhaust_sel)
  define Arg_Cpp where "Arg_Cpp = (if compiler_only_rewrite_includes env job1 then Arg_Rest else Arg_Local)"
  have "scan_good (scan_init loc job1 extrafiles second)"
    by (simp add: scan_good_def scan_init_def)
  then obtain st1 where s1: "scan_argv env ice Arg_Cpp (drop ?k argv) (scan_init loc job1 extrafiles second) = Some st1" "scan_good st1"
    using scan_argv_total [OF assms(1), of _ "drop ?k argv" ice Arg_Cpp] assms(3,4) ends_well_drop [OF assms(5)]
    by (metis in_set_dropD)
  obtain st2 where s2: "choose_input (choose_mode st1) = Some st2"
      "\<not> sc_seen_march_native st2 \<and> \<not> sc_seen_mcpu_native st2 \<and> \<not> sc_seen_mtune_native st2"
    using choose_input_total [OF s1(2)] by blast
  obtain st3 where "add_target env (add_directives_only env (block_rewrite (add_color env ice (check_output env st2)))) = Some st3"
      "\<not> sc_seen_march_native st3 \<and> \<not> sc_seen_mcpu_native st3 \<and> \<not> sc_seen_mtune_native st3"
    using add_target_total [OF assms(1)] s2(2) by (metis finish_native)
  then show ?thesis
    using p s1(1) s2(1) by (simp add: analyse_argv_def Let_def Arg_Cpp_def [symmetric] replace_native_def del: drop_0 cong: if_cong)
qed

section \<open>What is sent away\<close>

text \<open>A job that is not local is in a language that the remote side knows.\<close>

definition known_language :: "u32 \<Rightarrow> bool" where
  "known_language l \<longleftrightarrow> l = Lang_C \<or> l = Lang_CXX \<or> l = Lang_OBJC \<or> l = Lang_OBJCXX"

definition lang_ok :: "scan \<Rightarrow> bool" where
  "lang_ok st \<longleftrightarrow> sc_always_local st \<or> known_language (m_language (sc_job st))"

lemma lang_ok_simps [simp]:
  "lang_ok (add_arg a t st) = lang_ok st" "lang_ok (force_local st)"
  "lang_ok (st\<lparr>sc_seen_c := b\<rparr>) = lang_ok st" "lang_ok (st\<lparr>sc_seen_s := b\<rparr>) = lang_ok st"
  "lang_ok (st\<lparr>sc_seen_mf := b\<rparr>) = lang_ok st" "lang_ok (st\<lparr>sc_seen_md := b\<rparr>) = lang_ok st"
  "lang_ok (st\<lparr>sc_seen_split_dwarf := b\<rparr>) = lang_ok st" "lang_ok (st\<lparr>sc_seen_target := b\<rparr>) = lang_ok st"
  "lang_ok (st\<lparr>sc_wunused_macros := b\<rparr>) = lang_ok st" "lang_ok (st\<lparr>sc_seen_arch := b\<rparr>) = lang_ok st"
  "lang_ok (st\<lparr>sc_seen_pedantic := b\<rparr>) = lang_ok st" "lang_ok (st\<lparr>sc_seen_imacros := b\<rparr>) = lang_ok st"
  "lang_ok (st\<lparr>sc_seen_march_native := b\<rparr>) = lang_ok st" "lang_ok (st\<lparr>sc_seen_mcpu_native := b\<rparr>) = lang_ok st"
  "lang_ok (st\<lparr>sc_seen_mtune_native := b\<rparr>) = lang_ok st"
  "lang_ok (st\<lparr>sc_seen_parallel_flto := s\<rparr>) = lang_ok st" "lang_ok (st\<lparr>sc_standard := x\<rparr>) = lang_ok st"
  "lang_ok (st\<lparr>sc_extrafiles := l\<rparr>) = lang_ok st" "lang_ok (st\<lparr>sc_second_option := b\<rparr>) = lang_ok st"
  "lang_ok (st\<lparr>sc_explicit_color := b\<rparr>) = lang_ok st" "lang_ok (st\<lparr>sc_explicit_no_caret := b\<rparr>) = lang_ok st"
  "lang_ok (st\<lparr>sc_ofile := s\<rparr>) = lang_ok st" "lang_ok (st\<lparr>sc_args := al\<rparr>) = lang_ok st"
  by (simp_all add: lang_ok_def add_arg_def force_local_def)

lemma file_arg_lang: "file_arg env f st = Some (g, st') \<Longrightarrow> lang_ok st \<Longrightarrow> lang_ok st'"
  by (auto simp: file_arg_def split: if_splits)

lemma scan_xclang_lang: "scan_xclang env a rest st = Some (st', k) \<Longrightarrow> lang_ok st \<Longrightarrow> lang_ok st'"
  by (auto simp: scan_xclang_def Let_def dest: file_arg_lang split: list.splits if_splits)

lemma scan_x_lang: "lang_ok st \<Longrightarrow> lang_ok (fst (scan_x rest st))"
  by (auto simp: scan_x_def Let_def lang_ok_def known_language_def force_local_def add_arg_def split: list.splits option.splits)

lemma scan_option_lang:
  assumes "scan_option env Arg_Cpp a rest st = Some (st', k)" and "lang_ok st"
  shows "lang_ok st'"
proof (cases "classify a")
  case DashX
  then show ?thesis
    using assms scan_x_lang [of "add_arg a Arg_Rest st" rest] by (simp add: scan_option_def)
next
  case Xclang
  then show ?thesis
    using assms scan_xclang_lang by (simp add: scan_option_def)
next
  case (FileArg p)
  then show ?thesis
    using assms by (auto simp: scan_option_def dest: file_arg_lang)
next
  case Assembler
  then show ?thesis
    using assms by (auto simp: scan_option_def scan_assembler_def Let_def split: option.splits if_splits)
next
  case Output
  then show ?thesis
    using assms by (cases rest) (auto simp: scan_option_def scan_output_def Let_def split: if_splits)
next
  case LocalPair
  then show ?thesis
    using assms by (cases rest) (auto simp: scan_option_def scan_local_pair_def asserted_def Let_def split: if_splits)
qed (use assms in \<open>auto simp: scan_option_def Let_def asserted_def take_next_def split: if_splits list.splits\<close>)

lemma scan_argv_lang: "scan_argv env icerun Arg_Cpp argv st = Some st' \<Longrightarrow> lang_ok st \<Longrightarrow> lang_ok st'"
proof (induction env icerun Arg_Cpp argv st rule: scan_argv.induct)
  case (2 env icerun Arg_Cpp a rest st)
  show ?case
  proof (cases "\<not> icerun \<and> prefix ''-'' a")
    case True
    then obtain st1 k where s1: "scan_option env Arg_Cpp a rest st = Some (st1, k)" "scan_argv env icerun Arg_Cpp (drop k rest) st1 = Some st'"
      using "2.prems"(1) by (auto split: option.splits)
    then show ?thesis
      using "2.IH"(2) [OF _ _ s1(1) refl] True scan_option_lang [OF s1(1) "2.prems"(2)] by simp
  next
    case False
    then show ?thesis
      using 2 by (auto split: if_splits)
  qed
qed simp

lemma analyze_program_lang:
  assumes "analyze_program name job icerun = (loc, job1, ice)"
  shows "lang_ok (scan_init loc job1 extrafiles second)"
  using assms by (auto simp: analyze_program_def lang_ok_def scan_init_def known_language_def Let_def split: if_splits)

lemma choose_mode_lang: "lang_ok st \<Longrightarrow> lang_ok (choose_mode st)"
  by (auto simp: choose_mode_def Let_def lang_ok_def add_arg_def force_local_def)

lemma use_extension_lang: "lang_ok st \<Longrightarrow> lang_ok (use_extension ifile st)"
proof -
  assume l: "lang_ok st"
  have "lang_ok (case fst (source_language e) of Some l \<Rightarrow> st\<lparr>sc_job := (sc_job st)\<lparr>m_language := l\<rparr>\<rparr> | None \<Rightarrow> st)" for e
    using l by (auto simp: source_language_def lang_ok_def known_language_def)
  then show ?thesis
    using l by (auto simp: use_extension_def Let_def case_prod_unfold split: option.split)
qed

lemma input_loop_local: "input_loop before todo ifile local = Some (args, f, loc, two) \<Longrightarrow> local \<Longrightarrow> loc"
  by (induction before todo ifile local rule: input_loop.induct) (auto split: if_splits list.splits)

lemma find_input_lang: "find_input st = Some (f, st') \<Longrightarrow> m_language (sc_job st') = m_language (sc_job st)"
  unfolding find_input_def map_option_eq_Some case_prod_unfold by (elim exE conjE) (force split: if_split)

lemma choose_input_lang:
  assumes "choose_input st = Some st'" and "lang_ok st"
  shows "lang_ok st'"
proof (cases "sc_always_local st")
  case True
  then show ?thesis
    using assms(1) by (auto simp: choose_input_def lang_ok_def)
next
  case False
  then obtain r where "find_input st = Some r" "st' = use_extension (fst r) (snd r)"
    using assms(1) by (auto simp: choose_input_def case_prod_unfold)
  moreover from this False assms(2) have "lang_ok (snd r)"
    using find_input_lang [of st "fst r" "snd r"] by (simp add: lang_ok_def)
  ultimately show ?thesis
    using use_extension_lang by simp
qed

text \<open>The mode in which the remote compiler runs is among the remote arguments.\<close>

definition has_mode :: "arguments_list \<Rightarrow> bool" where
  "has_mode args \<longleftrightarrow> (''-c'', Arg_Remote) \<in> set args \<or> (''-S'', Arg_Remote) \<in> set args"

lemma input_loop_keeps:
  assumes "input_loop before todo ifile local = Some (args, f, loc, two)" and "(x, Arg_Remote) \<in> set before \<union> set todo"
  shows "(x, Arg_Remote) \<in> set args"
  using assms
proof (induction before todo ifile local rule: input_loop.induct)
  case (2 before a t todo ifile local)
  then show ?case
    by (auto split: if_splits list.splits)
qed simp

lemma expand_native_keeps: "e \<in> set args \<Longrightarrow> \<not> is_native (fst e) \<Longrightarrow> e \<in> set (expand_native archs h args)"
  by (induction archs h args rule: expand_native.induct) auto

lemma choose_input_mode:
  assumes "choose_input (choose_mode st) = Some st'" and "\<not> sc_always_local st'"
  shows "has_mode (sc_args st')"
proof -
  let ?m = "choose_mode st"
  have l: "\<not> sc_always_local ?m"
    using assms by (auto simp: choose_input_def)
  then have m: "has_mode (sc_args ?m)"
    by (auto simp: choose_mode_def force_local_def add_arg_def append_arg_def has_mode_def Let_def split: if_splits)
  obtain args f loc two where r: "input_loop [] (sc_args ?m) '''' False = Some (args, f, loc, two)"
      "st' = use_extension f (?m\<lparr>sc_args := (if two then sc_args ?m else args), sc_always_local := loc,
           sc_job := (if two then (sc_job ?m)\<lparr>m_input_file := ''''\<rparr>
                      else if f \<noteq> '''' then (sc_job ?m)\<lparr>m_input_file := f\<rparr> else sc_job ?m)\<rparr>)"
    using assms(1) l by (auto simp: choose_input_def find_input_def)
  have "has_mode args"
    using m input_loop_keeps [OF r(1)] by (auto simp: has_mode_def)
  then have "has_mode (if two then sc_args ?m else args)"
    using m by simp
  then show ?thesis
    unfolding r(2) by (auto simp: use_extension_def has_mode_def Let_def case_prod_unfold add_arg_def append_arg_def force_local_def split: option.splits)
qed

text \<open>What the last steps keep.\<close>

definition remote_ok :: "scan \<Rightarrow> bool" where
  "remote_ok st \<longleftrightarrow> sc_always_local st \<or> known_language (m_language (sc_job st)) \<and> sc_ofile st \<noteq> '''' \<and> has_mode (sc_args st)"

lemma remote_ok_add: "remote_ok st \<Longrightarrow> remote_ok (add_arg a t st)"
  by (auto simp: remote_ok_def add_arg_def append_arg_def has_mode_def)

lemma remote_ok_local: "remote_ok (force_local st)"
  by (simp add: remote_ok_def force_local_def)

lemma remote_ok_steps:
  assumes "remote_ok st"
  shows "remote_ok (add_color env i st)" and "remote_ok (block_rewrite st)" and "remote_ok (add_directives_only env st)"
    and "add_target env st = Some st' \<Longrightarrow> remote_ok st'" and "replace_native env st = Some st'' \<Longrightarrow> remote_ok st''"
proof -
  show "remote_ok (add_color env i st)" "remote_ok (add_directives_only env st)"
    using assms by (simp_all add: add_color_def add_directives_only_def remote_ok_add)
  show "remote_ok (block_rewrite st)"
    using assms by (auto simp: block_rewrite_def remote_ok_def)
  show "add_target env st = Some st' \<Longrightarrow> remote_ok st'"
    using assms by (auto simp: add_target_def remote_ok_add remote_ok_local split: if_splits)
  have n: "\<not> is_native ''-c''" "\<not> is_native ''-S''"
    by (simp_all add: is_native_def)
  have "has_mode args \<Longrightarrow> has_mode (expand_native archs False args)" for archs args
    using n by (auto simp: has_mode_def intro: expand_native_keeps)
  then show "replace_native env st = Some st'' \<Longrightarrow> remote_ok st''"
    using assms by (auto simp: replace_native_def remote_ok_local split: if_splits option.splits) (auto simp: remote_ok_def)
qed

lemma analyse_argv_remote:
  assumes "analyse_argv env argv job icerun extrafiles second = Some st" and "\<not> argv_result st"
  shows "known_language (m_language (sc_job st))" and "m_output_file (sc_job st) \<noteq> ''''" and "has_mode (m_flags (sc_job st))"
proof -
  let ?name = "if m_compiler_name job \<noteq> '''' then m_compiler_name job else hd argv"
  obtain loc job1 ice where p: "analyze_program ?name job icerun = (loc, job1, ice)"
    by (metis prod.exhaust_sel)
  obtain cpp st1 st2 st3 st4 where s1: "scan_argv env ice cpp (drop (if m_compiler_name job \<noteq> '''' then 2 else 1) argv) (scan_init loc job1 extrafiles second) = Some st1"
    and s2: "choose_input (choose_mode st1) = Some st2"
    and s3: "add_target env (add_directives_only env (block_rewrite (add_color env ice (check_output env st2)))) = Some st3"
    and s4: "replace_native env st3 = Some st4"
    and st: "st = st4\<lparr>sc_job := (sc_job st4)\<lparr>m_flags := sc_args st4, m_output_file := sc_ofile st4\<rparr>\<rparr>"
    using assms(1) unfolding analyse_argv_def Let_def p prod.case by (auto split: option.splits)
  have "lang_ok st2"
    using choose_input_lang [OF s2] choose_mode_lang scan_argv_lang [OF s1] analyze_program_lang [OF p] by blast
  then have "remote_ok (check_output env st2)"
    using choose_input_mode [OF s2] by (auto simp: check_output_def remote_ok_def lang_ok_def force_local_def)
  then have "remote_ok st4"
    using remote_ok_steps(5) [OF remote_ok_steps(4) [OF remote_ok_steps(3) [OF remote_ok_steps(2) [OF remote_ok_steps(1)]] s3] s4] by blast
  then show "known_language (m_language (sc_job st))" "m_output_file (sc_job st) \<noteq> ''''" "has_mode (m_flags (sc_job st))"
    using assms(2) by (simp_all add: st remote_ok_def argv_result_def)
qed

section \<open>Properties\<close>

text \<open>
  C40. The analysis of a command line ends normally, in a client that is built without assertions: if \<open>PATH\<close> is set, the working directory is
  absolute or unknown and the empty name is no file, and if no argument is empty, the last one does not need another, and none asks for the native
  architecture, then no string is made of a null pointer, no iterator runs past the end of the arguments, and no exception is thrown.
\<close>

theorem analyse_argv_total:
  assumes "\<not> ce_asserts env" and "ce_getenv env ''PATH'' \<noteq> None"
    and "\<forall>d. ce_getcwd env = Some d \<longrightarrow> d = '''' \<or> hd d = CHR ''/''" and "\<not> ce_readable env ''''"
    and "argv \<noteq> []" and "'''' \<notin> set argv" and "\<forall>a\<in>set argv. \<not> is_native a" and "ends_well argv"
  shows "\<exists>st. analyse_argv env argv job icerun extrafiles second = Some st"
  using assms by (intro analyse_argv_defined) (simp_all add: env_ok_def)

text \<open>
  C39. A compilation that may be sent away is in a language that the remote side knows, has an output file, and its
  remote arguments contain \<open>-c\<close> or \<open>-S\<close>, whatever the command line is.
\<close>

theorem remote_job_complete:
  assumes "analyse_argv env argv job icerun extrafiles second = Some st" and "\<not> argv_result st"
  shows "known_language (m_language (sc_job st)) \<and> m_output_file (sc_job st) \<noteq> '''' \<and> has_mode (m_flags (sc_job st))"
  using analyse_argv_remote [OF assms] by simp

text \<open>
  Whether \<open>-Wa,...\<close> forces a local compilation depends on its last option only: one before it that writes a local
  listing or names a missing file is forgotten.
\<close>

theorem assembler_last_wins:
  assumes "assembler_loop env (as @ [a]) local remote_arg st = Some (local', r, st')"
  shows "\<exists>st1 arg. analyze_assembler_arg env a st1 = Some (local', arg, st')"
  using assms
proof (induction as arbitrary: local remote_arg st)
  case Nil
  then show ?case
    by (cases "analyze_assembler_arg env a st") (fastforce intro: exI [of _ st])+
next
  case (Cons b as)
  then show ?case
    by (auto split: option.splits)
qed

section \<open>Witnesses\<close>

definition demo_env :: client_env where
  "demo_env = \<lparr>ce_getenv = (\<lambda>v. if v = ''PATH'' then Some ''/usr/bin'' else None), ce_readable = (\<lambda>f. False), ce_stat_reg = (\<lambda>f. None),
     ce_lstat = (\<lambda>f. Some FReg), ce_getcwd = Some ''/home/me'', ce_run = (\<lambda>c a fd. ''''), ce_isatty2 = False, ce_gcc_color = False,
     ce_gcc_caret = False, ce_asserts = False\<rparr>"

definition demo_compile_job :: compile_job where
  "demo_compile_job = \<lparr>m_id = 0, m_language = 0, m_compiler_pathname = '''', m_compiler_name = '''', m_environment_version = '''',
     m_flags = [], m_input_file = '''', m_output_file = '''', m_working_directory = '''', m_target_platform = ''x86_64'',
     m_dwarf_fission = False, m_block_rewrite_includes = False\<rparr>"


lemma demo_ends_well: "ends_well [''gcc'', ''-c'', ''-DX'', ''hello.c'']"
proof -
  have "classify ''hello.c'' = OtherOption"
    by code_simp
  then show ?thesis
    by (simp add: ends_well_def)
qed

theorem analyse_argv_total_witness:
  "\<exists>st. analyse_argv demo_env [''gcc'', ''-c'', ''-DX'', ''hello.c''] demo_compile_job False [] False = Some st"
  using analyse_argv_total [of demo_env, OF _ _ _ _ _ _ _ demo_ends_well] by (simp add: is_native_def demo_env_def)

text \<open>Without \<open>PATH\<close> the question which target clang compiles for makes a string of a null pointer.\<close>

lemma clang_needs_path:
  "analyse_argv (demo_env\<lparr>ce_getenv := (\<lambda>_. None)\<rparr>) [''clang'', ''-c'', ''hello.c''] demo_compile_job False [] False = None"
  by code_simp

theorem remote_job_complete_witness:
  "\<exists>st. analyse_argv demo_env [''gcc'', ''-c'', ''-DX'', ''hello.c''] demo_compile_job False [] False = Some st \<and>
     \<not> argv_result st \<and> m_output_file (sc_job st) \<noteq> '''' \<and> has_mode (m_flags (sc_job st))"
proof -
  have "case analyse_argv demo_env [''gcc'', ''-c'', ''-DX'', ''hello.c''] demo_compile_job False [] False of
      None \<Rightarrow> False | Some st \<Rightarrow> \<not> argv_result st"
    by code_simp
  then obtain st where st: "analyse_argv demo_env [''gcc'', ''-c'', ''-DX'', ''hello.c''] demo_compile_job False [] False = Some st" "\<not> argv_result st"
    by (auto split: option.splits)
  from remote_job_complete [OF st] st show ?thesis
    by blast
qed

theorem assembler_last_wins_witness:
  "\<exists>st1 arg st'. analyze_assembler_arg demo_env ''-foo'' st1 = Some (False, arg, st')"
proof -
  have "assembler_loop demo_env ([''-a=listing''] @ [''-foo'']) False ''-Wa'' (False, []) = Some (False, ''-Wa,-a=listing,-foo'', False, [])"
    by code_simp
  from assembler_last_wins [OF this] show ?thesis
    by blast
qed

end
