(* ===== verification/FileChunks.thy ===== *)
theory FileChunks
  imports Messages
begin

text \<open>
  A file on its way through a channel: the answers of \<open>read\<close> on the side of the sender, the messages that carry
  it, and what they mean to the receiver. The client sends the preprocessed source this way (\<open>write_fd_to_server\<close> of
  \<open>client/remote.cpp\<close>), the daemon the object file (\<open>write_output_file\<close> of \<open>daemon/serve.cpp\<close>).
\<close>

section \<open>Reading\<close>

text \<open>
  The answers to \<open>read\<close>, in order: at most the size of the buffer is taken of one, the rest remains for the next call; an exhausted
  list is the end of the file. \<open>content\<close> is the file, up to its end or to an error.
\<close>

definition buffer_size :: nat where
  "buffer_size = 100000"

fun content :: "rd_res list \<Rightarrow> bytes" where
  "content [] = []"
| "content (RIntr # rs) = content rs"
| "content (RAgain # rs) = content rs"
| "content (RErr # rs) = []"
| "content (RData b # rs) = (if b = [] then [] else b @ content rs)"

fun read_weight :: "rd_res list \<Rightarrow> nat" where
  "read_weight [] = 0"
| "read_weight (RData b # rs) = Suc (length b) + read_weight rs"
| "read_weight (_ # rs) = Suc (read_weight rs)"

section \<open>Chunks\<close>

definition file_chunk :: "bytes \<Rightarrow> msg" where
  "file_chunk b = FileChunkMsg \<lparr>fc_buffer = Some b, fc_len = length b, fc_compressed = 0\<rparr>"

definition chunk_bytes :: "file_chunk_msg \<Rightarrow> bytes" where
  "chunk_bytes m = (case fc_buffer m of None \<Rightarrow> [] | Some b \<Rightarrow> take (fc_len m) b)"

text \<open>The file that the first messages of a queue carry, and whether its end is among them.\<close>

fun source_of :: "msg list \<Rightarrow> bytes" where
  "source_of (FileChunkMsg c # ms) = chunk_bytes c @ source_of ms"
| "source_of ms = []"

fun ended :: "msg list \<Rightarrow> bool" where
  "ended (FileChunkMsg c # ms) = ended ms"
| "ended (EndMsg # ms) = True"
| "ended ms = False"

definition whole_chunk :: "file_chunk_msg \<Rightarrow> bool" where
  "whole_chunk c \<longleftrightarrow> length (chunk_bytes c) = fc_len c"

definition whole_chunks :: "msg list \<Rightarrow> bool" where
  "whole_chunks ms \<longleftrightarrow> (\<forall>c. FileChunkMsg c \<in> set ms \<longrightarrow> whole_chunk c)"

lemma chunk_bytes_file_chunk [simp]: "chunk_bytes \<lparr>fc_buffer = Some b, fc_len = length b, fc_compressed = k\<rparr> = b"
  by (simp add: chunk_bytes_def)

text \<open>A file in chunks, followed by its end.\<close>

lemma source_of_file [simp]: "source_of (map file_chunk cs @ EndMsg # ms) = concat cs" "ended (map file_chunk cs @ EndMsg # ms)"
  by (induction cs) (simp_all add: file_chunk_def)

lemma whole_chunks_file [simp]: "whole_chunks (map file_chunk cs @ [EndMsg])"
  by (auto simp: whole_chunks_def whole_chunk_def file_chunk_def)

end
