(* ===== verification/Remote.thy ===== *)
theory Remote
  imports FileChunks ClientEnv ExitCode
begin

unbundle bit_operations_syntax

text \<open>
  The compilation on another host, seen from the client (\<open>client/remote.cpp\<close>): the choice of the
  environments, the request for a compile server, the conversation with it, and the comparison of the results when a
  file is compiled three times.

  The state \<open>cw\<close> holds what the process has sent to the compile server and to the local daemon, the results of the
  sends and the replies still to come, the files it has written, and what it has printed. An exhausted list of results is success,
  an exhausted list of replies a connection that says nothing any more.
\<close>

section \<open>Errors\<close>

text \<open>The two classes of exceptions, with code and text, and the end of the process by a failed assertion or another exception.\<close>

datatype client_exn = ClientError nat string | RemoteError nat string | Terminated

section \<open>State\<close>

record cw =
  cw_sent :: "msg list"
  cw_sends :: "bool list"
  cw_replies :: "msg option list"
  cw_daemon_sent :: "msg list"
  cw_daemon_sends :: "bool list"
  cw_daemon_replies :: "msg option list"
  cw_locks :: "bool list"
  cw_files :: "string \<Rightarrow> bytes option"
  cw_creates :: "bool list"
  cw_writes :: "bool list"
  cw_closes :: "bool list"
  cw_renames :: "bool list"
  cw_open_tmps :: "string list"
  cw_cpp_killed :: bool
  cw_stdout :: string
  cw_stderr :: "(bool \<times> string) list"
  cw_job :: compile_job

text \<open>The next of a list of results.\<close>

definition next_ok :: "bool list \<Rightarrow> bool" where
  "next_ok l = (case l of [] \<Rightarrow> True | b # _ \<Rightarrow> b)"

definition cs_send :: "msg \<Rightarrow> cw \<Rightarrow> bool \<times> cw" where
  "cs_send m s =
     (let ok = next_ok (cw_sends s)
      in (ok, s\<lparr>cw_sends := tl (cw_sends s), cw_sent := (if ok then cw_sent s @ [m] else cw_sent s)\<rparr>))"

definition cs_get_msg :: "cw \<Rightarrow> msg option \<times> cw" where
  "cs_get_msg s = (case cw_replies s of [] \<Rightarrow> (None, s) | m # ms \<Rightarrow> (m, s\<lparr>cw_replies := ms\<rparr>))"

definition daemon_send :: "msg \<Rightarrow> cw \<Rightarrow> bool \<times> cw" where
  "daemon_send m s =
     (let ok = next_ok (cw_daemon_sends s)
      in (ok, s\<lparr>cw_daemon_sends := tl (cw_daemon_sends s), cw_daemon_sent := (if ok then cw_daemon_sent s @ [m] else cw_daemon_sent s)\<rparr>))"

definition daemon_get_msg :: "cw \<Rightarrow> msg option \<times> cw" where
  "daemon_get_msg s = (case cw_daemon_replies s of [] \<Rightarrow> (None, s) | m # ms \<Rightarrow> (m, s\<lparr>cw_daemon_replies := ms\<rparr>))"

definition lock_host :: "cw \<Rightarrow> bool \<times> cw" where
  "lock_host s = (next_ok (cw_locks s), s\<lparr>cw_locks := tl (cw_locks s)\<rparr>)"

section \<open>Environments\<close>

text \<open>\<open>find_first_not_of\<close> and \<open>find\<close> over the commas: the non-empty items.\<close>

definition version_items :: "string \<Rightarrow> string list" where
  "version_items v = filter (\<lambda>i. i \<noteq> '''') (items_of CHR '','' v)"

text \<open>A file that may be used as an environment: readable, regular, and of at least 500 bytes.\<close>

definition usable_env :: "(string \<Rightarrow> bool) \<Rightarrow> (string \<Rightarrow> (bool \<times> int) option) \<Rightarrow> string \<Rightarrow> bool" where
  "usable_env readable lstat version \<longleftrightarrow>
     readable version \<and> (case lstat version of None \<Rightarrow> False | Some (reg, sz) \<Rightarrow> reg \<and> \<not> sz < 500)"

fun parse_versions :: "(string \<Rightarrow> bool) \<Rightarrow> bool \<Rightarrow> string \<Rightarrow> string \<Rightarrow> environments \<Rightarrow> string list \<Rightarrow> environments" where
  "parse_versions usable def_targets target_platform prefx envs [] = envs"
| "parse_versions usable def_targets target_platform prefx envs (couple # rest) =
     (let (platform, version) = (case sfind '':'' couple of
            None \<Rightarrow> (target_platform, couple) | Some colon \<Rightarrow> (take colon couple, drop (colon + 1) couple));
          skip = parse_versions usable def_targets target_platform prefx envs rest;
          eq = sfind ''='' version
      in if def_targets \<and> (case eq of Some e \<Rightarrow> prefx \<noteq> drop (e + 1) version | None \<Rightarrow> prefx \<noteq> '''') then skip
         else
           let version1 = (if def_targets then (case eq of Some e \<Rightarrow> take e version | None \<Rightarrow> version) else version)
           in if platform \<in> set (map fst envs) then skip
              else if \<not> usable version1 then skip
              else parse_versions usable def_targets target_platform prefx (envs @ [(platform, version1)]) rest)"

text \<open>The code builds a string of the variable, which has to be set; the assertion demands that it is not empty.\<close>

definition parse_icecc_version :: "bool \<Rightarrow> (string \<Rightarrow> bool) \<Rightarrow> string \<Rightarrow> string \<Rightarrow> string \<Rightarrow> environments option" where
  "parse_icecc_version dbg usable icecc_version target_platform prefx =
     (if dbg \<and> icecc_version = '''' then None
      else Some (parse_versions usable (contains icecc_version ''='') target_platform prefx [] (version_items icecc_version)))"

definition endswith :: "string \<Rightarrow> string \<Rightarrow> string option" where
  "endswith orig suff =
     (if length orig > length suff \<and> drop (length orig - length suff) orig = suff
      then Some (take (length orig - length suff) orig) else None)"

definition env_suffixes :: "string list" where
  "env_suffixes = [''.tar.xz'', ''.tar.zst'', ''.tar.bz2'', ''.tar.gz'', ''.tar'', ''.tgz'']"

text \<open>\<open>versfile\<close> is one variable, but each use is preceded by a successful \<open>endswith\<close>, which sets it. The maps are \<open>version_map\<close> and \<open>versionfile_map\<close>.\<close>

definition rip_out_one :: "string \<times> string \<Rightarrow> (string \<times> string) list" where
  "rip_out_one env = map (\<lambda>v. (fst env, find_basename v)) (List.map_filter (endswith (snd env)) env_suffixes)"

definition rip_out_paths :: "environments \<Rightarrow> environments \<times> (string \<Rightarrow> string) \<times> (string \<Rightarrow> string)" where
  "rip_out_paths envs =
     (let env2 = concat (map rip_out_one envs);
          files = filter (\<lambda>env. rip_out_one env \<noteq> []) envs
      in (env2,
          \<lambda>p. case map_of (rev env2) p of None \<Rightarrow> '''' | Some v \<Rightarrow> v,
          \<lambda>p. case map_of (rev files) p of None \<Rightarrow> '''' | Some v \<Rightarrow> v))"

section \<open>Sending a file\<close>

definition check_for_failure :: "string \<Rightarrow> msg option \<Rightarrow> client_exn option" where
  "check_for_failure server m =
     (case m of
        Some (StatusTextMsg text) \<Rightarrow>
          Some (ClientError 23 (''Error 23 - Remote status (compiled on '' @ server @ '')'' @ [CHR 0x0A] @ text))
      | _ \<Rightarrow> None)"

text \<open>The buffer is sent; with \<open>unlock_sending\<close> the lock is given up meanwhile.\<close>

definition flush_chunk :: "string \<Rightarrow> bool \<Rightarrow> bytes \<Rightarrow> cw \<Rightarrow> (client_exn + unit) \<times> cw" where
  "flush_chunk server unlock_sending buffer s =
     (if buffer = [] then (Inr (), s)
      else
        let (ok, s1) = cs_send (file_chunk buffer) s
        in if \<not> ok then
             let (m, s2) = cs_get_msg s1
             in (Inl (case check_for_failure server m of Some e \<Rightarrow> e | None \<Rightarrow> ClientError 15 ''Error 15 - write to host failed''), s2)
           else if unlock_sending then
             let (locked, s2) = lock_host s1
             in (if locked then Inr () else Inl (ClientError 32 ''Error 32 - lock failed''), s2)
           else (Inr (), s1))"

text \<open>\<open>buffer\<close> holds the bytes read and not sent yet, fewer than fit; a read into a full buffer would return nothing.\<close>

function write_fd_to_server :: "string \<Rightarrow> bool \<Rightarrow> rd_res list \<Rightarrow> bytes \<Rightarrow> cw \<Rightarrow> (client_exn + unit) \<times> cw" where
  "write_fd_to_server server unlock_sending [] buffer s = flush_chunk server unlock_sending buffer s"
| "write_fd_to_server server unlock_sending (RIntr # rs) buffer s = write_fd_to_server server unlock_sending rs buffer s"
| "write_fd_to_server server unlock_sending (RAgain # rs) buffer s = write_fd_to_server server unlock_sending rs buffer s"
| "write_fd_to_server server unlock_sending (RErr # rs) buffer s = (Inl (ClientError 16 ''Error 16 - error reading local file''), s)"
| "write_fd_to_server server unlock_sending (RData b # rs) buffer s =
     (if b = [] \<or> length buffer \<ge> buffer_size then flush_chunk server unlock_sending buffer s
      else
        let room = buffer_size - length buffer;
            rs' = (if length b \<le> room then rs else RData (drop room b) # rs);
            buffer' = buffer @ take room b
        in if length buffer' < buffer_size then write_fd_to_server server unlock_sending rs buffer' s
           else (case flush_chunk server unlock_sending buffer' s of
                   (Inl e, s1) \<Rightarrow> (Inl e, s1)
                 | (Inr _, s1) \<Rightarrow> write_fd_to_server server unlock_sending rs' [] s1))"
  by pat_completeness auto

termination write_fd_to_server
  by (relation "measure (\<lambda>(_, _, rs, _). read_weight rs)") auto

section \<open>Receiving a file\<close>

text \<open>The loop over the messages. Only the branches that do so remove the temporary file; the descriptor is closed by none of them.\<close>

fun receive_chunks :: "string \<Rightarrow> string \<Rightarrow> msg option list \<Rightarrow> cw \<Rightarrow> (client_exn + unit) \<times> cw" where
  "receive_chunks server tmp [] s = (Inl (ClientError 19 ''Error 19 - (network failure?)''), s\<lparr>cw_replies := [], cw_files := (cw_files s)(tmp := None)\<rparr>)"
| "receive_chunks server tmp (r # rs) s =
     (case r of
        None \<Rightarrow> (Inl (ClientError 19 ''Error 19 - (network failure?)''), s\<lparr>cw_replies := rs, cw_files := (cw_files s)(tmp := None)\<rparr>)
      | Some m \<Rightarrow>
          (case check_for_failure server (Some m) of
             Some e \<Rightarrow> (Inl e, s\<lparr>cw_replies := rs\<rparr>)
           | None \<Rightarrow>
               (case m of
                  EndMsg \<Rightarrow> (Inr (), s\<lparr>cw_replies := rs\<rparr>)
                | FileChunkMsg c \<Rightarrow>
                    (if next_ok (cw_writes s)
                     then receive_chunks server tmp rs (s\<lparr>cw_writes := tl (cw_writes s),
                       cw_files := (cw_files s)(tmp := map_option (\<lambda>old. old @ chunk_bytes c) (cw_files s tmp))\<rparr>)
                     else (Inl (ClientError 21 ''Error 21 - error writing file''),
                       s\<lparr>cw_replies := rs, cw_writes := tl (cw_writes s), cw_files := (cw_files s)(tmp := None)\<rparr>))
                | _ \<Rightarrow> (Inl (ClientError 20 ''Error 20 - unexpected message''),
                        s\<lparr>cw_replies := rs, cw_files := (cw_files s)(tmp := None)\<rparr>))))"

definition tmp_name :: "string \<Rightarrow> string" where
  "tmp_name output_file = output_file @ ''_icetmp''"

definition receive_file :: "string \<Rightarrow> string \<Rightarrow> cw \<Rightarrow> (client_exn + unit) \<times> cw" where
  "receive_file server output_file s0 =
     (let tmp = tmp_name output_file; s = s0\<lparr>cw_creates := tl (cw_creates s0)\<rparr>
      in if \<not> next_ok (cw_creates s0) then (Inl (ClientError 31 (''Error 31 - can'' @ [CHR 0x27] @ ''t create '' @ tmp @ '':'')), s)
         else
           (case receive_chunks server tmp (cw_replies s) (s\<lparr>cw_files := (cw_files s)(tmp := Some []), cw_open_tmps := tmp # cw_open_tmps s\<rparr>) of
              (Inl e, s1) \<Rightarrow> (Inl e, s1)
            | (Inr _, s1) \<Rightarrow>
                let s2 = s1\<lparr>cw_closes := tl (cw_closes s1), cw_open_tmps := remove1 tmp (cw_open_tmps s1)\<rparr>
                in if \<not> next_ok (cw_closes s1)
                   then (Inl (ClientError 30 ''Error 30 - error closing temp file''), s2\<lparr>cw_files := (cw_files s2)(tmp := None)\<rparr>)
                   else
                     let s3 = s2\<lparr>cw_renames := tl (cw_renames s2)\<rparr>
                     in if next_ok (cw_renames s2)
                        then (Inr (), s3\<lparr>cw_files := (cw_files s3)(tmp := None, output_file := cw_files s3 tmp)\<rparr>)
                        else (Inl (ClientError 30 ''Error 30 - error closing temp file''), s3\<lparr>cw_files := (cw_files s3)(tmp := None)\<rparr>)))"

section \<open>Flags that name files\<close>

definition file_flag_prefixes :: "string list" where
  "file_flag_prefixes = [''--warning-suppression-mappings='', ''-fprofile-sample-use='', ''-fprofile-use='',
     ''-fsanitize-blacklist='', ''-fsanitize-coverage-allowlist='', ''-fsanitize-ignorelist='']"

definition remote_root :: string where
  "remote_root = ''/icecc-extrafiles/''"

text \<open>\<open>RebasePathFlagsUpdater\<close>: the constructor and the operator. \<open>realpath\<close> answers for existing files only, as \<open>stat\<close> does.\<close>

definition updater_build_root :: "client_env \<Rightarrow> (string \<Rightarrow> string option) \<Rightarrow> string" where
  "updater_build_root env realpath =
     (case ce_getenv env ''ICECC_BUILD_ROOT'' of
        None \<Rightarrow> ''''
      | Some r \<Rightarrow> (case realpath r of None \<Rightarrow> '''' | Some p \<Rightarrow> p @ ''/''))"

definition rebase_flag :: "string \<Rightarrow> (string \<Rightarrow> bool) \<Rightarrow> (string \<Rightarrow> string option) \<Rightarrow> string \<Rightarrow> argument_type \<Rightarrow> string" where
  "rebase_flag build_root exists realpath arg t =
     (if build_root = '''' \<or> t = Arg_Local then arg
      else case find (\<lambda>p. prefix p arg) file_flag_prefixes of
        None \<Rightarrow> arg
      | Some p \<Rightarrow>
          let f = drop (length p) arg
          in if \<not> exists f then arg
             else case realpath f of
               None \<Rightarrow> arg
             | Some path \<Rightarrow> if prefix build_root path then p @ remote_root @ drop (length build_root) path else arg)"

section \<open>The conversation with the compile server\<close>

text \<open>
  What the system answers: the protocol of the channel (\<open>None\<close> when nobody is there), the file of the environment (whether \<open>stat\<close>
  succeeds, and what reading it gives), the preprocessor (its pipe, its output and how it ends) or the preprocessed file.
\<close>

datatype cpp_result = CppPipeFails | CppForkFails | CppRun "rd_res list" wait_status

record remote_sys =
  rs_env :: client_env
  rs_asserts :: bool
  rs_connect :: "int option"
  rs_server_name :: string
  rs_version_stat :: bool
  rs_version_file :: "rd_res list option"
  rs_cpp :: cpp_result
  rs_preproc :: "rd_res list option"
  rs_exists :: "string \<Rightarrow> bool"
  rs_realpath :: "string \<Rightarrow> string option"
  rs_no_show_caret :: bool
  rs_color_diagnostics :: bool


definition transfer_env :: "remote_sys \<Rightarrow> int \<Rightarrow> string \<Rightarrow> string \<Rightarrow> cw \<Rightarrow> (client_exn + unit) \<times> cw" where
  "transfer_env y p hostname version_file s =
     (if \<not> rs_version_stat y then (Inl (ClientError 4 ''Error 4 - unable to stat version file''), s)
      else
        let target = m_target_platform (cw_job s); env = m_environment_version (cw_job s);
            (ok, s1) = cs_send (EnvTransferMsg \<lparr>et_name = env, et_target = target\<rparr>) s
        in if \<not> ok then (Inl (ClientError 6 ''Error 6 - send environment to remote failed''), s1)
           else case rs_version_file y of
             None \<Rightarrow> (Inl (ClientError 5 (''Error 5 - unable to open version file:'' @ [CHR 0x0A, CHR 0x09] @ version_file)), s1)
           | Some reads \<Rightarrow>
               (case write_fd_to_server (rs_server_name y) False reads [] s1 of
                  (Inl e, s2) \<Rightarrow> (Inl e, s2)
                | (Inr _, s2) \<Rightarrow>
                    let (ok, s3) = cs_send EndMsg s2
                    in if \<not> ok then (Inl (ClientError 8 ''Error 8 - write environment to remote failed''), s3)
                       else if \<not> p \<ge> 31 then (Inr (), s3)
                       else
                         let (ok, s4) = cs_send (VerifyEnvMsg \<lparr>ve_environment = env, ve_target = target\<rparr>) s3
                         in if \<not> ok then (Inl (ClientError 22 ''Error 22 - error sending environment''), s4)
                            else
                              let (m, s5) = cs_get_msg s4
                              in (case m of
                                    Some (VerifyEnvResultMsg True) \<Rightarrow> (Inr (), s5)
                                  | Some (VerifyEnvResultMsg False) \<Rightarrow>
                                      (Inl (ClientError 24 (''Error 24 - remote '' @ hostname @ '' unable to handle environment'')),
                                       snd (daemon_send (BlacklistHostEnvMsg \<lparr>bl_environment = env, bl_target = target, bl_hostname = hostname\<rparr>) s5))
                                  | _ \<Rightarrow> (Inl (ClientError 25 ''Error 25 - other error verifying environment on remote''), s5))))"

text \<open>
  The preprocessed source on its way. \<open>Inr (Some status)\<close> is a \<open>return\<close> of \<open>build_remote_int\<close>. When the transfer fails the preprocessor is killed.
\<close>

definition send_source :: "remote_sys \<Rightarrow> bool \<Rightarrow> cw \<Rightarrow> (client_exn + u32 option) \<times> cw" where
  "send_source y preproc_file s =
     (let server = rs_server_name y in if \<not> preproc_file then
        (case rs_cpp y of
           CppPipeFails \<Rightarrow> (Inl (ClientError 32 ''Error 18 - (fork error?)''), s)
         | CppForkFails \<Rightarrow>
             let (ok, s1) = lock_host s
             in if \<not> ok then (Inr (Some EXIT_DISTCC_FAILED), s1) else (Inl (ClientError 18 ''Error 18 - (fork error?)''), s1)
         | CppRun reads status \<Rightarrow>
             let (ok, s1) = lock_host s
             in if \<not> ok then (Inr (Some EXIT_DISTCC_FAILED), s1)
                else (case write_fd_to_server server True reads [] s1 of
                        (Inl e, s2) \<Rightarrow> (Inl e, s2\<lparr>cw_cpp_killed := True\<rparr>)
                      | (Inr _, s2) \<Rightarrow>
                          if shell_exit_status status = 0 then (Inr None, s2)
                          else if \<not> compiler_is_clang (cw_job s2) \<and> compiler_only_rewrite_includes (rs_env y) (cw_job s2)
                          then (Inl (RemoteError 103 ''Error 103 - local cpp invocation failed, trying to recompile locally''), s2)
                          else (Inr (Some (shell_exit_status status)), s2)))
      else
        (case rs_preproc y of
           None \<Rightarrow> (Inl (ClientError 11 ''Error 11 - unable to open preprocessed file''), s)
         | Some reads \<Rightarrow>
             (case write_fd_to_server server False reads [] s of
                (Inl e, s1) \<Rightarrow> (Inl e, s1)
              | (Inr _, s1) \<Rightarrow> (Inr None, s1))))"

text \<open>The result message; its texts go to the terminal.\<close>

definition await_result :: "string \<Rightarrow> cw \<Rightarrow> (client_exn + compile_result_msg) \<times> cw" where
  "await_result server s =
     (let (m, s1) = cs_get_msg s
      in (case m of
            None \<Rightarrow> (Inl (ClientError 14 ''Error 14 - error reading message from remote''), s1)
          | Some r \<Rightarrow>
              (case check_for_failure server m of
                 Some e \<Rightarrow> (Inl e, s1)
               | None \<Rightarrow>
                   (case r of
                      CompileResultMsg c \<Rightarrow> (Inr c, s1)
                    | _ \<Rightarrow> (Inl (ClientError 13 ''Error 13 - did not get compile response message''), s1)))))"

definition show_result :: "remote_sys \<Rightarrow> bool \<Rightarrow> compile_result_msg \<Rightarrow> cw \<Rightarrow> (client_exn + unit) \<times> cw" where
  "show_result y output c s =
     (if cr_status c \<noteq> 0 \<and> cr_was_out_of_memory c
      then (Inl (RemoteError 101 ''Error 101 - the server ran out of memory, recompiling locally''), s)
      else if \<not> output then (Inr (), s)
      else if (cr_out c \<noteq> '''' \<or> cr_err c \<noteq> '''') \<and> output_needs_workaround (rs_env y) (rs_no_show_caret y) (cw_job s)
      then (Inl (RemoteError 102 ''Error 102 - command needs stdout/stderr workaround, recompiling locally''), s)
      else if contains (cr_err c) ''file not found''
      then (Inl (RemoteError 104 ''Error 104 - remote is missing file, recompiling locally''), s)
      else (Inr (), s\<lparr>cw_stdout := cw_stdout s @ cr_out c,
        cw_stderr := cw_stderr s @ [(colorify_wanted (rs_env y) (rs_color_diagnostics y) (cw_job s), cr_err c)]\<rparr>))"

definition receive_files :: "remote_sys \<Rightarrow> string \<Rightarrow> compile_result_msg \<Rightarrow> cw \<Rightarrow> (client_exn + unit) \<times> cw" where
  "receive_files y server c s =
     (if rs_asserts y \<and> m_output_file (cw_job s) = '''' then (Inl Terminated, s)
      else if cr_status c \<noteq> 0 then (Inr (), s)
      else (case receive_file server (m_output_file (cw_job s)) s of
              (Inl e, s1) \<Rightarrow> (Inl e, s1)
            | (Inr _, s1) \<Rightarrow>
                if cr_have_dwo_file c then receive_file server (dwo_name (m_output_file (cw_job s1))) s1 else (Inr (), s1)))"

text \<open>The handler of the exceptions reads what the server still has to say.\<close>

definition drain :: "cw \<Rightarrow> cw" where
  "drain s = s\<lparr>cw_replies := tl (dropWhile (\<lambda>m. m \<noteq> None) (cw_replies s))\<rparr>"

definition old_objc_flags :: "int \<Rightarrow> compile_job \<Rightarrow> compile_job" where
  "old_objc_flags p job =
     (if (m_language job = Lang_OBJC \<or> m_language job = Lang_OBJCXX) \<and> \<not> p \<ge> 38
      then appendFlag (if m_language job = Lang_OBJC then ''objective-c'' else ''objective-c++'') Arg_Remote (appendFlag ''-x'' Arg_Remote job)
      else job)"

text \<open>The body of the \<open>try\<close> block after the connection.\<close>

definition converse :: "remote_sys \<Rightarrow> int \<Rightarrow> use_cs_msg \<Rightarrow> string \<Rightarrow> bool \<Rightarrow> bool \<Rightarrow> cw \<Rightarrow> (client_exn + u32) \<times> cw" where
  "converse y p usecs version_file preproc_file output s =
     (case (if ucs_got_env usecs = 0 then transfer_env y p (ucs_hostname usecs) version_file s else (Inr (), s)) of
        (Inl e, s1) \<Rightarrow> (Inl e, s1)
      | (Inr _, s1) \<Rightarrow>
          if \<not> p \<ge> 31 \<and> ignore_unverified (rs_env y)
          then (Inl (ClientError 26 (''Error 26 - environment on '' @ ucs_hostname usecs @ '' cannot be verified'')), s1)
          else
            let s2 = s1\<lparr>cw_job := old_objc_flags p (cw_job s1)\<rparr>;
                remote_job = updateFlags (rebase_flag (updater_build_root (rs_env y) (rs_realpath y)) (rs_exists y) (rs_realpath y)) (cw_job s2);
                (ok, s3) = cs_send (CompileFileMsg remote_job) s2
            in if \<not> ok then (Inl (ClientError 9 ''Error 9 - error sending file to remote''), s3)
               else (case send_source y preproc_file s3 of
                       (Inl e, s4) \<Rightarrow> (Inl e, s4)
                     | (Inr (Some status), s4) \<Rightarrow> (Inr status, s4)
                     | (Inr None, s4) \<Rightarrow>
                         let (ok, s5) = cs_send EndMsg s4
                         in if \<not> ok then (Inl (ClientError 12 ''Error 12 - failed to send file to remote''), s5)
                            else (case await_result (rs_server_name y) s5 of
                                    (Inl e, s6) \<Rightarrow> (Inl e, s6)
                                  | (Inr c, s6) \<Rightarrow>
                                      (case show_result y output c s6 of
                                         (Inl e, s7) \<Rightarrow> (Inl e, s7)
                                       | (Inr _, s7) \<Rightarrow>
                                           (case receive_files y (rs_server_name y) c s7 of
                                              (Inl e, s8) \<Rightarrow> (Inl e, s8)
                                            | (Inr _, s8) \<Rightarrow> (Inr (cr_status c), s8))))))"

definition build_remote_int :: "remote_sys \<Rightarrow> use_cs_msg \<Rightarrow> string \<Rightarrow> string \<Rightarrow> bool \<Rightarrow> bool \<Rightarrow> cw \<Rightarrow> (client_exn + u32) \<times> cw" where
  "build_remote_int y usecs environment version_file preproc_file output s0 =
     (let s = s0\<lparr>cw_job := (cw_job s0)\<lparr>m_id := ucs_job_id usecs, m_environment_version := environment\<rparr>\<rparr>
      in case rs_connect y of
           None \<Rightarrow> (Inl (ClientError 2 (''Error 2 - no server found at '' @ ucs_hostname usecs)), s)
         | Some p \<Rightarrow>
             (case converse y p usecs version_file preproc_file output s of
                (Inr status, s1) \<Rightarrow> (Inr status, s1)
              | (Inl Terminated, s1) \<Rightarrow> (Inl Terminated, s1)
              | (Inl (RemoteError n t), s1) \<Rightarrow> (Inl (RemoteError n t), if n = 103 then s1 else drain s1)
              | (Inl (ClientError n t), s1) \<Rightarrow> (Inl (ClientError n t), drain s1)))"

section \<open>Asking for a server\<close>

definition get_server :: "nat \<Rightarrow> cw \<Rightarrow> (client_exn + use_cs_msg) \<times> cw" where
  "get_server niceness s =
     (let timeout = (if niceness > 0 then 60 * 60 else 4 * 60); (m, s1) = daemon_get_msg s
      in (case m of
            Some (UseCSMsg u) \<Rightarrow> (Inr u, s1)
          | None \<Rightarrow> (Inl (ClientError 1 (''Error 1 - reply timeout '' @ show_nat timeout)), s1)
          | Some r \<Rightarrow> (Inl (ClientError 1 (''Error 1 - expected use_cs reply, but got '' @ [char_of (unat (msg_type r) mod 256)] @ '' instead'')), s1)))"

text \<open>
  What \<open>build_local\<close>, the clocks and \<open>stat\<close> answer when the job is compiled by the client itself: the status and the numbers for the daemon.
\<close>

record local_run =
  lr_status :: u32
  lr_real_msec :: u32
  lr_user_msec :: u32
  lr_sys_msec :: u32
  lr_pfaults :: u32
  lr_size :: "string \<Rightarrow> u32 option"

definition local_done :: "local_run \<Rightarrow> u32 \<Rightarrow> string \<Rightarrow> job_done_msg" where
  "local_done l job_id output_file =
     (JobDoneMsg_make job_id (lr_status l) FROM_SUBMITTER 0)\<lparr>jd_real_msec := lr_real_msec l,
        jd_out_uncompressed := (case lr_size l output_file of None \<Rightarrow> 0 | Some n \<Rightarrow> n)
          + (case lr_size l (dwo_name output_file) of None \<Rightarrow> 0 | Some n \<Rightarrow> n),
        jd_user_msec := lr_user_msec l, jd_sys_msec := lr_sys_msec l, jd_pfaults := lr_pfaults l\<rparr>"

text \<open>The result is whether the job has been built, and its status. Without a run of the compiler \<open>build_local\<close> has ended the process.\<close>

definition maybe_build_local :: "client_env \<Rightarrow> local_run option \<Rightarrow> use_cs_msg \<Rightarrow> cw \<Rightarrow> (client_exn + bool \<times> u32) \<times> cw" where
  "maybe_build_local env l usecs s =
     (if ucs_hostname usecs \<noteq> ''127.0.0.1'' then (Inr (False, 0), s)
      else if ce_getenv env ''ICECC_TEST_REMOTEBUILD'' \<noteq> None \<and> ucs_port usecs \<noteq> 0 then (Inr (False, 0), s)
      else
        let s1 = s\<lparr>cw_job := (cw_job s)\<lparr>m_id := ucs_job_id usecs, m_environment_version := ''__client''\<rparr>\<rparr>;
            (ok, s2) = daemon_send (CompileFileMsg (cw_job s1)) s1
        in if \<not> ok then (Inl (ClientError 29 ''Error 29 - write of job failed''), s2)
           else (case l of
                   None \<Rightarrow> (Inl Terminated, s2)
                 | Some run \<Rightarrow>
                     let (ok, s3) = daemon_send (JobDoneMsg (local_done run (ucs_job_id usecs) (m_output_file (cw_job s2)))) s2
                     in (Inr (ok, lr_status run), s3)))"

definition minimalRemoteVersion :: "client_env \<Rightarrow> compile_job \<Rightarrow> u32" where
  "minimalRemoteVersion env job =
     (let version = MIN_PROTOCOL_VERSION;
          version1 = (if ignore_unverified env then smax32 version 31 else version)
      in if m_dwarf_fission job then smax32 version1 35 else version1)"

definition requiredRemoteFeatures :: "client_env \<Rightarrow> u32" where
  "requiredRemoteFeatures env =
     (case ce_getenv env ''ICECC_ENV_COMPRESSION'' of
        None \<Rightarrow> 0
      | Some c \<Rightarrow> (if c = ''xz'' then NODE_FEATURE_ENV_XZ else 0) OR (if c = ''zstd'' then NODE_FEATURE_ENV_ZSTD else 0))"

section \<open>A job for one server\<close>

definition fake_filename :: "client_env \<Rightarrow> compile_job \<Rightarrow> string option" where
  "fake_filename env job =
     map_option (\<lambda>f. concat (map (\<lambda>a. ''/'' @ a) (remoteFlags job @ restFlags job)) @ f)
       (get_absfilename (get_cwd env) (m_input_file job))"

definition preferred_host :: "client_env \<Rightarrow> string" where
  "preferred_host env = (case ce_getenv env ''ICECC_PREFERRED_HOST'' of None \<Rightarrow> '''' | Some h \<Rightarrow> h)"

definition request_msg :: "remote_sys \<Rightarrow> environments \<Rightarrow> string option \<Rightarrow> u32 \<Rightarrow> u32 \<Rightarrow> int \<Rightarrow> compile_job \<Rightarrow> get_cs_msg option" where
  "request_msg y envs filename torepeat features niceness job =
     (case (filename, argumentFlags job) of
        (Some f, Some flags) \<Rightarrow>
          GetCSMsg_make (rs_asserts y) envs f (m_language job) torepeat (m_target_platform job) flags (preferred_host (rs_env y))
            (minimalRemoteVersion (rs_env y) job) features (of_int niceness) 0
      | _ \<Rightarrow> None)"

text \<open>\<open>build_remote\<close> for a job that is compiled once; the last arguments are the run of the compiler by the client and the niceness.\<close>

definition build_once :: "remote_sys \<Rightarrow> local_run option \<Rightarrow> int \<Rightarrow> environments \<Rightarrow> cw \<Rightarrow> (client_exn + u32) \<times> cw" where
  "build_once y l niceness envs0 s =
     (case rip_out_paths envs0 of
        (envs, version_map, versionfile_map) \<Rightarrow>
          if envs = [] then (Inl (ClientError 22 ''Error 22 - $ICECC_VERSION needs to point to .tar files''), s)
          else case request_msg y envs (fake_filename (rs_env y) (cw_job s)) 1 (requiredRemoteFeatures (rs_env y)) niceness (cw_job s) of
            None \<Rightarrow> (Inl Terminated, s)
          | Some getcs \<Rightarrow>
              let (ok, s1) = daemon_send (GetCSMsg getcs) s
              in if \<not> ok then (Inl (ClientError 24 ''Error 24 - asked for CS''), s1)
                 else (case get_server (nat niceness) s1 of
                         (Inl e, s2) \<Rightarrow> (Inl e, s2)
                       | (Inr usecs, s2) \<Rightarrow>
                           (case maybe_build_local (rs_env y) l usecs s2 of
                              (Inl e, s3) \<Rightarrow> (Inl e, s3)
                            | (Inr (True, ret), s3) \<Rightarrow> (Inr ret, s3)
                            | (Inr (False, _), s3) \<Rightarrow>
                                build_remote_int y usecs (version_map (ucs_host_platform usecs)) (versionfile_map (ucs_host_platform usecs)) False True s3)))"

section \<open>A job for three servers\<close>

datatype fs_op = Unlink string | Rename string string

definition unlink_output :: "bool \<Rightarrow> string \<Rightarrow> fs_op list" where
  "unlink_output has_split_dwarf f = Unlink f # (if has_split_dwarf then [Unlink (dwo_name f)] else [])"

definition caught :: "string \<Rightarrow> string" where
  "caught f = f @ ''.caught''"

text \<open>
  The comparison of the copies with the first one: for each copy the name of its output, its exit code and the md5 sum of its output. The results
  are the exit code of the first, and what happens to the files.
\<close>

fun compare_copies :: "bool \<Rightarrow> string \<Rightarrow> string \<Rightarrow> string \<Rightarrow> u32 \<Rightarrow> (string \<times> u32 \<times> string) list \<Rightarrow> u32 \<times> fs_op list" where
  "compare_copies dwarf preproc job0 md50 code0 [] = (code0, [])"
| "compare_copies dwarf preproc job0 md50 code0 ((jobi, codei, md5i) # rest) =
     (if code0 = 0 \<and> codei = 42 then compare_copies dwarf preproc job0 md50 code0 rest
      else if code0 = 0 \<and> codei \<noteq> 0 then (-1, unlink_output dwarf job0)
      else if code0 = 0 \<and> md5i \<noteq> md50
      then (-1, [Rename job0 (caught job0), Rename preproc (caught preproc)]
                @ (if dwarf then [Rename (dwo_name job0) (caught (dwo_name job0))] else []))
      else case compare_copies dwarf preproc job0 md50 code0 rest of (c, ops) \<Rightarrow> (c, unlink_output dwarf jobi @ ops))"

text \<open>The three calls of \<open>wait\<close>: each gives the number of a child and its status, or fails. The flag is \<open>misc_error\<close>.\<close>

fun collect_exits :: "nat \<Rightarrow> (nat \<times> wait_status) option list \<Rightarrow> u32 list \<Rightarrow> bool \<times> u32 list" where
  "collect_exits 0 ws codes = (False, codes)"
| "collect_exits (Suc n) ws codes =
     (case ws of
        Some (i, status) # ws' \<Rightarrow>
          (case status of Signaled _ \<Rightarrow> (True, codes) | _ \<Rightarrow> collect_exits n ws' (codes[i := shell_exit_status status]))
      | _ \<Rightarrow> collect_exits n (tl ws) codes)"

text \<open>The servers for the copies; an exception leaves the children already started alone.\<close>

fun get_servers :: "nat \<Rightarrow> nat \<Rightarrow> cw \<Rightarrow> (client_exn + use_cs_msg list) \<times> cw" where
  "get_servers niceness 0 s = (Inr [], s)"
| "get_servers niceness (Suc n) s =
     (case get_server niceness s of
        (Inl e, s1) \<Rightarrow> (Inl e, s1)
      | (Inr u, s1) \<Rightarrow>
          (case get_servers niceness n s1 of (Inl e, s2) \<Rightarrow> (Inl e, s2) | (Inr us, s2) \<Rightarrow> (Inr (u # us), s2)))"

record repeat_sys =
  rp_preproc :: string
  rp_cpp :: "wait_status option"
  rp_random :: int
  rp_copies :: "string list"
  rp_waits :: "(nat \<times> wait_status) option list"
  rp_md5 :: "string \<Rightarrow> string"

definition torepeat :: nat where
  "torepeat = 3"

definition finish_copies :: "repeat_sys \<Rightarrow> bool \<Rightarrow> string \<Rightarrow> (client_exn + u32) \<times> fs_op list" where
  "finish_copies rp dwarf job0 =
     (let outputs = job0 # rp_copies rp; (misc_error, codes) = collect_exits torepeat (rp_waits rp) (replicate torepeat 42)
      in if misc_error
         then (Inl (ClientError 27 ''Error 27 - misc error''), concat (map (unlink_output dwarf) outputs) @ [Unlink (rp_preproc rp)])
         else case compare_copies dwarf (rp_preproc rp) job0 (rp_md5 rp job0) (codes ! 0)
                (zip (tl outputs) (zip (tl codes) (map (rp_md5 rp) (tl outputs)))) of
           (code, ops) \<Rightarrow> (Inr code, ops @ [Unlink (rp_preproc rp)]))"

definition build_repeated :: "remote_sys \<Rightarrow> repeat_sys \<Rightarrow> int \<Rightarrow> environments \<Rightarrow> cw \<Rightarrow> (client_exn + u32) \<times> fs_op list \<times> cw" where
  "build_repeated y rp niceness envs0 s =
     (case rip_out_paths envs0 of
        (envs, version_map, versionfile_map) \<Rightarrow>
          if envs = [] then (Inl (ClientError 22 ''Error 22 - $ICECC_VERSION needs to point to .tar files''), [], s)
          else
            let (locked, s1) = lock_host s
            in if \<not> locked then (Inr EXIT_DISTCC_FAILED, [], s1)
               else case rp_cpp rp of
                 None \<Rightarrow> (Inl (ClientError 10 ''Error 10 - (unable to fork process?)''), [Unlink (rp_preproc rp)], s1)
               | Some status \<Rightarrow>
                   if shell_exit_status status \<noteq> 0 then (Inr (shell_exit_status status), [Unlink (rp_preproc rp)], s1)
                   else
                     let s2 = s1\<lparr>cw_job := appendFlag (''-frandom-seed='' @ show_int (rp_random rp)) Arg_Remote (cw_job s1)\<rparr>
                     in case request_msg y envs (get_absfilename (get_cwd (rs_env y)) (m_input_file (cw_job s2))) (of_nat torepeat) 0 niceness (cw_job s2) of
                          None \<Rightarrow> (Inl Terminated, [], s2)
                        | Some getcs \<Rightarrow>
                            let (ok, s3) = daemon_send (GetCSMsg getcs) s2
                            in if \<not> ok then (Inl (ClientError 0 ''Error 0 - asked for CS''), [], s3)
                               else (case get_servers (nat niceness) torepeat s3 of
                                       (Inl e, s4) \<Rightarrow> (Inl e, [], s4)
                                     | (Inr _, s4) \<Rightarrow>
                                         (case finish_copies rp (m_dwarf_fission (cw_job s)) (m_output_file (cw_job s4)) of
                                            (r, ops) \<Rightarrow> (r, ops, s4))))"

text \<open>\<open>random\<close> is \<open>rand() % 1000\<close>.\<close>

definition build_remote :: "remote_sys \<Rightarrow> repeat_sys \<Rightarrow> local_run option \<Rightarrow> int \<Rightarrow> int \<Rightarrow> int \<Rightarrow> environments \<Rightarrow> cw \<Rightarrow> (client_exn + u32) \<times> fs_op list \<times> cw" where
  "build_remote y rp l random permill niceness envs s =
     (if \<not> compiler_is_clang (cw_job s) \<and> random < permill then build_repeated y rp niceness envs s
      else (case build_once y l niceness envs s of (r, s1) \<Rightarrow> (r, [], s1)))"

section \<open>A file is sent completely\<close>

definition cw_same :: "cw \<Rightarrow> cw \<Rightarrow> bool" where
  "cw_same s s' \<longleftrightarrow> cw_files s' = cw_files s \<and> cw_job s' = cw_job s \<and> cw_stdout s' = cw_stdout s \<and> cw_stderr s' = cw_stderr s
     \<and> cw_open_tmps s' = cw_open_tmps s"

lemma cw_same_refl [simp]: "cw_same s s"
  and cw_same_trans: "cw_same s t \<Longrightarrow> cw_same t u \<Longrightarrow> cw_same s u"
  by (simp_all add: cw_same_def)

lemma cs_send_same:
  assumes "cs_send m s = (ok, s')"
  shows "cw_same s s'" and "cw_replies s' = cw_replies s" and "cw_sent s' = (if ok then cw_sent s @ [m] else cw_sent s)"
  using assms by (auto simp: cs_send_def cw_same_def Let_def)

lemma lock_host_same:
  assumes "lock_host s = (ok, s')"
  shows "cw_same s s'" and "cw_replies s' = cw_replies s" and "cw_sent s' = cw_sent s"
  using assms by (auto simp: lock_host_def cw_same_def)

lemma cs_get_msg_same:
  assumes "cs_get_msg s = (m, s')"
  shows "cw_same s s'" and "cw_sent s' = cw_sent s"
  using assms by (auto simp: cs_get_msg_def cw_same_def split: list.splits)

lemma flush_chunk_same:
  assumes "flush_chunk server u buffer s = (r, s')"
  shows "cw_same s s'"
    and "r = Inr () \<Longrightarrow> cw_replies s' = cw_replies s \<and> cw_sent s' = cw_sent s @ (if buffer = [] then [] else [file_chunk buffer])"
proof -
  obtain ok s1 where s1: "cs_send (file_chunk buffer) s = (ok, s1)"
    by fastforce
  obtain m s2 where s2: "cs_get_msg s1 = (m, s2)"
    by fastforce
  obtain l s3 where s3: "lock_host s1 = (l, s3)"
    by fastforce
  note a = cs_send_same [OF s1] and b = cs_get_msg_same [OF s2] and c = lock_host_same [OF s3]
  consider "buffer = []" "s' = s" | "buffer \<noteq> []" "\<not> ok" "s' = s2" "r \<noteq> Inr ()" | "buffer \<noteq> []" ok u "s' = s3"
    | "buffer \<noteq> []" ok "\<not> u" "s' = s1"
    using assms by (cases "buffer = []"; cases ok; cases u) (auto simp: flush_chunk_def Let_def s1 s2 s3)
  note paths = this
  have t: "cw_same s s2" "cw_same s s3"
    using cw_same_trans [OF a(1) b(1)] cw_same_trans [OF a(1) c(1)] .
  show "cw_same s s'"
    by (cases rule: paths) (simp_all add: a(1) t)
  show "r = Inr () \<Longrightarrow> cw_replies s' = cw_replies s \<and> cw_sent s' = cw_sent s @ (if buffer = [] then [] else [file_chunk buffer])"
    by (cases rule: paths) (simp_all add: a(2,3) b(2) c(2,3))
qed

text \<open>One step of the loop with data.\<close>

lemma write_fd_data:
  assumes "b \<noteq> []" and "length buffer < buffer_size"
    and "room = buffer_size - length buffer" and "buffer' = buffer @ take room b" and "rs' = (if length b \<le> room then rs else RData (drop room b) # rs)"
  shows "write_fd_to_server server u (RData b # rs) buffer s =
      (if length buffer' < buffer_size then write_fd_to_server server u rs buffer' s
       else (case flush_chunk server u buffer' s of (Inl e, s1) \<Rightarrow> (Inl e, s1) | (Inr _, s1) \<Rightarrow> write_fd_to_server server u rs' [] s1))"
  unfolding write_fd_to_server.simps Let_def assms(3) [symmetric] assms(4) [symmetric] assms(5) [symmetric] using assms(1,2) by simp

lemma write_fd_same: "write_fd_to_server server u rs buffer s = (r, s') \<Longrightarrow> cw_same s s'"
proof (induction server u rs buffer s rule: write_fd_to_server.induct)
  case (5 server u b rs buffer s)
  define room where "room = buffer_size - length buffer"
  define buffer' where "buffer' = buffer @ take room b"
  define rs' where "rs' = (if length b \<le> room then rs else RData (drop room b) # rs)"
  show ?case
  proof (cases "b = [] \<or> length buffer \<ge> buffer_size")
    case True
    then have "flush_chunk server u buffer s = (r, s')"
      using 5(3) by simp
    then show ?thesis
      by (rule flush_chunk_same(1))
  next
    case False
    note eq = write_fd_data [of b buffer room buffer' rs' rs server u s, OF _ _ room_def buffer'_def rs'_def]
    show ?thesis
    proof (cases "length buffer' < buffer_size")
      case True
      then show ?thesis
        using "5.IH"(1) [OF False room_def rs'_def buffer'_def True] 5(3) eq False by simp
    next
      case full: False
      obtain r1 s1 where s1: "flush_chunk server u buffer' s = (r1, s1)"
        by fastforce
      show ?thesis
      proof (cases r1)
        case (Inl e)
        then show ?thesis
          using flush_chunk_same(1) [OF s1] 5(3) eq False full s1 by simp
      next
        case (Inr y)
        then have "write_fd_to_server server u rs' [] s1 = (r, s')"
          using 5(3) eq False full s1 by simp
        with "5.IH"(2) [OF False room_def rs'_def buffer'_def full _ Inr] s1 have "cw_same s1 s'"
          by simp
        with flush_chunk_same(1) [OF s1] show ?thesis
          by (rule cw_same_trans)
      qed
    qed
  qed
qed (auto dest: flush_chunk_same(1))

text \<open>What has been sent when no exception was thrown: the whole file in chunks.\<close>

lemma write_fd_sends:
  assumes "write_fd_to_server server u rs buffer s = (Inr x, s')" and "length buffer < buffer_size"
  shows "\<exists>cs. cw_sent s' = cw_sent s @ map file_chunk cs \<and> concat cs = buffer @ content rs \<and> cw_replies s' = cw_replies s"
  using assms
proof (induction server u rs buffer s rule: write_fd_to_server.induct)
  case (1 server u buffer s)
  then show ?case
    using flush_chunk_same(2) [of server u buffer s "Inr x" s'] by (intro exI [of _ "if buffer = [] then [] else [buffer]"]) auto
next
  case (5 server u b rs buffer s)
  define room where "room = buffer_size - length buffer"
  define buffer' where "buffer' = buffer @ take room b"
  define rs' where "rs' = (if length b \<le> room then rs else RData (drop room b) # rs)"
  show ?case
  proof (cases "b = []")
    case True
    then show ?thesis
      using 5(3) flush_chunk_same(2) [of server u buffer s "Inr x" s'] by (intro exI [of _ "if buffer = [] then [] else [buffer]"]) auto
  next
    case b: False
    have full: "buffer' @ content rs' = buffer @ content (RData b # rs)"
      using b by (auto simp: buffer'_def rs'_def)
    note eq = write_fd_data [OF b "5.prems"(2) room_def buffer'_def rs'_def, of server u s]
    show ?thesis
    proof (cases "length buffer' < buffer_size")
      case True
      then have "length b \<le> room"
        using "5.prems"(2) by (auto simp: buffer'_def room_def)
      then have "rs' = rs"
        by (simp add: rs'_def)
      with "5.IH"(1) [OF _ room_def rs'_def buffer'_def True] True "5.prems" b full eq show ?thesis
        by auto
    next
      case False
      then obtain s1 where s1: "flush_chunk server u buffer' s = (Inr (), s1)" "write_fd_to_server server u rs' [] s1 = (Inr x, s')"
        using "5.prems"(1) unfolding eq by (auto split: prod.splits sum.splits)
      have ne: "buffer' \<noteq> []"
        using False by (auto simp: buffer_size_def)
      from "5.IH"(2) [OF _ room_def rs'_def buffer'_def False s1(1)[symmetric] refl s1(2)] "5.prems"(2) b
      obtain cs where "cw_sent s' = cw_sent s1 @ map file_chunk cs" "concat cs = content rs'" "cw_replies s' = cw_replies s1"
        by (auto simp: buffer_size_def)
      then show ?thesis
        using flush_chunk_same(2) [OF s1(1) refl] ne full by (intro exI [of _ "buffer' # cs"]) auto
    qed
  qed
qed auto

section \<open>A file is received completely or not at all\<close>

text \<open>The messages up to the first reply that does not come.\<close>

fun arrived :: "msg option list \<Rightarrow> msg list" where
  "arrived (Some m # rs) = m # arrived rs"
| "arrived _ = []"

lemma arrived_map [simp]: "arrived (map Some ms) = ms"
  by (induction ms) auto

lemma receive_chunks_result:
  assumes "receive_chunks server tmp rs s = (r, s')"
  shows "\<forall>f. f \<noteq> tmp \<longrightarrow> cw_files s' f = cw_files s f"
    and "cw_job s' = cw_job s" and "cw_sent s' = cw_sent s" and "cw_stdout s' = cw_stdout s" and "cw_stderr s' = cw_stderr s"
    and "r = Inr () \<Longrightarrow> cw_files s tmp = Some old \<Longrightarrow> cw_files s' tmp = Some (old @ source_of (arrived rs)) \<and> ended (arrived rs)"
proof -
  have "(\<forall>f. f \<noteq> tmp \<longrightarrow> cw_files s' f = cw_files s f) \<and> cw_job s' = cw_job s \<and> cw_sent s' = cw_sent s \<and> cw_stdout s' = cw_stdout s
    \<and> cw_stderr s' = cw_stderr s
    \<and> (r = Inr () \<longrightarrow> cw_files s tmp = Some old \<longrightarrow> cw_files s' tmp = Some (old @ source_of (arrived rs)) \<and> ended (arrived rs))" for old
    using assms
  proof (induction rs arbitrary: s old)
    case (Cons x rs)
    show ?case
    proof (cases "\<exists>c. x = Some (FileChunkMsg c) \<and> next_ok (cw_writes s)")
      case True
      then obtain c where x: "x = Some (FileChunkMsg c)" "next_ok (cw_writes s)"
        by blast
      let ?t = "s\<lparr>cw_writes := tl (cw_writes s), cw_files := (cw_files s)(tmp := map_option (\<lambda>old. old @ chunk_bytes c) (cw_files s tmp))\<rparr>"
      have "receive_chunks server tmp rs ?t = (r, s')"
        using Cons.prems x by (simp add: check_for_failure_def)
      from Cons.IH [OF this, of "old @ chunk_bytes c"] show ?thesis
        using x by auto
    next
      case False
      then show ?thesis
        using Cons.prems by (auto simp: check_for_failure_def split: option.splits msg.splits if_splits)
    qed
  qed auto
  then show "\<forall>f. f \<noteq> tmp \<longrightarrow> cw_files s' f = cw_files s f" "cw_job s' = cw_job s" "cw_sent s' = cw_sent s" "cw_stdout s' = cw_stdout s" "cw_stderr s' = cw_stderr s"
    "r = Inr () \<Longrightarrow> cw_files s tmp = Some old \<Longrightarrow> cw_files s' tmp = Some (old @ source_of (arrived rs)) \<and> ended (arrived rs)"
    by blast+
qed

lemma tmp_name_other [simp]: "tmp_name f \<noteq> f" "f \<noteq> tmp_name f"
  by (simp_all add: tmp_name_def)

lemma receive_file_result:
  assumes "receive_file server out s = (r, s')"
  shows "\<forall>f. f \<noteq> out \<longrightarrow> f \<noteq> tmp_name out \<longrightarrow> cw_files s' f = cw_files s f"
    and "cw_job s' = cw_job s" and "cw_sent s' = cw_sent s" and "cw_stdout s' = cw_stdout s" and "cw_stderr s' = cw_stderr s"
    and "r = Inr () \<Longrightarrow> cw_files s' out = Some (source_of (arrived (cw_replies s))) \<and> ended (arrived (cw_replies s)) \<and> cw_files s' (tmp_name out) = None"
    and "r \<noteq> Inr () \<Longrightarrow> cw_files s' out = cw_files s out"
proof -
  let ?tmp = "tmp_name out"
  let ?s0 = "s\<lparr>cw_creates := tl (cw_creates s), cw_files := (cw_files s)(?tmp := Some []), cw_open_tmps := ?tmp # cw_open_tmps s\<rparr>"
  obtain r1 s1 where r1: "receive_chunks server ?tmp (cw_replies s) ?s0 = (r1, s1)"
    by fastforce
  note c = receive_chunks_result [OF r1]
  define s2 where "s2 = s1\<lparr>cw_closes := tl (cw_closes s1), cw_open_tmps := remove1 ?tmp (cw_open_tmps s1)\<rparr>"
  define s3 where "s3 = s2\<lparr>cw_renames := tl (cw_renames s2)\<rparr>"
  have same: "cw_files s2 = cw_files s1" "cw_files s3 = cw_files s1" "cw_job s2 = cw_job s1" "cw_job s3 = cw_job s1" "cw_sent s2 = cw_sent s1" "cw_sent s3 = cw_sent s1"
    "cw_stdout s2 = cw_stdout s1" "cw_stdout s3 = cw_stdout s1" "cw_stderr s2 = cw_stderr s1" "cw_stderr s3 = cw_stderr s1"
    by (simp_all add: s2_def s3_def)
  have eq: "receive_file server out s =
    (if \<not> next_ok (cw_creates s) then (Inl (ClientError 31 (''Error 31 - can'' @ [CHR 0x27] @ ''t create '' @ ?tmp @ '':'')), s\<lparr>cw_creates := tl (cw_creates s)\<rparr>)
     else case r1 of Inl e \<Rightarrow> (Inl e, s1) | Inr _ \<Rightarrow>
       (if \<not> next_ok (cw_closes s1) then (Inl (ClientError 30 ''Error 30 - error closing temp file''), s2\<lparr>cw_files := (cw_files s2)(?tmp := None)\<rparr>)
        else if next_ok (cw_renames s2) then (Inr (), s3\<lparr>cw_files := (cw_files s3)(?tmp := None, out := cw_files s3 ?tmp)\<rparr>)
        else (Inl (ClientError 30 ''Error 30 - error closing temp file''), s3\<lparr>cw_files := (cw_files s3)(?tmp := None)\<rparr>)))"
    unfolding receive_file_def Let_def s2_def s3_def by (simp add: r1 split: sum.split)
  have fin: "r1 = Inr () \<Longrightarrow> cw_files s1 ?tmp = Some (source_of (arrived (cw_replies s))) \<and> ended (arrived (cw_replies s))"
    using c(6) [of "[]"] by simp
  have other: "\<And>f. f \<noteq> ?tmp \<Longrightarrow> cw_files s1 f = cw_files s f"
    using c(1) by simp
  show "\<forall>f. f \<noteq> out \<longrightarrow> f \<noteq> ?tmp \<longrightarrow> cw_files s' f = cw_files s f"
    using assms other same unfolding eq by (auto split: if_splits sum.splits)
  show "cw_job s' = cw_job s" "cw_sent s' = cw_sent s" "cw_stdout s' = cw_stdout s" "cw_stderr s' = cw_stderr s"
    using assms c(2-5) same unfolding eq by (auto split: if_splits sum.splits)
  show "r = Inr () \<Longrightarrow> cw_files s' out = Some (source_of (arrived (cw_replies s))) \<and> ended (arrived (cw_replies s)) \<and> cw_files s' ?tmp = None"
    using assms fin same unfolding eq by (auto split: if_splits sum.splits)
  show "r \<noteq> Inr () \<Longrightarrow> cw_files s' out = cw_files s out"
    using assms other same unfolding eq by (auto split: if_splits sum.splits)
qed

text \<open>
  C25. The output file is received atomically: after \<open>receive_file\<close> it is what the server has sent up to the end of the file, when no
  exception was thrown, and what it was before otherwise; no other file has changed but the temporary one, which is gone after a success.
\<close>

theorem received_atomically:
  "case receive_file server out s of (r, s') \<Rightarrow>
     (r = Inr () \<longrightarrow> cw_files s' out = Some (source_of (arrived (cw_replies s))) \<and> ended (arrived (cw_replies s)) \<and> cw_files s' (tmp_name out) = None)
     \<and> (r \<noteq> Inr () \<longrightarrow> cw_files s' out = cw_files s out)
     \<and> (\<forall>f. f \<noteq> out \<longrightarrow> f \<noteq> tmp_name out \<longrightarrow> cw_files s' f = cw_files s f)"
  using receive_file_result(1,6,7) [of server out s] by (cases "receive_file server out s") simp

lemma next_ok_all: "False \<notin> set bs \<Longrightarrow> next_ok bs \<and> False \<notin> set (tl bs)"
  by (cases bs) (auto simp: next_ok_def)

lemma receive_chunks_text:
  assumes "False \<notin> set (cw_writes u)" and "cw_files u tmp = Some old"
    and "check_for_failure server (Some (StatusTextMsg t)) = Some e"
  shows "\<exists>s'. receive_chunks server tmp (map (Some \<circ> file_chunk) cs @ Some (StatusTextMsg t) # rs) u = (Inl e, s')
      \<and> cw_files s' tmp = Some (old @ concat cs) \<and> cw_open_tmps s' = cw_open_tmps u"
  using assms(1,2)
proof (induction cs arbitrary: u old)
  case (Cons c cs)
  have "next_ok (cw_writes u)" "False \<notin> set (tl (cw_writes u))"
    using next_ok_all [OF Cons.prems(1)] by blast+
  moreover let ?u = "u\<lparr>cw_writes := tl (cw_writes u), cw_files := (cw_files u)(tmp := Some (old @ c))\<rparr>"
  have "receive_chunks server tmp (Some (file_chunk c) # R) u = receive_chunks server tmp R ?u" if "next_ok (cw_writes u)" for R
    using that Cons.prems(2) by (simp add: file_chunk_def check_for_failure_def)
  moreover have "\<exists>s'. receive_chunks server tmp (map (Some \<circ> file_chunk) cs @ Some (StatusTextMsg t) # rs) ?u = (Inl e, s')
      \<and> cw_files s' tmp = Some ((old @ c) @ concat cs) \<and> cw_open_tmps s' = cw_open_tmps ?u" if "False \<notin> set (tl (cw_writes u))"
    by (rule Cons.IH) (simp_all add: that)
  ultimately show ?case
    by (simp add: comp_def)
qed (simp add: assms(3))

text \<open>
  A text of the server while a file is received leaves the temporary file behind, and the descriptor open.
\<close>

theorem temporary_file_left:
  assumes "next_ok (cw_creates s)" and "False \<notin> set (cw_writes s)" and "cw_replies s = map (Some \<circ> file_chunk) cs @ Some (StatusTextMsg t) # rs"
  shows "\<exists>e s'. receive_file server out s = (Inl (ClientError 23 e), s') \<and> cw_files s' (tmp_name out) = Some (concat cs) \<and> tmp_name out \<in> set (cw_open_tmps s')"
proof -
  define u where "u = s\<lparr>cw_creates := tl (cw_creates s), cw_files := (cw_files s)(tmp_name out := Some []), cw_open_tmps := tmp_name out # cw_open_tmps s\<rparr>"
  obtain e where e: "check_for_failure server (Some (StatusTextMsg t)) = Some (ClientError 23 e)"
    by (simp add: check_for_failure_def)
  obtain s' where s': "receive_chunks server (tmp_name out) (cw_replies s) u = (Inl (ClientError 23 e), s')"
    "cw_files s' (tmp_name out) = Some (concat cs)" "cw_open_tmps s' = cw_open_tmps u"
    using receive_chunks_text [OF _ _ e, of u "tmp_name out" "[]" cs rs] assms(2,3) by (auto simp: u_def)
  have "receive_file server out s = (Inl (ClientError 23 e), s')"
    unfolding receive_file_def Let_def using s'(1) assms(1) by (simp add: u_def)
  then show ?thesis
    using s'(2,3) by (simp add: u_def)
qed

section \<open>A conversation that succeeds\<close>

text \<open>The source: what the preprocessor wrote before it ended well, or the preprocessed file.\<close>

definition source_reads :: "remote_sys \<Rightarrow> bool \<Rightarrow> rd_res list \<Rightarrow> bool" where
  "source_reads y preproc_file reads \<longleftrightarrow>
     (if preproc_file then rs_preproc y = Some reads else \<exists>st. rs_cpp y = CppRun reads st \<and> shell_exit_status st = 0)"

lemma send_source_result:
  assumes "send_source y pre s = (Inr r, s')"
  shows "r \<noteq> Some 0" and "cw_same s s'"
    and "r = None \<Longrightarrow> \<exists>reads cs. source_reads y pre reads \<and> cw_sent s' = cw_sent s @ map file_chunk cs \<and> concat cs = content reads
      \<and> cw_replies s' = cw_replies s"
proof -
  obtain ok s1 where s1: "lock_host s = (ok, s1)"
    by fastforce
  note l = lock_host_same [OF s1]
  have z: "0 < buffer_size"
    by (simp add: buffer_size_def)
  have "r \<noteq> Some 0 \<and> cw_same s s' \<and> (r = None \<longrightarrow> (\<exists>reads cs. source_reads y pre reads \<and> cw_sent s' = cw_sent s @ map file_chunk cs
      \<and> concat cs = content reads \<and> cw_replies s' = cw_replies s))"
  proof (cases pre)
    case True
    then obtain reads where reads: "rs_preproc y = Some reads"
      and w: "write_fd_to_server (rs_server_name y) False reads [] s = (Inr (), s')" and r: "r = None"
      using assms by (auto simp: send_source_def Let_def split: option.splits prod.splits sum.splits)
    from write_fd_sends [OF w] z write_fd_same [OF w] show ?thesis
      using reads r True by (auto simp: source_reads_def)
  next
    case False
    show ?thesis
    proof (cases "rs_cpp y")
      case (CppRun reads st)
      obtain r2 s2 where w: "write_fd_to_server (rs_server_name y) True reads [] s1 = (r2, s2)"
        by fastforce
      have same: "cw_same s s2"
        using l(1) write_fd_same [OF w] by (rule cw_same_trans)
      show ?thesis
      proof (cases "ok \<and> r2 = Inr ()")
        case True
        then obtain cs where "cw_sent s2 = cw_sent s1 @ map file_chunk cs" "concat cs = content reads" "cw_replies s2 = cw_replies s1"
          using write_fd_sends [of _ _ reads "[]" s1 "()" s2] w z by auto
        then show ?thesis
          using assms False CppRun s1 w True same l
          by (auto simp: send_source_def Let_def source_reads_def split: if_splits)
      next
        case bad: False
        then show ?thesis
          using assms False CppRun s1 w l by (auto simp: send_source_def Let_def exit_codes split: if_splits sum.splits)
      qed
    qed (use assms False s1 l in \<open>auto simp: send_source_def Let_def exit_codes split: if_splits\<close>)
  qed
  then show "r \<noteq> Some 0" "cw_same s s'"
    "r = None \<Longrightarrow> \<exists>reads cs. source_reads y pre reads \<and> cw_sent s' = cw_sent s @ map file_chunk cs \<and> concat cs = content reads
      \<and> cw_replies s' = cw_replies s"
    by blast+
qed

lemma await_result_reply:
  assumes "await_result server s = (Inr c, s')"
  shows "cw_replies s = Some (CompileResultMsg c) # cw_replies s'" and "cw_same s s'" and "cw_sent s' = cw_sent s"
proof -
  obtain m s1 where m: "cs_get_msg s = (m, s1)"
    by fastforce
  have c: "m = Some (CompileResultMsg c)" "s' = s1"
    using assms by (auto simp: await_result_def Let_def m split: option.splits msg.splits)
  then show "cw_replies s = Some (CompileResultMsg c) # cw_replies s'"
    using m by (auto simp: cs_get_msg_def split: list.splits)
  show "cw_same s s'" "cw_sent s' = cw_sent s"
    using cs_get_msg_same [OF m] c by simp_all
qed

lemma show_result_same:
  assumes "show_result y output c s = (r, s')"
  shows "cw_files s' = cw_files s" "cw_job s' = cw_job s" "cw_replies s' = cw_replies s" "cw_sent s' = cw_sent s"
  using assms by (auto simp: show_result_def split: if_splits)

lemma receive_files_result:
  assumes "receive_files y server c s = (Inr u, s')" and "cr_status c = 0"
    and "dwo_name (m_output_file (cw_job s)) \<noteq> m_output_file (cw_job s)"
    and "tmp_name (dwo_name (m_output_file (cw_job s))) \<noteq> m_output_file (cw_job s)"
  shows "cw_files s' (m_output_file (cw_job s)) = Some (source_of (arrived (cw_replies s)))" and "ended (arrived (cw_replies s))"
    and "cw_sent s' = cw_sent s"
proof -
  let ?out = "m_output_file (cw_job s)"
  obtain s1 where s1: "receive_file server ?out s = (Inr (), s1)"
    and s': "if cr_have_dwo_file c then receive_file server (dwo_name (m_output_file (cw_job s1))) s1 = (Inr u, s') else s' = s1"
    using assms(1,2) by (auto simp: receive_files_def split: if_splits prod.splits sum.splits)
  note f = receive_file_result [OF s1]
  have keep: "cw_files s' ?out = cw_files s1 ?out \<and> cw_sent s' = cw_sent s1"
  proof (cases "cr_have_dwo_file c")
    case True
    then have w: "receive_file server (dwo_name (m_output_file (cw_job s1))) s1 = (Inr u, s')"
      using s' by simp
    from receive_file_result(1,3) [OF w] show ?thesis
      using assms(3,4) f(2) by simp
  qed (use s' in simp)
  then show "cw_files s' ?out = Some (source_of (arrived (cw_replies s)))" "ended (arrived (cw_replies s))" "cw_sent s' = cw_sent s"
    using f(3,6) by simp_all
qed

lemma old_objc_flags_output [simp]: "m_output_file (old_objc_flags p j) = m_output_file j"
  by (simp add: old_objc_flags_def appendFlag_def)

lemma suffix_dwo: "suffix ''.dwo'' (dwo_name f)"
  by (simp add: dwo_name_def suffix_def)

text \<open>The job as it is sent: with the names of some files rebased.\<close>

abbreviation sent_job :: "remote_sys \<Rightarrow> compile_job \<Rightarrow> compile_job" where
  "sent_job y job \<equiv> updateFlags (rebase_flag (updater_build_root (rs_env y) (rs_realpath y)) (rs_exists y) (rs_realpath y)) job"

text \<open>
  The whole conversation when \<open>converse\<close> returns a status that is not one of the preprocessor: what is sent, which answer gives the status, and
  the output file.
\<close>

lemma converse_done:
  assumes "converse y p usecs version_file pre output s = (Inr r, s')" and "ucs_got_env usecs \<noteq> 0"
    and send: "\<And>t t'. send_source y pre t \<noteq> (Inr (Some r), t')"
    and "\<not> suffix ''.dwo'' (m_output_file (cw_job s))" and "\<not> suffix ''.dwo_icetmp'' (m_output_file (cw_job s))"
  shows "\<exists>reads cs c R. source_reads y pre reads \<and> concat cs = content reads
    \<and> cw_sent s' = cw_sent s @ CompileFileMsg (sent_job y (old_objc_flags p (cw_job s))) # map file_chunk cs @ [EndMsg]
    \<and> cw_replies s = Some (CompileResultMsg c) # R \<and> cr_status c = r
    \<and> (if r = 0 then cw_files s' (m_output_file (cw_job s)) = Some (source_of (arrived R)) \<and> ended (arrived R) else cw_files s' = cw_files s)"
proof -
  let ?out = "m_output_file (cw_job s)"
  have names: "dwo_name ?out \<noteq> ?out" "tmp_name (dwo_name ?out) \<noteq> ?out"
  proof -
    show "dwo_name ?out \<noteq> ?out"
      using assms(4) suffix_dwo [of ?out] by metis
    obtain d where "dwo_name ?out = d @ ''.dwo''"
      using suffix_dwo [of ?out] by (auto simp: suffix_def)
    then have "suffix ''.dwo_icetmp'' (tmp_name (dwo_name ?out))"
      by (simp add: tmp_name_def suffix_def)
    then show "tmp_name (dwo_name ?out) \<noteq> ?out"
      using assms(5) by auto
  qed
  define s2 where "s2 = s\<lparr>cw_job := old_objc_flags p (cw_job s)\<rparr>"
  define job where "job = updateFlags (rebase_flag (updater_build_root (rs_env y) (rs_realpath y)) (rs_exists y) (rs_realpath y)) (cw_job s2)"
  obtain ok3 s3 where s3: "cs_send (CompileFileMsg job) s2 = (ok3, s3)"
    by fastforce
  obtain r4 s4 where s4: "send_source y pre s3 = (r4, s4)"
    by fastforce
  obtain ok5 s5 where s5: "cs_send EndMsg s4 = (ok5, s5)"
    by fastforce
  obtain r6 s6 where s6: "await_result (rs_server_name y) s5 = (r6, s6)"
    by fastforce
  have eq: "converse y p usecs version_file pre output s =
    (if \<not> p \<ge> 31 \<and> ignore_unverified (rs_env y)
     then (Inl (ClientError 26 (''Error 26 - environment on '' @ ucs_hostname usecs @ '' cannot be verified'')), s)
     else if \<not> ok3 then (Inl (ClientError 9 ''Error 9 - error sending file to remote''), s3)
     else case r4 of
       Inl e \<Rightarrow> (Inl e, s4)
     | Inr (Some status) \<Rightarrow> (Inr status, s4)
     | Inr None \<Rightarrow>
        if \<not> ok5 then (Inl (ClientError 12 ''Error 12 - failed to send file to remote''), s5)
        else case r6 of
          Inl e \<Rightarrow> (Inl e, s6)
        | Inr c \<Rightarrow> (case show_result y output c s6 of
             (Inl e, s7) \<Rightarrow> (Inl e, s7)
           | (Inr _, s7) \<Rightarrow> (case receive_files y (rs_server_name y) c s7 of (Inl e, s8) \<Rightarrow> (Inl e, s8) | (Inr _, s8) \<Rightarrow> (Inr (cr_status c), s8))))"
    unfolding converse_def Let_def s2_def [symmetric] job_def [symmetric] using assms(2)
    by (simp add: s3 s4 s5 s6 s2_def [symmetric] job_def [symmetric] split: sum.split option.split)
  have "r4 \<noteq> Inr (Some r)"
    using send s4 by blast
  then have path: "ok3" "r4 = Inr None" "ok5"
    using assms(1) unfolding eq by (auto split: if_splits sum.splits option.splits)
  then obtain c s7 where c: "r6 = Inr c" and s7: "show_result y output c s6 = (Inr (), s7)"
    and s8: "receive_files y (rs_server_name y) c s7 = (Inr (), s')" and st: "cr_status c = r"
    using assms(1) unfolding eq by (auto split: if_splits sum.splits prod.splits)
  from send_source_result(2,3) [of y pre s3 None s4] obtain reads cs where src: "source_reads y pre reads" "concat cs = content reads"
    "cw_sent s4 = cw_sent s3 @ map file_chunk cs" "cw_replies s4 = cw_replies s3" and same4: "cw_same s3 s4"
    using s4 path(2) by auto
  note m = await_result_reply [OF s6 [unfolded c]]
  note a3 = cs_send_same [OF s3] and a5 = cs_send_same [OF s5] and a7 = show_result_same [OF s7]
  have sent7: "cw_sent s7 = cw_sent s @ CompileFileMsg job # map file_chunk cs @ [EndMsg]"
    using a3(3) a5(3) m(3) a7(4) path src(3) by (simp add: s2_def)
  have replies: "cw_replies s = Some (CompileResultMsg c) # cw_replies s7"
    using a3(2) a5(2) m(1) a7(3) src(4) by (simp add: s2_def)
  have out: "m_output_file (cw_job s7) = ?out"
    using a3(1) same4 a5(1) m(2) a7(2) by (simp add: cw_same_def s2_def)
  have files7: "cw_files s7 = cw_files s"
    using a3(1) same4 a5(1) m(2) a7(1) by (simp add: cw_same_def s2_def)
  have "cw_sent s' = cw_sent s7 \<and> (if r = 0 then cw_files s' ?out = Some (source_of (arrived (cw_replies s7))) \<and> ended (arrived (cw_replies s7))
      else cw_files s' = cw_files s)"
  proof (cases "r = 0")
    case True
    show ?thesis
      using receive_files_result [OF s8 st [unfolded True], unfolded out, OF names] True by simp
  next
    case False
    then show ?thesis
      using s8 st files7 by (auto simp: receive_files_def split: if_splits)
  qed
  then show ?thesis
    using src(1,2) replies st sent7 unfolding job_def s2_def
    by (intro exI [of _ reads] exI [of _ cs] exI [of _ c] exI [of _ "cw_replies s7"]) simp
qed

lemma converse_zero:
  assumes "converse y p usecs version_file pre output s = (Inr 0, s')" and "ucs_got_env usecs \<noteq> 0"
    and "\<not> suffix ''.dwo'' (m_output_file (cw_job s))" and "\<not> suffix ''.dwo_icetmp'' (m_output_file (cw_job s))"
  shows "\<exists>reads cs job c R. source_reads y pre reads \<and> concat cs = content reads
    \<and> cw_sent s' = cw_sent s @ CompileFileMsg job # map file_chunk cs @ [EndMsg]
    \<and> cw_replies s = Some (CompileResultMsg c) # R \<and> cr_status c = 0
    \<and> cw_files s' (m_output_file (cw_job s)) = Some (source_of (arrived R)) \<and> ended (arrived R)"
proof -
  have "send_source y pre t \<noteq> (Inr (Some 0), t')" for t t'
    using send_source_result(1) by blast
  from converse_done [OF assms(1,2) this assms(3,4)] show ?thesis
    by auto
qed

lemma build_remote_int_zero:
  assumes "build_remote_int y usecs environment version_file pre output s = (Inr 0, s')" and "ucs_got_env usecs \<noteq> 0"
    and "\<not> suffix ''.dwo'' (m_output_file (cw_job s))" and "\<not> suffix ''.dwo_icetmp'' (m_output_file (cw_job s))"
  shows "\<exists>reads cs job c R. source_reads y pre reads \<and> concat cs = content reads
    \<and> cw_sent s' = cw_sent s @ CompileFileMsg job # map file_chunk cs @ [EndMsg]
    \<and> cw_replies s = Some (CompileResultMsg c) # R \<and> cr_status c = 0
    \<and> cw_files s' (m_output_file (cw_job s)) = Some (source_of (arrived R)) \<and> ended (arrived R)"
proof -
  let ?s = "s\<lparr>cw_job := (cw_job s)\<lparr>m_id := ucs_job_id usecs, m_environment_version := environment\<rparr>\<rparr>"
  obtain p where "converse y p usecs version_file pre output ?s = (Inr 0, s')"
    using assms(1) by (auto simp: build_remote_int_def Let_def split: option.splits prod.splits sum.splits client_exn.splits)
  from converse_zero [OF this assms(2)] assms(3,4) show ?thesis
    by simp
qed

section \<open>The comparison of the copies\<close>

text \<open>
  The comparison ends with 0 exactly when the first compilation ended with 0 and each other one ended with 0 too and gave
  a file with the same md5 sum, or ended with 42, which counts as not tried. The outputs of the others are removed then, but those of
  the compilations that ended with 42 remain.
\<close>

theorem copies_agree:
  "(fst (compare_copies dwarf preproc job0 md50 code0 copies) = 0 \<longleftrightarrow>
      code0 = 0 \<and> (\<forall>(f, code, md5)\<in>set copies. code = 42 \<or> code = 0 \<and> md5 = md50))
   \<and> (fst (compare_copies dwarf preproc job0 md50 code0 copies) = 0 \<longrightarrow>
      snd (compare_copies dwarf preproc job0 md50 code0 copies)
        = concat (map (\<lambda>(f, code, md5). unlink_output dwarf f) (filter (\<lambda>(f, code, md5). code \<noteq> 42) copies)))
   \<and> (code0 \<noteq> 0 \<longrightarrow> compare_copies dwarf preproc job0 md50 code0 copies
        = (code0, concat (map (\<lambda>(f, code, md5). unlink_output dwarf f) copies)))"
proof (induction copies)
  case (Cons c copies)
  obtain f code md5 where c: "c = (f, code, md5)"
    by (metis prod_cases3)
  obtain r ops where r: "compare_copies dwarf preproc job0 md50 code0 copies = (r, ops)"
    by fastforce
  show ?case
    using Cons.IH unfolding c r
    by (cases "code0 = 0"; cases "code = 42"; cases "code = 0"; cases "md5 = md50") (use r in simp_all)
qed simp

theorem copies_agree_witness:
  "fst (compare_copies False ''p.ix'' ''a.o'' ''aa'' 0 [(''b.o'', 42, ''''), (''c.o'', 0, ''aa'')]) = 0
   \<and> snd (compare_copies False ''p.ix'' ''a.o'' ''aa'' 0 [(''b.o'', 42, ''''), (''c.o'', 0, ''aa'')]) = [Unlink ''c.o'']"
  using copies_agree [of False "''p.ix''" "''a.o''" "''aa''" 0 "[(''b.o'', 42, ''''), (''c.o'', 0, ''aa'')]"]
  by (simp add: unlink_output_def)

section \<open>Witnesses\<close>

definition demo_cw :: "msg option list \<Rightarrow> cw" where
  "demo_cw replies = \<lparr>cw_sent = [], cw_sends = [], cw_replies = replies, cw_daemon_sent = [], cw_daemon_sends = [], cw_daemon_replies = [],
     cw_locks = [], cw_files = (\<lambda>_. None), cw_creates = [], cw_writes = [], cw_closes = [], cw_renames = [], cw_open_tmps = [], cw_cpp_killed = False,
     cw_stdout = '''', cw_stderr = [],
     cw_job = \<lparr>m_id = 0, m_language = Lang_C, m_compiler_pathname = '''', m_compiler_name = ''gcc'', m_environment_version = '''',
       m_flags = [(''-O2'', Arg_Remote)], m_input_file = ''a.c'', m_output_file = ''a.o'', m_working_directory = ''/w'',
       m_target_platform = ''x86_64'', m_dwarf_fission = False, m_block_rewrite_includes = False\<rparr>\<rparr>"

theorem received_atomically_witness:
  "cw_files (snd (receive_file ''h'' ''a.o'' (demo_cw (map Some [file_chunk ''AB'', file_chunk ''C'', EndMsg])))) ''a.o'' = Some ''ABC''"
proof -
  let ?s = "demo_cw (map Some [file_chunk ''AB'', file_chunk ''C'', EndMsg])"
  have "fst (receive_file ''h'' ''a.o'' ?s) = Inr ()"
    by (simp add: receive_file_def Let_def demo_cw_def next_ok_def file_chunk_def check_for_failure_def)
  then show ?thesis
    using received_atomically [where server = "''h''" and out = "''a.o''" and s = ?s]
    by (cases "receive_file ''h'' ''a.o'' ?s") (simp add: demo_cw_def file_chunk_def chunk_bytes_def)
qed

theorem temporary_file_left_witness:
  "\<exists>e s'. receive_file ''h'' ''a.o'' (demo_cw [Some (file_chunk ''AB''), Some (StatusTextMsg ''killed'')]) = (Inl (ClientError 23 e), s')
     \<and> cw_files s' ''a.o_icetmp'' = Some ''AB''"
  using temporary_file_left [of "demo_cw [Some (file_chunk ''AB''), Some (StatusTextMsg ''killed'')]" "[''AB'']" "''killed''" "[]" "''h''" "''a.o''"]
  by (auto simp: demo_cw_def next_ok_def tmp_name_def)

end
