(* ===== verification/WorkIt.thy ===== *)
theory WorkIt
  imports FileChunks CxxString ExitCode
begin

unbundle bit_operations_syntax

text \<open>
  The child of the daemon that runs a compiler (\<open>daemon/workit.cpp\<close>): the arguments of the
  compiler and the loop of the parent that feeds it the preprocessed source, collects its output and
  waits for its end.

  The messages of the client are a queue, \<open>wk_queue\<close>, of what has been sent and not taken yet; one round
  of the loop gets the answers of the system as a record \<open>wk_input\<close>, each used at most once in a round.
  \<open>wk_stdin\<close>, \<open>wk_received\<close> and \<open>wk_kills\<close> record what the compiler could read, what the client has
  sent as file, and how often the compiler was killed.
\<close>

section \<open>Heuristics of gcc\<close>

text \<open>All intermediate results are exact in a \<open>double\<close>: a 32-bit number divided by a power of two, times 70.\<close>

definition ggc_min_expand_heuristic :: "u32 \<Rightarrow> int" where
  "ggc_min_expand_heuristic mem_limit = (min (uint mem_limit * 70) (70 * 1024) + 30 * 1024) div 1024"

definition ggc_min_heapsize_heuristic :: "u32 \<Rightarrow> u32" where
  "ggc_min_heapsize_heuristic mem_limit = min (max (mem_limit div 8) 4) 128 * 1024"

section \<open>The command line of the compiler\<close>

definition remote_list :: "int \<Rightarrow> compile_job \<Rightarrow> string list" where
  "remote_list p j = (if \<not> p \<ge> 41 \<and> m_dwarf_fission j then nonLocalFlags j @ [''-gsplit-dwarf''] else nonLocalFlags j)"

text \<open>The program: \<open>None\<close> is the failed assertion on the name, or on a language that an old client may not send.\<close>

definition remote_program :: "int \<Rightarrow> compile_job \<Rightarrow> string option" where
  "remote_program p j =
     (if p \<ge> 30 then (if m_compiler_name j = '''' then None else Some (''/usr/bin/'' @ m_compiler_name j))
      else if m_language j = Lang_C then Some ''/usr/bin/gcc''
      else if m_language j = Lang_CXX then Some ''/usr/bin/g++''
      else None)"

definition remote_is_clang :: "int \<Rightarrow> compile_job \<Rightarrow> bool" where
  "remote_is_clang p j \<longleftrightarrow> p \<ge> 30 \<and> contains (m_compiler_name j) ''clang''"

definition language_args :: "compile_job \<Rightarrow> string list" where
  "language_args j =
     ''-x'' # (if m_language j = Lang_C then [''c'']
              else if m_language j = Lang_CXX then [''c++'']
              else if m_language j = Lang_OBJC then [''objective-c'']
              else if m_language j = Lang_OBJCXX then [''objective-c++'']
              else [])"

definition clang_args :: "compile_job \<Rightarrow> string list" where
  "clang_args j =
     (if m_input_file j \<noteq> '''' then [''-Xclang'', ''-main-file-name'', ''-Xclang'', m_input_file j] else [])
     @ (if m_working_directory j \<noteq> '''' then [''-Xclang'', ''-fdebug-compilation-dir'', ''-Xclang'', m_working_directory j] else [])"

text \<open>\<open>snprintf\<close> into the buffer of 4096 bytes.\<close>

definition prefix_map_arg :: "string \<Rightarrow> string" where
  "prefix_map_arg tmp_root = take 4095 (''-fdebug-prefix-map='' @ tmp_root @ ''/=/'')"

definition compiler_argv :: "int \<Rightarrow> compile_job \<Rightarrow> string \<Rightarrow> string \<Rightarrow> u64 \<Rightarrow> string list option" where
  "compiler_argv p j tmp_root file_name mem_limit =
     (case remote_program p j of
        None \<Rightarrow> None
      | Some prog \<Rightarrow>
          let clang = remote_is_clang p j; mem = ucast mem_limit :: u32 in
          Some (prog # language_args j @ (if clang then clang_args j else []) @ remote_list p j
            @ (if clang then [] else [''-fpreprocessed'']) @ [''-'', ''-o'', file_name]
            @ (if clang then [''-no-canonical-prefixes'']
               else [''--param'', ''ggc-min-expand='' @ show_int (ggc_min_expand_heuristic mem),
                     ''--param'', ''ggc-min-heapsize='' @ show_int (sint (ggc_min_heapsize_heuristic mem))])
            @ (if \<not> clang \<and> m_dwarf_fission j then [prefix_map_arg tmp_root] else [])))"

text \<open>The size of the array \<open>argv\<close>, without the null pointer at its end.\<close>

definition compiler_argc :: "int \<Rightarrow> compile_job \<Rightarrow> nat" where
  "compiler_argc p j = length (remote_list p j) + 1 + 6 + 4 + 9"

section \<open>State of the loop\<close>

text \<open>The array \<open>job_stat\<close> and its indices, \<open>JobStatistics::job_stat_fields\<close>.\<close>

type_synonym job_statistics = "u32 list"

abbreviation (input) js_in_compressed :: nat where "js_in_compressed \<equiv> 0"
abbreviation (input) js_in_uncompressed :: nat where "js_in_uncompressed \<equiv> 1"
abbreviation (input) js_out_uncompressed :: nat where "js_out_uncompressed \<equiv> 2"
abbreviation (input) js_exit_code :: nat where "js_exit_code \<equiv> 3"
abbreviation (input) js_real_msec :: nat where "js_real_msec \<equiv> 4"
abbreviation (input) js_user_msec :: nat where "js_user_msec \<equiv> 5"
abbreviation (input) js_sys_msec :: nat where "js_sys_msec \<equiv> 6"
abbreviation (input) js_sys_pfaults :: nat where "js_sys_pfaults \<equiv> 7"

record wk =
  wk_fcmsg :: "file_chunk_msg option"
  wk_off :: nat
  wk_input_complete :: bool
  wk_return_value :: u32
  wk_client_fd :: int
  wk_sock_in :: int
  wk_sock_out :: int
  wk_sock_err :: int
  wk_rmsg :: compile_result_msg
  wk_job_stat :: job_statistics
  wk_queue :: "msg list"
  wk_stdin :: bytes
  wk_received :: bytes
  wk_kills :: nat

text \<open>What does not change in the loop.\<close>

record wk_env =
  we_death_fd :: int
  we_mem_limit :: u64
  we_pagesize :: u64
  we_start :: "int \<times> int"
  we_asserts :: bool

record revents =
  rv_in :: bool
  rv_out :: bool
  rv_err :: bool

datatype poll_answer = PollTimeout | PollIntr | PollFail | PollReady "revents list"

datatype write_answer = WBytes nat | WIntr | WErr

record rusage =
  ru_utime :: "int \<times> int"
  ru_stime :: "int \<times> int"
  ru_minflt :: u64
  ru_majflt :: u64
  ru_nswap :: u64

text \<open>
  The answers of one round: whether the next message of the client has arrived and whether the client has hung up after its
  last, the answers to \<open>poll\<close>, \<open>write\<close>, the two \<open>read\<close> (\<open>None\<close> is an error), \<open>wait4\<close>, \<open>statfs\<close> and \<open>gettimeofday\<close>.
\<close>

record wk_input =
  wi_arrived :: bool
  wi_hangup :: bool
  wi_poll :: poll_answer
  wi_write :: write_answer
  wi_out :: "bytes option"
  wi_err :: "bytes option"
  wi_wait :: "(wait_status \<times> rusage) option"
  wi_statfs :: "(int \<times> int) option"
  wi_end :: "int \<times> int"

datatype wk_result = WkMore wk | WkReturn u32 wk | WkAbort

definition wk_start :: "int \<Rightarrow> int \<Rightarrow> int \<Rightarrow> int \<Rightarrow> compile_result_msg \<Rightarrow> job_statistics \<Rightarrow> msg list \<Rightarrow> wk" where
  "wk_start client_fd sock_in sock_out sock_err rmsg job_stat queue =
     \<lparr>wk_fcmsg = None, wk_off = 0, wk_input_complete = False, wk_return_value = 0, wk_client_fd = client_fd,
      wk_sock_in = sock_in, wk_sock_out = sock_out, wk_sock_err = sock_err, wk_rmsg = rmsg, wk_job_stat = job_stat,
      wk_queue = queue, wk_stdin = [], wk_received = [], wk_kills = 0\<rparr>"

section \<open>One round of the loop\<close>

text \<open>The branches that give the job up: the compiler is killed and the client not listened to any more.\<close>

definition wk_give_up :: "u32 \<Rightarrow> wk \<Rightarrow> wk" where
  "wk_give_up code s = s\<lparr>wk_input_complete := True, wk_return_value := code, wk_client_fd := -1,
     wk_kills := wk_kills s + 1, wk_fcmsg := None\<rparr>"

definition wk_take :: "msg \<Rightarrow> wk \<Rightarrow> wk" where
  "wk_take m s =
     (if wk_input_complete s
      then wk_give_up EXIT_CLIENT_KILLED (s\<lparr>wk_rmsg := (wk_rmsg s)\<lparr>cr_err := cr_err (wk_rmsg s) @ ''client cancelled'' @ [CHR 0x0A]\<rparr>\<rparr>)
      else case m of
        EndMsg \<Rightarrow> s\<lparr>wk_input_complete := True, wk_sock_in := (if wk_fcmsg s = None \<and> wk_sock_in s \<noteq> -1 then -1 else wk_sock_in s)\<rparr>
      | FileChunkMsg c \<Rightarrow>
          s\<lparr>wk_fcmsg := Some c, wk_off := 0, wk_received := wk_received s @ chunk_bytes c,
            wk_job_stat := (wk_job_stat s)
              [js_in_uncompressed := wk_job_stat s ! js_in_uncompressed + of_nat (fc_len c),
               js_in_compressed := wk_job_stat s ! js_in_compressed + of_nat (fc_compressed c)]\<rparr>
      | _ \<Rightarrow> wk_give_up EXIT_IO_ERROR s)"

definition wk_receive :: "wk_input \<Rightarrow> wk \<Rightarrow> wk" where
  "wk_receive i s =
     (if wk_client_fd s \<ge> 0 \<and> wk_fcmsg s = None then
        (case wk_queue s of
           m # ms \<Rightarrow> if wi_arrived i then wk_take m (s\<lparr>wk_queue := ms\<rparr>) else s
         | [] \<Rightarrow> if wi_hangup i then wk_give_up EXIT_IO_ERROR s else s)
      else s)"

text \<open>A chunk for a compiler that has closed its input is thrown away.\<close>

definition wk_drop :: "wk \<Rightarrow> wk" where
  "wk_drop s = (if wk_sock_in s = -1 \<and> wk_fcmsg s \<noteq> None then s\<lparr>wk_fcmsg := None\<rparr> else s)"

definition wk_pollfds :: "wk_env \<Rightarrow> wk \<Rightarrow> int list" where
  "wk_pollfds e s =
     (if wk_sock_out s \<ge> 0 then [wk_sock_out s] else [])
     @ (if wk_sock_err s \<ge> 0 then [wk_sock_err s] else [])
     @ (if wk_client_fd s \<ge> 0 \<and> wk_fcmsg s = None then [wk_client_fd s] else [])
     @ (if wk_input_complete s then [we_death_fd e] else [])
     @ (if wk_fcmsg s \<noteq> None \<and> wk_sock_in s \<noteq> -1 then [wk_sock_in s] else [])"

definition pollfd_is_set :: "(int \<times> revents) list \<Rightarrow> int \<Rightarrow> (revents \<Rightarrow> bool) \<Rightarrow> bool \<Rightarrow> bool" where
  "pollfd_is_set pollfds fd flag check_errors =
     (case map_of pollfds fd of None \<Rightarrow> False | Some r \<Rightarrow> flag r \<or> check_errors \<and> rv_err r)"

text \<open>The write to the compiler. The flag says that the round ends here (\<open>continue\<close>).\<close>

definition wk_write :: "(int \<times> revents) list \<Rightarrow> wk_input \<Rightarrow> wk \<Rightarrow> bool \<times> wk" where
  "wk_write fds i s =
     (case wk_fcmsg s of
        None \<Rightarrow> (False, s)
      | Some c \<Rightarrow>
          if pollfd_is_set fds (wk_sock_in s) rv_out True then
            (case wi_write i of
               WIntr \<Rightarrow> (True, s)
             | WErr \<Rightarrow> (True, s\<lparr>wk_kills := wk_kills s + 1,
                 wk_return_value := (if wk_input_complete s then EXIT_COMPILER_CRASHED else wk_return_value s),
                 wk_fcmsg := None, wk_sock_in := -1\<rparr>)
             | WBytes n \<Rightarrow>
                 (let bytes = take n (drop (wk_off s) (chunk_bytes c));
                      s1 = s\<lparr>wk_stdin := wk_stdin s @ bytes, wk_off := wk_off s + length bytes\<rparr>
                  in (False,
                      if wk_off s1 = fc_len c
                      then s1\<lparr>wk_fcmsg := None, wk_sock_in := (if wk_input_complete s1 then -1 else wk_sock_in s1)\<rparr>
                      else s1)))
          else (False, s))"

text \<open>\<open>append(buffer)\<close> takes the bytes up to the first NUL.\<close>

definition c_text :: "bytes \<Rightarrow> string" where
  "c_text b = takeWhile (\<lambda>c. c \<noteq> NUL) (take 4095 b)"

definition wk_read_out :: "(int \<times> revents) list \<Rightarrow> wk_input \<Rightarrow> wk \<Rightarrow> wk" where
  "wk_read_out fds i s =
     (if wk_sock_out s \<ge> 0 \<and> pollfd_is_set fds (wk_sock_out s) rv_in True then
        (case wi_out i of
           None \<Rightarrow> s
         | Some [] \<Rightarrow> s\<lparr>wk_sock_out := -1\<rparr>
         | Some b \<Rightarrow> s\<lparr>wk_rmsg := (wk_rmsg s)\<lparr>cr_out := cr_out (wk_rmsg s) @ c_text b\<rparr>\<rparr>)
      else s)"

definition wk_read_err :: "(int \<times> revents) list \<Rightarrow> wk_input \<Rightarrow> wk \<Rightarrow> wk" where
  "wk_read_err fds i s =
     (if wk_sock_err s \<ge> 0 \<and> pollfd_is_set fds (wk_sock_err s) rv_in True then
        (case wi_err i of
           None \<Rightarrow> s
         | Some [] \<Rightarrow> s\<lparr>wk_sock_err := -1\<rparr>
         | Some b \<Rightarrow> s\<lparr>wk_rmsg := (wk_rmsg s)\<lparr>cr_err := cr_err (wk_rmsg s) @ c_text b\<rparr>\<rparr>)
      else s)"

section \<open>The end of the compiler\<close>

definition out_of_memory :: "wk_env \<Rightarrow> rusage \<Rightarrow> string \<Rightarrow> bool" where
  "out_of_memory e ru err \<longleftrightarrow>
     (let mem_used = (ru_minflt ru + ru_majflt ru) * we_pagesize e div 1024
      in mem_used * 100 > 85 * we_mem_limit e * 1024
         \<or> contains err ''memory exhausted'' \<or> contains err ''out of memory'' \<or> contains err ''annot allocate memory''
         \<or> contains err ''failed to map segment from shared object''
         \<or> contains err (''Assertion `NewElts && '' @ [CHR 0x22] @ ''Out of memory'' @ [CHR 0x22, CHR 0x27] @ '' failed'')
         \<or> contains err (''terminate called after throwing an instance of '' @ [CHR 0x27] @ ''std::bad_alloc'' @ [CHR 0x27])
         \<or> contains err ''llvm::MallocSlabAllocator::Allocate'')"

definition out_of_disk :: "(int \<times> int) option \<Rightarrow> string \<Rightarrow> bool" where
  "out_of_disk statfs err \<longleftrightarrow>
     (case statfs of Some (f_bavail, f_bsize) \<Rightarrow> f_bavail < cdiv (10 * 1024 * 1024) f_bsize | None \<Rightarrow> False)
     \<or> contains err ''o space left on device''"

definition msec :: "int \<times> int \<Rightarrow> int" where
  "msec tv = fst tv * 1000 + cdiv (snd tv) 1000"

definition exit_statistics :: "wk_env \<Rightarrow> wk_input \<Rightarrow> u32 \<Rightarrow> rusage \<Rightarrow> job_statistics \<Rightarrow> job_statistics" where
  "exit_statistics e i code ru js =
     js[js_exit_code := code,
        js_real_msec := of_int ((fst (wi_end i) - fst (we_start e)) * 1000 + cdiv (snd (wi_end i) - snd (we_start e)) 1000),
        js_user_msec := of_int (msec (ru_utime ru)), js_sys_msec := of_int (msec (ru_stime ru)),
        js_sys_pfaults := ucast (ru_majflt ru + ru_nswap ru + ru_minflt ru)]"

definition wk_exit :: "wk_env \<Rightarrow> wk_input \<Rightarrow> wait_status \<Rightarrow> rusage \<Rightarrow> wk \<Rightarrow> wk_result" where
  "wk_exit e i status ru s =
     (let code = shell_exit_status status;
          s1 = (if code \<noteq> 0 then s\<lparr>wk_rmsg := (wk_rmsg s)\<lparr>cr_status := EXIT_OUT_OF_MEMORY\<rparr>\<rparr> else s);
          err = cr_err (wk_rmsg s1)
      in if code \<noteq> 0 \<and> out_of_memory e ru err then WkReturn EXIT_OUT_OF_MEMORY s1
         else if code \<noteq> 0 \<and> out_of_disk (wi_statfs i) err then WkReturn EXIT_IO_ERROR s1
         else WkReturn (wk_return_value s1)
           (case status of
              Exited _ \<Rightarrow> s1\<lparr>wk_rmsg := (wk_rmsg s1)\<lparr>cr_status := code\<rparr>, wk_job_stat := exit_statistics e i code ru (wk_job_stat s1)\<rparr>
            | _ \<Rightarrow> s1))"

definition wk_impossible :: "wk_env \<Rightarrow> wk \<Rightarrow> wk_result" where
  "wk_impossible e s = (if we_asserts e then WkAbort else WkReturn EXIT_DISTCC_FAILED s)"

definition wk_step :: "wk_env \<Rightarrow> wk_input \<Rightarrow> wk \<Rightarrow> wk_result" where
  "wk_step e i s0 =
     (let s = wk_drop (wk_receive i s0)
      in case wi_poll i of
           PollTimeout \<Rightarrow>
             if \<not> wk_input_complete s then WkMore (wk_give_up EXIT_IO_ERROR s) else wk_impossible e s
         | PollIntr \<Rightarrow> WkMore s
         | PollFail \<Rightarrow> wk_impossible e s
         | PollReady rs \<Rightarrow>
             (let fds = zip (wk_pollfds e s) rs; (again, s1) = wk_write fds i s
              in if again then WkMore s1
                 else
                   let s2 = wk_read_err fds i (wk_read_out fds i s1)
                   in if pollfd_is_set fds (we_death_fd e) rv_in True
                      then (case wi_wait i of None \<Rightarrow> wk_impossible e s2 | Some (status, ru) \<Rightarrow> wk_exit e i status ru s2)
                      else WkMore s2))"

text \<open>The loop, as far as the answers reach.\<close>

fun wk_run :: "wk_env \<Rightarrow> wk_input list \<Rightarrow> wk \<Rightarrow> wk_result" where
  "wk_run e [] s = WkMore s"
| "wk_run e (i # is) s = (case wk_step e i s of WkMore s' \<Rightarrow> wk_run e is s' | r \<Rightarrow> r)"

section \<open>Starting the compiler\<close>

text \<open>\<open>error_client\<close> of \<open>workit.cpp\<close>: what it sends on a channel of protocol \<open>p\<close>.\<close>

definition workit_error_client :: "int \<Rightarrow> string \<Rightarrow> msg list" where
  "workit_error_client p error = (if p \<ge> 23 then [StatusTextMsg error] else [])"

datatype compiler_start = StartFailed | StartForkFailed | StartNoCompiler | Started

text \<open>What the forked child tells the client before it becomes the compiler; the statements after a failed check still run.\<close>

record child_env =
  ch_root :: bool
  ch_setrlimit :: bool
  ch_chdir :: bool

definition child_messages :: "int \<Rightarrow> compile_job \<Rightarrow> child_env \<Rightarrow> msg list" where
  "child_messages p j ch =
     (if ch_root ch then workit_error_client p ''UID is 0 - aborting.''
      else (if ch_setrlimit ch then [] else workit_error_client p ''setrlimit failed.'')
        @ (if m_language j \<in> {Lang_C, Lang_CXX, Lang_OBJC, Lang_OBJCXX} then [] else workit_error_client p ''language not supported'')
        @ (if ch_chdir ch then [] else workit_error_client p ''/tmp dir missing?''))"

text \<open>
  The parent in \<open>work_it\<close>: its result, what is sent to the client, and the state it leaves. \<open>None\<close> is a failed
  assertion, or a loop that is still running when the answers are used up.
\<close>

definition work_it :: "wk_env \<Rightarrow> int \<Rightarrow> compile_job \<Rightarrow> child_env \<Rightarrow> compiler_start \<Rightarrow> wk_input list \<Rightarrow> wk \<Rightarrow>
    (u32 \<times> msg list \<times> wk) option" where
  "work_it e p j ch start is s0 =
     (let s = s0\<lparr>wk_rmsg := (wk_rmsg s0)\<lparr>cr_out := ''''\<rparr>\<rparr>
      in case start of
           StartFailed \<Rightarrow> Some (EXIT_DISTCC_FAILED, [], s)
         | StartForkFailed \<Rightarrow> Some (EXIT_OUT_OF_MEMORY, [], s)
         | StartNoCompiler \<Rightarrow>
             Some (EXIT_COMPILER_MISSING, child_messages p j ch @ workit_error_client p ''compiler did not start'',
                   s\<lparr>wk_rmsg := (wk_rmsg s)\<lparr>cr_status := 1\<rparr>\<rparr>)
         | Started \<Rightarrow> (case wk_run e is s of WkReturn r s' \<Rightarrow> Some (r, child_messages p j ch, s') | _ \<Rightarrow> None))"

section \<open>The compiler reads the source\<close>

definition wk_rest :: "wk \<Rightarrow> bytes" where
  "wk_rest s = (case wk_fcmsg s of None \<Rightarrow> [] | Some c \<Rightarrow> drop (wk_off s) (chunk_bytes c))"

text \<open>What holds at the head of the loop, for a client that sent \<open>Q\<close>; the last part for a compiler that was not killed.\<close>

definition wk_ok :: "msg list \<Rightarrow> wk \<Rightarrow> bool" where
  "wk_ok Q s \<longleftrightarrow>
     prefix (wk_stdin s @ wk_rest s) (source_of Q)
     \<and> (wk_sock_in s \<noteq> -1 \<and> wk_client_fd s \<ge> 0 \<longrightarrow> wk_stdin s @ wk_rest s = wk_received s)
     \<and> (\<not> wk_input_complete s \<and> wk_client_fd s \<ge> 0 \<longrightarrow>
          source_of Q = wk_received s @ source_of (wk_queue s) \<and> ended Q = ended (wk_queue s))
     \<and> (\<forall>c. wk_fcmsg s = Some c \<longrightarrow> \<not> wk_input_complete s \<and> wk_sock_in s \<noteq> -1 \<and> wk_client_fd s \<ge> 0
          \<and> wk_off s \<le> fc_len c \<and> whole_chunk c)
     \<and> whole_chunks (wk_queue s)"

definition wk_clean :: "msg list \<Rightarrow> wk \<Rightarrow> bool" where
  "wk_clean Q s \<longleftrightarrow> (wk_kills s = 0 \<longrightarrow>
     wk_return_value s = 0 \<and> wk_client_fd s \<ge> 0 \<and> wk_stdin s @ wk_rest s = wk_received s
     \<and> wk_input_complete s = (wk_sock_in s = -1) \<and> (wk_input_complete s \<longrightarrow> wk_received s = source_of Q \<and> ended Q))"

lemmas wk_inv_defs = wk_ok_def wk_clean_def wk_rest_def

lemma whole_chunks_Cons: "whole_chunks (m # ms) \<Longrightarrow> whole_chunks ms"
  by (simp add: whole_chunks_def)

lemma wk_give_up_inv:
  assumes "wk_ok Q s"
  shows "wk_ok Q (wk_give_up code s)" and "wk_clean Q (wk_give_up code s)"
  using assms by (auto simp: wk_inv_defs wk_give_up_def dest: append_prefixD)

lemma wk_take_inv:
  assumes "wk_ok Q s" and "wk_clean Q s" and "wk_queue s = m # ms" and "wk_client_fd s \<ge> 0" and "wk_fcmsg s = None"
  shows "wk_ok Q (wk_drop (wk_take m (s\<lparr>wk_queue := ms\<rparr>)))" and "wk_clean Q (wk_drop (wk_take m (s\<lparr>wk_queue := ms\<rparr>)))"
proof -
  let ?s = "s\<lparr>wk_queue := ms\<rparr>" and ?t = "wk_take m (s\<lparr>wk_queue := ms\<rparr>)"
  have up: "wk_ok Q (wk_drop (wk_give_up code r)) \<and> wk_clean Q (wk_drop (wk_give_up code r))"
    if "wk_stdin r = wk_stdin s" "wk_queue r = ms" for code r
    using assms(1,3) whole_chunks_Cons that
    by (auto simp: wk_inv_defs wk_give_up_def wk_drop_def dest: append_prefixD)
  have "wk_ok Q (wk_drop ?t) \<and> wk_clean Q (wk_drop ?t)"
  proof (cases "wk_input_complete s")
    case True
    then show ?thesis
      by (simp add: wk_take_def up)
  next
    case False
    show ?thesis
    proof (cases "m = EndMsg \<or> (\<exists>c. m = FileChunkMsg c)")
      case True
      then show ?thesis
      proof
        assume "m = EndMsg"
        then show ?thesis
          using assms False whole_chunks_Cons by (auto simp: wk_inv_defs wk_take_def wk_drop_def)
      next
        assume "\<exists>c. m = FileChunkMsg c"
        then obtain c where m: "m = FileChunkMsg c"
          by blast
        then have "whole_chunk c"
          using assms(1,3) by (simp add: wk_ok_def whole_chunks_def)
        then show ?thesis
          using assms False m whole_chunks_Cons by (auto simp: wk_inv_defs wk_take_def wk_drop_def)
      qed
    next
      case other: False
      then have "?t = wk_give_up EXIT_IO_ERROR ?s"
        using False by (cases m) (simp_all add: wk_take_def)
      then show ?thesis
        by (simp add: up)
    qed
  qed
  then show "wk_ok Q (wk_drop ?t)" "wk_clean Q (wk_drop ?t)"
    by simp_all
qed

lemma wk_drop_id: "wk_ok Q s \<Longrightarrow> wk_drop s = s"
  by (auto simp: wk_ok_def wk_drop_def)

lemma wk_receive_inv:
  assumes "wk_ok Q s" and "wk_clean Q s"
  shows "wk_ok Q (wk_drop (wk_receive i s))" and "wk_clean Q (wk_drop (wk_receive i s))"
  using assms wk_take_inv [OF assms] wk_give_up_inv [OF assms(1), of EXIT_IO_ERROR]
  by (auto simp: wk_receive_def wk_drop_id split: list.splits)

lemma wk_write_more_inv:
  assumes "wk_ok Q s" and "wk_clean Q s" and "wk_fcmsg s = Some c"
    and "b = take n (drop (wk_off s) (chunk_bytes c))"
  shows "wk_ok Q (s\<lparr>wk_stdin := wk_stdin s @ b, wk_off := wk_off s + length b\<rparr>)"
    and "wk_clean Q (s\<lparr>wk_stdin := wk_stdin s @ b, wk_off := wk_off s + length b\<rparr>)"
    and "wk_off s + length b = fc_len c \<Longrightarrow> wk_ok Q (s\<lparr>wk_stdin := wk_stdin s @ b, wk_off := wk_off s + length b, wk_fcmsg := None\<rparr>)"
    and "wk_off s + length b = fc_len c \<Longrightarrow> wk_clean Q (s\<lparr>wk_stdin := wk_stdin s @ b, wk_off := wk_off s + length b, wk_fcmsg := None\<rparr>)"
proof -
  have rest: "b @ drop (wk_off s + length b) (chunk_bytes c) = drop (wk_off s) (chunk_bytes c)"
    unfolding assms(4) by (metis add.commute append_take_drop_id drop_drop length_take min_def take_all drop_all nat_le_linear append_Nil2)
  have "whole_chunk c" "wk_off s \<le> fc_len c"
    using assms(1,3) by (simp_all add: wk_ok_def)
  then have le: "wk_off s + length b \<le> fc_len c"
    by (simp add: assms(4) whole_chunk_def)
  show "wk_ok Q (s\<lparr>wk_stdin := wk_stdin s @ b, wk_off := wk_off s + length b\<rparr>)"
    "wk_clean Q (s\<lparr>wk_stdin := wk_stdin s @ b, wk_off := wk_off s + length b\<rparr>)"
    using assms(1-3) rest le by (simp_all add: wk_inv_defs)
  assume full: "wk_off s + length b = fc_len c"
  have "drop (wk_off s) (chunk_bytes c) = b"
    using rest full \<open>whole_chunk c\<close> by (simp add: whole_chunk_def)
  then show "wk_ok Q (s\<lparr>wk_stdin := wk_stdin s @ b, wk_off := wk_off s + length b, wk_fcmsg := None\<rparr>)"
    "wk_clean Q (s\<lparr>wk_stdin := wk_stdin s @ b, wk_off := wk_off s + length b, wk_fcmsg := None\<rparr>)"
    using assms(1-3) by (simp_all add: wk_inv_defs)
qed

lemma wk_write_inv:
  assumes "wk_ok Q s" and "wk_clean Q s" and "wk_write fds i s = (again, s')"
  shows "wk_ok Q s'" and "wk_clean Q s'"
proof -
  have "wk_ok Q s' \<and> wk_clean Q s'"
  proof (cases "\<exists>c. wk_fcmsg s = Some c \<and> pollfd_is_set fds (wk_sock_in s) rv_out True")
    case False
    then show ?thesis
      using assms by (auto simp: wk_write_def split: option.splits if_splits)
  next
    case True
    then obtain c where c: "wk_fcmsg s = Some c" and set: "pollfd_is_set fds (wk_sock_in s) rv_out True"
      by blast
    have ic: "\<not> wk_input_complete s"
      using assms(1) c by (simp add: wk_ok_def)
    show ?thesis
    proof (cases "wi_write i")
      case (WBytes n)
      then show ?thesis
        using assms c set ic wk_write_more_inv [OF assms(1,2) c refl, of n] by (auto simp: wk_write_def Let_def split: if_splits)
    next
      case WIntr
      then show ?thesis
        using assms c set by (simp add: wk_write_def)
    next
      case WErr
      then have "s' = s\<lparr>wk_kills := wk_kills s + 1, wk_return_value := wk_return_value s, wk_fcmsg := None, wk_sock_in := -1\<rparr>"
        using assms(3) c set ic by (simp add: wk_write_def)
      then show ?thesis
        using assms(1) ic by (auto simp: wk_inv_defs dest: append_prefixD)
    qed
  qed
  then show "wk_ok Q s'" "wk_clean Q s'"
    by simp_all
qed

lemma wk_read_inv [simp]:
  "wk_ok Q (wk_read_err fds i (wk_read_out fds i s)) = wk_ok Q s"
  "wk_clean Q (wk_read_err fds i (wk_read_out fds i s)) = wk_clean Q s"
  by (simp_all add: wk_inv_defs wk_read_err_def wk_read_out_def split: option.splits list.splits)

text \<open>The descriptor of the death pipe is none of the others, so that it is polled only when the input is complete.\<close>

definition wk_fds :: "wk_env \<Rightarrow> wk \<Rightarrow> bool" where
  "wk_fds e s \<longleftrightarrow> we_death_fd e \<ge> 0 \<and> we_death_fd e \<notin> {wk_client_fd s, wk_sock_in s, wk_sock_out s, wk_sock_err s}"

lemma wk_fds_receive: "wk_fds e s \<Longrightarrow> wk_fds e (wk_drop (wk_receive i s))"
  by (auto simp: wk_fds_def wk_receive_def wk_take_def wk_drop_def wk_give_up_def split: list.splits msg.splits)

lemma wk_fds_write: "wk_fds e s \<Longrightarrow> wk_write fds i s = (again, s') \<Longrightarrow> wk_fds e s' \<and> wk_input_complete s' = wk_input_complete s"
  by (auto simp: wk_fds_def wk_write_def Let_def split: option.splits if_splits write_answer.splits)

lemma wk_fds_read [simp]:
  "wk_fds e s \<Longrightarrow> wk_fds e (wk_read_err fds i (wk_read_out fds i s))"
  "wk_input_complete (wk_read_err fds i (wk_read_out fds i s)) = wk_input_complete s"
  by (auto simp: wk_fds_def wk_read_err_def wk_read_out_def split: option.splits list.splits)

lemma pollfd_is_set_polled: "pollfd_is_set (zip fds rs) fd flag check \<Longrightarrow> fd \<in> set fds"
  by (auto simp: pollfd_is_set_def split: option.splits dest: map_of_SomeD set_zip_leftD)

text \<open>The only way out of the loop that is not a failed assertion is the end of the compiler.\<close>

lemma wk_step_cases:
  assumes "wk_ok Q s" and "wk_clean Q s" and "wk_fds e s"
  obtains (more) s' where "wk_step e i s = WkMore s'" and "wk_ok Q s'" and "wk_clean Q s'" and "wk_fds e s'"
    | (ended) s' status ru where "wk_step e i s = wk_exit e i status ru s'" and "wi_wait i = Some (status, ru)"
        and "wk_ok Q s'" and "wk_clean Q s'" and "wk_input_complete s'"
    | (odd) s' where "wk_step e i s = wk_impossible e s'"
proof -
  let ?s = "wk_drop (wk_receive i s)"
  note r = wk_receive_inv [OF assms(1,2), of i] and f = wk_fds_receive [OF assms(3), of i]
  show ?thesis
  proof (cases "wi_poll i")
    case PollTimeout
    moreover have "wk_fds e (wk_give_up EXIT_IO_ERROR ?s)"
      using f by (simp add: wk_fds_def wk_give_up_def)
    ultimately show ?thesis
      using wk_give_up_inv [OF r(1), of EXIT_IO_ERROR] more odd [of ?s]
      by (cases "wk_input_complete ?s") (auto simp: wk_step_def Let_def)
  next
    case PollIntr
    then show ?thesis
      using r f more by (simp add: wk_step_def Let_def)
  next
    case PollFail
    then show ?thesis
      using odd by (simp add: wk_step_def Let_def)
  next
    case (PollReady rs)
    obtain again s1 where w: "wk_write (zip (wk_pollfds e ?s) rs) i ?s = (again, s1)"
      by fastforce
    note i1 = wk_write_inv [OF r w] and f1 = wk_fds_write [OF f w]
    let ?fds = "zip (wk_pollfds e ?s) rs"
    let ?s2 = "wk_read_err ?fds i (wk_read_out ?fds i s1)"
    have s2: "wk_ok Q ?s2" "wk_clean Q ?s2" "wk_fds e ?s2"
      using i1 f1 by simp_all
    have step: "wk_step e i s = (if again then WkMore s1
        else if pollfd_is_set ?fds (we_death_fd e) rv_in True
          then (case wi_wait i of None \<Rightarrow> wk_impossible e ?s2 | Some (status, ru) \<Rightarrow> wk_exit e i status ru ?s2)
        else WkMore ?s2)"
      by (simp add: wk_step_def Let_def PollReady w)
    show ?thesis
    proof (cases "again \<or> \<not> pollfd_is_set ?fds (we_death_fd e) rv_in True")
      case True
      then show ?thesis
        using step s2 i1 f1 more by (auto split: if_splits)
    next
      case False
      then have "we_death_fd e \<in> set (wk_pollfds e ?s)"
        using pollfd_is_set_polled by blast
      then have "wk_input_complete ?s2"
        using f f1 by (auto simp: wk_pollfds_def wk_fds_def split: if_splits)
      then show ?thesis
        using False step s2 odd [of ?s2] ended [of _ _ ?s2] by (cases "wi_wait i") auto
    qed
  qed
qed

text \<open>The exit status the client is told, and what the compiler has read then.\<close>

lemma wk_exit_result:
  assumes "wk_exit e i status ru s = WkReturn r s'"
  shows "wk_stdin s' = wk_stdin s" "wk_received s' = wk_received s" "wk_kills s' = wk_kills s"
    "wk_fcmsg s' = wk_fcmsg s" "wk_input_complete s' = wk_input_complete s"
    and "r = wk_return_value s \<or> r = EXIT_OUT_OF_MEMORY \<or> r = EXIT_IO_ERROR"
    and "shell_exit_status status \<noteq> 0 \<Longrightarrow> cr_status (wk_rmsg s') \<noteq> 0"
    and "r = wk_return_value s \<Longrightarrow> r = 0 \<Longrightarrow> status = Exited c \<Longrightarrow> cr_status (wk_rmsg s') = of_nat c"
  using assms
  by (auto simp: wk_exit_def Let_def exit_codes shell_exit_status_def split: if_splits wait_status.splits)

lemma wk_run_return:
  assumes "wk_ok Q s" and "wk_clean Q s" and "wk_fds e s" and "wk_run e is s = WkReturn r s'" and "r \<noteq> EXIT_DISTCC_FAILED"
  shows "\<exists>i status ru s1. i \<in> set is \<and> wi_wait i = Some (status, ru) \<and> wk_exit e i status ru s1 = WkReturn r s'
    \<and> wk_ok Q s1 \<and> wk_clean Q s1 \<and> wk_input_complete s1"
  using assms
proof (induction "is" arbitrary: s)
  case (Cons i "is")
  show ?case
  proof (rule wk_step_cases [OF Cons.prems(1,2,3), of i])
    fix t
    assume "wk_step e i s = WkMore t" "wk_ok Q t" "wk_clean Q t" "wk_fds e t"
    then show ?thesis
      using Cons.IH [of t] Cons.prems by auto
  next
    fix t status ru
    assume t: "wk_step e i s = wk_exit e i status ru t" "wi_wait i = Some (status, ru)" "wk_ok Q t" "wk_clean Q t" "wk_input_complete t"
    then have "wk_exit e i status ru t = WkReturn r s'"
      using Cons.prems(4) by (auto simp: wk_exit_def Let_def split: if_splits)
    with t show ?thesis
      by auto
  next
    fix t
    assume "wk_step e i s = wk_impossible e t"
    then show ?thesis
      using Cons.prems by (auto simp: wk_impossible_def split: if_splits)
  qed
qed simp

section \<open>Properties\<close>

lemma wk_start_inv:
  assumes "whole_chunks Q" and "client_fd \<ge> 0" and "sock_in \<ge> 0"
  shows "wk_ok Q (wk_start client_fd sock_in sock_out sock_err rmsg js Q)" and "wk_clean Q (wk_start client_fd sock_in sock_out sock_err rmsg js Q)"
  using assms by (simp_all add: wk_inv_defs wk_start_def)

lemma work_it_reads:
  assumes "work_it e p j ch start is (wk_start client_fd sock_in sock_out sock_err rmsg js Q) = Some (0, msgs, s)"
    and "whole_chunks Q" and "client_fd \<ge> 0" and "sock_in \<ge> 0"
    and "we_death_fd e \<ge> 0" and "we_death_fd e \<notin> {client_fd, sock_in, sock_out, sock_err}"
  shows "prefix (wk_stdin s) (source_of Q)" and "wk_kills s = 0 \<Longrightarrow> wk_stdin s = source_of Q \<and> ended Q"
    and "cr_status (wk_rmsg s) = 0 \<Longrightarrow> \<exists>i\<in>set is. \<exists>status ru. wi_wait i = Some (status, ru) \<and> shell_exit_status status = 0"
proof -
  let ?s = "wk_start client_fd sock_in sock_out sock_err (rmsg\<lparr>cr_out := ''''\<rparr>) js Q"
  have run: "wk_run e is ?s = WkReturn 0 s"
    using assms(1) by (auto simp: work_it_def wk_start_def Let_def exit_codes split: compiler_start.splits wk_result.splits)
  have "wk_fds e ?s"
    using assms(5,6) by (simp add: wk_fds_def wk_start_def)
  from wk_run_return [OF wk_start_inv [OF assms(2-4)] this run] obtain i status ru t
    where i: "i \<in> set is" "wi_wait i = Some (status, ru)" and x: "wk_exit e i status ru t = WkReturn 0 s"
      and t: "wk_ok Q t" "wk_clean Q t" "wk_input_complete t"
    by (auto simp: exit_codes)
  note same = wk_exit_result [OF x]
  have "wk_rest t = []"
    using t by (auto simp: wk_inv_defs split: option.splits)
  then show "prefix (wk_stdin s) (source_of Q)" "wk_kills s = 0 \<Longrightarrow> wk_stdin s = source_of Q \<and> ended Q"
    "cr_status (wk_rmsg s) = 0 \<Longrightarrow> \<exists>i\<in>set is. \<exists>status ru. wi_wait i = Some (status, ru) \<and> shell_exit_status status = 0"
    using t same(1,2,3) same(7) i by (auto simp: wk_ok_def wk_clean_def)
qed

text \<open>
  C21. When the compiler has been run (\<open>work_it\<close> returns 0), it could read a prefix of the file that the client sent, and all of
  it, up to its end, unless it had closed its input before. The status for the client is 0 only if the compiler ended with 0.
\<close>

theorem compiler_reads_source:
  assumes "work_it e p j ch start is (wk_start client_fd sock_in sock_out sock_err rmsg js Q) = Some (0, msgs, s)"
    and "whole_chunks Q" and "client_fd \<ge> 0" and "sock_in \<ge> 0"
    and "we_death_fd e \<ge> 0" and "we_death_fd e \<notin> {client_fd, sock_in, sock_out, sock_err}"
  shows "prefix (wk_stdin s) (source_of Q)
    \<and> (wk_kills s = 0 \<longrightarrow> wk_stdin s = source_of Q \<and> ended Q)
    \<and> (cr_status (wk_rmsg s) = 0 \<longrightarrow> (\<exists>i\<in>set is. \<exists>status ru. wi_wait i = Some (status, ru) \<and> shell_exit_status status = 0))"
  using work_it_reads [OF assms] by blast

text \<open>The array of the arguments is large enough.\<close>

lemma compiler_argv_fits: "compiler_argv p j tmp file_name mem = Some argv \<Longrightarrow> length argv \<le> compiler_argc p j"
  by (auto simp: compiler_argv_def compiler_argc_def language_args_def clang_args_def Let_def split: option.splits)

text \<open>With assertions the loop is never aborted: only the kernel could make it, by an answer that does not fit the call.\<close>

lemma wk_step_abort:
  assumes "wk_step e i s = WkAbort"
  shows "wi_poll i = PollFail \<or> wi_wait i = None \<or> wi_poll i = PollTimeout \<and> wk_input_complete (wk_drop (wk_receive i s))"
  using assms
  by (auto simp: wk_step_def Let_def wk_impossible_def wk_exit_def split: poll_answer.splits if_splits prod.splits option.splits)

section \<open>Witness\<close>

text \<open>A source in two chunks, the first written in two pieces, and a compiler that says something and succeeds.\<close>

definition demo_chunk :: "bytes \<Rightarrow> msg" where
  "demo_chunk b = FileChunkMsg \<lparr>fc_buffer = Some b, fc_len = length b, fc_compressed = 0\<rparr>"

definition demo_round :: "bool \<Rightarrow> revents list \<Rightarrow> write_answer \<Rightarrow> wk_input" where
  "demo_round arrived rs w = \<lparr>wi_arrived = arrived, wi_hangup = False, wi_poll = PollReady rs, wi_write = w, wi_out = Some ''ok'',
     wi_err = None, wi_wait = Some (Exited 0, \<lparr>ru_utime = (1, 0), ru_stime = (0, 0), ru_minflt = 1, ru_majflt = 0, ru_nswap = 0\<rparr>),
     wi_statfs = None, wi_end = (2, 0)\<rparr>"

abbreviation (input) rv_none :: revents where "rv_none \<equiv> \<lparr>rv_in = False, rv_out = False, rv_err = False\<rparr>"
abbreviation (input) rv_r :: revents where "rv_r \<equiv> \<lparr>rv_in = True, rv_out = False, rv_err = False\<rparr>"
abbreviation (input) rv_w :: revents where "rv_w \<equiv> \<lparr>rv_in = False, rv_out = True, rv_err = False\<rparr>"

definition demo_rounds :: "wk_input list" where
  "demo_rounds = [demo_round True [rv_none, rv_none, rv_w] (WBytes 1), demo_round False [rv_none, rv_none, rv_w] (WBytes 9),
     demo_round True [rv_none, rv_none, rv_w] (WBytes 9), demo_round True [rv_r, rv_none, rv_none, rv_r] WErr]"

definition demo_wk_env :: wk_env where
  "demo_wk_env = \<lparr>we_death_fd = 7, we_mem_limit = 100, we_pagesize = 4096, we_start = (0, 0), we_asserts = True\<rparr>"

definition demo_job :: compile_job where
  "demo_job = \<lparr>m_id = 9, m_language = Lang_C, m_compiler_pathname = '''', m_compiler_name = ''gcc'', m_environment_version = ''env'',
     m_flags = [(''-O2'', Arg_Remote)], m_input_file = ''a.c'', m_output_file = ''a.o'', m_working_directory = ''/w'',
     m_target_platform = ''x86_64'', m_dwarf_fission = False, m_block_rewrite_includes = False\<rparr>"

definition demo_work :: "(u32 \<times> msg list \<times> wk) option" where
  "demo_work = work_it demo_wk_env 45 demo_job \<lparr>ch_root = False, ch_setrlimit = True, ch_chdir = True\<rparr> Started demo_rounds
     (wk_start 3 4 5 6 CompileResultMsg_new (replicate 8 0) [demo_chunk ''int'', demo_chunk ''x;'', EndMsg])"

lemma demo_work_value: "map_option (\<lambda>(r, m, s). (r, m, wk_stdin s, wk_kills s, cr_status (wk_rmsg s), cr_out (wk_rmsg s), wk_job_stat s)) demo_work
  = Some (0, [], ''intx;'', 0, 0, ''ok'', [0, 5, 0, 0, 2000, 1000, 0, 1])"
  by code_simp

theorem compiler_reads_source_witness:
  "\<exists>msgs s. demo_work = Some (0, msgs, s) \<and> prefix (wk_stdin s) ''intx;'' \<and> wk_stdin s = ''intx;''"
proof -
  let ?Q = "[demo_chunk ''int'', demo_chunk ''x;'', EndMsg]"
  obtain msgs s where s: "demo_work = Some (0, msgs, s)" and k: "wk_kills s = 0"
    using demo_work_value by (cases demo_work) auto
  have src: "source_of ?Q = ''intx;''"
    by (simp add: demo_chunk_def chunk_bytes_def)
  have "prefix (wk_stdin s) (source_of ?Q) \<and> (wk_kills s = 0 \<longrightarrow> wk_stdin s = source_of ?Q \<and> ended ?Q)"
    using compiler_reads_source [OF s [unfolded demo_work_def]]
    by (simp add: whole_chunks_def whole_chunk_def demo_chunk_def chunk_bytes_def demo_wk_env_def)
  then show ?thesis
    using s k src by auto
qed

end
