(* ===== verification/Serve.thy ===== *)
theory Serve
  imports WorkIt FileUtil
begin

text \<open>
  The child of the daemon that serves one compilation (\<open>handle_connection\<close> of \<open>daemon/serve.cpp\<close>, after
  the fork): it enters the environment, chooses the names of the output files, runs the compiler with
  \<open>work_it\<close>, and sends the result, the object file and the file with split debug information. The answers of the
  system are the fields of \<open>serve_env\<close>; \<open>sv\<close> is the state: what has been sent, the results of the sends still to come,
  and what the parent can read from the pipe.
\<close>

section \<open>State\<close>

record sv =
  sv_sent :: "msg list"
  sv_sends :: "bool list"
  sv_pipe :: "job_statistics list"
  sv_pipe_open :: bool
  sv_job_stat :: job_statistics
  sv_obj_file :: string
  sv_dwo_file :: string
  sv_tmp_path :: string
  sv_cwd :: string
  sv_argv :: "string list option"
  sv_unlinked :: "string list"
  sv_removed_trees :: "string list"

definition sv_start :: "bool list \<Rightarrow> sv" where
  "sv_start sends = \<lparr>sv_sent = [], sv_sends = sends, sv_pipe = [], sv_pipe_open = True, sv_job_stat = replicate 8 0,
     sv_obj_file = '''', sv_dwo_file = '''', sv_tmp_path = '''', sv_cwd = '''', sv_argv = None, sv_unlinked = [], sv_removed_trees = []\<rparr>"

text \<open>\<open>send_msg\<close> on the channel of the client: an exhausted list of results is a channel that takes everything.\<close>

definition sv_send :: "msg \<Rightarrow> sv \<Rightarrow> bool \<times> sv" where
  "sv_send m s =
     (case sv_sends s of
        [] \<Rightarrow> (True, s\<lparr>sv_sent := sv_sent s @ [m]\<rparr>)
      | ok # oks \<Rightarrow> (ok, s\<lparr>sv_sends := oks, sv_sent := (if ok then sv_sent s @ [m] else sv_sent s)\<rparr>))"

definition sv_report :: "sv \<Rightarrow> sv" where
  "sv_report s = s\<lparr>sv_pipe := (if sv_pipe_open s then sv_pipe s @ [sv_job_stat s] else sv_pipe s)\<rparr>"

definition serve_error_client :: "int \<Rightarrow> string \<Rightarrow> sv \<Rightarrow> sv" where
  "serve_error_client p error s = (if p \<ge> 22 then snd (sv_send (StatusTextMsg error) s) else s)"

section \<open>Sending a file\<close>

function send_file :: "rd_res list \<Rightarrow> sv \<Rightarrow> (u32 + unit) \<times> sv" where
  "send_file [] s = (let (ok, s1) = sv_send EndMsg s in (if ok then Inr () else Inl EXIT_DISTCC_FAILED, s1))"
| "send_file (RIntr # rs) s = send_file rs s"
| "send_file (RAgain # rs) s = (Inl EXIT_DISTCC_FAILED, s)"
| "send_file (RErr # rs) s = (Inl EXIT_DISTCC_FAILED, s)"
| "send_file (RData b # rs) s =
     (if b = [] then (let (ok, s1) = sv_send EndMsg s in (if ok then Inr () else Inl EXIT_DISTCC_FAILED, s1))
      else let (ok, s1) = sv_send (file_chunk (take buffer_size b)) s
           in if ok then send_file (if length b \<le> buffer_size then rs else RData (drop buffer_size b) # rs) s1
              else (Inl EXIT_DISTCC_FAILED, s1))"
  by pat_completeness auto

termination send_file
  by (relation "measure (read_weight \<circ> fst)") (auto simp: buffer_size_def)

definition write_output_file :: "int \<Rightarrow> rd_res list option \<Rightarrow> sv \<Rightarrow> (u32 + unit) \<times> sv" where
  "write_output_file p file s =
     (case file of
        None \<Rightarrow> (Inl EXIT_DISTCC_FAILED, serve_error_client p ''open of object file failed'' s)
      | Some reads \<Rightarrow> send_file reads s)"

section \<open>Entering the environment\<close>

text \<open>
  \<open>chdir_to_environment\<close> of \<open>environment.cpp\<close>, for a daemon built without libcap-ng: the first call that fails, with what it tells the
  client and the exit status of the child.
\<close>

datatype chroot_answer = ChrootOk | NotRoot | ChdirFails | ChrootFails | SetgroupsFails | SetgidFails | SetuidFails

definition chdir_to_environment :: "chroot_answer \<Rightarrow> string \<Rightarrow> (u32 \<times> string) option" where
  "chdir_to_environment a dirname =
     (case a of
        ChrootOk \<Rightarrow> None
      | NotRoot \<Rightarrow> Some (146, ''cannot chroot to environment'')
      | ChdirFails \<Rightarrow> Some (145, ''chdir to '' @ dirname @ ''failed'')
      | ChrootFails \<Rightarrow> Some (144, ''chroot '' @ dirname @ ''failed'')
      | SetgroupsFails \<Rightarrow> Some (143, ''setgroups failed'')
      | SetgidFails \<Rightarrow> Some (143, ''setgid failed'')
      | SetuidFails \<Rightarrow> Some (142, ''setuid failed''))"

section \<open>Where the compiler writes\<close>

definition dir_part :: "string \<Rightarrow> string" where
  "dir_part f = (case srfind ''/'' f of None \<Rightarrow> '''' | Some i \<Rightarrow> take i f)"

definition name_part :: "string \<Rightarrow> string" where
  "name_part f = (case srfind ''/'' f of None \<Rightarrow> f | Some i \<Rightarrow> drop (i + 1) f)"

text \<open>The directory for the output below \<open>tmp_path\<close>, and the name of the output for a compiler that runs in the working directory below it.\<close>

definition output_paths :: "string \<Rightarrow> string \<Rightarrow> string \<Rightarrow> string \<times> string" where
  "output_paths tmp_path job_working_dir job_output_file =
     (let file_dir = dir_part job_output_file; file_name = name_part job_output_file
      in if file_dir \<noteq> '''' \<and> hd file_dir = CHR ''/''
         then (tmp_path @ get_canonicalized_path file_dir,
               get_relative_path (get_canonicalized_path job_output_file) (get_canonicalized_path job_working_dir))
         else let canonicalized_dir = get_canonicalized_path (job_working_dir @ ''/'' @ file_dir)
              in (tmp_path @ canonicalized_dir,
                  get_relative_path (canonicalized_dir @ ''/'' @ file_name) (get_canonicalized_path job_working_dir)))"

section \<open>Serving one compilation\<close>

record serve_env =
  se_protocol :: int
  se_basedir :: string
  se_access :: "string \<Rightarrow> bool"
  se_chroot :: chroot_answer
  se_tmp_writable :: bool
  se_make_tmpdir :: "u32 + string"
  se_make_tmpnam :: "u32 + string"
  se_mkpath :: "string \<Rightarrow> bool"
  se_wk :: wk_env
  se_fds :: "int \<times> int \<times> int \<times> int"
  se_child :: child_env
  se_start :: compiler_start
  se_rounds :: "wk_input list"
  se_stat :: "string \<Rightarrow> u64 option"
  se_files :: "string \<Rightarrow> rd_res list option"

text \<open>Text messages sent without a look at the result.\<close>

definition sv_tell :: "msg list \<Rightarrow> sv \<Rightarrow> sv" where
  "sv_tell ms s = fold (\<lambda>m s. snd (sv_send m s)) ms s"

text \<open>
  The call of \<open>work_it\<close> with the directory the compiler runs in, in two parts, and the name of its output: its result, the
  result message and the state, with the directory and the arguments of the compiler. \<open>None\<close> as in \<^const>\<open>work_it\<close>.
\<close>

definition sv_work :: "serve_env \<Rightarrow> compile_job \<Rightarrow> string \<Rightarrow> string \<Rightarrow> string \<Rightarrow> msg list \<Rightarrow> sv \<Rightarrow>
    (u32 \<times> compile_result_msg \<times> sv) option" where
  "sv_work e job tmp_root build_path file_name queue s =
     (case se_fds e of (client_fd, sock_in, sock_out, sock_err) \<Rightarrow>
        map_option (\<lambda>(ret, msgs, w). (ret, wk_rmsg w,
            (sv_tell msgs s)\<lparr>sv_job_stat := wk_job_stat w, sv_cwd := tmp_root @ build_path,
               sv_argv := compiler_argv (se_protocol e) job tmp_root file_name (we_mem_limit (se_wk e))\<rparr>))
          (work_it (se_wk e) (se_protocol e) job (se_child e) (se_start e) (se_rounds e)
             (wk_start client_fd sock_in sock_out sock_err CompileResultMsg_new (sv_job_stat s) queue)))"

text \<open>The choice of the names, and the compiler. An exception is \<open>Inl\<close>.\<close>

definition sv_compile :: "serve_env \<Rightarrow> compile_job \<Rightarrow> msg list \<Rightarrow> sv \<Rightarrow> ((u32 + u32 \<times> compile_result_msg) \<times> sv) option" where
  "sv_compile e job queue s =
     (if m_dwarf_fission job then
        (case se_make_tmpdir e of
           Inl ret \<Rightarrow> Some (Inr (ret, CompileResultMsg_new), s)
         | Inr tmp \<Rightarrow>
             (let s1 = s\<lparr>sv_tmp_path := tmp\<rparr>;
                  (dir, relative_file_path) = output_paths tmp (m_working_directory job) (m_output_file job)
              in if \<not> se_mkpath e dir
                 then Some (Inl EXIT_IO_ERROR, serve_error_client (se_protocol e) ''could not create object file location in tmp directory'' s1)
                 else if \<not> se_mkpath e (tmp @ m_working_directory job)
                 then Some (Inl EXIT_IO_ERROR, serve_error_client (se_protocol e) ''could not create compiler working directory in tmp directory'' s1)
                 else
                   let obj = dir @ ''/'' @ name_part (m_output_file job)
                   in map_option (\<lambda>(ret, rmsg, s2). (Inr (ret, rmsg), s2))
                        (sv_work e job tmp (m_working_directory job) relative_file_path queue (s1\<lparr>sv_obj_file := obj, sv_dwo_file := dwo_name obj\<rparr>))))
      else
        (case se_make_tmpnam e of
           Inl ret \<Rightarrow> Some (Inr (ret, CompileResultMsg_new), s)
         | Inr obj \<Rightarrow>
             let build_path = (case srfind ''/'' obj of None \<Rightarrow> obj | Some i \<Rightarrow> take i obj)
             in map_option (\<lambda>(ret, rmsg, s2). (Inr (ret, rmsg), s2))
                  (sv_work e job build_path '''' (name_part obj) queue (s\<lparr>sv_obj_file := obj\<rparr>))))"

definition add_size :: "u64 option \<Rightarrow> sv \<Rightarrow> sv" where
  "add_size st s =
     (case st of
        None \<Rightarrow> s
      | Some n \<Rightarrow> s\<lparr>sv_job_stat := (sv_job_stat s)[js_out_uncompressed := sv_job_stat s ! js_out_uncompressed + ucast n]\<rparr>)"

definition sv_send_files :: "serve_env \<Rightarrow> bool \<Rightarrow> sv \<Rightarrow> (u32 + unit) \<times> sv" where
  "sv_send_files e have_dwo_file s =
     (case write_output_file (se_protocol e) (se_files e (sv_obj_file s)) s of
        (Inl c, s1) \<Rightarrow> (Inl c, s1)
      | (Inr _, s1) \<Rightarrow>
          if have_dwo_file then write_output_file (se_protocol e) (se_files e (sv_dwo_file s1)) s1 else (Inr (), s1))"

text \<open>What follows the compiler: the result, the report to the parent, the files. \<open>Inl\<close> is an exception with its exit code.\<close>

definition sv_finish :: "serve_env \<Rightarrow> u32 \<Rightarrow> compile_result_msg \<Rightarrow> sv \<Rightarrow> (u32 + u32) \<times> sv" where
  "sv_finish e ret rmsg s =
     (if ret \<noteq> 0 \<and> ret \<noteq> EXIT_OUT_OF_MEMORY \<and> ret \<noteq> EXIT_IO_ERROR then (Inl ret, s)
      else
        let rmsg1 = (if ret \<noteq> 0 then rmsg\<lparr>cr_was_out_of_memory := True\<rparr> else rmsg);
            dwo = se_stat e (sv_dwo_file s);
            rmsg2 = rmsg1\<lparr>cr_have_dwo_file := (dwo \<noteq> None)\<rparr>;
            (ok, s1) = sv_send (CompileResultMsg rmsg2) (add_size dwo (add_size (se_stat e (sv_obj_file s)) s))
        in if \<not> ok then (Inl EXIT_DISTCC_FAILED, s1)
           else
             let s2 = (sv_report s1)\<lparr>sv_pipe_open := False\<rparr>
             in if cr_status rmsg2 = 0 then
                  (case sv_send_files e (cr_have_dwo_file rmsg2) s2 of
                     (Inl c, s3) \<Rightarrow> (Inl c, s3)
                   | (Inr _, s3) \<Rightarrow> (Inr (cr_status rmsg2), s3))
                else (Inr (cr_status rmsg2), s2))"

definition env_dirname :: "serve_env \<Rightarrow> compile_job \<Rightarrow> string" where
  "env_dirname e job = se_basedir e @ ''/target='' @ m_target_platform job @ ''/'' @ m_environment_version job"

text \<open>The end of the child: it removes what it has created.\<close>

definition sv_cleanup :: "sv \<Rightarrow> sv" where
  "sv_cleanup s = s\<lparr>sv_unlinked := sv_unlinked s @ filter (\<lambda>f. f \<noteq> '''') [sv_obj_file s, sv_dwo_file s],
     sv_removed_trees := sv_removed_trees s @ filter (\<lambda>f. f \<noteq> '''') [sv_tmp_path s]\<rparr>"

text \<open>
  The child: its exit code and the state it leaves; \<open>None\<close> as in \<^const>\<open>work_it\<close>. The handler of the exceptions writes the exit code
  into the statistics and reports them once more, which reaches the parent only when the pipe is still open.
\<close>

definition handle_connection :: "serve_env \<Rightarrow> compile_job \<Rightarrow> msg list \<Rightarrow> bool list \<Rightarrow> (u32 \<times> sv) option" where
  "handle_connection e job queue sends =
     (let s = sv_start sends;
          dirname = env_dirname e job;
          caught = (\<lambda>code s. (code, sv_cleanup ((sv_report (s\<lparr>sv_job_stat := (sv_job_stat s)[js_exit_code := code]\<rparr>))\<lparr>sv_pipe_open := False\<rparr>)))
      in if m_environment_version job = ''''
         then Some (caught EXIT_DISTCC_FAILED (serve_error_client (se_protocol e) ''empty environment'' s))
         else if \<not> se_access e (dirname @ ''/usr/bin/as'')
         then Some (caught EXIT_COMPILER_MISSING
                (serve_error_client (se_protocol e) (dirname @ ''/usr/bin/as is not executable, installed environment removed?'') s))
         else case chdir_to_environment (se_chroot e) dirname of
           Some (code, text) \<Rightarrow> Some (code, sv_tell (workit_error_client (se_protocol e) text) s)
         | None \<Rightarrow>
             if \<not> se_tmp_writable e then Some (caught (-1) (serve_error_client (se_protocol e) (''can'' @ [CHR 0x27] @ ''t write to /tmp'') s))
             else map_option
               (\<lambda>r. case r of
                  (Inl code, s1) \<Rightarrow> caught code s1
                | (Inr (ret, rmsg), s1) \<Rightarrow>
                    (case sv_finish e ret rmsg s1 of
                       (Inl code, s2) \<Rightarrow> caught code s2
                     | (Inr code, s2) \<Rightarrow> (code, sv_cleanup s2)))
               (sv_compile e job queue s))"

section \<open>The compiler writes where the server reads\<close>

lemma split_last:
  assumes "component name"
  shows "split (dir @ CHR ''/'' # name) CHR ''/'' = split dir CHR ''/'' @ [name]"
  using assms by (simp add: split_append split_single component_def)

lemma split_under:
  assumes "absolute p"
  shows "split (tmp @ get_canonicalized_path p) CHR ''/'' = split tmp CHR ''/'' @ canonicalize [] (split p CHR ''/'')"
  using assms split_gcp [OF assms] by (simp add: gcp_absolute split_append)

lemma proper_canonical: "proper (split p CHR ''/'') \<Longrightarrow> canonicalize st (split p CHR ''/'') = st @ split p CHR ''/''"
  by (rule canonicalize_proper)

lemma gcp_eqI:
  assumes "absolute a" and "absolute b" and "canonicalize [] (split a CHR ''/'') = canonicalize [] (split b CHR ''/'')"
  shows "get_canonicalized_path a = get_canonicalized_path b"
  using assms by (simp add: gcp_absolute)

lemma dir_name_parts:
  "dir_part f \<noteq> '''' \<Longrightarrow> f = dir_part f @ ''/'' @ name_part f"
  using srfind_Some [of "''/''" f] by (auto simp: dir_part_def name_part_def split: option.splits)

text \<open>
  C22. For a job with split debug information the object file that the server sends is the one the compiler writes: the relative
  name given to the compiler denotes, in the copy of the working directory in which it runs, the file below the output directory.
\<close>

theorem compiler_writes_what_is_sent:
  assumes "absolute tmp" and "proper (split tmp CHR ''/'')" and "absolute wd" and "proper (split wd CHR ''/'')"
    and "proper [name_part out]"
  shows "get_canonicalized_path (tmp @ wd @ ''/'' @ snd (output_paths tmp wd out))
       = get_canonicalized_path (fst (output_paths tmp wd out) @ ''/'' @ name_part out)"
proof -
  let ?T = "split tmp CHR ''/''" and ?W = "split wd CHR ''/''" and ?n = "name_part out"
  define target where "target = (if dir_part out \<noteq> '''' \<and> hd (dir_part out) = CHR ''/'' then dir_part out else wd @ ''/'' @ dir_part out)"
  let ?C = "canonicalize [] (split target CHR ''/'')"
  have tgt: "absolute target"
    using assms(3) by (auto simp: target_def absolute_def)
  have n: "component ?n" and pr: "proper (?C @ [?n])"
    using assms(5) canonical_parts [of target] by simp_all
  have dir: "fst (output_paths tmp wd out) = tmp @ get_canonicalized_path target"
    by (simp add: output_paths_def target_def Let_def)
  define goal where "goal = (if dir_part out \<noteq> '''' \<and> hd (dir_part out) = CHR ''/'' then get_canonicalized_path out
    else get_canonicalized_path target @ ''/'' @ ?n)"
  have rel: "snd (output_paths tmp wd out) = get_relative_path goal (get_canonicalized_path wd)"
    by (simp add: output_paths_def target_def goal_def Let_def)
  have goal: "split goal CHR ''/'' = ?C @ [?n]"
  proof (cases "dir_part out \<noteq> '''' \<and> hd (dir_part out) = CHR ''/''")
    case True
    then have out: "out = target @ CHR ''/'' # ?n"
      using dir_name_parts [of out] by (simp add: target_def)
    then have "absolute out"
      using tgt by (metis absolute_append)
    then have "split (get_canonicalized_path out) CHR ''/'' = canonicalize [] (split (target @ CHR ''/'' # ?n) CHR ''/'')"
      using split_gcp out by metis
    then show ?thesis
      using True n pr by (simp add: goal_def split_last canonicalize_append)
  next
    case False
    then have "goal = get_canonicalized_path target @ CHR ''/'' # ?n"
      unfolding goal_def by auto
    then show ?thesis
      using n tgt by (simp add: split_last split_gcp)
  qed
  have W: "split (get_canonicalized_path wd) CHR ''/'' = ?W"
    using assms(3,4) by (simp add: split_gcp proper_canonical)
  have "canonicalize [] (split (tmp @ wd @ ''/'' @ snd (output_paths tmp wd out)) CHR ''/'') = ?T @ ?C @ [?n]"
  proof -
    obtain w where "wd = CHR ''/'' # w"
      using assms(3) by (cases wd) (auto simp: absolute_def)
    then have "split (tmp @ wd @ CHR ''/'' # r) CHR ''/'' = (?T @ ?W) @ split r CHR ''/''" for r
      by (simp add: split_append)
    moreover have "canonicalize [] (?T @ ?W) = ?T @ ?W"
      using assms(2,4) by (simp add: canonicalize_proper)
    ultimately show ?thesis
      using relative_components [OF pr _ goal W, of ?T] assms(4) by (simp add: rel canonicalize_append)
  qed
  moreover have "canonicalize [] (split (fst (output_paths tmp wd out) @ ''/'' @ ?n) CHR ''/'') = ?T @ ?C @ [?n]"
    using split_last [OF n, of "tmp @ get_canonicalized_path target"] split_under [OF tgt, of tmp] assms(2) pr
    by (simp add: dir canonicalize_proper)
  ultimately show ?thesis
    using assms(1) by (intro gcp_eqI) (simp_all add: dir)
qed

section \<open>What the server sends\<close>

text \<open>What a send leaves as it is.\<close>

definition sv_same :: "sv \<Rightarrow> sv \<Rightarrow> bool" where
  "sv_same s s' \<longleftrightarrow> sv_obj_file s' = sv_obj_file s \<and> sv_dwo_file s' = sv_dwo_file s \<and> sv_pipe s' = sv_pipe s
     \<and> sv_pipe_open s' = sv_pipe_open s \<and> sv_job_stat s' = sv_job_stat s"

lemma sv_same_refl [simp]: "sv_same s s"
  and sv_same_trans: "sv_same s t \<Longrightarrow> sv_same t u \<Longrightarrow> sv_same s u"
  by (simp_all add: sv_same_def)

lemma sv_send_ok:
  assumes "sv_send m s = (ok, s')"
  shows "sv_sent s' = (if ok then sv_sent s @ [m] else sv_sent s)" and "sv_same s s'"
  using assms by (auto simp: sv_send_def sv_same_def split: list.splits)

text \<open>A file is sent completely and with its end, or an exception is thrown.\<close>

lemma send_file_sends:
  assumes "send_file rs s = (Inr u, s')"
  shows "\<exists>cs. sv_sent s' = sv_sent s @ map file_chunk cs @ [EndMsg] \<and> concat cs = content rs \<and> sv_same s s'"
  using assms
proof (induction rs s rule: send_file.induct)
  case (1 s)
  then show ?case
    using sv_send_ok [of EndMsg s] by (fastforce simp: Let_def split: prod.splits if_splits)
next
  case (5 b rs s)
  show ?case
  proof (cases "b = []")
    case True
    then show ?thesis
      using 5 sv_send_ok [of EndMsg s] by (fastforce simp: Let_def split: prod.splits if_splits)
  next
    case False
    let ?rest = "if length b \<le> buffer_size then rs else RData (drop buffer_size b) # rs"
    obtain s1 where s1: "sv_send (file_chunk (take buffer_size b)) s = (True, s1)" "send_file ?rest s1 = (Inr u, s')"
      using "5.prems" False by (auto simp: Let_def split: prod.splits if_splits)
    obtain cs where cs: "sv_sent s' = sv_sent s1 @ map file_chunk cs @ [EndMsg]" "concat cs = content ?rest" "sv_same s1 s'"
      using "5.IH" [OF False s1(1)[symmetric] refl] s1(2) by auto
    have "content (RData b # rs) = take buffer_size b @ content ?rest"
      using False by auto
    then have "sv_sent s' = sv_sent s @ map file_chunk (take buffer_size b # cs) @ [EndMsg]
      \<and> concat (take buffer_size b # cs) = content (RData b # rs)"
      using cs(1,2) sv_send_ok(1) [OF s1(1)] by simp
    moreover have "sv_same s s'"
      using sv_send_ok(2) [OF s1(1)] cs(3) by (rule sv_same_trans)
    ultimately show ?thesis
      by blast
  qed
qed simp_all

lemma write_output_file_sends:
  assumes "write_output_file p file s = (Inr u, s')"
  shows "\<exists>rs cs. file = Some rs \<and> sv_sent s' = sv_sent s @ map file_chunk cs @ [EndMsg] \<and> concat cs = content rs \<and> sv_same s s'"
  using assms send_file_sends by (fastforce simp: write_output_file_def split: option.splits)

text \<open>The files as messages, with the second only when there is one.\<close>

definition files_of :: "bytes list \<Rightarrow> bytes list option \<Rightarrow> msg list" where
  "files_of obj dwo = map file_chunk obj @ EndMsg # (case dwo of None \<Rightarrow> [] | Some cs \<Rightarrow> map file_chunk cs @ [EndMsg])"

lemma sv_send_files_sends:
  assumes "sv_send_files e have_dwo s = (Inr u, s')"
  shows "\<exists>obj dwo. sv_sent s' = sv_sent s @ files_of obj dwo \<and> sv_same s s'
    \<and> map_option content (se_files e (sv_obj_file s)) = Some (concat obj)
    \<and> (have_dwo \<longleftrightarrow> dwo \<noteq> None) \<and> (have_dwo \<longrightarrow> map_option content (se_files e (sv_dwo_file s)) = map_option concat dwo)"
proof -
  obtain s1 where s1: "write_output_file (se_protocol e) (se_files e (sv_obj_file s)) s = (Inr (), s1)"
    and s': "if have_dwo then write_output_file (se_protocol e) (se_files e (sv_dwo_file s1)) s1 = (Inr u, s') else s' = s1"
    using assms by (auto simp: sv_send_files_def split: prod.splits sum.splits if_splits)
  from write_output_file_sends [OF s1] obtain rs cs where o: "se_files e (sv_obj_file s) = Some rs"
    "sv_sent s1 = sv_sent s @ map file_chunk cs @ [EndMsg]" "concat cs = content rs" "sv_same s s1"
    by blast
  show ?thesis
  proof (cases have_dwo)
    case True
    with s' have w: "write_output_file (se_protocol e) (se_files e (sv_dwo_file s1)) s1 = (Inr u, s')"
      by simp
    from write_output_file_sends [OF w] obtain rs2 ds where d: "se_files e (sv_dwo_file s1) = Some rs2"
      "sv_sent s' = sv_sent s1 @ map file_chunk ds @ [EndMsg]" "concat ds = content rs2" "sv_same s1 s'"
      by blast
    then show ?thesis
      using True o by (intro exI [of _ cs] exI [of _ "Some ds"]) (auto simp: files_of_def sv_same_def)
  next
    case False
    then show ?thesis
      using s' o by (intro exI [of _ cs] exI [of _ None]) (auto simp: files_of_def)
  qed
qed

lemma sv_finish_sends:
  assumes "sv_finish e ret rmsg s = (Inr code, s')" and "sv_pipe_open s"
  obtains r
    where "code = cr_status r" and "cr_status r = cr_status rmsg" and "cr_out r = cr_out rmsg" and "cr_err r = cr_err rmsg"
    and "cr_was_out_of_memory r \<longleftrightarrow> cr_was_out_of_memory rmsg \<or> ret \<noteq> 0"
    and "cr_have_dwo_file r \<longleftrightarrow> se_stat e (sv_dwo_file s) \<noteq> None"
    and "cr_status r = 0 \<longrightarrow> (\<exists>obj dwo. sv_sent s' = sv_sent s @ CompileResultMsg r # files_of obj dwo
         \<and> map_option content (se_files e (sv_obj_file s)) = Some (concat obj) \<and> (cr_have_dwo_file r \<longleftrightarrow> dwo \<noteq> None)
         \<and> (cr_have_dwo_file r \<longrightarrow> map_option content (se_files e (sv_dwo_file s)) = map_option concat dwo))"
    and "cr_status r \<noteq> 0 \<longrightarrow> sv_sent s' = sv_sent s @ [CompileResultMsg r]"
    and "length (sv_pipe s') = Suc (length (sv_pipe s))" and "sv_obj_file s' = sv_obj_file s" and "sv_dwo_file s' = sv_dwo_file s"
proof -
  let ?dwo = "se_stat e (sv_dwo_file s)"
  define r where "r = (if ret \<noteq> 0 then rmsg\<lparr>cr_was_out_of_memory := True\<rparr> else rmsg)\<lparr>cr_have_dwo_file := (?dwo \<noteq> None)\<rparr>"
  define s0 where "s0 = add_size ?dwo (add_size (se_stat e (sv_obj_file s)) s)"
  have same: "sv_sent s0 = sv_sent s" "sv_obj_file s0 = sv_obj_file s" "sv_dwo_file s0 = sv_dwo_file s"
    "sv_pipe s0 = sv_pipe s" "sv_pipe_open s0 = sv_pipe_open s"
    by (simp_all add: s0_def add_size_def split: option.splits)
  obtain ok s1 where s1: "sv_send (CompileResultMsg r) s0 = (ok, s1)"
    by fastforce
  define s2 where "s2 = (sv_report s1)\<lparr>sv_pipe_open := False\<rparr>"
  have fin: "sv_finish e ret rmsg s =
    (if ret \<noteq> 0 \<and> ret \<noteq> EXIT_OUT_OF_MEMORY \<and> ret \<noteq> EXIT_IO_ERROR then (Inl ret, s)
     else if \<not> ok then (Inl EXIT_DISTCC_FAILED, s1)
     else if cr_status r = 0 then
       (case sv_send_files e (cr_have_dwo_file r) s2 of (Inl c, s3) \<Rightarrow> (Inl c, s3) | (Inr _, s3) \<Rightarrow> (Inr (cr_status r), s3))
     else (Inr (cr_status r), s2))"
    unfolding sv_finish_def Let_def r_def [symmetric] s0_def [symmetric] s1 s2_def by simp
  have ok: ok
    using assms(1) unfolding fin by (auto split: if_splits)
  have s2: "sv_sent s2 = sv_sent s @ [CompileResultMsg r]" "sv_obj_file s2 = sv_obj_file s" "sv_dwo_file s2 = sv_dwo_file s"
    "length (sv_pipe s2) = Suc (length (sv_pipe s))"
    using sv_send_ok [OF s1] ok same assms(2) by (simp_all add: s2_def sv_report_def sv_same_def)
  have r: "cr_status r = cr_status rmsg" "cr_out r = cr_out rmsg" "cr_err r = cr_err rmsg"
    "cr_was_out_of_memory r \<longleftrightarrow> cr_was_out_of_memory rmsg \<or> ret \<noteq> 0" "cr_have_dwo_file r \<longleftrightarrow> ?dwo \<noteq> None"
    by (auto simp: r_def)
  show ?thesis
  proof (cases "cr_status r = 0")
    case True
    then obtain s3 where s3: "sv_send_files e (cr_have_dwo_file r) s2 = (Inr (), s3)" "s' = s3" "code = cr_status r"
      using assms(1) ok unfolding fin by (auto split: if_splits prod.splits sum.splits)
    from sv_send_files_sends [OF s3(1)] obtain obj dwo where o: "sv_sent s3 = sv_sent s2 @ files_of obj dwo" "sv_same s2 s3"
      "map_option content (se_files e (sv_obj_file s2)) = Some (concat obj)" "cr_have_dwo_file r \<longleftrightarrow> dwo \<noteq> None"
      "cr_have_dwo_file r \<longrightarrow> map_option content (se_files e (sv_dwo_file s2)) = map_option concat dwo"
      by blast
    have "sv_sent s' = sv_sent s @ CompileResultMsg r # files_of obj dwo"
      using o(1) s2(1) s3(2) by simp
    then have "\<exists>obj dwo. sv_sent s' = sv_sent s @ CompileResultMsg r # files_of obj dwo
         \<and> map_option content (se_files e (sv_obj_file s)) = Some (concat obj) \<and> (cr_have_dwo_file r \<longleftrightarrow> dwo \<noteq> None)
         \<and> (cr_have_dwo_file r \<longrightarrow> map_option content (se_files e (sv_dwo_file s)) = map_option concat dwo)"
      using o(3-5) s2(2,3) by metis
    moreover have "sv_obj_file s' = sv_obj_file s" "sv_dwo_file s' = sv_dwo_file s" "length (sv_pipe s') = Suc (length (sv_pipe s))"
      using o(2) s2(2,3,4) s3(2) by (simp_all add: sv_same_def)
    ultimately show ?thesis
      using that [of r] True r s3(3) by blast
  next
    case False
    then have "s' = s2" "code = cr_status r"
      using assms(1) ok unfolding fin by (auto split: if_splits)
    then show ?thesis
      using that [of r] False s2 r by blast
  qed
qed

lemma sv_tell_sends:
  "\<exists>ms'. sv_sent (sv_tell ms s) = sv_sent s @ ms' \<and> set ms' \<subseteq> set ms \<and> sv_same s (sv_tell ms s)"
proof (induction ms arbitrary: s)
  case (Cons m ms)
  obtain ok t where t: "sv_send m s = (ok, t)"
    by fastforce
  from Cons.IH [of t] obtain ms' where "sv_sent (sv_tell ms t) = sv_sent t @ ms'" "set ms' \<subseteq> set ms" "sv_same t (sv_tell ms t)"
    by blast
  then show ?case
    using sv_send_ok [OF t] sv_same_trans t
    by (intro exI [of _ "(if ok then [m] else []) @ ms'"]) (auto simp: sv_tell_def)
qed (simp add: sv_tell_def)

definition all_texts :: "msg list \<Rightarrow> bool" where
  "all_texts ms \<longleftrightarrow> set ms \<subseteq> range StatusTextMsg"

lemma work_it_texts: "work_it w p j ch st rounds s = Some (r, ms, s') \<Longrightarrow> all_texts ms"
  by (auto simp: work_it_def Let_def child_messages_def workit_error_client_def all_texts_def
      split: compiler_start.splits wk_result.splits if_splits)

lemma sv_work_sends:
  assumes "sv_work e job tmp dir name Q s = Some (ret, rmsg, s')"
  shows "\<exists>ms w c i ou er texts. se_fds e = (c, i, ou, er)
    \<and> work_it (se_wk e) (se_protocol e) job (se_child e) (se_start e) (se_rounds e)
        (wk_start c i ou er CompileResultMsg_new (sv_job_stat s) Q) = Some (ret, ms, w)
    \<and> rmsg = wk_rmsg w \<and> sv_sent s' = sv_sent s @ texts \<and> all_texts texts
    \<and> sv_pipe s' = sv_pipe s \<and> sv_pipe_open s' = sv_pipe_open s"
proof -
  obtain c i ou er where fds: "se_fds e = (c, i, ou, er)"
    by (metis prod_cases4)
  with assms obtain ms w where w: "work_it (se_wk e) (se_protocol e) job (se_child e) (se_start e) (se_rounds e)
        (wk_start c i ou er CompileResultMsg_new (sv_job_stat s) Q) = Some (ret, ms, w)"
    and s': "rmsg = wk_rmsg w" "s' = (sv_tell ms s)\<lparr>sv_job_stat := wk_job_stat w, sv_cwd := tmp @ dir,
        sv_argv := compiler_argv (se_protocol e) job tmp name (we_mem_limit (se_wk e))\<rparr>"
    by (auto simp: sv_work_def)
  from sv_tell_sends [of ms s] work_it_texts [OF w] show ?thesis
    using fds w s' by (fastforce simp: all_texts_def sv_same_def)
qed

text \<open>A compilation that was not given up before the compiler was called.\<close>

lemma sv_compile_sends:
  assumes "sv_compile e job Q s = Some (Inr (ret, rmsg), s')" and "sv_pipe_open s"
  shows "(\<exists>ms w c i ou er. se_fds e = (c, i, ou, er) \<and> rmsg = wk_rmsg w
      \<and> work_it (se_wk e) (se_protocol e) job (se_child e) (se_start e) (se_rounds e) (wk_start c i ou er CompileResultMsg_new (sv_job_stat s) Q) = Some (ret, ms, w))
    \<or> (se_make_tmpdir e = Inl ret \<or> se_make_tmpnam e = Inl ret) \<and> rmsg = CompileResultMsg_new"
    and "\<exists>texts. sv_sent s' = sv_sent s @ texts \<and> all_texts texts" and "sv_pipe s' = sv_pipe s" and "sv_pipe_open s'"
proof -
  have "((\<exists>ms w c i ou er. se_fds e = (c, i, ou, er) \<and> rmsg = wk_rmsg w
      \<and> work_it (se_wk e) (se_protocol e) job (se_child e) (se_start e) (se_rounds e) (wk_start c i ou er CompileResultMsg_new (sv_job_stat s) Q) = Some (ret, ms, w))
    \<or> (se_make_tmpdir e = Inl ret \<or> se_make_tmpnam e = Inl ret) \<and> rmsg = CompileResultMsg_new)
    \<and> (\<exists>texts. sv_sent s' = sv_sent s @ texts \<and> all_texts texts) \<and> sv_pipe s' = sv_pipe s \<and> sv_pipe_open s'"
  proof (cases "\<exists>tmp dir name s1. sv_work e job tmp dir name Q s1 = Some (ret, rmsg, s') \<and> sv_sent s1 = sv_sent s \<and> sv_pipe s1 = sv_pipe s
      \<and> sv_pipe_open s1 \<and> sv_job_stat s1 = sv_job_stat s")
    case True
    then obtain tmp dir name s1 where "sv_work e job tmp dir name Q s1 = Some (ret, rmsg, s')" "sv_sent s1 = sv_sent s" "sv_pipe s1 = sv_pipe s"
        "sv_pipe_open s1" "sv_job_stat s1 = sv_job_stat s"
      by blast
    with sv_work_sends [OF this(1)] show ?thesis
      by metis
  next
    case False
    then have no: "sv_work e job tmp dir name Q s1 = Some (ret, rmsg, s') \<Longrightarrow> sv_sent s1 = sv_sent s \<Longrightarrow> sv_pipe s1 = sv_pipe s \<Longrightarrow>
      sv_pipe_open s1 \<Longrightarrow> sv_job_stat s1 = sv_job_stat s \<Longrightarrow> P" for s1 P tmp dir name
      by blast
    have "(se_make_tmpdir e = Inl ret \<or> se_make_tmpnam e = Inl ret) \<and> rmsg = CompileResultMsg_new \<and> s' = s"
      using assms by (auto simp: sv_compile_def Let_def split: if_splits sum.splits prod.splits elim!: no)
    then show ?thesis
      using assms(2) by (auto simp: all_texts_def)
  qed
  then show "(\<exists>ms w c i ou er. se_fds e = (c, i, ou, er) \<and> rmsg = wk_rmsg w
      \<and> work_it (se_wk e) (se_protocol e) job (se_child e) (se_start e) (se_rounds e) (wk_start c i ou er CompileResultMsg_new (sv_job_stat s) Q) = Some (ret, ms, w))
    \<or> (se_make_tmpdir e = Inl ret \<or> se_make_tmpnam e = Inl ret) \<and> rmsg = CompileResultMsg_new"
    "\<exists>texts. sv_sent s' = sv_sent s @ texts \<and> all_texts texts" "sv_pipe s' = sv_pipe s" "sv_pipe_open s'"
    by simp_all
qed

text \<open>The file that is sent is the one the compiler is told to write, as it names it from its working directory.\<close>

lemma told_name:
  assumes "sv_compile e job Q s = Some (Inr (ret, rmsg), s')" and "\<not> m_dwarf_fission job" and "se_make_tmpnam e = Inr obj"
    and "srfind ''/'' obj \<noteq> None"
  shows "sv_cwd s' @ ''/'' @ name_part obj = obj \<and> sv_obj_file s' = obj
    \<and> sv_argv s' = compiler_argv (se_protocol e) job (sv_cwd s') (name_part obj) (we_mem_limit (se_wk e))"
proof -
  obtain i where i: "srfind ''/'' obj = Some i"
    using assms(4) by blast
  obtain ret where w: "sv_work e job (take i obj) '''' (name_part obj) Q (s\<lparr>sv_obj_file := obj\<rparr>) = Some (ret, rmsg, s')"
    using assms(1-3) i by (auto simp: sv_compile_def)
  have "sv_obj_file (sv_tell ms x) = sv_obj_file x" for ms x
    using sv_tell_sends [of ms x] by (auto simp: sv_same_def)
  then have "sv_obj_file s' = obj" "sv_cwd s' = take i obj"
    "sv_argv s' = compiler_argv (se_protocol e) job (take i obj) (name_part obj) (we_mem_limit (se_wk e))"
    using w by (auto simp: sv_work_def split: prod.splits)
  moreover have "take i obj @ ''/'' @ drop (Suc i) obj = obj"
    using srfind_Some [OF i] by simp
  ultimately show ?thesis
    using i by (simp add: name_part_def)
qed

section \<open>Properties\<close>

text \<open>An exception never has the exit code 0.\<close>

lemma send_file_code: "send_file rs s = (Inl c, s') \<Longrightarrow> c = EXIT_DISTCC_FAILED"
  by (induction rs s rule: send_file.induct) (auto simp: Let_def split: if_splits prod.splits)

lemma sv_finish_code: "sv_finish e ret rmsg s = (Inl c, s') \<Longrightarrow> c \<noteq> 0"
  by (auto simp: sv_finish_def Let_def sv_send_files_def write_output_file_def exit_codes
      split: if_splits prod.splits sum.splits option.splits dest!: send_file_code)

lemma sv_compile_code: "sv_compile e job Q s = Some (Inl c, s') \<Longrightarrow> c \<noteq> 0"
  by (auto simp: sv_compile_def Let_def exit_codes split: if_splits sum.splits prod.splits)

lemma sv_cleanup_same [simp]: "sv_sent (sv_cleanup s) = sv_sent s" "sv_pipe (sv_cleanup s) = sv_pipe s"
  "sv_obj_file (sv_cleanup s) = sv_obj_file s" "sv_dwo_file (sv_cleanup s) = sv_dwo_file s"
  by (simp_all add: sv_cleanup_def)

lemma handle_connection_zero:
  assumes "handle_connection e job Q sends = Some (0, s)"
  obtains ret rmsg s1 s2 where "sv_compile e job Q (sv_start sends) = Some (Inr (ret, rmsg), s1)"
    and "sv_finish e ret rmsg s1 = (Inr 0, s2)" and "s = sv_cleanup s2"
  using assms
  by (auto simp: handle_connection_def Let_def exit_codes chdir_to_environment_def
      split: if_splits option.splits chroot_answer.splits sum.splits prod.splits dest: sv_finish_code sv_compile_code)

text \<open>
  The run of \<open>work_it\<close> on the messages \<open>Q\<close> has returned 0, and the compiler has read only the source in them, and all of it unless it was
  killed, has ended with 0, and its output is in the result.
\<close>

definition compiler_ran :: "serve_env \<Rightarrow> compile_job \<Rightarrow> msg list \<Rightarrow> compile_result_msg \<Rightarrow> bool" where
  "compiler_ran e job Q r \<longleftrightarrow> (\<exists>c i ou er ms w. se_fds e = (c, i, ou, er)
     \<and> work_it (se_wk e) (se_protocol e) job (se_child e) (se_start e) (se_rounds e)
         (wk_start c i ou er CompileResultMsg_new (replicate 8 0) Q) = Some (0, ms, w)
     \<and> prefix (wk_stdin w) (source_of Q) \<and> (wk_kills w = 0 \<longrightarrow> wk_stdin w = source_of Q \<and> ended Q)
     \<and> cr_out r = cr_out (wk_rmsg w) \<and> cr_err r = cr_err (wk_rmsg w)
     \<and> (\<exists>i\<in>set (se_rounds e). \<exists>status ru. wi_wait i = Some (status, ru) \<and> shell_exit_status status = 0))"

text \<open>
  When the child ends with 0, it has sent texts only, then a result with status 0, then the whole object file and, exactly when
  the result announces it, the whole file of split debug information, each followed by its end; it has reported to the daemon
  exactly once. Unless the result says that the memory did not suffice, \<open>work_it\<close> has returned 0; in the state in which it did, the compiler
  has read only what the client had sent, and all of it, unless it had been killed, and has ended with 0, and the result holds its output.
\<close>

theorem served_completely:
  assumes "handle_connection e job Q sends = Some (0, s)"
    and "se_fds e = (client_fd, sock_in, sock_out, sock_err)" and "client_fd \<ge> 0" and "sock_in \<ge> 0"
    and "we_death_fd (se_wk e) \<ge> 0" and "we_death_fd (se_wk e) \<notin> {client_fd, sock_in, sock_out, sock_err}"
    and "whole_chunks Q" and "se_make_tmpdir e \<noteq> Inl 0" and "se_make_tmpnam e \<noteq> Inl 0"
  shows "\<exists>texts r obj dwo. sv_sent s = texts @ CompileResultMsg r # files_of obj dwo \<and> all_texts texts \<and> cr_status r = 0
    \<and> map_option content (se_files e (sv_obj_file s)) = Some (concat obj) \<and> (cr_have_dwo_file r \<longleftrightarrow> dwo \<noteq> None)
    \<and> (dwo \<noteq> None \<longrightarrow> map_option content (se_files e (sv_dwo_file s)) = map_option concat dwo)
    \<and> length (sv_pipe s) = 1
    \<and> (cr_was_out_of_memory r \<or> compiler_ran e job Q r)"
proof -
  from assms(1) obtain ret rmsg s1 s2 where c: "sv_compile e job Q (sv_start sends) = Some (Inr (ret, rmsg), s1)"
    and f: "sv_finish e ret rmsg s1 = (Inr 0, s2)" and s: "s = sv_cleanup s2"
    by (rule handle_connection_zero)
  have st: "sv_pipe_open (sv_start sends)" "sv_sent (sv_start sends) = []" "sv_pipe (sv_start sends) = []" "sv_job_stat (sv_start sends) = replicate 8 0"
    by (simp_all add: sv_start_def)
  note comp = sv_compile_sends [OF c st(1)]
  obtain r where r: "0 = cr_status r" "cr_status r = cr_status rmsg" "cr_out r = cr_out rmsg" "cr_err r = cr_err rmsg"
      "cr_was_out_of_memory r \<longleftrightarrow> cr_was_out_of_memory rmsg \<or> ret \<noteq> 0" "cr_have_dwo_file r \<longleftrightarrow> se_stat e (sv_dwo_file s1) \<noteq> None"
    and ex: "cr_status r = 0 \<longrightarrow> (\<exists>obj dwo. sv_sent s2 = sv_sent s1 @ CompileResultMsg r # files_of obj dwo
         \<and> map_option content (se_files e (sv_obj_file s1)) = Some (concat obj) \<and> (cr_have_dwo_file r \<longleftrightarrow> dwo \<noteq> None)
         \<and> (cr_have_dwo_file r \<longrightarrow> map_option content (se_files e (sv_dwo_file s1)) = map_option concat dwo))"
      "cr_status r \<noteq> 0 \<longrightarrow> sv_sent s2 = sv_sent s1 @ [CompileResultMsg r]"
    and pipe: "length (sv_pipe s2) = Suc (length (sv_pipe s1))" "sv_obj_file s2 = sv_obj_file s1" "sv_dwo_file s2 = sv_dwo_file s1"
    by (rule sv_finish_sends [OF f comp(4)]) (rule that; assumption)
  have z: "cr_status r = 0" "cr_status rmsg = 0"
    using r(1,2) by metis+
  from mp [OF ex(1) z(1)] obtain obj dwo where sent: "sv_sent s2 = sv_sent s1 @ CompileResultMsg r # files_of obj dwo"
    and files: "map_option content (se_files e (sv_obj_file s1)) = Some (concat obj)" "cr_have_dwo_file r \<longleftrightarrow> dwo \<noteq> None"
      "cr_have_dwo_file r \<longrightarrow> map_option content (se_files e (sv_dwo_file s1)) = map_option concat dwo"
    by blast
  have names: "sv_obj_file s = sv_obj_file s1" "sv_dwo_file s = sv_dwo_file s1"
    using s pipe(2,3) by simp_all
  have mem: "cr_was_out_of_memory r \<or> compiler_ran e job Q r"
  proof (cases "ret = 0")
    case True
    then obtain ms w c i ou er where "se_fds e = (c, i, ou, er)" and w: "rmsg = wk_rmsg w"
      and "work_it (se_wk e) (se_protocol e) job (se_child e) (se_start e) (se_rounds e) (wk_start c i ou er CompileResultMsg_new (replicate 8 0) Q) = Some (0, ms, w)"
      using comp(1) assms(8,9) unfolding st(4) by blast
    then have run: "work_it (se_wk e) (se_protocol e) job (se_child e) (se_start e) (se_rounds e)
        (wk_start client_fd sock_in sock_out sock_err CompileResultMsg_new (replicate 8 0) Q) = Some (0, ms, w)"
      using assms(2) by simp
    note reads = work_it_reads [OF run assms(7,3,4,5,6)]
    have "cr_out r = cr_out (wk_rmsg w)" "cr_err r = cr_err (wk_rmsg w)" "cr_status (wk_rmsg w) = 0"
      using z r(3,4) unfolding w by simp_all
    then show ?thesis
      unfolding compiler_ran_def using run reads assms(2)
      by (intro disjI2 exI [where x = client_fd] exI [where x = sock_in] exI [where x = sock_out] exI [where x = sock_err]
          exI [where x = ms] exI [where x = w] conjI impI) simp_all
  qed (use r(5) in simp)
  obtain texts where texts: "sv_sent s1 = texts" "all_texts texts"
    using comp(2) unfolding st(2) append_Nil by blast
  have fin: "sv_sent s = texts @ CompileResultMsg r # files_of obj dwo" "length (sv_pipe s) = 1"
    using sent pipe(1) comp(3) texts st s by simp_all
  show ?thesis
    unfolding names
    by (rule exI [where x = texts], rule exI [where x = r], rule exI [where x = obj], rule exI [where x = dwo])
      (intro conjI mem, (use z(1) files texts(2) fin in simp_all))
qed

section \<open>Witnesses\<close>

definition demo_serve_env :: serve_env where
  "demo_serve_env = \<lparr>se_protocol = 45, se_basedir = ''/e'', se_access = (\<lambda>_. True), se_chroot = ChrootOk, se_tmp_writable = True,
     se_make_tmpdir = Inl 107, se_make_tmpnam = Inr ''/tmp/o'', se_mkpath = (\<lambda>_. True), se_wk = demo_wk_env, se_fds = (3, 4, 5, 6),
     se_child = \<lparr>ch_root = False, ch_setrlimit = True, ch_chdir = True\<rparr>, se_start = Started, se_rounds = demo_rounds,
     se_stat = (\<lambda>f. if f = ''/tmp/o'' then Some 3 else None), se_files = (\<lambda>f. if f = ''/tmp/o'' then Some [RData ''OB'', RIntr, RData ''J''] else None)\<rparr>"

definition demo_source :: "msg list" where
  "demo_source = [demo_chunk ''int'', demo_chunk ''x;'', EndMsg]"

definition demo_served :: "(u32 \<times> sv) option" where
  "demo_served = handle_connection demo_serve_env demo_job demo_source []"

lemma demo_served_value: "\<exists>s. demo_served = Some (0, s) \<and> sv_obj_file s = ''/tmp/o''"
proof -
  obtain w where w: "demo_work = Some (0, [], w)" and st: "cr_status (wk_rmsg w) = 0"
    using demo_work_value by (cases demo_work) auto
  let ?s = "(sv_start [])\<lparr>sv_obj_file := ''/tmp/o''\<rparr>"
  have "sv_work demo_serve_env demo_job ''/tmp'' '''' ''o'' demo_source ?s = Some (0, wk_rmsg w, ?s\<lparr>sv_job_stat := wk_job_stat w, sv_cwd := ''/tmp'',
      sv_argv := compiler_argv 45 demo_job ''/tmp'' ''o'' (we_mem_limit demo_wk_env)\<rparr>)"
    using w by (simp add: sv_work_def demo_work_def demo_serve_env_def demo_source_def sv_start_def sv_tell_def)
  moreover have "name_part ''/tmp/o'' = ''o''" "srfind ''/'' ''/tmp/o'' = Some 4"
    by code_simp+
  ultimately have "sv_compile demo_serve_env demo_job demo_source (sv_start []) = Some (Inr (0, wk_rmsg w), ?s\<lparr>sv_job_stat := wk_job_stat w, sv_cwd := ''/tmp'',
      sv_argv := compiler_argv 45 demo_job ''/tmp'' ''o'' (we_mem_limit demo_wk_env)\<rparr>)"
    by (simp add: sv_compile_def demo_job_def demo_serve_env_def)
  then show ?thesis
    using st by (simp add: demo_served_def handle_connection_def demo_serve_env_def demo_job_def chdir_to_environment_def Let_def
        sv_finish_def sv_send_def sv_start_def sv_report_def sv_send_files_def write_output_file_def buffer_size_def add_size_def sv_cleanup_def)
qed

theorem served_completely_witness:
  "\<exists>s texts r obj dwo. demo_served = Some (0, s) \<and> sv_sent s = texts @ CompileResultMsg r # files_of obj dwo \<and> cr_status r = 0
     \<and> concat obj = ''OBJ''"
proof -
  obtain s where s: "demo_served = Some (0, s)" "sv_obj_file s = ''/tmp/o''"
    using demo_served_value by blast
  have fds: "se_fds demo_serve_env = (3, 4, 5, 6)" "0 \<le> we_death_fd (se_wk demo_serve_env)"
    "we_death_fd (se_wk demo_serve_env) \<notin> {3, 4, 5, 6}" "se_make_tmpdir demo_serve_env \<noteq> Inl 0" "se_make_tmpnam demo_serve_env \<noteq> Inl 0"
    by (simp_all add: demo_serve_env_def demo_wk_env_def)
  have q: "whole_chunks demo_source"
    by (simp add: demo_source_def whole_chunks_def whole_chunk_def demo_chunk_def chunk_bytes_def)
  obtain texts r obj dwo where t: "sv_sent s = texts @ CompileResultMsg r # files_of obj dwo" "cr_status r = 0"
    "map_option content (se_files demo_serve_env (sv_obj_file s)) = Some (concat obj)"
    using served_completely [OF s(1) [unfolded demo_served_def] fds(1) zero_le_numeral zero_le_numeral fds(2,3) q fds(4,5)]
    by - (elim exE conjE, rule that, assumption+)
  then have "concat obj = ''OBJ''"
    using s(2) by (simp add: demo_serve_env_def)
  then show ?thesis
    using s(1) t(1,2) by blast
qed

theorem compiler_writes_what_is_sent_witness:
  "snd (output_paths ''/tmp/t'' ''/home/me/src'' ''../obj/x.o'') = ''../obj/x.o''
   \<and> get_canonicalized_path (''/tmp/t'' @ ''/home/me/src'' @ ''/'' @ snd (output_paths ''/tmp/t'' ''/home/me/src'' ''../obj/x.o''))
     = get_canonicalized_path (fst (output_paths ''/tmp/t'' ''/home/me/src'' ''../obj/x.o'') @ ''/'' @ name_part ''../obj/x.o'')"
  by (rule conjI, code_simp, rule compiler_writes_what_is_sent) (simp_all add: absolute_def, code_simp+)

end
