(* ===== verification/RemoteBuild.thy ===== *)
theory RemoteBuild
  imports Remote Serve Codec
begin

text \<open>
  A compilation from end to end: the client (\<open>build_remote_int\<close>, theory \<open>Remote\<close>) and the child of the daemon on
  the compile server (\<open>handle_connection\<close>, theory \<open>Serve\<close>), connected by a channel in each direction that delivers the
  messages in order and in their normal form (theory \<open>Sending\<close>). The daemon takes the message with the job from the channel
  and leaves the rest to the child.
\<close>

lemma chunk_bytes_normal [simp]: "chunk_bytes (c\<lparr>fc_compressed := n\<rparr>) = chunk_bytes c"
  by (simp add: chunk_bytes_def split: option.split)

lemma source_of_normal [simp]: "source_of (map (normal L p) ms) = source_of ms"
proof (induction ms)
  case (Cons m ms)
  then show ?case
    by (cases m) simp_all
qed simp

lemma ended_normal [simp]: "ended (map (normal L p) ms) = ended ms"
proof (induction ms)
  case (Cons m ms)
  then show ?case
    by (cases m) simp_all
qed simp

lemma whole_chunks_normal: "whole_chunks ms \<Longrightarrow> whole_chunks (map (normal L p) ms)"
proof (induction ms)
  case (Cons m ms)
  then show ?case
    by (cases m) (auto simp: whole_chunks_def whole_chunk_def)
qed (simp add: whole_chunks_def)

text \<open>What the child sends begins with the result for a client that is not told an error.\<close>

lemma answer_begins:
  assumes "texts @ CompileResultMsg r # ms = m # rest" and "all_texts texts" and "normal L p m = CompileResultMsg c"
  shows "texts = [] \<and> ms = rest \<and> m = CompileResultMsg r"
proof (cases texts)
  case (Cons t ts)
  then show ?thesis
    using assms by (auto simp: all_texts_def)
qed (use assms in simp)

lemma source_of_files: "source_of (files_of obj dwo) = concat obj"
  by (simp add: files_of_def)

text \<open>
  C5. A remote compilation is faithful. The client and the child of the daemon on the server have both ended with 0; the child has been given,
  in order and in their normal form, the messages the client sent after the job, and the client those of the child; the job was not to wait for
  an environment, the output is not a file of split debug information, and the result does not say that the memory did not suffice. Then the client has sent the
  job, the whole preprocessed source and its end; the output file of the client is the object file as the server has read it; and the
  run of \<open>work_it\<close> on these messages has returned 0 in a state in which the compiler has read only that source, and all of it
  unless it was killed, and has ended with 0.
\<close>

theorem remote_build_faithful:
  assumes client: "build_remote_int y usecs environment version_file pre output s = (Inr 0, s')"
    and server: "handle_connection e job' (map (normal L p) (drop (Suc (length (cw_sent s))) (cw_sent s'))) sends = Some (0, t)"
    and wire: "cw_replies s = map (Some \<circ> normal L p) (sv_sent t)"
    and env: "ucs_got_env usecs \<noteq> 0"
    and names: "\<not> suffix ''.dwo'' (m_output_file (cw_job s))" "\<not> suffix ''.dwo_icetmp'' (m_output_file (cw_job s))"
    and fds: "se_fds e = (client_fd, sock_in, sock_out, sock_err)" "client_fd \<ge> 0" "sock_in \<ge> 0" "we_death_fd (se_wk e) \<ge> 0"
      "we_death_fd (se_wk e) \<notin> {client_fd, sock_in, sock_out, sock_err}"
    and tmp: "se_make_tmpdir e \<noteq> Inl 0" "se_make_tmpnam e \<noteq> Inl 0"
    and enough: "\<forall>r. CompileResultMsg r \<in> set (sv_sent t) \<longrightarrow> \<not> cr_was_out_of_memory r"
  shows "\<exists>reads job cs ms w. source_reads y pre reads \<and> concat cs = content reads
    \<and> cw_sent s' = cw_sent s @ CompileFileMsg job # map file_chunk cs @ [EndMsg]
    \<and> cw_files s' (m_output_file (cw_job s)) = map_option content (se_files e (sv_obj_file t))
    \<and> work_it (se_wk e) (se_protocol e) job' (se_child e) (se_start e) (se_rounds e)
        (wk_start client_fd sock_in sock_out sock_err CompileResultMsg_new (replicate 8 0) (map (normal L p) (map file_chunk cs @ [EndMsg])))
      = Some (0, ms, w)
    \<and> prefix (wk_stdin w) (content reads) \<and> (wk_kills w = 0 \<longrightarrow> wk_stdin w = content reads)
    \<and> (\<exists>i\<in>set (se_rounds e). \<exists>status ru. wi_wait i = Some (status, ru) \<and> shell_exit_status status = 0)"
proof -
  let ?Q = "map (normal L p) (drop (Suc (length (cw_sent s))) (cw_sent s'))"
  from build_remote_int_zero [OF client env names] obtain reads cs job c R where src: "source_reads y pre reads" "concat cs = content reads"
    and sent: "cw_sent s' = cw_sent s @ CompileFileMsg job # map file_chunk cs @ [EndMsg]"
    and reply: "cw_replies s = Some (CompileResultMsg c) # R" "cr_status c = 0"
    and out: "cw_files s' (m_output_file (cw_job s)) = Some (source_of (arrived R))"
    by blast
  have Q: "?Q = map (normal L p) (map file_chunk cs @ [EndMsg])"
    using sent by simp
  have whole: "whole_chunks ?Q"
    unfolding Q by (rule whole_chunks_normal) simp
  have src_Q: "source_of ?Q = content reads"
    unfolding Q using src(2) source_of_normal [of L p "map file_chunk cs @ [EndMsg]"] source_of_file(1) [of cs "[]"] by simp
  obtain texts r obj dwo where t: "sv_sent t = texts @ CompileResultMsg r # files_of obj dwo" "all_texts texts"
    and obj: "map_option content (se_files e (sv_obj_file t)) = Some (concat obj)"
    and ran: "cr_was_out_of_memory r \<or> compiler_ran e job' ?Q r"
    using served_completely [OF server fds whole tmp] by - (elim exE conjE, rule that, assumption+)
  have mem: "\<not> cr_was_out_of_memory r"
  proof (rule enough [rule_format])
    show "CompileResultMsg r \<in> set (sv_sent t)"
      unfolding t(1) by simp
  qed
  obtain ms w where run: "work_it (se_wk e) (se_protocol e) job' (se_child e) (se_start e) (se_rounds e)
              (wk_start client_fd sock_in sock_out sock_err CompileResultMsg_new (replicate 8 0) ?Q) = Some (0, ms, w)"
    and prfx: "prefix (wk_stdin w) (source_of ?Q)" and whole_read: "wk_kills w = 0 \<longrightarrow> wk_stdin w = source_of ?Q \<and> ended ?Q"
    and stopped: "\<exists>i\<in>set (se_rounds e). \<exists>status ru. wi_wait i = Some (status, ru) \<and> shell_exit_status status = 0"
    using ran mem fds(1) unfolding compiler_ran_def by - (erule disjE, erule (1) notE, (erule exE conjE)+, rule that; simp)
  obtain m ms' where m: "sv_sent t = m # ms'" "normal L p m = CompileResultMsg c" "R = map (Some \<circ> normal L p) ms'"
    using wire reply(1) by (cases "sv_sent t") auto
  then have "ms' = files_of obj dwo"
    using answer_begins [OF _ t(2) m(2), of r "files_of obj dwo" ms'] t(1) by simp
  then have "source_of (arrived R) = concat obj"
    using m(3) by (simp flip: map_map add: source_of_files)
  then have object_file: "cw_files s' (m_output_file (cw_job s)) = map_option content (se_files e (sv_obj_file t))"
    using out obj by metis
  show ?thesis
    by (rule exI [of _ reads], rule exI [of _ job], rule exI [of _ cs], rule exI [of _ ms], rule exI [of _ w])
      (use whole_read [unfolded src_Q] in \<open>intro conjI src sent object_file run [unfolded Q] prfx [unfolded src_Q] stopped; simp\<close>)
qed


section \<open>Witness\<close>

definition demo_client_env :: client_env where
  "demo_client_env = \<lparr>ce_getenv = (\<lambda>_. None), ce_readable = (\<lambda>_. True), ce_stat_reg = (\<lambda>_. None), ce_lstat = (\<lambda>_. None),
     ce_getcwd = Some ''/w'', ce_run = (\<lambda>_ _ _. ''''), ce_isatty2 = False, ce_gcc_color = False, ce_gcc_caret = False, ce_asserts = True\<rparr>"

definition demo_remote :: remote_sys where
  "demo_remote = \<lparr>rs_env = demo_client_env, rs_asserts = True, rs_connect = Some 45, rs_server_name = ''host'', rs_version_stat = True,
     rs_version_file = None, rs_cpp = CppRun [RData ''int'', RIntr, RData ''x;''] (Exited 0), rs_preproc = None, rs_exists = (\<lambda>_. False),
     rs_realpath = (\<lambda>_. None), rs_no_show_caret = True, rs_color_diagnostics = True\<rparr>"

definition demo_usecs :: use_cs_msg where
  "demo_usecs = \<lparr>ucs_job_id = 9, ucs_hostname = ''host'', ucs_port = 10245, ucs_host_platform = ''x86_64'', ucs_got_env = 1,
     ucs_client_id = 1, ucs_matched_job_id = 0\<rparr>"

definition demo_server :: serve_env where
  "demo_server = demo_serve_env\<lparr>se_rounds := [demo_round True [rv_none, rv_none, rv_w] (WBytes 1), demo_round False [rv_none, rv_none, rv_w] (WBytes 9),
     demo_round True [rv_r, rv_none, rv_none, rv_r] WErr]\<rparr>"

definition demo_queue :: "msg list" where
  "demo_queue = map (normal demo_libs 45) [file_chunk ''intx;'', EndMsg]"

lemma demo_queue_value: "\<exists>n. demo_queue = [FileChunkMsg \<lparr>fc_buffer = Some ''intx;'', fc_len = 5, fc_compressed = n\<rparr>, EndMsg]"
  by (simp add: demo_queue_def file_chunk_def)

lemma demo_work_remote:
  "\<exists>w. work_it demo_wk_env 45 demo_job \<lparr>ch_root = False, ch_setrlimit = True, ch_chdir = True\<rparr> Started (se_rounds demo_server)
     (wk_start 3 4 5 6 CompileResultMsg_new (replicate 8 0) demo_queue) = Some (0, [], w) \<and> cr_status (wk_rmsg w) = 0 \<and> cr_was_out_of_memory (wk_rmsg w) = False"
proof -
  obtain n where q: "demo_queue = [FileChunkMsg \<lparr>fc_buffer = Some ''intx;'', fc_len = 5, fc_compressed = n\<rparr>, EndMsg]"
    using demo_queue_value by blast
  show ?thesis
    unfolding q
    by (simp add: work_it_def Let_def wk_start_def demo_server_def demo_round_def demo_wk_env_def wk_step_def wk_receive_def wk_take_def wk_drop_def
        wk_pollfds_def wk_write_def pollfd_is_set_def chunk_bytes_def wk_read_out_def wk_read_err_def wk_exit_def shell_exit_status_def
        CompileResultMsg_new_def child_messages_def demo_job_def)
qed

lemma demo_server_value:
  "\<exists>r t. handle_connection demo_server demo_job demo_queue [] = Some (0, t) \<and> cr_status r = 0 \<and> \<not> cr_have_dwo_file r
     \<and> \<not> cr_was_out_of_memory r \<and> sv_obj_file t = ''/tmp/o''
     \<and> sv_sent t = [CompileResultMsg r, file_chunk ''OB'', file_chunk ''J'', EndMsg]"
proof -
  obtain w where w: "work_it demo_wk_env 45 demo_job \<lparr>ch_root = False, ch_setrlimit = True, ch_chdir = True\<rparr> Started (se_rounds demo_server)
     (wk_start 3 4 5 6 CompileResultMsg_new (replicate 8 0) demo_queue) = Some (0, [], w)" and st: "cr_status (wk_rmsg w) = 0" "\<not> cr_was_out_of_memory (wk_rmsg w)"
    using demo_work_remote by blast
  let ?s = "(sv_start [])\<lparr>sv_obj_file := ''/tmp/o''\<rparr>"
  have fields: "se_fds demo_server = (3, 4, 5, 6)" "se_wk demo_server = demo_wk_env" "se_protocol demo_server = 45"
    "se_child demo_server = \<lparr>ch_root = False, ch_setrlimit = True, ch_chdir = True\<rparr>" "se_start demo_server = Started"
    by (simp_all add: demo_server_def demo_serve_env_def)
  have "sv_work demo_server demo_job ''/tmp'' '''' ''o'' demo_queue ?s = Some (0, wk_rmsg w, ?s\<lparr>sv_job_stat := wk_job_stat w, sv_cwd := ''/tmp'',
      sv_argv := compiler_argv 45 demo_job ''/tmp'' ''o'' (we_mem_limit demo_wk_env)\<rparr>)"
    using w by (simp add: sv_work_def fields sv_start_def sv_tell_def)
  moreover have "name_part ''/tmp/o'' = ''o''" "srfind ''/'' ''/tmp/o'' = Some 4"
    by code_simp+
  ultimately have "sv_compile demo_server demo_job demo_queue (sv_start []) = Some (Inr (0, wk_rmsg w), ?s\<lparr>sv_job_stat := wk_job_stat w, sv_cwd := ''/tmp'',
      sv_argv := compiler_argv 45 demo_job ''/tmp'' ''o'' (we_mem_limit demo_wk_env)\<rparr>)"
    by (simp add: sv_compile_def demo_job_def demo_server_def demo_serve_env_def)
  then show ?thesis
    using st by (simp add: handle_connection_def demo_server_def demo_serve_env_def demo_job_def chdir_to_environment_def Let_def
        sv_finish_def sv_send_def sv_start_def sv_report_def sv_send_files_def write_output_file_def buffer_size_def add_size_def sv_cleanup_def)
qed

lemma demo_client_value:
  assumes "cr_status r = 0" and "\<not> cr_have_dwo_file r"
  shows "\<exists>s'. build_remote_int demo_remote demo_usecs ''env'' '''' False False
      (demo_cw (map (Some \<circ> normal demo_libs 45) [CompileResultMsg r, file_chunk ''OB'', file_chunk ''J'', EndMsg])) = (Inr 0, s')
    \<and> drop 1 (cw_sent s') = [file_chunk ''intx;'', EndMsg] \<and> cw_files s' ''a.o'' = Some ''OBJ''"
  using assms
  by (simp add: build_remote_int_def demo_remote_def demo_usecs_def demo_cw_def converse_def Let_def demo_client_env_def updater_build_root_def
      rebase_flag_def updateFlags_def old_objc_flags_def cs_send_def next_ok_def send_source_def lock_host_def buffer_size_def flush_chunk_def shell_exit_status_def
      await_result_def cs_get_msg_def check_for_failure_def show_result_def receive_files_def receive_file_def file_chunk_def chunk_bytes_def)

theorem remote_build_faithful_witness:
  "\<exists>t s' reads. handle_connection demo_server demo_job demo_queue [] = Some (0, t) \<and> source_reads demo_remote False reads
     \<and> build_remote_int demo_remote demo_usecs ''env'' '''' False False (demo_cw (map (Some \<circ> normal demo_libs 45) (sv_sent t))) = (Inr 0, s')
     \<and> cw_files s' ''a.o'' = Some ''OBJ''"
proof -
  obtain r t where t: "handle_connection demo_server demo_job demo_queue [] = Some (0, t)" "cr_status r = 0" "\<not> cr_have_dwo_file r" "sv_obj_file t = ''/tmp/o''"
     "sv_sent t = [CompileResultMsg r, file_chunk ''OB'', file_chunk ''J'', EndMsg]" "\<not> cr_was_out_of_memory r"
    using demo_server_value by blast
  let ?s = "demo_cw (map (Some \<circ> normal demo_libs 45) (sv_sent t))"
  obtain s' where s': "build_remote_int demo_remote demo_usecs ''env'' '''' False False ?s = (Inr 0, s')" "drop 1 (cw_sent s') = [file_chunk ''intx;'', EndMsg]"
    using demo_client_value [OF t(2,3)] unfolding t(5) by blast
  have q: "handle_connection demo_server demo_job (map (normal demo_libs 45) (drop (Suc (length (cw_sent ?s))) (cw_sent s'))) [] = Some (0, t)"
    using t(1) s'(2) by (simp add: demo_queue_def demo_cw_def)
  have hyps: "cw_replies ?s = map (Some \<circ> normal demo_libs 45) (sv_sent t)" "ucs_got_env demo_usecs \<noteq> 0"
    "\<not> suffix ''.dwo'' (m_output_file (cw_job ?s))" "\<not> suffix ''.dwo_icetmp'' (m_output_file (cw_job ?s))"
    "se_fds demo_server = (3, 4, 5, 6)" "(0::int) \<le> 3" "(0::int) \<le> 4" "0 \<le> we_death_fd (se_wk demo_server)"
    "we_death_fd (se_wk demo_server) \<notin> {3, 4, 5, 6}" "se_make_tmpdir demo_server \<noteq> Inl 0" "se_make_tmpnam demo_server \<noteq> Inl 0"
    "\<forall>r. CompileResultMsg r \<in> set (sv_sent t) \<longrightarrow> \<not> cr_was_out_of_memory r"
    by (simp_all add: demo_cw_def demo_usecs_def demo_server_def demo_serve_env_def demo_wk_env_def suffix_def append_eq_Cons_conv Cons_eq_append_conv
        t(5,6) file_chunk_def)
  obtain reads where "source_reads demo_remote False reads"
    "cw_files s' (m_output_file (cw_job ?s)) = map_option content (se_files demo_server (sv_obj_file t))"
    using remote_build_faithful [OF s'(1) q hyps] by - (elim exE conjE, rule that, assumption+)
  moreover from this(2) have "cw_files s' ''a.o'' = Some ''OBJ''"
    using t(4) by (simp add: demo_cw_def demo_server_def demo_serve_env_def)
  ultimately show ?thesis
    using t(1) s'(1) by blast
qed

end
