(* ===== verification/ClientMain.thy ===== *)
theory ClientMain
  imports ClientArgs RemoteBuild
begin

text \<open>
  The client as a whole: \<open>main\<close> of \<open>client/main.cpp\<close>, the guard against recursion (\<open>client/safeguard.cpp\<close>),
  the local compilation (\<open>build_local\<close> of \<open>client/local.cpp\<close>) and the call of the preprocessor
  (\<open>client/cpp.cpp\<close>), on top of the analysis of the command line (\<open>ClientArgs\<close>) and the remote compilation
  (\<open>Remote\<close>). Response files are expanded already. Signals of the user and the colours of the compiler's output are left out. The global
  variable \<open>child_pid\<close> is taken to be 0 when \<open>build_local\<close> begins: it is not reset, and matters when \<open>build_local\<close> is called a second
  time and does not fork.
\<close>

section \<open>How programs end\<close>

text \<open>The process ends with a wait status, or by an uncaught exception or a failed assertion.\<close>

datatype outcome = Ends wait_status | Aborts

text \<open>\<open>return r\<close> from \<open>main\<close>\<close>

definition exit_with :: "u32 \<Rightarrow> outcome" where
  "exit_with r = Ends (Exited (unat r mod 256))"

text \<open>\<open>execv\<close>: the program runs to its end, or it is not there, or cannot be executed.\<close>

datatype run_result = Runs wait_status | NotThere | NotExecutable

definition run_status :: "run_result \<Rightarrow> wait_status" where
  "run_status r = (case r of Runs st \<Rightarrow> st | NotThere \<Rightarrow> Exited 127 | NotExecutable \<Rightarrow> Exited 126)"

definition EXIT_NO_SUCH_FILE :: u32 where "EXIT_NO_SUCH_FILE = 115"

section \<open>The guard against recursion\<close>

definition SafeguardMaxLevel :: int where
  "SafeguardMaxLevel = 2"

definition SafeguardStepCompiler :: int where
  "SafeguardStepCompiler = SafeguardMaxLevel"

definition SafeguardStepCustom :: int where
  "SafeguardStepCustom = 1"

definition dcc_recursion_safeguard :: "client_env \<Rightarrow> int" where
  "dcc_recursion_safeguard env =
     (case ce_getenv env ''_ICECC_SAFEGUARD'' of
        None \<Rightarrow> 0
      | Some v \<Rightarrow> if atoi v = 0 then 1 else atoi v)"

text \<open>The environment of a program that is started: a string of one character.\<close>

definition dcc_increment_safeguard :: "int \<Rightarrow> client_env \<Rightarrow> client_env" where
  "dcc_increment_safeguard step env =
     env\<lparr>ce_getenv := (ce_getenv env)(''_ICECC_SAFEGUARD'' \<mapsto>
       takeWhile (\<lambda>c. c \<noteq> NUL) [char_of (nat ((dcc_recursion_safeguard env + step + 48) mod 256))])\<rparr>"

section \<open>The preprocessor\<close>

definition dcc_is_preprocessed :: "string \<Rightarrow> bool" where
  "dcc_is_preprocessed sfile \<longleftrightarrow> length sfile \<ge> 3 \<and> (suffix ''.i'' sfile \<or> suffix ''.ii'' sfile)"

text \<open>
  The loop over the flags, which takes out what is about precompiled headers and modules. An argument of \<open>-include\<close> that is kept is looked
  at again as a flag of its own.
\<close>

definition module_flag :: "string \<Rightarrow> bool" where
  "module_flag a \<longleftrightarrow> a = ''-fmodules'' \<or> a = ''-fcxx-modules'' \<or> a = ''-fmodules-ts'' \<or> prefix ''-fmodules-cache-path='' a"

fun filter_flags :: "(string \<Rightarrow> bool) \<Rightarrow> string list \<Rightarrow> string list" where
  "filter_flags readable [] = []"
| "filter_flags readable (a # fs) =
     (if a = ''-include'' then
        (case fs of
           [] \<Rightarrow> [a]
         | p # r \<Rightarrow> if \<not> readable p \<and> readable (p @ ''.gch'') then filter_flags readable r else a # filter_flags readable fs)
      else if a = ''-include-pch'' then
        (case fs of
           [] \<Rightarrow> [a]
         | p # r \<Rightarrow> if readable p then filter_flags readable r else a # filter_flags readable fs)
      else if a = ''-fpch-preprocess'' \<or> module_flag a then filter_flags readable fs
      else a # filter_flags readable fs)"

definition cpp_argv :: "client_env \<Rightarrow> compile_job \<Rightarrow> string list option" where
  "cpp_argv env job =
     (if dcc_is_preprocessed (m_input_file job) then Some [''/bin/cat'', m_input_file job]
      else map_option
        (\<lambda>c. c # filter_flags (ce_readable env) (localFlags job @ restFlags job) @ [''-E'', m_input_file job]
          @ (if compiler_only_rewrite_includes env job
             then [if compiler_is_clang job then ''-frewrite-includes'' else ''-fdirectives-only''] else []))
        (find_compiler env job))"

section \<open>The system\<close>

text \<open>Where a daemon may listen.\<close>

datatype endpoint = SocketFile string | TcpPort string int

text \<open>
  The answers of the system: the parts of the remote compilation (\<open>ms_remote\<close> with the environment, \<open>ms_repeat\<close>), the numbers
  for a local compilation, the daemon that answers at an endpoint with its protocol version, at first and after the remote compilation has failed, with what it will say then,
  and programs: the preprocessor, and any program that is executed with an environment and arguments.
\<close>

record main_sys =
  ms_libs :: libs
  ms_remote :: remote_sys
  ms_repeat :: repeat_sys
  ms_times :: local_run
  ms_clock :: u32
  ms_random :: int
  ms_niceness :: int
  ms_bindir :: string
  ms_executable :: "string \<Rightarrow> bool"
  ms_usable_env :: "string \<Rightarrow> bool"
  ms_connect :: "endpoint \<Rightarrow> int option"
  ms_reconnect :: "endpoint \<Rightarrow> int option"
  ms_second :: "bool list \<times> msg option list"
  ms_pipe :: bool
  ms_fork :: bool
  ms_cpp :: "client_env \<Rightarrow> string list option \<Rightarrow> cpp_result"
  ms_run :: "client_env \<Rightarrow> string list \<Rightarrow> run_result"

abbreviation ms_env :: "main_sys \<Rightarrow> client_env" where
  "ms_env y \<equiv> rs_env (ms_remote y)"

section \<open>The local compilation\<close>

definition local_argv :: "string \<Rightarrow> compile_job \<Rightarrow> string list" where
  "local_argv compiler_name job =
     filter (\<lambda>a. a \<noteq> ''-fdirectives-only'')
       (compiler_name # allFlags job @ (if m_input_file job \<noteq> '''' then [m_input_file job] else [])
        @ (if m_output_file job \<noteq> '''' then [''-o'', m_output_file job] else []))"

definition local_step :: "compile_job \<Rightarrow> int" where
  "local_step job = (if m_language job = Lang_Custom then SafeguardStepCustom else SafeguardStepCompiler)"

text \<open>
  \<open>Inl\<close> is the end of the process, which without a daemon and colours becomes the compiler itself. A \<open>fork\<close> that fails leaves \<open>status\<close>
  at its first value 1, which is the status of a process killed by signal 1.
\<close>

definition build_local :: "main_sys \<Rightarrow> bool \<Rightarrow> cw \<Rightarrow> (outcome + u32) \<times> cw" where
  "build_local y local_daemon s =
     (let env = ms_env y; job = cw_job s
      in case find_compiler env job of
           None \<Rightarrow> (Inl Aborts, s)
         | Some compiler_name \<Rightarrow>
             if compiler_name = '''' then (Inr EXIT_NO_SUCH_FILE, s)
             else
               let (locked, s1) = (if local_daemon then (True, s) else lock_host s)
               in if \<not> locked then (Inr EXIT_DISTCC_FAILED, s1)
                  else
                    let color_output = m_language job \<noteq> Lang_Custom \<and> colorify_wanted env (rs_color_diagnostics (ms_remote y)) job \<and> ms_pipe y;
                        status = run_status (ms_run y (dcc_increment_safeguard (local_step job) env) (local_argv compiler_name job))
                    in (if \<not> local_daemon \<and> \<not> color_output then Inl (Ends status)
                        else Inr (shell_exit_status (if ms_fork y then status else Signaled 1)), s1))"

text \<open>A local compilation whose status becomes that of the client.\<close>

definition run_locally :: "main_sys \<Rightarrow> bool \<Rightarrow> cw \<Rightarrow> outcome \<times> cw" where
  "run_locally y local_daemon s =
     (case build_local y local_daemon s of (Inl z, s1) \<Rightarrow> (z, s1) | (Inr status, s1) \<Rightarrow> (exit_with status, s1))"

text \<open>What the compilation by the client itself tells the daemon in the middle of \<open>build_remote\<close>.\<close>

definition local_run_of :: "main_sys \<Rightarrow> cw \<Rightarrow> local_run option" where
  "local_run_of y s =
     (case build_local y True s of (Inr status, _) \<Rightarrow> Some ((ms_times y)\<lparr>lr_status := status\<rparr>) | (Inl _, _) \<Rightarrow> None)"

section \<open>The local daemon\<close>

definition daemon_endpoints :: "client_env \<Rightarrow> endpoint list" where
  "daemon_endpoints env =
     (case ce_getenv env ''ICECC_SOCKET_PATH'' of Some p \<Rightarrow> [SocketFile p] | None \<Rightarrow> [])
     @ [SocketFile (case ce_getenv env ''ICECC_SOCKET_PATH1'' of Some p \<Rightarrow> p | None \<Rightarrow> ''/var/run/icecc/iceccd.socket''),
        SocketFile (case ce_getenv env ''ICECC_SOCKET_PATH2'' of Some p \<Rightarrow> p | None \<Rightarrow> ''/var/run/iceccd.socket'')]
     @ (case ce_getenv env ''HOME'' of Some h \<Rightarrow> [SocketFile (h @ ''/.iceccd.socket'')] | None \<Rightarrow> [])
     @ [TcpPort (case ce_getenv env ''ICECC_DAEMON_HOST'' of Some h \<Rightarrow> h | None \<Rightarrow> ''127.0.0.1'')
          (case ce_getenv env ''ICECC_DAEMON_PORT'' of Some p \<Rightarrow> atoi p | None \<Rightarrow> 10245)]"

primrec first_daemon :: "(endpoint \<Rightarrow> int option) \<Rightarrow> endpoint list \<Rightarrow> int option" where
  "first_daemon conn [] = None"
| "first_daemon conn (e # es) = (case conn e of Some p \<Rightarrow> Some p | None \<Rightarrow> first_daemon conn es)"

text \<open>The protocol version of the daemon; \<open>Inl\<close> is the exit of the process.\<close>

definition get_local_daemon :: "client_env \<Rightarrow> (endpoint \<Rightarrow> int option) \<Rightarrow> u32 + int option" where
  "get_local_daemon env conn =
     (case ce_getenv env ''ICECC_TEST_SOCKET'' of
        None \<Rightarrow> Inr (first_daemon conn (daemon_endpoints env))
      | Some p \<Rightarrow> (case conn (SocketFile p) of None \<Rightarrow> Inl EXIT_TEST_SOCKET_ERROR | Some v \<Rightarrow> Inr (Some v)))"

text \<open>A local job that the daemon knows of.\<close>

definition local_job :: "main_sys \<Rightarrow> bool \<Rightarrow> cw \<Rightarrow> outcome \<times> cw" where
  "local_job y fulljob s =
     (case get_absfilename (get_cwd (ms_env y)) (m_output_file (cw_job s)) of
        None \<Rightarrow> (Aborts, s)
      | Some outfile \<Rightarrow>
          let (ok, s1) = daemon_send (JobLocalBeginMsg \<lparr>jlb_outfile = outfile, jlb_stime = ms_clock y, jlb_id = 0, jlb_fulljob = fulljob,
                jlb_niceness = of_int (ms_niceness y)\<rparr>) s;
              (startme, s2) = (if ok then daemon_get_msg s1 else (None, s1))
          in (case startme of
                Some (JobLocalBeginMsg _) \<Rightarrow> run_locally y True s2
              | _ \<Rightarrow> run_locally y False s2))"

section \<open>Environments\<close>

fun extra_loop :: "client_env \<Rightarrow> (string \<Rightarrow> bool) \<Rightarrow> string list \<Rightarrow> string list \<Rightarrow> (string list \<times> bool) option" where
  "extra_loop env exists [] extrafiles = Some (extrafiles, False)"
| "extra_loop env exists (f # fs) extrafiles =
     (case get_absfilename (get_cwd env) f of
        None \<Rightarrow> None
      | Some g \<Rightarrow> if exists g then extra_loop env exists fs (extrafiles @ [g]) else Some (extrafiles, True))"

text \<open>The extra files, and whether the job becomes local because one is missing.\<close>

definition extra_files :: "client_env \<Rightarrow> (string \<Rightarrow> bool) \<Rightarrow> string list \<Rightarrow> (string list \<times> bool) option" where
  "extra_files env exists extrafiles =
     (case ce_getenv env ''ICECC_EXTRAFILES'' of
        None \<Rightarrow> Some (extrafiles, False)
      | Some v \<Rightarrow> extra_loop env exists (items_of CHR '':'' v) extrafiles)"

text \<open>Asking the daemon for an environment made of the compiler of this machine.\<close>

definition native_environment :: "main_sys \<Rightarrow> int \<Rightarrow> string list \<Rightarrow> cw \<Rightarrow> (environments \<times> cw) option" where
  "native_environment y p extrafiles s =
     (let env = ms_env y; job = cw_job s
      in case (if p \<ge> 41 then Option.bind (find_compiler env job) (get_absfilename (get_cwd env))
               else Some (if compiler_is_clang job then ''clang'' else ''gcc'')) of
           None \<Rightarrow> None
         | Some compiler \<Rightarrow>
             let (ok, s1) = daemon_send (GetNativeEnvMsg \<lparr>gne_compiler = compiler, gne_extrafiles = extrafiles,
                   gne_compression = (case ce_getenv env ''ICECC_ENV_COMPRESSION'' of None \<Rightarrow> '''' | Some c \<Rightarrow> c)\<rparr>) s;
                 (umsg, s2) = (if ok then daemon_get_msg s1 else (None, s1));
                 native = (case umsg of Some (UseNativeEnvMsg n) \<Rightarrow> n | _ \<Rightarrow> '''')
             in Some (if native = '''' \<or> \<not> ce_readable env native then [] else [(m_target_platform job, native)], s2))"

text \<open>The environments, and whether the job becomes local since there are none or one cannot be read.\<close>

definition choose_environments :: "main_sys \<Rightarrow> int \<Rightarrow> string list \<Rightarrow> cw \<Rightarrow> (environments \<times> bool \<times> cw) option" where
  "choose_environments y p extrafiles s =
     (let env = ms_env y; job = cw_job s
      in map_option (\<lambda>(envs, s1). (envs, envs = [] \<or> list_ex (\<lambda>(_, f). \<not> ce_readable env f) envs, s1))
           (case ce_getenv env ''ICECC_VERSION'' of
              Some v \<Rightarrow>
                map_option (\<lambda>envs. (envs, s))
                  (parse_icecc_version (ce_asserts env) (ms_usable_env y) v (m_target_platform job) (find_prefix (m_compiler_name job)))
            | None \<Rightarrow>
                if extrafiles \<noteq> [] \<and> \<not> p \<ge> 32 then Some ([], s) else native_environment y p extrafiles s))"

section \<open>The environment of this machine\<close>

text \<open>The command of \<open>create_native\<close>; \<open>Some None\<close> is a compiler that is not found.\<close>

definition native_command :: "main_sys \<Rightarrow> string list \<Rightarrow> string list option option" where
  "native_command y args =
     (let env = ms_env y;
          default = (if prefix ''Darwin'' (determine_platform (ms_libs y)) then ''clang'' else ''gcc'');
          choice = (case args of
             [] \<Rightarrow> Some (Some (default, []))
           | a # r \<Rightarrow>
               if a = ''clang'' \<or> a = ''gcc'' then Some (Some (a, r))
               else if ce_readable env a \<and> \<not> ms_executable y a then Some (Some (default, a # r))
               else (case Option.bind (get_c_compiler (ce_asserts env) a) (compiler_path_lookup env) of
                       None \<Rightarrow> None
                     | Some c \<Rightarrow> Some (if c = '''' then None else Some (c, r))))
      in map_option (map_option (\<lambda>(compiler, extra).
           [ms_bindir y @ ''/icecc-create-env'', compiler] @ concat (map (\<lambda>f. [''--addfile'', f]) extra)
           @ (case ce_getenv env ''ICECC_ENV_COMPRESSION'' of Some c \<Rightarrow> [''--compression'', c] | None \<Rightarrow> []))) choice)"

definition create_native :: "main_sys \<Rightarrow> string list \<Rightarrow> outcome" where
  "create_native y args =
     (case native_command y args of
        None \<Rightarrow> Aborts
      | Some None \<Rightarrow> exit_with 1
      | Some (Some argv) \<Rightarrow> (case ms_run y (ms_env y) argv of Runs st \<Rightarrow> Ends st | _ \<Rightarrow> exit_with 1))"

section \<open>The main program\<close>

text \<open>What the command line asks for: a text, an environment of this machine, or a compilation, with whether the client is \<open>icerun\<close>.\<close>

datatype invocation = Prints | MakesNative "string list" | Compiles compile_job bool

definition resolve_link :: "client_env \<Rightarrow> string \<Rightarrow> string option" where
  "resolve_link env f = (case ce_lstat env f of Some (FLink t) \<Rightarrow> t | _ \<Rightarrow> None)"

definition named_compiler :: "string \<Rightarrow> compile_job \<Rightarrow> compile_job" where
  "named_compiler arg job = (if arg = '''' then job else job\<lparr>m_compiler_name := arg, m_compiler_pathname := arg\<rparr>)"

definition read_invocation :: "client_env \<Rightarrow> string list \<Rightarrow> compile_job \<Rightarrow> invocation" where
  "read_invocation env argv job =
     (let name = find_basename (hd argv)
      in if name = rs_program_name then
           (case tl argv of
              [] \<Rightarrow> Compiles job False
            | arg # rest \<Rightarrow>
                if arg = ''--help'' \<or> arg = ''--version'' then Prints
                else if arg = ''--build-native'' then MakesNative rest
                else Compiles (named_compiler arg job) False)
         else if name = ''icerun'' then
           (case tl argv of
              [] \<Rightarrow> Compiles job True
            | arg # rest \<Rightarrow> if arg = ''--help'' \<or> arg = ''--version'' then Prints else Compiles (named_compiler arg job) True)
         else Compiles job (case resolve_link env (hd argv) of Some resolved \<Rightarrow> find_basename resolved = ''icerun'' | None \<Rightarrow> False))"

text \<open>What \<open>build_remote\<close> finds: the flags about diagnostics, and the preprocessor, which is called with the flags of the job.\<close>

definition remote_parts :: "main_sys \<Rightarrow> scan \<Rightarrow> main_sys" where
  "remote_parts y sc =
     y\<lparr>ms_remote := (ms_remote y)\<lparr>rs_color_diagnostics := sc_explicit_color sc, rs_no_show_caret := sc_explicit_no_caret sc,
         rs_cpp := ms_cpp y (dcc_increment_safeguard SafeguardStepCompiler (ms_env y)) (cpp_argv (ms_env y) (sc_job sc))\<rparr>\<rparr>"

definition repeat_rate :: "client_env \<Rightarrow> int" where
  "repeat_rate env = (case ce_getenv env ''ICECC_REPEAT_RATE'' of None \<Rightarrow> 0 | Some r \<Rightarrow> atoi r)"

text \<open>After an exception the connection to the daemon is made anew for a local job. The connection of before is not used again.\<close>

definition after_exception :: "main_sys \<Rightarrow> cw \<Rightarrow> outcome \<times> cw" where
  "after_exception y s =
     (case get_local_daemon (ms_env y) (ms_reconnect y) of
        Inl code \<Rightarrow> (exit_with code, s)
      | Inr None \<Rightarrow> run_locally y False s
      | Inr (Some _) \<Rightarrow> local_job y False (s\<lparr>cw_daemon_sends := fst (ms_second y), cw_daemon_replies := snd (ms_second y)\<rparr>))"

definition try_remote :: "main_sys \<Rightarrow> environments \<Rightarrow> cw \<Rightarrow> outcome \<times> fs_op list \<times> cw" where
  "try_remote y envs s =
     (case build_remote (ms_remote y) (ms_repeat y) (local_run_of y s) (ms_random y) (repeat_rate (ms_env y)) (ms_niceness y) envs s of
        (Inr ret, ops, s1) \<Rightarrow> (exit_with ret, ops, if ret = 0 then snd (daemon_send EndMsg s1) else s1)
      | (Inl Terminated, ops, s1) \<Rightarrow> (Aborts, ops, s1)
      | (Inl _, ops, s1) \<Rightarrow> (case after_exception y s1 of (z, s2) \<Rightarrow> (z, ops, s2)))"

text \<open>A compilation after the analysis of its arguments, with a daemon of the protocol version \<open>p\<close>.\<close>

definition compile_with_daemon :: "main_sys \<Rightarrow> int \<Rightarrow> scan \<Rightarrow> cw \<Rightarrow> outcome \<times> fs_op list \<times> cw" where
  "compile_with_daemon y p sc s =
     (let env = ms_env y; local0 = argv_result sc \<or> (case ce_getenv env ''ICECC'' of Some v \<Rightarrow> strcasecmp_eq v ''no'' | None \<Rightarrow> False)
      in case extra_files env (rs_exists (ms_remote y)) (sc_extrafiles sc) of
           None \<Rightarrow> (Aborts, [], s)
         | Some (extrafiles, missing) \<Rightarrow>
             (case (if local0 \<or> missing then Some ([], True, s) else choose_environments y p extrafiles s) of
                None \<Rightarrow> (Aborts, [], s)
              | Some (envs, local, s1) \<Rightarrow>
                  if local then (case local_job y False s1 of (z, s2) \<Rightarrow> (z, [], s2)) else try_remote y envs s1))"

definition disabled :: "client_env \<Rightarrow> bool" where
  "disabled env = (case ce_getenv env ''ICECC'' of Some v \<Rightarrow> strcasecmp_eq v ''disable'' | None \<Rightarrow> False)"

definition compile :: "main_sys \<Rightarrow> string list \<Rightarrow> compile_job \<Rightarrow> bool \<Rightarrow> cw \<Rightarrow> outcome \<times> fs_op list \<times> cw" where
  "compile y0 argv job icerun s =
     (let env = ms_env y0
      in if dcc_recursion_safeguard env \<ge> SafeguardMaxLevel then (exit_with EXIT_RECURSION, [], s)
         else (case (if disabled env then Inr None else get_local_daemon env (ms_connect y0)) of
                 Inl code \<Rightarrow> (exit_with code, [], s)
               | Inr daemon \<Rightarrow>
                   (case analyse_argv env argv job icerun [] False of
                      None \<Rightarrow> (Aborts, [], s)
                    | Some sc \<Rightarrow>
                        let y = remote_parts y0 sc; s1 = s\<lparr>cw_job := sc_job sc\<rparr>
                        in (case daemon of
                              None \<Rightarrow> (case run_locally y False s1 of (z, s2) \<Rightarrow> (z, [], s2))
                            | Some p \<Rightarrow> compile_with_daemon y p sc s1))))"

definition start_job :: "main_sys \<Rightarrow> compile_job" where
  "start_job y =
     (let cwd = get_cwd (ms_env y); job = CompileJob_new (ms_libs y)
      in if cwd \<noteq> '''' then job\<lparr>m_working_directory := cwd\<rparr> else job)"

definition client_main :: "main_sys \<Rightarrow> string list \<Rightarrow> cw \<Rightarrow> outcome \<times> fs_op list \<times> cw" where
  "client_main y argv s =
     (case read_invocation (ms_env y) argv (start_job y) of
        Prints \<Rightarrow> (exit_with 0, [], s)
      | MakesNative args \<Rightarrow> (create_native y args, [], s)
      | Compiles job icerun \<Rightarrow> compile y argv job icerun s)"

section \<open>The job is kept\<close>

text \<open>The job after a compilation that failed may have more flags for the server, and is the same otherwise.\<close>

definition same_compilation :: "compile_job \<Rightarrow> compile_job \<Rightarrow> bool" where
  "same_compilation j k \<longleftrightarrow> m_language k = m_language j \<and> m_compiler_name k = m_compiler_name j \<and> m_compiler_pathname k = m_compiler_pathname j
     \<and> m_input_file k = m_input_file j \<and> m_output_file k = m_output_file j
     \<and> (\<exists>fs. m_flags k = m_flags j @ fs \<and> (\<forall>f\<in>set fs. snd f = Arg_Remote))"

lemma same_compilation_refl [simp]: "same_compilation j j"
  by (simp add: same_compilation_def)

lemma same_compilation_trans: "same_compilation i j \<Longrightarrow> same_compilation j k \<Longrightarrow> same_compilation i k"
  by (fastforce simp: same_compilation_def)

lemma same_compilation_updates [simp]:
  "same_compilation j (k\<lparr>m_id := n, m_environment_version := v\<rparr>) = same_compilation j k"
  "same_compilation (j\<lparr>m_id := n, m_environment_version := v\<rparr>) k = same_compilation j k"
  by (simp_all add: same_compilation_def)

lemma same_compilation_append: "same_compilation j k \<Longrightarrow> same_compilation j (appendFlag f Arg_Remote k)"
  by (auto simp: same_compilation_def appendFlag_def append_arg_def)

lemma same_find_compiler: "same_compilation j k \<Longrightarrow> find_compiler env k = find_compiler env j"
  by (auto simp: same_compilation_def find_compiler_def split: option.split)

lemma same_local_step: "same_compilation j k \<Longrightarrow> local_step k = local_step j"
  by (simp add: same_compilation_def local_step_def)

lemma job_kept [simp]:
  "cw_job (snd (cs_send m s)) = cw_job s" "cw_job (snd (cs_get_msg s)) = cw_job s" "cw_job (snd (lock_host s)) = cw_job s"
  "cw_job (snd (daemon_send m s)) = cw_job s" "cw_job (snd (daemon_get_msg s)) = cw_job s" "cw_job (drain s) = cw_job s"
  by (simp_all add: cs_send_def cs_get_msg_def lock_host_def daemon_send_def daemon_get_msg_def drain_def Let_def split: list.split)

lemma job_kept_files [simp]:
  "cw_job (snd (write_fd_to_server server u rs b s)) = cw_job s" "cw_job (snd (receive_file server out s)) = cw_job s"
  "cw_job (snd (show_result y output c s)) = cw_job s"
proof -
  show "cw_job (snd (write_fd_to_server server u rs b s)) = cw_job s"
    using write_fd_same [of server u rs b s] by (simp add: cw_same_def prod_eq_iff)
  show "cw_job (snd (receive_file server out s)) = cw_job s"
    using receive_file_result(2) [of server out s] by (simp add: prod_eq_iff)
  show "cw_job (snd (show_result y output c s)) = cw_job s"
    by (simp add: show_result_def)
qed

lemma transfer_env_job [simp]: "cw_job (snd (transfer_env y p h v s)) = cw_job s"
  by (simp add: transfer_env_def Let_def split_beta split: option.split sum.split msg.split bool.split)

lemma send_source_job [simp]: "cw_job (snd (send_source y pre s)) = cw_job s"
  by (simp add: send_source_def Let_def split_beta split: option.split sum.split cpp_result.split)

lemma await_result_job [simp]: "cw_job (snd (await_result server s)) = cw_job s"
  by (simp add: await_result_def Let_def split_beta split: option.split msg.split)

lemma receive_files_job [simp]: "cw_job (snd (receive_files y server c s)) = cw_job s"
  by (simp add: receive_files_def Let_def split_beta split: sum.split)

lemma old_objc_flags_same: "same_compilation j (old_objc_flags p j)"
  by (auto simp: old_objc_flags_def intro!: same_compilation_append)

lemma job_keptD:
  "transfer_env y p h v s = (x, s') \<Longrightarrow> cw_job s' = cw_job s" "cs_send m s = (b, s') \<Longrightarrow> cw_job s' = cw_job s"
  "send_source y pre s = (z, s') \<Longrightarrow> cw_job s' = cw_job s" "await_result server s = (c, s') \<Longrightarrow> cw_job s' = cw_job s"
  "show_result y output c1 s = (x, s') \<Longrightarrow> cw_job s' = cw_job s" "receive_files y server c1 s = (x, s') \<Longrightarrow> cw_job s' = cw_job s"
  using transfer_env_job [of y p h v s] job_kept(1) [of m s] send_source_job [of y pre s] await_result_job [of server s]
    job_kept_files(3) [of y "output" c1 s] receive_files_job [of y server c1 s] by simp_all

lemma converse_job: "same_compilation (cw_job s) (cw_job (snd (converse y p usecs vf pre output s)))"
proof -
  have "cw_job s' = cw_job s \<or> cw_job s' = old_objc_flags p (cw_job s)" if "converse y p usecs vf pre output s = (r, s')" for r s'
    using that unfolding converse_def Let_def
    by (auto split: prod.splits sum.splits option.splits if_splits dest!: job_keptD)
  then show ?thesis
    using old_objc_flags_same [of "cw_job s" p] same_compilation_refl [of "cw_job s"] by (metis prod.collapse)
qed

lemma build_remote_int_job: "same_compilation (cw_job s) (cw_job (snd (build_remote_int y usecs environment vf pre output s)))"
  using converse_job [of "s\<lparr>cw_job := (cw_job s)\<lparr>m_id := ucs_job_id usecs, m_environment_version := environment\<rparr>\<rparr>"]
  by (simp add: build_remote_int_def Let_def split_beta split: sum.split option.split client_exn.split)

lemma build_once_job: "same_compilation (cw_job s) (cw_job (snd (build_once y l niceness envs s)))"
proof -
  have m: "same_compilation (cw_job t) (cw_job t')" if "maybe_build_local env l u t = (r, t')" for env u t r t'
    using that by (auto simp: maybe_build_local_def Let_def split_beta split: if_splits option.splits)
  have g: "cw_job t' = cw_job t" if "get_server n t = (r, t')" for n t r t'
    using that by (auto simp: get_server_def Let_def split_beta split: option.splits msg.splits)
  have d: "cw_job t' = cw_job t" if "daemon_send a t = (r, t')" for a t r t'
    using that job_kept(4) [of a t] by simp
  have i: "same_compilation (cw_job t) (cw_job t')" if "build_remote_int y u e v pre z t = (r, t')" for u e v pre z t r t'
    using that build_remote_int_job [of t y u e v pre z] by simp
  obtain r s' where r: "build_once y l niceness envs s = (r, s')"
    by fastforce
  have "same_compilation (cw_job s) (cw_job s')"
    using r by (auto simp: build_once_def Let_def split: prod.splits sum.splits option.splits if_splits bool.splits
        dest!: d g m i intro: same_compilation_trans)
  then show ?thesis
    by (simp add: r)
qed

section \<open>The conversation with a server that gives the status\<close>

text \<open>Wait statuses as the system makes them.\<close>

definition proper_status :: "wait_status \<Rightarrow> bool" where
  "proper_status st = (case st of Exited c \<Rightarrow> c < 256 | Signaled k \<Rightarrow> 0 < k \<and> k < 128 | NoExit \<Rightarrow> True)"

text \<open>
  The status \<open>r\<close> of the job is the answer of a server, in a run from \<open>s\<close> to \<open>s'\<close>: after what prepares the environment, and no other job,
  the server has got the job and everything the preprocessor has written, the preprocessor having ended with 0. The first result it has
  sent has this status. If it is 0 the output file is what the server has sent next, up to the end of the file, and else no file has changed.
\<close>

definition answered_by_server :: "remote_sys \<Rightarrow> compile_job \<Rightarrow> cw \<Rightarrow> cw \<Rightarrow> u32 \<Rightarrow> bool" where
  "answered_by_server y job s s' r \<longleftrightarrow> (\<exists>prep verdict k reads st chunks c R.
     cw_sent s' = cw_sent s @ prep @ CompileFileMsg (sent_job y k) # map file_chunk chunks @ [EndMsg]
     \<and> (\<forall>j. CompileFileMsg j \<notin> set prep) \<and> same_compilation job k
     \<and> rs_cpp y = CppRun reads st \<and> shell_exit_status st = 0 \<and> concat chunks = content reads
     \<and> cw_replies s = verdict @ Some (CompileResultMsg c) # R \<and> verdict \<in> {[], [Some (VerifyEnvResultMsg True)]} \<and> cr_status c = r
     \<and> (if r = 0 then cw_files s' (m_output_file job) = Some (source_of (arrived R)) \<and> ended (arrived R) else cw_files s' = cw_files s))"

text \<open>What the client keeps of its conversation with the server, and the files, while it talks to its daemon.\<close>

definition remote_same :: "cw \<Rightarrow> cw \<Rightarrow> bool" where
  "remote_same s t \<longleftrightarrow> cw_replies t = cw_replies s \<and> cw_sent t = cw_sent s \<and> cw_files t = cw_files s"

lemma remote_same_refl [simp]: "remote_same s s" "remote_same s (s\<lparr>cw_job := j\<rparr>)"
  by (simp_all add: remote_same_def)

lemma remote_same_trans: "remote_same s t \<Longrightarrow> remote_same t u \<Longrightarrow> remote_same s u"
  by (simp add: remote_same_def)

lemma remote_same_daemon:
  "remote_same s (snd (daemon_send m s))" "remote_same s (snd (daemon_get_msg s))"
  by (simp_all add: remote_same_def daemon_send_def daemon_get_msg_def Let_def split: list.split)

lemma remote_sameD:
  "daemon_send m s = (b, t) \<Longrightarrow> remote_same s t" "daemon_get_msg s = (z, t) \<Longrightarrow> remote_same s t"
  "get_server n s = (r, t) \<Longrightarrow> remote_same s t"
proof -
  show d: "remote_same s t" if "daemon_send m s = (b, t)" for m s b t
    using remote_same_daemon(1) [of s m] that by simp
  show g: "remote_same s t" if "daemon_get_msg s = (z, t)" for s z t
    using remote_same_daemon(2) [of s] that by simp
  show "remote_same s t" if "get_server n s = (r, t)"
    using that by (auto simp: get_server_def Let_def split: prod.splits option.splits msg.splits dest: g)
qed

lemma answered_same:
  assumes same: "remote_same s t" "remote_same t' u" and "answered_by_server y k t t' r" and "same_compilation j k"
  shows "answered_by_server y j s u r"
proof -
  have "m_output_file k = m_output_file j"
    using assms(4) by (simp add: same_compilation_def)
  then have eq: "answered_by_server y k t t' r = answered_by_server y k s u r"
    using same by (simp add: answered_by_server_def remote_same_def)
  have "m_output_file j = m_output_file k" and trans: "\<And>i. same_compilation k i \<Longrightarrow> same_compilation j i"
    using assms(4) same_compilation_trans by (auto simp: same_compilation_def)
  then show ?thesis
    using assms(3) unfolding eq unfolding answered_by_server_def by (elim exE conjE) (intro exI conjI, assumption+, simp_all)
qed

text \<open>The transfer of an environment.\<close>

lemma transfer_env_said:
  assumes "transfer_env y p h v s = (Inr u, s')"
  shows "\<exists>prep verdict. cw_sent s' = cw_sent s @ prep \<and> (\<forall>j. CompileFileMsg j \<notin> set prep)
    \<and> cw_replies s = verdict @ cw_replies s' \<and> verdict \<in> {[], [Some (VerifyEnvResultMsg True)]}
    \<and> cw_files s' = cw_files s \<and> cw_job s' = cw_job s"
proof -
  have job: "cw_job s' = cw_job s"
    using transfer_env_job [of y p h v s] assms by simp
  define m1 where "m1 = EnvTransferMsg \<lparr>et_name = m_environment_version (cw_job s), et_target = m_target_platform (cw_job s)\<rparr>"
  define m4 where "m4 = VerifyEnvMsg \<lparr>ve_environment = m_environment_version (cw_job s), ve_target = m_target_platform (cw_job s)\<rparr>"
  have no1: "\<forall>j. CompileFileMsg j \<noteq> m1" and no4: "\<forall>j. CompileFileMsg j \<noteq> m4"
    by (simp_all add: m1_def m4_def)
  obtain s1 where m1: "cs_send m1 s = (True, s1)"
    using assms by (cases "cs_send m1 s"; cases "fst (cs_send m1 s)") (auto simp: transfer_env_def Let_def m1_def split: if_splits)
  obtain reads where reads: "rs_version_file y = Some reads"
    using assms m1 by (auto simp: transfer_env_def Let_def m1_def split: if_splits option.splits)
  obtain s2 where w: "write_fd_to_server (rs_server_name y) False reads [] s1 = (Inr (), s2)"
    using assms m1 reads by (cases "write_fd_to_server (rs_server_name y) False reads [] s1"; cases "fst (write_fd_to_server (rs_server_name y) False reads [] s1)")
      (auto simp: transfer_env_def Let_def m1_def split: if_splits)
  obtain s3 where s3: "cs_send EndMsg s2 = (True, s3)"
    using assms m1 reads w by (cases "cs_send EndMsg s2"; cases "fst (cs_send EndMsg s2)") (auto simp: transfer_env_def Let_def m1_def split: if_splits)
  obtain ok4 s4 where s4: "cs_send m4 s3 = (ok4, s4)"
    by fastforce
  obtain m s5 where s5: "cs_get_msg s4 = (m, s5)"
    by fastforce
  have "s' = s3 \<or> ok4 \<and> m = Some (VerifyEnvResultMsg True) \<and> s' = s5"
    using assms m1 reads w s3 s4 s5
    by (auto simp: transfer_env_def Let_def m1_def m4_def split: if_splits option.splits msg.splits bool.splits)
  then have s': "s' = s3 \<or> cs_send m4 s3 = (True, s4) \<and> cs_get_msg s4 = (Some (VerifyEnvResultMsg True), s')"
    using s4 s5 by auto
  obtain cs where cs: "cw_sent s2 = cw_sent s1 @ map file_chunk cs" "cw_replies s2 = cw_replies s1"
    using write_fd_sends [OF w] by (auto simp: buffer_size_def)
  note a1 = cs_send_same [OF m1] and a2 = write_fd_same [OF w] and a3 = cs_send_same [OF s3]
  have 3: "cw_sent s3 = cw_sent s @ m1 # map file_chunk cs @ [EndMsg]" "cw_replies s3 = cw_replies s" "cw_files s3 = cw_files s"
    using a1 a2 a3 cs by (simp_all add: cw_same_def)
  have no: "\<forall>j. CompileFileMsg j \<notin> set (m1 # map file_chunk cs @ [EndMsg])"
    using no1 by (auto simp: file_chunk_def)
  from s' show ?thesis
  proof (elim disjE exE conjE)
    assume "s' = s3"
    then show ?thesis
      using 3 no job by (intro exI [of _ "m1 # map file_chunk cs @ [EndMsg]"] exI [of _ "[]"]) simp
  next
    assume m4: "cs_send m4 s3 = (True, s4)" and g: "cs_get_msg s4 = (Some (VerifyEnvResultMsg True), s')"
    have "cw_replies s4 = Some (VerifyEnvResultMsg True) # cw_replies s'"
      using g by (auto simp: cs_get_msg_def split: list.splits)
    then show ?thesis
      using 3 no job no4 cs_send_same [OF m4] cs_get_msg_same [OF g]
      by (intro exI [of _ "m1 # map file_chunk cs @ [EndMsg, m4]"] exI [of _ "[Some (VerifyEnvResultMsg True)]"]) (auto simp: cw_same_def)
  qed
qed

text \<open>A status of the preprocessor that \<open>build_remote_int\<close> returns is not one that ends the client with 0.\<close>

lemma shell_exit_status_zero:
  assumes "proper_status st" and "unat (shell_exit_status st) mod 256 = 0"
  shows "st = Exited 0"
proof (cases st)
  case (Exited c)
  then show ?thesis
    using assms by (simp add: proper_status_def shell_exit_status_def unat_of_nat_u32)
next
  case (Signaled k)
  then have k: "0 < k" "k < 128"
    using assms(1) by (simp_all add: proper_status_def)
  have "of_nat k + 128 = (of_nat (k + 128) :: u32)"
    by simp
  then have "unat (of_nat k + 128 :: u32) = k + 128"
    using k(2) unat_of_nat_u32 [of "k + 128"] by simp
  then show ?thesis
    using assms(2) Signaled k by (simp add: shell_exit_status_def)
next
  case NoExit
  have "unat (-1 :: u32) mod 256 = 255"
    by (simp add: unsigned_minus_1_eq_mask mask_eq_exp_minus_1)
  then show ?thesis
    using assms(2) NoExit by (simp add: shell_exit_status_def)
qed

definition proper_cpp :: "cpp_result \<Rightarrow> bool" where
  "proper_cpp z = (case z of CppRun _ st \<Rightarrow> proper_status st | _ \<Rightarrow> True)"

lemma send_source_status:
  assumes "proper_cpp (rs_cpp y)" and "unat r mod 256 = 0"
  shows "send_source y False s \<noteq> (Inr (Some r), s')"
proof
  assume a: "send_source y False s = (Inr (Some r), s')"
  have "r \<noteq> EXIT_DISTCC_FAILED"
    using assms(2) by (auto simp: EXIT_DISTCC_FAILED_def)
  then obtain reads st where st: "rs_cpp y = CppRun reads st" "shell_exit_status st = r" "r \<noteq> 0"
    using a by (auto simp: send_source_def Let_def split: cpp_result.splits prod.splits if_splits sum.splits)
  then have "st = Exited 0"
    using shell_exit_status_zero assms by (simp add: proper_cpp_def)
  then show False
    using st by (simp add: shell_exit_status_def)
qed

lemma converse_answered:
  assumes "converse y p usecs vf False output s = (Inr r, s')" and "proper_cpp (rs_cpp y)" and "unat r mod 256 = 0"
    and "\<not> suffix ''.dwo'' (m_output_file (cw_job s))" and "\<not> suffix ''.dwo_icetmp'' (m_output_file (cw_job s))"
  shows "answered_by_server y (cw_job s) s s' r"
proof -
  obtain prep verdict t u where t: "cw_sent t = cw_sent s @ prep" "\<forall>j. CompileFileMsg j \<notin> set prep" "cw_replies s = verdict @ cw_replies t"
      "verdict \<in> {[], [Some (VerifyEnvResultMsg True)]}" "cw_files t = cw_files s" "cw_job t = cw_job s"
    and run: "converse y p u vf False output t = (Inr r, s')" and u: "ucs_got_env u \<noteq> 0"
  proof (cases "ucs_got_env usecs = 0")
    case False
    then show thesis
      using that [of s "[]" "[]" usecs] assms(1) by simp
  next
    case True
    obtain x s1 where t: "transfer_env y p (ucs_hostname usecs) vf s = (Inr x, s1)"
      using assms(1) True by (cases "transfer_env y p (ucs_hostname usecs) vf s"; cases "fst (transfer_env y p (ucs_hostname usecs) vf s)")
        (auto simp: converse_def)
    have "converse y p usecs vf False output s = converse y p (usecs\<lparr>ucs_got_env := 1\<rparr>) vf False output s1"
      unfolding converse_def by (simp only: True t) simp
    moreover obtain prep verdict where "cw_sent s1 = cw_sent s @ prep \<and> (\<forall>j. CompileFileMsg j \<notin> set prep)
        \<and> cw_replies s = verdict @ cw_replies s1 \<and> verdict \<in> {[], [Some (VerifyEnvResultMsg True)]} \<and> cw_files s1 = cw_files s \<and> cw_job s1 = cw_job s"
      using transfer_env_said [OF t] by blast
    ultimately show thesis
      using that [of s1 prep verdict "usecs\<lparr>ucs_got_env := 1\<rparr>"] assms(1) by simp
  qed
  from converse_done [OF run u send_source_status [OF assms(2,3)]] assms(4,5) t(6) obtain reads cs c R where
    r: "source_reads y False reads" "concat cs = content reads"
      "cw_sent s' = cw_sent t @ CompileFileMsg (sent_job y (old_objc_flags p (cw_job t))) # map file_chunk cs @ [EndMsg]"
      "cw_replies t = Some (CompileResultMsg c) # R" "cr_status c = r"
      "if r = 0 then cw_files s' (m_output_file (cw_job t)) = Some (source_of (arrived R)) \<and> ended (arrived R) else cw_files s' = cw_files t"
    by metis
  from r(1) obtain st where st: "rs_cpp y = CppRun reads st" "shell_exit_status st = 0"
    by (auto simp: source_reads_def)
  show ?thesis
    unfolding answered_by_server_def
    by (rule exI [of _ prep], rule exI [of _ verdict], rule exI [of _ "old_objc_flags p (cw_job s)"], rule exI [of _ reads],
        rule exI [of _ st], rule exI [of _ cs], rule exI [of _ c], rule exI [of _ R],
        use t r(2-6) st old_objc_flags_same [of "cw_job s" p] in \<open>simp cong: if_cong\<close>)
qed

lemma build_remote_int_answered:
  assumes "build_remote_int y usecs e vf False output s = (Inr r, s')" and "proper_cpp (rs_cpp y)" and "unat r mod 256 = 0"
    and "\<not> suffix ''.dwo'' (m_output_file (cw_job s))" and "\<not> suffix ''.dwo_icetmp'' (m_output_file (cw_job s))"
  shows "answered_by_server y (cw_job s) s s' r"
proof -
  let ?s = "s\<lparr>cw_job := (cw_job s)\<lparr>m_id := ucs_job_id usecs, m_environment_version := e\<rparr>\<rparr>"
  obtain p where "converse y p usecs vf False output ?s = (Inr r, s')"
    using assms(1) by (auto simp: build_remote_int_def Let_def split: option.splits prod.splits sum.splits client_exn.splits)
  from converse_answered [OF this assms(2,3)] assms(4,5) have "answered_by_server y (cw_job ?s) ?s s' r"
    by simp
  from answered_same [OF _ _ this, of s s' "cw_job s"] show ?thesis
    by simp
qed

lemma build_once_result:
  assumes "build_once y l niceness envs s = (Inr r, s')"
  shows "(\<exists>run. l = Some run \<and> r = lr_status run)
    \<or> (\<exists>usecs e vf t. build_remote_int y usecs e vf False True t = (Inr r, s') \<and> same_compilation (cw_job s) (cw_job t) \<and> remote_same s t)"
proof -
  obtain envs1 vm vfm where rip: "rip_out_paths envs = (envs1, vm, vfm)"
    by (metis prod_cases3)
  obtain getcs where getcs: "request_msg y envs1 (fake_filename (rs_env y) (cw_job s)) 1 (requiredRemoteFeatures (rs_env y)) niceness (cw_job s) = Some getcs"
    using assms rip by (auto simp: build_once_def split: if_splits option.splits)
  obtain ok s1 where s1: "daemon_send (GetCSMsg getcs) s = (ok, s1)"
    by fastforce
  obtain u s2 where u: "get_server (nat niceness) s1 = (Inr u, s2)"
    using assms rip getcs s1 by (auto simp: build_once_def split: if_splits prod.splits sum.splits)
  obtain built ret s3 where m: "maybe_build_local (rs_env y) l u s2 = (Inr (built, ret), s3)"
    using assms rip getcs s1 u by (auto simp: build_once_def split: if_splits prod.splits sum.splits)
  have job: "cw_job s2 = cw_job s" and same: "remote_same s s2"
    using u s1 job_kept(4) [of "GetCSMsg getcs" s] job_kept(5) [of s1] remote_same_trans [OF remote_sameD(1) [OF s1] remote_sameD(3) [OF u]]
    by (auto simp: get_server_def Let_def split_beta split: option.splits msg.splits)
  show ?thesis
  proof (cases built)
    case True
    then have "\<exists>run. l = Some run \<and> ret = lr_status run"
      using m by (auto simp: maybe_build_local_def Let_def split: if_splits option.splits prod.splits)
    then show ?thesis
      using assms rip getcs s1 u m True by (auto simp: build_once_def split: if_splits)
  next
    case False
    then have "same_compilation (cw_job s2) (cw_job s3) \<and> remote_same s2 s3"
      using m by (auto simp: maybe_build_local_def Let_def remote_same_def daemon_send_def split: if_splits option.splits)
    moreover have "build_remote_int y u (vm (ucs_host_platform u)) (vfm (ucs_host_platform u)) False True s3 = (Inr r, s')"
      using assms rip getcs s1 u m False by (auto simp: build_once_def split: if_splits)
    ultimately show ?thesis
      using job same remote_same_trans by metis
  qed
qed

section \<open>When the client ends with 0\<close>

definition proper_runs :: "main_sys \<Rightarrow> bool" where
  "proper_runs y \<longleftrightarrow> (\<forall>env argv st. ms_run y env argv = Runs st \<longrightarrow> proper_status st) \<and> (\<forall>env argv. proper_cpp (ms_cpp y env argv))"

text \<open>The compiler has been run on this machine with the command of the job, perhaps with more flags for a server, and has ended with 0.\<close>

definition compiled_here :: "main_sys \<Rightarrow> compile_job \<Rightarrow> bool" where
  "compiled_here y job \<longleftrightarrow> (\<exists>c k. find_compiler (ms_env y) job = Some c \<and> same_compilation job k
     \<and> ms_run y (dcc_increment_safeguard (local_step job) (ms_env y)) (local_argv c k) = Runs (Exited 0))"

text \<open>
  A server has compiled, and has reported 0, or another multiple of 256: the exit code of a process holds the last eight bits of the status
  only.
\<close>

definition compiled_there :: "main_sys \<Rightarrow> compile_job \<Rightarrow> cw \<Rightarrow> cw \<Rightarrow> bool" where
  "compiled_there y job s s' \<longleftrightarrow> (\<exists>r. unat r mod 256 = 0 \<and> answered_by_server (ms_remote y) job s s' r)"

lemma same_compiled_here: "same_compilation job k \<Longrightarrow> compiled_here y k \<Longrightarrow> compiled_here y job"
  unfolding compiled_here_def using same_find_compiler same_local_step same_compilation_trans by metis

lemma exit_with_zero [simp]: "exit_with r = Ends (Exited 0) \<longleftrightarrow> unat r mod 256 = 0"
  by (simp add: exit_with_def)

lemma compiled_there_same:
  assumes "remote_same s t" and "compiled_there y job t s'"
  shows "compiled_there y job s s'"
proof -
  obtain r where "unat r mod 256 = 0" and r: "answered_by_server (ms_remote y) job t s' r"
    using assms(2) unfolding compiled_there_def by (elim exE conjE)
  moreover have "answered_by_server (ms_remote y) job s s' r"
    by (rule answered_same [OF assms(1) remote_same_refl(1) r]) simp_all
  ultimately show ?thesis
    unfolding compiled_there_def by (intro exI [of _ r] conjI)
qed

lemma run_status_zero:
  assumes "proper_runs y" and "unat (shell_exit_status (run_status (ms_run y env argv))) mod 256 = 0"
  shows "ms_run y env argv = Runs (Exited 0)"
proof (cases "ms_run y env argv")
  case (Runs st)
  then have "proper_status st"
    using assms(1) unfolding proper_runs_def by blast
  then show ?thesis
    using shell_exit_status_zero assms(2) Runs by (simp add: run_status_def)
qed (use assms(2) in \<open>simp_all add: run_status_def shell_exit_status_def\<close>)

lemma build_local_zero:
  assumes "proper_runs y" and "build_local y d s = (z, s')" and "z = Inl (Ends (Exited 0)) \<or> (\<exists>r. z = Inr r \<and> unat r mod 256 = 0)"
  shows "compiled_here y (cw_job s)"
proof -
  let ?run = "\<lambda>c. ms_run y (dcc_increment_safeguard (local_step (cw_job s)) (ms_env y)) (local_argv c (cw_job s))"
  obtain c where c: "find_compiler (ms_env y) (cw_job s) = Some c"
    using assms(2,3) by (auto simp: build_local_def Let_def split: option.splits)
  have "run_status (?run c) = Exited 0 \<or> unat (shell_exit_status (run_status (?run c))) mod 256 = 0"
    using assms(2,3) c
    by (auto simp: build_local_def Let_def EXIT_NO_SUCH_FILE_def EXIT_DISTCC_FAILED_def shell_exit_status_def split: if_splits prod.splits)
  then have "?run c = Runs (Exited 0)"
    using run_status_zero [OF assms(1)] by (auto simp: shell_exit_status_def)
  then show ?thesis
    using c same_compilation_refl unfolding compiled_here_def by blast
qed

lemma run_locally_zero:
  assumes "proper_runs y" and "run_locally y d s = (Ends (Exited 0), s')"
  shows "compiled_here y (cw_job s)"
  using assms(2) build_local_zero [OF assms(1), of d s]
  by (auto simp: run_locally_def split: prod.splits sum.splits)

lemma local_job_zero:
  assumes "proper_runs y" and "local_job y f s = (Ends (Exited 0), s')"
  shows "compiled_here y (cw_job s)"
proof -
  obtain o1 where o1: "get_absfilename (get_cwd (ms_env y)) (m_output_file (cw_job s)) = Some o1"
    using assms(2) by (auto simp: local_job_def split: option.splits)
  obtain d t where "run_locally y d t = (Ends (Exited 0), s')" "cw_job t = cw_job s"
    using assms(2) o1 by (auto simp: local_job_def Let_def split_beta split: option.splits msg.splits if_splits)
  then show ?thesis
    using run_locally_zero [OF assms(1)] by metis
qed

lemma after_exception_zero:
  assumes "proper_runs y" and "after_exception y s = (Ends (Exited 0), s')"
  shows "compiled_here y (cw_job s)"
proof (cases "get_local_daemon (ms_env y) (ms_reconnect y)")
  case (Inl code)
  then have "code = EXIT_TEST_SOCKET_ERROR"
    by (auto simp: get_local_daemon_def split: option.splits)
  then show ?thesis
    using assms(2) Inl by (simp add: after_exception_def EXIT_TEST_SOCKET_ERROR_def)
next
  case (Inr d)
  then show ?thesis
    using assms(2) run_locally_zero [OF assms(1), of False s s']
      local_job_zero [OF assms(1), of False "s\<lparr>cw_daemon_sends := fst (ms_second y), cw_daemon_replies := snd (ms_second y)\<rparr>" s']
    by (cases d) (simp_all add: after_exception_def)
qed

lemma build_remote_once:
  assumes "repeat_rate env \<le> ms_random y"
  shows "build_remote (ms_remote y) rp l (ms_random y) (repeat_rate env) n envs s = (case build_once (ms_remote y) l n envs s of (r, s1) \<Rightarrow> (r, [], s1))"
  using assms by (simp add: build_remote_def)

lemma try_remote_zero:
  assumes "proper_runs y" and "try_remote y envs s = (Ends (Exited 0), ops, s')" and cpp: "proper_cpp (rs_cpp (ms_remote y))" and rate: "repeat_rate (ms_env y) \<le> ms_random y"
    and names: "\<not> suffix ''.dwo'' (m_output_file (cw_job s))" "\<not> suffix ''.dwo_icetmp'' (m_output_file (cw_job s))"
  shows "compiled_here y (cw_job s) \<or> compiled_there y (cw_job s) s s'"
proof -
  obtain r s1 where b: "build_once (ms_remote y) (local_run_of y s) (ms_niceness y) envs s = (r, s1)"
    by fastforce
  show ?thesis
  proof (cases r)
    case (Inr ret)
    then have ret: "unat ret mod 256 = 0" and s': "s' = (if ret = 0 then snd (daemon_send EndMsg s1) else s1)"
      using assms(2) b by (simp_all add: try_remote_def build_remote_once [OF rate])
    then have same': "remote_same s1 s'"
      using remote_same_daemon(1) by simp
    from build_once_result [OF b [unfolded Inr]] show ?thesis
    proof (elim disjE exE conjE)
      fix run
      assume "local_run_of y s = Some run" "ret = lr_status run"
      then obtain t where "build_local y True s = (Inr ret, t)"
        by (auto simp: local_run_of_def split: prod.splits sum.splits)
      from build_local_zero [OF assms(1) this] ret show ?thesis
        by simp
    next
      fix usecs e vf t
      assume t: "build_remote_int (ms_remote y) usecs e vf False True t = (Inr ret, s1)" "same_compilation (cw_job s) (cw_job t)" "remote_same s t"
      have "m_output_file (cw_job t) = m_output_file (cw_job s)"
        using t(2) by (simp add: same_compilation_def)
      then have "answered_by_server (ms_remote y) (cw_job t) t s1 ret"
        using build_remote_int_answered [OF t(1) cpp ret] names by simp
      from answered_same [OF t(3) same' this t(2)] have "compiled_there y (cw_job s) s s'"
        using ret unfolding compiled_there_def by (intro exI [of _ ret]) simp
      then show ?thesis ..
    qed
  next
    case (Inl x)
    have same: "same_compilation (cw_job s) (cw_job s1)"
      using build_once_job [of s "ms_remote y" "local_run_of y s" "ms_niceness y" envs] b by simp
    obtain s2 where "after_exception y s1 = (Ends (Exited 0), s2)"
      using assms(2) b Inl by (cases x) (auto simp: try_remote_def build_remote_once [OF rate] split: prod.splits)
    then show ?thesis
      using after_exception_zero [OF assms(1)] same_compiled_here [OF same] by blast
  qed
qed

lemma choose_environments_job:
  assumes "choose_environments y p x s = Some (envs, l, s')"
  shows "cw_job s' = cw_job s" and "remote_same s s'"
  using assms job_kept(4) job_kept(5) remote_same_daemon remote_same_trans [OF remote_same_daemon(1) remote_same_daemon(2)]
  by (auto simp: choose_environments_def native_environment_def Let_def split_beta split: option.splits if_splits)

lemma remote_parts_simps [simp]:
  "ms_env (remote_parts y sc) = ms_env y" "ms_run (remote_parts y sc) = ms_run y" "ms_random (remote_parts y sc) = ms_random y"
  "proper_runs (remote_parts y sc) = proper_runs y" "compiled_here (remote_parts y sc) = compiled_here y"
  "proper_runs y \<Longrightarrow> proper_cpp (rs_cpp (ms_remote (remote_parts y sc)))"
  by (simp_all add: remote_parts_def proper_runs_def compiled_here_def fun_eq_iff)

lemma compile_with_daemon_zero:
  assumes "proper_runs y" and "compile_with_daemon y p sc s = (Ends (Exited 0), ops, s')" and "repeat_rate (ms_env y) \<le> ms_random y"
    and cpp: "proper_cpp (rs_cpp (ms_remote y))"
    and "\<not> suffix ''.dwo'' (m_output_file (cw_job s))" "\<not> suffix ''.dwo_icetmp'' (m_output_file (cw_job s))"
  shows "compiled_here y (cw_job s) \<or> \<not> argv_result sc \<and> compiled_there y (cw_job s) s s'"
proof -
  define local0 where "local0 = (argv_result sc \<or> (case ce_getenv (ms_env y) ''ICECC'' of Some v \<Rightarrow> strcasecmp_eq v ''no'' | None \<Rightarrow> False))"
  obtain x missing where x: "extra_files (ms_env y) (rs_exists (ms_remote y)) (sc_extrafiles sc) = Some (x, missing)"
    using assms(2) by (auto simp: compile_with_daemon_def Let_def split: option.splits)
  obtain envs l s1 where c: "(if local0 \<or> missing then Some ([], True, s) else choose_environments y p x s) = Some (envs, l, s1)"
    using assms(2) x unfolding compile_with_daemon_def Let_def local0_def [symmetric] by (auto split: option.splits)
  have job: "cw_job s1 = cw_job s" and same: "remote_same s s1"
    using c choose_environments_job by (auto split: if_splits)
  have eq: "compile_with_daemon y p sc s = (if l then (case local_job y False s1 of (z, s2) \<Rightarrow> (z, [], s2)) else try_remote y envs s1)"
    unfolding compile_with_daemon_def Let_def local0_def [symmetric] using x c by simp
  show ?thesis
  proof (cases l)
    case True
    then obtain s2 where "local_job y False s1 = (Ends (Exited 0), s2)"
      using assms(2) unfolding eq by (auto split: prod.splits)
    then show ?thesis
      using local_job_zero [OF assms(1)] job by metis
  next
    case False
    then have "\<not> argv_result sc"
      using c by (auto simp: local0_def split: if_splits)
    moreover have "try_remote y envs s1 = (Ends (Exited 0), ops, s')"
      using assms(2) False unfolding eq by simp
    moreover have "compiled_here y (cw_job s) \<or> compiled_there y (cw_job s) s1 s'"
      using try_remote_zero [OF assms(1) calculation(2) cpp assms(3)] assms(5,6) unfolding job by simp
    ultimately show ?thesis
      using compiled_there_same [OF same] by blast
  qed
qed

section \<open>The client that runs any command\<close>

lemma scan_icerun:
  "scan_argv env True cpp args st = Some (st\<lparr>sc_args := sc_args st @ map (\<lambda>a. (a, Arg_Local)) args\<rparr>)"
  by (induction args arbitrary: st) (simp_all add: add_arg_def append_arg_def)

lemma analyse_icerun:
  assumes "m_compiler_name job \<noteq> ''''"
  shows "\<exists>sc. analyse_argv env argv job True x so = Some sc \<and> argv_result sc \<and> sc_extrafiles sc = x \<and> m_flags (sc_job sc) = map (\<lambda>a. (a, Arg_Local)) (drop 2 argv)
    \<and> m_input_file (sc_job sc) = '''' \<and> m_output_file (sc_job sc) = '''' \<and> m_language (sc_job sc) = Lang_Custom
    \<and> m_compiler_name (sc_job sc) = find_basename (m_compiler_name job) \<and> m_compiler_pathname (sc_job sc) = m_compiler_pathname job"
proof -
  define j where "j = job\<lparr>m_compiler_name := find_basename (m_compiler_name job), m_language := Lang_Custom\<rparr>"
  define st where "st = (scan_init True j x so)\<lparr>sc_args := map (\<lambda>a. (a, Arg_Local)) (drop 2 argv)\<rparr>"
  have mode: "choose_mode st = st"
    by (simp add: choose_mode_def st_def scan_init_def force_local_def)
  define st2 where "st2 = st\<lparr>sc_job := j\<lparr>m_input_file := ''''\<rparr>\<rparr>"
  have input: "choose_input st = Some st2"
    by (simp add: choose_input_def st_def st2_def scan_init_def)
  have same: "check_output env st2 = st2" "add_color env True st2 = st2" "sc_always_local st2"
    "sc_wunused_macros st2 = False" "sc_seen_imacros st2 = False" "sc_seen_pedantic st2 = False"
    by (simp_all add: check_output_def add_color_def st2_def st_def scan_init_def)
  then have rest: "block_rewrite st2 = st2" "add_directives_only env st2 = st2" "add_target env st2 = Some st2" "replace_native env st2 = Some st2"
    by (simp_all add: block_rewrite_def add_directives_only_def add_target_def replace_native_def)
  have "analyse_argv env argv job True x so = Some (st2\<lparr>sc_job := (sc_job st2)\<lparr>m_flags := sc_args st2, m_output_file := sc_ofile st2\<rparr>\<rparr>)"
    using assms mode input same rest
    by (simp add: analyse_argv_def analyze_program_def scan_icerun Let_def flip: j_def) (simp add: st_def scan_init_def)
  then show ?thesis
    using same(3) by (auto simp: argv_result_def st2_def st_def scan_init_def j_def)
qed

lemma build_local_custom:
  assumes "find_compiler (ms_env y) (cw_job s) = Some c" and "c \<noteq> ''''" and "m_language (cw_job s) = Lang_Custom" and "False \<notin> set (cw_locks s)"
    and "ms_fork y"
    and "run_status (ms_run y (dcc_increment_safeguard SafeguardStepCustom (ms_env y)) (local_argv c (cw_job s))) = Exited n" and "n < 256"
  shows "\<exists>s'. run_locally y d s = (Ends (Exited n), s')"
proof -
  have "unat (of_nat n :: u32) = n"
    using assms(7) by (simp add: unat_of_nat_u32)
  then show ?thesis
    using assms next_ok_all [OF assms(4)]
    by (cases d) (simp_all add: run_locally_def build_local_def Let_def local_step_def lock_host_def shell_exit_status_def exit_with_def)
qed

lemma local_job_custom:
  assumes "find_compiler (ms_env y) (cw_job s) = Some c" and "c \<noteq> ''''" and "m_language (cw_job s) = Lang_Custom" and "False \<notin> set (cw_locks s)"
    and "ms_fork y" and "m_output_file (cw_job s) = ''''"
    and "run_status (ms_run y (dcc_increment_safeguard SafeguardStepCustom (ms_env y)) (local_argv c (cw_job s))) = Exited n" and "n < 256"
  shows "\<exists>s'. local_job y f s = (Ends (Exited n), s')"
proof -
  have run: "\<exists>s'. run_locally y d t = (Ends (Exited n), s')" if "cw_job t = cw_job s" "cw_locks t = cw_locks s" for d t
    using build_local_custom [of y t c n d] assms that by simp
  obtain m where m: "local_job y f s = (let (ok, s1) = daemon_send m s; (startme, s2) = (if ok then daemon_get_msg s1 else (None, s1))
      in (case startme of Some (JobLocalBeginMsg _) \<Rightarrow> run_locally y True s2 | _ \<Rightarrow> run_locally y False s2))"
    using assms(6) by (simp add: local_job_def get_absfilename_def)
  define s1 where "s1 = snd (daemon_send m s)"
  define x where "x = (if fst (daemon_send m s) then daemon_get_msg s1 else (None, s1))"
  have "cw_job (snd x) = cw_job s" "cw_locks (snd x) = cw_locks s"
    by (simp_all add: x_def s1_def daemon_send_def daemon_get_msg_def Let_def split: list.split)
  then have "\<exists>s'. run_locally y d (snd x) = (Ends (Exited n), s')" for d
    using run by simp
  then show ?thesis
    unfolding m split_beta Let_def s1_def [symmetric] x_def [symmetric] by (simp split: option.split msg.split)
qed

section \<open>Properties\<close>

text \<open>
  C6. When a client that was called to compile something ends with 0, the compiler has been run on this machine with the command of the job and
  has ended with 0, or the job was one that may be sent away, a server was sent the job and the whole output of a preprocessor that ended with
  0, and the first result of that server has the status 0, in which case the output file is what the server has sent after it, up to the end of the
  file. The status of the server may be another multiple of 256 too, which the exit code of the client cannot hold: then no file has
  changed. The output is not named like a debug file (\<open>.dwo\<close>), programs end with wait statuses as the system makes them, and the job is not
  repeated on three servers.
\<close>

theorem client_success:
  assumes "client_main y argv s = (Ends (Exited 0), ops, s')" and "read_invocation (ms_env y) argv (start_job y) = Compiles job icerun"
    and "proper_runs y" and "repeat_rate (ms_env y) \<le> ms_random y"
  shows "\<exists>sc. analyse_argv (ms_env y) argv job icerun [] False = Some sc \<and>
    (\<not> suffix ''.dwo'' (m_output_file (sc_job sc)) \<and> \<not> suffix ''.dwo_icetmp'' (m_output_file (sc_job sc)) \<longrightarrow>
       compiled_here y (sc_job sc) \<or> \<not> argv_result sc \<and> compiled_there (remote_parts y sc) (sc_job sc) s s')"
proof -
  have run: "compile y argv job icerun s = (Ends (Exited 0), ops, s')"
    using assms(1,2) by (simp add: client_main_def)
  have level: "\<not> dcc_recursion_safeguard (ms_env y) \<ge> SafeguardMaxLevel"
    using run by (auto simp: compile_def EXIT_RECURSION_def)
  obtain daemon where daemon: "(if disabled (ms_env y) then Inr None else get_local_daemon (ms_env y) (ms_connect y)) = Inr daemon"
  proof (cases "if disabled (ms_env y) then Inr None else get_local_daemon (ms_env y) (ms_connect y)")
    case (Inl code)
    then have "code = EXIT_TEST_SOCKET_ERROR"
      by (auto simp: get_local_daemon_def split: if_splits option.splits)
    then show ?thesis
      using run level Inl by (simp add: compile_def EXIT_TEST_SOCKET_ERROR_def)
  qed
  then obtain sc where sc: "analyse_argv (ms_env y) argv job icerun [] False = Some sc"
    using run level by (auto simp: compile_def split: option.splits)
  let ?y = "remote_parts y sc" and ?s = "s\<lparr>cw_job := sc_job sc\<rparr>"
  have proper: "proper_runs ?y" "repeat_rate (ms_env ?y) \<le> ms_random ?y" "proper_cpp (rs_cpp (ms_remote ?y))"
    using assms(3,4) by simp_all
  have "compiled_here y (sc_job sc) \<or> \<not> argv_result sc \<and> compiled_there ?y (sc_job sc) s s'"
    if names: "\<not> suffix ''.dwo'' (m_output_file (sc_job sc))" "\<not> suffix ''.dwo_icetmp'' (m_output_file (sc_job sc))"
  proof (cases daemon)
    case None
    then obtain s2 where "run_locally ?y False ?s = (Ends (Exited 0), s2)"
      using run level daemon sc by (auto simp: compile_def Let_def split: prod.splits)
    then show ?thesis
      using run_locally_zero [OF proper(1)] by fastforce
  next
    case (Some p)
    then have "compile_with_daemon ?y p sc ?s = (Ends (Exited 0), ops, s')"
      using run level daemon sc by (simp add: compile_def Let_def)
    from compile_with_daemon_zero [OF proper(1) this proper(2,3)] names
    have "compiled_here y (sc_job sc) \<or> \<not> argv_result sc \<and> compiled_there ?y (sc_job sc) ?s s'"
      by simp
    moreover have "compiled_there ?y (sc_job sc) ?s s' \<Longrightarrow> compiled_there ?y (sc_job sc) s s'"
      using compiled_there_same [of s ?s] by simp
    ultimately show ?thesis
      by blast
  qed
  then show ?thesis
    using sc by blast
qed

text \<open>
  C7. When the remote compilation fails with an exception, the client connects to the daemon anew and compiles here, with the command of the
  job but perhaps more flags for a server, and ends with the exit status of that compiler.
\<close>

theorem remote_failure_builds_here:
  assumes "build_remote (ms_remote y) (ms_repeat y) (local_run_of y s) (ms_random y) (repeat_rate (ms_env y)) (ms_niceness y) envs s = (Inl e, ops, s1)"
    and "e \<noteq> Terminated" and "repeat_rate (ms_env y) \<le> ms_random y"
    and "get_local_daemon (ms_env y) (ms_reconnect y) = Inr (Some p)" and "ms_second y = ([], [Some (JobLocalBeginMsg b)])"
    and "get_absfilename (get_cwd (ms_env y)) (m_output_file (cw_job s)) = Some out"
    and "find_compiler (ms_env y) (cw_job s) = Some c" and "c \<noteq> ''''" and "ms_fork y"
  shows "\<exists>k s2. same_compilation (cw_job s) k \<and> try_remote y envs s =
    (exit_with (shell_exit_status (run_status (ms_run y (dcc_increment_safeguard (local_step k) (ms_env y)) (local_argv c k)))), ops, s2)"
proof -
  let ?s1 = "s1\<lparr>cw_daemon_sends := [], cw_daemon_replies := [Some (JobLocalBeginMsg b)]\<rparr>"
  have same: "same_compilation (cw_job s) (cw_job s1)"
    using assms(1) build_once_job [of s "ms_remote y" "local_run_of y s" "ms_niceness y" envs]
    by (auto simp: build_remote_once [OF assms(3)] split: prod.splits)
  have "get_absfilename (get_cwd (ms_env y)) (m_output_file (cw_job ?s1)) = Some out"
    using assms(6) same by (simp add: same_compilation_def)
  moreover have "find_compiler (ms_env y) (cw_job s1) = Some c"
    using assms(7) same_find_compiler [OF same] by simp
  ultimately have "\<exists>s2. local_job y False ?s1
      = (exit_with (shell_exit_status (run_status (ms_run y (dcc_increment_safeguard (local_step (cw_job s1)) (ms_env y)) (local_argv c (cw_job s1))))), s2)"
    using assms(8,9)
    by (simp add: local_job_def daemon_send_def daemon_get_msg_def next_ok_def Let_def run_locally_def build_local_def)
  then show ?thesis
    using same assms(1,2,4,5) by (cases e) (auto simp: try_remote_def after_exception_def)
qed

text \<open>
  C23. Called as \<open>icerun\<close> with a command, the client ends with the exit code of that command, whether or not there is a daemon, and
  passes its arguments on, but for any that is \<open>-fdirectives-only\<close>.
\<close>

theorem icerun_runs_command:
  assumes "cmd \<notin> {'''', ''--help'', ''--version''}" and "dcc_recursion_safeguard (ms_env y) < SafeguardMaxLevel"
    and "get_local_daemon (ms_env y) (ms_connect y) = Inr daemon" and "ce_getenv (ms_env y) ''ICECC_EXTRAFILES'' = None"
    and "compiler_path_lookup_helper (ms_env y) (find_basename cmd) cmd = Some c" and "c \<noteq> ''''" and "ms_fork y" and "False \<notin> set (cw_locks s)"
    and "run_status (ms_run y (dcc_increment_safeguard SafeguardStepCustom (ms_env y)) (filter (\<lambda>a. a \<noteq> ''-fdirectives-only'') (c # args))) = Exited n"
    and "n < 256"
  shows "\<exists>s'. client_main y (''icerun'' # cmd # args) s = (Ends (Exited n), [], s')"
proof -
  let ?argv = "''icerun'' # cmd # args" and ?job = "(start_job y)\<lparr>m_compiler_name := cmd, m_compiler_pathname := cmd\<rparr>"
  have "find_basename ''icerun'' = ''icerun''"
    by code_simp
  then have call: "read_invocation (ms_env y) ?argv (start_job y) = Compiles ?job True"
    using assms(1) by (simp add: read_invocation_def rs_program_name_def named_compiler_def)
  obtain sc where sc: "analyse_argv (ms_env y) ?argv ?job True [] False = Some sc" "argv_result sc" "sc_extrafiles sc = []"
      "m_flags (sc_job sc) = map (\<lambda>a. (a, Arg_Local)) args"
      "m_input_file (sc_job sc) = ''''" "m_output_file (sc_job sc) = ''''" "m_language (sc_job sc) = Lang_Custom"
      "m_compiler_name (sc_job sc) = find_basename cmd" "m_compiler_pathname (sc_job sc) = cmd"
    using analyse_icerun [of ?job "ms_env y" ?argv "[]" False] assms(1) by auto
  let ?y = "remote_parts y sc" and ?s = "s\<lparr>cw_job := sc_job sc\<rparr>"
  have fork: "ms_fork ?y"
    using assms(7) by (simp add: remote_parts_def)
  have found: "find_compiler (ms_env ?y) (cw_job ?s) = Some c"
    using sc(7-9) assms(5) by (simp add: find_compiler_def)
  have argv: "local_argv c (cw_job ?s) = filter (\<lambda>a. a \<noteq> ''-fdirectives-only'') (c # args)"
    using sc(4-6) by (simp add: local_argv_def allFlags_def comp_def)
  have custom: "m_language (cw_job ?s) = Lang_Custom" "m_output_file (cw_job ?s) = ''''" and locks: "False \<notin> set (cw_locks ?s)"
    using sc(6,7) assms(8) by simp_all
  have st: "run_status (ms_run ?y (dcc_increment_safeguard SafeguardStepCustom (ms_env ?y)) (local_argv c (cw_job ?s))) = Exited n"
    unfolding argv remote_parts_simps by (rule assms(9))
  have here: "\<exists>s'. run_locally ?y False ?s = (Ends (Exited n), s')"
    by (rule build_local_custom [OF found assms(6) custom(1) locks fork st assms(10)])
  have job: "\<exists>s'. local_job ?y False ?s = (Ends (Exited n), s')"
    by (rule local_job_custom [OF found assms(6) custom(1) locks fork custom(2) st assms(10)])
  then have daemon: "\<exists>s'. compile_with_daemon ?y p sc ?s = (Ends (Exited n), [], s')" for p
    using sc(2) assms(4) by (auto simp: compile_with_daemon_def extra_files_def)
  show ?thesis
    using here daemon assms(2,3) sc(1) call
    by (cases "disabled (ms_env y)"; cases daemon) (auto simp: client_main_def compile_def)
qed

text \<open>
  C24. The client cannot call itself without end: a client that is started as the compiler of another one, or in place of a command of a
  client that has been started so itself, refuses to work.
\<close>

theorem recursion_stopped:
  assumes "dcc_recursion_safeguard (ms_env y) \<in> {0, 1}" and "ms_env y' = dcc_increment_safeguard (local_step job) (ms_env y)"
    and "m_language job \<noteq> Lang_Custom \<or> dcc_recursion_safeguard (ms_env y) = 1"
  shows "dcc_recursion_safeguard (ms_env y') = dcc_recursion_safeguard (ms_env y) + local_step job
    \<and> compile y' argv job' icerun s = (exit_with EXIT_RECURSION, [], s)"
proof -
  have "dcc_recursion_safeguard (dcc_increment_safeguard step env) = level + step"
    if "dcc_recursion_safeguard env = level" "level + step \<in> {1, 2, 3}" for env level step
  proof -
    have "atoi (takeWhile (\<lambda>c. c \<noteq> NUL) [char_of (nat ((level + step + 48) mod 256))]) = level + step"
      using that(2) by (elim insertE emptyE) (simp_all only:, code_simp+)
    then show ?thesis
      using that by (auto simp: dcc_recursion_safeguard_def dcc_increment_safeguard_def)
  qed
  from this [OF refl, of "ms_env y" "local_step job"] assms show ?thesis
    by (auto simp: compile_def local_step_def SafeguardStepCustom_def SafeguardStepCompiler_def SafeguardMaxLevel_def)
qed

section \<open>Witnesses\<close>

text \<open>A machine with a daemon on the usual socket, where every program ends with 0 and no server can be reached.\<close>

definition demo_main :: main_sys where
  "demo_main = \<lparr>ms_libs = demo_libs, ms_remote = demo_remote\<lparr>rs_env := demo_env, rs_connect := None\<rparr>,
     ms_repeat = \<lparr>rp_preproc = '''', rp_cpp = None, rp_random = 0, rp_copies = [], rp_waits = [], rp_md5 = (\<lambda>_. '''')\<rparr>,
     ms_times = \<lparr>lr_status = 0, lr_real_msec = 0, lr_user_msec = 0, lr_sys_msec = 0, lr_pfaults = 0, lr_size = (\<lambda>_. None)\<rparr>,
     ms_clock = 0, ms_random = 7, ms_niceness = 0, ms_bindir = ''/usr/bin'', ms_executable = (\<lambda>_. True), ms_usable_env = (\<lambda>_. True),
     ms_connect = (\<lambda>e. Some 45), ms_reconnect = (\<lambda>e. Some 45),
     ms_second = ([], [Some (JobLocalBeginMsg \<lparr>jlb_outfile = '''', jlb_stime = 0, jlb_id = 0, jlb_fulljob = False, jlb_niceness = 0\<rparr>)]),
     ms_pipe = True, ms_fork = True, ms_cpp = (\<lambda>_ _. CppForkFails), ms_run = (\<lambda>_ _. Runs (Exited 0))\<rparr>"

lemma demo_main_simps [simp]:
  "ms_env demo_main = demo_env" "ms_fork demo_main" "ms_run demo_main e a = Runs (Exited 0)" "ms_second demo_main = ([], [Some (JobLocalBeginMsg
     \<lparr>jlb_outfile = '''', jlb_stime = 0, jlb_id = 0, jlb_fulljob = False, jlb_niceness = 0\<rparr>)])"
  "get_local_daemon demo_env (ms_connect demo_main) = Inr (Some 45)" "get_local_daemon demo_env (ms_reconnect demo_main) = Inr (Some 45)"
  "dcc_recursion_safeguard demo_env = 0" "repeat_rate demo_env \<le> ms_random demo_main" "proper_runs demo_main"
  by (simp_all add: demo_main_def demo_env_def proper_status_def proper_cpp_def get_local_daemon_def daemon_endpoints_def dcc_recursion_safeguard_def repeat_rate_def proper_runs_def)

lemma demo_icerun:
  "\<exists>s'. client_main demo_main [''icerun'', ''/bin/true''] (demo_cw []) = (Ends (Exited 0), [], s')"
proof -
  let ?job = "(start_job demo_main)\<lparr>m_compiler_name := ''/bin/true'', m_compiler_pathname := ''/bin/true''\<rparr>"
  have names: "find_basename ''icerun'' = ''icerun''" "contains ''/bin/true'' ''/''"
    by code_simp+
  obtain sc where sc: "analyse_argv demo_env [''icerun'', ''/bin/true''] ?job True [] False = Some sc" "argv_result sc" "sc_extrafiles sc = []"
      "m_language (sc_job sc) = Lang_Custom" "m_output_file (sc_job sc) = ''''" "m_compiler_pathname (sc_job sc) = ''/bin/true''"
    using analyse_icerun [of ?job demo_env "[''icerun'', ''/bin/true'']" "[]" False] by auto
  let ?y = "remote_parts demo_main sc" and ?s = "(demo_cw [])\<lparr>cw_job := sc_job sc\<rparr>"
  have "\<exists>s'. local_job ?y False ?s = (Ends (Exited 0), s')"
    by (rule local_job_custom [where c = "''/bin/true''"])
      (use sc names(2) in \<open>simp_all add: find_compiler_def compiler_path_lookup_helper_def demo_cw_def remote_parts_def run_status_def\<close>)
  then have "\<exists>s'. compile_with_daemon ?y 45 sc ?s = (Ends (Exited 0), [], s')"
    using sc(2,3) by (auto simp: compile_with_daemon_def extra_files_def demo_env_def)
  moreover have "\<not> disabled demo_env"
    by (simp add: disabled_def demo_env_def)
  ultimately show ?thesis
    using sc(1) names(1)
    by (auto simp: client_main_def compile_def read_invocation_def rs_program_name_def named_compiler_def SafeguardMaxLevel_def)
qed

theorem client_success_witness:
  "\<exists>s' sc. client_main demo_main [''icerun'', ''/bin/true''] (demo_cw []) = (Ends (Exited 0), [], s')
     \<and> analyse_argv demo_env [''icerun'', ''/bin/true''] ((start_job demo_main)\<lparr>m_compiler_name := ''/bin/true'', m_compiler_pathname := ''/bin/true''\<rparr>)
         True [] False = Some sc"
proof -
  obtain s' where s': "client_main demo_main [''icerun'', ''/bin/true''] (demo_cw []) = (Ends (Exited 0), [], s')"
    using demo_icerun by blast
  have "find_basename ''icerun'' = ''icerun''"
    by code_simp
  then have "read_invocation (ms_env demo_main) [''icerun'', ''/bin/true''] (start_job demo_main)
      = Compiles ((start_job demo_main)\<lparr>m_compiler_name := ''/bin/true'', m_compiler_pathname := ''/bin/true''\<rparr>) True"
    by (simp add: read_invocation_def rs_program_name_def named_compiler_def)
  from client_success [OF s' this] s' show ?thesis
    by auto
qed

theorem remote_failure_builds_here_witness:
  "\<exists>s2. try_remote demo_main [(''x86_64'', ''/e.zip'')] (demo_cw []) = (Ends (Exited 0), [], s2)"
proof -
  have "rip_out_one (''x86_64'', ''/e.zip'') = []"
    by code_simp
  then have "fst (rip_out_paths [(''x86_64'', ''/e.zip'')]) = []"
    by (simp add: rip_out_paths_def)
  then obtain vm vf where "rip_out_paths [(''x86_64'', ''/e.zip'')] = ([], vm, vf)"
    by (metis prod.collapse)
  then obtain s1 where fails: "build_remote (ms_remote demo_main) (ms_repeat demo_main) (local_run_of demo_main (demo_cw [])) (ms_random demo_main)
      (repeat_rate (ms_env demo_main)) (ms_niceness demo_main) [(''x86_64'', ''/e.zip'')] (demo_cw [])
      = (Inl (ClientError 22 ''Error 22 - $ICECC_VERSION needs to point to .tar files''), [], s1)"
    by (simp add: build_remote_once build_once_def)
  have "get_absfilename (get_cwd demo_env) ''a.o'' = Some ''/home/me/a.o''" "find_compiler demo_env (cw_job (demo_cw [])) = Some ''/usr/bin/gcc''"
    by code_simp+
  then have "get_absfilename (get_cwd (ms_env demo_main)) (m_output_file (cw_job (demo_cw []))) = Some ''/home/me/a.o''"
      "find_compiler (ms_env demo_main) (cw_job (demo_cw [])) = Some ''/usr/bin/gcc''"
    by (simp_all add: demo_cw_def)
  from remote_failure_builds_here [OF fails _ _ _ _ this] show ?thesis
    by (auto simp: run_status_def shell_exit_status_def exit_with_def)
qed

theorem icerun_runs_command_witness:
  "\<exists>s'. client_main demo_main (''icerun'' # ''/bin/echo'' # [''hello'']) (demo_cw []) = (Ends (Exited 0), [], s')"
proof (rule icerun_runs_command [where c = "''/bin/echo''" and daemon = "Some 45"])
  have "contains ''/bin/echo'' ''/''"
    by code_simp
  then show "compiler_path_lookup_helper (ms_env demo_main) (find_basename ''/bin/echo'') ''/bin/echo'' = Some ''/bin/echo''"
    by (simp add: compiler_path_lookup_helper_def)
qed (simp_all add: SafeguardMaxLevel_def run_status_def demo_cw_def, simp add: demo_env_def)

theorem recursion_stopped_witness:
  "compile (demo_main\<lparr>ms_remote := (ms_remote demo_main)\<lparr>rs_env := dcc_increment_safeguard 2 demo_env\<rparr>\<rparr>) [''gcc'', ''a.c''] demo_compile_job False (demo_cw [])
     = (Ends (Exited 111), [], demo_cw [])"
  using recursion_stopped [of demo_main "demo_main\<lparr>ms_remote := (ms_remote demo_main)\<lparr>rs_env := dcc_increment_safeguard 2 demo_env\<rparr>\<rparr>"
      demo_compile_job "[''gcc'', ''a.c'']" demo_compile_job False "demo_cw []"]
  by (simp add: local_step_def SafeguardStepCompiler_def SafeguardMaxLevel_def demo_compile_job_def exit_with_def EXIT_RECURSION_def)

end
