(* ===== verification/Spec2Isabelle.thy ===== *)
theory Spec2Isabelle
  imports Bounds SchedMain SchedFrame DaemonLoop Load EnvFiles ClientMain
begin

text \<open>
  Icecream: a verification development.

  Icecream distributes the compilations of a build over the machines of a network. A client (\<open>client/\<close>)
  stands in for the compiler and asks the daemon of its machine (\<open>daemon/\<close>) for a place to compile; the
  daemon asks the scheduler (\<open>scheduler/\<close>), which knows all daemons, their load and their speed, and
  answers with the machine to use. All of them speak the protocol of \<open>services/comm.cpp\<close>.

  The theories, in the order in which they build on each other:

  \<^item> \<open>Prelude\<close>: machine integers on the wire, byte strings, shared lemmas.
  \<^item> \<open>Channel\<close>: \<open>MsgChannel\<close> of \<open>services/comm.cpp\<close>: the buffers, the state machine of the input
    (\<open>update_state\<close>), reading and writing of fields, waiting, flushing, compression. The answers
    of the kernel to \<open>read\<close>, \<open>send\<close> and \<open>poll\<close> are scripts in the state, and a script that has run out
    answers that nothing is there; zstd and lzo are parameters (record \<open>libs\<close>).
  \<^item> \<open>CompileJob\<close>: \<open>services/job.cpp\<close>. \<open>Messages\<close>: fields, reader and writer of every message class.
  \<^item> \<open>Codec\<close>: the normal form in which a message arrives at a protocol version, and that every
    message survives the wire.
  \<^item> \<open>Transport\<close>: \<open>get_msg\<close>, \<open>send_msg\<close> and the constructor; the stream of frames is reassembled however
    the reads are cut. \<open>Sending\<close>: what \<open>send_msg\<close> puts on the wire, the composition of both ends,
    and the version handshake. \<open>Bounds\<close>: reading stays within the buffer for arbitrary input.
  \<^item> \<open>Discovery\<close>: how daemons and schedulers find each other (\<open>Broadcasts\<close> and \<open>DiscoverSched\<close> of \<open>services/comm.cpp\<close>): the
    formats of announcements, questions and answers, and the search of a daemon over the datagrams that arrive.
  \<^item> \<open>Float32\<close>: rounding to binary32 and binary64, for the scheduler's statistics.
  \<^item> \<open>CompileServer\<close>: \<open>scheduler/compileserver.cpp\<close>, \<open>job.cpp\<close>, \<open>jobstat.cpp\<close>: servers, jobs,
    statistics, eligibility, the test of incoming connections.
  \<^item> \<open>SchedQueue\<close>: the queue of requests; its contract is the locale \<open>job_queue\<close>, a FIFO for each submitter
    and niceness served by niceness. \<open>SchedAlgo\<close>: the choice of a server; the locale \<open>selection\<close> is what
    the algorithms have in common.
  \<^item> \<open>SchedState\<close>, \<open>SchedText\<close>, \<open>Scheduler\<close>: the static state of \<open>scheduler/scheduler.cpp\<close> as a
    record and one definition for each handler of a message and for the periodic work. Addresses of
    connections are keys of a heap, so that the use of a deleted object is visible: it is the result \<open>None\<close>.
  \<^item> \<open>SchedInv\<close>, \<open>SchedEnd\<close>: the invariant of the scheduler's state, that sending and notifying keep it, and
    that the end of a connection uses no deleted object. \<open>SchedFrame\<close>: the exact state after the end of a daemon. \<open>SchedSteps\<close>, \<open>SchedRun\<close>: the other handlers and
    the loop \<open>empty_queue\<close>. \<open>SchedReach\<close>: the scheduler as a state machine, its reachable states, what a daemon and a
    control connection may send. \<open>SchedMain\<close>: parts of the loop of \<open>main\<close>: serving the queue until nothing can be
    assigned, datagrams of daemons and of other schedulers, the disconnection of all.
  \<^item> \<open>CxxString\<close>: searching and replacing in strings, the names of compilers (\<open>services/util.cpp\<close>) and of files
    (\<open>get_absfilename\<close> of \<open>client/remote.cpp\<close>). \<open>ClientEnv\<close>: the client's questions about the
    compiler and the environment (\<open>client/local.cpp\<close>, \<open>client/util.cpp\<close>). \<open>ClientArgs\<close>:
    \<open>analyse_argv\<close> of \<open>client/arg.cpp\<close>, the decision whether a compilation may be sent away and with which arguments.
  \<^item> \<open>DaemonState\<close>, \<open>Daemon\<close>: the state of \<open>daemon/main.cpp\<close> (\<open>Client\<close>, \<open>Clients\<close>, \<open>Daemon\<close>) as records and one
    definition for each member function: requests of clients, answers of the scheduler, environments received and
    made here with their cache (\<open>daemon/environment.cpp\<close>), the slots, the end of a client. Clients are keyed by the address of
    their channel; a failed assertion, a null pointer or a deleted client is \<open>None\<close>. Forks, pipes, files and
    the clock are scripts and functions in the state; whether a file may be read (\<open>d_readable\<close>) and whether it may be executed (\<open>d_access\<close>) are
    two of them.
  \<^item> \<open>DaemonInv\<close>: the locale \<open>ordered_map\<close> (the laws of \<open>std::map\<close>), the accounting of slots and children, the
    shape of a client in each state, the cache. \<open>DaemonSteps\<close>, \<open>DaemonRequests\<close>: each handler keeps them and does not
    fail. \<open>DaemonReach\<close>: the daemon as a state machine, and the places where it goes wrong.
    \<open>DaemonLoop\<close>: the descriptors the daemon waits for, the first half of \<open>answer_client_requests\<close>.
    \<open>Load\<close>: the measurement of the load on Linux (\<open>daemon/load.cpp\<close>), from the texts of \<open>/proc\<close> to what is reported.
    \<open>EnvFiles\<close>: environments on the disk (\<open>daemon/environment.cpp\<close>): sizes, cleaning, the list that is announced, unpacking.

  \<^item> \<open>ExitCode\<close>: \<open>services/exitcode.cpp\<close>. \<open>FileUtil\<close>: names of files and directories
    (\<open>daemon/file_util.cpp\<close>). \<open>FileChunks\<close>: a file cut into messages, and what a receiver makes of them.
  \<^item> \<open>WorkIt\<close>: \<open>daemon/workit.cpp\<close> with the heuristics of \<open>services/gcc.cpp\<close>: the arguments of the compiler, and the loop that moves data
    between client and compiler, as a step function over the answers of the system (\<open>wk_step\<close>, \<open>wk_run\<close>) with the
    invariant \<open>wk_ok\<close>. \<open>Serve\<close>: the child of the daemon that serves one compilation (\<open>daemon/serve.cpp\<close>).
  \<^item> \<open>Remote\<close>: \<open>client/remote.cpp\<close>: environments, the request for a server, the conversation with it, files sent and
    received, local builds, and the comparison of three copies. \<open>RemoteBuild\<close>: the client and the child of the server composed: what
    the compiler reads and what the client gets. \<open>ClientMain\<close>: the client from its command line to its exit code (\<open>client/main.cpp\<close>,
    \<open>build_local\<close> of \<open>client/local.cpp\<close>, \<open>client/cpp.cpp\<close>, \<open>client/safeguard.cpp\<close>): where it compiles, what happens when the remote
    compilation fails, and what an exit code 0 means. Programs are a function from their environment and arguments to how they end.

  Bounds and fuel: loops over lists are structural. The search of \<open>empty_queue\<close> has the number of queued
  requests and one more as fuel, since each round moves to the next request; the loop of the
  handshake has the number of unread bytes; the loops that wait for the kernel consume its scripts. The loop of
  \<open>check_cache_size\<close> has the number of environments, since each round removes one; that of \<open>handle_old_request\<close> the number of
  clients, since each round takes one out of the states that wait for a slot; those that end clients the number of clients. For all of them it
  is proved that the fuel suffices.

  Assumptions on the other side of a connection are explicit. For the daemon: a client sends in each state what the protocol allows there
  (\<open>request_ok\<close>), the scheduler answers clients that wait (\<open>answer_ok\<close>), at most one environment is being installed when one is finished
  or given up (\<open>calm\<close>, \<open>jobs_known\<close>), and the size of the cache does not overflow (\<open>fits\<close>, \<open>room_for\<close>); \<open>activity_ok\<close> puts these
  together for the next message of a client. For the scheduler: \<open>daemon_msg\<close> says what a daemon may send, and the rules of \<open>step\<close>
  what control connections and monitors may. For the client: \<open>env_ok\<close> says that assertions are off, \<open>PATH\<close> is set, the working
  directory is absolute or unknown, and the empty name is no file. Where a peer or the environment can break the code, this is an error theorem.

  Simplifications: the counters that are \<open>int\<close> in \<open>scheduler/compileserver.h\<close> and \<open>scheduler/job.h\<close> are unbounded integers, and characters of a line of
  text are compared as signed ones (\<open>below_blank\<close>), as they are on the machines the program is built for.

  Not modelled: the sockets, options and poll loops of \<open>main\<close> of the scheduler and of the daemon, the list of all nets (\<open>getNetnames\<close>), the
  child that packs an environment, the removal of directory trees by \<open>rmpath\<close>, response files, signals of the user,
  the compiler wrapper, logging. For a job that is compiled three times the processes forked for the copies are not part of the model of
  \<open>build_remote\<close> (they run the modelled \<open>maybe_build_local\<close> and \<open>build_remote_int\<close>); md5 sums are a parameter.
\<close>

end
